(* ===== verification/RC_Prelude.thy ===== *)
theory RC_Prelude
  imports Main "HOL-Library.Word" "HOL-Library.Monad_Syntax"
begin

text \<open>
  The shared vocabulary of the development: results and their sequencing, hash maps
  as partial functions with the operations the Rust code calls on them (\<open>insert\<close>,
  \<open>remove\<close>, \<open>retain\<close>, \<open>len\<close>, \<open>extend\<close>), clock readings, and a locale
  for invariants of step relations. Everything here is generic: no definition of this
  theory models a line of the repository.
\<close>

section \<open>Collections of facts\<close>

named_theorems result_simps \<open>equations that run a result computation\<close>
named_theorems frame \<open>fields an operation leaves alone\<close>
named_theorems inv_intros \<open>an operation keeps its component's invariant\<close>

section \<open>Results\<close>

text \<open>
  A Rust \<open>Result<T>\<close> over an error type is a sum, the error on the left. The \<open>?\<close>
  operator is \<open>rbind\<close>: an error leaves at once, a value goes on.
\<close>

fun rbind :: "'e + 'a \<Rightarrow> ('a \<Rightarrow> 'e + 'b) \<Rightarrow> 'e + 'b" where
  "rbind (Inl e) f = Inl e"
| "rbind (Inr a) f = f a"

fun is_ok :: "'e + 'a \<Rightarrow> bool" where
  "is_ok (Inl e) = False"
| "is_ok (Inr a) = True"

definition is_err :: "'e + 'a \<Rightarrow> bool" where
  "is_err r = (\<not> is_ok r)"

definition or_default :: "'a \<Rightarrow> 'a option \<Rightarrow> 'a" where
  "or_default d x = (case x of Some v \<Rightarrow> v | None \<Rightarrow> d)"

definition ok_or :: "'e \<Rightarrow> 'a option \<Rightarrow> 'e + 'a" where
  "ok_or e x = (case x of None \<Rightarrow> Inl e | Some a \<Rightarrow> Inr a)"

lemma is_ok_iff: "is_ok r \<longleftrightarrow> (\<exists>a. r = Inr a)"
  by (cases r) auto

lemma is_err_simps [simp]: "is_err (Inl e)" "\<not> is_err (Inr a)"
  by (simp_all add: is_err_def)

lemma rbind_Inr_iff [result_simps]:
  "rbind r f = Inr b \<longleftrightarrow> (\<exists>a. r = Inr a \<and> f a = Inr b)"
  by (cases r) auto

lemma rbind_assoc: "rbind (rbind r f) g = rbind r (\<lambda>a. rbind (f a) g)"
  by (cases r) auto

lemma ok_or_Inr_iff [result_simps]: "ok_or e x = Inr a \<longleftrightarrow> x = Some a"
  by (auto simp: ok_or_def split: option.splits)

lemma ok_or_Inl_iff [result_simps]: "ok_or e x = Inl e' \<longleftrightarrow> x = None \<and> e' = e"
  by (auto simp: ok_or_def split: option.splits)

section \<open>Hash maps\<close>

text \<open>
  A \<open>HashMap<K, V>\<close> is a map \<open>'k \<rightharpoonup> 'v\<close>. \<open>len\<close> is the number of keys, so
  facts that count entries carry \<open>finite (dom m)\<close>; \<open>retain\<close> filters by key and
  value; \<open>remove\<close> is the update with \<open>None\<close>.
\<close>

definition hm_len :: "('k \<rightharpoonup> 'v) \<Rightarrow> nat" where
  "hm_len m = card (dom m)"

definition hm_remove :: "'k \<Rightarrow> ('k \<rightharpoonup> 'v) \<Rightarrow> ('k \<rightharpoonup> 'v)" where
  "hm_remove k m = m(k := None)"

definition hm_retain :: "('k \<Rightarrow> 'v \<Rightarrow> bool) \<Rightarrow> ('k \<rightharpoonup> 'v) \<Rightarrow> ('k \<rightharpoonup> 'v)" where
  "hm_retain P m = (\<lambda>k. case m k of None \<Rightarrow> None | Some v \<Rightarrow> if P k v then Some v else None)"

definition hm_contains :: "('k \<rightharpoonup> 'v) \<Rightarrow> 'k \<Rightarrow> bool" where
  "hm_contains m k = (m k \<noteq> None)"

lemma hm_remove_apply [simp]: "hm_remove k m k' = (if k' = k then None else m k')"
  by (simp add: hm_remove_def)

lemma dom_hm_remove [simp]: "dom (hm_remove k m) = dom m - {k}"
  by (simp add: hm_remove_def)

lemma hm_contains_iff [simp]: "hm_contains m k \<longleftrightarrow> k \<in> dom m"
  by (auto simp: hm_contains_def)

lemma hm_retain_Some_iff:
  "hm_retain P m k = Some v \<longleftrightarrow> m k = Some v \<and> P k v"
  by (auto simp: hm_retain_def split: option.splits)

lemma hm_retain_None_iff:
  "hm_retain P m k = None \<longleftrightarrow> (\<forall>v. m k = Some v \<longrightarrow> \<not> P k v)"
  by (auto simp: hm_retain_def split: option.splits)

lemma dom_hm_retain: "dom (hm_retain P m) = {k. \<exists>v. m k = Some v \<and> P k v}"
  by (auto simp: hm_retain_Some_iff)

lemma dom_hm_retain_subset: "dom (hm_retain P m) \<subseteq> dom m"
  by (auto simp: hm_retain_Some_iff)

lemma finite_dom_hm_retain [simp]: "finite (dom m) \<Longrightarrow> finite (dom (hm_retain P m))"
  by (rule finite_subset [OF dom_hm_retain_subset])

lemma hm_len_empty [simp]: "hm_len Map.empty = 0"
  by (simp add: hm_len_def)

lemma hm_len_update:
  "finite (dom m) \<Longrightarrow> hm_len (m(k \<mapsto> v)) = (if k \<in> dom m then hm_len m else Suc (hm_len m))"
  by (simp add: hm_len_def insert_absorb)

lemma hm_len_update_le: "finite (dom m) \<Longrightarrow> hm_len (m(k \<mapsto> v)) \<le> Suc (hm_len m)"
  by (simp add: hm_len_update)

lemma hm_len_remove_le: "finite (dom m) \<Longrightarrow> hm_len (hm_remove k m) \<le> hm_len m"
  by (simp add: hm_len_def card_mono)

lemma hm_len_retain_le: "finite (dom m) \<Longrightarrow> hm_len (hm_retain P m) \<le> hm_len m"
  by (simp add: hm_len_def card_mono dom_hm_retain_subset)

lemma hm_len_retain_less_iff:
  assumes "finite (dom m)"
  shows "hm_len (hm_retain P m) < hm_len m \<longleftrightarrow> (\<exists>k v. m k = Some v \<and> \<not> P k v)"
proof
  assume "hm_len (hm_retain P m) < hm_len m"
  then have "dom (hm_retain P m) \<noteq> dom m"
    by (auto simp: hm_len_def)
  then show "\<exists>k v. m k = Some v \<and> \<not> P k v"
    by (auto simp: dom_hm_retain)
next
  assume "\<exists>k v. m k = Some v \<and> \<not> P k v"
  then obtain k v where kv: "m k = Some v" "\<not> P k v"
    by blast
  then have "k \<notin> dom (hm_retain P m)"
    by (simp add: dom_hm_retain)
  with kv have "dom (hm_retain P m) \<subset> dom m"
    using dom_hm_retain_subset [of P m] by blast
  with assms show "hm_len (hm_retain P m) < hm_len m"
    by (simp add: hm_len_def psubset_card_mono)
qed

lemma hm_len_zero_iff: "finite (dom m) \<Longrightarrow> hm_len m = 0 \<longleftrightarrow> m = Map.empty"
  by (simp add: hm_len_def)

section \<open>Words of different widths\<close>

lemma ucast_up_down [simp]:
  assumes "LENGTH('a) \<le> LENGTH('b)"
  shows "(ucast (ucast (w :: 'a::len word) :: 'b::len word) :: 'a word) = w"
  using assms by (intro bit_word_eqI) (auto simp: bit_simps)

lemma unat_ucast_up:
  assumes "LENGTH('a) \<le> LENGTH('b)"
  shows "unat (ucast (w :: 'a::len word) :: 'b::len word) = unat w"
proof -
  have "unat w < 2 ^ LENGTH('b)"
    using unsigned_less [of w] assms
    by (metis (mono_tags) less_le_trans one_le_numeral power_increasing)
  then show ?thesis by (simp add: unsigned_ucast_eq take_bit_nat_eq_self)
qed

section \<open>Searching lists\<close>

lemma find_unique: "x \<in> set xs \<Longrightarrow> P x \<Longrightarrow> \<forall>y \<in> set xs. P y \<longrightarrow> y = x \<Longrightarrow> find P xs = Some x"
proof (induction xs)
  case (Cons a xs)
  show ?case
  proof (cases "P a")
    case True
    then have "a = x" using Cons.prems(3) by (meson list.set_intros(1))
    with True show ?thesis by simp
  next
    case False
    then have "x \<in> set xs" using Cons.prems(1,2) by auto
    moreover have "\<forall>y \<in> set xs. P y \<longrightarrow> y = x" using Cons.prems(3) by (meson list.set_intros(2))
    ultimately have "find P xs = Some x" using Cons.IH Cons.prems(2) by blast
    with False show ?thesis by simp
  qed
qed simp

lemma set_map_filter: "set (List.map_filter f xs) = {y. \<exists>x \<in> set xs. f x = Some y}"
  by (force simp: List.map_filter_def)

section \<open>Time\<close>

text \<open>
  Instants (\<open>DateTime<Utc>\<close>, \<open>Instant\<close>) and durations are integers in nanoseconds;
  \<open>timestamp\<close> is chrono's whole seconds, rounded down. A definition that reads the
  clock takes the reading as an argument.
\<close>

type_synonym instant = int
type_synonym duration = int

definition secs :: "int \<Rightarrow> duration" where
  "secs n = n * 1000000000"

definition millis :: "int \<Rightarrow> duration" where
  "millis n = n * 1000000"

definition timestamp :: "instant \<Rightarrow> int" where
  "timestamp t = t div 1000000000"

lemma timestamp_mono: "t \<le> t' \<Longrightarrow> timestamp t \<le> timestamp t'"
  by (simp add: timestamp_def zdiv_mono1)

section \<open>Step relations and their invariants\<close>

inductive reach :: "('s \<Rightarrow> 's \<Rightarrow> bool) \<Rightarrow> 's \<Rightarrow> 's \<Rightarrow> bool"
  for step :: "'s \<Rightarrow> 's \<Rightarrow> bool" and init :: 's where
  reach_init: "reach step init init"
| reach_step: "reach step init s \<Longrightarrow> step s t \<Longrightarrow> reach step init t"

text \<open>
  The contract of a component whose operations all keep an invariant: its steps and the
  invariant are the parameters, preservation is the law, and what every reachable state
  satisfies is proved once.
\<close>

locale machine =
  fixes step :: "'s \<Rightarrow> 's \<Rightarrow> bool"
    and inv :: "'s \<Rightarrow> bool"
  assumes step_inv: "step s t \<Longrightarrow> inv s \<Longrightarrow> inv t"
begin

lemma reach_inv:
  assumes "reach step init s" and "inv init"
  shows "inv s"
  using assms by (induction rule: reach.induct) (auto intro: step_inv)

end

end
