(* ===== verification/Errors.thy ===== *)
theory Errors
  imports RC_Prelude
begin

text \<open>
  The error values of the program (\<open>src/utils/errors.rs\<close>): the \<open>Error\<close> enum, its
  machine-readable codes and their HTTP statuses. Where the source formats a message, the
  payload here is the message's fixed text and the interpolated values are left out;
  payloads that are identifiers (a device id, a packet type) are kept. Errors that wrap a
  foreign error type (D-Bus, I/O, JSON, TOML) keep its printed form.

  The device connection states stand here because one error carries two of them.
\<close>

section \<open>Device states and error values\<close>

datatype device_state = Discovered | Pairing | Paired | Connected | Disconnected

datatype error_code =
    DiscoveryError | InvalidPacket | SerializationError | DeserializationError
  | ConnectionError | ConnectionTimeout | PacketTooLarge | PayloadTooLarge | TlsError
  | CertificateError | CapabilityNotSupported
  | DeviceNotFound | DeviceAlreadyExists | InvalidStateTransition
  | PairingTimeout | PairingRejected | NoPendingPairRequest | DeviceNotPaired
  | ServiceUnavailable
  | PluginNotFound | PluginError | NoPluginForPacketType
  | ConfigError | InvalidConfigValue
  | Unauthorized | RateLimited | InvalidRequest | NotFound
  | IoError | FileNotFound
  | JsonError | TomlError
  | ChannelSendError | ChannelReceiveError
  | InternalError | OtherError

datatype error =
    DbusError string
  | DiscoveryError string
  | InvalidPacket string
  | SerializationError string
  | DeserializationError string
  | ConnectionError string
  | ConnectionTimeout string
  | PacketTooLarge nat nat
  | PayloadTooLarge string
  | TlsError string
  | CertificateError string
  | CapabilityNotSupported string string
  | DeviceNotFound string
  | DeviceAlreadyExists string
  | InvalidStateTransition device_state device_state
  | PairingTimeout string
  | PairingRejected string
  | NoPendingPairRequest string
  | DeviceNotPaired string
  | ServiceUnavailable string
  | PluginNotFound string
  | PluginError string string
  | NoPluginForPacketType string
  | ConfigError string
  | InvalidConfigValue string string
  | Unauthorized string
  | InvalidRequest string
  | NotFound string
  | Io string
  | FileNotFound string
  | Json string
  | Toml string
  | ChannelSend
  | ChannelReceive
  | Internal string
  | Other string

type_synonym 'a res = "error + 'a"

section \<open>Codes\<close>

primrec as_str :: "error_code \<Rightarrow> string" where
  "as_str error_code.DiscoveryError = ''DISCOVERY_ERROR''"
| "as_str error_code.InvalidPacket = ''INVALID_PACKET''"
| "as_str error_code.SerializationError = ''SERIALIZATION_ERROR''"
| "as_str error_code.DeserializationError = ''DESERIALIZATION_ERROR''"
| "as_str error_code.ConnectionError = ''CONNECTION_ERROR''"
| "as_str error_code.ConnectionTimeout = ''CONNECTION_TIMEOUT''"
| "as_str error_code.PacketTooLarge = ''PACKET_TOO_LARGE''"
| "as_str error_code.PayloadTooLarge = ''PAYLOAD_TOO_LARGE''"
| "as_str error_code.TlsError = ''TLS_ERROR''"
| "as_str error_code.CertificateError = ''CERTIFICATE_ERROR''"
| "as_str error_code.CapabilityNotSupported = ''CAPABILITY_NOT_SUPPORTED''"
| "as_str error_code.DeviceNotFound = ''DEVICE_NOT_FOUND''"
| "as_str error_code.DeviceAlreadyExists = ''DEVICE_ALREADY_EXISTS''"
| "as_str error_code.InvalidStateTransition = ''INVALID_STATE_TRANSITION''"
| "as_str error_code.PairingTimeout = ''PAIRING_TIMEOUT''"
| "as_str error_code.PairingRejected = ''PAIRING_REJECTED''"
| "as_str error_code.NoPendingPairRequest = ''NO_PENDING_PAIR_REQUEST''"
| "as_str error_code.DeviceNotPaired = ''DEVICE_NOT_PAIRED''"
| "as_str error_code.ServiceUnavailable = ''SERVICE_UNAVAILABLE''"
| "as_str error_code.PluginNotFound = ''PLUGIN_NOT_FOUND''"
| "as_str error_code.PluginError = ''PLUGIN_ERROR''"
| "as_str error_code.NoPluginForPacketType = ''NO_PLUGIN_FOR_PACKET_TYPE''"
| "as_str error_code.ConfigError = ''CONFIG_ERROR''"
| "as_str error_code.InvalidConfigValue = ''INVALID_CONFIG_VALUE''"
| "as_str error_code.Unauthorized = ''UNAUTHORIZED''"
| "as_str error_code.RateLimited = ''RATE_LIMITED''"
| "as_str error_code.InvalidRequest = ''INVALID_REQUEST''"
| "as_str error_code.NotFound = ''NOT_FOUND''"
| "as_str error_code.IoError = ''IO_ERROR''"
| "as_str error_code.FileNotFound = ''FILE_NOT_FOUND''"
| "as_str error_code.JsonError = ''JSON_ERROR''"
| "as_str error_code.TomlError = ''TOML_ERROR''"
| "as_str error_code.ChannelSendError = ''CHANNEL_SEND_ERROR''"
| "as_str error_code.ChannelReceiveError = ''CHANNEL_RECEIVE_ERROR''"
| "as_str error_code.InternalError = ''INTERNAL_ERROR''"
| "as_str error_code.OtherError = ''OTHER_ERROR''"

definition http_status :: "error_code \<Rightarrow> nat" where
  "http_status c = (case c of
      error_code.Unauthorized \<Rightarrow> 401
    | error_code.RateLimited \<Rightarrow> 429
    | error_code.NotFound \<Rightarrow> 404
    | error_code.DeviceNotFound \<Rightarrow> 404
    | error_code.PluginNotFound \<Rightarrow> 404
    | error_code.FileNotFound \<Rightarrow> 404
    | error_code.InvalidRequest \<Rightarrow> 400
    | error_code.InvalidPacket \<Rightarrow> 400
    | error_code.InvalidConfigValue \<Rightarrow> 400
    | error_code.CapabilityNotSupported \<Rightarrow> 400
    | error_code.DeviceAlreadyExists \<Rightarrow> 409
    | error_code.DeviceNotPaired \<Rightarrow> 409
    | error_code.PairingRejected \<Rightarrow> 409
    | error_code.PairingTimeout \<Rightarrow> 503
    | error_code.ConnectionError \<Rightarrow> 503
    | error_code.TlsError \<Rightarrow> 503
    | error_code.ConnectionTimeout \<Rightarrow> 503
    | error_code.ServiceUnavailable \<Rightarrow> 503
    | error_code.PacketTooLarge \<Rightarrow> 413
    | error_code.PayloadTooLarge \<Rightarrow> 413
    | _ \<Rightarrow> 500)"

primrec code :: "error \<Rightarrow> error_code" where
  "code (DiscoveryError _) = error_code.DiscoveryError"
| "code (InvalidPacket _) = error_code.InvalidPacket"
| "code (SerializationError _) = error_code.SerializationError"
| "code (DeserializationError _) = error_code.DeserializationError"
| "code (ConnectionError _) = error_code.ConnectionError"
| "code (ConnectionTimeout _) = error_code.ConnectionTimeout"
| "code (PacketTooLarge _ _) = error_code.PacketTooLarge"
| "code (PayloadTooLarge _) = error_code.PayloadTooLarge"
| "code (TlsError _) = error_code.TlsError"
| "code (CertificateError _) = error_code.CertificateError"
| "code (CapabilityNotSupported _ _) = error_code.CapabilityNotSupported"
| "code (DeviceNotFound _) = error_code.DeviceNotFound"
| "code (DeviceAlreadyExists _) = error_code.DeviceAlreadyExists"
| "code (InvalidStateTransition _ _) = error_code.InvalidStateTransition"
| "code (PairingTimeout _) = error_code.PairingTimeout"
| "code (PairingRejected _) = error_code.PairingRejected"
| "code (NoPendingPairRequest _) = error_code.NoPendingPairRequest"
| "code (DeviceNotPaired _) = error_code.DeviceNotPaired"
| "code (ServiceUnavailable _) = error_code.ServiceUnavailable"
| "code (PluginNotFound _) = error_code.PluginNotFound"
| "code (PluginError _ _) = error_code.PluginError"
| "code (NoPluginForPacketType _) = error_code.NoPluginForPacketType"
| "code (ConfigError _) = error_code.ConfigError"
| "code (InvalidConfigValue _ _) = error_code.InvalidConfigValue"
| "code (Unauthorized _) = error_code.Unauthorized"
| "code (InvalidRequest _) = error_code.InvalidRequest"
| "code (NotFound _) = error_code.NotFound"
| "code (Io _) = error_code.IoError"
| "code (FileNotFound _) = error_code.FileNotFound"
| "code (Json _) = error_code.JsonError"
| "code (Toml _) = error_code.TomlError"
| "code ChannelSend = error_code.ChannelSendError"
| "code ChannelReceive = error_code.ChannelReceiveError"
| "code (Internal _) = error_code.InternalError"
| "code (Other _) = error_code.OtherError"
| "code (DbusError _) = error_code.OtherError"

section \<open>Error constructors with context\<close>

definition io_error :: "string \<Rightarrow> string option \<Rightarrow> error" where
  "io_error message path =
     (case path of Some p \<Rightarrow> Internal (message @ '': '' @ p) | None \<Rightarrow> Internal message)"

definition not_found :: "string \<Rightarrow> string option \<Rightarrow> error" where
  "not_found message path =
     (case path of Some p \<Rightarrow> NotFound (message @ '': '' @ p) | None \<Rightarrow> NotFound message)"

definition validation :: "string \<Rightarrow> string option \<Rightarrow> error" where
  "validation message fld =
     (case fld of Some f \<Rightarrow> InvalidRequest (f @ '': '' @ message) | None \<Rightarrow> InvalidRequest message)"

section \<open>What clients rely on\<close>

text \<open>
  The code an error reports is either a client condition (4xx), an unavailable peer or
  service (503) or an internal fault (500): the pairing and connection errors never read
  as an internal fault, which is what the API's monitoring depends on.
\<close>

lemma http_status_range: "http_status c \<in> {400, 401, 404, 409, 413, 429, 500, 503}"
  by (cases c) (simp_all add: http_status_def)

lemma code_never_rate_limited: "code e \<noteq> error_code.RateLimited"
  by (cases e) simp_all

definition all_codes :: "error_code list" where
  "all_codes =
    [error_code.DiscoveryError, error_code.InvalidPacket, error_code.SerializationError,
     error_code.DeserializationError, error_code.ConnectionError, error_code.ConnectionTimeout,
     error_code.PacketTooLarge, error_code.PayloadTooLarge, error_code.TlsError,
     error_code.CertificateError, error_code.CapabilityNotSupported, error_code.DeviceNotFound,
     error_code.DeviceAlreadyExists, error_code.InvalidStateTransition, error_code.PairingTimeout,
     error_code.PairingRejected, error_code.NoPendingPairRequest, error_code.DeviceNotPaired,
     error_code.ServiceUnavailable, error_code.PluginNotFound, error_code.PluginError,
     error_code.NoPluginForPacketType, error_code.ConfigError, error_code.InvalidConfigValue,
     error_code.Unauthorized, error_code.RateLimited, error_code.InvalidRequest,
     error_code.NotFound, error_code.IoError, error_code.FileNotFound,
     error_code.JsonError, error_code.TomlError, error_code.ChannelSendError,
     error_code.ChannelReceiveError, error_code.InternalError, error_code.OtherError]"

lemma set_all_codes: "set all_codes = UNIV"
proof -
  have "c \<in> set all_codes" for c
    by (cases c) (simp_all add: all_codes_def)
  then show ?thesis by blast
qed

lemma distinct_code_names: "distinct (map as_str all_codes)"
  by code_simp

text \<open>The wire name of a code determines the code.\<close>

lemma inj_as_str: "inj as_str"
  using distinct_code_names by (simp add: distinct_map set_all_codes)

end
