(* ===== verification/Text.thy ===== *)
theory Text
  imports RC_Prelude
begin

text \<open>
  Rust strings. A \<open>String\<close> or \<open>&str\<close> is its UTF-8 bytes, an Isabelle \<open>string\<close>: its
  \<open>len()\<close> is the list's length, and comparing, hashing and searching for an ASCII needle
  work bytewise. Where the code goes through \<open>chars()\<close> the bytes are decoded to code
  points. This theory holds the decoder and encoder of the standard library
  (\<open>from_utf8\<close>, \<open>chars\<close>, \<open>collect::<String>\<close>) with their round trips, \<open>trim\<close>,
  the ASCII predicates and \<open>parse::<u32>\<close>/\<open>parse::<i64>\<close>.
\<close>

section \<open>UTF-8\<close>

definition scalar_value :: "nat \<Rightarrow> bool" where
  "scalar_value c \<longleftrightarrow> c < 55296 \<or> (57344 \<le> c \<and> c < 1114112)"

definition is_cont :: "nat \<Rightarrow> bool" where
  "is_cont b \<longleftrightarrow> 128 \<le> b \<and> b < 192"

definition utf8_enc :: "nat \<Rightarrow> nat list" where
  "utf8_enc c =
     (if c < 128 then [c]
      else if c < 2048 then [192 + c div 64, 128 + c mod 64]
      else if c < 65536 then [224 + c div 4096, 128 + c div 64 mod 64, 128 + c mod 64]
      else [240 + c div 262144, 128 + c div 4096 mod 64, 128 + c div 64 mod 64, 128 + c mod 64])"

definition dec2 :: "nat \<Rightarrow> nat \<Rightarrow> nat option" where
  "dec2 a b = (if 194 \<le> a \<and> a < 224 \<and> is_cont b then Some ((a - 192) * 64 + (b - 128)) else None)"

definition dec3 :: "nat \<Rightarrow> nat \<Rightarrow> nat \<Rightarrow> nat option" where
  "dec3 a b c =
     (let cp = (a - 224) * 4096 + (b - 128) * 64 + (c - 128)
      in if 224 \<le> a \<and> a < 240 \<and> is_cont b \<and> is_cont c \<and> 2048 \<le> cp \<and> scalar_value cp
         then Some cp else None)"

definition dec4 :: "nat \<Rightarrow> nat \<Rightarrow> nat \<Rightarrow> nat \<Rightarrow> nat option" where
  "dec4 a b c d =
     (let cp = (a - 240) * 262144 + (b - 128) * 4096 + (c - 128) * 64 + (d - 128)
      in if 240 \<le> a \<and> a < 245 \<and> is_cont b \<and> is_cont c \<and> is_cont d \<and> 65536 \<le> cp \<and> scalar_value cp
         then Some cp else None)"

text \<open>
  The lead byte decides the length of a sequence; a truncated, overlong or surrogate
  sequence is refused, as \<open>std::str::from_utf8\<close> does.
\<close>

fun utf8_decode :: "nat list \<Rightarrow> nat list option" where
  "utf8_decode [] = Some []"
| "utf8_decode (a # r) =
     (if a < 128 then map_option (Cons a) (utf8_decode r)
      else if a < 224 then
        (case r of b # r' \<Rightarrow> (case dec2 a b of Some cp \<Rightarrow> map_option (Cons cp) (utf8_decode r')
                                        | None \<Rightarrow> None)
                 | _ \<Rightarrow> None)
      else if a < 240 then
        (case r of b # c # r' \<Rightarrow> (case dec3 a b c of Some cp \<Rightarrow> map_option (Cons cp) (utf8_decode r')
                                            | None \<Rightarrow> None)
                 | _ \<Rightarrow> None)
      else
        (case r of b # c # d # r' \<Rightarrow> (case dec4 a b c d of Some cp \<Rightarrow> map_option (Cons cp) (utf8_decode r')
                                                  | None \<Rightarrow> None)
                 | _ \<Rightarrow> None))"

lemma split64: "n div 64 * 64 + n mod 64 = (n::nat)"
  by (rule div_mult_mod_eq)

lemma split4096: "n div 4096 * 4096 + n div 64 mod 64 * 64 + n mod 64 = (n::nat)"
proof -
  have "n div 4096 = n div 64 div 64"
    by (simp flip: div_mult2_eq)
  with split64 [of n] split64 [of "n div 64"] show ?thesis
    by linarith
qed

lemma split262144:
  "n div 262144 * 262144 + n div 4096 mod 64 * 4096 + n div 64 mod 64 * 64 + n mod 64 = (n::nat)"
proof -
  have e: "n div 262144 = n div 64 div 4096" "n div 4096 = n div 64 div 64"
    by (simp_all flip: div_mult2_eq)
  show ?thesis
    unfolding e using split64 [of n] split4096 [of "n div 64"] by linarith
qed

lemma join64:
  assumes "cp = q * 64 + (z::nat)" "z < 64"
  shows "cp mod 64 = z" "cp div 64 = q"
  using assms by simp_all

lemma dec2_enc:
  assumes "128 \<le> c" "c < 2048"
  shows "dec2 (192 + c div 64) (128 + c mod 64) = Some c"
proof -
  have "2 \<le> c div 64" "c div 64 < 32" "c mod 64 < 64"
    using assms by (auto simp: div_le_mono less_mult_imp_div_less)
  then show ?thesis
    by (simp add: dec2_def is_cont_def)
qed

lemma dec3_enc:
  assumes "2048 \<le> c" "c < 65536" "scalar_value c"
  shows "dec3 (224 + c div 4096) (128 + c div 64 mod 64) (128 + c mod 64) = Some c"
proof -
  have "c div 4096 < 16" "c div 64 mod 64 < 64" "c mod 64 < 64"
    using assms by (auto simp: less_mult_imp_div_less)
  with assms split4096 [of c] show ?thesis
    by (simp add: dec3_def is_cont_def Let_def)
qed

lemma dec4_enc:
  assumes "65536 \<le> c" "scalar_value c"
  shows "dec4 (240 + c div 262144) (128 + c div 4096 mod 64) (128 + c div 64 mod 64) (128 + c mod 64)
           = Some c"
proof -
  have "c < 1114112"
    using assms by (auto simp: scalar_value_def)
  then have "c div 262144 < 5" "c div 4096 mod 64 < 64" "c div 64 mod 64 < 64" "c mod 64 < 64"
    by (auto simp: less_mult_imp_div_less)
  with assms split262144 [of c] show ?thesis
    by (simp add: dec4_def is_cont_def Let_def)
qed

lemma utf8_decode_enc:
  assumes "scalar_value c"
  shows "utf8_decode (utf8_enc c @ r) = map_option (Cons c) (utf8_decode r)"
proof -
  have c3: "c div 4096 < 16" if "c < 65536"
    using that by (simp add: less_mult_imp_div_less)
  have c2: "c div 64 < 32" if "c < 2048"
    using that by (simp add: less_mult_imp_div_less)
  consider "c < 128" | "128 \<le> c" "c < 2048" | "2048 \<le> c" "c < 65536" | "65536 \<le> c"
    by linarith
  then show ?thesis
  proof cases
    case 1
    then show ?thesis by (simp add: utf8_enc_def)
  next
    case 2
    with c2 show ?thesis by (simp add: utf8_enc_def dec2_enc)
  next
    case 3
    with c3 assms show ?thesis by (simp add: utf8_enc_def dec3_enc)
  next
    case 4
    with assms show ?thesis by (simp add: utf8_enc_def dec4_enc)
  qed
qed

lemma utf8_decode_encode:
  "list_all scalar_value cs \<Longrightarrow> utf8_decode (concat (map utf8_enc cs)) = Some cs"
  by (induction cs) (simp_all add: utf8_decode_enc)

lemma dec2_Some:
  assumes "dec2 a b = Some cp"
  shows "scalar_value cp \<and> utf8_enc cp = [a, b]"
proof -
  from assms have ab: "194 \<le> a" "a < 224" "128 \<le> b" "b < 192" and cp: "cp = (a - 192) * 64 + (b - 128)"
    by (auto simp: dec2_def is_cont_def split: if_splits)
  define x y where "x = a - 192" and "y = b - 128"
  with ab have xy: "2 \<le> x" "x < 32" "y < 64" "a = 192 + x" "b = 128 + y"
    by auto
  have "cp = x * 64 + y" by (simp add: cp x_def y_def)
  with xy show ?thesis
    by (auto simp: utf8_enc_def scalar_value_def)
qed

lemma dec3_Some:
  assumes "dec3 a b c = Some cp"
  shows "scalar_value cp \<and> utf8_enc cp = [a, b, c]"
proof -
  define x y z where "x = a - 224" and "y = b - 128" and "z = c - 128"
  with assms have xyz: "x < 16" "y < 64" "z < 64" "a = 224 + x" "b = 128 + y" "c = 128 + z"
    and cp: "cp = x * 4096 + y * 64 + z" "2048 \<le> cp" "scalar_value cp"
    by (auto simp: dec3_def is_cont_def Let_def split: if_splits)
  have "cp < 65536" using xyz cp(1) by linarith
  moreover have q: "cp mod 64 = z" "cp div 64 = x * 64 + y"
    using join64 [of cp "x * 64 + y" z] cp(1) xyz(3) by (simp_all add: algebra_simps)
  moreover have "cp div 64 mod 64 = y" "cp div 4096 = x"
    using xyz(2) q(2) div_mult2_eq [of cp 64 64] by simp_all
  ultimately show ?thesis
    using cp xyz by (simp add: utf8_enc_def)
qed

lemma dec4_Some:
  assumes "dec4 a b c d = Some cp"
  shows "scalar_value cp \<and> utf8_enc cp = [a, b, c, d]"
proof -
  define x y z w where "x = a - 240" and "y = b - 128" and "z = c - 128" and "w = d - 128"
  with assms have xyz: "x < 5" "y < 64" "z < 64" "w < 64"
      "a = 240 + x" "b = 128 + y" "c = 128 + z" "d = 128 + w"
    and cp: "cp = x * 262144 + y * 4096 + z * 64 + w" "65536 \<le> cp" "scalar_value cp"
    by (auto simp: dec4_def is_cont_def Let_def split: if_splits)
  have q: "cp mod 64 = w" "cp div 64 = (x * 64 + y) * 64 + z"
    using join64 [of cp "(x * 64 + y) * 64 + z" w] cp(1) xyz(4) by (simp_all add: algebra_simps)
  have q2: "cp div 64 mod 64 = z" "cp div 4096 = x * 64 + y"
    using join64 [OF q(2) xyz(3)] div_mult2_eq [of cp 64 64] by simp_all
  have "cp div 4096 mod 64 = y" "cp div 262144 = x"
    using join64 [OF q2(2) xyz(2)] div_mult2_eq [of cp 4096 64] by simp_all
  then show ?thesis
    using cp xyz q q2 by (simp add: utf8_enc_def)
qed

lemma utf8_encode_decode:
  "utf8_decode bs = Some cs \<Longrightarrow> list_all scalar_value cs \<and> concat (map utf8_enc cs) = bs"
proof (induction bs arbitrary: cs rule: utf8_decode.induct)
  case 1
  then show ?case by simp
next
  case (2 a r)
  show ?case
  proof (cases "a < 128")
    case True
    with "2.prems" obtain cs' where "utf8_decode r = Some cs'" "cs = a # cs'"
      by auto
    with True "2.IH"(1) show ?thesis
      by (auto simp: utf8_enc_def scalar_value_def)
  next
    case ge: False
    show ?thesis
    proof (cases "a < 224")
      case True
      with ge "2.prems" obtain b r' cp cs' where
        "r = b # r'" "dec2 a b = Some cp" "utf8_decode r' = Some cs'" "cs = cp # cs'"
        by (auto split: list.splits option.splits)
      with ge True "2.IH"(2) dec2_Some show ?thesis by fastforce
    next
      case ge2: False
      show ?thesis
      proof (cases "a < 240")
        case True
        with ge ge2 "2.prems" obtain b c r' cp cs' where
          "r = b # c # r'" "dec3 a b c = Some cp" "utf8_decode r' = Some cs'" "cs = cp # cs'"
          by (auto split: list.splits option.splits)
        with ge ge2 True "2.IH"(3) dec3_Some show ?thesis by fastforce
      next
        case False
        with ge ge2 "2.prems" obtain b c d r' cp cs' where
          "r = b # c # d # r'" "dec4 a b c d = Some cp" "utf8_decode r' = Some cs'" "cs = cp # cs'"
          by (auto split: list.splits option.splits)
        with ge ge2 False "2.IH"(4) dec4_Some show ?thesis by fastforce
      qed
    qed
  qed
qed

section \<open>Characters of a string\<close>

definition bytes_of :: "string \<Rightarrow> nat list" where
  "bytes_of s = map of_char s"

definition valid_utf8 :: "string \<Rightarrow> bool" where
  "valid_utf8 s = (utf8_decode (bytes_of s) \<noteq> None)"

text \<open>\<open>chars()\<close> of a string; on bytes that are no UTF-8, which no Rust string holds, it is empty.\<close>

definition chars_of :: "string \<Rightarrow> nat list" where
  "chars_of s = (case utf8_decode (bytes_of s) of Some cs \<Rightarrow> cs | None \<Rightarrow> [])"

definition string_of :: "nat list \<Rightarrow> string" where
  "string_of cs = map char_of (concat (map utf8_enc cs))"

definition ascii_string :: "string \<Rightarrow> bool" where
  "ascii_string s = list_all (\<lambda>c. of_char c < (128::nat)) s"

lemma utf8_decode_ascii: "list_all (\<lambda>b. b < 128) bs \<Longrightarrow> utf8_decode bs = Some bs"
  by (induction bs) simp_all

lemma chars_of_ascii: "ascii_string s \<Longrightarrow> chars_of s = bytes_of s"
  by (simp add: chars_of_def bytes_of_def ascii_string_def utf8_decode_ascii list_all_iff)

lemma valid_utf8_ascii: "ascii_string s \<Longrightarrow> valid_utf8 s"
  by (simp add: valid_utf8_def bytes_of_def ascii_string_def utf8_decode_ascii list_all_iff)

lemma utf8_enc_byte: "scalar_value c \<Longrightarrow> b \<in> set (utf8_enc c) \<Longrightarrow> b < 256"
  by (auto simp: utf8_enc_def scalar_value_def split: if_splits)

lemma bytes_of_string_of:
  assumes "list_all scalar_value cs"
  shows "bytes_of (string_of cs) = concat (map utf8_enc cs)"
proof -
  have "b < 256" if "b \<in> set (concat (map utf8_enc cs))" for b
    using that assms by (auto simp: list_all_iff dest: utf8_enc_byte)
  then show ?thesis
    by (auto simp: bytes_of_def string_of_def comp_def intro!: map_idI)
qed

lemma chars_of_string_of:
  "list_all scalar_value cs \<Longrightarrow> chars_of (string_of cs) = cs"
  by (simp add: chars_of_def bytes_of_string_of utf8_decode_encode)

lemma valid_utf8_string_of: "list_all scalar_value cs \<Longrightarrow> valid_utf8 (string_of cs)"
  by (simp add: valid_utf8_def bytes_of_string_of utf8_decode_encode)

lemma chars_of_scalar: "list_all scalar_value (chars_of s)"
  using utf8_encode_decode [of "bytes_of s"]
  by (auto simp: chars_of_def split: option.splits)

lemma string_of_chars_of:
  assumes "valid_utf8 s"
  shows "string_of (chars_of s) = s"
proof -
  from assms obtain cs where cs: "utf8_decode (bytes_of s) = Some cs"
    by (auto simp: valid_utf8_def)
  then have "map char_of (concat (map utf8_enc cs)) = map char_of (bytes_of s)"
    using utf8_encode_decode by metis
  also have "\<dots> = s"
    by (simp add: bytes_of_def comp_def)
  finally show ?thesis
    using cs by (simp add: string_of_def chars_of_def)
qed

section \<open>Whitespace, digits, letters\<close>

text \<open>The Unicode property \<open>White_Space\<close>, which \<open>str::trim\<close> strips.\<close>

definition white_space :: "nat \<Rightarrow> bool" where
  "white_space c \<longleftrightarrow>
     (9 \<le> c \<and> c \<le> 13) \<or> c = 32 \<or> c = 133 \<or> c = 160 \<or> c = 5760 \<or> (8192 \<le> c \<and> c \<le> 8202)
     \<or> c = 8232 \<or> c = 8233 \<or> c = 8239 \<or> c = 8287 \<or> c = 12288"

definition trim_chars :: "nat list \<Rightarrow> nat list" where
  "trim_chars cs = rev (dropWhile white_space (rev (dropWhile white_space cs)))"

definition trim :: "string \<Rightarrow> string" where
  "trim s = string_of (trim_chars (chars_of s))"

definition trim_start :: "string \<Rightarrow> string" where
  "trim_start s = string_of (dropWhile white_space (chars_of s))"

definition ascii_alnum :: "nat \<Rightarrow> bool" where
  "ascii_alnum c \<longleftrightarrow> (48 \<le> c \<and> c \<le> 57) \<or> (65 \<le> c \<and> c \<le> 90) \<or> (97 \<le> c \<and> c \<le> 122)"

text \<open>\<open>u8::is_ascii_whitespace\<close>: unlike \<open>White_Space\<close> it leaves out the vertical tab.\<close>

definition ascii_whitespace :: "char \<Rightarrow> bool" where
  "ascii_whitespace c \<longleftrightarrow> of_char c \<in> {9::nat, 10, 12, 13, 32}"

definition starts_with :: "string \<Rightarrow> string \<Rightarrow> bool" where
  "starts_with s pre \<longleftrightarrow> take (length pre) s = pre"

definition strip_prefix :: "string \<Rightarrow> string \<Rightarrow> string option" where
  "strip_prefix pre s = (if starts_with s pre then Some (drop (length pre) s) else None)"

definition str_contains :: "string \<Rightarrow> string \<Rightarrow> bool" where
  "str_contains s needle = (\<exists>i \<le> length s. take (length needle) (drop i s) = needle)"

lemma set_dropWhile_subset: "set (dropWhile P xs) \<subseteq> set xs"
  by (auto dest: set_dropWhileD)

lemma set_trim_chars: "set (trim_chars cs) \<subseteq> set cs"
  using set_dropWhile_subset [of white_space cs]
    set_dropWhile_subset [of white_space "rev (dropWhile white_space cs)"]
  by (auto simp: trim_chars_def)

lemma length_trim_chars_le: "length (trim_chars cs) \<le> length cs"
  unfolding trim_chars_def
  by (metis length_dropWhile_le length_rev order_trans)

lemma trim_chars_id:
  assumes "cs = [] \<or> (\<not> white_space (hd cs) \<and> \<not> white_space (last cs))"
  shows "trim_chars cs = cs"
proof (cases "cs = []")
  case False
  with assms have "dropWhile white_space cs = cs"
    by (simp add: dropWhile_eq_self_iff)
  moreover have "dropWhile white_space (rev cs) = rev cs"
    using False assms by (simp add: dropWhile_eq_self_iff hd_rev)
  ultimately show ?thesis by (simp add: trim_chars_def)
qed (simp add: trim_chars_def)

lemma trim_chars_ends:
  assumes "trim_chars cs \<noteq> []"
  shows "\<not> white_space (hd (trim_chars cs)) \<and> \<not> white_space (last (trim_chars cs))"
proof -
  let ?a = "dropWhile white_space cs"
  let ?b = "dropWhile white_space (rev ?a)"
  have b: "?b \<noteq> []" using assms by (simp add: trim_chars_def)
  then have last: "\<not> white_space (last (trim_chars cs))"
    using hd_dropWhile [of white_space "rev ?a"] by (simp add: trim_chars_def last_rev)
  have "?a \<noteq> []" using b by (metis dropWhile.simps(1) rev.simps(1))
  then have hd: "\<not> white_space (hd ?a)"
    by (simp add: hd_dropWhile)
  have "rev ?a = takeWhile white_space (rev ?a) @ ?b"
    by simp
  then have "?a = rev ?b @ rev (takeWhile white_space (rev ?a))"
    by (metis rev_append rev_rev_ident)
  with b have "hd ?a = hd (rev ?b)"
    by (metis Nil_is_rev_conv hd_append2)
  with hd last show ?thesis by (simp add: trim_chars_def)
qed

section \<open>Parsing integers\<close>

text \<open>
  \<open>str::parse\<close> for the integer types: an optional sign (a minus only for signed types), at
  least one ASCII digit and nothing else, and a value in the type's range.
\<close>

definition digit_val :: "char \<Rightarrow> nat option" where
  "digit_val c = (let n = of_char c in if 48 \<le> n \<and> n \<le> (57::nat) then Some (n - 48) else None)"

fun parse_digits :: "nat \<Rightarrow> string \<Rightarrow> nat option" where
  "parse_digits acc [] = Some acc"
| "parse_digits acc (c # cs) =
     (case digit_val c of None \<Rightarrow> None | Some d \<Rightarrow> parse_digits (acc * 10 + d) cs)"

definition parse_nat :: "string \<Rightarrow> nat option" where
  "parse_nat s = (if s = [] then None else parse_digits 0 s)"

definition parse_u32 :: "string \<Rightarrow> 32 word option" where
  "parse_u32 s =
     (case (case s of [] \<Rightarrow> None
                    | c # cs \<Rightarrow> if c = CHR ''+'' then parse_nat cs else parse_nat s) of
        None \<Rightarrow> None
      | Some n \<Rightarrow> if n < 2 ^ 32 then Some (of_nat n) else None)"

definition parse_i64 :: "string \<Rightarrow> 64 word option" where
  "parse_i64 s =
     (case s of [] \<Rightarrow> None
      | c # cs \<Rightarrow>
          if c = CHR ''-'' then
            (case parse_nat cs of None \<Rightarrow> None
             | Some n \<Rightarrow> if n \<le> 2 ^ 63 then Some (- of_nat n) else None)
          else
            (case (if c = CHR ''+'' then parse_nat cs else parse_nat s) of None \<Rightarrow> None
             | Some n \<Rightarrow> if n < 2 ^ 63 then Some (of_nat n) else None))"

section \<open>Splitting\<close>

text \<open>\<open>str::split\<close> and \<open>str::split_once\<close> with a one-byte separator.\<close>

fun split_on :: "char \<Rightarrow> string \<Rightarrow> string list" where
  "split_on c [] = [[]]"
| "split_on c (x # xs) =
     (if x = c then [] # split_on c xs
      else (case split_on c xs of p # ps \<Rightarrow> (x # p) # ps | [] \<Rightarrow> [[x]]))"

definition split_once :: "char \<Rightarrow> string \<Rightarrow> (string \<times> string) option" where
  "split_once c s =
     (case dropWhile (\<lambda>x. x \<noteq> c) s of [] \<Rightarrow> None | _ # rest \<Rightarrow> Some (takeWhile (\<lambda>x. x \<noteq> c) s, rest))"

lemma split_on_parts: "\<forall>p \<in> set (split_on c s). c \<notin> set p"
  by (induction c s rule: split_on.induct) (auto split: list.splits)

lemma split_once_Some: "split_once c s = Some (a, b) \<Longrightarrow> s = a @ c # b"
proof -
  assume "split_once c s = Some (a, b)"
  then have "a = takeWhile (\<lambda>x. x \<noteq> c) s" and d: "\<exists>x. dropWhile (\<lambda>x. x \<noteq> c) s = x # b"
    by (auto simp: split_once_def split: list.splits)
  moreover have "dropWhile (\<lambda>x. x \<noteq> c) s = c # b"
    using d hd_dropWhile [of "\<lambda>x. x \<noteq> c" s] by (metis list.distinct(1) list.sel(1))
  ultimately show ?thesis by (metis takeWhile_dropWhile_id)
qed

text \<open>\<open>to_ascii_lowercase\<close> of one byte.\<close>

definition ascii_lower :: "char \<Rightarrow> char" where
  "ascii_lower c = (let n = of_char c in if 65 \<le> n \<and> n \<le> (90::nat) then char_of (n + 32) else c)"

end
