(* ===== verification/Json.thy ===== *)
theory Json
  imports Text
begin

text \<open>
  JSON values as \<open>serde_json\<close> presents them to the program. A number is an unsigned
  64-bit integer, a negative 64-bit integer or a float; an object is an association list
  (the text of a packet may repeat a key, which the derived decoders refuse; an object that is
  held as a value is the library's map, in which a key occurs once). The
  accessors \<open>as_i64\<close>, \<open>as_u64\<close>, \<open>as_bool\<close> and \<open>get\<close> are the library's documented
  ones. Reading and printing JSON text is the library's and enters the model as a
  parameter of the definitions that call it.
\<close>

type_synonym u64 = "64 word"
type_synonym i64 = "64 word"
type_synonym u32 = "32 word"
type_synonym u16 = "16 word"
type_synonym u8 = "8 word"

datatype jnumber =
    PosInt u64
  | NegInt i64
  | JFloat u64

datatype json =
    JNull
  | JBool bool
  | JNum jnumber
  | JStr string
  | JArr "json list"
  | JObj "(string \<times> json) list"

definition i64_max :: u64 where
  "i64_max = 0x7FFFFFFFFFFFFFFF"

fun as_i64 :: "jnumber \<Rightarrow> i64 option" where
  "as_i64 (PosInt n) = (if n \<le> i64_max then Some n else None)"
| "as_i64 (NegInt i) = Some i"
| "as_i64 (JFloat f) = None"

fun as_u64 :: "jnumber \<Rightarrow> u64 option" where
  "as_u64 (PosInt n) = Some n"
| "as_u64 (NegInt i) = None"
| "as_u64 (JFloat f) = None"

fun as_bool :: "json \<Rightarrow> bool option" where
  "as_bool (JBool b) = Some b"
| "as_bool _ = None"

fun json_as_i64 :: "json \<Rightarrow> i64 option" where
  "json_as_i64 (JNum n) = as_i64 n"
| "json_as_i64 _ = None"

fun json_as_u64 :: "json \<Rightarrow> u64 option" where
  "json_as_u64 (JNum n) = as_u64 n"
| "json_as_u64 _ = None"

fun json_as_str :: "json \<Rightarrow> string option" where
  "json_as_str (JStr s) = Some s"
| "json_as_str _ = None"

fun json_as_array :: "json \<Rightarrow> json list option" where
  "json_as_array (JArr js) = Some js"
| "json_as_array _ = None"

fun json_get :: "json \<Rightarrow> string \<Rightarrow> json option" where
  "json_get (JObj kvs) k = map_of kvs k"
| "json_get _ k = None"

text \<open>Numbers as the serializer writes them: a negative \<open>i64\<close> becomes a \<open>NegInt\<close>.\<close>

definition num_of_i64 :: "i64 \<Rightarrow> jnumber" where
  "num_of_i64 i = (if i \<le> i64_max then PosInt i else NegInt i)"

lemma as_i64_num_of_i64 [simp]: "as_i64 (num_of_i64 i) = Some i"
  by (simp add: num_of_i64_def)

lemma i64_max_sint: "(w::64 word) \<le> i64_max \<longleftrightarrow> 0 \<le> sint w"
proof -
  have u: "0 \<le> uint w" "uint w < 2 ^ 64"
    using uint_lt2p [of w] by simp_all
  have "0 \<le> sint w \<longleftrightarrow> \<not> odd (uint w div 2 ^ 63)"
    by (simp add: sint_uint signed_take_bit_nonnegative_iff bit_iff_odd)
  also have "\<dots> \<longleftrightarrow> uint w < 2 ^ 63"
  proof (cases "uint w < 2 ^ 63")
    case True
    with u show ?thesis by simp
  next
    case False
    with u have "uint w div 2 ^ 63 = 1"
      by (intro int_div_pos_eq [of _ _ _ "uint w - 2 ^ 63"]) auto
    with False show ?thesis by simp
  qed
  also have "\<dots> \<longleftrightarrow> w \<le> i64_max"
    by (auto simp: i64_max_def word_le_def)
  finally show ?thesis by simp
qed

end
