(* ===== verification/Protocol_Types.thy ===== *)
theory Protocol_Types
  imports Errors Json
begin

unbundle bit_operations_syntax

text \<open>
  The data of the protocol layer (\<open>src/protocol/types.rs\<close>): identities, packets and
  payload sizes with their lenient decoders, device-name sanitizing, device-id
  normalization, packet ids, pairing requests and connection records; and the address
  rules of \<open>src/protocol/mod.rs\<close>.

  Code the repository does not contain is collected in the record \<open>externals\<close>: the
  Unicode tables behind \<open>is_alphanumeric\<close> and \<open>to_lowercase\<close>, JSON text, SHA-256,
  base64, reading and signing X.509 certificates, private keys, and the rendering of the
  persisted map of paired devices. The definitions take it as
  an argument \<open>E\<close>; what a theorem needs of it is a named hypothesis.
\<close>

section \<open>External functions\<close>

text \<open>What the program asks of a certificate: the parameters it hands to the certificate library.\<close>

record cert_params =
  san_dns :: string
  subject_cn :: string
  subject_ou :: string
  subject_o :: string
  serial_number :: "u8 list"
  not_before_day :: int
  not_after_day :: int

record externals =
  unicode_alnum :: "nat \<Rightarrow> bool"
  unicode_lower :: "string \<Rightarrow> string"
  json_parse :: "string \<Rightarrow> json option"
  json_print :: "json \<Rightarrow> string"
  sha256 :: "string \<Rightarrow> string"
  b64_encode :: "string \<Rightarrow> string"
  b64_decode :: "string \<Rightarrow> string option"
  x509_common_name :: "string \<Rightarrow> string option option"
  x509_public_key :: "string \<Rightarrow> string option"
  x509_is_valid :: "instant \<Rightarrow> string \<Rightarrow> bool"
  x509_sign :: "cert_params \<Rightarrow> string \<Rightarrow> string option"
  key_serialize_pem :: "string \<Rightarrow> string"
  key_from_pem :: "string \<Rightarrow> bool"
  paired_print :: "(string \<rightharpoonup> instant) \<Rightarrow> string"
  paired_parse :: "string \<Rightarrow> (string \<rightharpoonup> instant) option"

text \<open>\<open>char::is_alphanumeric\<close>: ASCII letters and digits, and beyond ASCII the Unicode tables.\<close>

definition is_alphanumeric :: "externals \<Rightarrow> nat \<Rightarrow> bool" where
  "is_alphanumeric E c = (if c < 128 then ascii_alnum c else unicode_alnum E c)"

section \<open>Constants\<close>

type_synonym device_key = string

definition PROTOCOL_VERSION :: u32 where "PROTOCOL_VERSION = 8"
definition DEFAULT_TCP_PORT :: u16 where "DEFAULT_TCP_PORT = 1716"
definition DEFAULT_UDP_PORT :: u16 where "DEFAULT_UDP_PORT = 1716"
definition MIN_PORT :: u16 where "MIN_PORT = 1716"
definition MAX_PORT :: u16 where "MAX_PORT = 1764"
definition MAX_DEVICE_NAME_LENGTH :: nat where "MAX_DEVICE_NAME_LENGTH = 32"

section \<open>Identities\<close>

record identity =
  device_id :: device_key
  device_name :: string
  device_type :: string
  protocol_version :: u32
  incoming_capabilities :: "string list"
  outgoing_capabilities :: "string list"
  tcp_port :: "u16 option"
  target_device_id :: "string option"
  target_protocol_version :: "u32 option"

subsection \<open>Decoding field values\<close>

definition deserialize_lenient_u32_opt :: "json option \<Rightarrow> u32 option res" where
  "deserialize_lenient_u32_opt v =
     (case v of
        None \<Rightarrow> Inr None
      | Some JNull \<Rightarrow> Inr None
      | Some (JNum n) \<Rightarrow>
          (case as_u64 n of
             Some w \<Rightarrow> if w < 2 ^ 32 then Inr (Some (ucast w))
                      else Inl (DeserializationError ''targetProtocolVersion must be a non-negative integer'')
           | None \<Rightarrow> Inl (DeserializationError ''targetProtocolVersion must be a non-negative integer''))
      | Some (JStr s) \<Rightarrow>
          (case parse_u32 s of
             Some w \<Rightarrow> Inr (Some w)
           | None \<Rightarrow> Inl (DeserializationError ''targetProtocolVersion must be numeric''))
      | Some _ \<Rightarrow> Inl (DeserializationError ''targetProtocolVersion must be a number or numeric string''))"

definition deserialize_lenient_i64 :: "json \<Rightarrow> i64 res" where
  "deserialize_lenient_i64 v =
     (case v of
        JNum n \<Rightarrow> ok_or (DeserializationError ''id must be an integer'') (as_i64 n)
      | JStr s \<Rightarrow> ok_or (DeserializationError ''id must be numeric'') (parse_i64 s)
      | _ \<Rightarrow> Inl (DeserializationError ''id must be a number or numeric string''))"

text \<open>
  What the derived decoders do with one field: a missing mandatory field or a value of the
  wrong type is an error, an optional field may be missing or \<open>null\<close>.
\<close>

definition dec_err :: error where
  "dec_err = DeserializationError ''Failed to parse''"

fun dec_string :: "json \<Rightarrow> string res" where
  "dec_string (JStr s) = Inr s"
| "dec_string _ = Inl dec_err"

fun dec_u32 :: "json \<Rightarrow> u32 res" where
  "dec_u32 (JNum (PosInt n)) = (if n < 2 ^ 32 then Inr (ucast n) else Inl dec_err)"
| "dec_u32 _ = Inl dec_err"

fun dec_u16 :: "json \<Rightarrow> u16 res" where
  "dec_u16 (JNum (PosInt n)) = (if n < 2 ^ 16 then Inr (ucast n) else Inl dec_err)"
| "dec_u16 _ = Inl dec_err"

fun dec_strings :: "json list \<Rightarrow> string list res" where
  "dec_strings [] = Inr []"
| "dec_strings (j # js) = rbind (dec_string j) (\<lambda>s. rbind (dec_strings js) (\<lambda>ss. Inr (s # ss)))"

fun dec_string_list :: "json \<Rightarrow> string list res" where
  "dec_string_list (JArr js) = dec_strings js"
| "dec_string_list _ = Inl dec_err"

definition required :: "(json \<Rightarrow> 'a res) \<Rightarrow> json option \<Rightarrow> 'a res" where
  "required f v = (case v of None \<Rightarrow> Inl dec_err | Some j \<Rightarrow> f j)"

definition defaulted :: "'a \<Rightarrow> (json \<Rightarrow> 'a res) \<Rightarrow> json option \<Rightarrow> 'a res" where
  "defaulted d f v = (case v of None \<Rightarrow> Inr d | Some j \<Rightarrow> f j)"

definition optional :: "(json \<Rightarrow> 'a res) \<Rightarrow> json option \<Rightarrow> 'a option res" where
  "optional f v =
     (case v of None \<Rightarrow> Inr None | Some JNull \<Rightarrow> Inr None | Some j \<Rightarrow> rbind (f j) (\<lambda>a. Inr (Some a)))"

subsection \<open>The identity body\<close>

text \<open>
  The decoder derived for the struct, by field name; \<open>get\<close> looks a field up. A JSON array
  is accepted too, its elements taken as the fields in declaration order: there the
  optional port and target id must be present, only the defaulted fields may be missing,
  and surplus elements are an error.
\<close>

definition identity_of_fields :: "(string \<Rightarrow> json option) \<Rightarrow> identity res" where
  "identity_of_fields get =
     rbind (required dec_string (get ''deviceId'')) (\<lambda>di.
     rbind (required dec_string (get ''deviceName'')) (\<lambda>dn.
     rbind (required dec_string (get ''deviceType'')) (\<lambda>dt.
     rbind (required dec_u32 (get ''protocolVersion'')) (\<lambda>pv.
     rbind (defaulted [] dec_string_list (get ''incomingCapabilities'')) (\<lambda>ic.
     rbind (defaulted [] dec_string_list (get ''outgoingCapabilities'')) (\<lambda>oc.
     rbind (optional dec_u16 (get ''tcpPort'')) (\<lambda>tp.
     rbind (optional dec_string (get ''targetDeviceId'')) (\<lambda>td.
     rbind (deserialize_lenient_u32_opt (get ''targetProtocolVersion'')) (\<lambda>tv.
       Inr \<lparr>device_id = di, device_name = dn, device_type = dt, protocol_version = pv,
            incoming_capabilities = ic, outgoing_capabilities = oc, tcp_port = tp,
            target_device_id = td, target_protocol_version = tv\<rparr>)))))))))"

definition identity_field_names :: "string list" where
  "identity_field_names =
     [''deviceId'', ''deviceName'', ''deviceType'', ''protocolVersion'', ''incomingCapabilities'',
      ''outgoingCapabilities'', ''tcpPort'', ''targetDeviceId'', ''targetProtocolVersion'']"

fun identity_of_json :: "json \<Rightarrow> identity res" where
  "identity_of_json (JObj kvs) = identity_of_fields (map_of kvs)"
| "identity_of_json (JArr js) =
     (if length js < 8 \<or> 9 < length js then Inl dec_err
      else identity_of_fields (map_of (zip identity_field_names js)))"
| "identity_of_json _ = Inl dec_err"

definition opt_field :: "string \<Rightarrow> ('a \<Rightarrow> json) \<Rightarrow> 'a option \<Rightarrow> (string \<times> json) list" where
  "opt_field k f v = (case v of None \<Rightarrow> [] | Some a \<Rightarrow> [(k, f a)])"

definition identity_to_json :: "identity \<Rightarrow> json" where
  "identity_to_json i =
     JObj ([(''deviceId'', JStr (device_id i)), (''deviceName'', JStr (device_name i)),
            (''deviceType'', JStr (device_type i)),
            (''protocolVersion'', JNum (PosInt (ucast (protocol_version i)))),
            (''incomingCapabilities'', JArr (map JStr (incoming_capabilities i))),
            (''outgoingCapabilities'', JArr (map JStr (outgoing_capabilities i)))]
           @ opt_field ''tcpPort'' (\<lambda>p. JNum (PosInt (ucast p))) (tcp_port i)
           @ opt_field ''targetDeviceId'' JStr (target_device_id i)
           @ opt_field ''targetProtocolVersion'' (\<lambda>v. JNum (PosInt (ucast v))) (target_protocol_version i))"

section \<open>Names and ids\<close>

definition invalid_name_chars :: "nat list" where
  "invalid_name_chars = map of_char [CHR 0x22, CHR 0x27, CHR '','', CHR '';'', CHR '':'', CHR ''.'',
     CHR ''!'', CHR ''?'', CHR ''('', CHR '')'', CHR ''['', CHR '']'', CHR ''<'', CHR ''>'']"

definition sanitize_device_name :: "string \<Rightarrow> string" where
  "sanitize_device_name name =
     (let filtered = string_of (filter (\<lambda>c. c \<notin> set invalid_name_chars) (chars_of name))
      in string_of (take MAX_DEVICE_NAME_LENGTH (chars_of (trim filtered))))"

definition kde_norm :: "string \<Rightarrow> string" where
  "kde_norm s = string_of (map (\<lambda>c. if ascii_alnum c then c else 95) (chars_of s))"

definition device_id_matches_kde_normalized :: "string \<Rightarrow> string \<Rightarrow> bool" where
  "device_id_matches_kde_normalized a b = (kde_norm a = kde_norm b)"

definition generate_packet_id :: "u8 list \<Rightarrow> i64" where
  "generate_packet_id uuid = foldl (\<lambda>i b. push_bit 8 i OR ucast b) 0 (take 8 uuid)"

section \<open>Payload sizes and packets\<close>

datatype payload_size = Known u64 | Stream

fun known :: "payload_size \<Rightarrow> u64 option" where
  "known (Known n) = Some n"
| "known Stream = None"

fun serialize_payload_size :: "payload_size \<Rightarrow> json" where
  "serialize_payload_size (Known n) = JNum (PosInt n)"
| "serialize_payload_size Stream = JNum (num_of_i64 (- 1))"

definition deserialize_payload_size :: "json \<Rightarrow> payload_size res" where
  "deserialize_payload_size v =
     (case v of
        JNum n \<Rightarrow>
          (case as_i64 n of
             Some i \<Rightarrow>
               if i = - 1 then Inr Stream
               else if 0 \<le> sint i then Inr (Known i)
               else Inl (DeserializationError ''payloadSize must be a non-negative integer or -1 (endless stream)'')
           | None \<Rightarrow>
               (case as_u64 n of
                  Some u \<Rightarrow> Inr (Known u)
                | None \<Rightarrow> Inl (DeserializationError ''payloadSize must be an integer'')))
      | _ \<Rightarrow> Inl (DeserializationError ''payloadSize must be a number''))"

record packet =
  packet_id :: i64
  packet_type :: string
  packet_body :: json
  packet_payload_size :: "payload_size option"
  packet_payload_transfer_info :: "json option"

definition new_packet :: "i64 \<Rightarrow> string \<Rightarrow> json \<Rightarrow> packet" where
  "new_packet pid ty b = \<lparr>packet_id = pid, packet_type = ty, packet_body = b,
     packet_payload_size = None, packet_payload_transfer_info = None\<rparr>"

definition with_payload_size :: "u64 \<Rightarrow> packet \<Rightarrow> packet" where
  "with_payload_size n p = p\<lparr>packet_payload_size := Some (Known n)\<rparr>"

definition with_payload_transfer_info :: "json \<Rightarrow> packet \<Rightarrow> packet" where
  "with_payload_transfer_info j p = p\<lparr>packet_payload_transfer_info := Some j\<rparr>"

definition ping :: "i64 \<Rightarrow> packet" where
  "ping pid = new_packet pid ''kdeconnect.ping'' (JObj [])"

definition pair_request_with_timestamp :: "i64 \<Rightarrow> i64 \<Rightarrow> packet" where
  "pair_request_with_timestamp pid ts =
     new_packet pid ''kdeconnect.pair'' (JObj [(''pair'', JBool True), (''timestamp'', JNum (num_of_i64 ts))])"

definition pair_response :: "i64 \<Rightarrow> bool \<Rightarrow> i64 \<Rightarrow> packet" where
  "pair_response pid accepted now =
     new_packet pid ''kdeconnect.pair'' (JObj [(''pair'', JBool accepted), (''timestamp'', JNum (num_of_i64 now))])"

definition is_identity :: "packet \<Rightarrow> bool" where
  "is_identity p = (packet_type p = ''kdeconnect.identity'')"

definition is_pair :: "packet \<Rightarrow> bool" where
  "is_pair p = (packet_type p = ''kdeconnect.pair'')"

definition is_ping :: "packet \<Rightarrow> bool" where
  "is_ping p = (packet_type p = ''kdeconnect.ping'')"

text \<open>Encoding and decoding of the packet object itself (the derived code).\<close>

definition packet_to_json :: "packet \<Rightarrow> json" where
  "packet_to_json p =
     JObj ([(''id'', JNum (num_of_i64 (packet_id p))), (''type'', JStr (packet_type p)),
            (''body'', packet_body p)]
           @ opt_field ''payloadSize'' serialize_payload_size (packet_payload_size p)
           @ opt_field ''payloadTransferInfo'' (\<lambda>j. j) (packet_payload_transfer_info p))"

definition packet_of_fields :: "(string \<Rightarrow> json option) \<Rightarrow> packet res" where
  "packet_of_fields get =
     rbind (required deserialize_lenient_i64 (get ''id'')) (\<lambda>i.
     rbind (required dec_string (get ''type'')) (\<lambda>t.
     rbind (required Inr (get ''body'')) (\<lambda>b.
     rbind (optional deserialize_payload_size (get ''payloadSize'')) (\<lambda>ps.
     rbind (optional Inr (get ''payloadTransferInfo'')) (\<lambda>pi.
       Inr \<lparr>packet_id = i, packet_type = t, packet_body = b, packet_payload_size = ps,
            packet_payload_transfer_info = pi\<rparr>)))))"

definition packet_field_names :: "string list" where
  "packet_field_names = [''id'', ''type'', ''body'', ''payloadSize'', ''payloadTransferInfo'']"

fun packet_of_json :: "json \<Rightarrow> packet res" where
  "packet_of_json (JObj kvs) =
     (if distinct (filter (\<lambda>k. k \<in> set packet_field_names) (map fst kvs))
      then packet_of_fields (map_of kvs) else Inl dec_err)"
| "packet_of_json (JArr js) =
     (if length js \<noteq> 5 then Inl dec_err
      else packet_of_fields (map_of (zip packet_field_names js)))"
| "packet_of_json _ = Inl dec_err"

end
