(* ===== verification/Identity.thy ===== *)
theory Identity
  imports Protocol_Types
begin

unbundle bit_operations_syntax

text \<open>
  Identity packets and the wire form of packets: construction and validation of
  identities (\<open>Identity::new\<close>, \<open>to_packet\<close>, \<open>from_packet\<close> in
  \<open>src/protocol/types.rs\<close>), the device-id rules of \<open>src/protocol/crypto.rs\<close>, the line
  serializer of \<open>src/protocol/packet.rs\<close>, and the local-network address rule of
  \<open>src/protocol/mod.rs\<close>.
\<close>

section \<open>Device ids\<close>

definition MIN_DEVICE_ID_LEN :: nat where "MIN_DEVICE_ID_LEN = 32"
definition MAX_DEVICE_ID_LEN :: nat where "MAX_DEVICE_ID_LEN = 38"

definition validate_device_id :: "externals \<Rightarrow> string \<Rightarrow> unit res" where
  "validate_device_id E did =
     (if length did < MIN_DEVICE_ID_LEN \<or> MAX_DEVICE_ID_LEN < length did then
        Inl (validation ''device_id must be 32-38 characters'' (Some ''device_id''))
      else if str_contains did ''..'' \<or> CHR ''/'' \<in> set did \<or> CHR 0x5C \<in> set did \<or> CHR 0x00 \<in> set did then
        Inl (validation ''device_id contains invalid characters'' (Some ''device_id''))
      else if \<not> list_all (\<lambda>c. is_alphanumeric E c \<or> c = 45 \<or> c = 95) (chars_of did) then
        Inl (validation ''device_id must contain only alphanumeric characters, hyphens, or underscores''
               (Some ''device_id''))
      else Inr ())"

abbreviation valid_id :: "externals \<Rightarrow> string \<Rightarrow> bool" where
  "valid_id E did \<equiv> is_ok (validate_device_id E did)"

section \<open>Identities\<close>

datatype dev_type = Desktop | Laptop | Phone | Tablet | Tv | Unknown

primrec device_type_as_str :: "dev_type \<Rightarrow> string" where
  "device_type_as_str Desktop = ''desktop''"
| "device_type_as_str Laptop = ''laptop''"
| "device_type_as_str Phone = ''phone''"
| "device_type_as_str Tablet = ''tablet''"
| "device_type_as_str Tv = ''tv''"
| "device_type_as_str Unknown = ''unknown''"

definition parse_device_type :: "externals \<Rightarrow> string \<Rightarrow> dev_type" where
  "parse_device_type E s =
     (let l = unicode_lower E s in
      if l = ''desktop'' then Desktop
      else if l = ''laptop'' then Laptop
      else if l = ''phone'' \<or> l = ''smartphone'' then Phone
      else if l = ''tablet'' then Tablet
      else if l = ''tv'' then Tv
      else Unknown)"

definition new_identity :: "device_key \<Rightarrow> string \<Rightarrow> dev_type \<Rightarrow> string list \<Rightarrow> string list \<Rightarrow> identity" where
  "new_identity did dname dty incoming outgoing =
     \<lparr>device_id = did, device_name = dname, device_type = device_type_as_str dty,
      protocol_version = PROTOCOL_VERSION,
      incoming_capabilities = incoming, outgoing_capabilities = outgoing,
      tcp_port = Some DEFAULT_TCP_PORT, target_device_id = None, target_protocol_version = None\<rparr>"

definition to_packet :: "i64 \<Rightarrow> identity \<Rightarrow> packet" where
  "to_packet pid i = new_packet pid ''kdeconnect.identity'' (identity_to_json i)"

definition to_tcp_packet :: "i64 \<Rightarrow> identity \<Rightarrow> packet" where
  "to_tcp_packet pid i = to_packet pid (i\<lparr>tcp_port := None\<rparr>)"

definition from_packet :: "externals \<Rightarrow> packet \<Rightarrow> identity res" where
  "from_packet E p =
     (if packet_type p \<noteq> ''kdeconnect.identity'' then
        Inl (InvalidPacket ''Expected kdeconnect.identity'')
      else rbind (identity_of_json (packet_body p)) (\<lambda>i.
        if device_id i = '''' then
          Inl (validation ''device_id must not be empty'' (Some ''device_id''))
        else if 128 < length (device_id i) then
          Inl (validation ''device_id must not exceed 128 characters'' (Some ''device_id''))
        else (let i = i\<lparr>device_name := sanitize_device_name (device_name i)\<rparr> in
          if device_name i = '''' then
            Inl (validation ''device_name must not be blank'' (Some ''device_name''))
          else if protocol_version i = 0 then
            Inl (validation ''protocol_version must not be 0'' (Some ''protocol_version''))
          else rbind (validate_device_id E (device_id i)) (\<lambda>_. Inr i))))"

section \<open>The line serializer\<close>

definition MAX_PACKET_SIZE_STEADY :: nat where "MAX_PACKET_SIZE_STEADY = 32 * 1024 * 1024"

definition newline :: char where "newline = CHR 0x0A"

definition serialize :: "externals \<Rightarrow> packet \<Rightarrow> string" where
  "serialize E p = json_print E (packet_to_json p) @ [newline]"

definition strip_newline :: "string \<Rightarrow> string" where
  "strip_newline bs = (if bs \<noteq> [] \<and> last bs = newline then butlast bs else bs)"

definition deserialize :: "externals \<Rightarrow> string \<Rightarrow> packet res" where
  "deserialize E bs =
     (if MAX_PACKET_SIZE_STEADY < length bs then Inl (PacketTooLarge (length bs) MAX_PACKET_SIZE_STEADY)
      else (let line = strip_newline bs in
        if \<not> valid_utf8 line then Inl (DeserializationError ''Invalid UTF-8'')
        else (let trimmed = trim line in
          if trimmed = '''' then Inl (DeserializationError ''Empty packet'')
          else (case json_parse E trimmed of
                  None \<Rightarrow> Inl (DeserializationError ''json'')
                | Some j \<Rightarrow> packet_of_json j))))"

section \<open>Addresses\<close>

datatype ip_addr = V4 u8 u8 u8 u8 | V6 "u8 list"

fun is_private_address :: "ip_addr \<Rightarrow> bool" where
  "is_private_address (V4 a b c d) \<longleftrightarrow>
     a = 127
     \<or> (a = 10 \<or> (a = 172 \<and> 16 \<le> b \<and> b \<le> 31) \<or> (a = 192 \<and> b = 168))
     \<or> (a = 169 \<and> b = 254)
     \<or> (a = 100 \<and> b AND 0xC0 = 0x40)"
| "is_private_address (V6 os) \<longleftrightarrow>
     os = replicate 15 0 @ [1]
     \<or> (os ! 0 = 0xFE \<and> os ! 1 AND 0xC0 = 0x80)
     \<or> (os ! 0 AND 0xFE = 0xFC)"

fun is_loopback :: "ip_addr \<Rightarrow> bool" where
  "is_loopback (V4 a b c d) \<longleftrightarrow> a = 127"
| "is_loopback (V6 os) \<longleftrightarrow> os = replicate 15 0 @ [1]"

text \<open>
  Whether an address is one of this host's: the loopback rule, then the probe socket, whose
  outcome is the operating system's (\<open>local_end\<close>: the local end the kernel picks for a
  socket connected to that address, \<open>None\<close> when the probe fails).
\<close>

definition is_local_address :: "(ip_addr \<Rightarrow> ip_addr option) \<Rightarrow> ip_addr \<Rightarrow> bool" where
  "is_local_address local_end ip =
     (if is_loopback ip then True
      else (case local_end ip of None \<Rightarrow> False | Some a \<Rightarrow> a = ip))"

definition is_split_brain :: "(ip_addr \<Rightarrow> ip_addr option) \<Rightarrow> ip_addr \<Rightarrow> string \<Rightarrow> string \<Rightarrow> bool" where
  "is_split_brain local_end source our_id their_id \<longleftrightarrow>
     their_id \<noteq> our_id \<and> is_local_address local_end source"

section \<open>Round trips of the JSON forms\<close>

lemma unat_u8_less: "unat (b :: u8) < 256"
proof -
  have "unat b < 2 ^ LENGTH(8)" by (rule unsigned_less)
  then show ?thesis by simp
qed

lemma ucast32_bound [simp]: "(ucast (w :: u32) :: u64) < 4294967296"
proof -
  have "unat w < 2 ^ LENGTH(32)" by (rule unsigned_less)
  then show ?thesis by (simp add: word_less_nat_alt unat_ucast_up)
qed

lemma ucast16_bound [simp]: "(ucast (w :: u16) :: u64) < 65536"
proof -
  have "unat w < 2 ^ LENGTH(16)" by (rule unsigned_less)
  then show ?thesis by (simp add: word_less_nat_alt unat_ucast_up)
qed

lemma dec_u32_ucast [simp]: "dec_u32 (JNum (PosInt (ucast w))) = Inr w"
  by simp

lemma dec_u16_ucast [simp]: "dec_u16 (JNum (PosInt (ucast w))) = Inr w"
  by simp

lemma dec_strings_map [simp]: "dec_strings (map JStr ss) = Inr ss"
  by (induction ss) simp_all

lemma lenient_u32_ucast [simp]:
  "deserialize_lenient_u32_opt (Some (JNum (PosInt (ucast w)))) = Inr (Some w)"
  by (simp add: deserialize_lenient_u32_opt_def)

lemma lenient_u32_None [simp]: "deserialize_lenient_u32_opt None = Inr None"
  by (simp add: deserialize_lenient_u32_opt_def)

lemma lenient_i64_num [simp]: "deserialize_lenient_i64 (JNum (num_of_i64 i)) = Inr i"
  by (simp add: deserialize_lenient_i64_def ok_or_def)

lemma field_decoders [simp]:
  "required f (Some j) = f j" "required f None = Inl dec_err"
  "defaulted d f (Some j) = f j" "defaulted d f None = Inr d"
  "optional f None = Inr None" "optional f (Some JNull) = Inr None"
  by (simp_all add: required_def defaulted_def optional_def)

lemma optional_Some: "j \<noteq> JNull \<Longrightarrow> optional f (Some j) = rbind (f j) (\<lambda>a. Inr (Some a))"
  by (cases j) (simp_all add: optional_def)

lemma identity_of_to_json [simp]: "identity_of_json (identity_to_json i) = Inr i"
  by (cases "tcp_port i"; cases "target_device_id i"; cases "target_protocol_version i")
     (simp_all add: identity_to_json_def identity_of_fields_def opt_field_def optional_Some)

lemma payload_size_roundtrip [simp]:
  "deserialize_payload_size (serialize_payload_size s) = Inr s"
proof (cases s)
  case (Known n)
  have "n \<noteq> - 1" if "n \<le> i64_max"
    using that by (auto simp: i64_max_sint)
  with Known show ?thesis
    by (simp add: deserialize_payload_size_def i64_max_sint)
next
  case Stream
  then show ?thesis by (simp add: deserialize_payload_size_def)
qed

lemma serialize_payload_size_not_null [simp]: "serialize_payload_size s \<noteq> JNull"
  by (cases s) simp_all

lemma packet_of_to_json:
  assumes "packet_payload_transfer_info p \<noteq> Some JNull"
  shows "packet_of_json (packet_to_json p) = Inr p"
  using assms
  by (cases "packet_payload_size p"; cases "packet_payload_transfer_info p")
     (simp_all add: packet_to_json_def packet_of_fields_def packet_field_names_def opt_field_def optional_Some)

section \<open>Names, ids and packet ids\<close>

lemma chars_sanitize:
  "chars_of (sanitize_device_name n) =
     take 32 (trim_chars (filter (\<lambda>c. c \<notin> set invalid_name_chars) (chars_of n)))"
proof -
  let ?f = "filter (\<lambda>c. c \<notin> set invalid_name_chars) (chars_of n)"
  have f: "list_all scalar_value ?f"
    using chars_of_scalar [of n] by (auto simp: list_all_iff)
  have t: "list_all scalar_value (trim_chars ?f)"
    using f set_trim_chars [of ?f] by (auto simp: list_all_iff)
  then have "list_all scalar_value (take 32 (trim_chars ?f))"
    by (auto simp: list_all_iff dest: in_set_takeD)
  with f t show ?thesis
    by (simp add: sanitize_device_name_def trim_def chars_of_string_of MAX_DEVICE_NAME_LENGTH_def)
qed

lemma validate_device_id_ok:
  "valid_id E d \<longleftrightarrow>
     32 \<le> length d \<and> length d \<le> 38 \<and> \<not> str_contains d ''..'' \<and> CHR ''/'' \<notin> set d
     \<and> CHR 0x5C \<notin> set d \<and> CHR 0x00 \<notin> set d
     \<and> list_all (\<lambda>c. is_alphanumeric E c \<or> c = 45 \<or> c = 95) (chars_of d)"
  by (auto simp: validate_device_id_def MIN_DEVICE_ID_LEN_def MAX_DEVICE_ID_LEN_def)

lemma packet_id_step:
  assumes "unat i < 2 ^ 56"
  shows "unat (push_bit 8 (i::64 word) OR ucast (b::8 word)) = unat i * 256 + unat b"
proof -
  have "push_bit 8 i AND ucast b = 0"
    by (rule bit_word_eqI) (auto simp: bit_simps dest: bit_imp_le_length)
  then have "push_bit 8 i OR ucast b = push_bit 8 i + ucast b"
    by (simp add: disjunctive_add_eq_or)
  also have "\<dots> = of_nat (unat i * 256 + unat b)"
    by (simp add: push_bit_eq_mult)
  finally have e: "push_bit 8 i OR ucast b = of_nat (unat i * 256 + unat b)" .
  have "unat i * 256 + unat b < 2 ^ 64"
    using assms unat_u8_less [of b] by simp
  then show ?thesis
    unfolding e unat_of_nat by simp
qed

lemma packet_id_bytes:
  assumes "length bs \<le> 8"
  shows "unat (foldl (\<lambda>i b. push_bit 8 i OR ucast b) (0::64 word) bs) =
           foldl (\<lambda>n b. n * 256 + unat b) 0 (bs :: 8 word list)
         \<and> foldl (\<lambda>n b. n * 256 + unat b) 0 bs < 256 ^ length bs"
  using assms
proof (induction bs rule: rev_induct)
  case (snoc b bs)
  let ?n = "foldl (\<lambda>n b. n * 256 + unat b) 0 bs"
  from snoc have IH: "unat (foldl (\<lambda>i b. push_bit 8 i OR ucast b) (0::64 word) bs) = ?n"
    "?n < 256 ^ length bs" and l: "length bs \<le> 7" by simp_all
  have "(256::nat) ^ length bs \<le> 256 ^ 7"
    using l by (intro power_increasing) auto
  with IH(2) have "?n < 2 ^ 56" by simp
  moreover have "?n * 256 + unat b < 256 ^ length (bs @ [b])"
    using IH(2) unat_u8_less [of b] by simp
  ultimately show ?case
    using IH(1) by (simp add: packet_id_step)
qed simp

lemma radix256_inj:
  assumes "length bs = length cs"
    and "foldl (\<lambda>n b. n * 256 + unat b) 0 bs = foldl (\<lambda>n b. n * 256 + unat b) 0 (cs :: 8 word list)"
  shows "bs = cs"
  using assms
proof (induction bs arbitrary: cs rule: rev_induct)
  case (snoc b bs)
  then obtain c cs' where cs: "cs = cs' @ [c]" "length bs = length cs'"
    by (cases cs rule: rev_cases) auto
  let ?n = "foldl (\<lambda>n b. n * 256 + unat b) 0"
  have e: "?n bs * 256 + unat b = ?n cs' * 256 + unat c"
    using snoc.prems cs by simp
  have bc: "unat b < 256" "unat c < 256"
    by (rule unat_u8_less)+
  have "?n bs = ?n cs'" "unat b = unat c"
    using arg_cong [OF e, of "\<lambda>n. n div 256"] arg_cong [OF e, of "\<lambda>n. n mod 256"] bc by simp_all
  with snoc.IH [of cs'] cs show ?case by (simp add: word_unat_eq_iff)
qed simp

lemma last_utf8_enc: "last (utf8_enc c) < 128 \<Longrightarrow> utf8_enc c = [c] \<and> c < 128"
  by (auto simp: utf8_enc_def split: if_splits)

lemma utf8_enc_nonempty [simp]: "utf8_enc c \<noteq> []"
  by (simp add: utf8_enc_def)

lemma utf8_decode_last:
  assumes "utf8_decode (bs @ [a]) = Some cs" and "a < 128"
  shows "cs \<noteq> [] \<and> last cs = a"
proof -
  have e: "concat (map utf8_enc cs) = bs @ [a]"
    using utf8_encode_decode assms(1) by blast
  then obtain ds c where cs: "cs = ds @ [c]"
    by (cases cs rule: rev_cases) auto
  with e have "last (utf8_enc c) = a"
    by (metis concat.simps(1,2) concat_append last_appendR last_snoc list.simps(8,9) map_append
        append_Nil2 utf8_enc_nonempty)
  with assms(2) last_utf8_enc [of c] have "c = a" by simp
  with cs show ?thesis by simp
qed

text \<open>A line that begins and ends with a brace is its own trim.\<close>

lemma trim_braces:
  assumes "valid_utf8 (''{'' @ mid @ ''}'')"
  shows "trim (''{'' @ mid @ ''}'') = ''{'' @ mid @ ''}''"
proof -
  let ?s = "''{'' @ mid @ ''}''"
  obtain cs where cs: "utf8_decode (bytes_of ?s) = Some cs"
    using assms by (auto simp: valid_utf8_def)
  then have "cs \<noteq> []" "last cs = 125"
    using utf8_decode_last [of "bytes_of (''{'' @ mid)" 125 cs] by (simp_all add: bytes_of_def)
  moreover have "hd cs = 123"
    using cs by (auto simp: bytes_of_def)
  ultimately have "trim_chars cs = cs"
    by (intro trim_chars_id) (simp add: white_space_def)
  with cs assms string_of_chars_of [of ?s] show ?thesis
    by (simp add: trim_def chars_of_def)
qed

lemma sanitize_nonempty:
  assumes "sanitize_device_name n \<noteq> ''''"
  shows "chars_of (sanitize_device_name n) \<noteq> []"
proof -
  let ?cs = "take 32 (chars_of (trim (string_of
      (filter (\<lambda>c. c \<notin> set invalid_name_chars) (chars_of n)))))"
  have "list_all scalar_value ?cs"
    using chars_of_scalar by (auto simp: list_all_iff dest: in_set_takeD)
  moreover have "sanitize_device_name n = string_of ?cs"
    by (simp add: sanitize_device_name_def MAX_DEVICE_NAME_LENGTH_def Let_def)
  moreover have "?cs \<noteq> []"
    using assms calculation(2) by (auto simp: string_of_def)
  ultimately show ?thesis
    by (simp add: chars_of_string_of)
qed

lemma deserialize_serialize:
  assumes "packet_payload_transfer_info p \<noteq> Some JNull"
    and "json_parse E (json_print E (packet_to_json p)) = Some (packet_to_json p)"
    and "json_print E (packet_to_json p) = ''{'' @ mid @ ''}''"
    and "valid_utf8 (json_print E (packet_to_json p))"
    and "length (serialize E p) \<le> MAX_PACKET_SIZE_STEADY"
  shows "deserialize E (serialize E p) = Inr p"
proof -
  have strip: "strip_newline (serialize E p) = json_print E (packet_to_json p)"
    by (simp add: strip_newline_def serialize_def)
  have "trim (json_print E (packet_to_json p)) = json_print E (packet_to_json p)"
    using trim_braces [of mid] assms(3,4) by simp
  with strip assms show ?thesis
    by (simp add: deserialize_def Let_def packet_of_to_json)
qed

text \<open>What is sent is what is read: for a packet whose transfer info is not a bare JSON null,
  whose JSON text the library reads back and renders as an object, and whose line fits the
  32 MiB cap, decoding the serialized line gives the packet back, payload size (the
  endless-stream marker and sizes above the signed range included) and all.\<close>

theorem wire_roundtrip:
  assumes "packet_payload_transfer_info p \<noteq> Some JNull"
    and "json_parse E (json_print E (packet_to_json p)) = Some (packet_to_json p)"
    and "json_print E (packet_to_json p) = ''{'' @ mid @ ''}''"
    and "valid_utf8 (json_print E (packet_to_json p))"
    and "length (serialize E p) \<le> MAX_PACKET_SIZE_STEADY"
  shows "deserialize E (serialize E p) = Inr p"
  using assms by (rule deserialize_serialize)

definition demo_externals :: externals where
  "demo_externals = \<lparr>unicode_alnum = (\<lambda>_. False), unicode_lower = (\<lambda>s. s),
     json_parse = (\<lambda>_. Some (packet_to_json (with_payload_size 18446744073709551615 (ping 7)))),
     json_print = (\<lambda>_. ''{}''),
     sha256 = (\<lambda>s. s), b64_encode = (\<lambda>s. s), b64_decode = Some,
     x509_common_name = (\<lambda>s. Some (Some s)), x509_public_key = Some,
     x509_is_valid = (\<lambda>_ _. True), x509_sign = (\<lambda>ps _. Some (subject_cn ps)),
     key_serialize_pem = (\<lambda>k. k), key_from_pem = (\<lambda>_. True),
     paired_print = (\<lambda>_. ''{}''), paired_parse = (\<lambda>_. Some Map.empty)\<rparr>"

lemma braces_text: "valid_utf8 ''{}''" "trim ''{}'' = ''{}''"
proof -
  have a: "ascii_string ''{}''" by (simp add: ascii_string_def)
  then show v: "valid_utf8 ''{}''" by (rule valid_utf8_ascii)
  have "trim_chars (chars_of ''{}'') = chars_of ''{}''"
    by (simp add: chars_of_ascii [OF a] bytes_of_def trim_chars_def white_space_def)
  then show "trim ''{}'' = ''{}''" using string_of_chars_of [OF v] by (simp add: trim_def)
qed

lemma deserialize_braces:
  "deserialize E (''{}'' @ [newline]) =
     (case json_parse E ''{}'' of None \<Rightarrow> Inl (DeserializationError ''json'') | Some j \<Rightarrow> packet_of_json j)"
  by (simp add: deserialize_def strip_newline_def newline_def MAX_PACKET_SIZE_STEADY_def braces_text)

theorem wire_roundtrip_witness:
  "deserialize demo_externals (serialize demo_externals (with_payload_size 18446744073709551615 (ping 7)))
     = Inr (with_payload_size 18446744073709551615 (ping 7))"
  by (rule wire_roundtrip [where mid = "''''"])
     (simp_all add: demo_externals_def with_payload_size_def ping_def new_packet_def serialize_def
        MAX_PACKET_SIZE_STEADY_def valid_utf8_def bytes_of_def)

text \<open>Property C38.
  An identity the program accepts is well formed: its device id is 32 to 38 bytes with no
  path separator, no NUL and no two dots in a row (so the file names built from it stay in
  the certificate directory), every character of it is alphanumeric, a hyphen or an
  underscore, the device name is not empty, is at most 32 characters, contains none of the
  stripped punctuation and does not start with white space, and the protocol version is
  not zero.\<close>

theorem from_packet_sound:
  assumes "from_packet E p = Inr i"
  shows "packet_type p = ''kdeconnect.identity''
    \<and> 32 \<le> length (device_id i) \<and> length (device_id i) \<le> 38
    \<and> \<not> str_contains (device_id i) ''..''
    \<and> {CHR ''/'', CHR 0x5C, CHR 0x00} \<inter> set (device_id i) = {}
    \<and> list_all (\<lambda>c. is_alphanumeric E c \<or> c = 45 \<or> c = 95) (chars_of (device_id i))
    \<and> chars_of (device_name i) \<noteq> [] \<and> length (chars_of (device_name i)) \<le> 32
    \<and> set (chars_of (device_name i)) \<inter> set invalid_name_chars = {}
    \<and> \<not> white_space (hd (chars_of (device_name i)))
    \<and> protocol_version i \<noteq> 0"
proof -
  from assms obtain j where
    ty: "packet_type p = ''kdeconnect.identity''" and
    i: "i = j\<lparr>device_name := sanitize_device_name (device_name j)\<rparr>" and
    nm: "sanitize_device_name (device_name j) \<noteq> ''''" and
    pv: "protocol_version j \<noteq> 0" and
    vid: "validate_device_id E (device_id j) = Inr ()"
    by (auto simp: from_packet_def result_simps Let_def split: if_splits)
  let ?cs = "chars_of (sanitize_device_name (device_name j))"
  let ?f = "filter (\<lambda>c. c \<notin> set invalid_name_chars) (chars_of (device_name j))"
  have cs: "?cs = take 32 (trim_chars ?f)"
    by (rule chars_sanitize)
  have ne: "?cs \<noteq> []"
    using nm by (rule sanitize_nonempty)
  then have "trim_chars ?f \<noteq> []" and "hd ?cs = hd (trim_chars ?f)"
    by (auto simp: cs)
  then have hd: "\<not> white_space (hd ?cs)"
    by (simp add: trim_chars_ends)
  have "set ?cs \<subseteq> set ?f"
    using set_trim_chars [of ?f] by (auto simp: cs dest: in_set_takeD)
  then have inv: "set ?cs \<inter> set invalid_name_chars = {}"
    by auto
  have "valid_id E (device_id j)"
    by (simp add: vid)
  moreover have "length ?cs \<le> 32"
    by (simp add: cs)
  ultimately show ?thesis
    using ty pv ne hd inv by (simp add: validate_device_id_ok i)
qed

definition demo_id :: string where
  "demo_id = ''aaaabbbb_cccc_dddd_eeee_ffff00001111''"

definition demo_identity :: identity where
  "demo_identity = (new_identity demo_id ''phone'' Phone [''kdeconnect.ping''] [''kdeconnect.battery''])"

lemma alnum_ascii_string: "ascii_string demo_id"
  by (simp add: demo_id_def ascii_string_def)

lemma no_dot_no_dots: "CHR ''.'' \<notin> set s \<Longrightarrow> \<not> str_contains s ''..''"
  unfolding str_contains_def by (metis in_set_dropD in_set_takeD list.set_intros(1))

lemma valid_demo_id: "valid_id E demo_id"
proof -
  have "\<not> str_contains demo_id ''..''"
    by (rule no_dot_no_dots) (simp add: demo_id_def)
  then show ?thesis
    unfolding validate_device_id_ok chars_of_ascii [OF alnum_ascii_string]
    by (simp add: demo_id_def bytes_of_def is_alphanumeric_def ascii_alnum_def)
qed

lemma valid_demo_id_Inr: "validate_device_id E demo_id = Inr ()"
  using valid_demo_id [of E] by (cases "validate_device_id E demo_id") auto

lemma sanitize_phone: "sanitize_device_name ''phone'' = ''phone''"
  by code_simp

text \<open>Identities survive the exchange: an identity with a valid device id, a non-zero version
  and a name that is not blank after sanitizing is read back from its own packet unchanged
  but for the sanitized name; sent over TCP it comes back without its port.\<close>

theorem identity_exchange_roundtrip:
  assumes "valid_id E (device_id i)" and "protocol_version i \<noteq> 0"
    and "sanitize_device_name (device_name i) \<noteq> ''''"
  shows "from_packet E (to_packet pid i) = Inr (i\<lparr>device_name := sanitize_device_name (device_name i)\<rparr>)
    \<and> from_packet E (to_tcp_packet pid i) =
        Inr (i\<lparr>tcp_port := None, device_name := sanitize_device_name (device_name i)\<rparr>)"
proof -
  have "validate_device_id E (device_id i) = Inr ()"
    using assms(1) by (cases "validate_device_id E (device_id i)") auto
  moreover have "device_id i \<noteq> ''''" "length (device_id i) \<le> 128"
    using assms(1) by (auto simp: validate_device_id_ok)
  ultimately show ?thesis
    using assms(2,3)
    by (simp add: from_packet_def to_tcp_packet_def to_packet_def new_packet_def Let_def)
qed

theorem identity_exchange_roundtrip_witness:
  "from_packet demo_externals (to_packet 1 demo_identity) = Inr demo_identity
    \<and> from_packet demo_externals (to_tcp_packet 1 demo_identity) = Inr (demo_identity\<lparr>tcp_port := None\<rparr>)"
proof -
  have "valid_id demo_externals (device_id demo_identity)" "protocol_version demo_identity \<noteq> 0"
    and name: "device_name demo_identity = ''phone''"
    using valid_demo_id by (simp_all add: demo_identity_def new_identity_def PROTOCOL_VERSION_def)
  with identity_exchange_roundtrip [of demo_externals demo_identity 1] sanitize_phone show ?thesis
    by (simp add: demo_identity_def new_identity_def)
qed

theorem from_packet_sound_witness:
  "32 \<le> length (device_id demo_identity) \<and> protocol_version demo_identity \<noteq> 0
     \<and> from_packet demo_externals (to_packet 1 demo_identity) = Inr demo_identity"
proof -
  have "from_packet demo_externals (to_packet 1 demo_identity) = Inr demo_identity"
    by (simp add: from_packet_def to_packet_def new_packet_def demo_identity_def new_identity_def
          Let_def sanitize_phone valid_demo_id_Inr)
       (simp add: demo_id_def PROTOCOL_VERSION_def)
  with from_packet_sound [OF this] show ?thesis by simp
qed

text \<open>Packet ids keep every bit they are drawn from: two UUIDs give the same 64-bit id exactly
  when their first eight bytes agree, so no byte is lost to the shifts.\<close>

theorem generate_packet_id_inj:
  assumes "8 \<le> length u" and "8 \<le> length v"
  shows "generate_packet_id u = generate_packet_id v \<longleftrightarrow> take 8 u = take 8 v"
proof
  assume "generate_packet_id u = generate_packet_id v"
  then have "foldl (\<lambda>n b. n * 256 + unat b) 0 (take 8 u) = foldl (\<lambda>n b. n * 256 + unat b) 0 (take 8 v)"
    using packet_id_bytes [of "take 8 u"] packet_id_bytes [of "take 8 v"]
    by (simp add: generate_packet_id_def)
  with assms show "take 8 u = take 8 v"
    by (intro radix256_inj) simp_all
qed (simp add: generate_packet_id_def)

theorem generate_packet_id_inj_witness:
  "generate_packet_id [1, 2, 3, 4, 5, 6, 7, 8, 9] \<noteq> generate_packet_id [1, 2, 3, 4, 5, 6, 7, 9]"
  using generate_packet_id_inj [of "[1, 2, 3, 4, 5, 6, 7, 8, 9]" "[1, 2, 3, 4, 5, 6, 7, 9]"]
  by simp

definition v4_value :: "u8 \<Rightarrow> u8 \<Rightarrow> u8 \<Rightarrow> u8 \<Rightarrow> nat" where
  "v4_value a b c d = ((unat a * 256 + unat b) * 256 + unat c) * 256 + unat d"

lemma and_c0_iff: "(b :: u8) AND 0xC0 = 0x40 \<longleftrightarrow> 64 \<le> unat b \<and> unat b < 128"
proof -
  have "\<forall>b \<in> set (map (word_of_nat :: nat \<Rightarrow> u8) [0..<256]). b AND 0xC0 = 0x40 \<longleftrightarrow> 64 \<le> unat b \<and> unat b < 128"
    by code_simp
  moreover have "b = word_of_nat (unat b)" "unat b \<in> set [0..<256]"
    using unat_u8_less [of b] by simp_all
  ultimately show ?thesis
    by (metis image_eqI image_set)
qed

lemma u16_block:
  assumes "r < (65536::nat)"
  shows "lo * 65536 \<le> m * 65536 + r \<longleftrightarrow> lo \<le> m" and "m * 65536 + r < hi * 65536 \<longleftrightarrow> m < hi"
  using assms by linarith+

lemma u8_block:
  assumes "b < (256::nat)" and "hi \<le> 256"
  shows "k * 256 + lo \<le> a * 256 + b \<and> a * 256 + b < k * 256 + hi \<longleftrightarrow> a = k \<and> lo \<le> b \<and> b < hi"
proof -
  consider "a < k" | "a = k" | "k < a" by linarith
  then show ?thesis
  proof cases
    case 1
    then have "Suc a * 256 \<le> k * 256" by (simp add: Suc_leI)
    with 1 assms show ?thesis by auto
  next
    case 3
    then have "Suc k * 256 \<le> a * 256" by (simp add: Suc_leI)
    with 3 assms show ?thesis by auto
  qed auto
qed

lemma v4_block:
  assumes "r < (65536::nat)" and "b < (256::nat)" and "hi \<le> 256"
  shows "(k * 256 + lo) * 65536 \<le> (a * 256 + b) * 65536 + r \<and> (a * 256 + b) * 65536 + r < (k * 256 + hi) * 65536
    \<longleftrightarrow> a = k \<and> lo \<le> b \<and> b < hi"
  unfolding u16_block [OF assms(1)] using u8_block [OF assms(2,3)] .

text \<open>The local-network rule is exactly the advertised address blocks: an IPv4 address is let
  in if and only if, read as a 32-bit number, it lies in 127.0.0.0/8, 10.0.0.0/8,
  172.16.0.0/12, 192.168.0.0/16, 169.254.0.0/16 or the CGNAT block 100.64.0.0/10.\<close>

theorem is_private_address_v4_blocks:
  "is_private_address (V4 a b c d) \<longleftrightarrow>
     (let n = v4_value a b c d in
        127 * 256 * 65536 \<le> n \<and> n < 128 * 256 * 65536
      \<or> 10 * 256 * 65536 \<le> n \<and> n < 11 * 256 * 65536
      \<or> (172 * 256 + 16) * 65536 \<le> n \<and> n < (172 * 256 + 32) * 65536
      \<or> (192 * 256 + 168) * 65536 \<le> n \<and> n < (192 * 256 + 169) * 65536
      \<or> (169 * 256 + 254) * 65536 \<le> n \<and> n < (169 * 256 + 255) * 65536
      \<or> (100 * 256 + 64) * 65536 \<le> n \<and> n < (100 * 256 + 128) * 65536)"
proof -
  define A B r where "A = unat a" and "B = unat b" and "r = unat c * 256 + unat d"
  have r: "r < 65536"
    using unat_u8_less [of c] unat_u8_less [of d] by (simp add: r_def)
  have B: "B < 256"
    using unat_u8_less [of b] by (simp add: B_def)
  have h: "(32::nat) \<le> 256" "(169::nat) \<le> 256" "(255::nat) \<le> 256" "(128::nat) \<le> 256"
    by simp_all
  have n: "v4_value a b c d = (A * 256 + B) * 65536 + r"
    by (simp add: v4_value_def A_def B_def r_def algebra_simps)
  have "is_private_address (V4 a b c d) \<longleftrightarrow>
      A = 127 \<or> A = 10 \<or> (A = 172 \<and> 16 \<le> B \<and> B < 32) \<or> (A = 192 \<and> 168 \<le> B \<and> B < 169)
      \<or> (A = 169 \<and> 254 \<le> B \<and> B < 255) \<or> (A = 100 \<and> 64 \<le> B \<and> B < 128)"
    unfolding is_private_address.simps and_c0_iff
    by (auto simp: A_def B_def word_unat_eq_iff word_le_nat_alt)
  moreover have "127 * 256 * 65536 \<le> (A * 256 + B) * 65536 + r \<and> (A * 256 + B) * 65536 + r < 128 * 256 * 65536
      \<longleftrightarrow> A = 127"
    using v4_block [OF r B, of 256 127 0 A] B by simp
  moreover have "10 * 256 * 65536 \<le> (A * 256 + B) * 65536 + r \<and> (A * 256 + B) * 65536 + r < 11 * 256 * 65536
      \<longleftrightarrow> A = 10"
    using v4_block [OF r B, of 256 10 0 A] B by simp
  ultimately show ?thesis
    by (simp only: Let_def n v4_block [OF r B h(1)] v4_block [OF r B h(2)] v4_block [OF r B h(3)] v4_block [OF r B h(4)])
qed

lemma is_private_address_examples:
  "is_private_address (V4 192 168 1 1)" "\<not> is_private_address (V4 8 8 8 8)"
  "is_private_address (V4 100 127 255 254)" "\<not> is_private_address (V4 100 128 0 1)"
  by simp_all

section \<open>Device-id comparison\<close>

lemma kde_norm_chars:
  "chars_of (kde_norm s) = map (\<lambda>c. if ascii_alnum c then c else 95) (chars_of s)"
proof -
  have "list_all scalar_value (map (\<lambda>c. if ascii_alnum c then c else 95) (chars_of s))"
    using chars_of_scalar [of s] by (auto simp: list_all_iff scalar_value_def)
  then show ?thesis
    by (simp add: kde_norm_def chars_of_string_of)
qed

lemma kde_norm_idem: "kde_norm (kde_norm s) = kde_norm s"
proof -
  have "map (\<lambda>c. if ascii_alnum c then c else 95) (chars_of (kde_norm s))
      = map (\<lambda>c. if ascii_alnum c then c else 95) (chars_of s)"
    by (simp add: kde_norm_chars)
  then show ?thesis
    by (simp only: kde_norm_def)
qed

text \<open>The tolerant comparison of a \<open>targetDeviceId\<close> with our id is an equivalence, accepts the
  id as KDE rewrites it (everything but ASCII letters and digits replaced by underscores),
  and on equal-length ids never confuses two that differ at a letter or digit.\<close>

theorem device_id_match_laws:
  shows "device_id_matches_kde_normalized a a
    \<and> device_id_matches_kde_normalized (kde_norm a) a
    \<and> device_id_matches_kde_normalized a b = device_id_matches_kde_normalized b a
    \<and> (device_id_matches_kde_normalized a b \<and> device_id_matches_kde_normalized b c
         \<longrightarrow> device_id_matches_kde_normalized a c)
    \<and> (device_id_matches_kde_normalized a b \<longrightarrow>
         length (chars_of a) = length (chars_of b) \<and>
         (\<forall>k < length (chars_of a). ascii_alnum (chars_of a ! k) \<longrightarrow> chars_of b ! k = chars_of a ! k))"
proof -
  have "length (chars_of a) = length (chars_of b) \<and>
        (\<forall>k < length (chars_of a). ascii_alnum (chars_of a ! k) \<longrightarrow> chars_of b ! k = chars_of a ! k)"
    if "device_id_matches_kde_normalized a b"
  proof -
    have e: "map (\<lambda>c. if ascii_alnum c then c else 95) (chars_of a)
           = map (\<lambda>c. if ascii_alnum c then c else 95) (chars_of b)"
      using that kde_norm_chars by (metis device_id_matches_kde_normalized_def)
    then have l: "length (chars_of a) = length (chars_of b)"
      by (rule map_eq_imp_length_eq)
    have "chars_of b ! k = chars_of a ! k"
      if "k < length (chars_of a)" "ascii_alnum (chars_of a ! k)" for k
      using that l arg_cong [OF e, of "\<lambda>xs. xs ! k"] by (auto simp: ascii_alnum_def split: if_splits)
    with l show ?thesis by blast
  qed
  then show ?thesis
    by (auto simp: device_id_matches_kde_normalized_def kde_norm_idem)
qed

theorem device_id_match_laws_witness:
  "device_id_matches_kde_normalized ''a-b'' ''a_b'' \<and> length (chars_of ''a-b'') = length (chars_of ''a_b'')"
proof -
  have "device_id_matches_kde_normalized ''a-b'' ''a_b''"
    by code_simp
  with device_id_match_laws [where a = "''a-b''" and b = "''a_b''"] show ?thesis by blast
qed

text \<open>The id check is looser than the ASCII alphabet its comment names: a 32-byte id made of
  thirty letters and one accented letter, 31 characters long, is accepted wherever the
  Unicode tables call that letter alphanumeric.\<close>

theorem validate_device_id_accepts_non_ascii:
  assumes "unicode_alnum E 233"
  shows "validate_device_id E (replicate 30 (CHR ''a'') @ [CHR 0xC3, CHR 0xA9]) = Inr ()
    \<and> length (chars_of (replicate 30 (CHR ''a'') @ [CHR 0xC3, CHR 0xA9])) = 31"
proof -
  let ?d = "replicate 30 (CHR ''a'') @ [CHR 0xC3, CHR 0xA9]"
  have cs: "chars_of ?d = replicate 30 97 @ [233]"
    by code_simp
  have "\<not> str_contains ?d ''..''"
    by (rule no_dot_no_dots) simp
  then have "valid_id E ?d"
    unfolding validate_device_id_ok cs
    by (simp add: is_alphanumeric_def ascii_alnum_def assms list_all_iff)
  then show ?thesis
    by (cases "validate_device_id E ?d") (simp_all add: cs)
qed

theorem validate_device_id_accepts_non_ascii_witness:
  "validate_device_id (demo_externals\<lparr>unicode_alnum := (\<lambda>c. c = 233)\<rparr>)
     (replicate 30 (CHR ''a'') @ [CHR 0xC3, CHR 0xA9]) = Inr ()"
  using validate_device_id_accepts_non_ascii [of "demo_externals\<lparr>unicode_alnum := (\<lambda>c. c = 233)\<rparr>"]
  by simp

end
