(* ===== verification/Disk.thy ===== *)
theory Disk
  imports Errors
begin

text \<open>
  The file system as the program sees it through \<open>std::fs\<close>: files with contents and a
  permission mode, directories with a mode, and a script that decides how each call ends.
  A call may succeed, fail before it did anything, or fail half way (a write that stored
  only a prefix). The script is part of the state, each call takes its next entry, and an
  exhausted script means success, so a theorem over all disks covers every pattern of
  failures. A path is a directory and a file name in it.
\<close>

section \<open>Computations with state and errors\<close>

type_synonym ('s, 'a) op = "'s \<Rightarrow> 'a res \<times> 's"

definition sreturn :: "'a \<Rightarrow> ('s, 'a) op" where
  "sreturn a s = (Inr a, s)"

definition sfail :: "error \<Rightarrow> ('s, 'a) op" where
  "sfail e s = (Inl e, s)"

definition sbind :: "('s, 'a) op \<Rightarrow> ('a \<Rightarrow> ('s, 'b) op) \<Rightarrow> ('s, 'b) op" where
  "sbind m f s = (case m s of (Inl e, s') \<Rightarrow> (Inl e, s') | (Inr a, s') \<Rightarrow> f a s')"

definition slift :: "'a res \<Rightarrow> ('s, 'a) op" where
  "slift r s = (r, s)"

definition map_err :: "(error \<Rightarrow> error) \<Rightarrow> 'a res \<Rightarrow> 'a res" where
  "map_err f r = (case r of Inl e \<Rightarrow> Inl (f e) | Inr a \<Rightarrow> Inr a)"

lemma sbind_Inr_iff [result_simps]:
  "sbind m f s = (Inr b, t) \<longleftrightarrow> (\<exists>a s'. m s = (Inr a, s') \<and> f a s' = (Inr b, t))"
  by (auto simp: sbind_def split: prod.splits sum.splits)

lemma sbind_step [simp]:
  "m s = (Inr a, s') \<Longrightarrow> sbind m f s = f a s'"
  "m s = (Inl e, s') \<Longrightarrow> sbind m f s = (Inl e, s')"
  by (simp_all add: sbind_def)

lemma sreturn_iff [result_simps]: "sreturn a s = (Inr b, t) \<longleftrightarrow> b = a \<and> t = s"
  by (auto simp: sreturn_def)

lemma slift_iff [result_simps]: "slift r s = (Inr b, t) \<longleftrightarrow> r = Inr b \<and> t = s"
  by (auto simp: slift_def)

lemma sfail_iff [result_simps]: "sfail e s = (Inr b, t) \<longleftrightarrow> False"
  by (auto simp: sfail_def)

lemma map_err_Inr_iff [result_simps]: "map_err f r = Inr a \<longleftrightarrow> r = Inr a"
  by (auto simp: map_err_def split: sum.splits)

lemma is_ok_map_err [simp]: "is_ok (map_err f r) = is_ok r"
  by (cases r) (simp_all add: map_err_def)

section \<open>Disks\<close>

type_synonym path = "string \<times> string"
type_synonym mode = nat

record fentry =
  contents :: string
  fmode :: mode

datatype outcome = Done | Failed | Torn nat

definition mode_0600 :: mode where "mode_0600 = 6 * 8 * 8"
definition mode_0700 :: mode where "mode_0700 = 7 * 8 * 8"

record disk =
  files :: "path \<rightharpoonup> fentry"
  dirs :: "string \<rightharpoonup> mode"
  create_mode :: mode
  create_dir_mode :: mode
  script :: "outcome list"

definition next_outcome :: "disk \<Rightarrow> outcome \<times> disk" where
  "next_outcome d = (case script d of [] \<Rightarrow> (Done, d) | out # os \<Rightarrow> (out, d\<lparr>script := os\<rparr>))"

definition path_exists :: "path \<Rightarrow> disk \<Rightarrow> bool" where
  "path_exists p d = (files d p \<noteq> None)"

definition dir_exists :: "string \<Rightarrow> disk \<Rightarrow> bool" where
  "dir_exists n d = (dirs d n \<noteq> None)"

text \<open>The mode a written file ends up with: an existing file keeps its own.\<close>

definition mode_for :: "path \<Rightarrow> mode \<Rightarrow> disk \<Rightarrow> mode" where
  "mode_for p m d = (case files d p of Some f \<Rightarrow> fmode f | None \<Rightarrow> m)"

definition put_file :: "path \<Rightarrow> mode \<Rightarrow> string \<Rightarrow> disk \<Rightarrow> disk" where
  "put_file p m c d = d\<lparr>files := (files d)(p \<mapsto> \<lparr>contents = c, fmode = mode_for p m d\<rparr>)\<rparr>"

definition fs_write_mode :: "mode \<Rightarrow> error \<Rightarrow> path \<Rightarrow> string \<Rightarrow> (disk, unit) op" where
  "fs_write_mode m e p c d =
     (case next_outcome d of
        (Done, d') \<Rightarrow> (Inr (), put_file p m c d')
      | (Failed, d') \<Rightarrow> (Inl e, d')
      | (Torn n, d') \<Rightarrow> (Inl e, put_file p m (take n c) d'))"

definition fs_write :: "error \<Rightarrow> path \<Rightarrow> string \<Rightarrow> (disk, unit) op" where
  "fs_write e p c d = fs_write_mode (create_mode d) e p c d"

definition fs_open_truncate :: "mode \<Rightarrow> error \<Rightarrow> path \<Rightarrow> (disk, unit) op" where
  "fs_open_truncate m e p = fs_write_mode m e p []"

definition fs_write_all :: "error \<Rightarrow> path \<Rightarrow> string \<Rightarrow> (disk, unit) op" where
  "fs_write_all e p c d = fs_write e p c d"

definition fs_read :: "error \<Rightarrow> path \<Rightarrow> (disk, string) op" where
  "fs_read e p d =
     (case next_outcome d of
        (Done, d') \<Rightarrow> (case files d' p of Some f \<Rightarrow> (Inr (contents f), d') | None \<Rightarrow> (Inl e, d'))
      | (_, d') \<Rightarrow> (Inl e, d'))"

definition fs_remove :: "error \<Rightarrow> path \<Rightarrow> (disk, unit) op" where
  "fs_remove e p d =
     (case next_outcome d of
        (Done, d') \<Rightarrow> (if path_exists p d' then (Inr (), d'\<lparr>files := hm_remove p (files d')\<rparr>) else (Inl e, d'))
      | (_, d') \<Rightarrow> (Inl e, d'))"

definition fs_rename :: "error \<Rightarrow> path \<Rightarrow> path \<Rightarrow> (disk, unit) op" where
  "fs_rename e p q d =
     (case next_outcome d of
        (Done, d') \<Rightarrow>
          (case files d' p of
             Some f \<Rightarrow> (Inr (), d'\<lparr>files := (hm_remove p (files d'))(q \<mapsto> f)\<rparr>)
           | None \<Rightarrow> (Inl e, d'))
      | (_, d') \<Rightarrow> (Inl e, d'))"

definition fs_set_mode :: "mode \<Rightarrow> error \<Rightarrow> path \<Rightarrow> (disk, unit) op" where
  "fs_set_mode m e p d =
     (case next_outcome d of
        (Done, d') \<Rightarrow>
          (case files d' p of
             Some f \<Rightarrow> (Inr (), d'\<lparr>files := (files d')(p \<mapsto> f\<lparr>fmode := m\<rparr>)\<rparr>)
           | None \<Rightarrow> (Inl e, d'))
      | (_, d') \<Rightarrow> (Inl e, d'))"

definition fs_create_dir_all :: "error \<Rightarrow> string \<Rightarrow> (disk, unit) op" where
  "fs_create_dir_all e n d =
     (case next_outcome d of
        (Done, d') \<Rightarrow> (Inr (), if dir_exists n d' then d' else d'\<lparr>dirs := (dirs d')(n \<mapsto> create_dir_mode d')\<rparr>)
      | (_, d') \<Rightarrow> (Inl e, d'))"

definition fs_set_dir_mode :: "mode \<Rightarrow> error \<Rightarrow> string \<Rightarrow> (disk, unit) op" where
  "fs_set_dir_mode m e n d =
     (case next_outcome d of
        (Done, d') \<Rightarrow> (if dir_exists n d' then (Inr (), d'\<lparr>dirs := (dirs d')(n \<mapsto> m)\<rparr>) else (Inl e, d'))
      | (_, d') \<Rightarrow> (Inl e, d'))"

section \<open>What each call may change\<close>

lemma next_outcome_frame [simp]:
  "next_outcome d = (out, d') \<Longrightarrow> files d' = files d"
  "next_outcome d = (out, d') \<Longrightarrow> dirs d' = dirs d"
  "next_outcome d = (out, d') \<Longrightarrow> create_mode d' = create_mode d"
  by (auto simp: next_outcome_def split: list.splits)

lemma fs_write_mode_cases:
  assumes "fs_write_mode m e p c d = (r, d')"
  obtains (written) "r = Inr ()" "files d' = (files d)(p \<mapsto> \<lparr>contents = c, fmode = mode_for p m d\<rparr>)"
  | (failed) "r = Inl e" "files d' = files d"
  | (torn) n where "r = Inl e" "files d' = (files d)(p \<mapsto> \<lparr>contents = take n c, fmode = mode_for p m d\<rparr>)"
  using assms
  by (auto simp: fs_write_mode_def put_file_def mode_for_def split: prod.splits outcome.splits)

lemma fs_write_cases:
  assumes "fs_write e p c d = (r, d')"
  obtains (written) "r = Inr ()" "files d' = (files d)(p \<mapsto> \<lparr>contents = c, fmode = mode_for p (create_mode d) d\<rparr>)"
  | (failed) "r = Inl e" "files d' = files d"
  | (torn) n where "r = Inl e"
      "files d' = (files d)(p \<mapsto> \<lparr>contents = take n c, fmode = mode_for p (create_mode d) d\<rparr>)"
  using assms unfolding fs_write_def by (rule fs_write_mode_cases)

lemma fs_write_mode_other: "fs_write_mode m e p c d = (r, d') \<Longrightarrow> q \<noteq> p \<Longrightarrow> files d' q = files d q"
  by (erule fs_write_mode_cases) auto

lemma fs_write_other: "fs_write e p c d = (r, d') \<Longrightarrow> q \<noteq> p \<Longrightarrow> files d' q = files d q"
  by (erule fs_write_cases) auto

lemma fs_read_frame: "fs_read e p d = (r, d') \<Longrightarrow> files d' = files d \<and> dirs d' = dirs d"
  by (auto simp: fs_read_def split: prod.splits outcome.splits option.splits)

lemma fs_read_Inr: "fs_read e p d = (Inr c, d') \<Longrightarrow> \<exists>f. files d p = Some f \<and> contents f = c"
  by (auto simp: fs_read_def split: prod.splits outcome.splits option.splits)

lemma fs_remove_other: "fs_remove e p d = (r, d') \<Longrightarrow> q \<noteq> p \<Longrightarrow> files d' q = files d q"
  by (auto simp: fs_remove_def split: prod.splits outcome.splits if_splits)

lemma fs_remove_Inr: "fs_remove e p d = (Inr x, d') \<Longrightarrow> files d' p = None"
  by (auto simp: fs_remove_def split: prod.splits outcome.splits if_splits)

lemma fs_remove_le: "fs_remove e p d = (r, d') \<Longrightarrow> files d' q = files d q \<or> files d' q = None"
  by (auto simp: fs_remove_def split: prod.splits outcome.splits if_splits)

lemma fs_set_mode_cases:
  assumes "fs_set_mode m e p d = (r, d')"
  obtains (changed) f where "r = Inr ()" "files d p = Some f" "files d' = (files d)(p \<mapsto> f\<lparr>fmode := m\<rparr>)"
  | (failed) "r = Inl e" "files d' = files d"
  using assms
  by (auto simp: fs_set_mode_def split: prod.splits outcome.splits option.splits)

lemma fs_dir_frame:
  "fs_create_dir_all e n d = (r, d') \<Longrightarrow> files d' = files d"
  "fs_set_dir_mode m e n d = (r, d') \<Longrightarrow> files d' = files d"
  by (auto simp: fs_create_dir_all_def fs_set_dir_mode_def split: prod.splits outcome.splits if_splits)

lemma fs_rename_other: "fs_rename e p q d = (r, d') \<Longrightarrow> x \<noteq> p \<Longrightarrow> x \<noteq> q \<Longrightarrow> files d' x = files d x"
  by (auto simp: fs_rename_def split: prod.splits outcome.splits option.splits)

lemma fs_rename_Inr:
  "fs_rename e p q d = (Inr u, d') \<Longrightarrow> \<exists>f. files d p = Some f \<and> files d' = (hm_remove p (files d))(q \<mapsto> f)"
  by (auto simp: fs_rename_def split: prod.splits outcome.splits option.splits)

text \<open>With nothing left in the script every call does what it says.\<close>

lemma script_empty_write [simp]:
  "script d = [] \<Longrightarrow> fs_write e p c d = (Inr (), put_file p (create_mode d) c d)"
  by (simp add: fs_write_def fs_write_mode_def next_outcome_def)

lemma script_empty_read [simp]:
  "script d = [] \<Longrightarrow> files d p = Some f \<Longrightarrow> fs_read e p d = (Inr (contents f), d)"
  by (simp add: fs_read_def next_outcome_def)

text \<open>Replacing a file by writing a temporary one and renaming it touches these two only.\<close>

lemma atomic_write_other:
  assumes "q \<noteq> p" and "q \<noteq> tmp"
  shows "files (snd (sbind (fs_create_dir_all e1 dir) (\<lambda>_. sbind (fs_write e2 tmp c) (\<lambda>_. fs_rename e3 tmp p)) d)) q = files d q"
  using assms
  by (auto simp: sbind_def split: prod.splits sum.splits dest!: fs_dir_frame fs_write_other [OF _ assms(2)])
     (simp add: fs_rename_other [OF prod.collapse [symmetric] assms(2,1)])

end
