(* ===== verification/Crypto.thy ===== *)
theory Crypto
  imports Identity Disk
begin

unbundle bit_operations_syntax

text \<open>
  Certificates and trust (\<open>src/protocol/crypto.rs\<close>): PEM framing, the certificate
  directory with its private keys, the trust-on-first-use fingerprint store and the short
  authentication string. The operations work on a \<open>disk\<close>; X.509, SHA-256 and base64 are
  fields of the parameter \<open>E\<close>.
\<close>

section \<open>PEM\<close>

definition BEGIN_MARKER :: string where "BEGIN_MARKER = ''-----BEGIN CERTIFICATE-----''"
definition END_MARKER :: string where "END_MARKER = ''-----END CERTIFICATE-----''"

text \<open>\<open>str::lines\<close>: split at newlines, drop one carriage return at the end of a line; a last
  line that is empty does not count.\<close>

definition strip_cr :: "string \<Rightarrow> string" where
  "strip_cr l = (if l \<noteq> [] \<and> last l = CHR 0x0D then butlast l else l)"

fun split_lines :: "string \<Rightarrow> string \<Rightarrow> string list" where
  "split_lines cur [] = (if cur = [] then [] else [rev cur])"
| "split_lines cur (c # cs) =
     (if c = newline then strip_cr (rev cur) # split_lines [] cs else split_lines (c # cur) cs)"

definition str_lines :: "string \<Rightarrow> string list" where
  "str_lines s = split_lines [] s"

fun collect_b64 :: "bool \<Rightarrow> string list \<Rightarrow> string" where
  "collect_b64 in_cert [] = ''''"
| "collect_b64 in_cert (line # ls) =
     (let trimmed = trim line in
      if trimmed = BEGIN_MARKER then collect_b64 True ls
      else if trimmed = END_MARKER then ''''
      else if in_cert then trimmed @ collect_b64 in_cert ls
      else collect_b64 in_cert ls)"

definition pem_to_der :: "externals \<Rightarrow> string \<Rightarrow> string res" where
  "pem_to_der E pem_bytes =
     (if \<not> valid_utf8 pem_bytes then Inl (CertificateError ''Invalid UTF-8 in PEM'')
      else if 1 < length (filter (\<lambda>l. trim l = BEGIN_MARKER) (str_lines pem_bytes)) then
        Inl (CertificateError ''PEM holds more than one certificate; exactly one is expected'')
      else ok_or (CertificateError ''Failed to decode PEM base64'')
             (b64_decode E (collect_b64 False (str_lines pem_bytes))))"

fun chunks :: "nat \<Rightarrow> 'a list \<Rightarrow> 'a list list" where
  "chunks n [] = []"
| "chunks n (x # xs) = take (Suc (n - 1)) (x # xs) # chunks n (drop (n - 1) xs)"

definition der_to_pem :: "externals \<Rightarrow> string \<Rightarrow> string" where
  "der_to_pem E der_bytes =
     BEGIN_MARKER @ [newline]
     @ concat (map (\<lambda>chunk. (if valid_utf8 chunk then chunk else '''') @ [newline])
                   (chunks 64 (b64_encode E der_bytes)))
     @ END_MARKER @ [newline]"

definition extract_cn_from_der :: "externals \<Rightarrow> string \<Rightarrow> string res" where
  "extract_cn_from_der E cert_der =
     (case x509_common_name E cert_der of
        None \<Rightarrow> Inl (CertificateError ''Failed to parse DER certificate'')
      | Some None \<Rightarrow> Inl (CertificateError ''Certificate has no Common Name (CN)'')
      | Some (Some name) \<Rightarrow> Inr name)"

definition parse_x509_der :: "externals \<Rightarrow> string \<Rightarrow> unit res" where
  "parse_x509_der E der =
     (case x509_common_name E der of
        None \<Rightarrow> Inl (CertificateError ''Failed to parse DER certificate'') | Some _ \<Rightarrow> Inr ())"

section \<open>The certificate directory\<close>

record certificate_manager =
  cert_dir :: string

definition bad_path :: "error \<Rightarrow> error" where
  "bad_path e = InvalidRequest ''Invalid device_id''"

definition cert_path :: "externals \<Rightarrow> certificate_manager \<Rightarrow> string \<Rightarrow> path res" where
  "cert_path E cm did =
     rbind (map_err bad_path (validate_device_id E did)) (\<lambda>_. Inr (cert_dir cm, did @ ''.crt''))"

definition key_path :: "externals \<Rightarrow> certificate_manager \<Rightarrow> string \<Rightarrow> path res" where
  "key_path E cm did =
     rbind (map_err bad_path (validate_device_id E did)) (\<lambda>_. Inr (cert_dir cm, did @ ''.key''))"

definition peer_cert_path :: "externals \<Rightarrow> certificate_manager \<Rightarrow> string \<Rightarrow> path res" where
  "peer_cert_path E cm did =
     rbind (map_err bad_path (validate_device_id E did)) (\<lambda>_. Inr (cert_dir cm, did @ ''_peer.crt''))"

definition fingerprint_path :: "externals \<Rightarrow> certificate_manager \<Rightarrow> string \<Rightarrow> path res" where
  "fingerprint_path E cm did =
     rbind (map_err bad_path (validate_device_id E did)) (\<lambda>_. Inr (cert_dir cm, did @ ''_fingerprint.txt''))"

definition own_cert_path :: "certificate_manager \<Rightarrow> path" where
  "own_cert_path cm = (cert_dir cm, ''own.crt'')"

definition own_key_path :: "certificate_manager \<Rightarrow> path" where
  "own_key_path cm = (cert_dir cm, ''own.key'')"

definition init :: "certificate_manager \<Rightarrow> (disk, unit) op" where
  "init cm d =
     sbind (\<lambda>d. if \<not> dir_exists (cert_dir cm) d
                then fs_create_dir_all (io_error ''Failed to create certificate directory'' (Some (cert_dir cm)))
                       (cert_dir cm) d
                else (Inr (), d)) (\<lambda>_.
       fs_set_dir_mode mode_0700
         (io_error ''Failed to set certificate directory permissions'' (Some (cert_dir cm))) (cert_dir cm)) d"

text \<open>
  Writing a private key: an existing file is tightened before it is truncated, a new one
  is created owner-only, and the mode is set once more at the end.
\<close>

definition write_private :: "error \<Rightarrow> error \<Rightarrow> error \<Rightarrow> path \<Rightarrow> string \<Rightarrow> (disk, unit) op" where
  "write_private e_mode e_open e_write p c =
     sbind (\<lambda>d. if path_exists p d then fs_set_mode mode_0600 e_mode p d else (Inr (), d)) (\<lambda>_.
     sbind (fs_open_truncate mode_0600 e_open p) (\<lambda>_.
     sbind (fs_write_all e_write p c) (\<lambda>_.
       fs_set_mode mode_0600 e_mode p)))"

definition write_key_file :: "path \<Rightarrow> string \<Rightarrow> (disk, unit) op" where
  "write_key_file p key_pem =
     write_private (io_error ''Failed to set private key permissions'' (Some (snd p)))
       (io_error ''Failed to create private key file'' (Some (snd p)))
       (io_error ''Failed to write private key data'' (Some (snd p))) p key_pem"

definition store_certificate ::
    "externals \<Rightarrow> certificate_manager \<Rightarrow> string \<Rightarrow> string \<Rightarrow> string \<Rightarrow> (disk, unit) op" where
  "store_certificate E cm did cert_pem key_pem =
     sbind (init cm) (\<lambda>_.
     sbind (slift (cert_path E cm did)) (\<lambda>cp.
     sbind (slift (key_path E cm did)) (\<lambda>kp.
     sbind (fs_write (io_error ''Failed to write certificate'' (Some (snd cp))) cp cert_pem) (\<lambda>_.
       write_key_file kp key_pem))))"

definition load_certificate ::
    "externals \<Rightarrow> certificate_manager \<Rightarrow> string \<Rightarrow> (disk, string \<times> string) op" where
  "load_certificate E cm did =
     sbind (slift (cert_path E cm did)) (\<lambda>cp.
     sbind (slift (key_path E cm did)) (\<lambda>kp. \<lambda>d.
       if \<not> path_exists cp d then (Inl (not_found ''Certificate file not found'' (Some (snd cp))), d)
       else if \<not> path_exists kp d then (Inl (not_found ''Private key file not found'' (Some (snd kp))), d)
       else sbind (fs_read (io_error ''Failed to read certificate'' (Some (snd cp))) cp) (\<lambda>c.
            sbind (fs_read (io_error ''Failed to read private key'' (Some (snd kp))) kp) (\<lambda>k.
              sreturn (c, k))) d))"

definition validate_certificate :: "externals \<Rightarrow> string \<Rightarrow> string \<Rightarrow> unit res" where
  "validate_certificate E cert_pem key_pem =
     rbind (map_err (\<lambda>_. validation ''Failed to parse certificate'' (Some ''cert_pem'')) (pem_to_der E cert_pem)) (\<lambda>der.
     rbind (map_err (\<lambda>_. validation ''Failed to parse certificate'' (Some ''cert_pem'')) (parse_x509_der E der)) (\<lambda>_.
       if key_from_pem E key_pem then Inr ()
       else Inl (validation ''Failed to parse private key'' (Some ''key_pem''))))"

definition has_certificate :: "externals \<Rightarrow> certificate_manager \<Rightarrow> string \<Rightarrow> disk \<Rightarrow> bool" where
  "has_certificate E cm did d =
     (case cert_path E cm did of Inl _ \<Rightarrow> False | Inr cp \<Rightarrow>
       (case key_path E cm did of Inl _ \<Rightarrow> False | Inr kp \<Rightarrow> path_exists cp d \<and> path_exists kp d))"

subsection \<open>Generating a certificate\<close>

definition day_of :: "instant \<Rightarrow> int" where
  "day_of t = t div (86400 * 1000000000)"

definition fix_serial :: "u8 list \<Rightarrow> u8 list" where
  "fix_serial bs = (case bs of [] \<Rightarrow> [] | b # r \<Rightarrow> ((b AND 0x7F) OR 0x01) # r)"

text \<open>
  The random draws are arguments: the generated key (\<open>None\<close> when key generation fails) and
  the twenty serial bytes (\<open>None\<close> when the random source fails). The ASCII check of the
  alternative name never fails, because the name is made of ASCII letters, digits and
  underscores.
\<close>

definition generate_certificate ::
    "externals \<Rightarrow> string option \<Rightarrow> u8 list option \<Rightarrow> instant \<Rightarrow> string \<Rightarrow> (string \<times> string) res" where
  "generate_certificate E gen_key gen_serial now did =
     rbind (ok_or (TlsError ''Failed to generate RSA key'') gen_key) (\<lambda>signing_key.
     rbind (ok_or (TlsError ''Failed to generate serial'') gen_serial) (\<lambda>serial_buf.
       (let san_dns_name = string_of (map (\<lambda>c. if ascii_alnum c \<or> c = 95 then c else 95) (chars_of did));
            params = \<lparr>san_dns = san_dns_name, subject_cn = did, subject_ou = ''KDE Connect'', subject_o = ''KDE'',
                      serial_number = fix_serial serial_buf,
                      not_before_day = day_of (now - 365 * 86400 * 1000000000),
                      not_after_day = day_of (now + 3650 * 86400 * 1000000000)\<rparr>
        in rbind (ok_or (TlsError ''Failed to sign cert'') (x509_sign E params signing_key)) (\<lambda>cert_pem.
             Inr (cert_pem, key_serialize_pem E signing_key)))))"

definition ensure_certificate ::
    "externals \<Rightarrow> certificate_manager \<Rightarrow> string option \<Rightarrow> u8 list option \<Rightarrow> instant \<Rightarrow> string \<Rightarrow> (disk, string) op" where
  "ensure_certificate E cm gen_key gen_serial now did =
     sbind (\<lambda>d. if \<not> has_certificate E cm did d
                then sbind (slift (generate_certificate E gen_key gen_serial now did)) (\<lambda>(cert_pem, key_pem).
                       store_certificate E cm did cert_pem key_pem) d
                else (Inr (), d)) (\<lambda>_. sreturn did)"

subsection \<open>The own certificate\<close>

definition has_own_certificate :: "certificate_manager \<Rightarrow> disk \<Rightarrow> bool" where
  "has_own_certificate cm d \<longleftrightarrow> path_exists (own_cert_path cm) d \<and> path_exists (own_key_path cm) d"

definition load_own_certificate :: "certificate_manager \<Rightarrow> (disk, string \<times> string) op" where
  "load_own_certificate cm =
     sbind (fs_read (io_error ''Failed to read own certificate'' (Some ''own.crt'')) (own_cert_path cm)) (\<lambda>c.
     sbind (fs_read (io_error ''Failed to read own key'' (Some ''own.key'')) (own_key_path cm)) (\<lambda>k.
       sreturn (c, k)))"

definition store_own_certificate :: "certificate_manager \<Rightarrow> string \<Rightarrow> string \<Rightarrow> (disk, unit) op" where
  "store_own_certificate cm cert_pem key_pem =
     sbind (init cm) (\<lambda>_.
     sbind (fs_write (io_error ''Failed to write own certificate'' (Some ''own.crt'')) (own_cert_path cm) cert_pem) (\<lambda>_.
       write_key_file (own_key_path cm) key_pem))"

definition own_certificate_is_valid :: "externals \<Rightarrow> certificate_manager \<Rightarrow> instant \<Rightarrow> disk \<Rightarrow> bool \<times> disk" where
  "own_certificate_is_valid E cm now d =
     (case fs_read (Internal '''') (own_cert_path cm) d of
        (Inl _, d') \<Rightarrow> (False, d')
      | (Inr pem_bytes, d') \<Rightarrow>
          (case pem_to_der E pem_bytes of
             Inl _ \<Rightarrow> (False, d')
           | Inr der \<Rightarrow>
               (case parse_x509_der E der of
                  Inl _ \<Rightarrow> (False, d')
                | Inr _ \<Rightarrow> (x509_is_valid E now der, d'))))"

definition ensure_own_certificate ::
    "externals \<Rightarrow> certificate_manager \<Rightarrow> string option \<Rightarrow> u8 list option \<Rightarrow> instant \<Rightarrow> string \<Rightarrow> (disk, unit) op" where
  "ensure_own_certificate E cm gen_key gen_serial now did d =
     (let (good, d1) = (if has_own_certificate cm d then own_certificate_is_valid E cm now d else (False, d))
      in if good then (Inr (), d1)
         else sbind (slift (generate_certificate E gen_key gen_serial now did)) (\<lambda>(cert_pem, key_pem).
                store_own_certificate cm cert_pem key_pem) d1)"

definition own_certificate_cn :: "externals \<Rightarrow> certificate_manager \<Rightarrow> (disk, string option) op" where
  "own_certificate_cn E cm d =
     (if \<not> path_exists (own_cert_path cm) d then (Inr None, d)
      else sbind (fs_read (io_error ''Failed to read own certificate'' (Some ''own.crt'')) (own_cert_path cm)) (\<lambda>pem.
           sbind (slift (map_err (\<lambda>_. CertificateError ''Failed to parse own certificate'') (pem_to_der E pem))) (\<lambda>der.
           sbind (slift (extract_cn_from_der E der)) (\<lambda>cn. sreturn (Some cn)))) d)"

definition adopt_legacy_own_certificate ::
    "externals \<Rightarrow> certificate_manager \<Rightarrow> string \<Rightarrow> (disk, bool) op" where
  "adopt_legacy_own_certificate E cm did d =
     (if has_own_certificate cm d then (Inr False, d)
      else sbind (slift (cert_path E cm did)) (\<lambda>legacy_cert.
           sbind (slift (key_path E cm did)) (\<lambda>legacy_key. \<lambda>d.
             if \<not> path_exists legacy_cert d \<or> \<not> path_exists legacy_key d then (Inr False, d)
             else sbind (fs_read (io_error ''Failed to read legacy certificate'' (Some (snd legacy_cert))) legacy_cert) (\<lambda>pem.
               (let cn_matches = (case pem_to_der E pem of Inl _ \<Rightarrow> False
                   | Inr der \<Rightarrow> (case extract_cn_from_der E der of Inl _ \<Rightarrow> False | Inr cn \<Rightarrow> cn = did))
                in if \<not> cn_matches then sreturn False
                   else sbind (fs_rename (io_error ''Failed to adopt legacy certificate'' (Some (snd legacy_cert)))
                                 legacy_cert (own_cert_path cm)) (\<lambda>_.
                        sbind (fs_rename (io_error ''Failed to adopt legacy key'' (Some (snd legacy_key)))
                                 legacy_key (own_key_path cm)) (\<lambda>_.
                        sbind (fs_set_mode mode_0600 (io_error ''Failed to set adopted key permissions'' (Some ''own.key''))
                                 (own_key_path cm)) (\<lambda>_. sreturn True))))) d)) d)"

definition remove_if_exists :: "error \<Rightarrow> path \<Rightarrow> (disk, unit) op" where
  "remove_if_exists e p d = (if path_exists p d then fs_remove e p d else (Inr (), d))"

definition delete_certificate :: "externals \<Rightarrow> certificate_manager \<Rightarrow> string \<Rightarrow> (disk, unit) op" where
  "delete_certificate E cm did =
     sbind (slift (cert_path E cm did)) (\<lambda>cp.
     sbind (slift (key_path E cm did)) (\<lambda>kp.
     sbind (remove_if_exists (io_error ''Failed to delete certificate'' (Some (snd cp))) cp) (\<lambda>_.
       remove_if_exists (io_error ''Failed to delete private key'' (Some (snd kp))) kp)))"

section \<open>Trust on first use\<close>

definition hex_digit :: "nat \<Rightarrow> char" where
  "hex_digit n = char_of (if n < 10 then 48 + n else 87 + n)"

definition hex_digit_upper :: "nat \<Rightarrow> char" where
  "hex_digit_upper n = char_of (if n < 10 then 48 + n else 55 + n)"

definition hex_encode :: "string \<Rightarrow> string" where
  "hex_encode bs = concat (map (\<lambda>c. [hex_digit (of_char c div 16), hex_digit (of_char c mod 16)]) bs)"

definition hex_encode_upper :: "string \<Rightarrow> string" where
  "hex_encode_upper bs =
     concat (map (\<lambda>c. [hex_digit_upper (of_char c div 16), hex_digit_upper (of_char c mod 16)]) bs)"

definition has_peer_certificate :: "externals \<Rightarrow> certificate_manager \<Rightarrow> string \<Rightarrow> disk \<Rightarrow> bool" where
  "has_peer_certificate E cm did d =
     (case peer_cert_path E cm did of Inl _ \<Rightarrow> False | Inr p \<Rightarrow> path_exists p d)"

definition compute_fingerprint :: "externals \<Rightarrow> string \<Rightarrow> string" where
  "compute_fingerprint E cert_der = hex_encode (sha256 E cert_der)"

definition has_peer_fingerprint :: "externals \<Rightarrow> certificate_manager \<Rightarrow> string \<Rightarrow> disk \<Rightarrow> bool" where
  "has_peer_fingerprint E cm did d =
     (case fingerprint_path E cm did of Inl _ \<Rightarrow> False | Inr p \<Rightarrow> path_exists p d)"

definition store_peer_fingerprint ::
    "externals \<Rightarrow> certificate_manager \<Rightarrow> string \<Rightarrow> string \<Rightarrow> (disk, unit) op" where
  "store_peer_fingerprint E cm did fp =
     sbind (init cm) (\<lambda>_.
     sbind (slift (fingerprint_path E cm did)) (\<lambda>p.
       fs_write (io_error ''Failed to write peer fingerprint'' (Some (snd p))) p fp))"

text \<open>\<open>read_to_string\<close> refuses a file that is not UTF-8.\<close>

definition fs_read_to_string :: "error \<Rightarrow> path \<Rightarrow> (disk, string) op" where
  "fs_read_to_string e p =
     sbind (fs_read e p) (\<lambda>c. if valid_utf8 c then sreturn c else sfail e)"

definition load_peer_fingerprint :: "externals \<Rightarrow> certificate_manager \<Rightarrow> string \<Rightarrow> (disk, string) op" where
  "load_peer_fingerprint E cm did =
     sbind (slift (fingerprint_path E cm did)) (\<lambda>p. \<lambda>d.
       if \<not> path_exists p d then (Inl (not_found ''No stored fingerprint for device'' (Some did)), d)
       else sbind (fs_read_to_string (io_error ''Failed to read peer fingerprint'' (Some (snd p))) p) (\<lambda>fp.
              sreturn (trim fp)) d)"

definition verify_peer_fingerprint :: "externals \<Rightarrow> certificate_manager \<Rightarrow> string \<Rightarrow> string \<Rightarrow> (disk, unit) op" where
  "verify_peer_fingerprint E cm did cert_der =
     sbind (load_peer_fingerprint E cm did) (\<lambda>stored_fp.
       if stored_fp \<noteq> compute_fingerprint E cert_der
       then sfail (CertificateError ''Certificate fingerprint mismatch for device'')
       else sreturn ())"

definition verify_peer_certificate :: "externals \<Rightarrow> certificate_manager \<Rightarrow> string \<Rightarrow> string \<Rightarrow> (disk, unit) op" where
  "verify_peer_certificate E cm did cert_der d =
     (if has_peer_fingerprint E cm did d then verify_peer_fingerprint E cm did cert_der d else (Inr (), d))"

definition store_peer_certificate :: "externals \<Rightarrow> certificate_manager \<Rightarrow> string \<Rightarrow> string \<Rightarrow> (disk, unit) op" where
  "store_peer_certificate E cm did cert_der =
     sbind (init cm) (\<lambda>_. \<lambda>d.
       (let cert_pem = der_to_pem E cert_der;
            fingerprint = compute_fingerprint E cert_der;
            first_use = (\<not> has_peer_fingerprint E cm did d)
        in sbind (if \<not> first_use then verify_peer_fingerprint E cm did cert_der else sreturn ()) (\<lambda>_.
           sbind (slift (peer_cert_path E cm did)) (\<lambda>p.
           sbind (fs_write (io_error ''Failed to write peer certificate'' (Some (snd p))) p cert_pem) (\<lambda>_.
             if first_use then store_peer_fingerprint E cm did fingerprint else sreturn ()))) d))"

definition load_peer_certificate_pem :: "externals \<Rightarrow> certificate_manager \<Rightarrow> string \<Rightarrow> (disk, string) op" where
  "load_peer_certificate_pem E cm did =
     sbind (slift (peer_cert_path E cm did)) (\<lambda>p. \<lambda>d.
       if \<not> path_exists p d then (Inl (not_found ''Peer certificate not found'' (Some (snd p))), d)
       else fs_read (io_error ''Failed to read peer certificate'' (Some (snd p))) p d)"

definition delete_peer_certificate :: "externals \<Rightarrow> certificate_manager \<Rightarrow> string \<Rightarrow> (disk, unit) op" where
  "delete_peer_certificate E cm did =
     sbind (slift (peer_cert_path E cm did)) (\<lambda>peer_path.
     sbind (slift (fingerprint_path E cm did)) (\<lambda>fp_path.
     sbind (remove_if_exists (io_error ''Failed to delete peer certificate'' (Some (snd peer_path))) peer_path) (\<lambda>_.
       remove_if_exists (io_error ''Failed to delete peer fingerprint'' (Some (snd fp_path))) fp_path)))"

definition strip_suffix :: "string \<Rightarrow> string \<Rightarrow> string option" where
  "strip_suffix suf s =
     (if length suf \<le> length s \<and> drop (length s - length suf) s = suf
      then Some (take (length s - length suf) s) else None)"

text \<open>The entries of the directory arrive in the order the system lists them.\<close>

definition list_known_peers :: "certificate_manager \<Rightarrow> string list \<Rightarrow> disk \<Rightarrow> string list" where
  "list_known_peers cm entries d =
     (if \<not> dir_exists (cert_dir cm) d then []
      else List.map_filter (strip_suffix ''_peer.crt'') entries)"

definition extract_pubkey_der :: "externals \<Rightarrow> string \<Rightarrow> string res" where
  "extract_pubkey_der E cert_der =
     ok_or (CertificateError ''Failed to parse DER certificate'') (x509_public_key E cert_der)"

section \<open>The short authentication string\<close>

fun bytes_gt :: "string \<Rightarrow> string \<Rightarrow> bool" where
  "bytes_gt [] ys = False"
| "bytes_gt (x # xs) [] = True"
| "bytes_gt (x # xs) (y # ys) =
     (if (of_char x :: nat) = of_char y then bytes_gt xs ys else (of_char y :: nat) < of_char x)"

fun print_nat :: "nat \<Rightarrow> string" where
  "print_nat n = (if n < 10 then [char_of (48 + n)] else print_nat (n div 10) @ [char_of (48 + n mod 10)])"

declare print_nat.simps [simp del]

definition print_i64 :: "i64 \<Rightarrow> string" where
  "print_i64 i = (if sint i < 0 then ''-'' @ print_nat (nat (- sint i)) else print_nat (nat (sint i)))"

definition compute_verification_key :: "externals \<Rightarrow> string \<Rightarrow> string \<Rightarrow> i64 \<Rightarrow> string" where
  "compute_verification_key E our_pubkey_der peer_pubkey_der ts =
     (let (first, second) = (if bytes_gt our_pubkey_der peer_pubkey_der then (our_pubkey_der, peer_pubkey_der)
                             else (peer_pubkey_der, our_pubkey_der));
          input = first @ second @ print_i64 ts
      in hex_encode_upper (take 4 (sha256 E input)))"

section \<open>PEM framing is lossless\<close>

definition b64_char :: "char \<Rightarrow> bool" where
  "b64_char c \<longleftrightarrow> ascii_alnum (of_char c) \<or> c \<in> {CHR ''+'', CHR ''/'', CHR ''=''}"

lemma b64_char_facts:
  assumes "b64_char c"
  shows "c \<noteq> newline" "c \<noteq> CHR 0x0D" "c \<noteq> CHR ''-''" "(of_char c :: nat) < 128" "\<not> white_space (of_char c)"
  using assms by (auto simp: b64_char_def ascii_alnum_def newline_def white_space_def)

lemma split_lines_line:
  "newline \<notin> set l \<Longrightarrow> split_lines cur (l @ newline # rest) = strip_cr (rev cur @ l) # split_lines [] rest"
  by (induction l arbitrary: cur) auto

lemma str_lines_cons: "newline \<notin> set l \<Longrightarrow> str_lines (l @ newline # rest) = strip_cr l # str_lines rest"
  using split_lines_line [of l "[]" rest] by (simp add: str_lines_def)

lemma str_lines_Nil [simp]: "str_lines [] = []"
  by (simp add: str_lines_def)

lemma str_lines_concat:
  assumes "\<forall>l \<in> set ls. newline \<notin> set l"
  shows "str_lines (concat (map (\<lambda>l. l @ [newline]) ls) @ rest) = map strip_cr ls @ str_lines rest"
  using assms by (induction ls) (simp_all add: str_lines_cons)

lemma concat_chunks: "0 < n \<Longrightarrow> concat (chunks n xs) = xs"
  by (induction n xs rule: chunks.induct) (auto simp: take_Cons split: nat.splits)

lemma chunks_subset: "0 < n \<Longrightarrow> l \<in> set (chunks n xs) \<Longrightarrow> set l \<subseteq> set xs"
  by (metis concat_chunks Sup_upper image_eqI set_concat)

lemma trim_plain:
  assumes "\<forall>c \<in> set l. (of_char c :: nat) < 128" and "l = [] \<or> \<not> white_space (of_char (hd l)) \<and> \<not> white_space (of_char (last l))"
  shows "trim l = l"
proof -
  have a: "ascii_string l"
    using assms(1) by (simp add: ascii_string_def list_all_iff bytes_of_def)
  have "trim_chars (bytes_of l) = bytes_of l"
  proof (cases "l = []")
    case False
    with assms(2) show ?thesis
      by (intro trim_chars_id) (simp add: bytes_of_def hd_map last_map)
  qed (simp add: bytes_of_def trim_chars_def)
  then show ?thesis
    using string_of_chars_of [OF valid_utf8_ascii [OF a]] by (simp add: trim_def chars_of_ascii [OF a])
qed

lemma trim_markers [simp]: "trim BEGIN_MARKER = BEGIN_MARKER" "trim END_MARKER = END_MARKER"
  by (rule trim_plain; simp add: BEGIN_MARKER_def END_MARKER_def white_space_def)+

lemma markers [simp]:
  "BEGIN_MARKER \<noteq> END_MARKER" "END_MARKER \<noteq> BEGIN_MARKER" "newline \<notin> set BEGIN_MARKER" "newline \<notin> set END_MARKER"
  "strip_cr BEGIN_MARKER = BEGIN_MARKER" "strip_cr END_MARKER = END_MARKER"
  by (simp_all add: BEGIN_MARKER_def END_MARKER_def newline_def strip_cr_def)

lemma b64_line:
  assumes "list_all b64_char l"
  shows "newline \<notin> set l" "strip_cr l = l" "trim l = l" "l \<noteq> BEGIN_MARKER" "l \<noteq> END_MARKER" "ascii_string l"
proof -
  have dash: "CHR ''-'' \<in> set BEGIN_MARKER" "CHR ''-'' \<in> set END_MARKER"
    by (simp_all add: BEGIN_MARKER_def END_MARKER_def)
  have c: "\<And>c. c \<in> set l \<Longrightarrow> b64_char c" using assms by (simp add: list_all_iff)
  show "newline \<notin> set l" using b64_char_facts(1) c by blast
  show "strip_cr l = l"
    using b64_char_facts(2) c last_in_set [of l] by (auto simp: strip_cr_def)
  show "trim l = l"
  proof (rule trim_plain)
    show "\<forall>c\<in>set l. (of_char c :: nat) < 128" using b64_char_facts(4) c by blast
    show "l = [] \<or> \<not> white_space (of_char (hd l)) \<and> \<not> white_space (of_char (last l))"
      using b64_char_facts(5) c by auto
  qed
  show "l \<noteq> BEGIN_MARKER" "l \<noteq> END_MARKER"
    using b64_char_facts(3) c dash by blast+
  show "ascii_string l"
    using b64_char_facts(4) c by (auto simp: ascii_string_def list_all_iff bytes_of_def)
qed

lemma collect_b64_lines:
  assumes "\<forall>l \<in> set ls. list_all b64_char l"
  shows "collect_b64 True (ls @ [END_MARKER]) = concat ls"
  using assms by (induction ls) (auto simp: Let_def b64_line)

lemma ascii_string_append [simp]: "ascii_string (a @ b) \<longleftrightarrow> ascii_string a \<and> ascii_string b"
  by (simp add: ascii_string_def bytes_of_def)

lemma ascii_string_concat: "ascii_string (concat ls) \<longleftrightarrow> (\<forall>l \<in> set ls. ascii_string l)"
  by (induction ls) (simp_all add: ascii_string_def bytes_of_def)

lemma ascii_markers: "ascii_string BEGIN_MARKER" "ascii_string END_MARKER"
  by (simp_all add: ascii_string_def BEGIN_MARKER_def END_MARKER_def bytes_of_def)

lemma ascii_string_newline: "ascii_string (newline # s) \<longleftrightarrow> ascii_string s" "ascii_string []"
  by (simp_all add: ascii_string_def newline_def bytes_of_def)

lemma pem_to_der_of_pem:
  assumes "b64_decode E (b64_encode E d) = Some d" and "list_all b64_char (b64_encode E d)"
  shows "pem_to_der E (der_to_pem E d) = Inr d"
proof -
  let ?cs = "chunks 64 (b64_encode E d)"
  have b: "\<forall>l \<in> set ?cs. list_all b64_char l"
    using assms(2) chunks_subset [of 64 _ "b64_encode E d"] by (force simp: list_all_iff)
  then have u: "\<forall>l \<in> set ?cs. valid_utf8 l \<and> newline \<notin> set l \<and> strip_cr l = l \<and> ascii_string l
      \<and> trim l = l \<and> l \<noteq> BEGIN_MARKER"
    using b64_line valid_utf8_ascii by blast
  have "map (\<lambda>chunk. (if valid_utf8 chunk then chunk else '''') @ [newline]) ?cs = map (\<lambda>l. l @ [newline]) ?cs"
    using u by (intro map_cong) auto
  then have pem: "der_to_pem E d = BEGIN_MARKER @ newline # concat (map (\<lambda>l. l @ [newline]) ?cs) @ END_MARKER @ newline # []"
    by (simp only: der_to_pem_def append_assoc append_Cons append_Nil)
  have "map strip_cr ?cs = ?cs"
    using u by (intro map_idI) auto
  then have lines: "str_lines (der_to_pem E d) = BEGIN_MARKER # ?cs @ [END_MARKER]"
    unfolding pem using u by (simp add: str_lines_cons str_lines_concat)
  have "ascii_string (der_to_pem E d)"
    unfolding pem using u ascii_markers
    by (simp add: ascii_string_concat ascii_string_newline)
  then have "valid_utf8 (der_to_pem E d)"
    by (rule valid_utf8_ascii)
  moreover have "filter (\<lambda>l. trim l = BEGIN_MARKER) ?cs = []"
    using u by (auto simp: filter_empty_conv)
  ultimately show ?thesis
    using assms(1) collect_b64_lines [OF b] concat_chunks [of 64 "b64_encode E d"]
    by (simp add: pem_to_der_def lines Let_def ok_or_def)
qed

text \<open>A stored certificate reads back: decoding the PEM text written for a DER blob gives the
  blob, for every blob, whenever the base64 codec inverts itself and writes only its own
  alphabet. Line wrapping at 64 characters, the markers and trimming lose nothing.\<close>

theorem pem_roundtrip:
  assumes "b64_decode E (b64_encode E d) = Some d" and "list_all b64_char (b64_encode E d)"
  shows "pem_to_der E (der_to_pem E d) = Inr d"
  using assms by (rule pem_to_der_of_pem)

theorem pem_roundtrip_witness:
  "pem_to_der demo_externals (der_to_pem demo_externals ''MIIC'') = Inr ''MIIC''"
  by (rule pem_roundtrip) (simp_all add: demo_externals_def b64_char_def ascii_alnum_def)

section \<open>Private keys stay owner-only\<close>

lemma init_files: "init cm d = (r, d') \<Longrightarrow> files d' = files d"
  unfolding init_def sbind_def
  by (auto split: prod.splits sum.splits if_splits dest!: fs_dir_frame)

lemma init_dir_mode: "init cm d = (Inr (), d') \<Longrightarrow> dirs d' (cert_dir cm) = Some mode_0700"
  by (auto simp: init_def sbind_def fs_set_dir_mode_def split: prod.splits sum.splits if_splits outcome.splits)

lemma write_private_other: "write_private e1 e2 e3 p k d = (r, d') \<Longrightarrow> q \<noteq> p \<Longrightarrow> files d' q = files d q"
  unfolding write_private_def sbind_def fs_open_truncate_def fs_write_all_def
  by (auto split: prod.splits sum.splits if_splits elim!: fs_set_mode_cases dest!: fs_write_other fs_write_mode_other)

lemma write_key_file_other: "write_key_file p k d = (r, d') \<Longrightarrow> q \<noteq> p \<Longrightarrow> files d' q = files d q"
  unfolding write_key_file_def by (rule write_private_other)

lemma tighten_first:
  assumes "(if path_exists p d then fs_set_mode mode_0600 e p d else (Inr (), d)) = (r, d')"
  shows "files d' p = files d p \<or> (\<exists>f. files d' p = Some f \<and> fmode f = mode_0600)"
    and "r = Inr () \<Longrightarrow> mode_for p mode_0600 d' = mode_0600"
  using assms
  by (auto simp: mode_for_def path_exists_def split: if_splits option.splits elim!: fs_set_mode_cases)

lemma write_mode_keeps:
  assumes "mode_for p mode_0600 d = mode_0600" and "fs_write_mode m e p c d = (r, d')" and "m = mode_0600 \<or> path_exists p d"
  shows "files d' p = files d p \<or> (\<exists>f. files d' p = Some f \<and> fmode f = mode_0600)"
    and "r = Inr () \<Longrightarrow> files d' p = Some \<lparr>contents = c, fmode = mode_0600\<rparr>"
  using assms
  by (auto simp: mode_for_def path_exists_def split: option.splits elim!: fs_write_mode_cases)

lemma write_private_mode:
  assumes "write_private e1 e2 e3 p k d = (r, d')"
  shows "files d' p = files d p \<or> (\<exists>f. files d' p = Some f \<and> fmode f = mode_0600)"
    and "r = Inr () \<Longrightarrow> files d' p = Some \<lparr>contents = k, fmode = mode_0600\<rparr>"
proof -
  let ?ok = "\<lambda>d'. files d' p = files d p \<or> (\<exists>f. files d' p = Some f \<and> fmode f = mode_0600)"
  obtain r1 d1 where 1: "(if path_exists p d then fs_set_mode mode_0600 e1 p d
      else (Inr (), d)) = (r1, d1)" by fastforce
  obtain r2 d2 where 2: "fs_write_mode mode_0600 e2 p [] d1 = (r2, d2)" by fastforce
  obtain r3 d3 where 3: "fs_write_mode (create_mode d2) e3 p k d2 = (r3, d3)" by fastforce
  obtain r4 d4 where 4: "fs_set_mode mode_0600 e1 p d3 = (r4, d4)" by fastforce
  have ok1: "?ok d1" and m1: "r1 = Inr () \<Longrightarrow> mode_for p mode_0600 d1 = mode_0600"
    using tighten_first [OF 1] by auto
  have ok2: "?ok d2" and f2: "r2 = Inr () \<Longrightarrow> files d2 p = Some \<lparr>contents = [], fmode = mode_0600\<rparr>" if "r1 = Inr ()"
    using write_mode_keeps [OF m1 [OF that] 2] ok1 by auto
  have ok3: "?ok d3" and f3: "r3 = Inr () \<Longrightarrow> files d3 p = Some \<lparr>contents = k, fmode = mode_0600\<rparr>"
    if "r1 = Inr ()" "r2 = Inr ()"
    using write_mode_keeps [OF _ 3] f2 [OF that] by (auto simp: mode_for_def path_exists_def)
  have 5: "?ok d4" and f4: "r4 = Inr () \<Longrightarrow> files d4 p = Some \<lparr>contents = k, fmode = mode_0600\<rparr>"
    if "r1 = Inr ()" "r2 = Inr ()" "r3 = Inr ()"
    using 4 f3 [OF that] by (auto elim!: fs_set_mode_cases)
  have "write_private e1 e2 e3 p k d = (case r1 of Inl e \<Rightarrow> (Inl e, d1) | Inr _ \<Rightarrow>
      (case r2 of Inl e \<Rightarrow> (Inl e, d2) | Inr _ \<Rightarrow> (case r3 of Inl e \<Rightarrow> (Inl e, d3) | Inr _ \<Rightarrow> (r4, d4))))"
    using 1 2 3 4
    by (cases r1; cases r2; cases r3)
       (simp_all add: write_private_def sbind_def fs_open_truncate_def fs_write_all_def fs_write_def)
  note run = trans [OF assms [symmetric] this]
  show "?ok d'"
    using run ok1 ok2 ok3 5 by (auto split: sum.splits)
  show "r = Inr () \<Longrightarrow> files d' p = Some \<lparr>contents = k, fmode = mode_0600\<rparr>"
    using run f4 by (auto split: sum.splits)
qed

lemma write_key_file_mode:
  assumes "write_key_file p k d = (r, d')"
  shows "files d' p = files d p \<or> (\<exists>f. files d' p = Some f \<and> fmode f = mode_0600)"
    and "r = Inr () \<Longrightarrow> files d' p = Some \<lparr>contents = k, fmode = mode_0600\<rparr>"
  using write_private_mode [OF assms [unfolded write_key_file_def]] by auto

lemma store_own_certificate_all:
  assumes "store_own_certificate cm c k d = (r, d')"
  shows "(files d' (own_key_path cm) = files d (own_key_path cm)
        \<or> (\<exists>f. files d' (own_key_path cm) = Some f \<and> fmode f = mode_0600))
    \<and> (\<forall>q. q \<noteq> own_key_path cm \<longrightarrow> q \<noteq> own_cert_path cm \<longrightarrow> files d' q = files d q)
    \<and> (r = Inr () \<longrightarrow> files d' (own_key_path cm) = Some \<lparr>contents = k, fmode = mode_0600\<rparr>
         \<and> (\<exists>f. files d' (own_cert_path cm) = Some f \<and> contents f = c))"
proof -
  have ne: "own_cert_path cm \<noteq> own_key_path cm"
    by (simp add: own_cert_path_def own_key_path_def)
  obtain r1 d1 where 1: "init cm d = (r1, d1)" by fastforce
  obtain r2 d2 where 2: "fs_write (io_error ''Failed to write own certificate'' (Some ''own.crt'')) (own_cert_path cm) c d1 = (r2, d2)"
    by fastforce
  have f1: "files d1 = files d" using init_files [OF 1] .
  show ?thesis
  proof (cases r1)
    case (Inl e)
    with assms 1 f1 show ?thesis by (auto simp: store_own_certificate_def)
  next
    case r1: (Inr u)
    show ?thesis
    proof (cases r2)
      case (Inl e)
      with r1 assms 1 2 f1 fs_write_other [OF 2] ne show ?thesis
        by (auto simp: store_own_certificate_def)
    next
      case (Inr v)
      with r1 assms 1 2 have w: "write_key_file (own_key_path cm) k d2 = (r, d')"
        by (simp add: store_own_certificate_def)
      have c2: "\<exists>f. files d2 (own_cert_path cm) = Some f \<and> contents f = c"
        using 2 Inr by (auto elim!: fs_write_cases)
      have "files d' q = files d2 q" if "q \<noteq> own_key_path cm" for q
        using write_key_file_other [OF w that] .
      moreover have "files d2 q = files d q" if "q \<noteq> own_cert_path cm" for q
        using fs_write_other [OF 2 that] f1 by simp
      ultimately show ?thesis
        using write_key_file_mode [OF w] c2 ne by metis
    qed
  qed
qed

lemma store_own_certificate_effect:
  assumes "store_own_certificate cm c k d = (Inr u, d')"
  shows "files d' (own_key_path cm) = Some \<lparr>contents = k, fmode = mode_0600\<rparr>"
    and "q \<noteq> own_key_path cm \<Longrightarrow> q \<noteq> own_cert_path cm \<Longrightarrow> files d' q = files d q"
    and "\<exists>f. files d' (own_cert_path cm) = Some f \<and> contents f = c"
proof -
  note all = store_own_certificate_all [OF assms]
  show "files d' (own_key_path cm) = Some \<lparr>contents = k, fmode = mode_0600\<rparr>"
    and "\<exists>f. files d' (own_cert_path cm) = Some f \<and> contents f = c"
    using all by simp_all
  show "q \<noteq> own_key_path cm \<Longrightarrow> q \<noteq> own_cert_path cm \<Longrightarrow> files d' q = files d q"
    using all by blast
qed

text \<open>Private key material is never readable by others. However the calls end, and with
  whatever mode an older key file was left, after \<open>store_own_certificate\<close> the key file is
  either as it was or has mode 0600; no other file but the certificate changed; and on
  success both files hold what was given, in a directory of mode 0700.\<close>

theorem store_own_certificate_key_mode:
  assumes "store_own_certificate cm c k d = (r, d')"
  shows "(files d' (own_key_path cm) = files d (own_key_path cm)
        \<or> (\<exists>f. files d' (own_key_path cm) = Some f \<and> fmode f = mode_0600))
    \<and> (\<forall>q. q \<noteq> own_key_path cm \<longrightarrow> q \<noteq> own_cert_path cm \<longrightarrow> files d' q = files d q)
    \<and> (r = Inr () \<longrightarrow> files d' (own_key_path cm) = Some \<lparr>contents = k, fmode = mode_0600\<rparr>
         \<and> (\<exists>f. files d' (own_cert_path cm) = Some f \<and> contents f = c))"
  using store_own_certificate_all [OF assms] .

definition demo_disk :: "outcome list \<Rightarrow> disk" where
  "demo_disk os = \<lparr>files = Map.empty, dirs = Map.empty, create_mode = 420, create_dir_mode = 493, script = os\<rparr>"

definition demo_certs :: certificate_manager where
  "demo_certs = \<lparr>cert_dir = ''certs''\<rparr>"

theorem store_own_certificate_key_mode_witness:
  "\<exists>f. files (snd (store_own_certificate demo_certs ''C'' ''KEY'' (demo_disk [Done, Done, Done, Done, Torn 2])))
        (own_key_path demo_certs) = Some f \<and> contents f = ''KE'' \<and> fmode f = mode_0600"
proof -
  let ?d = "demo_disk [Done, Done, Done, Done, Torn 2]"
  have run: "files (snd (store_own_certificate demo_certs ''C'' ''KEY'' ?d)) (own_key_path demo_certs)
      = Some \<lparr>contents = ''KE'', fmode = mode_0600\<rparr>"
    by code_simp
  show ?thesis
    using store_own_certificate_key_mode [where d = ?d and cm = demo_certs, OF prod.collapse [symmetric]] run
    by auto
qed

section \<open>Hexadecimal text\<close>

lemma of_char_less [simp]: "(of_char c :: nat) < 256"
  using range_nat_of_char by auto

lemma of_char_div_16 [simp]: "(of_char c :: nat) div 16 < 16"
  using of_char_less [of c] by (simp add: less_mult_imp_div_less)

lemma hex_digit_code: "n < 16 \<Longrightarrow> (of_char (hex_digit n) :: nat) = (if n < 10 then 48 + n else 87 + n)"
  by (simp add: hex_digit_def of_char_of)

lemma hex_digit_inj:
  assumes "a < 16" "b < 16"
  shows "hex_digit a = hex_digit b \<longleftrightarrow> a = b"
proof
  assume "hex_digit a = hex_digit b"
  then have "(if a < 10 then 48 + a else 87 + a) = (if b < 10 then 48 + b else 87 + b)"
    using hex_digit_code [OF assms(1)] hex_digit_code [OF assms(2)] by simp
  then show "a = b" by (simp split: if_splits)
qed simp

lemma hex_digit_plain: "n < 16 \<Longrightarrow> b64_char (hex_digit n)"
  unfolding b64_char_def ascii_alnum_def by (simp add: hex_digit_code)

lemma hex_encode_simps [simp]:
  "hex_encode [] = []"
  "hex_encode (c # cs) = hex_digit (of_char c div 16) # hex_digit (of_char c mod 16) # hex_encode cs"
  by (simp_all add: hex_encode_def)

lemma hex_encode_inj: "hex_encode xs = hex_encode ys \<longleftrightarrow> xs = ys"
proof (induction xs arbitrary: ys)
  case Nil
  then show ?case by (cases ys) auto
next
  case (Cons x xs)
  have "x = y" if "(of_char x :: nat) div 16 = of_char y div 16" "(of_char x :: nat) mod 16 = of_char y mod 16" for y :: char
  proof -
    from that have "(of_char x :: nat) = of_char y"
      by (metis div_mult_mod_eq)
    then show ?thesis by simp
  qed
  with Cons show ?case by (cases ys) (auto simp: hex_digit_inj)
qed

lemma hex_encode_plain: "c \<in> set (hex_encode s) \<Longrightarrow> b64_char c"
  by (induction s) (auto simp: hex_digit_plain)

lemma trim_hex [simp]: "trim (hex_encode s) = hex_encode s"
  using b64_line(3) [of "hex_encode s"] hex_encode_plain by (auto simp: list_all_iff)

section \<open>The contract of a pin store\<close>

text \<open>
  What a client may rely on: a successful store pins the fingerprint of what was stored,
  an existing pin survives every store, and a certificate that passes verification against
  a pin has that fingerprint. Then, whatever certificates are offered afterwards and in
  whatever order, only those with the first fingerprint are ever accepted.
\<close>

locale pin_store =
  fixes pin :: "'s \<Rightarrow> 'fp option"
    and fp :: "'c \<Rightarrow> 'fp"
    and verify :: "'c \<Rightarrow> 's \<Rightarrow> bool \<times> 's"
    and store :: "'c \<Rightarrow> 's \<Rightarrow> bool \<times> 's"
  assumes verify_pinned: "pin s = Some f \<Longrightarrow> fst (verify c s) \<Longrightarrow> fp c = f"
    and verify_pin: "pin (snd (verify c s)) = pin s"
    and store_pins: "fst (store c s) \<Longrightarrow> pin (snd (store c s)) = Some (fp c)"
    and store_keeps: "pin s = Some f \<Longrightarrow> pin (snd (store c s)) = Some f"
begin

definition offer :: "'c + 'c \<Rightarrow> 's \<Rightarrow> 's" where
  "offer a s = (case a of Inl c \<Rightarrow> snd (verify c s) | Inr c \<Rightarrow> snd (store c s))"

lemma offers_keep: "pin s = Some f \<Longrightarrow> pin (fold offer cs s) = Some f"
  by (induction cs arbitrary: s) (auto simp: offer_def verify_pin store_keeps split: sum.splits)

lemma only_pinned:
  assumes "fst (store c s)" and "fst (verify c' (fold offer cs (snd (store c s))))"
  shows "fp c' = fp c"
  using verify_pinned [OF offers_keep [OF store_pins [OF assms(1)]] assms(2)] .

lemma only_pinned_stored:
  assumes "fst (store c s)" and "fst (store c' (fold offer cs (snd (store c s))))"
  shows "fp c' = fp c"
  using store_pins [OF assms(2)] store_keeps [OF offers_keep [OF store_pins [OF assms(1)]]] by simp

end

section \<open>The fingerprint store keeps that contract\<close>

definition pinned_fp :: "externals \<Rightarrow> certificate_manager \<Rightarrow> string \<Rightarrow> disk \<Rightarrow> string option" where
  "pinned_fp E cm did d =
     (if valid_id E did then map_option (\<lambda>f. trim (contents f)) (files d (cert_dir cm, did @ ''_fingerprint.txt''))
      else None)"

lemma valid_path_simps:
  assumes "valid_id E did"
  shows "cert_path E cm did = Inr (cert_dir cm, did @ ''.crt'')"
    and "key_path E cm did = Inr (cert_dir cm, did @ ''.key'')"
    and "peer_cert_path E cm did = Inr (cert_dir cm, did @ ''_peer.crt'')"
    and "fingerprint_path E cm did = Inr (cert_dir cm, did @ ''_fingerprint.txt'')"
  using assms
  by (cases "validate_device_id E did";
      simp add: cert_path_def key_path_def peer_cert_path_def fingerprint_path_def map_err_def)+

lemma path_valid:
  "cert_path E cm did = Inr p \<Longrightarrow> valid_id E did"
  "peer_cert_path E cm did = Inr p \<Longrightarrow> valid_id E did"
  "fingerprint_path E cm did = Inr p \<Longrightarrow> valid_id E did"
  by (cases "validate_device_id E did"; simp add: cert_path_def peer_cert_path_def fingerprint_path_def map_err_def)+

lemma has_peer_fingerprint_iff: "has_peer_fingerprint E cm did d \<longleftrightarrow> pinned_fp E cm did d \<noteq> None"
proof (cases "valid_id E did")
  case True
  then show ?thesis
    by (simp add: has_peer_fingerprint_def pinned_fp_def valid_path_simps path_exists_def)
next
  case False
  then show ?thesis
    using path_valid(3) [of E cm did]
    by (auto simp: has_peer_fingerprint_def pinned_fp_def split: sum.splits)
qed

lemma load_fingerprint_files: "load_peer_fingerprint E cm did d = (r, d') \<Longrightarrow> files d' = files d"
  by (auto simp: load_peer_fingerprint_def fs_read_to_string_def sbind_def slift_def sreturn_def sfail_def
        split: sum.splits prod.splits if_splits dest!: fs_read_frame)

lemma load_fingerprint_Inr:
  assumes "load_peer_fingerprint E cm did d = (Inr s, d')"
  shows "pinned_fp E cm did d = Some s"
proof -
  from assms obtain p c d1 where p: "fingerprint_path E cm did = Inr p" and
    rd: "fs_read (io_error ''Failed to read peer fingerprint'' (Some (snd p))) p d = (Inr c, d1)" and s: "s = trim c"
    by (auto simp: load_peer_fingerprint_def fs_read_to_string_def result_simps split: if_splits)
  from path_valid(3) [OF p] p rd s show ?thesis
    by (auto simp: pinned_fp_def valid_path_simps dest!: fs_read_Inr)
qed

lemma verify_fingerprint_files: "verify_peer_fingerprint E cm did c d = (r, d') \<Longrightarrow> files d' = files d"
  by (auto simp: verify_peer_fingerprint_def sbind_def sfail_def sreturn_def
        split: sum.splits prod.splits if_splits dest: load_fingerprint_files)

lemma verify_fingerprint_Inr:
  "verify_peer_fingerprint E cm did c d = (Inr u, d') \<Longrightarrow> pinned_fp E cm did d = Some (compute_fingerprint E c)"
  by (auto simp: verify_peer_fingerprint_def result_simps split: if_splits dest: load_fingerprint_Inr)

lemma verify_peer_certificate_files: "verify_peer_certificate E cm did c d = (r, d') \<Longrightarrow> files d' = files d"
  by (auto simp: verify_peer_certificate_def split: if_splits dest: verify_fingerprint_files)

lemma pinned_fp_cong: "files d' = files d \<Longrightarrow> pinned_fp E cm did d' = pinned_fp E cm did d"
  by (simp add: pinned_fp_def)

lemma fs_write_Inr: "fs_write e p c d = (Inr u, d') \<Longrightarrow> \<exists>f. files d' p = Some f \<and> contents f = c"
  by (erule fs_write_cases) simp_all

lemma store_fingerprint_other:
  assumes "store_peer_fingerprint E cm did fp d = (r, d')" and "q \<noteq> (cert_dir cm, did @ ''_fingerprint.txt'')"
  shows "files d' q = files d q"
proof -
  obtain r1 d1 where i: "init cm d = (r1, d1)" by fastforce
  have f1: "files d1 = files d" using init_files [OF i] .
  show ?thesis
  proof (cases "is_ok r1 \<and> valid_id E did")
    case True
    then obtain u where "r1 = Inr u" by (auto simp: is_ok_iff)
    with i have "store_peer_fingerprint E cm did fp d =
        fs_write (io_error ''Failed to write peer fingerprint'' (Some (did @ ''_fingerprint.txt'')))
          (cert_dir cm, did @ ''_fingerprint.txt'') fp d1"
      using True by (simp add: store_peer_fingerprint_def slift_def sbind_def valid_path_simps)
    from fs_write_other [OF trans [OF this [symmetric] assms(1)] assms(2)] show ?thesis
      using f1 by simp
  next
    case False
    have "d' = d1"
      using assms(1) i False path_valid(3) [of E cm did]
      by (cases r1; cases "fingerprint_path E cm did")
         (auto simp: store_peer_fingerprint_def slift_def sbind_def)
    then show ?thesis using f1 by simp
  qed
qed

lemma store_fingerprint_Inr:
  assumes "store_peer_fingerprint E cm did fp d = (Inr (), d')"
  shows "pinned_fp E cm did d' = Some (trim fp)"
proof -
  from assms obtain p e d2 where p: "fingerprint_path E cm did = Inr p" and "fs_write e p fp d2 = (Inr (), d')"
    by (auto simp: store_peer_fingerprint_def result_simps)
  then obtain f where "files d' p = Some f" "contents f = fp"
    using fs_write_Inr by blast
  with p path_valid(3) [OF p] show ?thesis
    by (simp add: pinned_fp_def valid_path_simps)
qed

lemma store_peer_certificate_cases:
  assumes "store_peer_certificate E cm did c d = (r, d')"
  obtains (stopped) e where "r = Inl e" "files d' = files d"
  | (wrote) e d1 r2 d2 where "valid_id E did" "files d1 = files d"
      "pinned_fp E cm did d \<in> {None, Some (compute_fingerprint E c)}"
      "fs_write e (cert_dir cm, did @ ''_peer.crt'') (der_to_pem E c) d1 = (r2, d2)"
      "(r, d') = (case r2 of Inl e \<Rightarrow> (Inl e, d2)
         | Inr _ \<Rightarrow> if pinned_fp E cm did d = None
                    then store_peer_fingerprint E cm did (compute_fingerprint E c) d2 else (Inr (), d2))"
proof -
  obtain r0 d0 where i: "init cm d = (r0, d0)" by fastforce
  have f0: "files d0 = files d" using init_files [OF i] .
  have h: "has_peer_fingerprint E cm did d0 \<longleftrightarrow> pinned_fp E cm did d \<noteq> None"
    using has_peer_fingerprint_iff pinned_fp_cong [OF f0] by metis
  let ?chk = "if has_peer_fingerprint E cm did d0 then verify_peer_fingerprint E cm did c else sreturn ()"
  obtain r1 d1 where v: "?chk d0 = (r1, d1)" by fastforce
  have f1: "files d1 = files d"
    using v f0 verify_fingerprint_files [of E cm did c d0 r1 d1] by (auto simp: sreturn_def split: if_splits)
  show thesis
  proof (cases "is_ok r0 \<and> is_ok r1 \<and> valid_id E did")
    case False
    have "d' = d0 \<or> d' = d1" and "\<not> is_ok r"
      using assms i v False path_valid(2) [of E cm did]
      by (cases r0; cases r1; cases "peer_cert_path E cm did"; auto simp: store_peer_certificate_def sbind_def slift_def Let_def)+
    with f0 f1 show thesis
      by (cases r) (auto intro: stopped)
  next
    case True
    let ?e = "io_error ''Failed to write peer certificate'' (Some (did @ ''_peer.crt''))"
    obtain r2 d2 where w: "fs_write ?e (cert_dir cm, did @ ''_peer.crt'') (der_to_pem E c) d1 = (r2, d2)" by fastforce
    have "(r, d') = (case r2 of Inl e \<Rightarrow> (Inl e, d2)
         | Inr _ \<Rightarrow> if pinned_fp E cm did d = None
                    then store_peer_fingerprint E cm did (compute_fingerprint E c) d2 else (Inr (), d2))"
      using True assms i v w h
      by (cases r0; cases r1; cases r2)
         (auto simp: store_peer_certificate_def sbind_def slift_def Let_def valid_path_simps sreturn_def)
    moreover have "pinned_fp E cm did d \<in> {None, Some (compute_fingerprint E c)}"
      using v True h pinned_fp_cong [OF f0, of E cm did] by (auto simp: is_ok_iff split: if_splits dest!: verify_fingerprint_Inr)
    ultimately show thesis
      using wrote f1 w True by blast
  qed
qed

lemma peer_crt_not_fingerprint:
  "(dir, a @ ''_peer.crt'') \<noteq> (dir', b @ ''_fingerprint.txt'')"
  "(dir, a @ ''.crt'') \<noteq> (dir', b @ ''_fingerprint.txt'')"
  "(dir, a @ ''.key'') \<noteq> (dir', b @ ''_fingerprint.txt'')"
proof -
  have "last (a @ ''_peer.crt'') \<noteq> last (b @ ''_fingerprint.txt'') \<or>
     last (butlast (a @ ''_peer.crt'')) \<noteq> last (butlast (b @ ''_fingerprint.txt''))"
    by (simp add: butlast_append)
  then show "(dir, a @ ''_peer.crt'') \<noteq> (dir', b @ ''_fingerprint.txt'')" by auto
  have "last (butlast (a @ ''.crt'')) \<noteq> last (butlast (b @ ''_fingerprint.txt''))"
    by (simp add: butlast_append)
  then show "(dir, a @ ''.crt'') \<noteq> (dir', b @ ''_fingerprint.txt'')" by auto
  have "last (a @ ''.key'') \<noteq> last (b @ ''_fingerprint.txt'')"
    by simp
  then show "(dir, a @ ''.key'') \<noteq> (dir', b @ ''_fingerprint.txt'')" by auto
qed

lemma store_peer_certificate_keeps:
  assumes "store_peer_certificate E cm did c d = (r, d')" and "pinned_fp E cm did d = Some f"
  shows "pinned_fp E cm did d' = Some f"
  using assms(1)
proof (cases rule: store_peer_certificate_cases)
  case (stopped e)
  with assms(2) show ?thesis using pinned_fp_cong by metis
next
  case (wrote e d1 r2 d2)
  have "files d2 (cert_dir cm, did @ ''_fingerprint.txt'') = files d (cert_dir cm, did @ ''_fingerprint.txt'')"
    using fs_write_other [OF wrote(4)] peer_crt_not_fingerprint(1) wrote(2) by metis
  then have "pinned_fp E cm did d2 = Some f"
    using assms(2) by (simp add: pinned_fp_def split: if_splits)
  with wrote(5) assms(2) show ?thesis by (auto split: sum.splits)
qed

lemma store_peer_certificate_pins:
  assumes "store_peer_certificate E cm did c d = (Inr u, d')"
  shows "pinned_fp E cm did d' = Some (compute_fingerprint E c)"
proof (cases "pinned_fp E cm did d")
  case None
  from assms show ?thesis
  proof (cases rule: store_peer_certificate_cases)
    case (wrote e d1 r2 d2)
    with None have "store_peer_fingerprint E cm did (compute_fingerprint E c) d2 = (Inr (), d')"
      by (auto split: sum.splits)
    then show ?thesis
      by (drule_tac store_fingerprint_Inr) (simp add: compute_fingerprint_def)
  qed simp
next
  case (Some f)
  with assms have "f = compute_fingerprint E c"
    by (auto elim!: store_peer_certificate_cases)
  with store_peer_certificate_keeps [OF assms Some] show ?thesis by simp
qed

definition accepts :: "(disk, 'a) op \<Rightarrow> disk \<Rightarrow> bool \<times> disk" where
  "accepts m d = (is_ok (fst (m d)), snd (m d))"

lemma accepts_simps [simp]: "fst (accepts m d) = is_ok (fst (m d))" "snd (accepts m d) = snd (m d)"
  by (simp_all add: accepts_def)

interpretation tofu: pin_store "pinned_fp E cm did" "compute_fingerprint E"
    "\<lambda>c. accepts (verify_peer_certificate E cm did c)" "\<lambda>c. accepts (store_peer_certificate E cm did c)"
  for E cm did
proof
  fix s f c
  assume p: "pinned_fp E cm did s = Some f" and "fst (accepts (verify_peer_certificate E cm did c) s)"
  then obtain u s' where "verify_peer_certificate E cm did c s = (Inr u, s')"
    by (auto simp: is_ok_iff) (metis prod.collapse)
  with p show "compute_fingerprint E c = f"
    by (auto simp: verify_peer_certificate_def has_peer_fingerprint_iff dest!: verify_fingerprint_Inr)
next
  fix c s
  show "pinned_fp E cm did (snd (accepts (verify_peer_certificate E cm did c) s)) = pinned_fp E cm did s"
    using pinned_fp_cong verify_peer_certificate_files prod.collapse by (metis accepts_simps(2))
next
  fix c s
  assume "fst (accepts (store_peer_certificate E cm did c) s)"
  then show "pinned_fp E cm did (snd (accepts (store_peer_certificate E cm did c) s)) = Some (compute_fingerprint E c)"
    using store_peer_certificate_pins prod.collapse by (metis accepts_simps is_ok_iff)
next
  fix s f c
  assume "pinned_fp E cm did s = Some f"
  then show "pinned_fp E cm did (snd (accepts (store_peer_certificate E cm did c) s)) = Some f"
    using store_peer_certificate_keeps prod.collapse by (metis accepts_simps(2))
qed

text \<open>
  Later contacts: the peer presents a certificate at a handshake (left) or a pairing tries
  to store one (right).
\<close>

definition offer_cert :: "externals \<Rightarrow> certificate_manager \<Rightarrow> string \<Rightarrow> string + string \<Rightarrow> disk \<Rightarrow> disk" where
  "offer_cert E cm did a d =
     (case a of Inl c \<Rightarrow> snd (verify_peer_certificate E cm did c d)
              | Inr c \<Rightarrow> snd (store_peer_certificate E cm did c d))"

lemma offer_cert_offer: "offer_cert E cm did = tofu.offer E cm did"
  by (rule ext)+ (simp add: offer_cert_def tofu.offer_def accepts_def split: sum.splits)

text \<open>Property C2.
  Trust on first use binds: once a certificate has been stored for a device, then after any
  sequence of further handshakes and store attempts, with any pattern of disk failures, a
  certificate passes the handshake check only if its SHA-256 digest is that of the stored
  one.\<close>

theorem tofu_binds:
  assumes "store_peer_certificate E cm did c d = (Inr (), d1)"
    and "verify_peer_certificate E cm did c' (fold (offer_cert E cm did) offers d1) = (Inr (), d2)"
  shows "sha256 E c' = sha256 E c"
proof -
  have "compute_fingerprint E c' = compute_fingerprint E c"
    using tofu.only_pinned [of E cm did c d c' offers] assms by (simp add: offer_cert_offer)
  then show ?thesis
    by (simp add: compute_fingerprint_def hex_encode_inj)
qed

text \<open>On a healthy disk the first store succeeds and the stored certificate then passes.\<close>

lemma healthy_init: "script d = [] \<Longrightarrow> \<exists>d'. init cm d = (Inr (), d') \<and> script d' = [] \<and> files d' = files d"
  by (simp add: init_def sbind_def fs_create_dir_all_def fs_set_dir_mode_def next_outcome_def dir_exists_def)

lemma healthy_put [simp]: "script (put_file p m c d) = script d" "files (put_file p m c d) p = Some \<lparr>contents = c, fmode = mode_for p m d\<rparr>"
  by (simp_all add: put_file_def)

lemma store_healthy:
  assumes "script d = []" and "valid_id E did" and "pinned_fp E cm did d = None"
  shows "\<exists>d' m. store_peer_certificate E cm did c d = (Inr (), d') \<and> script d' = []
    \<and> files d' (cert_dir cm, did @ ''_fingerprint.txt'') = Some \<lparr>contents = compute_fingerprint E c, fmode = m\<rparr>"
proof -
  obtain d1 where 1: "init cm d = (Inr (), d1)" "script d1 = []" "files d1 = files d"
    using healthy_init assms(1) by blast
  let ?d2 = "put_file (cert_dir cm, did @ ''_peer.crt'') (create_mode d1) (der_to_pem E c) d1"
  obtain d3 where 3: "init cm ?d2 = (Inr (), d3)" "script d3 = []"
    using healthy_init [of ?d2] 1 by auto
  have "\<not> has_peer_fingerprint E cm did d1"
    using has_peer_fingerprint_iff pinned_fp_cong [OF 1(3)] assms(3) by metis
  with 1 3 assms(2) have "store_peer_certificate E cm did c d =
      (Inr (), put_file (cert_dir cm, did @ ''_fingerprint.txt'') (create_mode d3) (compute_fingerprint E c) d3)"
    by (simp add: store_peer_certificate_def sbind_def slift_def sreturn_def Let_def valid_path_simps store_peer_fingerprint_def)
  with 3 show ?thesis by simp
qed

lemma hex_valid_utf8 [simp]: "valid_utf8 (hex_encode s)"
  using b64_line(6) [of "hex_encode s"] hex_encode_plain by (auto simp: list_all_iff intro: valid_utf8_ascii)

lemma verify_healthy:
  assumes "script d = []" and "valid_id E did"
    and "files d (cert_dir cm, did @ ''_fingerprint.txt'') = Some \<lparr>contents = compute_fingerprint E c, fmode = m\<rparr>"
  shows "verify_peer_certificate E cm did c' d =
    (if compute_fingerprint E c' = compute_fingerprint E c then Inr ()
     else Inl (CertificateError ''Certificate fingerprint mismatch for device''), d)"
proof -
  have "load_peer_fingerprint E cm did d = (Inr (compute_fingerprint E c), d)"
    using assms
    by (simp add: load_peer_fingerprint_def fs_read_to_string_def sbind_def slift_def sreturn_def valid_path_simps
          path_exists_def compute_fingerprint_def)
  then show ?thesis
    using assms
    by (simp add: verify_peer_certificate_def has_peer_fingerprint_def valid_path_simps path_exists_def
          verify_peer_fingerprint_def sbind_def sfail_def sreturn_def)
qed

lemma demo_pinned_disk:
  obtains d1 m where
    "store_peer_certificate demo_externals demo_certs demo_id ''CERT'' (demo_disk []) = (Inr (), d1)" "script d1 = []"
    "files d1 (cert_dir demo_certs, demo_id @ ''_fingerprint.txt'')
       = Some \<lparr>contents = compute_fingerprint demo_externals ''CERT'', fmode = m\<rparr>"
proof -
  have "script (demo_disk []) = []" "pinned_fp demo_externals demo_certs demo_id (demo_disk []) = None"
    by (simp_all add: demo_disk_def pinned_fp_def)
  from store_healthy [OF this(1) valid_demo_id this(2)] show thesis
    using that by blast
qed

lemma demo_fp_ne: "compute_fingerprint demo_externals ''EVIL'' \<noteq> compute_fingerprint demo_externals ''CERT''"
  unfolding compute_fingerprint_def hex_encode_inj by (simp add: demo_externals_def)

theorem tofu_binds_witness:
  "\<exists>d1 d2. store_peer_certificate demo_externals demo_certs demo_id ''CERT'' (demo_disk []) = (Inr (), d1)
     \<and> verify_peer_certificate demo_externals demo_certs demo_id ''CERT''
         (fold (offer_cert demo_externals demo_certs demo_id) [Inl ''EVIL''] d1) = (Inr (), d2)
     \<and> sha256 demo_externals ''CERT'' = sha256 demo_externals ''CERT''"
proof -
  obtain d1 m where d1: "store_peer_certificate demo_externals demo_certs demo_id ''CERT'' (demo_disk []) = (Inr (), d1)"
    "script d1 = []" "files d1 (cert_dir demo_certs, demo_id @ ''_fingerprint.txt'')
       = Some \<lparr>contents = compute_fingerprint demo_externals ''CERT'', fmode = m\<rparr>"
    by (rule demo_pinned_disk)
  note v = verify_healthy [OF d1(2) valid_demo_id d1(3)]
  have "fold (offer_cert demo_externals demo_certs demo_id) [Inl ''EVIL''] d1 = d1"
    by (simp add: offer_cert_def v)
  with v [of "''CERT''"] have ok: "verify_peer_certificate demo_externals demo_certs demo_id ''CERT''
         (fold (offer_cert demo_externals demo_certs demo_id) [Inl ''EVIL''] d1) = (Inr (), d1)"
    by simp
  show ?thesis
    using tofu_binds [OF d1(1) ok] d1(1) ok by blast
qed

text \<open>Verify before write: a certificate whose fingerprint differs from the pinned one is
  refused by \<open>store_peer_certificate\<close> with no file of the disk changed.\<close>

theorem store_refuses_other_fingerprint:
  assumes "pinned_fp E cm did d = Some f" and "f \<noteq> compute_fingerprint E c"
  shows "\<exists>e d'. store_peer_certificate E cm did c d = (Inl e, d') \<and> files d' = files d"
proof -
  obtain r d' where s: "store_peer_certificate E cm did c d = (r, d')" by fastforce
  then have "is_err r \<and> files d' = files d"
    by (rule store_peer_certificate_cases) (use assms in auto)
  with s show ?thesis by (cases r) auto
qed

theorem store_refuses_other_fingerprint_witness:
  "\<exists>d1 e d'. store_peer_certificate demo_externals demo_certs demo_id ''CERT'' (demo_disk []) = (Inr (), d1)
     \<and> store_peer_certificate demo_externals demo_certs demo_id ''EVIL'' d1 = (Inl e, d')
     \<and> files d' = files d1"
proof -
  obtain d1 m where d1: "store_peer_certificate demo_externals demo_certs demo_id ''CERT'' (demo_disk []) = (Inr (), d1)"
    by (rule demo_pinned_disk)
  with store_refuses_other_fingerprint [OF store_peer_certificate_pins [OF d1] demo_fp_ne [symmetric]]
  show ?thesis by blast
qed

section \<open>The short authentication string\<close>

lemma bytes_gt_Nil: "bytes_gt ys [] \<longleftrightarrow> ys \<noteq> []"
  by (cases ys) simp_all

lemma bytes_gt_total: "bytes_gt a b \<or> bytes_gt b a \<or> a = b"
  by (induction a b rule: bytes_gt.induct) (auto simp: bytes_gt_Nil not_less le_less)

lemma bytes_gt_asym: "bytes_gt a b \<Longrightarrow> \<not> bytes_gt b a"
  by (induction a b rule: bytes_gt.induct) (auto split: if_splits)

lemma hex_digit_upper_set: "n < 16 \<Longrightarrow> hex_digit_upper n \<in> set ''0123456789ABCDEF''"
proof -
  assume "n < 16"
  then have "n \<in> set [0..<16]" by simp
  moreover have "\<forall>n \<in> set [0..<16]. hex_digit_upper n \<in> set ''0123456789ABCDEF''"
    by code_simp
  ultimately show ?thesis by blast
qed

lemma hex_encode_upper_simps [simp]:
  "hex_encode_upper [] = []"
  "hex_encode_upper (c # cs) = hex_digit_upper (of_char c div 16) # hex_digit_upper (of_char c mod 16) # hex_encode_upper cs"
  by (simp_all add: hex_encode_upper_def)

lemma length_hex_encode_upper [simp]: "length (hex_encode_upper s) = 2 * length s"
  by (induction s) simp_all

lemma set_hex_encode_upper: "set (hex_encode_upper s) \<subseteq> set ''0123456789ABCDEF''"
proof (induction s)
  case (Cons c s)
  then show ?case
    using hex_digit_upper_set [of "of_char c div 16"] hex_digit_upper_set [of "of_char c mod 16"]
    by (simp only: hex_encode_upper_simps list.set insert_subset) simp
qed simp

text \<open>Both ends show the same key: the verification key does not depend on which of the two
  public keys is ours, and it is eight upper-case hexadecimal digits whenever the digest has
  at least four bytes.\<close>

theorem verification_key_symmetric:
  assumes "\<And>s. 4 \<le> length (sha256 E s)"
  shows "compute_verification_key E a b ts = compute_verification_key E b a ts
    \<and> length (compute_verification_key E a b ts) = 8
    \<and> set (compute_verification_key E a b ts) \<subseteq> set ''0123456789ABCDEF''"
proof -
  have "compute_verification_key E a b ts = compute_verification_key E b a ts"
    using bytes_gt_total [of a b] bytes_gt_asym [of a b] bytes_gt_asym [of b a]
    by (auto simp: compute_verification_key_def)
  moreover have "min (length (sha256 E s)) 4 = 4" for s
    using assms [of s] by simp
  ultimately show ?thesis
    using set_hex_encode_upper by (simp add: compute_verification_key_def Let_def split_def del: set_simps)
qed

theorem verification_key_symmetric_witness:
  "compute_verification_key (demo_externals\<lparr>sha256 := (\<lambda>s. take 32 (s @ replicate 32 CHR ''x''))\<rparr>) ''KEYA'' ''KEYB'' 1700000000
     = compute_verification_key (demo_externals\<lparr>sha256 := (\<lambda>s. take 32 (s @ replicate 32 CHR ''x''))\<rparr>) ''KEYB'' ''KEYA'' 1700000000"
  using verification_key_symmetric [of "demo_externals\<lparr>sha256 := (\<lambda>s. take 32 (s @ replicate 32 CHR ''x''))\<rparr>"]
  by simp

section \<open>Serial numbers\<close>

lemma serial_head: "unat (((b :: u8) AND 0x7F) OR 0x01) \<in> {1..127}"
proof -
  have "\<forall>b \<in> set (map (word_of_nat :: nat \<Rightarrow> u8) [0..<256]). 1 \<le> unat ((b AND 0x7F) OR 0x01) \<and> unat ((b AND 0x7F) OR 0x01) < 128"
    by code_simp
  moreover have "b = word_of_nat (unat b)" "unat b \<in> set [0..<256]"
    using unat_u8_less [of b] by simp_all
  ultimately have "1 \<le> unat ((b AND 0x7F) OR 0x01) \<and> unat ((b AND 0x7F) OR 0x01) < 128"
    by (metis image_eqI image_set)
  then show ?thesis by simp
qed

text \<open>
  The first serial byte is never zero and never has its sign bit set, so the DER integer
  keeps its length; a certificate carries the id as its common name.
\<close>

lemma generate_certificate_params:
  assumes "generate_certificate E (Some key) (Some bs) now did = Inr (cert, key_pem)" and "bs \<noteq> []"
  shows "\<exists>ps. x509_sign E ps key = Some cert \<and> subject_cn ps = did \<and> length (serial_number ps) = length bs
    \<and> unat (hd (serial_number ps)) \<in> {1..127}"
  using assms serial_head [of "hd bs"]
  by (cases bs) (auto simp: generate_certificate_def result_simps ok_or_def fix_serial_def Let_def split: option.splits)

section \<open>Deleting\<close>

lemma remove_if_exists_other: "remove_if_exists e p d = (r, d') \<Longrightarrow> q \<noteq> p \<Longrightarrow> files d' q = files d q"
  by (auto simp: remove_if_exists_def split: if_splits dest: fs_remove_other)

lemma remove_if_exists_Inr: "remove_if_exists e p d = (Inr u, d') \<Longrightarrow> files d' p = None"
  by (auto simp: remove_if_exists_def path_exists_def split: if_splits dest: fs_remove_Inr)

lemma delete_certificate_other:
  assumes "delete_certificate E cm did d = (r, d')"
    and "q \<noteq> (cert_dir cm, did @ ''.crt'')" "q \<noteq> (cert_dir cm, did @ ''.key'')"
  shows "files d' q = files d q"
proof (cases "valid_id E did")
  case False
  then have "\<exists>e. cert_path E cm did = Inl e"
    using path_valid(1) [of E cm did] by (cases "cert_path E cm did") auto
  with assms(1) show ?thesis
    by (auto simp: delete_certificate_def sbind_def slift_def)
next
  case True
  obtain r1 d1 where 1: "remove_if_exists (io_error ''Failed to delete certificate'' (Some (did @ ''.crt'')))
      (cert_dir cm, did @ ''.crt'') d = (r1, d1)" by fastforce
  from remove_if_exists_other [OF 1] assms(2) have f1: "files d1 q = files d q" by blast
  obtain r2 d2 where 2: "remove_if_exists (io_error ''Failed to delete private key'' (Some (did @ ''.key'')))
      (cert_dir cm, did @ ''.key'') d1 = (r2, d2)" by fastforce
  from remove_if_exists_other [OF 2] assms(3) have f2: "files d2 q = files d1 q" by blast
  have "d' = d1 \<or> d' = d2"
    using assms(1) 1 2 True by (cases r1) (auto simp: delete_certificate_def sbind_def slift_def valid_path_simps)
  with f1 f2 show ?thesis by auto
qed

lemma delete_certificate_Inr:
  assumes "delete_certificate E cm did d = (Inr u, d')"
  shows "files d' (cert_dir cm, did @ ''.crt'') = None"
proof -
  from assms obtain cp kp e1 e2 d1 where cp: "cert_path E cm did = Inr cp" and kp: "key_path E cm did = Inr kp" and
    1: "remove_if_exists e1 cp d = (Inr (), d1)" and 2: "remove_if_exists e2 kp d1 = (Inr u, d')"
    by (auto simp: delete_certificate_def result_simps)
  have "cp = (cert_dir cm, did @ ''.crt'')" "kp = (cert_dir cm, did @ ''.key'')"
    using cp kp path_valid(1) [OF cp] by (simp_all add: valid_path_simps)
  then show ?thesis
    using remove_if_exists_Inr [OF 1] remove_if_exists_other [OF 2] by simp
qed

lemma delete_peer_certificate_other:
  assumes "delete_peer_certificate E cm did d = (r, d')"
    and "q \<noteq> (cert_dir cm, did @ ''_peer.crt'')" "q \<noteq> (cert_dir cm, did @ ''_fingerprint.txt'')"
  shows "files d' q = files d q"
proof (cases "valid_id E did")
  case False
  then have "\<exists>e. peer_cert_path E cm did = Inl e"
    using path_valid(2) [of E cm did] by (cases "peer_cert_path E cm did") auto
  with assms(1) show ?thesis
    by (auto simp: delete_peer_certificate_def sbind_def slift_def)
next
  case True
  obtain r1 d1 where 1: "remove_if_exists (io_error ''Failed to delete peer certificate'' (Some (did @ ''_peer.crt'')))
      (cert_dir cm, did @ ''_peer.crt'') d = (r1, d1)" by fastforce
  from remove_if_exists_other [OF 1] assms(2) have f1: "files d1 q = files d q" by blast
  obtain r2 d2 where 2: "remove_if_exists (io_error ''Failed to delete peer fingerprint'' (Some (did @ ''_fingerprint.txt'')))
      (cert_dir cm, did @ ''_fingerprint.txt'') d1 = (r2, d2)" by fastforce
  from remove_if_exists_other [OF 2] assms(3) have f2: "files d2 q = files d1 q" by blast
  have "d' = d1 \<or> d' = d2"
    using assms(1) 1 2 True by (cases r1) (auto simp: delete_peer_certificate_def sbind_def slift_def valid_path_simps)
  with f1 f2 show ?thesis by auto
qed

lemma delete_peer_certificate_Inr:
  assumes "delete_peer_certificate E cm did d = (Inr u, d')"
  shows "pinned_fp E cm did d' = None"
proof -
  from assms obtain fp e2 d1 where fp: "fingerprint_path E cm did = Inr fp" and
    2: "remove_if_exists e2 fp d1 = (Inr u, d')"
    by (auto simp: delete_peer_certificate_def result_simps)
  have "fp = (cert_dir cm, did @ ''_fingerprint.txt'')"
    using fp path_valid(3) [OF fp] by (simp add: valid_path_simps)
  then show ?thesis
    using remove_if_exists_Inr [OF 2] by (simp add: pinned_fp_def)
qed

text \<open>
  A pin of one device is out of reach of every certificate operation on another device: the
  fingerprint file is named by the id and a suffix no other file has.
\<close>

lemma other_pin_frame:
  assumes "\<And>q. q \<noteq> (cert_dir cm, did @ ''.crt'') \<Longrightarrow> q \<noteq> (cert_dir cm, did @ ''.key'')
      \<Longrightarrow> q \<noteq> (cert_dir cm, did @ ''_peer.crt'') \<Longrightarrow> q \<noteq> (cert_dir cm, did @ ''_fingerprint.txt'')
      \<Longrightarrow> files d' q = files d q"
    and "x \<noteq> did"
  shows "pinned_fp E cm x d' = pinned_fp E cm x d"
proof -
  have "files d' (cert_dir cm, x @ ''_fingerprint.txt'') = files d (cert_dir cm, x @ ''_fingerprint.txt'')"
  proof (rule assms(1))
    show "(cert_dir cm, x @ ''_fingerprint.txt'') \<noteq> (cert_dir cm, did @ ''_fingerprint.txt'')"
      using assms(2) by simp
  qed (rule peer_crt_not_fingerprint [symmetric])+
  then show ?thesis by (simp add: pinned_fp_def)
qed

lemma store_peer_certificate_other:
  assumes "store_peer_certificate E cm did c d = (r, d')"
    and "q \<noteq> (cert_dir cm, did @ ''_peer.crt'')" "q \<noteq> (cert_dir cm, did @ ''_fingerprint.txt'')"
  shows "files d' q = files d q"
  using assms(1)
proof (cases rule: store_peer_certificate_cases)
  case (wrote e d1 r2 d2)
  have "files d2 q = files d q"
    using fs_write_other [OF wrote(4) assms(2)] wrote(2) by simp
  with wrote(5) store_fingerprint_other [OF _ assms(3)] show ?thesis
    by (auto split: sum.splits if_splits) (metis (no_types))+
qed simp

lemma other_pin_ops:
  assumes "x \<noteq> did"
  shows "store_peer_certificate E' cm did c d = (r, d') \<Longrightarrow> pinned_fp E cm x d' = pinned_fp E cm x d"
    and "delete_certificate E' cm did d = (r, d') \<Longrightarrow> pinned_fp E cm x d' = pinned_fp E cm x d"
    and "delete_peer_certificate E' cm did d = (r, d') \<Longrightarrow> pinned_fp E cm x d' = pinned_fp E cm x d"
proof -
  show "store_peer_certificate E' cm did c d = (r, d') \<Longrightarrow> pinned_fp E cm x d' = pinned_fp E cm x d"
    by (rule other_pin_frame [OF _ assms]) (rule store_peer_certificate_other)
  show "delete_certificate E' cm did d = (r, d') \<Longrightarrow> pinned_fp E cm x d' = pinned_fp E cm x d"
    by (rule other_pin_frame [OF _ assms]) (rule delete_certificate_other)
  show "delete_peer_certificate E' cm did d = (r, d') \<Longrightarrow> pinned_fp E cm x d' = pinned_fp E cm x d"
    by (rule other_pin_frame [OF _ assms]) (rule delete_peer_certificate_other)
qed

text \<open>The own certificate's naming collision, moved to peers: a device whose id is another
  device's id followed by \<open>_peer\<close> owns, as its own certificate file, the file that stores
  the other device's peer certificate, and deleting the certificate of the first removes
  the stored peer certificate of the second.\<close>

theorem delete_certificate_collision:
  assumes "delete_certificate E cm (did @ ''_peer'') d = (Inr (), d')"
  shows "\<not> has_peer_certificate E cm did d'"
proof -
  have "files d' (cert_dir cm, did @ ''_peer.crt'') = None"
    using delete_certificate_Inr [OF assms] by simp
  then show ?thesis
    using path_valid(2) [of E cm did]
    by (auto simp: has_peer_certificate_def path_exists_def valid_path_simps split: sum.splits)
qed

definition short_id :: string where
  "short_id = ''aaaabbbbccccddddeeeeffff00001111''"

lemma plain_id_valid:
  assumes "32 \<le> length d" "length d \<le> 38" "list_all (\<lambda>c. ascii_alnum (of_char c) \<or> c = CHR ''_'') d"
  shows "valid_id E d"
proof -
  have c: "(of_char c :: nat) < 128 \<and> c \<noteq> CHR ''.'' \<and> c \<noteq> CHR ''/'' \<and> c \<noteq> CHR 0x5C \<and> c \<noteq> CHR 0x00"
    if "c \<in> set d" for c
    using that assms(3) by (auto simp: list_all_iff ascii_alnum_def)
  then have "ascii_string d"
    by (auto simp: ascii_string_def bytes_of_def list_all_iff)
  moreover have "\<not> str_contains d ''..''"
    by (rule no_dot_no_dots) (use c in blast)
  ultimately show ?thesis
    unfolding validate_device_id_ok
    using assms c by (auto simp: chars_of_ascii bytes_of_def list_all_iff is_alphanumeric_def)
qed

lemma valid_short_id: "valid_id E short_id" "valid_id E (short_id @ ''_peer'')"
  by (rule plain_id_valid; simp add: short_id_def ascii_alnum_def)+

theorem delete_certificate_collision_witness:
  "\<exists>d d'. has_peer_certificate demo_externals demo_certs short_id d
     \<and> delete_certificate demo_externals demo_certs (short_id @ ''_peer'') d = (Inr (), d')
     \<and> \<not> has_peer_certificate demo_externals demo_certs short_id d'"
proof -
  let ?p = "(''certs'', short_id @ ''_peer.crt'')"
  let ?d = "(demo_disk [])\<lparr>files := [?p \<mapsto> \<lparr>contents = ''PEM'', fmode = 420\<rparr>]\<rparr>"
  have h: "has_peer_certificate demo_externals demo_certs short_id ?d"
    using valid_short_id(1) [of demo_externals]
    by (simp add: has_peer_certificate_def valid_path_simps path_exists_def demo_certs_def)
  have "\<exists>d'. delete_certificate demo_externals demo_certs (short_id @ ''_peer'') ?d = (Inr (), d')"
    using valid_short_id(2) [of demo_externals]
    by (simp add: delete_certificate_def sbind_def slift_def valid_path_simps remove_if_exists_def path_exists_def
          fs_remove_def next_outcome_def demo_certs_def demo_disk_def short_id_def)
  then obtain d' where d': "delete_certificate demo_externals demo_certs (short_id @ ''_peer'') ?d = (Inr (), d')"
    by blast
  from h d' delete_certificate_collision [OF d'] show ?thesis by blast
qed

end
