(* ===== verification/Device_Types.thy ===== *)
theory Device_Types
  imports Identity Disk
begin

text \<open>
  Devices and device events (\<open>src/device/types.rs\<close>, \<open>src/device/events.rs\<close>), and the
  part of the daemon's state that every component shares: the disk and the event bus.
  The bus is the list of events sent so far; a send never fails the sender.
\<close>

section \<open>Device records\<close>

datatype sock_addr = SockAddr ip_addr u16

record device =
  dv_id :: device_key
  dv_name :: string
  dv_type :: dev_type
  dv_state :: device_state
  dv_state_since :: instant
  dv_address :: "sock_addr option"
  dv_protocol_version :: u32
  dv_incoming :: "string list"
  dv_outgoing :: "string list"
  dv_fingerprint :: "string option"
  dv_discovered_at :: instant
  dv_last_seen :: instant
  dv_paired_at :: "instant option"
  dv_verification_key :: "string option"
  dv_pair_state :: "string option"

definition can_transition_to :: "device_state \<Rightarrow> device_state \<Rightarrow> bool" where
  "can_transition_to a b \<longleftrightarrow> (a, b) \<in> set
     [(device_state.Discovered, device_state.Pairing), (device_state.Discovered, device_state.Connected),
      (device_state.Pairing, device_state.Paired), (device_state.Pairing, device_state.Connected),
      (device_state.Paired, device_state.Connected), (device_state.Connected, device_state.Disconnected),
      (device_state.Connected, device_state.Connected),
      (device_state.Pairing, device_state.Discovered), (device_state.Connected, device_state.Paired),
      (device_state.Disconnected, device_state.Discovered), (device_state.Disconnected, device_state.Paired),
      (device_state.Disconnected, device_state.Connected),
      (device_state.Paired, device_state.Pairing)]"

definition new_device :: "instant \<Rightarrow> device_key \<Rightarrow> string \<Rightarrow> dev_type \<Rightarrow> u32 \<Rightarrow> device" where
  "new_device now did name ty pv =
     \<lparr>dv_id = did, dv_name = name, dv_type = ty, dv_state = device_state.Discovered, dv_state_since = now,
      dv_address = None, dv_protocol_version = pv, dv_incoming = [], dv_outgoing = [], dv_fingerprint = None,
      dv_discovered_at = now, dv_last_seen = now, dv_paired_at = None, dv_verification_key = None,
      dv_pair_state = None\<rparr>"

definition apply_capability_update :: "string list \<Rightarrow> string list \<Rightarrow> device \<Rightarrow> device" where
  "apply_capability_update incoming outgoing d =
     (if incoming \<noteq> [] \<and> outgoing \<noteq> [] then d\<lparr>dv_incoming := incoming, dv_outgoing := outgoing\<rparr> else d)"

definition with_capabilities :: "string list \<Rightarrow> string list \<Rightarrow> device \<Rightarrow> device" where
  "with_capabilities incoming outgoing d = d\<lparr>dv_incoming := incoming, dv_outgoing := outgoing\<rparr>"

definition reconcile_paired_at :: "instant option \<Rightarrow> device \<Rightarrow> device" where
  "reconcile_paired_at authoritative d = d\<lparr>dv_paired_at := authoritative\<rparr>"

definition set_verification_key :: "string \<Rightarrow> device \<Rightarrow> device" where
  "set_verification_key key d = d\<lparr>dv_verification_key := Some key\<rparr>"

definition set_pair_state :: "string \<Rightarrow> device \<Rightarrow> device" where
  "set_pair_state st d = d\<lparr>dv_pair_state := Some st\<rparr>"

definition clear_verification_key :: "device \<Rightarrow> device" where
  "clear_verification_key d = d\<lparr>dv_verification_key := None\<rparr>"

definition device_is_paired :: "device \<Rightarrow> bool" where
  "device_is_paired d \<longleftrightarrow> dv_state d \<in> {device_state.Paired, device_state.Connected, device_state.Disconnected}"

definition device_is_connected :: "device \<Rightarrow> bool" where
  "device_is_connected d \<longleftrightarrow> dv_state d = device_state.Connected"

definition update_last_seen :: "instant \<Rightarrow> device \<Rightarrow> device" where
  "update_last_seen now d = d\<lparr>dv_last_seen := now\<rparr>"

definition has_incoming_capability :: "string \<Rightarrow> device \<Rightarrow> bool" where
  "has_incoming_capability c d \<longleftrightarrow> c \<in> set (dv_incoming d)"

definition has_outgoing_capability :: "string \<Rightarrow> device \<Rightarrow> bool" where
  "has_outgoing_capability c d \<longleftrightarrow> c \<in> set (dv_outgoing d)"

section \<open>Events and the shared state\<close>

datatype device_event =
    EvDiscovered device_key string dev_type
  | EvStateChanged device_key device_state device_state
  | EvPaired device_key string
  | EvUnpaired device_key
  | EvPairRequested device_key string
  | EvConnected device_key sock_addr
  | EvDisconnected device_key string
  | EvRemoved device_key

record shared =
  sh_disk :: disk
  sh_events :: "device_event list"

definition broadcast :: "device_event \<Rightarrow> 'z shared_scheme \<Rightarrow> 'z shared_scheme" where
  "broadcast ev s = s\<lparr>sh_events := sh_events s @ [ev]\<rparr>"

text \<open>A disk call made from a larger state.\<close>

definition on_disk :: "(disk, 'a) op \<Rightarrow> ('z shared_scheme, 'a) op" where
  "on_disk m s = (case m (sh_disk s) of (r, d) \<Rightarrow> (r, s\<lparr>sh_disk := d\<rparr>))"

text \<open>\<open>Path::with_extension\<close>: the file name up to its last dot (a leading dot does not count),
  then the new extension.\<close>

definition file_stem :: "string \<Rightarrow> string" where
  "file_stem n =
     (let r = dropWhile (\<lambda>c. c \<noteq> CHR ''.'') (rev n)
      in if r = [] \<or> tl r = [] then n else rev (tl r))"

definition with_extension :: "string \<Rightarrow> path \<Rightarrow> path" where
  "with_extension ext p = (fst p, file_stem (snd p) @ ''.'' @ ext)"

lemma on_disk_files: "on_disk m s = (r, s') \<Longrightarrow> \<exists>d'. m (sh_disk s) = (r, d') \<and> s' = s\<lparr>sh_disk := d'\<rparr>"
  by (auto simp: on_disk_def split: prod.splits)

section \<open>The state machine of a device\<close>

text \<open>
  Every state can be reached from discovery, and the only ways out of \<open>Connected\<close> lead to
  \<open>Disconnected\<close> and \<open>Paired\<close>: a connected device is never silently rediscovered.
\<close>

lemma connected_exits:
  "can_transition_to device_state.Connected b \<longleftrightarrow>
     b \<in> {device_state.Disconnected, device_state.Connected, device_state.Paired}"
  by (cases b) (simp_all add: can_transition_to_def)

lemma paired_only_from:
  "can_transition_to a device_state.Paired \<longleftrightarrow>
     a \<in> {device_state.Pairing, device_state.Connected, device_state.Disconnected}"
  by (cases a) (simp_all add: can_transition_to_def)

end
