(* ===== verification/Pairing.thy ===== *)
theory Pairing
  imports Crypto Device_Types
begin

text \<open>
  The pairing handler (\<open>src/protocol/pairing/mod.rs\<close>): outgoing and incoming requests with
  their time-outs, staged peer certificates, the persisted set of paired devices, and the
  pairing events. Its state extends the shared state (disk and event bus), so its
  operations apply unchanged to the whole daemon.

  Each operation takes a clock \<open>clk\<close>: \<open>clk n\<close> is its n-th reading, so two readings of one
  operation may differ. A sweep over a map takes one reading for the map.
\<close>

section \<open>Requests\<close>

type_synonym clock = "nat \<Rightarrow> instant"

record pairing_request =
  rq_device_id :: device_key
  rq_created_at :: instant
  rq_timeout :: duration
  rq_pair_timestamp :: i64

definition is_expired :: "instant \<Rightarrow> pairing_request \<Rightarrow> bool" where
  "is_expired now r \<longleftrightarrow> rq_created_at r + rq_timeout r < now"

definition time_remaining :: "instant \<Rightarrow> pairing_request \<Rightarrow> duration" where
  "time_remaining now r = rq_created_at r + rq_timeout r - now"

datatype pair_state = NotPaired | Requested | RequestedByPeer | Paired

primrec as_api_str :: "pair_state \<Rightarrow> string" where
  "as_api_str NotPaired = ''not_paired''"
| "as_api_str Requested = ''requested''"
| "as_api_str RequestedByPeer = ''requested_by_peer''"
| "as_api_str pair_state.Paired = ''paired''"

definition PAIR_REQUEST_TIMEOUT_SECS :: int where "PAIR_REQUEST_TIMEOUT_SECS = 30"
definition PAIR_ACCEPT_TIMEOUT_SECS :: int where "PAIR_ACCEPT_TIMEOUT_SECS = 25"

section \<open>The handler\<close>

record pairing_handler = shared +
  cert_manager :: certificate_manager
  outgoing :: "device_key \<rightharpoonup> pairing_request"
  incoming :: "device_key \<rightharpoonup> pairing_request"
  paired :: "device_key \<rightharpoonup> instant"
  pending_certs :: "device_key \<rightharpoonup> string"
  timeout :: duration
  accept_timeout :: duration
  max_pending :: nat
  persist_path :: "path option"
  own_device_id :: "device_key option"
  has_broadcaster :: bool

definition new_handler :: "certificate_manager \<Rightarrow> disk \<Rightarrow> pairing_handler" where
  "new_handler cm d =
     \<lparr>sh_disk = d, sh_events = [], cert_manager = cm, outgoing = Map.empty, incoming = Map.empty,
      paired = Map.empty, pending_certs = Map.empty,
      timeout = secs PAIR_REQUEST_TIMEOUT_SECS, accept_timeout = secs PAIR_ACCEPT_TIMEOUT_SECS,
      max_pending = 10, persist_path = None, own_device_id = None, has_broadcaster = False\<rparr>"

definition save_to_disk :: "externals \<Rightarrow> ('z pairing_handler_scheme, unit) op" where
  "save_to_disk E s =
     (case persist_path s of
        None \<Rightarrow> (Inr (), s)
      | Some p \<Rightarrow>
          on_disk (
            sbind (fs_create_dir_all (io_error ''Failed to create pairing directory'' (Some (fst p))) (fst p)) (\<lambda>_.
            sbind (fs_write (io_error ''Failed to write paired devices'' (Some (snd (with_extension ''tmp'' p))))
                     (with_extension ''tmp'' p) (paired_print E (paired s))) (\<lambda>_.
              fs_rename (io_error ''Failed to rename paired devices temp file'' (Some (snd p)))
                (with_extension ''tmp'' p) p))) s)"

definition load_from_disk :: "externals \<Rightarrow> ('z pairing_handler_scheme, unit) op" where
  "load_from_disk E s =
     (case persist_path s of
        None \<Rightarrow> (Inr (), s)
      | Some p \<Rightarrow>
          if \<not> path_exists p (sh_disk s) then (Inr (), s)
          else sbind (on_disk (fs_read_to_string (io_error ''Failed to read paired devices'' (Some (snd p))) p)) (\<lambda>json.
                 case paired_parse E json of
                   None \<Rightarrow> sfail (io_error ''Failed to parse paired devices'' (Some (snd p)))
                 | Some loaded \<Rightarrow> (\<lambda>s. (Inr (), s\<lparr>paired := paired s ++ loaded\<rparr>))) s)"

definition set_own_device_id :: "externals \<Rightarrow> device_key \<Rightarrow> 'z pairing_handler_scheme \<Rightarrow> 'z pairing_handler_scheme" where
  "set_own_device_id E did s =
     (let s1 = s\<lparr>own_device_id := Some did\<rparr>;
          had_self_entry = (paired s1 did \<noteq> None);
          s2 = s1\<lparr>paired := hm_remove did (paired s1)\<rparr>
      in if had_self_entry then snd (save_to_disk E s2) else s2)"

definition is_own_device_id :: "device_key \<Rightarrow> 'z pairing_handler_scheme \<Rightarrow> bool" where
  "is_own_device_id did s \<longleftrightarrow> own_device_id s = Some did"

definition set_pending_peer_cert :: "device_key \<Rightarrow> string \<Rightarrow> 'z pairing_handler_scheme \<Rightarrow> 'z pairing_handler_scheme" where
  "set_pending_peer_cert did cert_der s = s\<lparr>pending_certs := (pending_certs s)(did \<mapsto> cert_der)\<rparr>"

definition is_paired :: "device_key \<Rightarrow> 'z pairing_handler_scheme \<Rightarrow> bool" where
  "is_paired did s \<longleftrightarrow> hm_contains (paired s) did"

definition cleanup_expired :: "clock \<Rightarrow> ('z pairing_handler_scheme, nat) op" where
  "cleanup_expired clk s =
     (let out' = hm_retain (\<lambda>_ r. \<not> is_expired (clk 0) r) (outgoing s);
          in' = hm_retain (\<lambda>_ r. \<not> is_expired (clk 1) r) (incoming s);
          expired_ids = (dom (outgoing s) - dom out') \<union> (dom (incoming s) - dom in');
          removed = (hm_len (outgoing s) - hm_len out') + (hm_len (incoming s) - hm_len in');
          s1 = s\<lparr>outgoing := out', incoming := in'\<rparr>
      in (Inr removed,
          if 0 < removed then s1\<lparr>pending_certs := hm_retain (\<lambda>k _. k \<notin> expired_ids) (pending_certs s)\<rparr> else s1))"

definition initiate_pairing :: "device_key \<Rightarrow> clock \<Rightarrow> ('z pairing_handler_scheme, i64) op" where
  "initiate_pairing did clk s =
     (if is_own_device_id did s then
        (Inl (PairingRejected ''Refusing to initiate pairing with our own device id''), s)
      else sbind (cleanup_expired clk) (\<lambda>_ s.
        if hm_contains (paired s) did then (Inl (DeviceAlreadyExists ''Device is already paired''), s)
        else if max_pending s \<le> hm_len (outgoing s) + hm_len (incoming s) then
          (Inl (PairingRejected ''Too many pending pairing requests''), s)
        else (let ts = word_of_int (timestamp (clk 3));
                  request = \<lparr>rq_device_id = did, rq_created_at = clk 2, rq_timeout = timeout s, rq_pair_timestamp = ts\<rparr>
              in (Inr ts, s\<lparr>outgoing := (outgoing s)(did \<mapsto> request)\<rparr>))) s)"

definition remove_pending_request :: "device_key \<Rightarrow> instant \<Rightarrow> ('z pairing_handler_scheme, bool) op" where
  "remove_pending_request did now s =
     (case outgoing s did of
        Some request \<Rightarrow>
          (let s1 = s\<lparr>outgoing := hm_remove did (outgoing s)\<rparr>
           in if is_expired now request
              then (Inl (PairingTimeout did), s1\<lparr>pending_certs := hm_remove did (pending_certs s1)\<rparr>)
              else (Inr True, s1))
      | None \<Rightarrow>
          (case incoming s did of
             Some request \<Rightarrow>
               (let s1 = s\<lparr>incoming := hm_remove did (incoming s)\<rparr>
                in if is_expired now request
                   then (Inl (PairingTimeout did), s1\<lparr>pending_certs := hm_remove did (pending_certs s1)\<rparr>)
                   else (Inr True, s1))
           | None \<Rightarrow> (Inr False, s)))"

definition has_identity_anchor :: "externals \<Rightarrow> device_key \<Rightarrow> 'z pairing_handler_scheme \<Rightarrow> bool" where
  "has_identity_anchor E did s \<longleftrightarrow>
     hm_contains (pending_certs s) did \<or> has_peer_fingerprint E (cert_manager s) did (sh_disk s)"

text \<open>
  The common tail of the two accept paths: take the staged certificate, refuse without an
  anchor, store the certificate, and only then enter the device as paired, save and
  announce.
\<close>

definition emit :: "device_event \<Rightarrow> 'z pairing_handler_scheme \<Rightarrow> 'z pairing_handler_scheme" where
  "emit ev s = (if has_broadcaster s then broadcast ev s else s)"

definition complete_pairing :: "externals \<Rightarrow> device_key \<Rightarrow> instant \<Rightarrow> ('z pairing_handler_scheme, unit) op" where
  "complete_pairing E did now s =
     (let pending_cert = pending_certs s did;
          s1 = s\<lparr>pending_certs := hm_remove did (pending_certs s)\<rparr>
      in if pending_cert = None \<and> \<not> has_peer_fingerprint E (cert_manager s1) did (sh_disk s1) then
           (Inl (PairingRejected ''no peer certificate (pending or pinned) was presented''), s1)
         else sbind (case pending_cert of
                       Some cert_der \<Rightarrow> on_disk (store_peer_certificate E (cert_manager s1) did cert_der)
                     | None \<Rightarrow> sreturn ()) (\<lambda>_ s.
           (let s2 = s\<lparr>paired := (paired s)(did \<mapsto> now)\<rparr>;
                s3 = snd (save_to_disk E s2)
            in (Inr (), emit (EvPaired did '''') s3))) s1)"

definition accept_pairing :: "externals \<Rightarrow> device_key \<Rightarrow> clock \<Rightarrow> ('z pairing_handler_scheme, unit) op" where
  "accept_pairing E did clk =
     sbind (remove_pending_request did (clk 0)) (\<lambda>had_request.
       if \<not> had_request then sfail (NoPendingPairRequest did)
       else complete_pairing E did (clk 1))"

definition force_accept_pairing :: "externals \<Rightarrow> device_key \<Rightarrow> clock \<Rightarrow> ('z pairing_handler_scheme, unit) op" where
  "force_accept_pairing E did clk s =
     (if is_own_device_id did s then
        (Inl (PairingRejected ''Refusing to force-accept pairing with our own device id''), s)
      else complete_pairing E did (clk 1) (snd (remove_pending_request did (clk 0) s)))"

definition reject_pairing :: "device_key \<Rightarrow> ('z pairing_handler_scheme, unit) op" where
  "reject_pairing did s =
     (let s1 = s\<lparr>pending_certs := hm_remove did (pending_certs s)\<rparr>;
          removed = hm_contains (outgoing s1) did;
          s2 = s1\<lparr>outgoing := hm_remove did (outgoing s1)\<rparr>;
          removed_incoming = hm_contains (incoming s2) did;
          s3 = s2\<lparr>incoming := hm_remove did (incoming s2)\<rparr>
      in (if removed \<or> removed_incoming then Inr () else Inl (NoPendingPairRequest did), s3))"

definition handle_pair_response :: "externals \<Rightarrow> device_key \<Rightarrow> bool \<Rightarrow> clock \<Rightarrow> ('z pairing_handler_scheme, unit) op" where
  "handle_pair_response E did accepted clk =
     (if accepted then accept_pairing E did clk else reject_pairing did)"

definition unpair :: "externals \<Rightarrow> device_key \<Rightarrow> ('z pairing_handler_scheme, unit) op" where
  "unpair E did s =
     (let s1 = s\<lparr>pending_certs := hm_remove did (pending_certs s)\<rparr>;
          removed = hm_contains (paired s1) did;
          s2 = s1\<lparr>paired := hm_remove did (paired s1)\<rparr>
      in if removed then
           (let s3 = snd (on_disk (delete_certificate E (cert_manager s2) did) s2);
                s4 = snd (on_disk (delete_peer_certificate E (cert_manager s3) did) s3);
                s5 = snd (save_to_disk E s4)
            in (Inr (), emit (EvUnpaired did) s5))
         else (Inl (DeviceNotPaired did), s2))"

definition pair_state :: "device_key \<Rightarrow> clock \<Rightarrow> 'z pairing_handler_scheme \<Rightarrow> pair_state" where
  "pair_state did clk s =
     (if hm_contains (paired s) did then pair_state.Paired
      else if (case outgoing s did of Some req \<Rightarrow> \<not> is_expired (clk 0) req | None \<Rightarrow> False) then Requested
      else if (case incoming s did of Some req \<Rightarrow> \<not> is_expired (clk 1) req | None \<Rightarrow> False) then RequestedByPeer
      else NotPaired)"

definition live_timestamp :: "instant \<Rightarrow> pairing_request \<Rightarrow> i64 option" where
  "live_timestamp now req =
     (if is_expired now req \<or> rq_pair_timestamp req = 0 then None else Some (rq_pair_timestamp req))"

definition get_verification_key ::
    "externals \<Rightarrow> device_key \<Rightarrow> instant \<Rightarrow> ('z pairing_handler_scheme, string option) op" where
  "get_verification_key E did now s =
     (let ts = (case outgoing s did of
                  Some req \<Rightarrow> live_timestamp now req
                | None \<Rightarrow> (case incoming s did of Some req \<Rightarrow> live_timestamp now req | None \<Rightarrow> None))
      in case ts of
           None \<Rightarrow> (Inr None, s)
         | Some pair_timestamp \<Rightarrow>
             sbind (case pending_certs s did of
                      Some der \<Rightarrow> sreturn der
                    | None \<Rightarrow> sbind (on_disk (load_peer_certificate_pem E (cert_manager s) did)) (\<lambda>pem.
                               slift (pem_to_der E pem))) (\<lambda>peer_cert_der.
             sbind (on_disk (load_own_certificate (cert_manager s))) (\<lambda>(our_cert_pem, _).
             sbind (slift (pem_to_der E our_cert_pem)) (\<lambda>our_cert_der.
             sbind (slift (extract_pubkey_der E our_cert_der)) (\<lambda>our_pubkey.
             sbind (slift (extract_pubkey_der E peer_cert_der)) (\<lambda>peer_pubkey.
               sreturn (Some (compute_verification_key E our_pubkey peer_pubkey pair_timestamp))))))) s)"

definition receive_pair_request_with_cert ::
    "externals \<Rightarrow> device_key \<Rightarrow> i64 option \<Rightarrow> string option \<Rightarrow> clock \<Rightarrow> ('z pairing_handler_scheme, unit) op" where
  "receive_pair_request_with_cert E did ts cert_der clk s =
     (if is_own_device_id did s then
        (Inl (PairingRejected ''Refusing pair request claiming our own device id''), s)
      else (let s1 = (if is_paired did s then snd (unpair E did s) else s);
                stage = (\<lambda>s. case cert_der of Some c \<Rightarrow> set_pending_peer_cert did c s | None \<Rightarrow> s) in
        sbind (cleanup_expired clk) (\<lambda>_ s.
          if hm_contains (outgoing s) did then accept_pairing E did (\<lambda>n. clk (n + 2)) (stage s)
          else if hm_contains (incoming s) did then (Inr (), s)
          else if max_pending s \<le> hm_len (outgoing s) + hm_len (incoming s) then
            (Inl (PairingRejected ''Too many pending pairing requests''), s)
          else (let request = \<lparr>rq_device_id = did, rq_created_at = clk 2, rq_timeout = accept_timeout s,
                               rq_pair_timestamp = (case ts of Some t \<Rightarrow> t | None \<Rightarrow> 0)\<rparr>;
                    s2 = stage (s\<lparr>incoming := (incoming s)(did \<mapsto> request)\<rparr>);
                    s3 = snd (get_verification_key E did (clk 3) s2)
                in (Inr (), s3))) s1))"

definition receive_pair_request ::
    "externals \<Rightarrow> device_key \<Rightarrow> i64 option \<Rightarrow> clock \<Rightarrow> ('z pairing_handler_scheme, unit) op" where
  "receive_pair_request E did ts clk = receive_pair_request_with_cert E did ts None clk"

section \<open>Queries\<close>

definition has_pending_request :: "device_key \<Rightarrow> clock \<Rightarrow> 'z pairing_handler_scheme \<Rightarrow> bool" where
  "has_pending_request did clk s \<longleftrightarrow>
     (case outgoing s did of Some r \<Rightarrow> \<not> is_expired (clk 0) r | None \<Rightarrow> False)
   \<or> (case incoming s did of Some r \<Rightarrow> \<not> is_expired (clk 1) r | None \<Rightarrow> False)"

definition pending_outgoing_timestamp :: "device_key \<Rightarrow> instant \<Rightarrow> 'z pairing_handler_scheme \<Rightarrow> i64 option" where
  "pending_outgoing_timestamp did now s =
     (case outgoing s did of
        Some r \<Rightarrow> if is_expired now r then None else Some (rq_pair_timestamp r) | None \<Rightarrow> None)"

definition has_incoming_request :: "device_key \<Rightarrow> instant \<Rightarrow> 'z pairing_handler_scheme \<Rightarrow> bool" where
  "has_incoming_request did now s \<longleftrightarrow>
     (case incoming s did of Some r \<Rightarrow> \<not> is_expired now r | None \<Rightarrow> False)"

definition paired_since :: "device_key \<Rightarrow> 'z pairing_handler_scheme \<Rightarrow> instant option" where
  "paired_since did s = paired s did"

section \<open>What the operations leave alone\<close>

definition config :: "'z pairing_handler_scheme \<Rightarrow> _" where
  "config s = (cert_manager s, timeout s, accept_timeout s, max_pending s, persist_path s, own_device_id s, has_broadcaster s)"

definition pins :: "externals \<Rightarrow> 'z pairing_handler_scheme \<Rightarrow> device_key \<Rightarrow> string option" where
  "pins E s did = pinned_fp E (cert_manager s) did (sh_disk s)"

definition persist_apart :: "'z pairing_handler_scheme \<Rightarrow> bool" where
  "persist_apart s \<longleftrightarrow> (\<forall>p did. persist_path s = Some p \<longrightarrow> p \<noteq> (cert_dir (cert_manager s), did @ ''_fingerprint.txt''))"

lemma tmp_not_fingerprint: "with_extension ''tmp'' p \<noteq> (dir, did @ ''_fingerprint.txt'')"
proof -
  have "last (file_stem (snd p) @ ''.'' @ ''tmp'') \<noteq> last (did @ ''_fingerprint.txt'')"
    by simp
  then show ?thesis by (auto simp: with_extension_def)
qed

lemma save_disk:
  obtains d' where "snd (save_to_disk E s) = s\<lparr>sh_disk := d'\<rparr>"
    and "\<And>q. (\<And>p. persist_path s = Some p \<Longrightarrow> q \<noteq> p \<and> q \<noteq> with_extension ''tmp'' p) \<Longrightarrow> files d' q = files (sh_disk s) q"
proof (cases "persist_path s")
  case None
  then show thesis
    using that [of "sh_disk s"] by (simp add: save_to_disk_def)
next
  case (Some p)
  let ?m = "sbind (fs_create_dir_all (io_error ''Failed to create pairing directory'' (Some (fst p))) (fst p)) (\<lambda>_.
            sbind (fs_write (io_error ''Failed to write paired devices'' (Some (snd (with_extension ''tmp'' p))))
                     (with_extension ''tmp'' p) (paired_print E (paired s))) (\<lambda>_.
              fs_rename (io_error ''Failed to rename paired devices temp file'' (Some (snd p)))
                (with_extension ''tmp'' p) p))"
  have "files (snd (?m d)) q = files d q" if "q \<noteq> p" "q \<noteq> with_extension ''tmp'' p" for q d
    using that by (rule atomic_write_other)
  with Some show thesis
    using that [of "snd (?m (sh_disk s))"] by (auto simp: save_to_disk_def on_disk_def split: prod.splits)
qed

lemma save_frame [simp]:
  "outgoing (snd (save_to_disk E s)) = outgoing s" "incoming (snd (save_to_disk E s)) = incoming s"
  "paired (snd (save_to_disk E s)) = paired s" "pending_certs (snd (save_to_disk E s)) = pending_certs s"
  "config (snd (save_to_disk E s)) = config s" "sh_events (snd (save_to_disk E s)) = sh_events s"
  "cert_manager (snd (save_to_disk E s)) = cert_manager s" "has_broadcaster (snd (save_to_disk E s)) = has_broadcaster s"
  "pairing_handler.more (snd (save_to_disk E s)) = pairing_handler.more s"
  by (rule save_disk [of E s]; simp add: config_def)+

lemma save_pins [simp]: "persist_apart s \<Longrightarrow> pins E (snd (save_to_disk E' s)) x = pins E s x"
proof -
  assume a: "persist_apart s"
  obtain d' where d': "snd (save_to_disk E' s) = s\<lparr>sh_disk := d'\<rparr>"
    "\<And>q. (\<And>p. persist_path s = Some p \<Longrightarrow> q \<noteq> p \<and> q \<noteq> with_extension ''tmp'' p) \<Longrightarrow> files d' q = files (sh_disk s) q"
    using save_disk by metis
  have "files d' (cert_dir (cert_manager s), x @ ''_fingerprint.txt'') =
      files (sh_disk s) (cert_dir (cert_manager s), x @ ''_fingerprint.txt'')"
    using a tmp_not_fingerprint by (intro d'(2)) (metis persist_apart_def)
  then show ?thesis by (simp add: d'(1) pins_def pinned_fp_def)
qed

lemma emit_frame [simp]:
  "outgoing (emit ev s) = outgoing s" "incoming (emit ev s) = incoming s" "paired (emit ev s) = paired s"
  "pending_certs (emit ev s) = pending_certs s" "config (emit ev s) = config s" "pins E (emit ev s) x = pins E s x"
  "sh_disk (emit ev s) = sh_disk s" "cert_manager (emit ev s) = cert_manager s"
  by (simp_all add: emit_def broadcast_def config_def pins_def)

lemma persist_apart_cong: "config s = config s' \<Longrightarrow> persist_apart s = persist_apart s'"
  by (simp add: persist_apart_def config_def)

lemma config_updates [simp]:
  "config (s\<lparr>pending_certs := c\<rparr>) = config s" "config (s\<lparr>paired := p\<rparr>) = config s"
  "config (s\<lparr>outgoing := m\<rparr>) = config s" "config (s\<lparr>incoming := m\<rparr>) = config s" "config (s\<lparr>sh_disk := d\<rparr>) = config s"
  by (simp_all add: config_def)

lemma pins_updates [simp]:
  "pins E (s\<lparr>pending_certs := c\<rparr>) x = pins E s x" "pins E (s\<lparr>paired := p\<rparr>) x = pins E s x"
  "pins E (s\<lparr>outgoing := m\<rparr>) x = pins E s x" "pins E (s\<lparr>incoming := m\<rparr>) x = pins E s x"
  "pins E (s\<lparr>own_device_id := i\<rparr>) x = pins E s x"
  by (simp_all add: pins_def)

lemma apart_updates [simp]:
  "persist_apart (s\<lparr>pending_certs := c\<rparr>) = persist_apart s" "persist_apart (s\<lparr>paired := p\<rparr>) = persist_apart s"
  "persist_apart (s\<lparr>outgoing := m\<rparr>) = persist_apart s" "persist_apart (s\<lparr>incoming := m\<rparr>) = persist_apart s"
  "persist_apart (s\<lparr>sh_disk := d\<rparr>) = persist_apart s" "persist_apart (s\<lparr>own_device_id := i\<rparr>) = persist_apart s"
  by (simp_all add: persist_apart_def)

lemma remove_pending_frame:
  assumes "remove_pending_request did now s = (r, s')"
  shows "paired s' = paired s" "config s' = config s" "sh_disk s' = sh_disk s" "sh_events s' = sh_events s"
    "dom (outgoing s') \<subseteq> dom (outgoing s)" "dom (incoming s') \<subseteq> dom (incoming s)"
    "pins E s' x = pins E s x" "persist_apart s' = persist_apart s"
  using assms
  by (auto simp: remove_pending_request_def Let_def split: option.splits if_splits)

section \<open>Completing a pairing\<close>

lemma complete_pairing_cases:
  assumes "complete_pairing E did now s = (r, s')"
  obtains (refused) e where "r = Inl e" "pending_certs s did = None" "pins E s did = None"
      "s' = s\<lparr>pending_certs := hm_remove did (pending_certs s)\<rparr>"
  | (store_failed) e c d' where "r = Inl e" "pending_certs s did = Some c"
      "store_peer_certificate E (cert_manager s) did c (sh_disk s) = (Inl e, d')"
      "s' = s\<lparr>pending_certs := hm_remove did (pending_certs s), sh_disk := d'\<rparr>"
  | (completed) s1 where "r = Inr ()"
      "s' = emit (EvPaired did '''') (snd (save_to_disk E (s1\<lparr>paired := (paired s)(did \<mapsto> now)\<rparr>)))"
      "pending_certs s did = None \<and> pins E s did \<noteq> None \<and> s1 = s\<lparr>pending_certs := hm_remove did (pending_certs s)\<rparr>
       \<or> (\<exists>c d'. pending_certs s did = Some c
            \<and> store_peer_certificate E (cert_manager s) did c (sh_disk s) = (Inr (), d')
            \<and> s1 = s\<lparr>pending_certs := hm_remove did (pending_certs s), sh_disk := d'\<rparr>)"
proof (cases "pending_certs s did")
  case None
  show thesis
  proof (cases "pins E s did")
    case None': None
    then show thesis
      using assms None
      by (intro refused) (auto simp: complete_pairing_def has_peer_fingerprint_iff pins_def)
  next
    case (Some f)
    with assms None show thesis
      by (intro completed) (auto simp: complete_pairing_def has_peer_fingerprint_iff pins_def Let_def sbind_def sreturn_def)
  qed
next
  case (Some c)
  obtain r1 d1 where st: "store_peer_certificate E (cert_manager s) did c (sh_disk s) = (r1, d1)" by fastforce
  show thesis
  proof (cases r1)
    case (Inl e)
    with assms Some st show thesis
      by (intro store_failed) (auto simp: complete_pairing_def Let_def sbind_def on_disk_def)
  next
    case (Inr u)
    with assms Some st show thesis
      by (intro completed [of "s\<lparr>pending_certs := hm_remove did (pending_certs s), sh_disk := d1\<rparr>"])
         (auto simp: complete_pairing_def Let_def sbind_def on_disk_def)
  qed
qed

lemma store_disk_pins:
  assumes "store_peer_certificate E (cert_manager s) did c (sh_disk s) = (r, d')"
  shows "x \<noteq> did \<Longrightarrow> pins E' (s\<lparr>sh_disk := d'\<rparr>) x = pins E' s x"
    and "pins E s did = Some f \<Longrightarrow> pins E (s\<lparr>sh_disk := d'\<rparr>) did = Some f"
    and "r = Inr () \<Longrightarrow> pins E (s\<lparr>sh_disk := d'\<rparr>) did = Some (compute_fingerprint E c)"
  using other_pin_ops(1) [OF _ assms] store_peer_certificate_keeps [OF assms] store_peer_certificate_pins assms
  by (auto simp: pins_def)

lemma complete_frame:
  assumes "complete_pairing E did now s = (r, s')"
  shows "outgoing s' = outgoing s" "incoming s' = incoming s" "config s' = config s"
    "pending_certs s' = hm_remove did (pending_certs s)"
    "paired s' = (if r = Inr () then (paired s)(did \<mapsto> now) else paired s)"
  using assms by (auto elim!: complete_pairing_cases)

lemma complete_pins:
  assumes "complete_pairing E did now s = (r, s')" and "persist_apart s"
  shows "x \<noteq> did \<Longrightarrow> pins E s' x = pins E s x"
    and "pins E s did = Some f \<Longrightarrow> pins E s' did = Some f"
    and "r = Inr () \<Longrightarrow> pins E s' did \<noteq> None"
    and "r = Inr () \<Longrightarrow> pending_certs s did = Some c \<Longrightarrow> pins E s' did = Some (compute_fingerprint E c)"
proof -
  have up: "pins E (s\<lparr>pending_certs := m, sh_disk := d\<rparr>) y = pins E (s\<lparr>sh_disk := d\<rparr>) y" for m d y
    by (simp add: pins_def)
  show "x \<noteq> did \<Longrightarrow> pins E s' x = pins E s x"
    using assms by (auto elim!: complete_pairing_cases dest: store_disk_pins(1) simp: up)
  show "pins E s did = Some f \<Longrightarrow> pins E s' did = Some f"
    using assms by (auto elim!: complete_pairing_cases dest: store_disk_pins(2) simp: up)
  show "r = Inr () \<Longrightarrow> pins E s' did \<noteq> None"
    using assms by (auto elim!: complete_pairing_cases dest: store_disk_pins(3) simp: up)
  show "r = Inr () \<Longrightarrow> pending_certs s did = Some c \<Longrightarrow> pins E s' did = Some (compute_fingerprint E c)"
    using assms by (auto elim!: complete_pairing_cases dest: store_disk_pins(3) simp: up)
qed

section \<open>The invariant of the handler\<close>

text \<open>
  Pending requests never exceed the limit; every paired device has a pinned fingerprint; our
  own id is neither paired nor pending.
\<close>

definition pairing_inv :: "externals \<Rightarrow> 'z pairing_handler_scheme \<Rightarrow> bool" where
  "pairing_inv E s \<longleftrightarrow>
     finite (dom (outgoing s)) \<and> finite (dom (incoming s))
   \<and> hm_len (outgoing s) + hm_len (incoming s) \<le> max_pending s
   \<and> persist_apart s
   \<and> (\<forall>did \<in> dom (paired s). pins E s did \<noteq> None)
   \<and> (\<forall>did. own_device_id s = Some did \<longrightarrow> did \<notin> dom (paired s) \<union> dom (outgoing s) \<union> dom (incoming s))"

lemma hm_len_mono: "finite (dom m) \<Longrightarrow> dom m' \<subseteq> dom m \<Longrightarrow> hm_len m' \<le> hm_len m"
  by (simp add: hm_len_def card_mono)

lemma inv_shrink:
  assumes "pairing_inv E s" and c: "config s' = config s"
    and "dom (outgoing s') \<subseteq> dom (outgoing s)" and "dom (incoming s') \<subseteq> dom (incoming s)"
    and p: "\<And>x. x \<in> dom (paired s') \<Longrightarrow> pins E s' x \<noteq> None \<and> own_device_id s \<noteq> Some x"
  shows "pairing_inv E s'"
proof -
  have "max_pending s' = max_pending s" "own_device_id s' = own_device_id s"
    using c by (simp_all add: config_def)
  moreover have "hm_len (outgoing s') \<le> hm_len (outgoing s)" "hm_len (incoming s') \<le> hm_len (incoming s)"
    using assms by (auto intro: hm_len_mono simp: pairing_inv_def)
  moreover have "finite (dom (outgoing s'))" "finite (dom (incoming s'))"
    using assms by (auto intro: finite_subset simp: pairing_inv_def)
  ultimately show ?thesis
    using assms persist_apart_cong [OF c] by (fastforce simp: pairing_inv_def)
qed

lemma inv_insert:
  assumes "pairing_inv E s" and "hm_len (outgoing s) + hm_len (incoming s) < max_pending s" and "own_device_id s \<noteq> Some did"
  shows "pairing_inv E (s\<lparr>outgoing := (outgoing s)(did \<mapsto> r)\<rparr>)"
    and "pairing_inv E (s\<lparr>incoming := (incoming s)(did \<mapsto> r)\<rparr>)"
  using assms hm_len_update_le [of "outgoing s" did r] hm_len_update_le [of "incoming s" did r]
  by (auto simp: pairing_inv_def)

lemma inv_pending_certs [simp]: "pairing_inv E (s\<lparr>pending_certs := c\<rparr>) = pairing_inv E s"
  by (simp add: pairing_inv_def)

lemma cleanup_frame:
  assumes "cleanup_expired clk s = (r, s')"
  shows "paired s' = paired s" "config s' = config s" "sh_disk s' = sh_disk s" "pins E s' x = pins E s x"
    "outgoing s' = hm_retain (\<lambda>_ r. \<not> is_expired (clk 0) r) (outgoing s)"
    "incoming s' = hm_retain (\<lambda>_ r. \<not> is_expired (clk 1) r) (incoming s)" "is_ok r" "sh_events s' = sh_events s"
  using assms by (auto simp: cleanup_expired_def Let_def split: if_splits)

lemma cleanup_inv [inv_intros]:
  assumes "cleanup_expired clk s = (r, s')" and "pairing_inv E s"
  shows "pairing_inv E s'"
  using assms(2)
  by (rule inv_shrink) (use assms(2) in \<open>auto simp: cleanup_frame [OF assms(1)] hm_retain_Some_iff pairing_inv_def\<close>)

lemma config_own: "config s = config s' \<Longrightarrow> own_device_id s = own_device_id s'"
  by (simp add: config_def)

lemma initiate_inv [inv_intros]:
  assumes "initiate_pairing did clk s = (r, s')" and "pairing_inv E s"
  shows "pairing_inv E s'"
proof (cases "is_own_device_id did s")
  case True
  with assms show ?thesis by (auto simp: initiate_pairing_def)
next
  case False
  obtain r1 s1 where c: "cleanup_expired clk s = (r1, s1)" by fastforce
  have i1: "pairing_inv E s1" by (rule cleanup_inv [OF c assms(2)])
  have own: "own_device_id s1 \<noteq> Some did"
    using False config_own [OF cleanup_frame(2) [OF c]] by (simp add: is_own_device_id_def)
  from assms(1) False c cleanup_frame(7) [OF c] i1 show ?thesis
    by (auto simp: initiate_pairing_def sbind_def is_ok_iff Let_def split: if_splits
          intro: inv_insert(1) [OF i1 _ own])
qed

lemma remove_pending_inv [inv_intros]:
  assumes "remove_pending_request did now s = (r, s')" and "pairing_inv E s"
  shows "pairing_inv E s'"
  using assms(2)
  by (rule inv_shrink) (use assms(2) remove_pending_frame [OF assms(1)] in \<open>auto simp: pairing_inv_def\<close>)

lemma complete_inv [inv_intros]:
  assumes "complete_pairing E did now s = (r, s')" and "pairing_inv E s" and "own_device_id s \<noteq> Some did"
  shows "pairing_inv E s'"
proof (rule inv_shrink [OF assms(2)])
  have a: "persist_apart s" using assms(2) by (simp add: pairing_inv_def)
  show "pins E s' x \<noteq> None \<and> own_device_id s \<noteq> Some x" if "x \<in> dom (paired s')" for x
  proof (cases "x = did")
    case True
    show ?thesis
    proof (cases "r = Inr ()")
      case t: True
      with True show ?thesis using complete_pins(3) [OF assms(1) a] assms(3) by simp
    next
      case False
      with that True assms(2) have "pins E s did \<noteq> None"
        using complete_frame(5) [OF assms(1)] by (auto simp: pairing_inv_def)
      with True show ?thesis using complete_pins(2) [OF assms(1) a] assms(3) by auto
    qed
  next
    case False
    then have "x \<in> dom (paired s)"
      using that complete_frame(5) [OF assms(1)] by (auto split: if_splits)
    with False assms(2) show ?thesis
      using complete_pins(1) [OF assms(1) a] by (auto simp: pairing_inv_def)
  qed
qed (simp_all add: complete_frame [OF assms(1)])

lemma remove_pending_True:
  assumes "remove_pending_request did now s = (Inr True, s')"
  shows "did \<in> dom (outgoing s) \<union> dom (incoming s)"
  using assms by (auto simp: remove_pending_request_def Let_def split: option.splits if_splits)

lemma accept_inv [inv_intros]:
  assumes "accept_pairing E did clk s = (r, s')" and "pairing_inv E s"
  shows "pairing_inv E s'"
proof -
  obtain r1 s1 where 1: "remove_pending_request did (clk 0) s = (r1, s1)" by fastforce
  have i1: "pairing_inv E s1" by (rule remove_pending_inv [OF 1 assms(2)])
  have "pairing_inv E s2" if "r1 = Inr True" "complete_pairing E did (clk 1) s1 = (r2, s2)" for r2 s2
  proof -
    have "own_device_id s \<noteq> Some did"
      using remove_pending_True 1 that(1) assms(2) by (fastforce simp: pairing_inv_def)
    then have "own_device_id s1 \<noteq> Some did"
      using config_own [OF remove_pending_frame(2) [OF 1]] by simp
    then show ?thesis by (rule complete_inv [OF that(2) i1])
  qed
  with assms(1) 1 i1 show ?thesis
    by (auto simp: accept_pairing_def sbind_def sfail_def split: sum.splits if_splits)
qed

lemma force_accept_inv [inv_intros]:
  assumes "force_accept_pairing E did clk s = (r, s')" and "pairing_inv E s"
  shows "pairing_inv E s'"
proof (cases "is_own_device_id did s")
  case True
  with assms show ?thesis by (auto simp: force_accept_pairing_def)
next
  case False
  obtain r1 s1 where 1: "remove_pending_request did (clk 0) s = (r1, s1)" by fastforce
  have "own_device_id s1 \<noteq> Some did"
    using False config_own [OF remove_pending_frame(2) [OF 1]] by (simp add: is_own_device_id_def)
  with assms(1) False 1 remove_pending_inv [OF 1 assms(2)] show ?thesis
    by (auto simp: force_accept_pairing_def intro: complete_inv)
qed

lemma reject_frame:
  assumes "reject_pairing did s = (r, s')"
  shows "paired s' = paired s" "config s' = config s" "pins E s' x = pins E s x" "sh_disk s' = sh_disk s"
    "outgoing s' = hm_remove did (outgoing s)" "incoming s' = hm_remove did (incoming s)"
    "pending_certs s' = hm_remove did (pending_certs s)"
  using assms by (auto simp: reject_pairing_def Let_def)

lemma inv_paired_pinned: "pairing_inv E s \<Longrightarrow> x \<in> dom (paired s) \<Longrightarrow> pins E s x \<noteq> None \<and> own_device_id s \<noteq> Some x"
  unfolding pairing_inv_def by blast

lemma reject_inv [inv_intros]:
  assumes "reject_pairing did s = (r, s')" and "pairing_inv E s"
  shows "pairing_inv E s'"
  using assms(2)
  by (rule inv_shrink) (simp_all add: reject_frame [OF assms(1)] inv_paired_pinned [OF assms(2)] Diff_subset)

lemma unpair_effect:
  assumes "unpair E did s = (r, s')"
  shows "paired s' = hm_remove did (paired s)" "outgoing s' = outgoing s" "incoming s' = incoming s"
    "config s' = config s" "pending_certs s' = hm_remove did (pending_certs s)"
    "persist_apart s \<Longrightarrow> x \<noteq> did \<Longrightarrow> pins E' s' x = pins E' s x"
proof -
  let ?s2 = "s\<lparr>pending_certs := hm_remove did (pending_certs s), paired := hm_remove did (paired s)\<rparr>"
  obtain r3 d3 where 3: "delete_certificate E (cert_manager s) did (sh_disk s) = (r3, d3)" by fastforce
  obtain r4 d4 where 4: "delete_peer_certificate E (cert_manager s) did d3 = (r4, d4)" by fastforce
  let ?s4 = "?s2\<lparr>sh_disk := d4\<rparr>"
  have run: "s' = (if hm_contains (paired s) did then emit (EvUnpaired did) (snd (save_to_disk E ?s4)) else ?s2)"
    using assms 3 4 by (auto simp: unpair_def Let_def on_disk_def split: if_splits)
  then show "paired s' = hm_remove did (paired s)" "outgoing s' = outgoing s" "incoming s' = incoming s"
    "config s' = config s" "pending_certs s' = hm_remove did (pending_certs s)"
    by auto
  assume a: "persist_apart s" and x: "x \<noteq> did"
  have "pins E' ?s4 x = pins E' s x"
    using other_pin_ops(2) [OF x 3] other_pin_ops(3) [OF x 4] by (simp add: pins_def)
  with run a show "pins E' s' x = pins E' s x" by auto
qed

lemma unpair_inv [inv_intros]:
  assumes "unpair E' did s = (r, s')" and "pairing_inv E s"
  shows "pairing_inv E s'"
  using assms(2)
proof (rule inv_shrink)
  show "pins E s' x \<noteq> None \<and> own_device_id s \<noteq> Some x" if "x \<in> dom (paired s')" for x
    using that assms(2) unpair_effect(6) [OF assms(1)] unpair_effect(1) [OF assms(1)]
    by (auto simp: pairing_inv_def split: if_splits)
qed (simp_all add: unpair_effect [OF assms(1)])

lemma stage_inv [simp]:
  "pairing_inv E (case c of Some c \<Rightarrow> set_pending_peer_cert did c s | None \<Rightarrow> s) = pairing_inv E s"
  by (simp add: set_pending_peer_cert_def split: option.splits)

text \<open>An operation that only reads: the disk may lose a script entry, but no file changes.\<close>

definition disk_reader :: "('z shared_scheme, 'a) op \<Rightarrow> bool" where
  "disk_reader m \<longleftrightarrow> (\<forall>s. \<exists>d'. snd (m s) = s\<lparr>sh_disk := d'\<rparr> \<and> files d' = files (sh_disk s))"

lemma reader_return: "disk_reader (sreturn a)" "disk_reader (slift x)"
  unfolding disk_reader_def sreturn_def slift_def
  by (metis (no_types, lifting) shared.surjective shared.update_convs(1) snd_conv)+

lemma reader_bind: "disk_reader m \<Longrightarrow> (\<And>a. disk_reader (f a)) \<Longrightarrow> disk_reader (sbind m f)"
  unfolding disk_reader_def
proof (intro allI)
  fix s
  assume m: "\<forall>s. \<exists>d'. snd (m s) = s\<lparr>sh_disk := d'\<rparr> \<and> files d' = files (sh_disk s)"
    and f: "\<And>a. \<forall>s. \<exists>d'. snd (f a s) = s\<lparr>sh_disk := d'\<rparr> \<and> files d' = files (sh_disk s)"
  obtain r s1 where ms: "m s = (r, s1)" by fastforce
  with m obtain d1 where d1: "s1 = s\<lparr>sh_disk := d1\<rparr>" "files d1 = files (sh_disk s)"
    by (metis snd_conv)
  show "\<exists>d'. snd (sbind m f s) = s\<lparr>sh_disk := d'\<rparr> \<and> files d' = files (sh_disk s)"
  proof (cases r)
    case (Inl e)
    with ms d1 show ?thesis by auto
  next
    case (Inr a)
    obtain d2 where "snd (f a s1) = s1\<lparr>sh_disk := d2\<rparr>" "files d2 = files (sh_disk s1)"
      using f by blast
    with Inr ms d1 show ?thesis by auto
  qed
qed

lemma reader_on_disk: "(\<And>d. files (snd (m d)) = files d) \<Longrightarrow> disk_reader (on_disk m)"
  by (auto simp: disk_reader_def on_disk_def split: prod.splits) (metis snd_conv)

lemma reader_certificates:
  "disk_reader (on_disk (load_peer_certificate_pem E cm did))" "disk_reader (on_disk (load_own_certificate cm))"
proof -
  have rd: "files (snd (fs_read e p d)) = files d" for e p d
    using fs_read_frame [OF prod.collapse [symmetric], of e p d] by simp
  show "disk_reader (on_disk (load_peer_certificate_pem E cm did))"
    by (rule reader_on_disk) (auto simp: load_peer_certificate_pem_def sbind_def slift_def rd split: sum.splits)
  show "disk_reader (on_disk (load_own_certificate cm))"
    by (rule reader_on_disk)
       (auto simp: load_own_certificate_def sbind_def sreturn_def split: sum.splits prod.splits dest!: fs_read_frame)
qed

lemma reader_verification_key:
  "disk_reader (sbind (case c of
                      Some der \<Rightarrow> sreturn der
                    | None \<Rightarrow> sbind (on_disk (load_peer_certificate_pem E cm did)) (\<lambda>pem.
                               slift (pem_to_der E pem))) (\<lambda>peer_cert_der.
             sbind (on_disk (load_own_certificate cm)) (\<lambda>(our_cert_pem, _).
             sbind (slift (pem_to_der E our_cert_pem)) (\<lambda>our_cert_der.
             sbind (slift (extract_pubkey_der E our_cert_der)) (\<lambda>our_pubkey.
             sbind (slift (extract_pubkey_der E peer_cert_der)) (\<lambda>peer_pubkey.
               sreturn (Some (compute_verification_key E our_pubkey peer_pubkey ts))))))))"
  by (auto intro!: reader_bind reader_return reader_certificates split: option.splits prod.splits)

lemma verification_key_files:
  assumes "get_verification_key E did now s = (r, s')"
  shows "\<exists>d'. s' = s\<lparr>sh_disk := d'\<rparr> \<and> files d' = files (sh_disk s)"
proof -
  have keep: "\<exists>d'. s = s\<lparr>sh_disk := d'\<rparr> \<and> files d' = files (sh_disk s)"
    by (intro exI [of _ "sh_disk s"]) simp
  show ?thesis
    using assms keep
      reader_verification_key [where c = "pending_certs s did" and E = E and cm = "cert_manager s" and did = did, unfolded disk_reader_def, rule_format, of _ s]
    unfolding get_verification_key_def Let_def
    by (auto split: option.splits) (metis snd_conv)+
qed

lemma inv_disk_files: "files d' = files (sh_disk s) \<Longrightarrow> pairing_inv E (s\<lparr>sh_disk := d'\<rparr>) = pairing_inv E s"
  by (simp add: pairing_inv_def pins_def pinned_fp_def)

lemma verification_key_inv [inv_intros]:
  "get_verification_key E' did now s = (r, s') \<Longrightarrow> pairing_inv E s \<Longrightarrow> pairing_inv E s'"
  using verification_key_files inv_disk_files by metis

lemma receive_cases:
  assumes "receive_pair_request_with_cert E did ts cert clk s = (r, s')"
  obtains (own) "is_own_device_id did s" "s' = s" "is_err r"
  | (live) s1 n s2 where "\<not> is_own_device_id did s" "s1 = (if is_paired did s then snd (unpair E did s) else s)"
      "cleanup_expired clk s1 = (Inr n, s2)"
      "(r, s') = (let stage = (\<lambda>s. case cert of Some c \<Rightarrow> set_pending_peer_cert did c s | None \<Rightarrow> s) in
         if hm_contains (outgoing s2) did then accept_pairing E did (\<lambda>n. clk (n + 2)) (stage s2)
         else if hm_contains (incoming s2) did then (Inr (), s2)
         else if max_pending s2 \<le> hm_len (outgoing s2) + hm_len (incoming s2) then
            (Inl (PairingRejected ''Too many pending pairing requests''), s2)
         else (let request = \<lparr>rq_device_id = did, rq_created_at = clk 2, rq_timeout = accept_timeout s2,
                               rq_pair_timestamp = (case ts of Some t \<Rightarrow> t | None \<Rightarrow> 0)\<rparr>
               in (Inr (), snd (get_verification_key E did (clk 3) (stage (s2\<lparr>incoming := (incoming s2)(did \<mapsto> request)\<rparr>))))))"
proof (cases "is_own_device_id did s")
  case True
  with assms have "r = Inl (PairingRejected ''Refusing pair request claiming our own device id'')" "s' = s"
    by (simp_all add: receive_pair_request_with_cert_def)
  with True show thesis by (intro own) simp_all
next
  case False
  let ?s1 = "if is_paired did s then snd (unpair E did s) else s"
  obtain r2 s2 where 2: "cleanup_expired clk ?s1 = (r2, s2)" by fastforce
  then obtain n where n: "r2 = Inr n" using cleanup_frame(7) [OF 2] by (auto simp: is_ok_iff)
  show thesis
    by (rule live [OF False refl 2 [unfolded n]])
       (subst assms [symmetric], simp add: receive_pair_request_with_cert_def Let_def False sbind_def 2 n)
qed

lemma receive_inv [inv_intros]:
  assumes "receive_pair_request_with_cert E did ts cert clk s = (r, s')" and "pairing_inv E s"
  shows "pairing_inv E s'"
  using assms(1)
proof (cases rule: receive_cases)
  case own
  with assms(2) show ?thesis by simp
next
  case (live s1 n s2)
  have i1: "pairing_inv E s1"
    using live(2) assms(2) unpair_inv [OF prod.collapse [symmetric] assms(2), of E did] by simp
  have i2: "pairing_inv E s2" by (rule cleanup_inv [OF live(3) i1])
  have "own_device_id s1 = own_device_id s"
    using live(2) config_own unpair_effect(4) [OF prod.collapse [symmetric], of E did s] by metis
  then have own: "own_device_id s2 \<noteq> Some did"
    using live(1) config_own [OF cleanup_frame(2) [OF live(3)]] by (simp add: is_own_device_id_def)
  let ?st = "\<lambda>s. case cert of Some c \<Rightarrow> set_pending_peer_cert did c s | None \<Rightarrow> s"
  have acc: "pairing_inv E (snd (accept_pairing E did (\<lambda>n. clk (n + 2)) (?st s2)))"
    by (rule accept_inv [OF prod.collapse [symmetric]]) (simp add: i2)
  have ins: "pairing_inv E (snd (get_verification_key E did (clk 3) (?st (s2\<lparr>incoming := (incoming s2)(did \<mapsto> q)\<rparr>))))"
    if "\<not> max_pending s2 \<le> hm_len (outgoing s2) + hm_len (incoming s2)" for q
    by (rule verification_key_inv [OF prod.collapse [symmetric]]) (use inv_insert(2) [OF i2 _ own] that in simp)
  from arg_cong [OF live(4), of snd] acc ins i2 show ?thesis
    by (auto simp: Let_def split: if_splits)
qed

lemma save_inv [inv_intros]:
  assumes "pairing_inv E s"
  shows "pairing_inv E (snd (save_to_disk E' s))"
proof (rule inv_shrink [OF assms])
  have "persist_apart s" using assms by (simp add: pairing_inv_def)
  then show "pins E (snd (save_to_disk E' s)) x \<noteq> None \<and> own_device_id s \<noteq> Some x"
    if "x \<in> dom (paired (snd (save_to_disk E' s)))" for x
    using that inv_paired_pinned [OF assms] by simp
qed simp_all

lemma set_own_inv [inv_intros]:
  assumes "pairing_inv E s" and "did \<notin> dom (outgoing s) \<union> dom (incoming s)"
  shows "pairing_inv E (set_own_device_id E' did s)"
proof -
  have "pairing_inv E (s\<lparr>own_device_id := Some did, paired := hm_remove did (paired s)\<rparr>)"
    using assms by (auto simp: pairing_inv_def)
  then show ?thesis
    using save_inv [of E "s\<lparr>own_device_id := Some did, paired := hm_remove did (paired s)\<rparr>" E']
    by (simp add: set_own_device_id_def Let_def)
qed

section \<open>The handler as a state machine\<close>

text \<open>
  One step is one completed operation, with any clock readings and any disk outcomes. The own
  id is wired in by \<open>Daemon::load_identity\<close> before a connection can bring a request for it,
  which is the side condition of that step. \<open>weather\<close> lets the disk change its mind about
  future failures.
\<close>

inductive pairing_step :: "externals \<Rightarrow> 'z pairing_handler_scheme \<Rightarrow> 'z pairing_handler_scheme \<Rightarrow> bool" for E where
  initiate: "initiate_pairing did clk s = (r, s') \<Longrightarrow> pairing_step E s s'"
| receive: "receive_pair_request_with_cert E did ts cert clk s = (r, s') \<Longrightarrow> pairing_step E s s'"
| accept: "accept_pairing E did clk s = (r, s') \<Longrightarrow> pairing_step E s s'"
| force: "force_accept_pairing E did clk s = (r, s') \<Longrightarrow> pairing_step E s s'"
| reject: "reject_pairing did s = (r, s') \<Longrightarrow> pairing_step E s s'"
| unpaired: "unpair E did s = (r, s') \<Longrightarrow> pairing_step E s s'"
| sweep: "cleanup_expired clk s = (r, s') \<Longrightarrow> pairing_step E s s'"
| stage: "pairing_step E s (set_pending_peer_cert did c s)"
| key: "get_verification_key E did now s = (r, s') \<Longrightarrow> pairing_step E s s'"
| save: "pairing_step E s (snd (save_to_disk E s))"
| set_own: "did \<notin> dom (outgoing s) \<union> dom (incoming s) \<Longrightarrow> pairing_step E s (set_own_device_id E did s)"
| weather: "pairing_step E s (s\<lparr>sh_disk := (sh_disk s)\<lparr>script := os\<rparr>\<rparr>)"

inductive_cases pairing_stepE: "pairing_step E s s'"

lemma pairing_step_inv: "pairing_step E s s' \<Longrightarrow> pairing_inv E s \<Longrightarrow> pairing_inv E s'"
  by (erule pairing_stepE)
     (auto intro: inv_intros simp: set_pending_peer_cert_def inv_disk_files)

interpretation handler: machine "pairing_step E" "pairing_inv E" for E
  by unfold_locales (rule pairing_step_inv)


definition demo_handler :: pairing_handler where
  "demo_handler = (new_handler demo_certs (demo_disk []))\<lparr>has_broadcaster := True, persist_path := Some (''data'', ''paired.json'')\<rparr>"

lemma demo_apart: "persist_apart demo_handler"
proof -
  have "last ''paired.json'' \<noteq> last (did @ ''_fingerprint.txt'')" for did
    by simp
  then show ?thesis
    by (auto simp: persist_apart_def demo_handler_def new_handler_def)
qed


section \<open>Accepting\<close>

lemma remove_pending_live:
  assumes "remove_pending_request did now s = (Inr True, s')"
  shows "pending_certs s' = pending_certs s" "cert_manager s' = cert_manager s" "has_broadcaster s' = has_broadcaster s"
    "\<exists>q. (outgoing s did = Some q \<or> outgoing s did = None \<and> incoming s did = Some q) \<and> \<not> is_expired now q"
  using assms by (auto simp: remove_pending_request_def Let_def split: option.splits if_splits)

lemma complete_events:
  "complete_pairing E did now s = (Inr (), s') \<Longrightarrow> has_broadcaster s \<Longrightarrow> sh_events s' = sh_events s @ [EvPaired did '''']"
  by (erule complete_pairing_cases) (auto simp: emit_def broadcast_def)

text \<open>A successful accept binds the pairing to the certificate that was staged: there was a
  request that had not expired, the device is paired from now on and pinned to the staged
  certificate's fingerprint, nobody else's pairing changed, the staging slot is empty and
  the pairing event was sent.\<close>

theorem accept_pairing_binds:
  assumes "accept_pairing E did clk s = (Inr (), s')" and "pending_certs s did = Some c" and "persist_apart s"
  shows "(\<exists>q. (outgoing s did = Some q \<or> incoming s did = Some q) \<and> \<not> is_expired (clk 0) q)
    \<and> paired s' = (paired s)(did \<mapsto> clk 1)
    \<and> pinned_fp E (cert_manager s') did (sh_disk s') = Some (compute_fingerprint E c)
    \<and> pending_certs s' did = None
    \<and> (has_broadcaster s \<longrightarrow> sh_events s' = sh_events s @ [EvPaired did ''''])"
proof -
  from assms(1) obtain s1 where 1: "remove_pending_request did (clk 0) s = (Inr True, s1)"
    and 2: "complete_pairing E did (clk 1) s1 = (Inr (), s')"
    by (auto simp: accept_pairing_def result_simps split: if_splits)
  note l = remove_pending_live [OF 1] and f = remove_pending_frame [OF 1]
  have "persist_apart s1" using f(8) assms(3) by simp
  then have "pins E s' did = Some (compute_fingerprint E c)"
    using complete_pins(4) [OF 2] l(1) assms(2) by simp
  moreover have "has_broadcaster s \<Longrightarrow> sh_events s' = sh_events s @ [EvPaired did '''']"
    using complete_events [OF 2] l(3) f(4) by simp
  ultimately show ?thesis
    using l(4) f(1) complete_frame(4,5) [OF 2] by (auto simp: pins_def)
qed

text \<open>A request that has timed out never completes: accepting it fails with the time-out error,
  nobody is paired by it, no file is touched, and the request and its staged certificate are
  gone.\<close>

theorem expired_request_never_pairs:
  assumes "outgoing s did = Some q \<or> (outgoing s did = None \<and> incoming s did = Some q)" and "is_expired (clk 0) q"
  shows "\<exists>s'. accept_pairing E did clk s = (Inl (PairingTimeout did), s') \<and> paired s' = paired s
    \<and> sh_disk s' = sh_disk s \<and> pending_certs s' did = None
    \<and> outgoing s' did = None \<and> (outgoing s did = None \<longrightarrow> incoming s' did = None)"
proof -
  obtain r1 s1 where 1: "remove_pending_request did (clk 0) s = (r1, s1)" by fastforce
  have "r1 = Inl (PairingTimeout did)" "pending_certs s1 did = None" "outgoing s1 did = None"
    "outgoing s did = None \<longrightarrow> incoming s1 did = None"
    using 1 assms by (auto simp: remove_pending_request_def Let_def)
  with 1 remove_pending_frame [OF 1] show ?thesis
    by (auto simp: accept_pairing_def sbind_def)
qed

lemma expired_example:
  "is_expired (secs 31) \<lparr>rq_device_id = demo_id, rq_created_at = 0, rq_timeout = secs 30, rq_pair_timestamp = 7\<rparr>"
  by (simp add: is_expired_def secs_def)

definition demo_expired :: pairing_handler where
  "demo_expired = demo_handler\<lparr>outgoing :=
     [demo_id \<mapsto> \<lparr>rq_device_id = demo_id, rq_created_at = 0, rq_timeout = secs 30, rq_pair_timestamp = 7\<rparr>]\<rparr>"

theorem expired_request_never_pairs_witness:
  "\<exists>s'. accept_pairing demo_externals demo_id (\<lambda>_. secs 31) demo_expired = (Inl (PairingTimeout demo_id), s')
     \<and> outgoing s' demo_id = None"
proof -
  have "outgoing demo_expired demo_id =
      Some \<lparr>rq_device_id = demo_id, rq_created_at = 0, rq_timeout = secs 30, rq_pair_timestamp = 7\<rparr>"
    by (simp add: demo_expired_def)
  with expired_request_never_pairs [OF disjI1 expired_example, where s = demo_expired and E = demo_externals]
  show ?thesis by blast
qed

text \<open>
  The witness of an accept: a request made at time 0, a staged certificate, accepted one
  second later.
\<close>

definition demo_pending :: pairing_handler where
  "demo_pending = demo_handler\<lparr>
     incoming := [demo_id \<mapsto> \<lparr>rq_device_id = demo_id, rq_created_at = 0, rq_timeout = secs 25, rq_pair_timestamp = 7\<rparr>],
     pending_certs := [demo_id \<mapsto> ''CERT'']\<rparr>"

lemma demo_accept: "\<exists>s'. accept_pairing demo_externals demo_id (\<lambda>_. secs 1) demo_pending = (Inr (), s')"
proof -
  obtain d1 m where d1: "store_peer_certificate demo_externals demo_certs demo_id ''CERT'' (demo_disk []) = (Inr (), d1)"
    by (rule demo_pinned_disk)
  show ?thesis
    by (simp add: accept_pairing_def sbind_def remove_pending_request_def demo_pending_def demo_handler_def new_handler_def
          is_expired_def secs_def complete_pairing_def on_disk_def d1 Let_def)
qed

theorem accept_pairing_binds_witness:
  "\<exists>s'. accept_pairing demo_externals demo_id (\<lambda>_. secs 1) demo_pending = (Inr (), s')
     \<and> pinned_fp demo_externals (cert_manager s') demo_id (sh_disk s') = Some (compute_fingerprint demo_externals ''CERT'')
     \<and> is_paired demo_id s'"
proof -
  obtain s' where s': "accept_pairing demo_externals demo_id (\<lambda>_. secs 1) demo_pending = (Inr (), s')"
    using demo_accept by blast
  have "pending_certs demo_pending demo_id = Some ''CERT''" "persist_apart demo_pending"
    using demo_apart by (simp_all add: demo_pending_def)
  from accept_pairing_binds [OF s' this] s' show ?thesis
    by (auto simp: is_paired_def)
qed

section \<open>Requests from the peer\<close>

text \<open>A pair request from a device we already trust never re-confirms the pairing: unless a live
  outgoing request of ours makes it a mutual pairing, afterwards the device is not paired
  and every other pairing is as before.\<close>

theorem request_while_paired_unpairs:
  assumes "receive_pair_request_with_cert E did ts cert clk s = (r, s')"
    and "is_paired did s" and "\<not> is_own_device_id did s"
    and "\<forall>q. outgoing s did = Some q \<longrightarrow> is_expired (clk 0) q"
  shows "\<not> is_paired did s' \<and> paired s' = hm_remove did (paired s)"
  using assms(1)
proof (cases rule: receive_cases)
  case own
  with assms(3) show ?thesis by simp
next
  case (live s1 n s2)
  obtain r1 where u: "unpair E did s = (r1, s1)"
    using live(2) assms(2) by (metis prod.collapse)
  have p2: "paired s2 = hm_remove did (paired s)"
    using cleanup_frame(1) [OF live(3)] unpair_effect(1) [OF u] by simp
  have "outgoing s2 did = None"
    using cleanup_frame(5) [OF live(3)] unpair_effect(2) [OF u] assms(4) by (simp add: hm_retain_None_iff)
  then have o2: "\<not> hm_contains (outgoing s2) did" by (simp add: domIff)
  have gk: "paired (snd (get_verification_key E did now t)) = paired t" for now t
    using verification_key_files [OF prod.collapse [symmetric], of E did now t] by auto
  have st: "paired (case cert of Some c \<Rightarrow> set_pending_peer_cert did c t | None \<Rightarrow> t) = paired t" for t
    by (simp add: set_pending_peer_cert_def split: option.splits)
  have "paired s' = paired s2"
    using arg_cong [OF live(4), of snd] o2 by (simp add: Let_def gk st split: if_splits)
  with p2 show ?thesis by (simp add: is_paired_def domIff)
qed

text \<open>The first request stands: a second request from a peer whose request is still live, with
  whatever timestamp and certificate, changes neither the stored request (so the displayed
  verification key stays the same) nor the staged certificate.\<close>

theorem duplicate_request_ignored:
  assumes "\<not> is_own_device_id did s" and "\<not> is_paired did s" and "outgoing s did = None"
    and "incoming s did = Some q" and "\<not> is_expired (clk 1) q"
  shows "\<exists>s'. receive_pair_request_with_cert E did ts cert clk s = (Inr (), s')
    \<and> incoming s' did = Some q \<and> pending_certs s' did = pending_certs s did
    \<and> paired s' = paired s \<and> sh_disk s' = sh_disk s"
proof -
  obtain r s' where run: "receive_pair_request_with_cert E did ts cert clk s = (r, s')" by fastforce
  from run show ?thesis
  proof (cases rule: receive_cases)
    case own
    with assms(1) show ?thesis by simp
  next
    case (live s1 n s2)
    have s1: "s1 = s" using live(2) assms(2) by simp
    note f = cleanup_frame [OF live(3) [unfolded s1]]
    have i2: "incoming s2 did = Some q" and o2: "outgoing s2 did = None"
      using f(5,6) assms by (simp_all add: hm_retain_Some_iff hm_retain_None_iff)
    have "pending_certs s2 did = pending_certs s did"
      using live(3) assms(3,4,5)
      by (auto simp: s1 cleanup_expired_def Let_def hm_retain_def domIff split: option.splits if_splits)
    with live(4) i2 o2 run f(1,3) show ?thesis
      by (auto simp: Let_def domIff)
  qed
qed

definition demo_request :: pairing_request where
  "demo_request = \<lparr>rq_device_id = demo_id, rq_created_at = 0, rq_timeout = secs 25, rq_pair_timestamp = 7\<rparr>"

theorem duplicate_request_ignored_witness:
  "\<exists>s'. receive_pair_request_with_cert demo_externals demo_id (Some 9) (Some ''EVIL'') (\<lambda>_. secs 1) demo_pending = (Inr (), s')
     \<and> incoming s' demo_id = Some demo_request \<and> pending_certs s' demo_id = Some ''CERT''"
proof -
  have h: "\<not> is_own_device_id demo_id demo_pending" "\<not> is_paired demo_id demo_pending" "outgoing demo_pending demo_id = None"
    "incoming demo_pending demo_id = Some demo_request" "\<not> is_expired (secs 1) demo_request"
    "pending_certs demo_pending demo_id = Some ''CERT''"
    by (simp_all add: demo_pending_def demo_handler_def new_handler_def is_own_device_id_def is_paired_def demo_request_def
          is_expired_def secs_def)
  show ?thesis
    using duplicate_request_ignored [of demo_id demo_pending demo_request "\<lambda>_. secs 1", OF h(1-5)] h(6) by metis
qed

theorem request_while_paired_unpairs_witness:
  "\<not> is_paired demo_id (snd (receive_pair_request_with_cert demo_externals demo_id (Some 9) (Some ''CERT'') (\<lambda>_. secs 1)
       (demo_handler\<lparr>paired := [demo_id \<mapsto> 0]\<rparr>)))"
proof -
  let ?s = "demo_handler\<lparr>paired := [demo_id \<mapsto> 0]\<rparr>"
  have h: "is_paired demo_id ?s" "\<not> is_own_device_id demo_id ?s" "\<forall>q. outgoing ?s demo_id = Some q \<longrightarrow> is_expired (secs 1) q"
    by (simp_all add: demo_handler_def new_handler_def is_own_device_id_def is_paired_def)
  show ?thesis
    using request_while_paired_unpairs [OF prod.collapse [symmetric] h(1,2), of "\<lambda>_. secs 1" demo_externals "Some 9" "Some ''CERT''"]
      h(3) by blast
qed

section \<open>Both sides show the same key\<close>

lemma key_result:
  assumes "get_verification_key E did now s = (Inr (Some k), s')"
    and "(case outgoing s did of Some q \<Rightarrow> Some q | None \<Rightarrow> incoming s did) = Some q"
    and "pending_certs s did = Some peer"
  obtains f der a b where "files (sh_disk s) (own_cert_path (cert_manager s)) = Some f" "pem_to_der E (contents f) = Inr der"
    "extract_pubkey_der E der = Inr a" "extract_pubkey_der E peer = Inr b"
    "k = compute_verification_key E a b (rq_pair_timestamp q)"
proof -
  have ts: "(case outgoing s did of Some req \<Rightarrow> live_timestamp now req
      | None \<Rightarrow> (case incoming s did of Some req \<Rightarrow> live_timestamp now req | None \<Rightarrow> None)) = live_timestamp now q"
    using assms(2) by (auto split: option.splits)
  from assms(1,3) obtain t where t: "live_timestamp now q = Some t"
    by (auto simp: get_verification_key_def ts split: option.splits)
  then have tq: "t = rq_pair_timestamp q"
    by (simp add: live_timestamp_def split: if_splits)
  from assms(1,3) t obtain pem key d1 der a b where
    ld: "load_own_certificate (cert_manager s) (sh_disk s) = (Inr (pem, key), d1)" and
    r: "pem_to_der E pem = Inr der" "extract_pubkey_der E der = Inr a" "extract_pubkey_der E peer = Inr b"
    "k = compute_verification_key E a b t"
    by (auto simp: get_verification_key_def ts result_simps on_disk_def split: prod.splits)
  from ld obtain f where "files (sh_disk s) (own_cert_path (cert_manager s)) = Some f" "contents f = pem"
    by (auto simp: load_own_certificate_def result_simps dest!: fs_read_Inr)
  with r tq show thesis using that by auto
qed

lemma initiate_result:
  assumes "initiate_pairing did clk s = (Inr ts, s')"
  shows "\<exists>q. outgoing s' did = Some q \<and> rq_pair_timestamp q = ts" "sh_disk s' = sh_disk s" "cert_manager s' = cert_manager s"
proof -
  obtain n s1 where c: "cleanup_expired clk s = (Inr n, s1)"
    using cleanup_frame(7) [of clk s] by (metis is_ok_iff prod.collapse)
  from assms c cleanup_frame(2,3) [OF c]
  show "\<exists>q. outgoing s' did = Some q \<and> rq_pair_timestamp q = ts" "sh_disk s' = sh_disk s" "cert_manager s' = cert_manager s"
    by (auto simp: initiate_pairing_def sbind_def Let_def config_def split: if_splits)
qed

lemma receive_fresh:
  assumes "receive_pair_request_with_cert E did (Some ts) (Some c) clk s = (Inr (), s')"
    and "\<not> is_own_device_id did s" and "\<not> is_paired did s" and "outgoing s did = None" and "incoming s did = None"
  shows "outgoing s' did = None" "\<exists>q. incoming s' did = Some q \<and> rq_pair_timestamp q = ts" "pending_certs s' did = Some c"
    "files (sh_disk s') = files (sh_disk s)" "cert_manager s' = cert_manager s"
proof -
  have "outgoing s' did = None \<and> (\<exists>q. incoming s' did = Some q \<and> rq_pair_timestamp q = ts) \<and> pending_certs s' did = Some c
     \<and> files (sh_disk s') = files (sh_disk s) \<and> cert_manager s' = cert_manager s"
    using assms(1)
  proof (cases rule: receive_cases)
    case own
    with assms(2) show ?thesis by simp
  next
    case (live s1 n s2)
    have s1: "s1 = s" using live(2) assms(3) by simp
    note f = cleanup_frame [OF live(3) [unfolded s1]]
    have n2: "incoming s2 did = None" "outgoing s2 did = None"
      using f(5,6) assms by (simp_all add: hm_retain_None_iff)
    let ?q = "\<lparr>rq_device_id = did, rq_created_at = clk 2, rq_timeout = accept_timeout s2, rq_pair_timestamp = ts\<rparr>"
    let ?t = "set_pending_peer_cert did c (s2\<lparr>incoming := (incoming s2)(did \<mapsto> ?q)\<rparr>)"
    have s': "s' = snd (get_verification_key E did (clk 3) ?t)"
      using live(4) n2 by (auto simp: Let_def domIff split: if_splits)
    obtain d' where "s' = ?t\<lparr>sh_disk := d'\<rparr>" "files d' = files (sh_disk ?t)"
      using verification_key_files [OF prod.collapse [symmetric], of E did "clk 3" ?t] s' by auto
    with f(2,3) n2 show ?thesis
      by (simp add: set_pending_peer_cert_def config_def)
  qed
  then show "outgoing s' did = None" "\<exists>q. incoming s' did = Some q \<and> rq_pair_timestamp q = ts" "pending_certs s' did = Some c"
    "files (sh_disk s') = files (sh_disk s)" "cert_manager s' = cert_manager s" by simp_all
qed

text \<open>The user can compare: when device A asks to pair and B receives A's request with the
  timestamp A sent, each holding the certificate the other presented, the verification key
  A shows for B is the one B shows for A, whenever both are shown.\<close>

theorem verification_keys_agree:
  assumes "initiate_pairing idB clkA sA = (Inr ts, sA1)"
    and "receive_pair_request_with_cert E idA (Some ts) (Some certA) clkB sB = (Inr (), sB1)"
    and "\<not> is_own_device_id idA sB" and "\<not> is_paired idA sB" and "outgoing sB idA = None" and "incoming sB idA = None"
    and "files (sh_disk sA) (own_cert_path (cert_manager sA)) = Some fA" and "pem_to_der E (contents fA) = Inr certA"
    and "files (sh_disk sB) (own_cert_path (cert_manager sB)) = Some fB" and "pem_to_der E (contents fB) = Inr certB"
    and "pending_certs sA1 idB = Some certB"
    and "get_verification_key E idB t sA1 = (Inr (Some kA), sA2)"
    and "get_verification_key E idA t' sB1 = (Inr (Some kB), sB2)"
  shows "kA = kB"
proof -
  note i = initiate_result [OF assms(1)] and r = receive_fresh [OF assms(2-6)]
  obtain qA where qA: "outgoing sA1 idB = Some qA" "rq_pair_timestamp qA = ts" using i(1) by blast
  obtain qB where qB: "incoming sB1 idA = Some qB" "rq_pair_timestamp qB = ts" using r(2) by blast
  have sym: "compute_verification_key E x y z = compute_verification_key E y x z" for x y z
    using bytes_gt_total [of x y] bytes_gt_asym [of x y] bytes_gt_asym [of y x]
    by (auto simp: compute_verification_key_def)
  obtain a b where "extract_pubkey_der E certA = Inr a" "extract_pubkey_der E certB = Inr b"
      "kA = compute_verification_key E a b ts"
    by (rule key_result [OF assms(12), of qA certB]) (use qA assms(7,8,11) i in auto)
  moreover obtain a' b' where "extract_pubkey_der E certB = Inr b'" "extract_pubkey_der E certA = Inr a'"
      "kB = compute_verification_key E b' a' ts"
    by (rule key_result [OF assms(13), of qB certA]) (use qB assms(9,10) r in auto)
  ultimately show ?thesis using sym by simp
qed

definition demo_own_disk :: "string \<Rightarrow> disk" where
  "demo_own_disk der = (demo_disk [])\<lparr>files :=
     [own_cert_path demo_certs \<mapsto> \<lparr>contents = der_to_pem demo_externals der, fmode = 420\<rparr>,
      own_key_path demo_certs \<mapsto> \<lparr>contents = ''KEY'', fmode = 384\<rparr>]\<rparr>"

lemma demo_own_load:
  "list_all b64_char der \<Longrightarrow>
     load_own_certificate demo_certs (demo_own_disk der) = (Inr (der_to_pem demo_externals der, ''KEY''), demo_own_disk der)
   \<and> pem_to_der demo_externals (der_to_pem demo_externals der) = Inr der"
  by (auto simp: load_own_certificate_def sbind_def sreturn_def demo_own_disk_def demo_disk_def own_cert_path_def own_key_path_def
        demo_externals_def intro!: pem_to_der_of_pem)

lemma demo_key:
  assumes "list_all b64_char der" and "sh_disk s = demo_own_disk der" and "cert_manager s = demo_certs"
    and "pending_certs s did = Some peer"
    and "(case outgoing s did of Some q \<Rightarrow> Some q | None \<Rightarrow> incoming s did) = Some q" and "\<not> is_expired now q" and "rq_pair_timestamp q \<noteq> 0"
  shows "\<exists>k. get_verification_key demo_externals did now s = (Inr (Some k), s)"
proof -
  have pk: "extract_pubkey_der demo_externals d = Inr d" for d
    by (simp add: extract_pubkey_der_def ok_or_def demo_externals_def)
  from assms demo_own_load [OF assms(1)] show ?thesis
    by (auto simp: get_verification_key_def live_timestamp_def sbind_def sreturn_def slift_def on_disk_def pk split: option.splits)
qed

definition demo_A :: pairing_handler where
  "demo_A = demo_handler\<lparr>sh_disk := demo_own_disk ''AAAA'', pending_certs := [demo_id \<mapsto> ''BBBB'']\<rparr>"

definition demo_B :: pairing_handler where
  "demo_B = demo_handler\<lparr>sh_disk := demo_own_disk ''BBBB''\<rparr>"

lemma hm_retain_empty [simp]: "hm_retain P Map.empty = Map.empty"
  by (rule ext) (simp add: hm_retain_def)

lemma b64_demo: "list_all b64_char ''AAAA''" "list_all b64_char ''BBBB''"
  by (simp_all add: b64_char_def ascii_alnum_def)

lemma demo_A_initiate:
  "\<exists>s q. initiate_pairing demo_id (\<lambda>_. secs 5) demo_A = (Inr 5, s) \<and> outgoing s demo_id = Some q \<and> \<not> is_expired (secs 6) q
     \<and> rq_pair_timestamp q = 5 \<and> sh_disk s = demo_own_disk ''AAAA'' \<and> cert_manager s = demo_certs \<and> pending_certs s demo_id = Some ''BBBB''"
  by (simp add: initiate_pairing_def is_own_device_id_def cleanup_expired_def Let_def sbind_def demo_A_def
        demo_handler_def new_handler_def secs_def timestamp_def is_expired_def PAIR_REQUEST_TIMEOUT_SECS_def)

lemma demo_B_receive:
  "\<exists>s q. receive_pair_request_with_cert demo_externals short_id (Some 5) (Some ''AAAA'') (\<lambda>_. secs 5) demo_B = (Inr (), s)
     \<and> outgoing s short_id = None \<and> incoming s short_id = Some q \<and> \<not> is_expired (secs 6) q
     \<and> rq_pair_timestamp q = 5 \<and> sh_disk s = demo_own_disk ''BBBB'' \<and> cert_manager s = demo_certs \<and> pending_certs s short_id = Some ''AAAA''"
proof -
  let ?q = "\<lparr>rq_device_id = short_id, rq_created_at = secs 5, rq_timeout = secs 25, rq_pair_timestamp = 5\<rparr>"
  let ?s = "demo_B\<lparr>incoming := [short_id \<mapsto> ?q], pending_certs := [short_id \<mapsto> ''AAAA'']\<rparr>"
  have "\<exists>k. get_verification_key demo_externals short_id (secs 5) ?s = (Inr (Some k), ?s)"
    by (rule demo_key [OF b64_demo(2), of _ _ "''AAAA''" ?q])
       (simp_all add: demo_B_def demo_handler_def new_handler_def is_expired_def secs_def)
  then have k: "snd (get_verification_key demo_externals short_id (secs 5) ?s) = ?s" by auto
  have "receive_pair_request_with_cert demo_externals short_id (Some 5) (Some ''AAAA'') (\<lambda>_. secs 5) demo_B
      = (Inr (), snd (get_verification_key demo_externals short_id (secs 5) ?s))"
    by (simp add: receive_pair_request_with_cert_def is_own_device_id_def is_paired_def cleanup_expired_def Let_def sbind_def
          set_pending_peer_cert_def demo_B_def demo_handler_def new_handler_def PAIR_ACCEPT_TIMEOUT_SECS_def)
  then show ?thesis
    unfolding k by (simp add: demo_B_def demo_handler_def new_handler_def is_expired_def secs_def)
qed

theorem verification_keys_agree_witness:
  "\<exists>sA sB k sA' sB'. initiate_pairing demo_id (\<lambda>_. secs 5) demo_A = (Inr 5, sA)
     \<and> receive_pair_request_with_cert demo_externals short_id (Some 5) (Some ''AAAA'') (\<lambda>_. secs 5) demo_B = (Inr (), sB)
     \<and> get_verification_key demo_externals demo_id (secs 6) sA = (Inr (Some k), sA')
     \<and> get_verification_key demo_externals short_id (secs 6) sB = (Inr (Some k), sB')"
proof -
  obtain sA qA where A: "initiate_pairing demo_id (\<lambda>_. secs 5) demo_A = (Inr 5, sA)" "outgoing sA demo_id = Some qA"
    "\<not> is_expired (secs 6) qA" "rq_pair_timestamp qA = 5" "sh_disk sA = demo_own_disk ''AAAA''" "cert_manager sA = demo_certs"
    "pending_certs sA demo_id = Some ''BBBB''"
    using demo_A_initiate by blast
  obtain sB qB where B: "receive_pair_request_with_cert demo_externals short_id (Some 5) (Some ''AAAA'') (\<lambda>_. secs 5) demo_B = (Inr (), sB)"
    "outgoing sB short_id = None" "incoming sB short_id = Some qB"
    "\<not> is_expired (secs 6) qB" "rq_pair_timestamp qB = 5" "sh_disk sB = demo_own_disk ''BBBB''" "cert_manager sB = demo_certs"
    "pending_certs sB short_id = Some ''AAAA''"
    using demo_B_receive by blast
  obtain kA where kA: "get_verification_key demo_externals demo_id (secs 6) sA = (Inr (Some kA), sA)"
    using demo_key [OF b64_demo(1) A(5,6,7), of qA "secs 6"] A by auto
  obtain kB where kB: "get_verification_key demo_externals short_id (secs 6) sB = (Inr (Some kB), sB)"
    using demo_key [OF b64_demo(2) B(6,7,8), of qB "secs 6"] B by auto
  have "kA = kB"
    by (rule verification_keys_agree [OF A(1) B(1), where certB = "''BBBB''" and t = "secs 6" and t' = "secs 6" and kA = kA and kB = kB
          and fA = "\<lparr>contents = der_to_pem demo_externals ''AAAA'', fmode = 420\<rparr>"
          and fB = "\<lparr>contents = der_to_pem demo_externals ''BBBB'', fmode = 420\<rparr>"])
       (use A(7) kA kB demo_own_load [OF b64_demo(1)] demo_own_load [OF b64_demo(2)] in
          \<open>simp_all add: demo_A_def demo_B_def demo_handler_def new_handler_def is_own_device_id_def is_paired_def
             demo_own_disk_def own_cert_path_def own_key_path_def\<close>)
  with A(1) B(1) kA kB show ?thesis by blast
qed

section \<open>Persistence\<close>

text \<open>Pairings survive a restart: when a save succeeds, a fresh handler that loads the same path
  from the disk that save left behind has exactly the saved pairings, provided the JSON
  library reads back what it wrote.\<close>

theorem save_load_roundtrip:
  assumes "save_to_disk E s = (Inr (), s')" and "persist_path s = Some p"
    and "paired_parse E (paired_print E (paired s)) = Some (paired s)" and "valid_utf8 (paired_print E (paired s))"
    and "persist_path t = Some p" and "paired t = Map.empty" and "files (sh_disk t) = files (sh_disk s')" and "script (sh_disk t) = []"
  shows "\<exists>t'. load_from_disk E t = (Inr (), t') \<and> paired t' = paired s"
proof -
  let ?tmp = "with_extension ''tmp'' p"
  from assms(1,2) obtain e d1 d2 e' d3 where w: "fs_write e ?tmp (paired_print E (paired s)) d1 = (Inr (), d2)"
    and r: "fs_rename e' ?tmp p d2 = (Inr (), d3)" and s': "sh_disk s' = d3"
    by (auto simp: save_to_disk_def on_disk_def result_simps split: prod.splits)
  obtain f where f: "files d2 ?tmp = Some f" "contents f = paired_print E (paired s)"
    using fs_write_Inr [OF w] by blast
  then have "files (sh_disk t) p = Some f"
    using fs_rename_Inr [OF r] assms(7) s' by auto
  with f assms(3-6,8) show ?thesis
    by (simp add: load_from_disk_def path_exists_def on_disk_def fs_read_to_string_def sbind_def sreturn_def)
qed

theorem save_load_roundtrip_witness:
  "\<exists>s' t'. save_to_disk (demo_externals\<lparr>paired_parse := \<lambda>_. Some [demo_id \<mapsto> 5]\<rparr>) (demo_handler\<lparr>paired := [demo_id \<mapsto> 5]\<rparr>) = (Inr (), s')
     \<and> load_from_disk (demo_externals\<lparr>paired_parse := \<lambda>_. Some [demo_id \<mapsto> 5]\<rparr>) (s'\<lparr>paired := Map.empty\<rparr>) = (Inr (), t')
     \<and> paired t' = [demo_id \<mapsto> 5]"
proof -
  let ?E = "demo_externals\<lparr>paired_parse := \<lambda>_. Some [demo_id \<mapsto> 5]\<rparr>" and ?s = "demo_handler\<lparr>paired := [demo_id \<mapsto> 5]\<rparr>"
  have "\<exists>s'. save_to_disk ?E ?s = (Inr (), s') \<and> script (sh_disk s') = [] \<and> persist_path s' = Some (''data'', ''paired.json'')"
    by (simp add: save_to_disk_def demo_handler_def new_handler_def on_disk_def sbind_def fs_create_dir_all_def dir_exists_def
          next_outcome_def fs_write_def fs_write_mode_def fs_rename_def put_file_def demo_disk_def)
  then obtain s' where s': "save_to_disk ?E ?s = (Inr (), s')" "script (sh_disk s') = []" "persist_path s' = Some (''data'', ''paired.json'')"
    by blast
  have v: "valid_utf8 (paired_print ?E (paired ?s))"
    by (simp add: demo_externals_def valid_utf8_def bytes_of_def)
  from save_load_roundtrip [OF s'(1), of "(''data'', ''paired.json'')" "s'\<lparr>paired := Map.empty\<rparr>"] s' v show ?thesis
    by (simp add: demo_handler_def new_handler_def)
qed

end
