(* ===== verification/Registry.thy ===== *)
theory Registry
  imports Pairing
begin

text \<open>
  The device registry (\<open>src/device/registry.rs\<close>) and the lifecycle manager
  (\<open>src/device/lifecycle.rs\<close>). The registry keeps one record per device id, caps the
  records of devices that never paired, and persists only truly paired ones; the lifecycle
  manager validates state changes and announces them.

  A \<open>HashMap\<close> is iterated in an order of its own: operations that depend on it take that
  order as a list of the keys.
\<close>

section \<open>The registry\<close>

definition STALE_DEVICE_TTL_DAYS :: int where "STALE_DEVICE_TTL_DAYS = 30"
definition MAX_UNPAIRED_DEVICES :: nat where "MAX_UNPAIRED_DEVICES = 64"

record registry = pairing_handler +
  devices :: "device_key \<rightharpoonup> device"
  reg_path :: "path option"
  paired_wired :: bool

text \<open>The JSON text of the registry file is the library's.\<close>

record devices_json =
  devices_print :: "(device_key \<rightharpoonup> device) \<Rightarrow> string"
  devices_parse :: "string \<Rightarrow> (device_key \<rightharpoonup> device) option"

definition is_truly_paired :: "'z registry_scheme \<Rightarrow> device \<Rightarrow> bool" where
  "is_truly_paired s d = (if paired_wired s then hm_contains (paired s) (dv_id d) else device_is_paired d)"

definition enforce_unpaired_cap :: "device_key list \<Rightarrow> device \<Rightarrow> 'z registry_scheme \<Rightarrow> (device_key \<rightharpoonup> device)" where
  "enforce_unpaired_cap order fresh s =
     (if is_truly_paired s fresh then devices s
      else (let unpaired = map (\<lambda>d. (dv_id d, dv_last_seen d))
                  (filter (\<lambda>d. \<not> is_truly_paired s d) (List.map_filter (devices s) order)) in
        if length unpaired < MAX_UNPAIRED_DEVICES then devices s
        else (let sorted = sort_key snd unpaired;
                  evict_count = length unpaired - MAX_UNPAIRED_DEVICES + 1
              in fold (\<lambda>(oldest_id, _). hm_remove oldest_id) (take evict_count sorted) (devices s))))"

definition reg_save :: "devices_json \<Rightarrow> ('z registry_scheme, unit) op" where
  "reg_save J s =
     (case reg_path s of
        None \<Rightarrow> (Inl (ConfigError ''No persist path configured''), s)
      | Some p \<Rightarrow>
          (let paired_only = hm_retain (\<lambda>_ d. is_truly_paired s d) (devices s)
           in on_disk (
                sbind (fs_create_dir_all (Io ''create_dir_all'') (fst p)) (\<lambda>_.
                sbind (fs_write (Io ''write'') (with_extension ''tmp'' p) (devices_print J paired_only)) (\<lambda>_.
                  fs_rename (Io ''rename'') (with_extension ''tmp'' p) p))) s))"

definition save_if_persistent :: "devices_json \<Rightarrow> 'z registry_scheme \<Rightarrow> 'z registry_scheme" where
  "save_if_persistent J s = (if reg_path s \<noteq> None then snd (reg_save J s) else s)"

definition refresh_identity :: "device \<Rightarrow> instant \<Rightarrow> device \<Rightarrow> device" where
  "refresh_identity fresh now existing =
     (let e1 = existing\<lparr>dv_name := dv_name fresh, dv_type := dv_type fresh, dv_protocol_version := dv_protocol_version fresh\<rparr>;
          e2 = apply_capability_update (dv_incoming fresh) (dv_outgoing fresh) e1;
          e3 = (if dv_address fresh \<noteq> None then e2\<lparr>dv_address := dv_address fresh\<rparr> else e2)
      in update_last_seen now e3)"

definition upsert_device :: "devices_json \<Rightarrow> device_key list \<Rightarrow> instant \<Rightarrow> device \<Rightarrow> ('z registry_scheme, unit) op" where
  "upsert_device J order now d s =
     (let s1 = (case devices s (dv_id d) of
                  Some existing \<Rightarrow> s\<lparr>devices := (devices s)(dv_id d \<mapsto> refresh_identity d now existing)\<rparr>
                | None \<Rightarrow> s\<lparr>devices := (enforce_unpaired_cap order d s)(dv_id d \<mapsto> d)\<rparr>)
      in (Inr (), save_if_persistent J s1))"

definition add :: "devices_json \<Rightarrow> device_key list \<Rightarrow> device \<Rightarrow> ('z registry_scheme, unit) op" where
  "add J order d s =
     (if hm_contains (devices s) (dv_id d) then (Inl (DeviceAlreadyExists (dv_id d)), s)
      else (Inr (), save_if_persistent J (s\<lparr>devices := (enforce_unpaired_cap order d s)(dv_id d \<mapsto> d)\<rparr>)))"

definition reg_get :: "device_key \<Rightarrow> 'z registry_scheme \<Rightarrow> device res" where
  "reg_get did s = ok_or (DeviceNotFound did) (devices s did)"

definition modify :: "device_key \<Rightarrow> (device \<Rightarrow> 'a res \<times> device) \<Rightarrow> ('z registry_scheme, 'a) op" where
  "modify did f s =
     (case devices s did of
        None \<Rightarrow> (Inl (DeviceNotFound did), s)
      | Some original \<Rightarrow>
          (let (result, d) = f original in
           if dv_id d \<noteq> dv_id original
           then (Inl (InvalidRequest ''DeviceRegistry::modify must not change the device id''), s)
           else (result, s\<lparr>devices := (devices s)(did \<mapsto> d)\<rparr>)))"

definition update :: "device \<Rightarrow> ('z registry_scheme, unit) op" where
  "update d s =
     (if \<not> hm_contains (devices s) (dv_id d) then (Inl (DeviceNotFound (dv_id d)), s)
      else (Inr (), s\<lparr>devices := (devices s)(dv_id d \<mapsto> d)\<rparr>))"

definition reg_remove :: "devices_json \<Rightarrow> device_key \<Rightarrow> ('z registry_scheme, device) op" where
  "reg_remove J did s =
     (case devices s did of
        None \<Rightarrow> (Inl (DeviceNotFound did), s)
      | Some d \<Rightarrow> (Inr d, save_if_persistent J (s\<lparr>devices := hm_remove did (devices s)\<rparr>)))"

definition contains :: "device_key \<Rightarrow> 'z registry_scheme \<Rightarrow> bool" where
  "contains did s = hm_contains (devices s) did"

definition count_devices :: "'z registry_scheme \<Rightarrow> nat" where
  "count_devices s = hm_len (devices s)"

definition list_by_state :: "device_key list \<Rightarrow> device_state \<Rightarrow> 'z registry_scheme \<Rightarrow> device list" where
  "list_by_state order st s = filter (\<lambda>d. dv_state d = st) (List.map_filter (devices s) order)"

definition reg_load :: "devices_json \<Rightarrow> ('z registry_scheme, unit) op" where
  "reg_load J s =
     (case reg_path s of
        None \<Rightarrow> (Inl (ConfigError ''No persist path configured''), s)
      | Some p \<Rightarrow>
          if \<not> path_exists p (sh_disk s) then (Inr (), s)
          else sbind (on_disk (fs_read_to_string (Io ''read_to_string'') p)) (\<lambda>data.
                 case devices_parse J data of
                   None \<Rightarrow> sfail (Json ''from_str'')
                 | Some loaded \<Rightarrow> (\<lambda>s. (Inr (), s\<lparr>devices := loaded\<rparr>))) s)"

definition days :: "int \<Rightarrow> duration" where
  "days n = secs (n * 86400)"

definition keep_device :: "device_key set \<Rightarrow> instant \<Rightarrow> device_key \<Rightarrow> device \<Rightarrow> bool" where
  "keep_device paired_ids cutoff did d \<longleftrightarrow> did \<in> paired_ids \<or> device_is_connected d \<or> cutoff \<le> dv_last_seen d"

definition prune_stale_devices ::
    "devices_json \<Rightarrow> device_key list \<Rightarrow> device_key set \<Rightarrow> instant \<Rightarrow> 'z registry_scheme \<Rightarrow> device_key list \<times> 'z registry_scheme" where
  "prune_stale_devices J order paired_ids now s =
     (let cutoff = now - days STALE_DEVICE_TTL_DAYS;
          pruned = filter (\<lambda>k. case devices s k of Some d \<Rightarrow> \<not> keep_device paired_ids cutoff k d | None \<Rightarrow> False) order;
          s1 = s\<lparr>devices := hm_retain (keep_device paired_ids cutoff) (devices s)\<rparr>
      in (pruned, if pruned \<noteq> [] then save_if_persistent J s1 else s1))"

section \<open>The lifecycle manager\<close>

definition transition :: "device_key \<Rightarrow> device_state \<Rightarrow> clock \<Rightarrow> ('z registry_scheme, unit) op" where
  "transition did new_state clk =
     sbind (modify did (\<lambda>d.
       (let old_state = dv_state d in
        if old_state = new_state then (Inr None, d)
        else if \<not> can_transition_to old_state new_state then (Inl (InvalidStateTransition old_state new_state), d)
        else (let d1 = d\<lparr>dv_state := new_state, dv_state_since := clk 0\<rparr>;
                  d2 = update_last_seen (clk 1) d1;
                  d3 = (if new_state = device_state.Paired then d2\<lparr>dv_paired_at := Some (clk 2)\<rparr> else d2)
              in (Inr (Some old_state), d3))))) (\<lambda>old.
       case old of
         None \<Rightarrow> sreturn ()
       | Some old_state \<Rightarrow> (\<lambda>s. (Inr (), broadcast (EvStateChanged did old_state new_state) s)))"

definition get_state :: "device_key \<Rightarrow> 'z registry_scheme \<Rightarrow> device_state res" where
  "get_state did s = rbind (reg_get did s) (\<lambda>d. Inr (dv_state d))"

definition get_state_since :: "device_key \<Rightarrow> 'z registry_scheme \<Rightarrow> instant res" where
  "get_state_since did s = rbind (reg_get did s) (\<lambda>d. Inr (dv_state_since d))"

definition lifecycle_remove :: "devices_json \<Rightarrow> device_key \<Rightarrow> 'z registry_scheme \<Rightarrow> 'z registry_scheme" where
  "lifecycle_remove J did s = snd (reg_remove J did s)"

definition ensure_registered ::
    "externals \<Rightarrow> devices_json \<Rightarrow> device_key list \<Rightarrow> device_key \<Rightarrow> identity \<Rightarrow> clock \<Rightarrow> ('z registry_scheme, bool) op" where
  "ensure_registered E J order did i clk s =
     (if \<not> contains did s then
        (let d = with_capabilities (incoming_capabilities i) (outgoing_capabilities i)
                   (new_device (clk 0) did (device_name i) (parse_device_type E (device_type i)) (protocol_version i))
         in case add J order d s of
              (Inr _, s') \<Rightarrow> (Inr True, s')
            | (Inl e, s') \<Rightarrow> (case e of DeviceAlreadyExists _ \<Rightarrow> (Inr False, s') | _ \<Rightarrow> (Inl e, s')))
      else sbind (modify did (\<lambda>existing.
             (let e1 = existing\<lparr>dv_name := device_name i, dv_type := parse_device_type E (device_type i),
                                dv_protocol_version := protocol_version i\<rparr>;
                  e2 = apply_capability_update (incoming_capabilities i) (outgoing_capabilities i) e1
              in (Inr (), update_last_seen (clk 0) e2)))) (\<lambda>_. sreturn False) s)"

definition ensure_and_transition ::
    "externals \<Rightarrow> devices_json \<Rightarrow> device_key list \<Rightarrow> device_key \<Rightarrow> identity \<Rightarrow> device_state \<Rightarrow> clock \<Rightarrow> ('z registry_scheme, unit) op" where
  "ensure_and_transition E J order did i new_state clk =
     sbind (ensure_registered E J order did i clk) (\<lambda>auto_created.
     sbind (if auto_created \<and> new_state = device_state.Disconnected then
              (\<lambda>s. sbind (slift (reg_get did s)) (\<lambda>d.
                (let old = dv_state d in
                 sbind (update (d\<lparr>dv_state := device_state.Connected, dv_state_since := clk 1\<rparr>)) (\<lambda>_ s.
                   (Inr (), broadcast (EvStateChanged did old device_state.Connected) s)))) s)
            else sreturn ()) (\<lambda>_.
       transition did new_state (\<lambda>n. clk (n + 2))))"

definition try_transition :: "device_key \<Rightarrow> device_state \<Rightarrow> clock \<Rightarrow> 'z registry_scheme \<Rightarrow> 'z registry_scheme" where
  "try_transition did new_state clk s = snd (transition did new_state clk s)"

section \<open>The cap on unpaired records\<close>

text \<open>A well-formed registry stores each record under its own id.\<close>

definition reg_wf :: "'z registry_scheme \<Rightarrow> bool" where
  "reg_wf s \<longleftrightarrow> finite (dom (devices s)) \<and> (\<forall>k d. devices s k = Some d \<longrightarrow> dv_id d = k)"

definition unpaired_ids :: "'z registry_scheme \<Rightarrow> device_key set" where
  "unpaired_ids s = {k. \<exists>d. devices s k = Some d \<and> \<not> is_truly_paired s d}"

abbreviation order_ok :: "device_key list \<Rightarrow> 'z registry_scheme \<Rightarrow> bool" where
  "order_ok order s \<equiv> distinct order \<and> set order = dom (devices s)"

definition unpaired_list :: "device_key list \<Rightarrow> 'z registry_scheme \<Rightarrow> (device_key \<times> instant) list" where
  "unpaired_list order s = map (\<lambda>d. (dv_id d, dv_last_seen d))
     (filter (\<lambda>d. \<not> is_truly_paired s d) (List.map_filter (devices s) order))"

lemma map_filter_ids:
  assumes "\<forall>k d. m k = Some d \<longrightarrow> dv_id d = k"
  shows "map dv_id (List.map_filter m ks) = filter (\<lambda>k. m k \<noteq> None) ks"
  using assms by (induction ks) (auto simp: map_filter_simps split: option.splits)

lemma unpaired_list_fst:
  assumes "reg_wf s"
  shows "map fst (unpaired_list order s) = filter (\<lambda>k. k \<in> unpaired_ids s) order"
proof (induction order)
  case (Cons k ks)
  with assms show ?case
    by (cases "devices s k") (auto simp: unpaired_list_def map_filter_simps unpaired_ids_def reg_wf_def)
qed (simp add: unpaired_list_def map_filter_simps)

lemma unpaired_list_set:
  assumes "reg_wf s" and "order_ok order s"
  shows "set (map fst (unpaired_list order s)) = unpaired_ids s" "distinct (map fst (unpaired_list order s))"
    "length (unpaired_list order s) = card (unpaired_ids s)"
proof -
  note f = unpaired_list_fst [OF assms(1), of order]
  have "unpaired_ids s \<subseteq> dom (devices s)" by (auto simp: unpaired_ids_def)
  then show set: "set (map fst (unpaired_list order s)) = unpaired_ids s"
    unfolding f using assms(2) by auto
  show d: "distinct (map fst (unpaired_list order s))"
    unfolding f using assms(2) by simp
  show "length (unpaired_list order s) = card (unpaired_ids s)"
    using distinct_card [OF d] set by simp
qed

lemma unpaired_list_seen:
  assumes "reg_wf s" and "(k, t) \<in> set (unpaired_list order s)"
  shows "\<exists>d. devices s k = Some d \<and> dv_last_seen d = t"
  using assms by (auto simp: unpaired_list_def map_filter_def reg_wf_def)

lemma fold_remove:
  "fold (\<lambda>(k, _). hm_remove k) xs m = (\<lambda>k. if k \<in> set (map fst xs) then None else m k)"
  by (induction xs arbitrary: m) (auto simp: fun_eq_iff)

lemma sort_key_split:
  fixes f :: "'a \<Rightarrow> int"
  assumes "x \<in> set (take n (sort_key f xs))" and "y \<in> set (drop n (sort_key f xs))"
  shows "f x \<le> f y"
proof -
  have "sorted (map f (take n (sort_key f xs)) @ map f (drop n (sort_key f xs)))"
    by (metis append_take_drop_id map_append sorted_sort_key)
  with assms show ?thesis by (auto simp: sorted_append)
qed

text \<open>What eviction leaves, in one statement.\<close>

lemma enforce_cases:
  assumes "reg_wf s" and "order_ok order s"
  obtains (unchanged) "enforce_unpaired_cap order d s = devices s" "is_truly_paired s d \<or> card (unpaired_ids s) < 64"
  | (evicted) gone where "enforce_unpaired_cap order d s = (\<lambda>k. if k \<in> gone then None else devices s k)"
      "\<not> is_truly_paired s d" "gone \<subseteq> unpaired_ids s" "card (unpaired_ids s - gone) = 63"
      "\<And>k k' e e'. k \<in> gone \<Longrightarrow> k' \<in> unpaired_ids s - gone \<Longrightarrow> devices s k = Some e \<Longrightarrow> devices s k' = Some e'
        \<Longrightarrow> dv_last_seen e \<le> dv_last_seen e'"
proof (cases "is_truly_paired s d \<or> card (unpaired_ids s) < 64")
  case True
  then have "enforce_unpaired_cap order d s = devices s"
    using unpaired_list_set(3) [OF assms] unfolding enforce_unpaired_cap_def
    by (auto simp: Let_def MAX_UNPAIRED_DEVICES_def unpaired_list_def)
  with True show thesis by (rule unchanged [rotated])
next
  case False
  let ?u = "unpaired_list order s" and ?n = "card (unpaired_ids s) - 63"
  let ?sorted = "sort_key snd ?u"
  let ?gone = "set (map fst (take ?n ?sorted))"
  note u = unpaired_list_set [OF assms]
  have len: "64 \<le> card (unpaired_ids s)" using False by simp
  have n: "Suc (card (unpaired_ids s) - 64) = ?n" using len by simp
  have perm: "set (map fst ?sorted) = unpaired_ids s" "distinct (map fst ?sorted)" "length ?sorted = card (unpaired_ids s)"
    using u by (simp_all add: distinct_map)
  have parts: "set (map fst ?sorted) = ?gone \<union> set (map fst (drop ?n ?sorted))"
    "?gone \<inter> set (map fst (drop ?n ?sorted)) = {}" "distinct (map fst (drop ?n ?sorted))"
    using perm(2) by (metis append_take_drop_id map_append set_append distinct_append)+
  have rest: "unpaired_ids s - ?gone = set (map fst (drop ?n ?sorted))"
    using parts(1,2) perm(1) by blast
  have "enforce_unpaired_cap order d s = fold (\<lambda>(k, _). hm_remove k) (take ?n ?sorted) (devices s)"
    using False u(3) len n unfolding enforce_unpaired_cap_def
    by (simp add: Let_def MAX_UNPAIRED_DEVICES_def flip: unpaired_list_def)
  then have "enforce_unpaired_cap order d s = (\<lambda>k. if k \<in> ?gone then None else devices s k)"
    by (simp only: fold_remove)
  moreover have "?gone \<subseteq> unpaired_ids s"
    using parts(1) perm(1) by blast
  moreover have "card (unpaired_ids s - ?gone) = 63"
    using distinct_card [OF parts(3)] perm(3) len unfolding rest by simp
  moreover have "dv_last_seen e \<le> dv_last_seen e'"
    if h: "k \<in> ?gone" "k' \<in> unpaired_ids s - ?gone" "devices s k = Some e" "devices s k' = Some e'" for k k' e e'
  proof -
    obtain t t' where t: "(k, t) \<in> set (take ?n ?sorted)" "(k', t') \<in> set (drop ?n ?sorted)"
      using h(1,2) unfolding rest by auto
    then have "(k, t) \<in> set ?u" "(k', t') \<in> set ?u"
      by (metis in_set_takeD in_set_dropD set_sort)+
    with unpaired_list_seen [OF assms(1)] h(3,4) have "dv_last_seen e = t" "dv_last_seen e' = t'"
      by force+
    with sort_key_split [OF t] show ?thesis by simp
  qed
  ultimately show thesis
    using False by (intro evicted [of ?gone]) auto
qed

lemma save_reg_frame [simp]:
  "devices (save_if_persistent J s) = devices s" "paired (save_if_persistent J s) = paired s"
  "paired_wired (save_if_persistent J s) = paired_wired s" "sh_events (save_if_persistent J s) = sh_events s"
  "reg_path (save_if_persistent J s) = reg_path s"
  by (auto simp: save_if_persistent_def reg_save_def on_disk_def Let_def split: option.splits prod.splits)

lemma truly_paired_cong:
  "paired s' = paired s \<Longrightarrow> paired_wired s' = paired_wired s \<Longrightarrow> is_truly_paired s' d = is_truly_paired s d"
  by (simp add: is_truly_paired_def)

lemma upsert_new: "devices s (dv_id d) = None \<Longrightarrow> upsert_device J order now d s = add J order d s"
  by (simp add: upsert_device_def add_def domIff Let_def)

lemma add_devices:
  assumes "add J order d s = (Inr (), s')"
  shows "devices s' = (enforce_unpaired_cap order d s)(dv_id d \<mapsto> d)" "paired s' = paired s" "paired_wired s' = paired_wired s"
    "devices s (dv_id d) = None"
  using assms by (auto simp: add_def domIff split: if_splits)

text \<open>Unpaired records are bounded whatever happened before. After a record of an unpaired
  device is added there are at most 64 unpaired records, even if a mass unpairing had left
  more; truly paired devices are never evicted; the new record is there; and what was
  evicted had been seen no later than every unpaired record that stayed.\<close>

theorem add_bounds_unpaired:
  assumes "add J order d s = (Inr (), s')" and "\<not> is_truly_paired s d" and "reg_wf s"
    and "distinct order" and "set order = dom (devices s)"
  shows "card (unpaired_ids s') \<le> 64
    \<and> (\<forall>k e. devices s k = Some e \<and> is_truly_paired s e \<longrightarrow> devices s' k = Some e)
    \<and> devices s' (dv_id d) = Some d
    \<and> (\<forall>k k' e e'. devices s k = Some e \<and> devices s' k = None \<and> devices s k' = Some e' \<and> devices s' k' = Some e'
         \<and> \<not> is_truly_paired s e' \<longrightarrow> dv_last_seen e \<le> dv_last_seen e')"
proof -
  note a = add_devices [OF assms(1)]
  have tp: "is_truly_paired s' e = is_truly_paired s e" for e
    using truly_paired_cong [OF a(2,3)] .
  have fin: "finite (unpaired_ids s)"
    by (rule finite_subset [of _ "dom (devices s)"]) (use assms(3) in \<open>auto simp: unpaired_ids_def reg_wf_def\<close>)
  show ?thesis
  proof (cases rule: enforce_cases [OF assms(3) conjI [OF assms(4,5)], of d, case_names unchanged evicted])
    case unchanged
    then have "unpaired_ids s' = insert (dv_id d) (unpaired_ids s)" and lt: "card (unpaired_ids s) < 64"
      using a assms(2) by (auto simp: unpaired_ids_def tp)
    then have "card (unpaired_ids s') \<le> 64"
      using fin by (simp add: card_insert_if)
    with unchanged a show ?thesis by auto
  next
    case (evicted gone)
    have u: "unpaired_ids s' = insert (dv_id d) (unpaired_ids s - gone)"
      using a assms(2) evicted(1) by (auto simp: unpaired_ids_def tp)
    have "card (unpaired_ids s') \<le> Suc (card (unpaired_ids s - gone))"
      unfolding u using fin by (simp add: card_insert_if)
    then have "card (unpaired_ids s') \<le> 64" using evicted(4) by simp
    moreover have "\<forall>k e. devices s k = Some e \<and> is_truly_paired s e \<longrightarrow> devices s' k = Some e"
      using evicted(1,3) a(1,4) by (auto simp: unpaired_ids_def)
    moreover have "dv_last_seen e \<le> dv_last_seen e'"
      if "devices s k = Some e" "devices s' k = None" "devices s k' = Some e'" "devices s' k' = Some e'" "\<not> is_truly_paired s e'"
      for k k' e e'
    proof (rule evicted(5) [OF _ _ that(1,3)])
      show "k \<in> gone" using that(1,2) a(1) evicted(1) by (auto split: if_splits)
      show "k' \<in> unpaired_ids s - gone"
        using that(3,4,5) a(1,4) evicted(1) by (auto simp: unpaired_ids_def split: if_splits)
    qed
    ultimately show ?thesis using a(1) by auto
  qed
qed

definition demo_registry :: registry where
  "demo_registry = pairing_handler.extend demo_handler \<lparr>devices = Map.empty, reg_path = None, paired_wired = True\<rparr>"

lemma demo_registry_simps [simp]:
  "devices demo_registry = Map.empty" "reg_path demo_registry = None" "paired_wired demo_registry = True"
  "paired demo_registry = Map.empty" "sh_events demo_registry = []"
  by (simp_all add: demo_registry_def pairing_handler.extend_def demo_handler_def new_handler_def)

definition demo_device :: device where
  "demo_device = new_device 0 demo_id ''phone'' Phone 8"

definition demo_json :: devices_json where
  "demo_json = \<lparr>devices_print = (\<lambda>_. ''{}''), devices_parse = (\<lambda>_. Some Map.empty)\<rparr>"

theorem add_bounds_unpaired_witness:
  "card (unpaired_ids (snd (add demo_json [] demo_device demo_registry))) \<le> 64
     \<and> devices (snd (add demo_json [] demo_device demo_registry)) (dv_id demo_device) = Some demo_device"
proof -
  have "add demo_json [] demo_device demo_registry = (Inr (), snd (add demo_json [] demo_device demo_registry))"
    by (simp add: add_def)
  moreover have "\<not> is_truly_paired demo_registry demo_device" "reg_wf demo_registry"
    by (simp_all add: is_truly_paired_def reg_wf_def)
  ultimately show ?thesis
    using add_bounds_unpaired [of demo_json "[]" demo_device demo_registry] by simp
qed

section \<open>Well-formedness\<close>

lemma enforce_sub: "reg_wf s \<Longrightarrow> order_ok order s \<Longrightarrow> enforce_unpaired_cap order d s k = Some e \<Longrightarrow> devices s k = Some e"
  by (erule enforce_cases [of s order d]) (auto split: if_splits)

lemma wf_devices: "reg_wf s \<Longrightarrow> dom m \<subseteq> insert k (dom (devices s)) \<Longrightarrow> (\<And>j d. m j = Some d \<Longrightarrow> dv_id d = j)
    \<Longrightarrow> reg_wf (s\<lparr>devices := m\<rparr>)"
  by (auto simp: reg_wf_def intro: finite_subset)

lemma wf_cong: "devices s' = devices s \<Longrightarrow> reg_wf s' = reg_wf s"
  by (simp add: reg_wf_def)

lemma wf_save [simp]: "reg_wf (save_if_persistent J s) = reg_wf s"
  by (rule wf_cong) simp

lemma add_wf:
  assumes "reg_wf s" and "order_ok order s"
  shows "reg_wf (s\<lparr>devices := (enforce_unpaired_cap order d s)(dv_id d \<mapsto> d)\<rparr>)"
proof (rule wf_devices [OF assms(1), of _ "dv_id d"])
  show "dom ((enforce_unpaired_cap order d s)(dv_id d \<mapsto> d)) \<subseteq> insert (dv_id d) (dom (devices s))"
    using enforce_sub [OF assms] by auto
  show "((enforce_unpaired_cap order d s)(dv_id d \<mapsto> d)) j = Some e \<Longrightarrow> dv_id e = j" for j e
    using enforce_sub [OF assms] assms(1) by (auto simp: reg_wf_def split: if_splits)
qed

lemma refresh_id [simp]: "dv_id (refresh_identity d now e) = dv_id e" "dv_state (refresh_identity d now e) = dv_state e"
  "dv_paired_at (refresh_identity d now e) = dv_paired_at e" "dv_state_since (refresh_identity d now e) = dv_state_since e"
  by (simp_all add: refresh_identity_def Let_def apply_capability_update_def update_last_seen_def)

lemma upsert_wf:
  assumes "upsert_device J order now d s = (r, s')" and "reg_wf s" and "order_ok order s"
  shows "reg_wf s'"
proof (cases "devices s (dv_id d)")
  case None
  with assms add_wf [OF assms(2,3)] show ?thesis by (auto simp: upsert_device_def Let_def)
next
  case (Some e)
  then have "dv_id e = dv_id d" using assms(2) by (auto simp: reg_wf_def)
  then have "reg_wf (s\<lparr>devices := (devices s)(dv_id d \<mapsto> refresh_identity d now e)\<rparr>)"
    using assms(2) by (auto simp: reg_wf_def)
  with Some assms(1) show ?thesis by (auto simp: upsert_device_def Let_def)
qed

lemma modify_wf:
  assumes "modify did f s = (r, s')" and "reg_wf s"
  shows "reg_wf s'"
  using assms by (auto simp: modify_def Let_def reg_wf_def split: option.splits prod.splits if_splits)

lemma modify_effect:
  assumes "modify did f s = (r, s')"
  shows "k \<noteq> did \<Longrightarrow> devices s' k = devices s k" "sh_events s' = sh_events s" "paired s' = paired s"
    "s' = s\<lparr>devices := devices s'\<rparr>"
  using assms by (auto simp: modify_def Let_def split: option.splits prod.splits if_splits)

section \<open>State changes\<close>

definition moved :: "device_state \<Rightarrow> clock \<Rightarrow> device \<Rightarrow> device" where
  "moved st clk d =
     (let d2 = d\<lparr>dv_state := st, dv_state_since := clk 0, dv_last_seen := clk 1\<rparr>
      in if st = device_state.Paired then d2\<lparr>dv_paired_at := Some (clk 2)\<rparr> else d2)"

lemma transition_run:
  "transition did st clk s =
     (case devices s did of
        None \<Rightarrow> (Inl (DeviceNotFound did), s)
      | Some d \<Rightarrow>
          if dv_state d = st then (Inr (), s\<lparr>devices := (devices s)(did \<mapsto> d)\<rparr>)
          else if \<not> can_transition_to (dv_state d) st
            then (Inl (InvalidStateTransition (dv_state d) st), s\<lparr>devices := (devices s)(did \<mapsto> d)\<rparr>)
          else (Inr (), broadcast (EvStateChanged did (dv_state d) st) (s\<lparr>devices := (devices s)(did \<mapsto> moved st clk d)\<rparr>)))"
  by (auto simp: transition_def modify_def sbind_def Let_def sreturn_def moved_def update_last_seen_def split: option.splits)

text \<open>A state change either follows the table or changes nothing: on success the record is in
  the requested state, and exactly one event was sent when it was not there before, none
  otherwise; on failure the registry and the event bus are as they were. No other record
  changes.\<close>

theorem transition_correct:
  assumes "transition did st clk s = (r, s')"
  shows "(r = Inr () \<longrightarrow> (\<exists>d d'. devices s did = Some d \<and> devices s' did = Some d' \<and> dv_state d' = st
            \<and> (dv_state d = st \<or> can_transition_to (dv_state d) st)
            \<and> sh_events s' = sh_events s @ (if dv_state d = st then [] else [EvStateChanged did (dv_state d) st])))
    \<and> (is_err r \<longrightarrow> devices s' = devices s \<and> sh_events s' = sh_events s)
    \<and> (\<forall>k. k \<noteq> did \<longrightarrow> devices s' k = devices s k)"
proof (cases "devices s did")
  case None
  with assms show ?thesis by (auto simp: transition_run)
next
  case (Some d)
  have same: "(devices s)(did \<mapsto> d) = devices s"
    using Some by (simp add: fun_upd_idem)
  have "dv_state (moved st clk d) = st"
    by (simp add: moved_def Let_def)
  with Some assms same show ?thesis
    by (auto simp: transition_run broadcast_def split: if_splits)
qed

theorem transition_correct_witness:
  "(let s = demo_registry\<lparr>devices := [demo_id \<mapsto> demo_device]\<rparr>;
        (r, s') = transition demo_id device_state.Connected (\<lambda>_. 5) s
    in r = Inr () \<and> sh_events s' = [EvStateChanged demo_id device_state.Discovered device_state.Connected])"
proof -
  let ?s = "demo_registry\<lparr>devices := [demo_id \<mapsto> demo_device]\<rparr>"
  obtain r s' where t: "transition demo_id device_state.Connected (\<lambda>_. 5) ?s = (r, s')" by fastforce
  have d: "dv_state demo_device = device_state.Discovered"
    by (simp add: demo_device_def new_device_def)
  have "r = Inr ()"
    using t by (auto simp: transition_run d can_transition_to_def split: if_splits)
  with transition_correct [OF t] show ?thesis
    by (auto simp: t d)
qed

text \<open>A device that has just completed a handshake can always be shown as connected: from any
  registry state \<open>ensure_and_transition\<close> to \<open>Connected\<close> succeeds, and the record then is
  connected, carries the identity's name and keeps learned capabilities when the new
  identity lists none.\<close>

theorem ensure_connected_succeeds:
  assumes "reg_wf s" and "distinct order" and "set order = dom (devices s)"
  shows "\<exists>s' d. ensure_and_transition E J order did i device_state.Connected clk s = (Inr (), s')
    \<and> devices s' did = Some d \<and> dv_state d = device_state.Connected \<and> dv_name d = device_name i
    \<and> (\<forall>old. devices s did = Some old \<and> (incoming_capabilities i = [] \<or> outgoing_capabilities i = [])
          \<longrightarrow> dv_incoming d = dv_incoming old \<and> dv_outgoing d = dv_outgoing old)"
proof -
  have to: "a = device_state.Connected \<or> can_transition_to a device_state.Connected" for a
    by (cases a) (simp_all add: can_transition_to_def)
  have mv: "dv_state (moved device_state.Connected c d) = device_state.Connected"
    "dv_name (moved device_state.Connected c d) = dv_name d"
    "dv_incoming (moved device_state.Connected c d) = dv_incoming d"
    "dv_outgoing (moved device_state.Connected c d) = dv_outgoing d" for c d
    by (simp_all add: moved_def Let_def)
  show ?thesis
  proof (cases "devices s did")
    case None
    let ?d = "with_capabilities (incoming_capabilities i) (outgoing_capabilities i)
                   (new_device (clk 0) did (device_name i) (parse_device_type E (device_type i)) (protocol_version i))"
    have id: "dv_id ?d = did" "dv_state ?d = device_state.Discovered" "dv_name ?d = device_name i"
      by (simp_all add: with_capabilities_def new_device_def)
    let ?s1 = "save_if_persistent J (s\<lparr>devices := (enforce_unpaired_cap order ?d s)(did \<mapsto> ?d)\<rparr>)"
    have "ensure_registered E J order did i clk s = (Inr True, ?s1)"
      using None id by (simp add: ensure_registered_def contains_def add_def domIff Let_def)
    then show ?thesis
      using None id to [of device_state.Discovered]
      by (simp add: ensure_and_transition_def sbind_def sreturn_def transition_run broadcast_def mv)
  next
    case (Some e)
    let ?e = "update_last_seen (clk 0) (apply_capability_update (incoming_capabilities i) (outgoing_capabilities i)
        (e\<lparr>dv_name := device_name i, dv_type := parse_device_type E (device_type i), dv_protocol_version := protocol_version i\<rparr>))"
    have e: "dv_id ?e = dv_id e" "dv_name ?e = device_name i" "dv_state ?e = dv_state e"
      "incoming_capabilities i = [] \<or> outgoing_capabilities i = [] \<Longrightarrow> dv_incoming ?e = dv_incoming e \<and> dv_outgoing ?e = dv_outgoing e"
      by (auto simp: update_last_seen_def apply_capability_update_def)
    have "ensure_registered E J order did i clk s = (Inr False, s\<lparr>devices := (devices s)(did \<mapsto> ?e)\<rparr>)"
      using Some e(1) by (simp add: ensure_registered_def contains_def domIff modify_def Let_def sbind_def sreturn_def)
    then show ?thesis
      using Some to [of "dv_state e"] e
      by (auto simp: ensure_and_transition_def sbind_def sreturn_def transition_run broadcast_def mv)
  qed
qed

theorem ensure_connected_succeeds_witness:
  "\<exists>s' d. ensure_and_transition demo_externals demo_json [] demo_id demo_identity device_state.Connected (\<lambda>_. 5) demo_registry = (Inr (), s')
     \<and> devices s' demo_id = Some d \<and> dv_state d = device_state.Connected"
  using ensure_connected_succeeds [of demo_registry "[]" demo_externals demo_json demo_id demo_identity "\<lambda>_. 5"]
  by (auto simp: reg_wf_def)

section \<open>Pruning\<close>

text \<open>Pruning at start-up removes exactly the stale records: a record survives if and only if
  the pairing store knows its id, it is connected, or it was seen within thirty days; the
  reported ids are the removed ones.\<close>

theorem prune_exact:
  assumes "prune_stale_devices J order ids now s = (pruned, s')" and "set order = dom (devices s)"
  shows "(\<forall>k. devices s' k = (case devices s k of
              Some d \<Rightarrow> if k \<in> ids \<or> dv_state d = device_state.Connected \<or> now - 30 * 86400 * 1000000000 \<le> dv_last_seen d
                       then Some d else None
            | None \<Rightarrow> None))
    \<and> set pruned = dom (devices s) - dom (devices s')"
proof -
  let ?keep = "keep_device ids (now - days STALE_DEVICE_TTL_DAYS)"
  have d': "devices s' = hm_retain ?keep (devices s)"
    using assms(1) by (auto simp: prune_stale_devices_def Let_def split: if_splits)
  have p: "pruned = filter (\<lambda>k. case devices s k of Some d \<Rightarrow> \<not> ?keep k d | None \<Rightarrow> False) order"
    using assms(1) by (auto simp: prune_stale_devices_def Let_def)
  have "set pruned = dom (devices s) - dom (devices s')"
    unfolding p d' using assms(2) by (auto simp: dom_hm_retain split: option.splits)
  moreover have "?keep k d \<longleftrightarrow> k \<in> ids \<or> dv_state d = device_state.Connected \<or> now - 30 * 86400 * 1000000000 \<le> dv_last_seen d" for k d
    by (simp add: keep_device_def device_is_connected_def days_def secs_def STALE_DEVICE_TTL_DAYS_def)
  ultimately show ?thesis
    by (simp add: d' hm_retain_def cong: option.case_cong)
qed

theorem prune_exact_witness:
  "(let s = demo_registry\<lparr>devices := [demo_id \<mapsto> demo_device]\<rparr>;
        (pruned, s') = prune_stale_devices demo_json [demo_id] {} (31 * 86400 * 1000000000) s
    in set pruned = {demo_id} \<and> devices s' demo_id = None)"
proof -
  let ?s = "demo_registry\<lparr>devices := [demo_id \<mapsto> demo_device]\<rparr>"
  obtain pruned s' where t: "prune_stale_devices demo_json [demo_id] {} (31 * 86400 * 1000000000) ?s = (pruned, s')" by fastforce
  have d: "dv_state demo_device = device_state.Discovered" "dv_last_seen demo_device = 0"
    by (simp_all add: demo_device_def new_device_def)
  have n: "devices s' demo_id = None" and "set pruned = {demo_id} - dom (devices s')"
    using prune_exact [OF t] by (simp_all add: d)
  then have "set pruned = {demo_id}"
    by (auto simp: domIff)
  with n show ?thesis unfolding Let_def t by simp
qed

section \<open>The registry as a state machine\<close>

inductive registry_step :: "devices_json \<Rightarrow> 'z registry_scheme \<Rightarrow> 'z registry_scheme \<Rightarrow> bool" for J where
  upsert: "order_ok order s \<Longrightarrow> upsert_device J order now d s = (r, s') \<Longrightarrow> registry_step J s s'"
| added: "order_ok order s \<Longrightarrow> add J order d s = (r, s') \<Longrightarrow> registry_step J s s'"
| removed: "reg_remove J did s = (r, s') \<Longrightarrow> registry_step J s s'"
| modified: "modify did f s = ((r :: unit res), s') \<Longrightarrow> registry_step J s s'"
| updated: "update d s = (r, s') \<Longrightarrow> registry_step J s s'"
| pruned: "prune_stale_devices J order ids now s = (ks, s') \<Longrightarrow> registry_step J s s'"
| changed: "transition did st clk s = (r, s') \<Longrightarrow> registry_step J s s'"

inductive_cases registry_stepE: "registry_step J s s'"

lemma transition_wf: "transition did st clk s = (r, s') \<Longrightarrow> reg_wf s \<Longrightarrow> reg_wf s'"
  by (auto simp: transition_run reg_wf_def broadcast_def moved_def Let_def split: option.splits if_splits)

lemma other_ops_wf:
  "add J order d s = (r, s') \<Longrightarrow> order_ok order s \<Longrightarrow> reg_wf s \<Longrightarrow> reg_wf s'"
  "prune_stale_devices J order ids now s = (ks, s') \<Longrightarrow> reg_wf s \<Longrightarrow> reg_wf s'"
  "reg_remove J did s = (r', s') \<Longrightarrow> reg_wf s \<Longrightarrow> reg_wf s'"
  "update d s = (r, s') \<Longrightarrow> reg_wf s \<Longrightarrow> reg_wf s'"
proof -
  show "add J order d s = (r, s') \<Longrightarrow> order_ok order s \<Longrightarrow> reg_wf s \<Longrightarrow> reg_wf s'"
    using add_wf [of s order d] by (auto simp: add_def split: if_splits)
  show "prune_stale_devices J order ids now s = (ks, s') \<Longrightarrow> reg_wf s \<Longrightarrow> reg_wf s'"
    by (auto simp: prune_stale_devices_def Let_def reg_wf_def hm_retain_Some_iff split: if_splits)
  show "reg_remove J did s = (r', s') \<Longrightarrow> reg_wf s \<Longrightarrow> reg_wf s'"
    by (auto simp: reg_remove_def reg_wf_def split: option.splits if_splits)
  show "update d s = (r, s') \<Longrightarrow> reg_wf s \<Longrightarrow> reg_wf s'"
    by (auto simp: update_def reg_wf_def split: if_splits)
qed

lemma registry_step_wf: "registry_step J s s' \<Longrightarrow> reg_wf s \<Longrightarrow> reg_wf s'"
  by (erule registry_stepE) (blast intro: upsert_wf modify_wf transition_wf other_ops_wf)+

interpretation registry_machine: machine "registry_step J" reg_wf for J
  by unfold_locales (rule registry_step_wf)

text \<open>
  Hence a record is always found under its own id, however the registry was used.
\<close>

lemma registry_keys:
  assumes "reach (registry_step J) s0 s" and "devices s0 = Map.empty" and "devices s k = Some d"
  shows "dv_id d = k"
  using registry_machine.reach_inv [OF assms(1)] assms(2,3) by (simp add: reg_wf_def)

end
