(* ===== verification/Framing.thy ===== *)
theory Framing
  imports Identity
begin

text \<open>
  Reading newline-framed packets from a socket (\<open>read_line_bounded\<close>, \<open>read_steady_line\<close>
  and the loop of \<open>recv_packet_inner\<close> in \<open>src/protocol/connection/mod.rs\<close>).

  What a socket will deliver is a list of events: a chunk of bytes as \<open>fill_buf\<close> exposes it,
  a read error, or a stall, which stands for no further byte arriving before the caller's
  deadline. The end of the list is the end of the stream, and so is an empty chunk. An abstract reader on the bytes
  alone says what the program should see; the chunked readers refine it.
\<close>

section \<open>The readers\<close>

datatype rd = Chunk string | RdErr | Stall

datatype 'a timed = TimedOut | Finished "'a res"

definition MAX_PACKET_SIZE :: nat where "MAX_PACKET_SIZE = 524288"
definition MAX_STEADY_PACKET_SIZE :: nat where "MAX_STEADY_PACKET_SIZE = 32 * 1024 * 1024"

text \<open>The available bytes up to and including the first newline, what follows them, and
  whether there was a newline.\<close>

fun cut_line :: "string \<Rightarrow> string \<times> string \<times> bool" where
  "cut_line [] = ([], [], False)"
| "cut_line (c # cs) =
     (if c = newline then ([c], cs, True)
      else (let (l, r, nl) = cut_line cs in (c # l, r, nl)))"

text \<open>Consuming part of a chunk leaves the rest of it for the next \<open>fill_buf\<close>.\<close>

definition unread :: "string \<Rightarrow> rd list \<Rightarrow> rd list" where
  "unread rest inp = (if rest = [] then inp else Chunk rest # inp)"

fun read_line_bounded :: "nat \<Rightarrow> nat \<Rightarrow> string \<Rightarrow> rd list \<Rightarrow> nat timed \<times> string \<times> rd list" where
  "read_line_bounded max_len start buf [] = (Finished (Inr (length buf - start)), buf, [])"
| "read_line_bounded max_len start buf (Stall # inp) = (TimedOut, buf, inp)"
| "read_line_bounded max_len start buf (RdErr # inp) = (Finished (Inl (Io ''read'')), buf, inp)"
| "read_line_bounded max_len start buf (Chunk c # inp) =
     (let (l, rest, newline_at) = cut_line c in
      if c = [] then (Finished (Inr (length buf - start)), buf, Chunk c # inp)
      else if max_len < length buf + length l then
        (Finished (Inl (PacketTooLarge (length buf + length l) max_len)), buf, Chunk c # inp)
      else if newline_at then (Finished (Inr (length (buf @ l) - start)), buf @ l, unread rest inp)
      else read_line_bounded max_len start (buf @ l) inp)"

datatype steady_line = Line nat | OversizeSkipped | Eof

definition steady_end :: "nat \<Rightarrow> bool \<Rightarrow> string \<Rightarrow> steady_line" where
  "steady_end start discarding buf =
     (if discarding then Eof else if length buf = start then Eof else Line (length buf - start))"

fun read_steady :: "nat \<Rightarrow> nat \<Rightarrow> bool \<Rightarrow> string \<Rightarrow> rd list \<Rightarrow> steady_line timed \<times> string \<times> rd list" where
  "read_steady max_len start discarding buf [] =
     (Finished (Inr (steady_end start discarding buf)), buf, [])"
| "read_steady max_len start discarding buf (Stall # inp) = (TimedOut, buf, inp)"
| "read_steady max_len start discarding buf (RdErr # inp) = (Finished (Inl (Io ''read'')), buf, inp)"
| "read_steady max_len start discarding buf (Chunk c # inp) =
     (let (l, rest, newline_at) = cut_line c in
      if c = [] then (Finished (Inr (steady_end start discarding buf)), buf, Chunk c # inp)
      else if discarding then
        (if newline_at then (Finished (Inr OversizeSkipped), buf, unread rest inp)
         else read_steady max_len start True buf inp)
      else if max_len < length buf + length l then
        (if newline_at then (Finished (Inr OversizeSkipped), take start buf, unread rest inp)
         else read_steady max_len start True (take start buf) inp)
      else if newline_at then (Finished (Inr (Line (length (buf @ l) - start))), buf @ l, unread rest inp)
      else read_steady max_len start False (buf @ l) inp)"

definition read_steady_line :: "nat \<Rightarrow> string \<Rightarrow> rd list \<Rightarrow> steady_line timed \<times> string \<times> rd list" where
  "read_steady_line max_len buf inp = read_steady max_len (length buf) False buf inp"

section \<open>Lines and chunks\<close>

lemma cut_line_append: "cut_line c = (l, r, nl) \<Longrightarrow> c = l @ r"
  by (induction c arbitrary: l r nl) (auto split: if_splits prod.splits)

lemma cut_line_found: "cut_line c = (l, r, True) \<Longrightarrow> \<exists>p. l = p @ [newline] \<and> newline \<notin> set p"
proof (induction c arbitrary: l)
  case (Cons x xs)
  show ?case
  proof (cases "x = newline")
    case True
    with Cons.prems show ?thesis by (intro exI [of _ "[]"]) auto
  next
    case False
    with Cons.prems obtain l' where l: "l = x # l'" and "cut_line xs = (l', r, True)"
      by (auto split: prod.splits)
    with Cons.IH obtain p where "l' = p @ [newline]" "newline \<notin> set p" by blast
    with False l show ?thesis by (intro exI [of _ "x # p"]) auto
  qed
qed simp

lemma cut_line_missing: "cut_line c = (l, r, False) \<Longrightarrow> l = c \<and> r = [] \<and> newline \<notin> set c"
  by (induction c arbitrary: l) (auto split: if_splits prod.splits)

lemma cut_line_missing_iff: "newline \<notin> set c \<Longrightarrow> cut_line c = (c, [], False)"
  by (induction c) auto

lemma cut_line_line: "newline \<notin> set p \<Longrightarrow> cut_line (p @ newline # r) = (p @ [newline], r, True)"
  by (induction p) auto

lemma cut_line_pos: "cut_line c = (l, r, True) \<Longrightarrow> l \<noteq> []"
  by (drule cut_line_found) auto

section \<open>The abstract reader\<close>

text \<open>
  On a stream of bytes the next frame is the next line: too long a line is skipped whole, an
  unterminated rest is a frame of its own unless it is too long or empty.
\<close>

definition steady_spec :: "nat \<Rightarrow> string \<Rightarrow> steady_line \<times> string \<times> string" where
  "steady_spec max_len bs =
     (let (l, rest, nl) = cut_line bs in
      if nl then (if length l \<le> max_len then (Line (length l), l, rest) else (OversizeSkipped, [], rest))
      else if bs = [] \<or> max_len < length bs then (Eof, [], [])
      else (Line (length bs), bs, []))"

definition chunk_bytes :: "rd list \<Rightarrow> string" where
  "chunk_bytes inp = concat (map (\<lambda>e. case e of Chunk c \<Rightarrow> c | _ \<Rightarrow> []) inp)"

abbreviation only_chunks :: "rd list \<Rightarrow> bool" where
  "only_chunks inp \<equiv> list_all (\<lambda>e. case e of Chunk c \<Rightarrow> c \<noteq> [] | _ \<Rightarrow> False) inp"

lemma chunk_bytes_simps [simp]:
  "chunk_bytes [] = []" "chunk_bytes (Chunk c # inp) = c @ chunk_bytes inp"
  "chunk_bytes (unread r inp) = r @ chunk_bytes inp" "chunk_bytes (Stall # inp) = chunk_bytes inp"
  "chunk_bytes (RdErr # inp) = chunk_bytes inp"
  by (simp_all add: chunk_bytes_def unread_def)

lemma only_chunks_unread [simp]: "only_chunks (unread r inp) = only_chunks inp"
  by (simp add: unread_def)

lemma cut_line_append_missing:
  "newline \<notin> set c \<Longrightarrow> cut_line (c @ bs) = (let (l, r, nl) = cut_line bs in (c @ l, r, nl))"
  by (induction c) (auto split: prod.splits)

lemma cut_line_append_found:
  "cut_line c = (l, r, True) \<Longrightarrow> cut_line (c @ bs) = (l, r @ bs, True)"
  by (induction c arbitrary: l) (auto split: if_splits prod.splits)

lemma read_steady_discarding:
  assumes "only_chunks inp"
  shows "\<exists>inp'. read_steady max_len start True buf inp =
      (Finished (Inr (if snd (snd (cut_line (chunk_bytes inp))) then OversizeSkipped else Eof)), buf, inp')
    \<and> chunk_bytes inp' = fst (snd (cut_line (chunk_bytes inp))) \<and> only_chunks inp'"
  using assms
proof (induction inp)
  case (Cons e inp)
  then obtain c where e: "e = Chunk c" and ne: "c \<noteq> []" by (cases e) auto
  obtain l r nl where c: "cut_line c = (l, r, nl)" by (metis prod_cases3)
  show ?case
  proof (cases nl)
    case True
    with c have "cut_line (c @ chunk_bytes inp) = (l, r @ chunk_bytes inp, True)"
      by (simp add: cut_line_append_found)
    with True c e ne Cons.prems show ?thesis by simp
  next
    case False
    with c have "cut_line (c @ chunk_bytes inp) = (let (l, r, nl) = cut_line (chunk_bytes inp) in (c @ l, r, nl))"
      using cut_line_missing [of c l r] by (intro cut_line_append_missing) simp
    with False c e ne Cons show ?thesis by (auto simp: Let_def split: prod.splits)
  qed
qed (simp add: steady_end_def)

text \<open>The chunked reader refines the abstract one.\<close>

lemma read_steady_refines:
  assumes "only_chunks inp" and "newline \<notin> set buf" and "length buf \<le> max_len"
  shows "\<exists>inp'. read_steady max_len 0 False buf inp =
      (Finished (Inr (fst (steady_spec max_len (buf @ chunk_bytes inp)))),
       fst (snd (steady_spec max_len (buf @ chunk_bytes inp))), inp')
    \<and> chunk_bytes inp' = snd (snd (steady_spec max_len (buf @ chunk_bytes inp))) \<and> only_chunks inp'"
  using assms
proof (induction inp arbitrary: buf)
  case Nil
  then show ?case by (simp add: steady_spec_def steady_end_def cut_line_missing_iff)
next
  case (Cons e inp)
  then obtain c where e: "e = Chunk c" and ne: "c \<noteq> []" by (cases e) auto
  obtain l r nl where c: "cut_line c = (l, r, nl)" by (metis prod_cases3)
  have cb: "cut_line (buf @ c @ bs) = (let (l, r, nl) = cut_line (c @ bs) in (buf @ l, r, nl))" for bs
    using Cons.prems(2) by (rule cut_line_append_missing)
  show ?case
  proof (cases nl)
    case True
    with c have "cut_line (c @ chunk_bytes inp) = (l, r @ chunk_bytes inp, True)"
      by (simp add: cut_line_append_found)
    with True c e ne Cons.prems show ?thesis
      by (simp add: steady_spec_def cb Let_def)
  next
    case False
    then have lc: "l = c" "newline \<notin> set c" using cut_line_missing c by auto
    show ?thesis
    proof (cases "length buf + length c \<le> max_len")
      case True
      from Cons.IH [of "buf @ c"] True lc Cons.prems e ne False c show ?thesis
        by (simp add: Let_def)
    next
      case big: False
      obtain l' r' nl' where b: "cut_line (chunk_bytes inp) = (l', r', nl')" by (metis prod_cases3)
      have "cut_line (c @ chunk_bytes inp) = (c @ l', r', nl')"
        using cut_line_append_missing [OF lc(2)] b by simp
      then have cl: "cut_line (buf @ c @ chunk_bytes inp) = (buf @ c @ l', r', nl')" by (simp add: cb)
      from read_steady_discarding [of inp max_len 0 "[]"] Cons.prems b obtain inp' where
        rd: "read_steady max_len 0 True [] inp = (Finished (Inr (if nl' then OversizeSkipped else Eof)), [], inp')"
        and rest: "chunk_bytes inp' = r'" "only_chunks inp'" by auto
      from e ne False c lc big have "read_steady max_len 0 False buf (e # inp) = read_steady max_len 0 True [] inp"
        by simp
      moreover have "r' = []" if "\<not> nl'" using cut_line_missing [of "chunk_bytes inp" l' r'] b that by simp
      ultimately show ?thesis
        using rd rest cl e big by (cases nl') (auto simp: steady_spec_def)
    qed
  qed
qed


section \<open>The receive loop\<close>

text \<open>
  \<open>recv_packet_inner\<close> reads until a line that is not blank: oversized lines were already
  skipped, blank ones are passed over, and a read that stalls for 30 seconds, ends or fails
  ends the call. The line under construction belongs to the call and is dropped with it.
\<close>

definition is_ascii_whitespace :: "char \<Rightarrow> bool" where
  "is_ascii_whitespace c \<longleftrightarrow> c \<in> {CHR 0x20, CHR 0x09, CHR 0x0A, CHR 0x0C, CHR 0x0D}"

datatype next_line = GotLine string | RecvTimeout | RecvClosed | RecvFailed error

definition rd_size :: "rd list \<Rightarrow> nat" where
  "rd_size inp = sum_list (map (\<lambda>e. case e of Chunk c \<Rightarrow> Suc (length c) | _ \<Rightarrow> 1) inp)"

lemma rd_size_simps [simp]:
  "rd_size [] = 0" "rd_size (Chunk c # inp) = Suc (length c) + rd_size inp"
  "rd_size (Stall # inp) = Suc (rd_size inp)" "rd_size (RdErr # inp) = Suc (rd_size inp)"
  by (simp_all add: rd_size_def)

lemma rd_size_unread: "cut_line c = (l, r, True) \<Longrightarrow> rd_size (unread r inp) < Suc (length c) + rd_size inp"
  using cut_line_append [of c l r True] cut_line_pos [of c l r] by (auto simp: unread_def)

lemma read_steady_shrinks:
  assumes "read_steady max_len start d buf inp = (Finished (Inr x), buf', inp')"
  shows "rd_size inp' < rd_size inp \<or> (inp' = inp \<and> x = steady_end start d buf)"
  using assms
proof (induction inp arbitrary: d buf)
  case (Cons e inp)
  show ?case
  proof (cases e)
    case (Chunk c)
    obtain l r nl where c: "cut_line c = (l, r, nl)" by (metis prod_cases3)
    show ?thesis
    proof (cases "nl \<and> c \<noteq> []")
      case True
      with Cons.prems Chunk c rd_size_unread [of c l r inp] show ?thesis by (auto split: if_splits)
    next
      case False
      then have "rd_size inp' < rd_size inp \<or> inp' = inp" if "c \<noteq> []"
        using Cons Chunk c that by (fastforce split: if_splits)
      with False Cons.prems Chunk c show ?thesis by (cases "c = []") auto
    qed
  qed (use Cons.prems in auto)
qed auto

function recv_line :: "nat \<Rightarrow> rd list \<Rightarrow> next_line \<times> rd list" where
  "recv_line max_len inp =
     (case read_steady_line max_len [] inp of
        (TimedOut, _, inp') \<Rightarrow> (RecvTimeout, inp')
      | (Finished (Inl e), _, inp') \<Rightarrow> (RecvFailed e, inp')
      | (Finished (Inr Eof), _, inp') \<Rightarrow> (RecvClosed, inp')
      | (Finished (Inr OversizeSkipped), _, inp') \<Rightarrow> recv_line max_len inp'
      | (Finished (Inr (Line n)), line, inp') \<Rightarrow>
          if list_all is_ascii_whitespace line then recv_line max_len inp' else (GotLine line, inp'))"
  by pat_completeness auto
termination
  by (relation "measure (\<lambda>(_, inp). rd_size inp)")
     (auto simp: read_steady_line_def steady_end_def dest!: read_steady_shrinks [OF sym])

declare recv_line.simps [simp del]

text \<open>
  The contract of a line reader that the receive loop relies on: on a stream without errors
  and stalls it sees the bytes and not their chunks, and hands out the next line of the
  bytes. Whatever is proved of the bytes then holds of every chunking.
\<close>

locale line_reader =
  fixes read_next :: "rd list \<Rightarrow> steady_line timed \<times> string \<times> rd list"
    and spec :: "string \<Rightarrow> steady_line \<times> string \<times> string"
  assumes refines: "only_chunks inp \<Longrightarrow>
      \<exists>inp'. read_next inp = (Finished (Inr (fst (spec (chunk_bytes inp)))), fst (snd (spec (chunk_bytes inp))), inp')
        \<and> chunk_bytes inp' = snd (snd (spec (chunk_bytes inp))) \<and> only_chunks inp'"
begin

lemma chunking_invisible:
  assumes "only_chunks a" and "only_chunks b" and "chunk_bytes a = chunk_bytes b"
  shows "fst (read_next a) = fst (read_next b) \<and> fst (snd (read_next a)) = fst (snd (read_next b))
    \<and> chunk_bytes (snd (snd (read_next a))) = chunk_bytes (snd (snd (read_next b)))"
  using refines [OF assms(1)] refines [OF assms(2)] assms(3) by auto

lemma frame_read:
  assumes "only_chunks inp" and "chunk_bytes inp = bs" and "spec bs = (x, line, rest)"
  obtains inp' where "read_next inp = (Finished (Inr x), line, inp')" "chunk_bytes inp' = rest" "only_chunks inp'"
  using refines [OF assms(1)] assms(2,3) by auto

end

interpretation steady: line_reader "read_steady_line max_len []" "steady_spec max_len"
  by unfold_locales (use read_steady_refines [of _ "[]"] in \<open>simp add: read_steady_line_def\<close>)

lemma steady_spec_line:
  "newline \<notin> set p \<Longrightarrow> length p < max_len \<Longrightarrow>
     steady_spec max_len (p @ newline # rest) = (Line (Suc (length p)), p @ [newline], rest)"
  by (simp add: steady_spec_def cut_line_line Suc_le_eq)

text \<open>A line that fits and is not blank is delivered, whatever the chunks.\<close>

lemma recv_line_delivers:
  assumes "only_chunks inp" and "chunk_bytes inp = p @ newline # rest" and "newline \<notin> set p"
    and "length p < max_len" and "\<not> list_all is_ascii_whitespace p"
  obtains inp' where "recv_line max_len inp = (GotLine (p @ [newline]), inp')"
    "chunk_bytes inp' = rest" "only_chunks inp'"
proof -
  from assms obtain inp' where "read_steady_line max_len [] inp = (Finished (Inr (Line (Suc (length p)))), p @ [newline], inp')"
    and r: "chunk_bytes inp' = rest" "only_chunks inp'"
    by (metis steady.frame_read steady_spec_line)
  then have "recv_line max_len inp = (GotLine (p @ [newline]), inp')"
    using assms(5) by (subst recv_line.simps) simp
  with r that show thesis by blast
qed

text \<open>A blank line and an oversized one are passed over.\<close>

lemma recv_line_skips:
  assumes "only_chunks inp" and "chunk_bytes inp = p @ newline # rest" and "newline \<notin> set p"
    and "length p < max_len \<longrightarrow> list_all is_ascii_whitespace p"
  obtains inp' where "recv_line max_len inp = recv_line max_len inp'" "chunk_bytes inp' = rest" "only_chunks inp'"
proof (cases "length p < max_len")
  case True
  with assms obtain inp' where "read_steady_line max_len [] inp = (Finished (Inr (Line (Suc (length p)))), p @ [newline], inp')"
    and r: "chunk_bytes inp' = rest" "only_chunks inp'"
    by (metis steady.frame_read steady_spec_line)
  then have "recv_line max_len inp = recv_line max_len inp'"
    using assms(4) True by (subst recv_line.simps) (simp add: is_ascii_whitespace_def newline_def)
  with r that show thesis by blast
next
  case False
  then have "steady_spec max_len (p @ newline # rest) = (OversizeSkipped, [], rest)"
    using assms(3) by (simp add: steady_spec_def cut_line_line)
  with assms obtain inp' where "read_steady_line max_len [] inp = (Finished (Inr OversizeSkipped), [], inp')"
    and r: "chunk_bytes inp' = rest" "only_chunks inp'"
    by (metis steady.frame_read)
  then have "recv_line max_len inp = recv_line max_len inp'"
    by (subst recv_line.simps) simp
  with r that show thesis by blast
qed

section \<open>Bounds and the first line\<close>

text \<open>Neither reader ever holds more than its limit, whatever the peer sends: started with a
  buffer within the limit, the buffer it leaves behind (on success, on an error, at the end
  of the stream and when the read is abandoned) is within the limit.\<close>

theorem readers_bounded:
  assumes "length buf \<le> max_len"
  shows "length (fst (snd (read_line_bounded max_len start buf inp))) \<le> max_len
    \<and> length (fst (snd (read_steady max_len start discarding buf inp))) \<le> max_len"
proof
  show "length (fst (snd (read_line_bounded max_len start buf inp))) \<le> max_len"
    using assms
    by (induction max_len start buf inp rule: read_line_bounded.induct) (auto split: prod.splits)
  show "length (fst (snd (read_steady max_len start discarding buf inp))) \<le> max_len"
    using assms
    by (induction max_len start discarding buf inp rule: read_steady.induct) (auto split: prod.splits)
qed

theorem readers_bounded_witness:
  "length (fst (snd (read_line_bounded 3 0 [] [Chunk ''ab'', Chunk ''cd'']))) \<le> 3
   \<and> length (fst (snd (read_steady 3 0 False [] [Chunk ''ab'', Chunk ''cd'']))) \<le> 3"
  by (rule readers_bounded) simp

lemma read_line_bounded_refines:
  assumes "only_chunks inp" and "newline \<notin> set buf" and "length buf \<le> max_len"
    and "cut_line (buf @ chunk_bytes inp) = (l, rest, True)"
  shows "if length l \<le> max_len
    then \<exists>inp'. read_line_bounded max_len 0 buf inp = (Finished (Inr (length l)), l, inp') \<and> chunk_bytes inp' = rest
    else \<exists>n b inp'. read_line_bounded max_len 0 buf inp = (Finished (Inl (PacketTooLarge n max_len)), b, inp')"
  using assms
proof (induction inp arbitrary: buf)
  case Nil
  then show ?case using cut_line_missing_iff [of buf] by simp
next
  case (Cons e inp)
  then obtain c where e: "e = Chunk c" and ne: "c \<noteq> []" by (cases e) auto
  obtain l' r' nl where c: "cut_line c = (l', r', nl)" by (metis prod_cases3)
  have cb: "cut_line (buf @ c @ chunk_bytes inp) = (let (l, r, nl) = cut_line (c @ chunk_bytes inp) in (buf @ l, r, nl))"
    using Cons.prems(2) by (rule cut_line_append_missing)
  show ?case
  proof (cases nl)
    case True
    with c have "cut_line (c @ chunk_bytes inp) = (l', r' @ chunk_bytes inp, True)"
      by (simp add: cut_line_append_found)
    with cb Cons.prems(4) e have "l = buf @ l'" "rest = r' @ chunk_bytes inp" by auto
    with True c e ne show ?thesis by auto
  next
    case False
    then have lc: "l' = c" "newline \<notin> set c" using cut_line_missing c by auto
    obtain l2 r2 n2 where b: "cut_line (chunk_bytes inp) = (l2, r2, n2)" by (metis prod_cases3)
    with cut_line_append_missing [OF lc(2), of "chunk_bytes inp"] cb Cons.prems(4) e
    have "l = buf @ c @ l2" by auto
    with False c e ne lc Cons show ?thesis
      by (cases "length buf + length c \<le> max_len") (auto simp: not_le)
  qed
qed

text \<open>The handshake reader returns the peer's first line whole, however the bytes are cut into
  chunks, and leaves the bytes after it unread; a first line over the limit is an error and
  never a truncated line.\<close>

theorem read_line_bounded_first_line:
  assumes "only_chunks inp" and "chunk_bytes inp = p @ newline # rest" and "newline \<notin> set p"
  shows "if length p < max_len
    then \<exists>inp'. read_line_bounded max_len 0 [] inp = (Finished (Inr (Suc (length p))), p @ [newline], inp')
                \<and> chunk_bytes inp' = rest
    else \<exists>n b inp'. read_line_bounded max_len 0 [] inp = (Finished (Inl (PacketTooLarge n max_len)), b, inp')"
  using read_line_bounded_refines [OF assms(1), of "[]" max_len "p @ [newline]" rest] assms(2,3)
  by (cases "length p < max_len") (simp_all add: cut_line_line Suc_le_eq)

theorem read_line_bounded_first_line_witness:
  "\<exists>inp'. read_line_bounded 8 0 [] [Chunk ''a'', Chunk (''b'' @ [newline, CHR ''c''])]
      = (Finished (Inr 3), ''ab'' @ [newline], inp') \<and> chunk_bytes inp' = ''c''"
  using read_line_bounded_first_line [of "[Chunk ''a'', Chunk (''b'' @ [newline, CHR ''c''])]" "''ab''" "''c''" 8]
  by (simp add: newline_def)

section \<open>Streams of packets\<close>

text \<open>What the wire format needs of a packet and of the JSON library: the compact text of the
  packet is an object, is UTF-8, holds no raw newline, is read back, and fits the cap.\<close>

definition wire_ok :: "externals \<Rightarrow> packet \<Rightarrow> bool" where
  "wire_ok E p \<longleftrightarrow> packet_payload_transfer_info p \<noteq> Some JNull
     \<and> json_parse E (json_print E (packet_to_json p)) = Some (packet_to_json p)
     \<and> (let t = json_print E (packet_to_json p) in
          t = ''{'' @ butlast (tl t) @ ''}'' \<and> valid_utf8 t \<and> newline \<notin> set t \<and> length t < MAX_STEADY_PACKET_SIZE)"

fun recv_packets :: "externals \<Rightarrow> nat \<Rightarrow> rd list \<Rightarrow> packet res list" where
  "recv_packets E 0 inp = []"
| "recv_packets E (Suc n) inp =
     (case recv_line MAX_STEADY_PACKET_SIZE inp of
        (GotLine l, inp') \<Rightarrow> deserialize E l # recv_packets E n inp'
      | _ \<Rightarrow> [])"

lemma wire_ok_deserialize:
  assumes "wire_ok E p"
  shows "deserialize E (serialize E p) = Inr p"
proof (rule deserialize_serialize)
  show "length (serialize E p) \<le> MAX_PACKET_SIZE_STEADY"
    using assms by (simp add: wire_ok_def Let_def serialize_def MAX_STEADY_PACKET_SIZE_def MAX_PACKET_SIZE_STEADY_def)
qed (use assms in \<open>auto simp: wire_ok_def Let_def\<close>)

lemma wire_ok_not_blank: "wire_ok E p \<Longrightarrow> \<not> list_all is_ascii_whitespace (json_print E (packet_to_json p))"
proof -
  assume "wire_ok E p"
  then obtain m where "json_print E (packet_to_json p) = ''{'' @ m" by (auto simp: wire_ok_def Let_def)
  then show ?thesis by (simp add: is_ascii_whitespace_def)
qed

lemma recv_line_skips_lines:
  assumes "only_chunks inp" and "chunk_bytes inp = concat (map (\<lambda>l. l @ [newline]) noise) @ rest"
    and "\<forall>l \<in> set noise. newline \<notin> set l \<and> (length l < max_len \<longrightarrow> list_all is_ascii_whitespace l)"
  shows "\<exists>inp'. recv_line max_len inp = recv_line max_len inp' \<and> chunk_bytes inp' = rest \<and> only_chunks inp'"
  using assms
proof (induction noise arbitrary: inp)
  case (Cons l noise)
  then obtain inp1 where 1: "recv_line max_len inp = recv_line max_len inp1" and
    "chunk_bytes inp1 = concat (map (\<lambda>l. l @ [newline]) noise) @ rest" "only_chunks inp1"
    using recv_line_skips [of inp l "concat (map (\<lambda>l. l @ [newline]) noise) @ rest" max_len] by auto
  with Cons.IH [of inp1] Cons.prems(3) show ?case by auto
qed auto

text \<open>Property C9.
  A stream of packets arrives as sent: for packets that the wire format carries, whatever
  chunks the concatenated lines arrive in and whatever blank or oversized lines stand
  between them, the receive loop returns exactly those packets in that order.\<close>

theorem recv_packets_roundtrip:
  assumes "\<forall>(noise, p) \<in> set ps. wire_ok E p \<and>
             (\<forall>l \<in> set noise. newline \<notin> set l \<and> (length l < MAX_STEADY_PACKET_SIZE \<longrightarrow> list_all is_ascii_whitespace l))"
    and "only_chunks inp"
    and "chunk_bytes inp = concat (map (\<lambda>(noise, p). concat (map (\<lambda>l. l @ [newline]) noise) @ serialize E p) ps)"
  shows "recv_packets E (length ps) inp = map (\<lambda>(_, p). Inr p) ps"
  using assms
proof (induction ps arbitrary: inp)
  case (Cons np ps)
  obtain noise p where np: "np = (noise, p)" by (cases np)
  let ?t = "json_print E (packet_to_json p)"
  let ?rest = "concat (map (\<lambda>(noise, p). concat (map (\<lambda>l. l @ [newline]) noise) @ serialize E p) ps)"
  from Cons.prems np have ok: "wire_ok E p" by auto
  then have t: "newline \<notin> set ?t" "length ?t < MAX_STEADY_PACKET_SIZE" by (auto simp: wire_ok_def Let_def)
  from Cons.prems np obtain inp1 where 1: "recv_line MAX_STEADY_PACKET_SIZE inp = recv_line MAX_STEADY_PACKET_SIZE inp1"
    and b1: "chunk_bytes inp1 = serialize E p @ ?rest" "only_chunks inp1"
    using recv_line_skips_lines [of inp noise "serialize E p @ ?rest" MAX_STEADY_PACKET_SIZE] by auto
  from recv_line_delivers [OF b1(2), of ?t ?rest] b1(1) t wire_ok_not_blank [OF ok]
  obtain inp2 where "recv_line MAX_STEADY_PACKET_SIZE inp1 = (GotLine (serialize E p), inp2)"
    and "chunk_bytes inp2 = ?rest" "only_chunks inp2"
    by (auto simp: serialize_def)
  with 1 np Cons.IH [of inp2] Cons.prems wire_ok_deserialize [OF ok] show ?case by simp
qed simp

definition demo_wire_packet :: packet where
  "demo_wire_packet = with_payload_size 18446744073709551615 (ping 7)"

definition demo_chunks :: "rd list" where
  "demo_chunks = [Chunk ''{'', Chunk (''}'' @ [newline, CHR '' '']), Chunk (newline # ''{}''), Chunk [newline]]"

lemma wire_ok_demo: "wire_ok demo_externals demo_wire_packet"
  by (simp add: wire_ok_def demo_externals_def demo_wire_packet_def with_payload_size_def ping_def new_packet_def
      newline_def valid_utf8_def bytes_of_def MAX_STEADY_PACKET_SIZE_def)

lemma serialize_demo: "serialize demo_externals p = ''{}'' @ [newline]"
  by (simp add: serialize_def demo_externals_def)

theorem recv_packets_roundtrip_witness:
  "recv_packets demo_externals 2 demo_chunks = [Inr demo_wire_packet, Inr demo_wire_packet]"
  using recv_packets_roundtrip [of "[([], demo_wire_packet), ([[CHR '' '']], demo_wire_packet)]" demo_externals demo_chunks]
    wire_ok_demo
  by (simp add: serialize_demo demo_chunks_def newline_def is_ascii_whitespace_def numeral_2_eq_2 del: recv_packets.simps)

text \<open>A read that times out in the middle of a line loses what it had read of it: when a line
  \<open>p @ q\<close> arrives as \<open>p\<close>, a stall past the 30 second deadline, and then \<open>q\<close>, the first
  call reports a time-out and the next one delivers \<open>q\<close> as if it were a whole line.\<close>

theorem timeout_loses_partial_line:
  assumes "p \<noteq> []" and "newline \<notin> set p" and "length p \<le> max_len"
    and "newline \<notin> set q" and "length q < max_len" and "\<not> list_all is_ascii_whitespace q"
  shows "recv_line max_len [Chunk p, Stall, Chunk (q @ [newline])] = (RecvTimeout, [Chunk (q @ [newline])])
    \<and> fst (recv_line max_len [Chunk (q @ [newline])]) = GotLine (q @ [newline])"
proof
  show "recv_line max_len [Chunk p, Stall, Chunk (q @ [newline])] = (RecvTimeout, [Chunk (q @ [newline])])"
    using assms by (subst recv_line.simps) (simp add: read_steady_line_def cut_line_missing_iff)
  show "fst (recv_line max_len [Chunk (q @ [newline])]) = GotLine (q @ [newline])"
  proof (rule recv_line_delivers [of "[Chunk (q @ [newline])]" q "[]" max_len])
    fix inp'
    assume "recv_line max_len [Chunk (q @ [newline])] = (GotLine (q @ [newline]), inp')"
    then show ?thesis by simp
  qed (use assms in simp_all)
qed

theorem timeout_loses_partial_line_witness:
  "fst (recv_line 100 [Chunk ''{}'', Stall, Chunk (''{}'' @ [newline])]) = RecvTimeout
   \<and> fst (recv_line 100 [Chunk (''{}'' @ [newline])]) = GotLine (''{}'' @ [newline])"
  using timeout_loses_partial_line [of "''{}''" 100 "''{}''"] by (simp add: newline_def is_ascii_whitespace_def)

end
