(* ===== verification/Tls.thy ===== *)
theory Tls
  imports Crypto
begin

text \<open>
  The TLS layer (\<open>src/protocol/connection/tls.rs\<close>): the program's certificate verifiers, the
  loading of our own certificate, and the two handshakes. The handshake itself is the
  library's (rustls): it stalls, fails, or ends with the certificate chain the peer
  presented, after the program's verifier has accepted the first certificate of it. A
  server that does not insist on a client certificate may end up with none.
\<close>

section \<open>The library\<close>

datatype tls_peer = TlsCerts "string list" | TlsFail | TlsStall

record rustls =
  rl_certs :: "string \<Rightarrow> string list option"
  rl_key :: "string \<Rightarrow> string option"
  rl_accepts :: "string list \<Rightarrow> string \<Rightarrow> bool"

section \<open>Verifiers\<close>

definition verify_server_cert :: "externals \<Rightarrow> certificate_manager \<Rightarrow> string \<Rightarrow> string \<Rightarrow> (disk, unit) op" where
  "verify_server_cert E cm did end_entity d =
     (if has_peer_fingerprint E cm did d then verify_peer_fingerprint E cm did end_entity d else (Inr (), d))"

definition client_auth_mandatory :: "externals \<Rightarrow> certificate_manager \<Rightarrow> string option \<Rightarrow> disk \<Rightarrow> bool" where
  "client_auth_mandatory E cm did d = (case did of Some i \<Rightarrow> has_peer_fingerprint E cm i d | None \<Rightarrow> False)"

definition verify_client_cert :: "externals \<Rightarrow> certificate_manager \<Rightarrow> string option \<Rightarrow> string \<Rightarrow> (disk, unit) op" where
  "verify_client_cert E cm did end_entity d =
     (case did of
        Some i \<Rightarrow> if has_peer_fingerprint E cm i d then verify_peer_fingerprint E cm i end_entity d else (Inr (), d)
      | None \<Rightarrow> (Inr (), d))"

section \<open>Handshakes\<close>

definition load_own_identity :: "rustls \<Rightarrow> certificate_manager \<Rightarrow> (disk, string list \<times> string) op" where
  "load_own_identity R cm =
     sbind (load_own_certificate cm) (\<lambda>(cert_pem, key_pem).
     sbind (slift (ok_or (TlsError ''Failed to parse own certificate PEM'') (rl_certs R cert_pem))) (\<lambda>certs.
       if certs = [] then sfail (TlsError ''Own certificate file contains no certificates'')
       else sbind (slift (ok_or (TlsError ''Failed to parse own key PEM'') (rl_key R key_pem))) (\<lambda>k.
              sreturn (certs, k))))"

text \<open>The certificate the stream reports is the first one of the peer's chain.\<close>

definition first_cert :: "string list \<Rightarrow> string option" where
  "first_cert certs = (case certs of [] \<Rightarrow> None | c # _ \<Rightarrow> Some c)"

definition tls_connect ::
    "externals \<Rightarrow> rustls \<Rightarrow> certificate_manager \<Rightarrow> string \<Rightarrow> tls_peer \<Rightarrow> (disk, string option) op" where
  "tls_connect E R cm did peer =
     sbind (\<lambda>d. if has_own_certificate cm d
                then sbind (load_own_identity R cm) (\<lambda>(certs, k).
                       if rl_accepts R certs k then sreturn () else sfail (TlsError ''Failed to configure client auth'')) d
                else (Inr (), d)) (\<lambda>_.
     case peer of
       TlsStall \<Rightarrow> sfail (ConnectionTimeout ''TLS handshake timed out'')
     | TlsFail \<Rightarrow> sfail (TlsError ''TLS handshake failed'')
     | TlsCerts [] \<Rightarrow> sfail (TlsError ''TLS handshake failed'')
     | TlsCerts (c # cs) \<Rightarrow> (\<lambda>d. case verify_server_cert E cm did c d of
           (Inl _, d') \<Rightarrow> (Inl (TlsError ''TLS handshake failed''), d')
         | (Inr _, d') \<Rightarrow> (Inr (first_cert (c # cs)), d')))"

definition tls_accept ::
    "externals \<Rightarrow> rustls \<Rightarrow> certificate_manager \<Rightarrow> string option \<Rightarrow> tls_peer \<Rightarrow> (disk, string option) op" where
  "tls_accept E R cm did peer =
     sbind (load_own_identity R cm) (\<lambda>(certs, k).
       if \<not> rl_accepts R certs k then sfail (TlsError ''Failed to configure server certificate'')
       else (case peer of
           TlsStall \<Rightarrow> sfail (ConnectionTimeout ''TLS accept timed out'')
         | TlsFail \<Rightarrow> sfail (TlsError ''TLS accept failed'')
         | TlsCerts [] \<Rightarrow> (\<lambda>d. if client_auth_mandatory E cm did d then (Inl (TlsError ''TLS accept failed''), d)
                               else (Inr (first_cert []), d))
         | TlsCerts (c # cs) \<Rightarrow> (\<lambda>d. case verify_client_cert E cm did c d of
               (Inl _, d') \<Rightarrow> (Inl (TlsError ''TLS accept failed''), d')
             | (Inr _, d') \<Rightarrow> (Inr (first_cert (c # cs)), d'))))"

section \<open>What a handshake leaves and proves\<close>

lemma load_own_certificate_files: "load_own_certificate cm d = (r, d') \<Longrightarrow> files d' = files d"
  by (auto simp: load_own_certificate_def sbind_def sreturn_def split: prod.splits sum.splits dest!: fs_read_frame)

lemma load_own_identity_files: "load_own_identity R cm d = (r, d') \<Longrightarrow> files d' = files d"
  by (auto simp: load_own_identity_def sbind_def sreturn_def slift_def sfail_def
      split: prod.splits sum.splits if_splits dest!: load_own_certificate_files)

lemma verify_server_cert_eq: "verify_server_cert E cm did c = verify_peer_certificate E cm did c"
  by (simp add: verify_server_cert_def verify_peer_certificate_def fun_eq_iff)

lemma verify_client_cert_eq: "verify_client_cert E cm (Some did) c = verify_peer_certificate E cm did c"
  by (simp add: verify_client_cert_def verify_peer_certificate_def fun_eq_iff)

lemma tls_connect_files: "tls_connect E R cm did peer d = (r, d') \<Longrightarrow> files d' = files d"
  by (auto simp: tls_connect_def verify_server_cert_eq sbind_def sreturn_def sfail_def
      split: prod.splits sum.splits if_splits tls_peer.splits list.splits
      dest!: load_own_identity_files verify_peer_certificate_files)

lemma tls_accept_files: "tls_accept E R cm did peer d = (r, d') \<Longrightarrow> files d' = files d"
  by (cases did) (auto simp: tls_accept_def verify_client_cert_eq verify_client_cert_def [of _ _ None]
      sbind_def sreturn_def sfail_def split: prod.splits sum.splits if_splits tls_peer.splits list.splits
      dest!: load_own_identity_files verify_peer_certificate_files)

end
