(* ===== verification/Own_Identity.thy ===== *)
theory Own_Identity
  imports Crypto
begin

text \<open>
  The daemon's own identity at start-up (\<open>src/protocol/own_identity.rs\<close>): the
  \<open>device_id\<close> file and the common name of the own certificate must agree; otherwise one
  is rebuilt from the other or both are generated afresh.
\<close>

section \<open>Loading or creating the identity\<close>

definition id_path :: "string \<Rightarrow> path" where
  "id_path data_dir = (data_dir, ''device_id'')"

definition write_id_file :: "path \<Rightarrow> string \<Rightarrow> (disk, unit) op" where
  "write_id_file p did = fs_write (io_error ''Failed to write device_id file'' (Some (snd p))) p did"

text \<open>The random draws: the text of a fresh UUID, a key and serial bytes.\<close>

record draws =
  draw_uuid :: string
  draw_key :: "string option"
  draw_serial :: "u8 list option"

definition regenerate :: "externals \<Rightarrow> certificate_manager \<Rightarrow> draws \<Rightarrow> instant \<Rightarrow> path \<Rightarrow> (disk, string) op" where
  "regenerate E cm rnd now p =
     (let did = draw_uuid rnd in
      sbind (slift (generate_certificate E (draw_key rnd) (draw_serial rnd) now did)) (\<lambda>(cert_pem, key_pem).
      sbind (store_own_certificate cm cert_pem key_pem) (\<lambda>_.
      sbind (write_id_file p did) (\<lambda>_. sreturn did))))"

text \<open>The id file: unreadable, not UTF-8 or not a valid id all count as absent.\<close>

definition id_from_file :: "externals \<Rightarrow> path \<Rightarrow> disk \<Rightarrow> string option \<times> disk" where
  "id_from_file E p d =
     (case fs_read_to_string (Internal '''') p d of
        (Inl _, d') \<Rightarrow> (None, d')
      | (Inr s, d') \<Rightarrow> (if valid_id E (trim s) then Some (trim s) else None, d'))"

definition load_or_create ::
    "externals \<Rightarrow> certificate_manager \<Rightarrow> draws \<Rightarrow> instant \<Rightarrow> string \<Rightarrow> (disk, string) op" where
  "load_or_create E cm rnd now data_dir d =
     (let p = id_path data_dir; (file_id, d1) = id_from_file E p d in
      sbind (own_certificate_cn E cm) (\<lambda>cn_from_cert.
        case (file_id, cn_from_cert) of
          (Some did, Some cn) \<Rightarrow> if did = cn then sreturn did else regenerate E cm rnd now p
        | (Some did, None) \<Rightarrow>
            sbind (adopt_legacy_own_certificate E cm did) (\<lambda>adopted.
            sbind (if \<not> adopted then ensure_own_certificate E cm (draw_key rnd) (draw_serial rnd) now did
                   else sreturn ()) (\<lambda>_. sreturn did))
        | (None, Some cn) \<Rightarrow> sbind (write_id_file p cn) (\<lambda>_. sreturn cn)
        | (None, None) \<Rightarrow> regenerate E cm rnd now p) d1)"

section \<open>File and certificate agree\<close>

definition own_cn :: "externals \<Rightarrow> certificate_manager \<Rightarrow> disk \<Rightarrow> string option" where
  "own_cn E cm d =
     (case files d (own_cert_path cm) of None \<Rightarrow> None | Some f \<Rightarrow>
       (case rbind (pem_to_der E (contents f)) (extract_cn_from_der E) of Inl _ \<Rightarrow> None | Inr cn \<Rightarrow> Some cn))"

definition file_id :: "externals \<Rightarrow> string \<Rightarrow> disk \<Rightarrow> string option" where
  "file_id E data_dir d = map_option (\<lambda>f. trim (contents f)) (files d (id_path data_dir))"

lemma id_path_fresh:
  "id_path dd \<noteq> own_cert_path cm" "id_path dd \<noteq> own_key_path cm"
  "id_path dd \<noteq> (dir, did @ ''.crt'')" "id_path dd \<noteq> (dir, did @ ''.key'')"
proof -
  have "last ''device_id'' \<noteq> last (did @ ''.crt'')" "last ''device_id'' \<noteq> last (did @ ''.key'')"
    by simp_all
  then show "id_path dd \<noteq> (dir, did @ ''.crt'')" "id_path dd \<noteq> (dir, did @ ''.key'')"
    by (metis id_path_def prod.inject)+
qed (simp_all add: id_path_def own_cert_path_def own_key_path_def)

lemma read_to_string_Inr:
  "fs_read_to_string e p d = (Inr c, d') \<Longrightarrow> \<exists>f. files d p = Some f \<and> contents f = c"
  by (auto simp: fs_read_to_string_def result_simps split: if_splits dest: fs_read_Inr)

lemma read_to_string_files: "fs_read_to_string e p d = (r, d') \<Longrightarrow> files d' = files d"
  by (auto simp: fs_read_to_string_def sbind_def sreturn_def sfail_def
        split: prod.splits sum.splits if_splits dest!: fs_read_frame)

lemma id_from_file_effect:
  assumes "id_from_file E (id_path dd) d = (x, d')"
  shows "files d' = files d" and "x = Some did \<Longrightarrow> file_id E dd d = Some did \<and> valid_id E did"
proof -
  show "files d' = files d"
    using assms
    by (auto simp: id_from_file_def split: prod.splits sum.splits if_splits dest: read_to_string_files)
  show "x = Some did \<Longrightarrow> file_id E dd d = Some did \<and> valid_id E did"
    using assms
    by (auto simp: id_from_file_def file_id_def split: prod.splits sum.splits if_splits dest!: read_to_string_Inr)
qed

lemma own_certificate_cn_effect:
  assumes "own_certificate_cn E cm d = (r, d')"
  shows "files d' = files d" and "r = Inr x \<Longrightarrow> own_cn E cm d = x"
    and "r = Inr None \<Longrightarrow> files d (own_cert_path cm) = None"
proof -
  show "files d' = files d"
    using assms
    by (auto simp: own_certificate_cn_def sbind_def slift_def sreturn_def
          split: prod.splits sum.splits if_splits dest!: fs_read_frame)
  show "own_cn E cm d = x" if "r = Inr x"
    using assms that
    by (auto simp: own_certificate_cn_def own_cn_def path_exists_def result_simps
          split: if_splits dest!: fs_read_Inr)
  show "files d (own_cert_path cm) = None" if "r = Inr None"
    using assms that
    by (auto simp: own_certificate_cn_def path_exists_def result_simps split: if_splits)
qed

abbreviation signs_cn :: "externals \<Rightarrow> bool" where
  "signs_cn E \<equiv> (\<forall>ps key cert. x509_sign E ps key = Some cert \<longrightarrow>
     rbind (pem_to_der E cert) (extract_cn_from_der E) = Inr (subject_cn ps))"

lemma store_generated:
  assumes "signs_cn E" and "generate_certificate E k s now did = Inr (cert, key)"
    and "store_own_certificate cm cert key d = (Inr u, d')"
  shows "own_cn E cm d' = Some did"
    and "files d' (id_path dd) = files d (id_path dd)"
proof -
  note st = store_own_certificate_effect [OF assms(3)]
  from assms(2) obtain ps key' where "x509_sign E ps key' = Some cert" "subject_cn ps = did"
    by (auto simp: generate_certificate_def result_simps Let_def)
  with assms(1) st(3) show "own_cn E cm d' = Some did"
    by (auto simp: own_cn_def)
  show "files d' (id_path dd) = files d (id_path dd)"
    using st(2) id_path_fresh by metis
qed

lemma regenerate_effect:
  assumes "signs_cn E" and "regenerate E cm rnd now (id_path dd) d = (Inr did, d')"
  shows "own_cn E cm d' = Some did \<and> map_option contents (files d' (id_path dd)) = Some did"
proof -
  from assms(2) obtain cert key u d1 e where g: "generate_certificate E (draw_key rnd) (draw_serial rnd) now did = Inr (cert, key)"
    and s: "store_own_certificate cm cert key d = (Inr u, d1)"
    and w: "fs_write e (id_path dd) did d1 = (Inr (), d')"
    by (auto simp: regenerate_def result_simps Let_def write_id_file_def)
  have "files d' (own_cert_path cm) = files d1 (own_cert_path cm)"
    using fs_write_other [OF w] id_path_fresh(1) by metis
  then have "own_cn E cm d' = own_cn E cm d1"
    by (simp add: own_cn_def)
  then show ?thesis
    using store_generated(1) [OF assms(1) g s] fs_write_Inr [OF w] by auto
qed

lemma adopt_effect:
  assumes "adopt_legacy_own_certificate E cm did d = (Inr b, d')" and "files d (own_cert_path cm) = None"
  shows "files d' (id_path dd) = files d (id_path dd)"
    and "b \<Longrightarrow> own_cn E cm d' = Some did" and "\<not> b \<Longrightarrow> files d' = files d"
proof -
  have "\<not> has_own_certificate cm d"
    using assms(2) by (simp add: has_own_certificate_def path_exists_def)
  have "(b \<and> own_cn E cm d' = Some did \<or> \<not> b \<and> files d' = files d) \<and> files d' (id_path dd) = files d (id_path dd)"
  proof (cases b)
    case False
    with assms(1) show ?thesis
      by (auto simp: adopt_legacy_own_certificate_def result_simps Let_def split: if_splits dest!: fs_read_frame)
  next
    case True
    from assms(1) True obtain cp kp pem der e1 e2 e3 e4 d1 d2 d3 where
      cp: "cert_path E cm did = Inr cp" and kp: "key_path E cm did = Inr kp" and
      rd: "fs_read e1 cp d = (Inr pem, d1)" and cn: "pem_to_der E pem = Inr der" "extract_cn_from_der E der = Inr did" and
      r1: "fs_rename e2 cp (own_cert_path cm) d1 = (Inr (), d2)" and
      r2: "fs_rename e3 kp (own_key_path cm) d2 = (Inr (), d3)" and
      m: "fs_set_mode mode_0600 e4 (own_key_path cm) d3 = (Inr (), d')"
      by (auto simp: adopt_legacy_own_certificate_def result_simps Let_def split: if_splits sum.splits)
    have v: "cp = (cert_dir cm, did @ ''.crt'')" "kp = (cert_dir cm, did @ ''.key'')"
      using cp kp path_valid(1) [OF cp] by (simp_all add: valid_path_simps)
    have ne: "own_cert_path cm \<noteq> own_key_path cm" "own_cert_path cm \<noteq> kp"
      using path_valid(1) [OF cp] by (auto simp: own_cert_path_def own_key_path_def v validate_device_id_ok)
    have m': "q \<noteq> own_key_path cm \<Longrightarrow> files d' q = files d3 q" for q
      using m by (auto elim!: fs_set_mode_cases)
    obtain f where f: "files d cp = Some f" "contents f = pem"
      using fs_read_Inr [OF rd] by blast
    have "files d2 (own_cert_path cm) = Some f"
      using fs_rename_Inr [OF r1] f fs_read_frame [OF rd] by auto
    then have "files d' (own_cert_path cm) = Some f"
      using m' fs_rename_other [OF r2] ne by metis
    then have "own_cn E cm d' = Some did"
      using cn f by (simp add: own_cn_def)
    moreover have "files d' (id_path dd) = files d (id_path dd)"
      using m' fs_rename_other [OF r2] fs_rename_other [OF r1] fs_read_frame [OF rd] id_path_fresh v by metis
    ultimately show ?thesis using True by blast
  qed
  then show "files d' (id_path dd) = files d (id_path dd)"
    and "b \<Longrightarrow> own_cn E cm d' = Some did" and "\<not> b \<Longrightarrow> files d' = files d" by auto
qed

lemma ensure_effect:
  assumes "signs_cn E" and "ensure_own_certificate E cm k s now did d = (Inr u, d')"
    and "files d (own_cert_path cm) = None"
  shows "own_cn E cm d' = Some did \<and> files d' (id_path dd) = files d (id_path dd)"
proof -
  from assms(2,3) obtain cert key where g: "generate_certificate E k s now did = Inr (cert, key)"
    and s: "store_own_certificate cm cert key d = (Inr u, d')"
    by (auto simp: ensure_own_certificate_def has_own_certificate_def path_exists_def result_simps)
  show ?thesis
    using store_generated(1) [OF assms(1) g s] store_generated(2) [OF assms(1) g s] by simp
qed

text \<open>Whatever state the disk is left in, an identity that start-up returns is consistent: the
  own certificate on disk carries the returned id as its common name, and the id file holds
  that id, so the clobbered state (file and certificate disagree) is never returned. The
  hypothesis is that the certificate library signs the common name it is given.\<close>

theorem own_identity_consistent:
  assumes "\<forall>ps key cert. x509_sign E ps key = Some cert \<longrightarrow>
      rbind (pem_to_der E cert) (extract_cn_from_der E) = Inr (subject_cn ps)"
    and "load_or_create E cm rnd now dd d = (Inr did, d')"
  shows "own_cn E cm d' = Some did
    \<and> (file_id E dd d' = Some did \<or> map_option contents (files d' (id_path dd)) = Some did)"
proof -
  obtain fid d1 where fid: "id_from_file E (id_path dd) d = (fid, d1)" by fastforce
  obtain r d2 where cn: "own_certificate_cn E cm d1 = (r, d2)" by fastforce
  note f1 = id_from_file_effect [OF fid] and f2 = own_certificate_cn_effect [OF cn]
  from assms(2) fid cn obtain x where r: "r = Inr x"
    by (cases r) (auto simp: load_or_create_def Let_def sbind_def)
  have cn2: "own_cn E cm d2 = x"
    using f2(1,2) r by (simp add: own_cn_def)
  have id2: "fid = Some a \<Longrightarrow> file_id E dd d2 = Some a" for a
    using f1 f2(1) by (simp add: file_id_def)
  consider (both) a where "fid = Some a" "x = Some a" | (differ) "fid \<noteq> x" "fid \<noteq> None" "x \<noteq> None"
    | (adopt) a where "fid = Some a" "x = None" | (recover) cn where "fid = None" "x = Some cn"
    | (neither) "fid = None" "x = None"
    by (cases fid; cases x) auto
  then show ?thesis
  proof cases
    case both
    with assms(2) fid cn r cn2 id2 show ?thesis
      by (auto simp: load_or_create_def Let_def sreturn_def)
  next
    case differ
    with assms(2) fid cn r have "regenerate E cm rnd now (id_path dd) d2 = (Inr did, d')"
      by (auto simp: load_or_create_def Let_def split: if_splits)
    from regenerate_effect [OF assms(1) this] show ?thesis by blast
  next
    case (adopt a)
    from adopt assms(2) fid cn r obtain b d3 u where ad: "adopt_legacy_own_certificate E cm a d2 = (Inr b, d3)"
      and en: "(if \<not> b then ensure_own_certificate E cm (draw_key rnd) (draw_serial rnd) now a else sreturn ()) d3 = (Inr u, d')"
      and a: "a = did"
      by (auto simp: load_or_create_def Let_def result_simps)
    have none: "files d2 (own_cert_path cm) = None"
      using f2(1,3) r adopt(2) by simp
    note ae = adopt_effect [OF ad none]
    have "own_cn E cm d' = Some did \<and> files d' (id_path dd) = files d2 (id_path dd)"
    proof (cases b)
      case True
      with ae en a show ?thesis by (simp add: sreturn_def)
    next
      case False
      with ae none have "files d3 (own_cert_path cm) = None" by simp
      with ensure_effect [OF assms(1), of cm _ _ now did d3 u d' dd] en a False ae show ?thesis by simp
    qed
    with id2 adopt(1) a show ?thesis by (simp add: file_id_def)
  next
    case (recover c)
    with assms(2) fid cn r have "sbind (write_id_file (id_path dd) c) (\<lambda>_. sreturn c) d2 = (Inr did, d')"
      by (simp add: load_or_create_def Let_def)
    then have c: "c = did" and w: "write_id_file (id_path dd) did d2 = (Inr (), d')"
      by (auto simp: result_simps)
    note w = w [unfolded write_id_file_def]
    have "files d' (own_cert_path cm) = files d2 (own_cert_path cm)"
      using fs_write_other [OF w] id_path_fresh(1) by metis
    with cn2 recover c fs_write_Inr [OF w] show ?thesis
      by (auto simp: own_cn_def)
  next
    case neither
    with assms(2) fid cn r have "regenerate E cm rnd now (id_path dd) d2 = (Inr did, d')"
      by (auto simp: load_or_create_def Let_def)
    from regenerate_effect [OF assms(1) this] show ?thesis by blast
  qed
qed

definition signing_externals :: externals where
  "signing_externals = demo_externals\<lparr>x509_sign :=
     (\<lambda>ps _. if list_all b64_char (subject_cn ps) then Some (der_to_pem demo_externals (subject_cn ps)) else None)\<rparr>"

lemma signing_pem [simp]:
  "pem_to_der signing_externals p = pem_to_der demo_externals p"
  "pem_to_der (demo_externals\<lparr>x509_is_valid := v\<rparr>) p = pem_to_der demo_externals p"
  by (simp_all add: pem_to_der_def signing_externals_def)

lemma demo_pem: "list_all b64_char s \<Longrightarrow> pem_to_der demo_externals (der_to_pem demo_externals s) = Inr s"
  by (rule pem_to_der_of_pem) (simp_all add: demo_externals_def)

lemma short_id_b64: "list_all b64_char short_id"
  by (simp add: short_id_def b64_char_def ascii_alnum_def)

lemma signing_ok: "x509_sign signing_externals ps key = Some cert \<Longrightarrow>
    rbind (pem_to_der signing_externals cert) (extract_cn_from_der signing_externals) = Inr (subject_cn ps)"
proof -
  assume "x509_sign signing_externals ps key = Some cert"
  then have "list_all b64_char (subject_cn ps)" "cert = der_to_pem demo_externals (subject_cn ps)"
    by (auto simp: signing_externals_def split: if_splits)
  moreover have "extract_cn_from_der signing_externals s = Inr s" for s
    by (simp add: extract_cn_from_der_def signing_externals_def demo_externals_def)
  ultimately show ?thesis
    by (simp add: demo_pem)
qed

definition demo_draws :: draws where
  "demo_draws = \<lparr>draw_uuid = short_id, draw_key = Some ''KEY'', draw_serial = Some (replicate 20 0)\<rparr>"

lemma demo_load: "\<exists>d'. load_or_create signing_externals demo_certs demo_draws 0 ''data'' (demo_disk []) = (Inr short_id, d')"
proof -
  have "\<exists>c. generate_certificate signing_externals (Some ''KEY'') (Some (replicate 20 0)) 0 short_id = Inr (c, ''KEY'')"
    by (simp add: generate_certificate_def ok_or_def Let_def signing_externals_def short_id_b64)
       (simp add: demo_externals_def)
  then obtain c where c: "generate_certificate signing_externals (Some ''KEY'') (Some (replicate 20 0)) 0 short_id = Inr (c, ''KEY'')"
    by blast
  show ?thesis
    by (simp add: load_or_create_def Let_def id_from_file_def fs_read_to_string_def fs_read_def sbind_def id_path_def
          own_certificate_cn_def path_exists_def regenerate_def slift_def c demo_draws_def sreturn_def
          store_own_certificate_def init_def fs_create_dir_all_def fs_set_dir_mode_def dir_exists_def next_outcome_def
          write_key_file_def write_private_def fs_open_truncate_def fs_write_all_def fs_write_def fs_write_mode_def fs_set_mode_def
          put_file_def own_cert_path_def own_key_path_def write_id_file_def demo_disk_def)
qed

theorem own_identity_consistent_witness:
  "\<exists>d'. load_or_create signing_externals demo_certs demo_draws 0 ''data'' (demo_disk []) = (Inr short_id, d')
     \<and> own_cn signing_externals demo_certs d' = Some short_id"
proof -
  obtain d' where d': "load_or_create signing_externals demo_certs demo_draws 0 ''data'' (demo_disk []) = (Inr short_id, d')"
    using demo_load by blast
  have "\<forall>ps key cert. x509_sign signing_externals ps key = Some cert \<longrightarrow>
      rbind (pem_to_der signing_externals cert) (extract_cn_from_der signing_externals) = Inr (subject_cn ps)"
    using signing_ok by blast
  from own_identity_consistent [OF this d'] d' show ?thesis by blast
qed

text \<open>An expired own certificate is not renewed at start-up: when the id file and the
  certificate's common name agree, the identity is returned and no file changes, whatever
  the certificate's validity period says; \<open>ensure_own_certificate\<close> is left to the next
  outgoing connection.\<close>

theorem expired_own_certificate_kept:
  assumes "files d (id_path dd) = Some f" and "valid_utf8 (contents f)" and "trim (contents f) = did"
    and "valid_id E did" and "files d (own_cert_path cm) = Some g" and "pem_to_der E (contents g) = Inr der"
    and "extract_cn_from_der E der = Inr did" and "\<not> x509_is_valid E now der" and "script d = []"
  shows "load_or_create E cm rnd now dd d = (Inr did, d)"
proof -
  have "id_from_file E (id_path dd) d = (Some did, d)"
    using assms(1-4,9) by (simp add: id_from_file_def fs_read_to_string_def sbind_def sreturn_def)
  moreover have "own_certificate_cn E cm d = (Inr (Some did), d)"
    using assms(5-7,9)
    by (simp add: own_certificate_cn_def path_exists_def sbind_def slift_def sreturn_def map_err_def)
  ultimately show ?thesis
    by (simp add: load_or_create_def Let_def sbind_def sreturn_def)
qed

theorem expired_own_certificate_kept_witness:
  "\<exists>d. load_or_create (demo_externals\<lparr>x509_is_valid := \<lambda>_ _. False\<rparr>) demo_certs demo_draws 0 ''data'' d = (Inr short_id, d)
     \<and> files d (own_cert_path demo_certs) \<noteq> None"
proof -
  let ?E = "demo_externals\<lparr>x509_is_valid := \<lambda>_ _. False\<rparr>"
  let ?f = "\<lparr>contents = short_id, fmode = 420\<rparr>" and ?g = "\<lparr>contents = der_to_pem demo_externals short_id, fmode = 420\<rparr>"
  let ?d = "(demo_disk [])\<lparr>files := [id_path ''data'' \<mapsto> ?f, own_cert_path demo_certs \<mapsto> ?g]\<rparr>"
  have "load_or_create ?E demo_certs demo_draws 0 ''data'' ?d = (Inr short_id, ?d)"
  proof (rule expired_own_certificate_kept [where f = ?f and g = ?g and der = short_id])
    show "files ?d (id_path ''data'') = Some ?f"
      using id_path_fresh(1) [of "''data''" demo_certs] by simp
    show "valid_utf8 (contents ?f)" "trim (contents ?f) = short_id"
      using b64_line(3,6) [OF short_id_b64] valid_utf8_ascii by simp_all
    show "pem_to_der ?E (contents ?g) = Inr short_id"
      using demo_pem [OF short_id_b64] by simp
    show "extract_cn_from_der ?E short_id = Inr short_id"
      by (simp add: extract_cn_from_der_def demo_externals_def)
  qed (use valid_short_id in \<open>simp_all add: demo_disk_def\<close>)
  then show ?thesis by (intro exI [of _ ?d]) simp
qed

end
