(* ===== verification/Connection.thy ===== *)
theory Connection
  imports Registry Framing Tls Own_Identity
begin

text \<open>
  The connection manager (\<open>src/protocol/connection/\<close>): live TLS links with their
  generations, cancellation tokens, pending dials, rate limits, our own identity, the
  capabilities peers announced, sending and receiving on a link, and the two handshakes.

  A link carries what its socket will deliver and how its coming writes end, so a theorem
  over all links covers every behaviour of the network. A cancellation token is a number,
  the tokens that were cancelled are a set. A link that leaves the table is recorded in
  \<open>shutdowns\<close> when its write half is shut down; \<open>udp_sent\<close> and \<open>plain_sent\<close> are the
  datagrams and the plaintext lines that left the host. The outcome of a TLS handshake (the peer's
  certificate, none, or an error) comes with the socket.
\<close>

section \<open>Links\<close>

record connection_info =
  ci_device_id :: device_key
  ci_connected_at :: instant
  ci_last_activity :: instant
  ci_packets_sent :: u64
  ci_packets_received :: u64
  ci_generation :: u64

definition new_connection_info :: "instant \<Rightarrow> device_key \<Rightarrow> u64 \<Rightarrow> connection_info" where
  "new_connection_info now did g =
     \<lparr>ci_device_id = did, ci_connected_at = now, ci_last_activity = now,
      ci_packets_sent = 0, ci_packets_received = 0, ci_generation = g\<rparr>"

definition update_activity :: "instant \<Rightarrow> connection_info \<Rightarrow> connection_info" where
  "update_activity now ci = ci\<lparr>ci_last_activity := now\<rparr>"

definition increment_sent :: "instant \<Rightarrow> connection_info \<Rightarrow> connection_info" where
  "increment_sent now ci = update_activity now (ci\<lparr>ci_packets_sent := ci_packets_sent ci + 1\<rparr>)"

definition increment_received :: "instant \<Rightarrow> connection_info \<Rightarrow> connection_info" where
  "increment_received now ci = update_activity now (ci\<lparr>ci_packets_received := ci_packets_received ci + 1\<rparr>)"

definition ci_duration :: "instant \<Rightarrow> connection_info \<Rightarrow> duration" where
  "ci_duration now ci = now - ci_connected_at ci"

definition is_idle :: "instant \<Rightarrow> duration \<Rightarrow> connection_info \<Rightarrow> bool" where
  "is_idle now threshold ci \<longleftrightarrow> threshold < now - ci_last_activity ci"

text \<open>How a write or a flush ends: done, or an error or a time-out after some bytes.\<close>

datatype wr = WrOk | WrErr nat | WrTimeout nat

record connection =
  cn_input :: "rd list"
  cn_written :: string
  cn_writes :: "wr list"
  cn_info :: connection_info
  cn_generation :: u64
  cn_peer_cert :: "string option"
  cn_peer_addr :: "sock_addr option"
  cn_local_addr :: "sock_addr option"

datatype split_brain_policy = Refuse | WarnOnly

section \<open>The manager\<close>

record conn_mgr = registry +
  connections :: "device_key \<rightharpoonup> connection"
  cancel_tokens :: "device_key \<rightharpoonup> nat"
  cancelled :: "nat set"
  last_connection_attempt :: "ip_addr \<rightharpoonup> instant"
  last_mdns_unicast :: "ip_addr \<rightharpoonup> instant"
  pending_connections :: "device_key set"
  cm_device_id :: string
  cm_device_name :: string
  incoming_caps :: "string list"
  outgoing_caps :: "string list"
  generations :: "device_key \<rightharpoonup> u64"
  cm_tcp_port :: "u16 option"
  peer_capabilities :: "device_key \<rightharpoonup> string list"
  policy :: split_brain_policy
  shutdowns :: "(device_key \<times> u64) list"
  udp_sent :: "(sock_addr \<times> string) list"
  plain_sent :: "(sock_addr \<times> string) list"

definition CONNECTION_RATE_LIMIT :: duration where "CONNECTION_RATE_LIMIT = millis 1000"

definition new_manager :: "registry \<Rightarrow> conn_mgr" where
  "new_manager r = registry.extend r
     (conn_mgr.fields Map.empty Map.empty {} Map.empty Map.empty {} '''' ''Rust Connect'' [] [] Map.empty None
        Map.empty Refuse [] [] [])"

definition add_pending_connection :: "device_key \<Rightarrow> 'z conn_mgr_scheme \<Rightarrow> bool \<times> 'z conn_mgr_scheme" where
  "add_pending_connection did s =
     (did \<notin> pending_connections s, s\<lparr>pending_connections := insert did (pending_connections s)\<rparr>)"

definition remove_pending_connection :: "device_key \<Rightarrow> 'z conn_mgr_scheme \<Rightarrow> 'z conn_mgr_scheme" where
  "remove_pending_connection did s = s\<lparr>pending_connections := pending_connections s - {did}\<rparr>"

text \<open>The rate-limit table both dialling paths use: an entry younger than a second refuses,
  otherwise the time is entered and entries of a minute and older are dropped.\<close>

definition too_soon :: "(ip_addr \<rightharpoonup> instant) \<Rightarrow> ip_addr \<Rightarrow> instant \<Rightarrow> bool" where
  "too_soon m ip now \<longleftrightarrow> (case m ip of Some prev \<Rightarrow> now - prev < CONNECTION_RATE_LIMIT | None \<Rightarrow> False)"

definition stamp :: "(ip_addr \<rightharpoonup> instant) \<Rightarrow> ip_addr \<Rightarrow> instant \<Rightarrow> instant \<Rightarrow> (ip_addr \<rightharpoonup> instant)" where
  "stamp m ip now now' = hm_retain (\<lambda>_ v. now' - v < secs 60) (m(ip \<mapsto> now))"

definition allow_mdns_unicast :: "ip_addr \<Rightarrow> clock \<Rightarrow> 'z conn_mgr_scheme \<Rightarrow> bool \<times> 'z conn_mgr_scheme" where
  "allow_mdns_unicast ip clk s =
     (if too_soon (last_mdns_unicast s) ip (clk 0) then (False, s)
      else (True, s\<lparr>last_mdns_unicast := stamp (last_mdns_unicast s) ip (clk 1) (clk 2)\<rparr>))"

definition set_split_brain_policy :: "split_brain_policy \<Rightarrow> 'z conn_mgr_scheme \<Rightarrow> 'z conn_mgr_scheme" where
  "set_split_brain_policy pol s = s\<lparr>policy := pol\<rparr>"

definition set_capabilities :: "string list \<Rightarrow> string list \<Rightarrow> 'z conn_mgr_scheme \<Rightarrow> 'z conn_mgr_scheme" where
  "set_capabilities inc out s = s\<lparr>incoming_caps := inc, outgoing_caps := out\<rparr>"

definition push_new :: "string list \<Rightarrow> string list \<Rightarrow> string list" where
  "push_new caps have_caps = fold (\<lambda>cap acc. if cap \<in> set acc then acc else acc @ [cap]) caps have_caps"

definition add_capabilities :: "string list \<Rightarrow> string list \<Rightarrow> 'z conn_mgr_scheme \<Rightarrow> 'z conn_mgr_scheme" where
  "add_capabilities inc out s =
     s\<lparr>incoming_caps := push_new inc (incoming_caps s), outgoing_caps := push_new out (outgoing_caps s)\<rparr>"

definition set_device_identity :: "string \<Rightarrow> string \<Rightarrow> 'z conn_mgr_scheme \<Rightarrow> 'z conn_mgr_scheme" where
  "set_device_identity did name s = s\<lparr>cm_device_id := did, cm_device_name := name\<rparr>"

definition set_tcp_port :: "u16 \<Rightarrow> 'z conn_mgr_scheme \<Rightarrow> 'z conn_mgr_scheme" where
  "set_tcp_port port s = s\<lparr>cm_tcp_port := Some port\<rparr>"

definition get_identity :: "'z conn_mgr_scheme \<Rightarrow> identity option" where
  "get_identity s =
     (if cm_device_id s = '''' then None
      else (let i = new_identity (cm_device_id s) (cm_device_name s) Desktop (incoming_caps s) (outgoing_caps s)
            in Some (case cm_tcp_port s of Some port \<Rightarrow> i\<lparr>tcp_port := Some port\<rparr> | None \<Rightarrow> i)))"

definition record_peer_capabilities ::
    "device_key \<Rightarrow> string list \<Rightarrow> string list \<Rightarrow> 'z conn_mgr_scheme \<Rightarrow> 'z conn_mgr_scheme" where
  "record_peer_capabilities did inc out s =
     (if inc = [] \<or> out = [] then s else s\<lparr>peer_capabilities := (peer_capabilities s)(did \<mapsto> inc)\<rparr>)"

definition peer_incoming_capabilities :: "device_key \<Rightarrow> 'z conn_mgr_scheme \<Rightarrow> string list option" where
  "peer_incoming_capabilities did s = peer_capabilities s did"

definition capable_consumer_ids :: "device_key list \<Rightarrow> string list \<Rightarrow> 'z conn_mgr_scheme \<Rightarrow> device_key list" where
  "capable_consumer_ids order wanted s =
     filter (\<lambda>did. case peer_capabilities s did of
                     None \<Rightarrow> False
                   | Some inc \<Rightarrow> list_ex (\<lambda>w. w \<in> set inc) wanted) order"

section \<open>Tokens, generations and queries\<close>

definition is_connected :: "device_key \<Rightarrow> 'z conn_mgr_scheme \<Rightarrow> bool" where
  "is_connected did s = hm_contains (connections s) did"

definition get_generation :: "device_key \<Rightarrow> 'z conn_mgr_scheme \<Rightarrow> u64 option" where
  "get_generation did s = map_option cn_generation (connections s did)"

definition is_current_generation :: "device_key \<Rightarrow> u64 \<Rightarrow> 'z conn_mgr_scheme \<Rightarrow> bool" where
  "is_current_generation did g s = (case connections s did of Some h \<Rightarrow> cn_generation h = g | None \<Rightarrow> False)"

definition register_cancel_token_if_current ::
    "nat \<Rightarrow> device_key \<Rightarrow> u64 \<Rightarrow> 'z conn_mgr_scheme \<Rightarrow> bool \<times> 'z conn_mgr_scheme" where
  "register_cancel_token_if_current tok did g s =
     (let current = is_current_generation did g s
      in (current, if current then s\<lparr>cancel_tokens := (cancel_tokens s)(did \<mapsto> tok)\<rparr> else s))"

definition cancel_loop :: "device_key \<Rightarrow> 'z conn_mgr_scheme \<Rightarrow> 'z conn_mgr_scheme" where
  "cancel_loop did s =
     (case cancel_tokens s did of Some tok \<Rightarrow> s\<lparr>cancelled := insert tok (cancelled s)\<rparr> | None \<Rightarrow> s)"

definition remove_cancel_token :: "device_key \<Rightarrow> 'z conn_mgr_scheme \<Rightarrow> 'z conn_mgr_scheme" where
  "remove_cancel_token did s = s\<lparr>cancel_tokens := hm_remove did (cancel_tokens s)\<rparr>"

definition remove_cancel_token_if_current ::
    "device_key \<Rightarrow> u64 \<Rightarrow> 'z conn_mgr_scheme \<Rightarrow> bool \<times> 'z conn_mgr_scheme" where
  "remove_cancel_token_if_current did g s =
     (let current = is_current_generation did g s
      in (current, if current then remove_cancel_token did s else s))"

definition get_connection_info :: "device_key \<Rightarrow> 'z conn_mgr_scheme \<Rightarrow> connection_info option" where
  "get_connection_info did s = map_option cn_info (connections s did)"

definition get_peer_certificate :: "device_key \<Rightarrow> 'z conn_mgr_scheme \<Rightarrow> string option" where
  "get_peer_certificate did s = (case connections s did of Some h \<Rightarrow> cn_peer_cert h | None \<Rightarrow> None)"

definition get_local_addr :: "device_key \<Rightarrow> 'z conn_mgr_scheme \<Rightarrow> sock_addr option" where
  "get_local_addr did s = (case connections s did of Some h \<Rightarrow> cn_local_addr h | None \<Rightarrow> None)"

definition get_peer_addr :: "device_key \<Rightarrow> 'z conn_mgr_scheme \<Rightarrow> sock_addr option" where
  "get_peer_addr did s = (case connections s did of Some h \<Rightarrow> cn_peer_addr h | None \<Rightarrow> None)"

definition cleanup_stale_generations :: "'z conn_mgr_scheme \<Rightarrow> 'z conn_mgr_scheme" where
  "cleanup_stale_generations s =
     s\<lparr>generations := hm_retain (\<lambda>did _. did \<in> dom (connections s)) (generations s)\<rparr>"

definition next_generation :: "device_key \<Rightarrow> 'z conn_mgr_scheme \<Rightarrow> u64 \<times> 'z conn_mgr_scheme" where
  "next_generation did s =
     (let g = (case generations s did of Some n \<Rightarrow> n | None \<Rightarrow> 0) + 1
      in (g, s\<lparr>generations := (generations s)(did \<mapsto> g)\<rparr>))"

section \<open>Disconnecting, sending and receiving\<close>

definition disconnect :: "device_key \<Rightarrow> u64 \<Rightarrow> ('z conn_mgr_scheme, bool) op" where
  "disconnect did g s =
     (if (case connections s did of Some h \<Rightarrow> cn_generation h \<noteq> g | None \<Rightarrow> False) then (Inr False, s)
      else (let s1 = remove_cancel_token did s;
                s2 = s1\<lparr>connections := hm_remove did (connections s1)\<rparr>
            in (Inr True, case connections s did of
                            Some h \<Rightarrow> s2\<lparr>shutdowns := shutdowns s2 @ [(did, cn_generation h)]\<rparr>
                          | None \<Rightarrow> s2)))"

text \<open>One write to a link: how it ends is the next entry of the link's script, an exhausted
  script means success; a failed write may have sent a prefix.\<close>

definition next_write :: "connection \<Rightarrow> wr \<times> connection" where
  "next_write h = (case cn_writes h of [] \<Rightarrow> (WrOk, h) | w # ws \<Rightarrow> (w, h\<lparr>cn_writes := ws\<rparr>))"

definition put_bytes :: "string \<Rightarrow> connection \<Rightarrow> connection" where
  "put_bytes bs h = h\<lparr>cn_written := cn_written h @ bs\<rparr>"

definition write_framed :: "string \<Rightarrow> (connection, unit) op" where
  "write_framed bs h =
     (case next_write h of
        (WrErr n, h1) \<Rightarrow> (Inl (ConnectionError ''Failed to send packet''), put_bytes (take n bs) h1)
      | (WrTimeout n, h1) \<Rightarrow> (Inl (ConnectionTimeout ''Timed out sending packet''), put_bytes (take n bs) h1)
      | (WrOk, h1) \<Rightarrow>
          (case next_write (put_bytes bs h1) of
             (WrOk, h2) \<Rightarrow> (Inr (), h2)
           | (WrErr _, h2) \<Rightarrow> (Inl (ConnectionError ''Failed to flush packet''), h2)
           | (WrTimeout _, h2) \<Rightarrow> (Inl (ConnectionTimeout ''Timed out flushing packet''), h2)))"

definition refuses_type :: "device_key \<Rightarrow> packet \<Rightarrow> 'z conn_mgr_scheme \<Rightarrow> bool" where
  "refuses_type did p s \<longleftrightarrow> \<not> is_identity p \<and> \<not> is_pair p
     \<and> (case peer_capabilities s did of Some inc \<Rightarrow> packet_type p \<notin> set inc | None \<Rightarrow> False)"

definition send_packet :: "externals \<Rightarrow> device_key \<Rightarrow> packet \<Rightarrow> clock \<Rightarrow> ('z conn_mgr_scheme, unit) op" where
  "send_packet E did p clk s =
     (case connections s did of
        None \<Rightarrow> (Inl (ConnectionError ''No connection for device''), s)
      | Some h \<Rightarrow>
          if refuses_type did p s then (Inl (CapabilityNotSupported did (packet_type p)), s)
          else (let bytes = serialize E p;
                    h1 = h\<lparr>cn_info := (cn_info h)\<lparr>ci_last_activity := clk 0\<rparr>\<rparr>
                in case write_framed bytes h1 of
                     (Inr _, h2) \<Rightarrow>
                       (Inr (), s\<lparr>connections := (connections s)(did \<mapsto> h2\<lparr>cn_info := increment_sent (clk 1) (cn_info h2)\<rparr>)\<rparr>)
                   | (Inl e, h2) \<Rightarrow>
                       (Inl e, snd (disconnect did (cn_generation h) (s\<lparr>connections := (connections s)(did \<mapsto> h2)\<rparr>)))))"

definition recv_packet_inner ::
    "externals \<Rightarrow> device_key \<Rightarrow> u64 option \<Rightarrow> clock \<Rightarrow> ('z conn_mgr_scheme, packet) op" where
  "recv_packet_inner E did gen clk s =
     (case connections s did of
        None \<Rightarrow> (Inl (ConnectionError ''No connection for device''), s)
      | Some h \<Rightarrow>
          if (case gen of Some g \<Rightarrow> cn_generation h \<noteq> g | None \<Rightarrow> False) then
            (Inl (ConnectionError ''Stale generation (link replaced)''), s)
          else (let (got, inp') = recv_line MAX_STEADY_PACKET_SIZE (cn_input h);
                    h1 = h\<lparr>cn_input := inp'\<rparr>;
                    put = (\<lambda>h'. s\<lparr>connections := (connections s)(did \<mapsto> h')\<rparr>)
                in case got of
                     RecvTimeout \<Rightarrow> (Inl (ConnectionTimeout ''Timed out receiving packet''), put h1)
                   | RecvClosed \<Rightarrow> (Inl (ConnectionError ''Connection closed''), put h1)
                   | RecvFailed e \<Rightarrow> (Inl (ConnectionError ''Failed to receive packet''), put h1)
                   | GotLine line \<Rightarrow>
                       (deserialize E line, put (h1\<lparr>cn_info := increment_received (clk 0) (cn_info h1)\<rparr>))))"

definition recv_packet_current :: "externals \<Rightarrow> device_key \<Rightarrow> u64 \<Rightarrow> clock \<Rightarrow> ('z conn_mgr_scheme, packet) op" where
  "recv_packet_current E did g clk = recv_packet_inner E did (Some g) clk"

section \<open>Handshakes\<close>

text \<open>
  A connected socket: its addresses, what it will deliver before TLS and after it, how the
  writes before TLS and after it end, and the TLS handshake of the other side.
\<close>

record socket =
  so_peer_addr :: "sock_addr option"
  so_local_addr :: "sock_addr option"
  so_plain :: "rd list"
  so_plain_writes :: "wr list"
  so_tls :: tls_peer
  so_secure :: "rd list"
  so_writes :: "wr list"

text \<open>Unwrapping a buffered reader gives back the socket: what the reader had buffered (the
  rest of a partly consumed chunk) goes with it.\<close>

definition into_inner :: "rd list \<Rightarrow> rd list \<Rightarrow> rd list" where
  "into_inner before after = (if after = drop (length before - length after) before then after else tl after)"

definition read_identity_line :: "string \<Rightarrow> string \<Rightarrow> rd list \<Rightarrow> (string \<times> rd list) res" where
  "read_identity_line timeout_msg fail_msg inp =
     (case read_line_bounded MAX_PACKET_SIZE 0 [] inp of
        (TimedOut, _, _) \<Rightarrow> Inl (ConnectionTimeout timeout_msg)
      | (Finished (Inl e), _, _) \<Rightarrow>
          Inl (case e of PacketTooLarge _ _ \<Rightarrow> e | _ \<Rightarrow> ConnectionError fail_msg)
      | (Finished (Inr len), line, inp') \<Rightarrow>
          if len = 0 then Inl (ConnectionError ''Connection closed before sending identity'')
          else Inr (line, into_inner inp inp'))"

definition parse_identity :: "externals \<Rightarrow> string \<Rightarrow> identity res" where
  "parse_identity E line =
     rbind (deserialize E line) (\<lambda>p.
       if \<not> is_identity p then Inl (InvalidPacket ''Expected identity packet'')
       else rbind (from_packet E p) (\<lambda>i.
            rbind (validate_device_id E (device_id i)) (\<lambda>_. Inr i)))"

definition check_peer_cert :: "externals \<Rightarrow> device_key \<Rightarrow> string option \<Rightarrow> ('z conn_mgr_scheme, unit) op" where
  "check_peer_cert E did cert s =
     (case cert of
        Some c \<Rightarrow>
          sbind (slift (extract_cn_from_der E c)) (\<lambda>cn.
            if cn \<noteq> did then sfail (CertificateError ''Certificate CN does not match device ID from identity packet'')
            else on_disk (verify_peer_certificate E (cert_manager s) did c)) s
      | None \<Rightarrow>
          if has_peer_fingerprint E (cert_manager s) did (sh_disk s)
          then (Inl (CertificateError ''Expected peer certificate but none presented''), s)
          else (Inr (), s))"

definition new_link ::
    "rd list \<Rightarrow> wr list \<Rightarrow> instant \<Rightarrow> device_key \<Rightarrow> u64 \<Rightarrow> string option \<Rightarrow> sock_addr option \<Rightarrow> sock_addr option \<Rightarrow> connection" where
  "new_link inp ws now did g cert peer loc =
     \<lparr>cn_input = inp, cn_written = [], cn_writes = ws, cn_info = new_connection_info now did g, cn_generation = g,
      cn_peer_cert = cert, cn_peer_addr = peer, cn_local_addr = loc\<rparr>"

definition evict :: "device_key \<Rightarrow> connection option \<Rightarrow> 'z conn_mgr_scheme \<Rightarrow> 'z conn_mgr_scheme" where
  "evict did old s =
     (case old of
        None \<Rightarrow> s
      | Some h \<Rightarrow> (let s1 = remove_cancel_token did (cancel_loop did s)
                  in s1\<lparr>shutdowns := shutdowns s1 @ [(did, cn_generation h)]\<rparr>))"

definition install_inbound ::
    "socket \<Rightarrow> identity \<Rightarrow> string option \<Rightarrow> instant \<Rightarrow> ('z conn_mgr_scheme, device_key \<times> identity \<times> u64) op" where
  "install_inbound k i cert now s =
     (let did = device_id i;
          s1 = record_peer_capabilities did (incoming_capabilities i) (outgoing_capabilities i) s;
          old = connections s1 did
      in if (case old of Some h \<Rightarrow> \<not> (cert \<noteq> None \<and> cn_peer_cert h = cert) | None \<Rightarrow> False) then
           (Inl (CertificateError ''Device already connected and presented a different certificate''), s1)
         else (let (g, s2) = next_generation did s1;
                   h = new_link (so_secure k) (so_writes k) now did g cert (so_peer_addr k) (so_local_addr k);
                   s3 = s2\<lparr>connections := (connections s2)(did \<mapsto> h)\<rparr>
               in (Inr (did, i, g), evict did old s3)))"

definition non_local :: "sock_addr option \<Rightarrow> bool" where
  "non_local a \<longleftrightarrow> (case a of Some (SockAddr ip _) \<Rightarrow> \<not> is_private_address ip | None \<Rightarrow> False)"

definition accept_incoming ::
    "externals \<Rightarrow> rustls \<Rightarrow> socket \<Rightarrow> clock \<Rightarrow> ('z conn_mgr_scheme, device_key \<times> identity \<times> u64) op" where
  "accept_incoming E R k clk s =
     (if non_local (so_peer_addr k) then (Inl (ConnectionError ''Discarding connection from a non-local IP''), s)
      else sbind (slift (read_identity_line ''Timed out reading plaintext identity''
                           ''Failed to read plaintext identity'' (so_plain k))) (\<lambda>(line, _).
           sbind (slift (parse_identity E line)) (\<lambda>i s.
             if device_id i = cm_device_id s then
               (Inl (ConnectionError ''Rejecting incoming connection from self''), s)
             else if (case target_device_id i of
                        Some t \<Rightarrow> \<not> device_id_matches_kde_normalized t (cm_device_id s) | None \<Rightarrow> False) then
               (Inl (ConnectionError ''Received a connection request for a device that isn't us''), s)
             else if (case target_protocol_version i of Some v \<Rightarrow> v \<noteq> PROTOCOL_VERSION | None \<Rightarrow> False) then
               (Inl (ConnectionError ''Received a connection request for a protocol version that isn't ours''), s)
             else sbind (on_disk (tls_connect E R (cert_manager s) (device_id i) (so_tls k))) (\<lambda>cert.
                  sbind (check_peer_cert E (device_id i) cert) (\<lambda>_.
                    install_inbound k i cert (clk 0))) s)) s)"

datatype udp_outcome = UdpOk | UdpBindErr | UdpSendErr
datatype unicast_error = Build | Serialize | Bind | Send

definition unicast_identity ::
    "externals \<Rightarrow> i64 \<Rightarrow> udp_outcome \<Rightarrow> identity \<Rightarrow> ip_addr \<Rightarrow> u16 \<Rightarrow> 'z conn_mgr_scheme
     \<Rightarrow> (unicast_error + sock_addr) \<times> 'z conn_mgr_scheme" where
  "unicast_identity E pid out our ip port s =
     (let bytes = serialize E (to_packet pid our); target = SockAddr ip port
      in case out of
           UdpBindErr \<Rightarrow> (Inl Bind, s)
         | UdpSendErr \<Rightarrow> (Inl Send, s)
         | UdpOk \<Rightarrow> (Inr target, s\<lparr>udp_sent := udp_sent s @ [(target, bytes)]\<rparr>))"

definition send_reverse_connection_fallback ::
    "externals \<Rightarrow> i64 \<Rightarrow> udp_outcome \<Rightarrow> identity \<Rightarrow> ip_addr \<Rightarrow> u16 \<Rightarrow> 'z conn_mgr_scheme \<Rightarrow> 'z conn_mgr_scheme" where
  "send_reverse_connection_fallback E pid out our ip port s = snd (unicast_identity E pid out our ip port s)"

datatype dial = DialOk socket | DialErr | DialTimeout

text \<open>The outcomes of two raw writes in a row (the bytes and the flush).\<close>

definition raw_write :: "error \<Rightarrow> error \<Rightarrow> wr list \<Rightarrow> wr list res" where
  "raw_write e_write e_flush ws =
     (case ws of
        [] \<Rightarrow> Inr []
      | WrOk # [] \<Rightarrow> Inr []
      | WrOk # WrOk # ws' \<Rightarrow> Inr ws'
      | WrOk # _ \<Rightarrow> Inl e_flush
      | _ \<Rightarrow> Inl e_write)"

definition install_outbound ::
    "string \<Rightarrow> rd list \<Rightarrow> wr list \<Rightarrow> sock_addr \<Rightarrow> sock_addr option \<Rightarrow> identity \<Rightarrow> string option \<Rightarrow> instant
     \<Rightarrow> ('z conn_mgr_scheme, device_key \<times> identity \<times> u64) op" where
  "install_outbound sent inp ws addr loc i cert now s =
     (let did = device_id i;
          s1 = record_peer_capabilities did (incoming_capabilities i) (outgoing_capabilities i) s;
          (g, s2) = next_generation did s1;
          h = (new_link inp ws now did g cert (Some addr) loc)\<lparr>cn_written := sent\<rparr>;
          s3 = evict did (connections s2 did) s2;
          s4 = s3\<lparr>connections := (connections s3)(did \<mapsto> h)\<rparr>
      in (Inr (did, i, g), cleanup_stale_generations s4))"

definition matches_expected :: "identity option \<Rightarrow> identity \<Rightarrow> unit res" where
  "matches_expected expected i =
     (case expected of
        None \<Rightarrow> Inr ()
      | Some x \<Rightarrow>
          if device_id i \<noteq> device_id x then Inl (InvalidPacket ''Encrypted identity deviceId does not match pre-TLS identity'')
          else if protocol_version i \<noteq> protocol_version x then
            Inl (InvalidPacket ''Encrypted identity protocolVersion differs from pre-TLS'')
          else Inr ())"

definition connect_over ::
    "externals \<Rightarrow> rustls \<Rightarrow> draws \<Rightarrow> packet \<Rightarrow> identity option \<Rightarrow> sock_addr \<Rightarrow> clock \<Rightarrow> socket
     \<Rightarrow> ('z conn_mgr_scheme, device_key \<times> identity \<times> u64) op" where
  "connect_over E R rnd our_packet expected addr clk k s =
     sbind (on_disk (ensure_own_certificate E (cert_manager s) (draw_key rnd) (draw_serial rnd) (clk 3) (cm_device_id s))) (\<lambda>_.
     sbind (on_disk (tls_accept E R (cert_manager s) None (so_tls k))) (\<lambda>cert.
     sbind (slift (raw_write (ConnectionError ''Failed to send encrypted identity'')
                     (ConnectionError ''Failed to flush encrypted identity'') (so_writes k))) (\<lambda>ws.
     sbind (slift (read_identity_line ''Timed out reading identity'' ''Failed to read encrypted identity'' (so_secure k))) (\<lambda>(line, inp).
     sbind (slift (parse_identity E line)) (\<lambda>i.
     sbind (slift (matches_expected expected i)) (\<lambda>_.
     sbind (check_peer_cert E (device_id i) cert) (\<lambda>_.
       install_outbound (serialize E our_packet) inp ws addr (so_local_addr k) i cert (clk 4)))))))) s"

definition connect_to_device_with_fallback_port ::
    "externals \<Rightarrow> rustls \<Rightarrow> draws \<Rightarrow> (nat \<Rightarrow> i64) \<Rightarrow> udp_outcome \<Rightarrow> identity \<Rightarrow> sock_addr \<Rightarrow> identity option \<Rightarrow> u16
     \<Rightarrow> clock \<Rightarrow> dial \<Rightarrow> ('z conn_mgr_scheme, device_key \<times> identity \<times> u64) op" where
  "connect_to_device_with_fallback_port E R rnd pid udp our addr expected port clk net s =
     (case addr of SockAddr ip _ \<Rightarrow>
        if too_soon (last_connection_attempt s) ip (clk 0) then
          (Inl (ConnectionError ''Rate limited: too soon since last connection attempt''), s)
        else (let s1 = s\<lparr>last_connection_attempt := stamp (last_connection_attempt s) ip (clk 1) (clk 2)\<rparr>;
                  fallback = send_reverse_connection_fallback E (pid 0) udp our ip port
              in case net of
                   DialErr \<Rightarrow> (Inl (ConnectionError ''Failed to connect''), fallback s1)
                 | DialTimeout \<Rightarrow> (Inl (ConnectionTimeout ''TCP connect timed out''), fallback s1)
                 | DialOk k \<Rightarrow>
                     (case raw_write (ConnectionError ''Failed to send plaintext identity'')
                             (ConnectionError ''Failed to flush plaintext identity'') (so_plain_writes k) of
                        Inl e \<Rightarrow> (Inl e, fallback s1)
                      | Inr _ \<Rightarrow>
                          connect_over E R rnd (to_tcp_packet (pid 2) our) expected addr clk k
                            (s1\<lparr>plain_sent := plain_sent s1 @ [(addr, serialize E (to_tcp_packet (pid 1) our))]\<rparr>))))"

definition fallback_udp_port :: u16 where "fallback_udp_port = DEFAULT_UDP_PORT"

definition connect_to_device ::
    "externals \<Rightarrow> rustls \<Rightarrow> draws \<Rightarrow> (nat \<Rightarrow> i64) \<Rightarrow> udp_outcome \<Rightarrow> identity \<Rightarrow> sock_addr \<Rightarrow> identity option
     \<Rightarrow> clock \<Rightarrow> dial \<Rightarrow> ('z conn_mgr_scheme, device_key \<times> identity \<times> u64) op" where
  "connect_to_device E R rnd pid udp our addr expected clk net =
     connect_to_device_with_fallback_port E R rnd pid udp our addr expected fallback_udp_port clk net"

section \<open>What the handshakes check\<close>

definition cert_ok :: "externals \<Rightarrow> certificate_manager \<Rightarrow> device_key \<Rightarrow> string option \<Rightarrow> disk \<Rightarrow> bool" where
  "cert_ok E cm did cert d \<longleftrightarrow>
     (case cert of
        Some c \<Rightarrow> extract_cn_from_der E c = Inr did \<and> pinned_fp E cm did d \<in> {None, Some (compute_fingerprint E c)}
      | None \<Rightarrow> pinned_fp E cm did d = None)"

lemma cert_ok_cong: "files d' = files d \<Longrightarrow> cert_ok E cm did cert d' = cert_ok E cm did cert d"
  using pinned_fp_cong [of d' d E cm did] by (cases cert) (simp_all add: cert_ok_def)

text \<open>Two states that differ at most in the disk, and in it not in the files.\<close>

definition same_but_disk :: "'z conn_mgr_scheme \<Rightarrow> 'z conn_mgr_scheme \<Rightarrow> bool" where
  "same_but_disk s t \<longleftrightarrow> t = s\<lparr>sh_disk := sh_disk t\<rparr> \<and> files (sh_disk t) = files (sh_disk s)"

lemma same_but_disk_refl [simp]: "same_but_disk s s"
  by (simp add: same_but_disk_def)

lemma same_but_disk_trans [trans]: "same_but_disk s t \<Longrightarrow> same_but_disk t u \<Longrightarrow> same_but_disk s u"
  unfolding same_but_disk_def by (metis shared.update_convs(1) shared.surjective)

lemma same_but_disk_fields:
  assumes "same_but_disk s t"
  shows "connections t = connections s" "generations t = generations s" "cancel_tokens t = cancel_tokens s"
    "cancelled t = cancelled s" "cm_device_id t = cm_device_id s" "cert_manager t = cert_manager s"
    "peer_capabilities t = peer_capabilities s" "shutdowns t = shutdowns s" "paired t = paired s"
    "files (sh_disk t) = files (sh_disk s)"
proof -
  from assms have t: "t = s\<lparr>sh_disk := sh_disk t\<rparr>" and f: "files (sh_disk t) = files (sh_disk s)"
    unfolding same_but_disk_def by auto
  show "connections t = connections s" by (subst t) simp
  show "generations t = generations s" by (subst t) simp
  show "cancel_tokens t = cancel_tokens s" by (subst t) simp
  show "cancelled t = cancelled s" by (subst t) simp
  show "cm_device_id t = cm_device_id s" by (subst t) simp
  show "cert_manager t = cert_manager s" by (subst t) simp
  show "peer_capabilities t = peer_capabilities s" by (subst t) simp
  show "shutdowns t = shutdowns s" by (subst t) simp
  show "paired t = paired s" by (subst t) simp
  show "files (sh_disk t) = files (sh_disk s)" by (rule f)
qed

lemma same_but_disk_on_disk:
  assumes "on_disk m s = (r, t)" and "\<And>r d'. m (sh_disk s) = (r, d') \<Longrightarrow> files d' = files (sh_disk s)"
  shows "same_but_disk s t"
  using on_disk_files [OF assms(1)] assms(2) by (auto simp: same_but_disk_def)

lemma verify_peer_certificate_pin:
  "verify_peer_certificate E cm did c d = (Inr u, d') \<Longrightarrow>
     pinned_fp E cm did d \<in> {None, Some (compute_fingerprint E c)}"
  by (auto simp: verify_peer_certificate_def has_peer_fingerprint_iff split: if_splits dest: verify_fingerprint_Inr)

lemma check_peer_cert_effect:
  assumes "check_peer_cert E did cert s = (r, t)"
  shows "same_but_disk s t" and "r = Inr u \<Longrightarrow> cert_ok E (cert_manager s) did cert (sh_disk s)"
proof -
  show "same_but_disk s t"
    using assms
    by (auto simp: check_peer_cert_def sbind_def slift_def sfail_def
        split: option.splits sum.splits if_splits
        intro: same_but_disk_on_disk dest: verify_peer_certificate_files)
  show "cert_ok E (cert_manager s) did cert (sh_disk s)" if "r = Inr u"
  proof (cases cert)
    case None
    with assms that show ?thesis
      by (auto simp: check_peer_cert_def cert_ok_def has_peer_fingerprint_iff split: if_splits)
  next
    case (Some c)
    with assms that have "extract_cn_from_der E c = Inr did"
      and "on_disk (verify_peer_certificate E (cert_manager s) did c) s = (Inr u, t)"
      by (auto simp: check_peer_cert_def sbind_def slift_def sfail_def split: sum.splits if_splits)
    with Some show ?thesis
      using verify_peer_certificate_pin on_disk_files by (fastforce simp: cert_ok_def)
  qed
qed

lemma sbind_cases [consumes 1, case_names stop go]:
  assumes "sbind m f s = (r, t)"
  obtains e where "m s = (Inl e, t)" "r = Inl e"
  | a s1 where "m s = (Inr a, s1)" "f a s1 = (r, t)"
  using assms by (auto simp: sbind_def split: prod.splits sum.splits)

definition addressed_to_us :: "identity \<Rightarrow> 'z conn_mgr_scheme \<Rightarrow> bool" where
  "addressed_to_us i s \<longleftrightarrow> device_id i \<noteq> cm_device_id s
     \<and> (\<forall>t. target_device_id i = Some t \<longrightarrow> device_id_matches_kde_normalized t (cm_device_id s))
     \<and> (\<forall>v. target_protocol_version i = Some v \<longrightarrow> v = PROTOCOL_VERSION)"

lemma parse_identity_valid: "parse_identity E line = Inr i \<Longrightarrow> valid_id E (device_id i)"
  by (auto simp: parse_identity_def result_simps split: if_splits)

text \<open>Either a handshake is refused and nothing but the disk script moved, or every check has
  passed and the link is installed.\<close>

lemma accept_incoming_cases [consumes 1, case_names refused installed]:
  assumes "accept_incoming E R k clk s = (r, t)"
  obtains e where "r = Inl e" "same_but_disk s t"
  | i cert s1 where "\<not> non_local (so_peer_addr k)" "valid_id E (device_id i)" "addressed_to_us i s"
      "same_but_disk s s1" "cert_ok E (cert_manager s) (device_id i) cert (sh_disk s)"
      "install_inbound k i cert (clk 0) s1 = (r, t)"
proof (cases "non_local (so_peer_addr k)")
  case True
  with assms that(1) show thesis by (auto simp: accept_incoming_def)
next
  case local: False
  let ?rd = "read_identity_line ''Timed out reading plaintext identity'' ''Failed to read plaintext identity'' (so_plain k)"
  show thesis
  proof (cases "rbind ?rd (\<lambda>(line, _). parse_identity E line)")
    case (Inl e)
    with assms local have "r = Inl e" "t = s"
      by (auto simp: accept_incoming_def sbind_def slift_def split: sum.splits prod.splits)
    with that(1) show thesis by simp
  next
    case (Inr i)
    then have vid: "valid_id E (device_id i)"
      by (auto simp: result_simps dest: parse_identity_valid)
    show thesis
    proof (cases "addressed_to_us i s")
      case False
      with assms local Inr have "is_err r" "t = s"
        by (auto simp: accept_incoming_def sbind_def slift_def addressed_to_us_def result_simps
            split: sum.splits prod.splits option.splits if_splits)
      with that(1) show thesis by (cases r) auto
    next
      case True
      with assms local Inr have
        "sbind (on_disk (tls_connect E R (cert_manager s) (device_id i) (so_tls k))) (\<lambda>cert.
           sbind (check_peer_cert E (device_id i) cert) (\<lambda>_. install_inbound k i cert (clk 0))) s = (r, t)"
        by (auto simp: accept_incoming_def slift_def addressed_to_us_def result_simps split: option.splits)
      then show thesis
      proof (cases rule: sbind_cases)
        case (stop e)
        with that(1) show thesis
          using same_but_disk_on_disk tls_connect_files by metis
      next
        case (go cert s1)
        have 1: "same_but_disk s s1"
          by (rule same_but_disk_on_disk [OF go(1)]) (rule tls_connect_files)
        from go(2) show thesis
        proof (cases rule: sbind_cases)
          case (stop e)
          with that(1) 1 show thesis using check_peer_cert_effect(1) same_but_disk_trans by metis
        next
          case (go u s2)
          then have 2: "same_but_disk s s2" "cert_ok E (cert_manager s) (device_id i) cert (sh_disk s)"
            using 1 check_peer_cert_effect [OF go(1)] same_but_disk_trans same_but_disk_fields [OF 1] cert_ok_cong by metis+
          with that(2) local vid True go(2) show thesis by blast
        qed
      qed
    qed
  qed
qed

section \<open>Incoming links\<close>

text \<open>The fields of the connection tables, which a refused handshake leaves alone.\<close>

definition links :: "'z conn_mgr_scheme \<Rightarrow> _" where
  "links s = (connections s, generations s, cancel_tokens s, cancelled s, shutdowns s, peer_capabilities s)"

lemma same_but_disk_links: "same_but_disk s t \<Longrightarrow> links t = links s \<and> paired t = paired s \<and> files (sh_disk t) = files (sh_disk s)"
  by (simp add: links_def same_but_disk_fields)

lemma record_caps_fields [simp]:
  "connections (record_peer_capabilities did inc out s) = connections s"
  "generations (record_peer_capabilities did inc out s) = generations s"
  "cancel_tokens (record_peer_capabilities did inc out s) = cancel_tokens s"
  "cancelled (record_peer_capabilities did inc out s) = cancelled s"
  "shutdowns (record_peer_capabilities did inc out s) = shutdowns s"
  "paired (record_peer_capabilities did inc out s) = paired s"
  "sh_disk (record_peer_capabilities did inc out s) = sh_disk s"
  by (simp_all add: record_peer_capabilities_def)

lemma evict_fields [simp]:
  "connections (evict did old s) = connections s" "generations (evict did old s) = generations s"
  "paired (evict did old s) = paired s" "sh_disk (evict did old s) = sh_disk s"
  by (simp_all add: evict_def Let_def remove_cancel_token_def cancel_loop_def split: option.splits)

lemma evict_tokens:
  "cancel_tokens (evict did old s) = (if old = None then cancel_tokens s else hm_remove did (cancel_tokens s))"
  "cancelled (evict did old s) =
     (if old = None then cancelled s else cancelled s \<union> set_option (cancel_tokens s did))"
  "shutdowns (evict did old s) =
     shutdowns s @ (case old of None \<Rightarrow> [] | Some h \<Rightarrow> [(did, cn_generation h)])"
  by (auto simp: evict_def Let_def remove_cancel_token_def cancel_loop_def split: option.splits)

text \<open>The generation a new link of a device gets.\<close>

definition fresh_generation :: "device_key \<Rightarrow> 'z conn_mgr_scheme \<Rightarrow> u64" where
  "fresh_generation did s = (case generations s did of Some n \<Rightarrow> n | None \<Rightarrow> 0) + 1"

lemma install_inbound_Inr:
  assumes "install_inbound k i cert now s = (Inr (did, j, g), t)"
  shows "did = device_id i" "j = i" "g = fresh_generation did s"
    "connections t = (connections s)(did \<mapsto>
       new_link (so_secure k) (so_writes k) now did g cert (so_peer_addr k) (so_local_addr k))"
    "generations t = (generations s)(did \<mapsto> g)"
    "connections s did = Some old \<Longrightarrow> cert \<noteq> None \<and> cn_peer_cert old = cert"
    "cancel_tokens t = (if connections s did = None then cancel_tokens s else hm_remove did (cancel_tokens s))"
    "connections s did = Some old \<Longrightarrow> cancel_tokens s did = Some tok \<Longrightarrow> tok \<in> cancelled t"
    "shutdowns t = shutdowns s @ (case connections s did of None \<Rightarrow> [] | Some h \<Rightarrow> [(did, cn_generation h)])"
    "paired t = paired s" "sh_disk t = sh_disk s"
  using assms
  by (auto simp: install_inbound_def Let_def next_generation_def fresh_generation_def evict_tokens
      split: if_splits option.splits)

lemma install_inbound_Inl:
  assumes "install_inbound k i cert now s = (Inl e, t)"
  shows "connections t = connections s" "generations t = generations s" "cancel_tokens t = cancel_tokens s"
    "cancelled t = cancelled s" "shutdowns t = shutdowns s" "paired t = paired s" "sh_disk t = sh_disk s"
    "connections s (device_id i) \<noteq> None"
  using assms
  by (auto simp: install_inbound_def Let_def next_generation_def split: if_splits option.splits)

text \<open>Property C3.
  A link that the inbound handshake installs has passed every check: the peer's address is
  local, the device id is valid and not our own, the request was addressed to us and to our
  protocol version, the certificate names the device and matches the pin (without a
  certificate there is no pin), and a link it replaces had the very same certificate. The
  link gets the next generation; the replaced link is shut down, its loop cancelled and its
  token gone; links of other devices, the paired devices and the files do not change.\<close>

theorem accept_incoming_sound:
  assumes "accept_incoming E R k clk s = (Inr (did, i, g), t)"
  shows "\<not> non_local (so_peer_addr k) \<and> did = device_id i \<and> valid_id E did \<and> addressed_to_us i s
    \<and> (\<exists>h. connections t = (connections s)(did \<mapsto> h) \<and> cn_generation h = g
          \<and> cert_ok E (cert_manager s) did (cn_peer_cert h) (sh_disk s)
          \<and> (\<forall>old. connections s did = Some old \<longrightarrow>
                cn_peer_cert h \<noteq> None \<and> cn_peer_cert old = cn_peer_cert h
                \<and> shutdowns t = shutdowns s @ [(did, cn_generation old)]
                \<and> set_option (cancel_tokens s did) \<subseteq> cancelled t \<and> cancel_tokens t did = None))
    \<and> g = fresh_generation did s \<and> generations t = (generations s)(did \<mapsto> g)
    \<and> paired t = paired s \<and> files (sh_disk t) = files (sh_disk s)"
  using assms
proof (cases rule: accept_incoming_cases)
  case (installed j cert s1)
  note inst = install_inbound_Inr [OF installed(6)] and same = same_but_disk_fields [OF installed(4)]
  let ?h = "new_link (so_secure k) (so_writes k) (clk 0) did g cert (so_peer_addr k) (so_local_addr k)"
  have g: "fresh_generation did s1 = fresh_generation did s" by (simp add: fresh_generation_def same)
  have "connections t = (connections s)(did \<mapsto> ?h)" using inst(4) same by simp
  moreover have "cn_generation ?h = g" "cn_peer_cert ?h = cert" by (simp_all add: new_link_def)
  ultimately show ?thesis
    using installed(1,2,3,5) inst same g by (intro conjI exI [of _ ?h]) (auto simp: same)
qed simp

text \<open>A handshake that fails, at whatever point and for whatever reason, disturbs nobody: every
  link, generation, token and pairing is as before and no file has changed, so a stranger
  cannot displace a live link by connecting and failing.\<close>

theorem accept_incoming_refused:
  assumes "accept_incoming E R k clk s = (Inl e, t)"
  shows "connections t = connections s \<and> generations t = generations s \<and> cancel_tokens t = cancel_tokens s
    \<and> cancelled t = cancelled s \<and> shutdowns t = shutdowns s \<and> paired t = paired s
    \<and> files (sh_disk t) = files (sh_disk s)"
  using assms
proof (cases rule: accept_incoming_cases)
  case (refused e)
  then show ?thesis by (simp add: same_but_disk_fields)
next
  case (installed i cert s1)
  then show ?thesis using install_inbound_Inl [OF installed(6)] same_but_disk_fields [OF installed(4)] by simp
qed

subsection \<open>A handshake that succeeds\<close>

definition link_externals :: externals where
  "link_externals = demo_externals\<lparr>json_parse := \<lambda>_. Some (packet_to_json (to_packet 1 demo_identity))\<rparr>"

definition demo_line :: string where "demo_line = ''{}'' @ [newline]"

definition demo_socket :: socket where
  "demo_socket = \<lparr>so_peer_addr = Some (SockAddr (V4 192 168 1 5) 1716), so_local_addr = None,
     so_plain = [Chunk demo_line], so_plain_writes = [], so_tls = TlsCerts [demo_id],
     so_secure = [Chunk (demo_line @ ''{''), Chunk ''}''], so_writes = []\<rparr>"

definition demo_manager :: conn_mgr where
  "demo_manager = (new_manager demo_registry)\<lparr>cm_device_id := short_id\<rparr>"

definition demo_rustls :: rustls where
  "demo_rustls = \<lparr>rl_certs = (\<lambda>c. Some [c]), rl_key = Some, rl_accepts = (\<lambda>_ _. True)\<rparr>"

lemma demo_manager_simps [simp]:
  "connections demo_manager = Map.empty" "generations demo_manager = Map.empty"
  "cancel_tokens demo_manager = Map.empty" "cm_device_id demo_manager = short_id"
  "cert_manager demo_manager = demo_certs" "sh_disk demo_manager = demo_disk []"
  "last_connection_attempt demo_manager = Map.empty" "peer_capabilities demo_manager = Map.empty"
  "paired demo_manager = Map.empty" "devices demo_manager = Map.empty" "shutdowns demo_manager = []"
  "cancelled demo_manager = {}"
  by (simp_all add: demo_manager_def new_manager_def registry.extend_def conn_mgr.fields_def demo_registry_def
      pairing_handler.extend_def demo_handler_def new_handler_def)

lemma from_packet_demo: "from_packet E (to_packet 1 demo_identity) = Inr demo_identity"
  by (simp add: from_packet_def to_packet_def new_packet_def demo_identity_def new_identity_def
      Let_def sanitize_phone valid_demo_id_Inr)
     (simp add: demo_id_def PROTOCOL_VERSION_def)

lemma demo_line_packet: "deserialize link_externals demo_line = Inr (to_packet 1 demo_identity)"
proof -
  have "deserialize link_externals demo_line = packet_of_json (packet_to_json (to_packet 1 demo_identity))"
    by (simp add: demo_line_def deserialize_braces [unfolded append.simps] link_externals_def)
  also have "\<dots> = Inr (to_packet 1 demo_identity)"
    by (rule packet_of_to_json) (simp add: to_packet_def new_packet_def)
  finally show ?thesis .
qed

lemma parse_demo_line: "parse_identity link_externals demo_line = Inr demo_identity"
  by (simp add: parse_identity_def from_packet_demo demo_line_packet) (simp add: is_identity_def to_packet_def new_packet_def
      demo_identity_def new_identity_def valid_demo_id_Inr)

lemma demo_identity_simps [simp]:
  "device_id demo_identity = demo_id" "target_device_id demo_identity = None"
  "target_protocol_version demo_identity = None" "protocol_version demo_identity = 8"
  by (simp_all add: demo_identity_def new_identity_def PROTOCOL_VERSION_def)

lemma demo_id_not_short [simp]: "demo_id \<noteq> short_id"
  by (simp add: demo_id_def short_id_def)

lemma read_demo_line:
  "read_identity_line a b [Chunk demo_line] = Inr (demo_line, [])"
  "read_identity_line a b [Chunk (demo_line @ ''{''), Chunk ''}''] = Inr (demo_line, [Chunk ''}''])"
  by (simp_all add: read_identity_line_def demo_line_def newline_def MAX_PACKET_SIZE_def unread_def into_inner_def)

lemma demo_tls_connect:
  "tls_connect link_externals R demo_certs demo_id (TlsCerts [c]) (demo_disk []) = (Inr (Some c), demo_disk [])"
  by (simp add: tls_connect_def sbind_def verify_server_cert_eq verify_peer_certificate_def has_peer_fingerprint_iff
      has_own_certificate_def path_exists_def demo_disk_def pinned_fp_def first_cert_def)

lemma demo_check:
  "sh_disk s = demo_disk [] \<Longrightarrow> cert_manager s = demo_certs \<Longrightarrow>
     check_peer_cert link_externals demo_id (Some c) s =
       (if c = demo_id then Inr ()
        else Inl (CertificateError ''Certificate CN does not match device ID from identity packet''), s)"
  by (simp add: check_peer_cert_def sbind_def slift_def sfail_def extract_cn_from_der_def link_externals_def
      demo_externals_def on_disk_def verify_peer_certificate_def has_peer_fingerprint_iff pinned_fp_def)
     (simp add: demo_disk_def)

lemma demo_accept_runs:
  assumes "sh_disk s = demo_disk []" and "cert_manager s = demo_certs" and "cm_device_id s = short_id"
  shows "accept_incoming link_externals R (demo_socket\<lparr>so_tls := TlsCerts [c]\<rparr>) clk s =
    (if c = demo_id then install_inbound (demo_socket\<lparr>so_tls := TlsCerts [c]\<rparr>) demo_identity (Some c) (clk 0) s
     else (Inl (CertificateError ''Certificate CN does not match device ID from identity packet''), s))"
proof -
  have nl: "\<not> non_local (so_peer_addr demo_socket)"
    by (simp add: non_local_def demo_socket_def)
  have "s\<lparr>sh_disk := sh_disk s\<rparr> = s" by simp
  then have s: "s\<lparr>sh_disk := demo_disk []\<rparr> = s" using assms(1) by simp
  have "on_disk (tls_connect link_externals R demo_certs demo_id (TlsCerts [c])) s = (Inr (Some c), s)"
    unfolding on_disk_def assms(1) demo_tls_connect by (simp add: s)
  then show ?thesis
    using nl assms(2,3) demo_check [OF assms(1,2), of c]
    by (simp add: accept_incoming_def sbind_def slift_def demo_socket_def read_demo_line parse_demo_line)
qed

definition demo_linked :: conn_mgr where
  "demo_linked = snd (install_inbound demo_socket demo_identity (Some demo_id) 0 demo_manager)"

lemma demo_socket_tls: "demo_socket\<lparr>so_tls := TlsCerts [demo_id]\<rparr> = demo_socket"
  by (simp add: demo_socket_def)

lemma demo_install: "install_inbound demo_socket demo_identity (Some demo_id) 0 demo_manager = (Inr (demo_id, demo_identity, 1), demo_linked)"
  unfolding demo_linked_def by (simp add: install_inbound_def Let_def next_generation_def)

theorem accept_incoming_sound_witness:
  "accept_incoming link_externals demo_rustls demo_socket (\<lambda>_. 0) demo_manager = (Inr (demo_id, demo_identity, 1), demo_linked)
   \<and> generations demo_linked = [demo_id \<mapsto> 1]"
proof -
  have "accept_incoming link_externals demo_rustls demo_socket (\<lambda>_. 0) demo_manager = (Inr (demo_id, demo_identity, 1), demo_linked)"
    using demo_accept_runs [of demo_manager demo_rustls demo_id "\<lambda>_. 0"] by (simp add: demo_socket_tls demo_install)
  with accept_incoming_sound [OF this] show ?thesis by simp
qed

lemma demo_linked_simps [simp]:
  "sh_disk demo_linked = demo_disk []" "cert_manager demo_linked = demo_certs" "cm_device_id demo_linked = short_id"
  "generations demo_linked = [demo_id \<mapsto> 1]" "cancel_tokens demo_linked = Map.empty"
  "connections demo_linked = [demo_id \<mapsto> new_link (so_secure demo_socket) [] 0 demo_id 1 (Some demo_id) (so_peer_addr demo_socket) None]"
  "last_connection_attempt demo_linked = Map.empty"
  using install_inbound_Inr [OF demo_install]
  by (simp_all add: demo_linked_def install_inbound_def Let_def next_generation_def evict_def record_peer_capabilities_def)
     (simp_all add: demo_socket_def)

theorem accept_incoming_refused_witness:
  "connections (snd (accept_incoming link_externals demo_rustls (demo_socket\<lparr>so_tls := TlsCerts [''EVIL'']\<rparr>) (\<lambda>_. 0) demo_linked))
     = connections demo_linked"
proof -
  have "''EVIL'' \<noteq> demo_id" by (simp add: demo_id_def)
  then have "accept_incoming link_externals demo_rustls (demo_socket\<lparr>so_tls := TlsCerts [''EVIL'']\<rparr>) (\<lambda>_. 0) demo_linked
      = (Inl (CertificateError ''Certificate CN does not match device ID from identity packet''), demo_linked)"
    by (simp add: demo_accept_runs)
  with accept_incoming_refused [OF this] show ?thesis by simp
qed

section \<open>Outgoing links\<close>

lemma own_paths_not_fingerprint:
  "(cert_dir cm, did @ ''_fingerprint.txt'') \<noteq> own_cert_path cm"
  "(cert_dir cm, did @ ''_fingerprint.txt'') \<noteq> own_key_path cm"
  by (auto simp: own_cert_path_def own_key_path_def dest!: arg_cong [where f = length])

lemma own_certificate_is_valid_files: "own_certificate_is_valid E cm now d = (b, d') \<Longrightarrow> files d' = files d"
  by (auto simp: own_certificate_is_valid_def split: prod.splits sum.splits dest!: fs_read_frame)

lemma ensure_own_certificate_pins:
  assumes "ensure_own_certificate E cm kg sg now own d = (r, d')"
  shows "pinned_fp E cm did d' = pinned_fp E cm did d"
proof -
  let ?p = "(cert_dir cm, did @ ''_fingerprint.txt'')"
  obtain b d1 where v: "(if has_own_certificate cm d then own_certificate_is_valid E cm now d else (False, d)) = (b, d1)"
    by fastforce
  then have f1: "files d1 = files d" by (auto split: if_splits dest: own_certificate_is_valid_files)
  show ?thesis
  proof (cases "\<not> b \<and> is_ok (generate_certificate E kg sg now own)")
    case True
    then obtain c k where "generate_certificate E kg sg now own = Inr (c, k)" by (auto simp: is_ok_iff)
    with True assms v have "store_own_certificate cm c k d1 = (r, d')"
      by (simp add: ensure_own_certificate_def sbind_def slift_def)
    from store_own_certificate_all [OF this] have "files d' ?p = files d1 ?p"
      using own_paths_not_fingerprint by metis
    with f1 show ?thesis by (simp add: pinned_fp_def)
  next
    case False
    with assms v have "d' = d1"
      by (cases "generate_certificate E kg sg now own") (auto simp: ensure_own_certificate_def sbind_def slift_def split: if_splits)
    with f1 show ?thesis by (simp add: pinned_fp_def)
  qed
qed

text \<open>Two states with the same links, trust and configuration; the disk, the rate limits and
  what was sent outside a link may differ.\<close>

definition same_links :: "externals \<Rightarrow> 'z conn_mgr_scheme \<Rightarrow> 'z conn_mgr_scheme \<Rightarrow> bool" where
  "same_links E s t \<longleftrightarrow> links t = links s \<and> paired t = paired s \<and> cert_manager t = cert_manager s
     \<and> cm_device_id t = cm_device_id s
     \<and> (\<forall>did. pinned_fp E (cert_manager s) did (sh_disk t) = pinned_fp E (cert_manager s) did (sh_disk s))"

lemma same_links_refl [simp]: "same_links E s s"
  by (simp add: same_links_def)

lemma same_links_trans [trans]: "same_links E s t \<Longrightarrow> same_links E t u \<Longrightarrow> same_links E s u"
  by (simp add: same_links_def)

lemma same_links_on_disk:
  assumes "on_disk m s = (r, t)"
    and "\<And>r d' did. m (sh_disk s) = (r, d') \<Longrightarrow> pinned_fp E (cert_manager s) did d' = pinned_fp E (cert_manager s) did (sh_disk s)"
  shows "same_links E s t"
  using on_disk_files [OF assms(1)] assms(2) by (auto simp: same_links_def links_def)

lemma same_links_disk: "same_but_disk s t \<Longrightarrow> same_links E s t"
  by (simp add: same_links_def links_def same_but_disk_fields pinned_fp_def)

lemma cert_ok_links: "same_links E s t \<Longrightarrow> cert_ok E (cert_manager t) did cert (sh_disk t) = cert_ok E (cert_manager s) did cert (sh_disk s)"
  by (cases cert) (auto simp: cert_ok_def same_links_def)

lemma connect_over_cases [consumes 1, case_names refused installed]:
  assumes "connect_over E R rnd p expected addr clk k s = (r, t)"
  obtains e where "r = Inl e" "same_links E s t"
  | i cert ws line inp s1 where "same_links E s s1" "valid_id E (device_id i)" "matches_expected expected i = Inr ()"
      "cert_ok E (cert_manager s) (device_id i) cert (sh_disk s)"
      "read_identity_line ''Timed out reading identity'' ''Failed to read encrypted identity'' (so_secure k) = Inr (line, inp)"
      "install_outbound (serialize E p) inp ws addr (so_local_addr k) i cert (clk 4) s1 = (r, t)"
  using assms unfolding connect_over_def
proof (cases rule: sbind_cases)
  case (stop e)
  have "same_links E s t"
    by (rule same_links_on_disk [OF stop(1)]) (rule ensure_own_certificate_pins)
  with stop that(1) show thesis by blast
next
  case (go u s1)
  have 1: "same_links E s s1"
    by (rule same_links_on_disk [OF go(1)]) (rule ensure_own_certificate_pins)
  from go(2) show thesis
  proof (cases rule: sbind_cases)
    case (stop e)
    have "same_links E s1 t"
      by (rule same_links_on_disk [OF stop(1)]) (rule pinned_fp_cong, rule tls_accept_files)
    with stop that(1) 1 same_links_trans show thesis by blast
  next
    case (go cert s2)
    have 2: "same_links E s1 s2"
      by (rule same_links_on_disk [OF go(1)]) (rule pinned_fp_cong, rule tls_accept_files)
    note 12 = same_links_trans [OF 1 2]
    show thesis
    proof (cases "\<exists>ws line inp i. raw_write (ConnectionError ''Failed to send encrypted identity'')
          (ConnectionError ''Failed to flush encrypted identity'') (so_writes k) = Inr ws
        \<and> read_identity_line ''Timed out reading identity'' ''Failed to read encrypted identity'' (so_secure k) = Inr (line, inp)
        \<and> parse_identity E line = Inr i \<and> matches_expected expected i = Inr ()")
      case False
      with go(2) have "t = s2" "is_err r"
        by (auto simp: sbind_def slift_def split: sum.splits prod.splits)
      with that(1) 12 show thesis by (cases r) auto
    next
      case True
      then obtain ws line inp i where ok: "matches_expected expected i = Inr ()" "parse_identity E line = Inr i"
        "read_identity_line ''Timed out reading identity'' ''Failed to read encrypted identity'' (so_secure k) = Inr (line, inp)"
        and "raw_write (ConnectionError ''Failed to send encrypted identity'')
          (ConnectionError ''Failed to flush encrypted identity'') (so_writes k) = Inr ws"
        by blast
      with go(2) have "sbind (check_peer_cert E (device_id i) cert) (\<lambda>_.
          install_outbound (serialize E p) inp ws addr (so_local_addr k) i cert (clk 4)) s2 = (r, t)"
        by (simp add: slift_def)
      then show thesis
      proof (cases rule: sbind_cases)
        case (stop e)
        with that(1) 12 check_peer_cert_effect(1) same_links_disk same_links_trans show thesis by blast
      next
        case (go v s3)
        have "same_links E s2 s3" using check_peer_cert_effect(1) [OF go(1)] by (rule same_links_disk)
        moreover have "cert_ok E (cert_manager s) (device_id i) cert (sh_disk s)"
          using check_peer_cert_effect(2) [OF go(1) refl] cert_ok_links [OF 12] by simp
        ultimately show thesis
          using that(2) [OF same_links_trans [OF 12] parse_identity_valid [OF ok(2)] ok(1)] ok(3) go(2) by blast
      qed
    qed
  qed
qed

lemma install_outbound_effect:
  assumes "install_outbound sent inp ws addr loc i cert now s = (r, t)"
  shows "r = Inr (device_id i, i, fresh_generation (device_id i) s)"
    "connections t = (connections s)(device_id i \<mapsto>
       (new_link inp ws now (device_id i) (fresh_generation (device_id i) s) cert (Some addr) loc)\<lparr>cn_written := sent\<rparr>)"
    "generations t = hm_retain (\<lambda>did _. did \<in> insert (device_id i) (dom (connections s)))
       ((generations s)(device_id i \<mapsto> fresh_generation (device_id i) s))"
    "cancel_tokens t = (if connections s (device_id i) = None then cancel_tokens s
                        else hm_remove (device_id i) (cancel_tokens s))"
    "shutdowns t = shutdowns s @
       (case connections s (device_id i) of None \<Rightarrow> [] | Some h \<Rightarrow> [(device_id i, cn_generation h)])"
    "paired t = paired s"
  using assms
  by (auto simp: install_outbound_def Let_def next_generation_def fresh_generation_def evict_tokens
      cleanup_stale_generations_def)

lemma fallback_links [simp]: "same_links E' s (send_reverse_connection_fallback E pid out our ip port s)"
  by (simp add: send_reverse_connection_fallback_def unicast_identity_def Let_def same_links_def links_def split: udp_outcome.splits)

lemma same_links_unlinked [simp]:
  "same_links E s (s\<lparr>last_connection_attempt := m\<rparr>)" "same_links E s (s\<lparr>plain_sent := l\<rparr>)"
  "same_links E s (s\<lparr>last_connection_attempt := m, plain_sent := l\<rparr>)"
  by (simp_all add: same_links_def links_def)

lemma connect_cases [consumes 1, case_names refused installed]:
  assumes "connect_to_device E R rnd pid udp our addr expected clk net s = (r, t)"
  obtains e where "r = Inl e" "same_links E s t"
  | k i cert ws line inp s1 where "net = DialOk k" "same_links E s s1" "valid_id E (device_id i)"
      "matches_expected expected i = Inr ()" "cert_ok E (cert_manager s) (device_id i) cert (sh_disk s)"
      "read_identity_line ''Timed out reading identity'' ''Failed to read encrypted identity'' (so_secure k) = Inr (line, inp)"
      "install_outbound (serialize E (to_tcp_packet (pid 2) our)) inp ws addr (so_local_addr k) i cert (clk 4) s1 = (r, t)"
proof -
  obtain ip pt where addr: "addr = SockAddr ip pt" by (cases addr)
  let ?s1 = "s\<lparr>last_connection_attempt := stamp (last_connection_attempt s) ip (clk 1) (clk 2)\<rparr>"
  have fb: "same_links E s (send_reverse_connection_fallback E (pid 0) udp our ip fallback_udp_port ?s1)"
    by (rule same_links_trans [OF same_links_unlinked(1) fallback_links])
  show thesis
  proof (cases "\<exists>k ws. net = DialOk k \<and> \<not> too_soon (last_connection_attempt s) ip (clk 0)
      \<and> raw_write (ConnectionError ''Failed to send plaintext identity'')
          (ConnectionError ''Failed to flush plaintext identity'') (so_plain_writes k) = Inr ws")
    case False
    with assms addr fb have "is_err r \<and> same_links E s t"
      by (auto simp: connect_to_device_def connect_to_device_with_fallback_port_def Let_def
          split: if_splits dial.splits sum.splits)
    with that(1) show thesis by (cases r) auto
  next
    case True
    then obtain k ws where k: "net = DialOk k" "\<not> too_soon (last_connection_attempt s) ip (clk 0)"
      "raw_write (ConnectionError ''Failed to send plaintext identity'')
          (ConnectionError ''Failed to flush plaintext identity'') (so_plain_writes k) = Inr ws" by blast
    let ?s2 = "?s1\<lparr>plain_sent := plain_sent ?s1 @ [(addr, serialize E (to_tcp_packet (pid 1) our))]\<rparr>"
    have "connect_over E R rnd (to_tcp_packet (pid 2) our) expected addr clk k ?s2 = (r, t)"
      using assms addr k by (simp add: connect_to_device_def connect_to_device_with_fallback_port_def Let_def)
    moreover have s2: "same_links E s ?s2" by simp
    ultimately show thesis
    proof (cases rule: connect_over_cases)
      case (refused e)
      with that(1) s2 same_links_trans show thesis by blast
    next
      case (installed i cert ws line inp s1)
      with that(2) k(1) s2 same_links_trans cert_ok_links [OF s2] show thesis by blast
    qed
  qed
qed

text \<open>Property C10.
  A link that an outgoing connection installs has passed every check: the device id is
  valid, the identity sent inside TLS is the one announced before it (same id and protocol
  version) when there was one, and the certificate names the device and matches the pin. The
  link gets the next generation, the link it replaces is shut down, and other links and all
  pairings stay. A connection that fails leaves every link, token, generation, pairing and
  pin alone.\<close>

theorem connect_to_device_sound:
  assumes "connect_to_device E R rnd pid udp our addr expected clk net s = (r, t)"
  shows "case r of
      Inl _ \<Rightarrow> links t = links s \<and> paired t = paired s
        \<and> (\<forall>did. pinned_fp E (cert_manager s) did (sh_disk t) = pinned_fp E (cert_manager s) did (sh_disk s))
    | Inr (did, i, g) \<Rightarrow> did = device_id i \<and> valid_id E did
        \<and> (\<forall>x. expected = Some x \<longrightarrow> did = device_id x \<and> protocol_version i = protocol_version x)
        \<and> (\<exists>h. connections t = (connections s)(did \<mapsto> h) \<and> cn_generation h = g
              \<and> cert_ok E (cert_manager s) did (cn_peer_cert h) (sh_disk s))
        \<and> g = fresh_generation did s
        \<and> (\<forall>old. connections s did = Some old \<longrightarrow>
              shutdowns t = shutdowns s @ [(did, cn_generation old)] \<and> cancel_tokens t did = None)
        \<and> paired t = paired s"
  using assms
proof (cases rule: connect_cases)
  case (refused e)
  then show ?thesis by (simp add: same_links_def)
next
  case (installed k i cert ws line inp s1)
  note eff = install_outbound_effect [OF installed(7)]
  from installed(2) have same: "connections s1 = connections s" "generations s1 = generations s"
    "cancel_tokens s1 = cancel_tokens s" "shutdowns s1 = shutdowns s" "paired s1 = paired s"
    by (simp_all add: same_links_def links_def)
  have g: "fresh_generation did s1 = fresh_generation did s" for did by (simp add: fresh_generation_def same)
  have "expected = Some x \<Longrightarrow> device_id i = device_id x \<and> protocol_version i = protocol_version x" for x
    using installed(4) by (auto simp: matches_expected_def split: if_splits)
  then show ?thesis
    using installed(3,5) eff same by (auto simp: g new_link_def)
qed

text \<open>An outgoing connection loses what the peer sends right behind its identity: when the
  chunk that ends the peer's identity line carries further bytes, they are in the buffer of
  the reader that is unwrapped, and the link's input starts with the next chunk.\<close>

theorem outbound_drops_buffered_bytes:
  assumes "connect_to_device E R rnd pid udp our addr expected clk (DialOk k) s = (Inr (did, i, g), t)"
    and "so_secure k = Chunk (p @ newline # extra) # inp" and "newline \<notin> set p" and "extra \<noteq> []"
  shows "\<exists>h. connections t did = Some h \<and> cn_input h = inp"
  using assms(1)
proof (cases rule: connect_cases)
  case (refused e)
  then show ?thesis by simp
next
  case (installed k' i' cert ws line inp' s1)
  have "cut_line (p @ newline # extra) = (p @ [newline], extra, True)"
    using assms(3) by (rule cut_line_line)
  with installed(1,6) assms(2,4) have "inp' = inp"
    by (auto simp: read_identity_line_def unread_def into_inner_def split: if_splits)
  with install_outbound_effect [OF installed(7)] show ?thesis by (simp add: new_link_def)
qed

subsection \<open>A dial that succeeds\<close>

definition demo_dialer :: conn_mgr where
  "demo_dialer = demo_manager\<lparr>sh_disk := demo_own_disk ''AAAA''\<rparr>"

definition demo_addr :: sock_addr where "demo_addr = SockAddr (V4 192 168 1 5) 1716"

lemma demo_dialer_simps [simp]:
  "sh_disk demo_dialer = demo_own_disk ''AAAA''" "cert_manager demo_dialer = demo_certs"
  "connections demo_dialer = Map.empty" "generations demo_dialer = Map.empty" "cm_device_id demo_dialer = short_id"
  "last_connection_attempt demo_dialer = Map.empty" "cancel_tokens demo_dialer = Map.empty"
  by (simp_all add: demo_dialer_def)

lemma link_pem: "pem_to_der link_externals p = pem_to_der demo_externals p"
  by (simp add: pem_to_der_def link_externals_def)

lemma demo_ensure: "ensure_own_certificate link_externals demo_certs kg sg now own (demo_own_disk ''AAAA'') = (Inr (), demo_own_disk ''AAAA'')"
proof -
  have "fs_read e (own_cert_path demo_certs) (demo_own_disk ''AAAA'') = (Inr (der_to_pem demo_externals ''AAAA''), demo_own_disk ''AAAA'')" for e
    by (simp add: fs_read_def next_outcome_def demo_own_disk_def demo_disk_def own_cert_path_def own_key_path_def)
  then have "own_certificate_is_valid link_externals demo_certs now (demo_own_disk ''AAAA'') = (True, demo_own_disk ''AAAA'')"
    using demo_own_load [OF b64_demo(1)]
    by (simp add: own_certificate_is_valid_def link_pem parse_x509_der_def) (simp add: link_externals_def demo_externals_def)
  moreover have "has_own_certificate demo_certs (demo_own_disk ''AAAA'')"
    by (simp add: has_own_certificate_def path_exists_def demo_own_disk_def own_cert_path_def own_key_path_def)
  ultimately show ?thesis by (simp add: ensure_own_certificate_def)
qed

lemma demo_tls_accept:
  "tls_accept link_externals demo_rustls demo_certs None (TlsCerts [c]) (demo_own_disk ''AAAA'') = (Inr (Some c), demo_own_disk ''AAAA'')"
proof -
  have "load_own_identity demo_rustls demo_certs (demo_own_disk ''AAAA'') =
      (Inr ([der_to_pem demo_externals ''AAAA''], ''KEY''), demo_own_disk ''AAAA'')"
    using demo_own_load [OF b64_demo(1)]
    by (simp add: load_own_identity_def sbind_def slift_def sreturn_def ok_or_def demo_rustls_def)
  then show ?thesis
    by (simp add: tls_accept_def sbind_def verify_client_cert_def first_cert_def) (simp add: demo_rustls_def)
qed

lemma demo_own_pin: "pinned_fp E demo_certs did (demo_own_disk der) = None"
  using own_paths_not_fingerprint [of demo_certs did] by (simp add: pinned_fp_def demo_own_disk_def demo_disk_def)

lemma demo_dial_check:
  assumes "sh_disk s = demo_own_disk ''AAAA''" and "cert_manager s = demo_certs"
  shows "check_peer_cert link_externals demo_id (Some demo_id) s = (Inr (), s)"
proof -
  have "extract_cn_from_der link_externals demo_id = Inr demo_id"
    by (simp add: extract_cn_from_der_def link_externals_def demo_externals_def)
  moreover have "verify_peer_certificate link_externals demo_certs demo_id demo_id (sh_disk s) = (Inr (), sh_disk s)"
    by (simp add: verify_peer_certificate_def has_peer_fingerprint_iff demo_own_pin assms)
  ultimately show ?thesis
    unfolding check_peer_cert_def assms(2) by (simp add: sbind_def slift_def on_disk_def)
qed

lemma demo_on_disk: "m (sh_disk s) = (r, sh_disk s) \<Longrightarrow> on_disk m s = (r, s)"
  by (simp add: on_disk_def)

lemma demo_connect_over:
  assumes "sh_disk s = demo_own_disk ''AAAA''" and "cert_manager s = demo_certs"
  shows "connect_over link_externals demo_rustls rnd p (Some demo_identity) addr clk demo_socket s
    = install_outbound (serialize link_externals p) [Chunk ''}''] [] addr None demo_identity (Some demo_id) (clk 4) s"
proof -
  have 1: "on_disk (ensure_own_certificate link_externals demo_certs kg sg now own) s = (Inr (), s)" for kg sg now own
    by (rule demo_on_disk) (simp add: demo_ensure assms)
  have 2: "on_disk (tls_accept link_externals demo_rustls demo_certs None (so_tls demo_socket)) s = (Inr (Some demo_id), s)"
    by (rule demo_on_disk) (simp add: demo_tls_accept demo_socket_def assms)
  have so: "so_writes demo_socket = []" "so_local_addr demo_socket = None"
    "so_secure demo_socket = [Chunk (demo_line @ ''{''), Chunk ''}'']" by (simp_all add: demo_socket_def)
  show ?thesis
    unfolding connect_over_def assms(2)
    by (simp add: sbind_def 1 2 slift_def so raw_write_def read_demo_line parse_demo_line matches_expected_def
        demo_dial_check assms)
qed

definition demo_dialed :: conn_mgr where
  "demo_dialed = snd (connect_to_device link_externals demo_rustls demo_draws (\<lambda>_. 7) UdpOk demo_identity demo_addr
     (Some demo_identity) (\<lambda>_. 0) (DialOk demo_socket) demo_dialer)"

lemma demo_connect:
  "connect_to_device link_externals demo_rustls demo_draws (\<lambda>_. 7) UdpOk demo_identity demo_addr (Some demo_identity)
     (\<lambda>_. 0) (DialOk demo_socket) demo_dialer = (Inr (demo_id, demo_identity, 1), demo_dialed)"
proof -
  have "so_plain_writes demo_socket = []" by (simp add: demo_socket_def)
  then have "fst (connect_to_device link_externals demo_rustls demo_draws (\<lambda>_. 7) UdpOk demo_identity demo_addr (Some demo_identity)
     (\<lambda>_. 0) (DialOk demo_socket) demo_dialer) = Inr (demo_id, demo_identity, 1)"
    by (simp add: connect_to_device_def connect_to_device_with_fallback_port_def demo_addr_def raw_write_def Let_def
        too_soon_def demo_connect_over install_outbound_def next_generation_def record_peer_capabilities_def)
  then show ?thesis unfolding demo_dialed_def by (metis prod.collapse)
qed

theorem connect_to_device_sound_witness:
  "\<exists>h. connections demo_dialed = [demo_id \<mapsto> h] \<and> cn_generation h = 1"
  using connect_to_device_sound [OF demo_connect] by auto

theorem outbound_drops_buffered_bytes_witness:
  "\<exists>h. connections demo_dialed demo_id = Some h \<and> cn_input h = [Chunk ''}'']"
  by (rule outbound_drops_buffered_bytes [OF demo_connect, of "''{}''" "''{''"])
     (simp_all add: demo_socket_def demo_line_def newline_def)

section \<open>Generations\<close>

text \<open>
  The contract that the packet loops rely on: an action taken for a generation that is not
  the current one of the device does nothing. A loop whose link was replaced can then run
  any sequence of such actions without touching the new link.
\<close>

locale generation_guard =
  fixes current :: "'s \<Rightarrow> device_key \<Rightarrow> u64 option"
    and act :: "'a \<Rightarrow> device_key \<Rightarrow> u64 \<Rightarrow> 's \<Rightarrow> 's"
  assumes stale: "current s did = Some g' \<Longrightarrow> g \<noteq> g' \<Longrightarrow> act a did g s = s"
begin

lemma stale_run:
  assumes "current s did = Some g'" and "g \<noteq> g'"
  shows "fold (\<lambda>a. act a did g) as s = s"
  by (induction as) (use assms stale in simp_all)

end

datatype guarded = GDisconnect | GRegister nat | GRemoveToken | GReceive clock

fun run_guarded :: "externals \<Rightarrow> guarded \<Rightarrow> device_key \<Rightarrow> u64 \<Rightarrow> 'z conn_mgr_scheme \<Rightarrow> 'z conn_mgr_scheme" where
  "run_guarded E GDisconnect did g s = snd (disconnect did g s)"
| "run_guarded E (GRegister tok) did g s = snd (register_cancel_token_if_current tok did g s)"
| "run_guarded E GRemoveToken did g s = snd (remove_cancel_token_if_current did g s)"
| "run_guarded E (GReceive clk) did g s = snd (recv_packet_current E did g clk s)"

interpretation links: generation_guard "\<lambda>s did. get_generation did s" "run_guarded E"
proof
  fix s :: "'z conn_mgr_scheme" and did g g' a
  assume "get_generation did s = Some g'" and "g \<noteq> g'"
  then obtain h where "connections s did = Some h" "cn_generation h \<noteq> g"
    by (auto simp: get_generation_def)
  then show "run_guarded E a did g s = s"
    by (cases a) (simp_all add: disconnect_def register_cancel_token_if_current_def is_current_generation_def
        remove_cancel_token_if_current_def recv_packet_current_def recv_packet_inner_def)
qed

text \<open>
  The invariant of the manager: every live link carries the newest generation of its device,
  its record agrees with it, its id is valid and its certificate names the device, and
  tokens belong to live links.
\<close>

definition link_ok :: "externals \<Rightarrow> device_key \<Rightarrow> u64 option \<Rightarrow> connection \<Rightarrow> bool" where
  "link_ok E did gen h \<longleftrightarrow> gen = Some (cn_generation h) \<and> ci_generation (cn_info h) = cn_generation h
     \<and> ci_device_id (cn_info h) = did \<and> valid_id E did
     \<and> (\<forall>c. cn_peer_cert h = Some c \<longrightarrow> extract_cn_from_der E c = Inr did)"

definition conn_inv :: "externals \<Rightarrow> 'z conn_mgr_scheme \<Rightarrow> bool" where
  "conn_inv E s \<longleftrightarrow> (\<forall>did h. connections s did = Some h \<longrightarrow> link_ok E did (generations s did) h)
     \<and> dom (cancel_tokens s) \<subseteq> dom (connections s)"

lemma conn_inv_links: "links t = links s \<Longrightarrow> conn_inv E t = conn_inv E s"
  by (simp add: conn_inv_def links_def)

lemma new_link_ok:
  "valid_id E did \<Longrightarrow> cert_ok E cm did cert d \<Longrightarrow> gen = Some g \<Longrightarrow>
     link_ok E did gen (new_link inp ws now did g cert peer loc)"
  by (auto simp: link_ok_def new_link_def new_connection_info_def cert_ok_def)

lemma link_ok_written [simp]: "link_ok E did gen (h\<lparr>cn_written := w\<rparr>) = link_ok E did gen h"
  by (simp add: link_ok_def)

text \<open>A link that replaces or updates another one keeps the invariant when it is well formed
  and the generations of the others stay.\<close>

lemma conn_inv_install:
  assumes "conn_inv E s" and "connections t = (connections s)(did \<mapsto> h)" and "link_ok E did (generations t did) h"
    and "\<And>k. k \<noteq> did \<Longrightarrow> k \<in> dom (connections s) \<Longrightarrow> generations t k = generations s k"
    and "dom (cancel_tokens t) \<subseteq> insert did (dom (cancel_tokens s))"
  shows "conn_inv E t"
  using assms by (fastforce simp: conn_inv_def split: if_splits)

lemma accept_incoming_inv:
  assumes "accept_incoming E R k clk s = (r, t)" and "conn_inv E s"
  shows "conn_inv E t"
  using assms(1)
proof (cases rule: accept_incoming_cases)
  case (refused e)
  with assms(2) show ?thesis using same_but_disk_links conn_inv_links by blast
next
  case (installed i cert s1)
  note same = same_but_disk_fields [OF installed(4)]
  have inv1: "conn_inv E s1" using installed(4) assms(2) same_but_disk_links conn_inv_links by blast
  show ?thesis
  proof (cases r)
    case (Inl e)
    then show ?thesis
      using install_inbound_Inl [of k i cert "clk 0" s1 e t] installed(6) inv1 by (simp add: conn_inv_def)
  next
    case (Inr x)
    then obtain did j g where "r = Inr (did, j, g)" by (cases x) auto
    note inst = install_inbound_Inr [OF installed(6) [unfolded this]]
    show ?thesis
      by (rule conn_inv_install [OF inv1 inst(4)])
         (use inst installed(2,5) in \<open>auto intro: new_link_ok split: if_splits\<close>)
  qed
qed

lemma connect_inv:
  assumes "connect_to_device E R rnd pid udp our addr expected clk net s = (r, t)" and "conn_inv E s"
  shows "conn_inv E t"
  using assms(1)
proof (cases rule: connect_cases)
  case (refused e)
  with assms(2) show ?thesis using conn_inv_links same_links_def by blast
next
  case (installed k i cert ws line inp s1)
  have inv1: "conn_inv E s1" using installed(2) assms(2) conn_inv_links same_links_def by blast
  note eff = install_outbound_effect [OF installed(7)]
  have gen: "generations t (device_id i) = Some (fresh_generation (device_id i) s1)"
    using eff(3) by (simp add: hm_retain_Some_iff)
  show ?thesis
  proof (rule conn_inv_install [OF inv1 eff(2)])
    show "link_ok E (device_id i) (generations t (device_id i))
      (new_link inp ws (clk 4) (device_id i) (fresh_generation (device_id i) s1) cert (Some addr) (so_local_addr k)\<lparr>cn_written :=
        serialize E (to_tcp_packet (pid 2) our)\<rparr>)"
      unfolding link_ok_written using installed(3,5) gen by (rule new_link_ok)
    fix k' assume "k' \<noteq> device_id i" "k' \<in> dom (connections s1)"
    then show "generations t k' = generations s1 k'"
      using eff(3) by (simp add: hm_retain_def split: option.splits)
  qed (use eff(4) in \<open>auto split: if_splits\<close>)
qed

lemma write_framed_fields:
  assumes "write_framed bs h = (r, h')"
  shows "cn_generation h' = cn_generation h" "cn_peer_cert h' = cn_peer_cert h" "cn_info h' = cn_info h"
    "cn_input h' = cn_input h" "r = Inr () \<Longrightarrow> cn_written h' = cn_written h @ bs"
  using assms
  by (auto simp: write_framed_def next_write_def put_bytes_def split: list.splits wr.splits prod.splits)

lemma disconnect_inv: "disconnect did g s = (r, t) \<Longrightarrow> conn_inv E s \<Longrightarrow> conn_inv E t"
  by (auto simp: disconnect_def conn_inv_def Let_def remove_cancel_token_def subset_iff dom_def split: if_splits option.splits)

lemma conn_inv_update:
  assumes "conn_inv E s" and "connections s did = Some h" and "cn_generation h' = cn_generation h"
    and "cn_peer_cert h' = cn_peer_cert h" and "ci_generation (cn_info h') = ci_generation (cn_info h)"
    and "ci_device_id (cn_info h') = ci_device_id (cn_info h)"
  shows "conn_inv E (s\<lparr>connections := (connections s)(did \<mapsto> h')\<rparr>)"
  using assms by (auto simp: conn_inv_def link_ok_def)

lemma send_packet_inv:
  assumes "send_packet E' did p clk s = (r, t)" and "conn_inv E s"
  shows "conn_inv E t"
proof (cases "connections s did")
  case None
  with assms show ?thesis by (simp add: send_packet_def)
next
  case (Some h)
  let ?h1 = "h\<lparr>cn_info := (cn_info h)\<lparr>ci_last_activity := clk 0\<rparr>\<rparr>"
  obtain r' h2 where w: "write_framed (serialize E' p) ?h1 = (r', h2)" by fastforce
  note f = write_framed_fields [OF w]
  let ?h3 = "h2\<lparr>cn_info := increment_sent (clk 1) (cn_info h2)\<rparr>"
  have inv2: "conn_inv E (s\<lparr>connections := (connections s)(did \<mapsto> h2)\<rparr>)"
    by (rule conn_inv_update [OF assms(2) Some]) (simp_all add: f)
  have inv3: "conn_inv E (s\<lparr>connections := (connections s)(did \<mapsto> ?h3)\<rparr>)"
    by (rule conn_inv_update [OF assms(2) Some]) (simp_all add: f increment_sent_def update_activity_def)
  have "t = s \<or> t = s\<lparr>connections := (connections s)(did \<mapsto> ?h3)\<rparr>
      \<or> t = snd (disconnect did (cn_generation h) (s\<lparr>connections := (connections s)(did \<mapsto> h2)\<rparr>))"
    using assms(1) Some w by (auto simp: send_packet_def Let_def split: if_splits sum.splits)
  with assms(2) inv2 inv3 show ?thesis
    using disconnect_inv prod.collapse by metis
qed

lemma recv_packet_inv:
  assumes "recv_packet_inner E' did gen clk s = (r, t)" and "conn_inv E s"
  shows "conn_inv E t"
proof (cases "connections s did")
  case None
  with assms show ?thesis by (simp add: recv_packet_inner_def)
next
  case (Some h)
  have "conn_inv E (s\<lparr>connections := (connections s)(did \<mapsto> h\<lparr>cn_input := inp'\<rparr>)\<rparr>)" for inp'
    by (rule conn_inv_update [OF assms(2) Some]) simp_all
  moreover have "conn_inv E (s\<lparr>connections := (connections s)(did \<mapsto>
      h\<lparr>cn_input := inp', cn_info := increment_received (clk 0) (cn_info h)\<rparr>)\<rparr>)" for inp'
    by (rule conn_inv_update [OF assms(2) Some]) (simp_all add: increment_received_def update_activity_def)
  ultimately show ?thesis
    using assms Some
    by (auto simp: recv_packet_inner_def Let_def split: if_splits prod.splits next_line.splits option.splits)
qed

lemma token_inv:
  "conn_inv E s \<Longrightarrow> conn_inv E (snd (register_cancel_token_if_current tok did g s))"
  "conn_inv E s \<Longrightarrow> conn_inv E (snd (remove_cancel_token_if_current did g s))"
  "conn_inv E s \<Longrightarrow> conn_inv E (remove_cancel_token did s)"
  "conn_inv E s \<Longrightarrow> conn_inv E (cancel_loop did s)"
  by (auto simp: conn_inv_def register_cancel_token_if_current_def remove_cancel_token_if_current_def Let_def
      remove_cancel_token_def cancel_loop_def is_current_generation_def split: option.splits)

lemma cleanup_generations_inv: "conn_inv E s \<Longrightarrow> conn_inv E (cleanup_stale_generations s)"
  by (auto simp: conn_inv_def cleanup_stale_generations_def link_ok_def hm_retain_Some_iff)

inductive conn_step :: "externals \<Rightarrow> 'z conn_mgr_scheme \<Rightarrow> 'z conn_mgr_scheme \<Rightarrow> bool" for E where
  c_accept: "accept_incoming E R k clk s = (r, t) \<Longrightarrow> conn_step E s t"
| c_connect: "connect_to_device E R rnd pid udp our addr expected clk net s = (r', t) \<Longrightarrow> conn_step E s t"
| c_send: "send_packet E did p clk s = (r'', t) \<Longrightarrow> conn_step E s t"
| c_recv: "recv_packet_inner E did gen clk s = (r3, t) \<Longrightarrow> conn_step E s t"
| c_disconnect: "disconnect did g s = (r4, t) \<Longrightarrow> conn_step E s t"
| c_register: "register_cancel_token_if_current tok did g s = (b, t) \<Longrightarrow> conn_step E s t"
| c_unregister: "remove_cancel_token_if_current did g s = (b, t) \<Longrightarrow> conn_step E s t"
| c_remove: "conn_step E s (remove_cancel_token did s)"
| c_cancel: "conn_step E s (cancel_loop did s)"
| c_cleanup: "conn_step E s (cleanup_stale_generations s)"

inductive_cases conn_stepE: "conn_step E s t"

interpretation conn_machine: machine "conn_step E" "conn_inv E" for E
proof
  fix s t :: "'z conn_mgr_scheme"
  assume "conn_step E s t" and inv: "conn_inv E s"
  then show "conn_inv E t"
  proof (cases rule: conn_step.cases)
    case c_accept then show ?thesis using inv by (rule accept_incoming_inv)
  next
    case c_connect then show ?thesis using inv by (rule connect_inv)
  next
    case c_send then show ?thesis using inv by (rule send_packet_inv)
  next
    case c_recv then show ?thesis using inv by (rule recv_packet_inv)
  next
    case c_disconnect then show ?thesis using inv by (rule disconnect_inv)
  next
    case (c_register tok did g b)
    with token_inv(1) [OF inv, of tok did g] show ?thesis by simp
  next
    case (c_unregister did g b)
    with token_inv(2) [OF inv, of did g] show ?thesis by simp
  qed (simp_all add: inv token_inv cleanup_generations_inv)
qed





text \<open>Generation numbers come back: an outgoing connection ends by dropping the counters of all
  devices that are not connected, so the next link of such a device is numbered 1 again,
  whatever numbers its earlier links had, and a straggler of an earlier link with that
  number passes the generation check.\<close>

theorem generation_numbers_reused:
  assumes "connect_to_device E R rnd pid udp our addr expected clk net s = (Inr (other, i, g), t)"
    and "connections s did = None" and "did \<noteq> other"
  shows "generations t did = None \<and> fresh_generation did t = 1"
  using assms(1)
proof (cases rule: connect_cases)
  case (installed k j cert ws line inp s1)
  note eff = install_outbound_effect [OF installed(7)]
  have "did \<notin> insert (device_id j) (dom (connections s1))"
    using eff(1) assms(2,3) installed(2) by (auto simp: same_links_def links_def)
  with eff(3) have "generations t did = None" by (simp add: hm_retain_None_iff)
  then show ?thesis by (simp add: fresh_generation_def)
qed simp

theorem generation_numbers_reused_witness:
  "\<exists>t. connect_to_device link_externals demo_rustls demo_draws (\<lambda>_. 7) UdpOk demo_identity demo_addr (Some demo_identity)
     (\<lambda>_. 0) (DialOk demo_socket) (demo_dialer\<lparr>generations := [short_id \<mapsto> 5]\<rparr>) = (Inr (demo_id, demo_identity, 1), t)
   \<and> fresh_generation short_id t = 1"
proof -
  let ?s = "demo_dialer\<lparr>generations := [short_id \<mapsto> 5]\<rparr>"
  let ?r = "connect_to_device link_externals demo_rustls demo_draws (\<lambda>_. 7) UdpOk demo_identity demo_addr (Some demo_identity)
     (\<lambda>_. 0) (DialOk demo_socket) ?s"
  have "so_plain_writes demo_socket = []" by (simp add: demo_socket_def)
  then have "fst ?r = Inr (demo_id, demo_identity, 1)"
    by (simp add: connect_to_device_def connect_to_device_with_fallback_port_def demo_addr_def raw_write_def Let_def
        too_soon_def demo_connect_over install_outbound_def next_generation_def record_peer_capabilities_def)
  then have "?r = (Inr (demo_id, demo_identity, 1), snd ?r)" by (metis prod.collapse)
  moreover from generation_numbers_reused [OF this, of short_id] have "fresh_generation short_id (snd ?r) = 1"
    using demo_id_not_short by auto
  ultimately show ?thesis by blast
qed

section \<open>Sending\<close>

text \<open>Sending is all or nothing for the link: a packet type the peer did not announce is refused
  before a byte is written (identity and pair packets always pass, and so does everything
  while the peer's capabilities are unknown); a success has appended exactly the serialized
  line to the link; any failed or timed-out write takes the link down, with its token, so a
  half-written line is never followed by another packet.\<close>

theorem send_packet_correct:
  assumes "connections s did = Some h"
  shows "if refuses_type did p s
    then send_packet E did p clk s = (Inl (CapabilityNotSupported did (packet_type p)), s)
    else case send_packet E did p clk s of
        (Inr _, t) \<Rightarrow> (\<exists>h'. connections t = (connections s)(did \<mapsto> h') \<and> cn_written h' = cn_written h @ serialize E p
             \<and> cn_generation h' = cn_generation h \<and> cn_input h' = cn_input h
             \<and> ci_packets_sent (cn_info h') = ci_packets_sent (cn_info h) + 1)
      | (Inl e, t) \<Rightarrow> connections t = hm_remove did (connections s) \<and> cancel_tokens t = hm_remove did (cancel_tokens s)
             \<and> shutdowns t = shutdowns s @ [(did, cn_generation h)]"
proof (cases "refuses_type did p s")
  case True
  with assms show ?thesis by (simp add: send_packet_def)
next
  case False
  let ?h1 = "h\<lparr>cn_info := (cn_info h)\<lparr>ci_last_activity := clk 0\<rparr>\<rparr>"
  obtain r h2 where w: "write_framed (serialize E p) ?h1 = (r, h2)" by fastforce
  note f = write_framed_fields [OF w]
  show ?thesis
  proof (cases r)
    case (Inl e)
    with False assms w f show ?thesis
      by (simp add: send_packet_def disconnect_def remove_cancel_token_def Let_def hm_remove_def)
  next
    case (Inr u)
    with False assms w have "send_packet E did p clk s = (Inr (),
        s\<lparr>connections := (connections s)(did \<mapsto> h2\<lparr>cn_info := increment_sent (clk 1) (cn_info h2)\<rparr>)\<rparr>)"
      by (simp add: send_packet_def)
    with False f Inr show ?thesis
      by (auto simp: increment_sent_def update_activity_def intro!: exI)
  qed
qed

definition demo_ping :: packet where "demo_ping = ping 7"

theorem send_packet_correct_witness:
  "send_packet link_externals demo_id demo_ping (\<lambda>_. 0) (demo_linked\<lparr>peer_capabilities := [demo_id \<mapsto> [''kdeconnect.battery'']]\<rparr>)
     = (Inl (CapabilityNotSupported demo_id ''kdeconnect.ping''),
        demo_linked\<lparr>peer_capabilities := [demo_id \<mapsto> [''kdeconnect.battery'']]\<rparr>)"
proof -
  let ?s = "demo_linked\<lparr>peer_capabilities := [demo_id \<mapsto> [''kdeconnect.battery'']]\<rparr>"
  have "refuses_type demo_id demo_ping ?s" "packet_type demo_ping = ''kdeconnect.ping''"
    by (simp_all add: refuses_type_def demo_ping_def ping_def new_packet_def is_identity_def is_pair_def)
  moreover have "\<exists>h. connections ?s demo_id = Some h" by simp
  ultimately show ?thesis using send_packet_correct [of ?s demo_id _ demo_ping link_externals "\<lambda>_. 0"] by auto
qed

section \<open>Rate limits\<close>

definition keeps :: "('s \<Rightarrow> 'b) \<Rightarrow> ('s, 'a) op \<Rightarrow> bool" where
  "keeps f m \<longleftrightarrow> (\<forall>s. f (snd (m s)) = f s)"

lemma keeps_bind: "keeps f m \<Longrightarrow> (\<And>a. keeps f (g a)) \<Longrightarrow> keeps f (sbind m g)"
  unfolding keeps_def sbind_def
  by (metis (mono_tags, lifting) old.sum.exhaust prod.collapse prod.simps(2) snd_conv sum.case(1,2))

lemma keeps_attempts:
  "keeps last_connection_attempt (slift x)" "keeps last_connection_attempt (on_disk m)"
  "keeps last_connection_attempt (check_peer_cert E did cert)"
  "keeps last_connection_attempt (install_outbound sent inp ws addr loc i cert now)"
  by (auto simp: keeps_def slift_def on_disk_def check_peer_cert_def sbind_def sfail_def install_outbound_def Let_def
      record_peer_capabilities_def next_generation_def evict_def remove_cancel_token_def cancel_loop_def
      cleanup_stale_generations_def split: prod.splits option.splits sum.splits)

lemma connect_over_attempts:
  "last_connection_attempt (snd (connect_over E R rnd p expected addr clk k s)) = last_connection_attempt s"
proof -
  have "keeps last_connection_attempt (sbind (on_disk a) (\<lambda>_. sbind (on_disk b) (\<lambda>cert. sbind (slift c) (\<lambda>ws.
      sbind (slift d) (\<lambda>(line, inp). sbind (slift (parse_identity E line)) (\<lambda>i.
        sbind (slift (matches_expected expected i)) (\<lambda>_. sbind (check_peer_cert E (device_id i) cert) (\<lambda>_.
          install_outbound (serialize E p) inp ws addr (so_local_addr k) i cert (clk 4)))))))))" for a b c d
    by (intro keeps_bind keeps_attempts) (auto split: prod.splits intro!: keeps_bind keeps_attempts)
  then show ?thesis unfolding connect_over_def keeps_def by blast
qed

text \<open>Dials to one address are at least a second apart: after an attempt that was let through,
  whatever came of it, a further attempt to the same address within a second of it is
  refused without any effect (no dial, no datagram, no state change).\<close>

theorem dial_rate_limited:
  assumes "connect_to_device E R rnd pid udp our (SockAddr ip pt) expected clk net s = (r, t)"
    and "\<not> too_soon (last_connection_attempt s) ip (clk 0)" and "clk 2 - clk 1 < secs 60"
    and "clk' 0 - clk 1 < CONNECTION_RATE_LIMIT"
  shows "connect_to_device E' R' rnd' pid' udp' our' (SockAddr ip pt') expected' clk' net' t
    = (Inl (ConnectionError ''Rate limited: too soon since last connection attempt''), t)"
proof -
  let ?m = "stamp (last_connection_attempt s) ip (clk 1) (clk 2)"
  have fb: "last_connection_attempt (send_reverse_connection_fallback E pd udp our ip port s') = last_connection_attempt s'"
    for pd port and s' :: "'a conn_mgr_scheme"
    by (simp add: send_reverse_connection_fallback_def unicast_identity_def Let_def split: udp_outcome.splits)
  have "last_connection_attempt t = ?m"
  proof (cases net)
    case (DialOk k)
    show ?thesis
      using assms(1,2) DialOk connect_over_attempts [of E R rnd "to_tcp_packet (pid 2) our" expected "SockAddr ip pt" clk k
          "s\<lparr>last_connection_attempt := ?m, plain_sent := plain_sent s @ [(SockAddr ip pt, serialize E (to_tcp_packet (pid 1) our))]\<rparr>"]
      by (auto simp: connect_to_device_def connect_to_device_with_fallback_port_def Let_def fb split: sum.splits)
  qed (use assms(1,2) in \<open>auto simp: connect_to_device_def connect_to_device_with_fallback_port_def Let_def fb\<close>)
  moreover have "?m ip = Some (clk 1)" using assms(3) by (simp add: stamp_def hm_retain_Some_iff)
  ultimately have "too_soon (last_connection_attempt t) ip (clk' 0)" using assms(4) by (simp add: too_soon_def)
  then show ?thesis by (simp add: connect_to_device_def connect_to_device_with_fallback_port_def)
qed

theorem dial_rate_limited_witness:
  "connect_to_device link_externals demo_rustls demo_draws (\<lambda>_. 7) UdpOk demo_identity demo_addr None
     (\<lambda>_. millis 999) (DialOk demo_socket) demo_dialed
   = (Inl (ConnectionError ''Rate limited: too soon since last connection attempt''), demo_dialed)"
  using dial_rate_limited [OF demo_connect [unfolded demo_addr_def], of "\<lambda>_. millis 999" link_externals demo_rustls
      demo_draws "\<lambda>_. 7" UdpOk demo_identity 1716 None "DialOk demo_socket"]
  by (simp add: demo_addr_def too_soon_def secs_def millis_def CONNECTION_RATE_LIMIT_def)

end
