(* ===== verification/Router.thy ===== *)
theory Router
  imports Protocol_Types
begin

text \<open>
  The packet router (\<open>src/protocol/router.rs\<close>) and the plugin registry
  (\<open>src/plugins/registry.rs\<close>), and the wiring of the one to the other
  (\<open>init_plugins\<close> in \<open>src/app.rs\<close>).

  A handler is a function of the device id, the packet and the state of the daemon; it
  answers with packets or an error, or it panics. A plugin is the record of the methods of
  the \<open>Plugin\<close> trait. Both are parameters of this theory: it shows what the dispatch does
  with any handlers.
\<close>

section \<open>The router\<close>

datatype handler_result = HResult "packet list option res" | HPanic string

type_synonym 's handler = "string \<Rightarrow> packet \<Rightarrow> 's \<Rightarrow> handler_result \<times> 's"

record 's packet_router =
  handlers :: "string \<rightharpoonup> 's handler list"
  default_handlers :: "'s handler list"

definition new_router :: "'s packet_router" where
  "new_router = \<lparr>handlers = Map.empty, default_handlers = []\<rparr>"

definition entry_list :: "('k \<rightharpoonup> 'v list) \<Rightarrow> 'k \<Rightarrow> 'v list" where
  "entry_list m k = (case m k of Some vs \<Rightarrow> vs | None \<Rightarrow> [])"

definition router_register :: "string \<Rightarrow> 's handler \<Rightarrow> 's packet_router \<Rightarrow> 's packet_router" where
  "router_register ty h r = r\<lparr>handlers := (handlers r)(ty \<mapsto> entry_list (handlers r) ty @ [h])\<rparr>"

definition register_default :: "'s handler \<Rightarrow> 's packet_router \<Rightarrow> 's packet_router" where
  "register_default h r = r\<lparr>default_handlers := default_handlers r @ [h]\<rparr>"

definition router_unregister :: "string \<Rightarrow> 's packet_router \<Rightarrow> bool \<times> 's packet_router" where
  "router_unregister ty r = (hm_contains (handlers r) ty, r\<lparr>handlers := hm_remove ty (handlers r)\<rparr>)"

definition has_handler :: "string \<Rightarrow> 's packet_router \<Rightarrow> bool" where
  "has_handler ty r = hm_contains (handlers r) ty"

text \<open>The accumulator of \<open>call_handlers\<close>: responses so far, the first error, whether any
  handler succeeded.\<close>

record tally =
  all_responses :: "packet list"
  first_error :: "error option"
  any_ok :: bool

definition note_error :: "error \<Rightarrow> tally \<Rightarrow> tally" where
  "note_error e acc = (if first_error acc = None then acc\<lparr>first_error := Some e\<rparr> else acc)"

definition run_one :: "string \<Rightarrow> packet \<Rightarrow> 's handler \<Rightarrow> tally \<times> 's \<Rightarrow> tally \<times> 's" where
  "run_one did pkt h = (\<lambda>(acc, s).
     case h did pkt s of
       (HResult (Inr (Some responses)), s') \<Rightarrow>
         (acc\<lparr>any_ok := True, all_responses := all_responses acc @ responses\<rparr>, s')
     | (HResult (Inr None), s') \<Rightarrow> (acc\<lparr>any_ok := True\<rparr>, s')
     | (HResult (Inl e), s') \<Rightarrow> (note_error e acc, s')
     | (HPanic msg, s') \<Rightarrow> (note_error (Internal (''Plugin panicked handling '' @ packet_type pkt @ '': '' @ msg)) acc, s'))"

definition tally_result :: "tally \<Rightarrow> packet list option res" where
  "tally_result acc =
     (if all_responses acc \<noteq> [] then Inr (Some (all_responses acc))
      else if \<not> any_ok acc then (case first_error acc of Some e \<Rightarrow> Inl e | None \<Rightarrow> Inr None)
      else Inr None)"

definition call_handlers :: "'s handler list \<Rightarrow> string \<Rightarrow> packet \<Rightarrow> ('s \<Rightarrow> packet list option res \<times> 's)" where
  "call_handlers hs did pkt s =
     (let acc0 = \<lparr>all_responses = [], first_error = None, any_ok = False\<rparr>;
          (acc1, s1) = fold (run_one did pkt) (butlast hs) (acc0, s);
          (acc2, s2) = (case hs of [] \<Rightarrow> (acc1, s1) | _ \<Rightarrow> run_one did pkt (last hs) (acc1, s1))
      in (tally_result acc2, s2))"

definition route :: "'s packet_router \<Rightarrow> string \<Rightarrow> packet \<Rightarrow> 's \<Rightarrow> packet list option res \<times> 's" where
  "route r did pkt s =
     (case handlers r (packet_type pkt) of
        Some hs \<Rightarrow> call_handlers hs did pkt s
      | None \<Rightarrow>
          if default_handlers r \<noteq> [] then call_handlers (default_handlers r) did pkt s
          else (Inl (NoPluginForPacketType (packet_type pkt)), s))"

section \<open>The plugin registry\<close>

record 's plugin =
  pl_name :: string
  pl_incoming :: "string list"
  pl_outgoing :: "string list"
  pl_handle :: "'s handler"
  pl_on_connected :: "string \<Rightarrow> 's \<Rightarrow> packet list \<times> 's"
  pl_on_disconnected :: "string \<Rightarrow> 's \<Rightarrow> 's"

record 's plugin_registry =
  plugins :: "string \<rightharpoonup> 's plugin"
  capability_index :: "string \<rightharpoonup> string list"

definition new_registry :: "'s plugin_registry" where
  "new_registry = \<lparr>plugins = Map.empty, capability_index = Map.empty\<rparr>"

definition drop_name :: "string \<Rightarrow> string \<Rightarrow> (string \<rightharpoonup> string list) \<Rightarrow> (string \<rightharpoonup> string list)" where
  "drop_name name cap index =
     (case index cap of
        None \<Rightarrow> index
      | Some names \<Rightarrow> (let left = filter (\<lambda>n. n \<noteq> name) names
                      in if left = [] then hm_remove cap index else index(cap \<mapsto> left)))"

definition push_name :: "string \<Rightarrow> string \<Rightarrow> (string \<rightharpoonup> string list) \<Rightarrow> (string \<rightharpoonup> string list)" where
  "push_name name cap index =
     (let names = entry_list index cap in index(cap \<mapsto> (if name \<in> set names then names else names @ [name])))"

definition plugin_register :: "'s plugin \<Rightarrow> 's plugin_registry \<Rightarrow> 's plugin_registry" where
  "plugin_register p pr =
     (let name = pl_name p;
          old_capabilities = map_option pl_incoming (plugins pr name);
          index1 = (case old_capabilities of
                      Some caps \<Rightarrow> fold (drop_name name) caps (capability_index pr)
                    | None \<Rightarrow> capability_index pr)
      in pr\<lparr>plugins := (plugins pr)(name \<mapsto> p), capability_index := fold (push_name name) (pl_incoming p) index1\<rparr>)"

definition plugin_unregister :: "string \<Rightarrow> 's plugin_registry \<Rightarrow> bool \<times> 's plugin_registry" where
  "plugin_unregister name pr =
     (case plugins pr name of
        Some p \<Rightarrow> (True, pr\<lparr>plugins := hm_remove name (plugins pr),
                            capability_index := fold (drop_name name) (pl_incoming p) (capability_index pr)\<rparr>)
      | None \<Rightarrow> (False, pr))"

definition get_all_by_capability :: "string \<Rightarrow> 's plugin_registry \<Rightarrow> 's plugin list" where
  "get_all_by_capability cap pr =
     (case capability_index pr cap of None \<Rightarrow> [] | Some names \<Rightarrow> List.map_filter (plugins pr) names)"

definition get_by_capability :: "string \<Rightarrow> 's plugin_registry \<Rightarrow> 's plugin option" where
  "get_by_capability cap pr =
     (case capability_index pr cap of
        None \<Rightarrow> None
      | Some names \<Rightarrow> (case List.map_filter (plugins pr) names of [] \<Rightarrow> None | p # _ \<Rightarrow> Some p))"

definition list_with_capabilities :: "string list \<Rightarrow> 's plugin_registry \<Rightarrow> (string \<times> string list \<times> string list) list" where
  "list_with_capabilities order pr =
     map (\<lambda>p. (pl_name p, pl_incoming p, pl_outgoing p)) (List.map_filter (plugins pr) order)"

text \<open>Unlike the router, the registry's own dispatch does not catch a panic: it ends the call.\<close>

fun handle_all :: "'s plugin list \<Rightarrow> string \<Rightarrow> packet \<Rightarrow> tally \<times> 's \<Rightarrow> handler_result \<times> 's" where
  "handle_all [] did pkt (acc, s) = (HResult (tally_result acc), s)"
| "handle_all (p # ps) did pkt (acc, s) =
     (case pl_handle p did pkt s of
        (HPanic msg, s') \<Rightarrow> (HPanic msg, s')
      | _ \<Rightarrow> handle_all ps did pkt (run_one did pkt (pl_handle p) (acc, s)))"

definition handle_packet :: "string \<Rightarrow> string \<Rightarrow> packet \<Rightarrow> 's plugin_registry \<Rightarrow> 's \<Rightarrow> handler_result \<times> 's" where
  "handle_packet did ty pkt pr s =
     (let ps = get_all_by_capability ty pr in
      if ps = [] then (HResult (Inl (NoPluginForPacketType ty)), s)
      else handle_all ps did pkt (\<lparr>all_responses = [], first_error = None, any_ok = False\<rparr>, s))"

definition notify_connected :: "string list \<Rightarrow> string \<Rightarrow> 's plugin_registry \<Rightarrow> 's \<Rightarrow> packet list \<times> 's" where
  "notify_connected order did pr s =
     fold (\<lambda>p (packets, s). case pl_on_connected p did s of (ps, s') \<Rightarrow> (packets @ ps, s'))
       (List.map_filter (plugins pr) order) ([], s)"

text \<open>The wiring at start-up: every plugin's handler under each of its incoming capabilities.\<close>

definition init_plugins :: "string list \<Rightarrow> 's plugin_registry \<Rightarrow> 's packet_router \<Rightarrow> 's packet_router" where
  "init_plugins order pr r =
     fold (\<lambda>name r. case plugins pr name of
             Some p \<Rightarrow> fold (\<lambda>cap r. router_register cap (pl_handle p) r) (pl_incoming p) r
           | None \<Rightarrow> r) order r"

section \<open>Dispatch runs everybody\<close>

text \<open>The reference: every handler runs once, in order, on the state the one before it left;
  then the answers are put together.\<close>

fun run_all :: "'s handler list \<Rightarrow> string \<Rightarrow> packet \<Rightarrow> 's \<Rightarrow> handler_result list \<times> 's" where
  "run_all [] did pkt s = ([], s)"
| "run_all (h # hs) did pkt s =
     (let (r, s1) = h did pkt s; (rs, s2) = run_all hs did pkt s1 in (r # rs, s2))"

primrec responses_of :: "handler_result \<Rightarrow> packet list" where
  "responses_of (HResult r) = (case r of Inr (Some ps) \<Rightarrow> ps | _ \<Rightarrow> [])"
| "responses_of (HPanic m) = []"

primrec error_of :: "packet \<Rightarrow> handler_result \<Rightarrow> error option" where
  "error_of pkt (HResult r) = (case r of Inl e \<Rightarrow> Some e | Inr _ \<Rightarrow> None)"
| "error_of pkt (HPanic m) = Some (Internal (''Plugin panicked handling '' @ packet_type pkt @ '': '' @ m))"

definition combine :: "packet \<Rightarrow> handler_result list \<Rightarrow> packet list option res" where
  "combine pkt rs =
     (if concat (map responses_of rs) \<noteq> [] then Inr (Some (concat (map responses_of rs)))
      else if rs \<noteq> [] \<and> list_all (\<lambda>r. error_of pkt r \<noteq> None) rs then Inl (the (error_of pkt (hd rs)))
      else Inr None)"

definition tally_of :: "packet \<Rightarrow> tally \<Rightarrow> handler_result list \<Rightarrow> tally" where
  "tally_of pkt acc rs =
     \<lparr>all_responses = all_responses acc @ concat (map responses_of rs),
      first_error = (case first_error acc of Some e \<Rightarrow> Some e
                     | None \<Rightarrow> (case List.map_filter (error_of pkt) rs of [] \<Rightarrow> None | e # _ \<Rightarrow> Some e)),
      any_ok = (any_ok acc \<or> list_ex (\<lambda>r. error_of pkt r = None) rs)\<rparr>"

lemma run_one_tally: "run_one did pkt h (acc, s) = (tally_of pkt acc [fst (h did pkt s)], snd (h did pkt s))"
  by (auto simp: run_one_def tally_of_def note_error_def map_filter_simps
      split: prod.splits handler_result.splits sum.splits option.splits)

lemma tally_of_append: "tally_of pkt (tally_of pkt acc rs) rs' = tally_of pkt acc (rs @ rs')"
  by (auto simp: tally_of_def map_filter_def split: option.splits list.splits)

lemma fold_run_one:
  "fold (run_one did pkt) hs (acc, s) = (tally_of pkt acc (fst (run_all hs did pkt s)), snd (run_all hs did pkt s))"
proof (induction hs arbitrary: acc s)
  case Nil
  then show ?case by (simp add: tally_of_def map_filter_simps split: option.splits)
next
  case (Cons h hs)
  then show ?case
    by (simp add: run_one_tally tally_of_append split: prod.splits)
qed

lemma tally_result_combine: "tally_result (tally_of pkt \<lparr>all_responses = [], first_error = None, any_ok = False\<rparr> rs) = combine pkt rs"
proof (cases rs)
  case (Cons r rs')
  then show ?thesis
    by (cases "error_of pkt r")
       (auto simp: tally_result_def tally_of_def combine_def map_filter_simps list_all_iff list_ex_iff)
qed (simp add: tally_result_def tally_of_def combine_def map_filter_simps)

lemma route_runs:
  "route r did pkt s =
     (let hs = (case handlers r (packet_type pkt) of Some hs \<Rightarrow> hs | None \<Rightarrow> default_handlers r) in
      if handlers r (packet_type pkt) = None \<and> hs = [] then (Inl (NoPluginForPacketType (packet_type pkt)), s)
      else (combine pkt (fst (run_all hs did pkt s)), snd (run_all hs did pkt s)))"
proof -
  have "call_handlers hs did pkt s = (combine pkt (fst (run_all hs did pkt s)), snd (run_all hs did pkt s))" for hs
  proof -
    let ?acc = "\<lparr>all_responses = [], first_error = None, any_ok = False\<rparr>"
    have "call_handlers hs did pkt s = (let (acc, s') = fold (run_one did pkt) hs (?acc, s) in (tally_result acc, s'))"
    proof (cases hs rule: rev_cases)
      case (snoc hs' h)
      then show ?thesis by (cases hs') (simp_all add: call_handlers_def Let_def split: prod.splits)
    qed (simp add: call_handlers_def)
    then show ?thesis by (simp add: fold_run_one tally_result_combine)
  qed
  then show ?thesis by (simp add: route_def Let_def split: option.splits)
qed

text \<open>Property C13.
  No handler is starved and no answer is lost: for a packet with registered handlers each of
  them runs exactly once, in registration order, also after others failed or panicked; the
  answer is all their responses in order, and an error only when every handler failed, then
  the first one. Without handlers for the type the default handlers run, and without those
  the packet is refused.\<close>

theorem route_spec:
  "route r did pkt s =
     (let hs = (case handlers r (packet_type pkt) of Some hs \<Rightarrow> hs | None \<Rightarrow> default_handlers r) in
      if handlers r (packet_type pkt) = None \<and> hs = [] then (Inl (NoPluginForPacketType (packet_type pkt)), s)
      else (combine pkt (fst (run_all hs did pkt s)), snd (run_all hs did pkt s)))"
  by (rule route_runs)

section \<open>The capability index\<close>

text \<open>The index lists exactly the registered plugins that declare a capability, each once.\<close>

definition index_ok :: "'s plugin_registry \<Rightarrow> bool" where
  "index_ok pr \<longleftrightarrow>
     (\<forall>name p. plugins pr name = Some p \<longrightarrow> pl_name p = name)
   \<and> (\<forall>cap. distinct (entry_list (capability_index pr) cap) \<and> capability_index pr cap \<noteq> Some []
        \<and> set (entry_list (capability_index pr) cap) = {n. \<exists>p. plugins pr n = Some p \<and> cap \<in> set (pl_incoming p)})"

lemma drop_name_entry:
  "entry_list (drop_name name cap index) c =
     (if c = cap then filter (\<lambda>n. n \<noteq> name) (entry_list index c) else entry_list index c)"
  "index c \<noteq> Some [] \<Longrightarrow> drop_name name cap index c \<noteq> Some []"
  by (auto simp: drop_name_def entry_list_def Let_def split: option.splits)

lemma fold_drop_name:
  "entry_list (fold (drop_name name) caps index) c =
     (if c \<in> set caps then filter (\<lambda>n. n \<noteq> name) (entry_list index c) else entry_list index c)"
  "index c \<noteq> Some [] \<Longrightarrow> fold (drop_name name) caps index c \<noteq> Some []"
  by (induction caps arbitrary: index) (auto simp: drop_name_entry)

lemma push_name_entry:
  "entry_list (push_name name cap index) c =
     (if c = cap \<and> name \<notin> set (entry_list index c) then entry_list index c @ [name] else entry_list index c)"
  "index c \<noteq> Some [] \<Longrightarrow> push_name name cap index c \<noteq> Some []"
  by (auto simp: push_name_def entry_list_def Let_def split: option.splits if_splits)

lemma fold_push_name:
  "entry_list (fold (push_name name) caps index) c =
     (if c \<in> set caps \<and> name \<notin> set (entry_list index c) then entry_list index c @ [name] else entry_list index c)"
  "index c \<noteq> Some [] \<Longrightarrow> fold (push_name name) caps index c \<noteq> Some []"
  by (induction caps arbitrary: index) (auto simp: push_name_entry)

lemma index_ok_new: "index_ok new_registry"
  by (simp add: index_ok_def new_registry_def entry_list_def)

lemma index_ok_unregister:
  assumes "index_ok pr"
  shows "index_ok (snd (plugin_unregister name pr))"
proof (cases "plugins pr name")
  case None
  with assms show ?thesis by (simp add: plugin_unregister_def)
next
  case (Some p)
  with assms show ?thesis
    by (auto simp: index_ok_def plugin_unregister_def fold_drop_name split: if_splits)
qed

lemma index_ok_register:
  assumes "index_ok pr"
  shows "index_ok (plugin_register p pr)"
proof -
  let ?pr1 = "snd (plugin_unregister (pl_name p) pr)"
  have ok1: "index_ok ?pr1" using assms by (rule index_ok_unregister)
  have none: "plugins ?pr1 (pl_name p) = None" by (auto simp: plugin_unregister_def split: option.splits)
  have "plugin_register p pr = ?pr1\<lparr>plugins := (plugins ?pr1)(pl_name p \<mapsto> p),
      capability_index := fold (push_name (pl_name p)) (pl_incoming p) (capability_index ?pr1)\<rparr>"
    by (auto simp: plugin_register_def plugin_unregister_def Let_def hm_remove_def split: option.splits)
  moreover have "index_ok (?pr1\<lparr>plugins := (plugins ?pr1)(pl_name p \<mapsto> p),
      capability_index := fold (push_name (pl_name p)) (pl_incoming p) (capability_index ?pr1)\<rparr>)"
    using ok1 none unfolding index_ok_def
    by (auto simp: fold_push_name split: if_splits)
  ultimately show ?thesis by simp
qed

inductive plugin_step :: "'s plugin_registry \<Rightarrow> 's plugin_registry \<Rightarrow> bool" where
  p_register: "plugin_step pr (plugin_register p pr)"
| p_unregister: "plugin_step pr (snd (plugin_unregister name pr))"

interpretation plugin_machine: machine plugin_step index_ok
  by unfold_locales (auto elim!: plugin_step.cases intro: index_ok_register index_ok_unregister)

text \<open>The capability index is exact: after any sequence of registrations (replacements of a
  plugin by another of the same name included) and removals, a lookup by capability returns
  exactly the registered plugins that declare it, each of them once.\<close>

theorem capability_lookup_exact:
  assumes "reach plugin_step new_registry pr"
  shows "set (get_all_by_capability cap pr) = {p. plugins pr (pl_name p) = Some p \<and> cap \<in> set (pl_incoming p)}
    \<and> distinct (map pl_name (get_all_by_capability cap pr))"
proof -
  have ok: "index_ok pr" using assms index_ok_new by (rule plugin_machine.reach_inv)
  let ?names = "entry_list (capability_index pr) cap"
  have all: "get_all_by_capability cap pr = List.map_filter (plugins pr) ?names"
    by (simp add: get_all_by_capability_def entry_list_def map_filter_simps split: option.splits)
  have names: "set ?names = {n. \<exists>p. plugins pr n = Some p \<and> cap \<in> set (pl_incoming p)}" "distinct ?names"
    and own: "plugins pr n = Some p \<Longrightarrow> pl_name p = n" for n p
    using ok by (auto simp: index_ok_def)
  have "map pl_name (List.map_filter (plugins pr) ns) = ns" if "\<forall>n\<in>set ns. plugins pr n \<noteq> None" for ns
    using that own by (induction ns) (auto simp: map_filter_simps)
  moreover have "\<forall>n\<in>set ?names. plugins pr n \<noteq> None" using names(1) by auto
  ultimately have "map pl_name (get_all_by_capability cap pr) = ?names" unfolding all by blast
  moreover have "set (get_all_by_capability cap pr) = {p. plugins pr (pl_name p) = Some p \<and> cap \<in> set (pl_incoming p)}"
  proof -
    have "set (List.map_filter f ns) = {p. \<exists>n\<in>set ns. f n = Some p}" for f :: "string \<Rightarrow> 'a plugin option" and ns
      by (induction ns) (auto simp: map_filter_simps split: option.splits)
    then have "set (get_all_by_capability cap pr) = {p. \<exists>n. plugins pr n = Some p \<and> cap \<in> set (pl_incoming p)}"
      using names(1) by (auto simp: all)
    with own show ?thesis by blast
  qed
  ultimately show ?thesis using names(2) by simp
qed

definition demo_plugin :: "string \<Rightarrow> string list \<Rightarrow> nat plugin" where
  "demo_plugin name caps = \<lparr>pl_name = name, pl_incoming = caps, pl_outgoing = [],
     pl_handle = (\<lambda>_ _ s. (HResult (Inr None), s + 1)), pl_on_connected = (\<lambda>_ s. ([], s)), pl_on_disconnected = (\<lambda>_ s. s)\<rparr>"

theorem capability_lookup_exact_witness:
  "let pr = plugin_register (demo_plugin ''ping'' [''b'']) (plugin_register (demo_plugin ''ping'' [''a'']) new_registry) in
   distinct (map pl_name (get_all_by_capability ''b'' pr)) \<and> get_all_by_capability ''a'' pr = []"
proof -
  let ?pr = "plugin_register (demo_plugin ''ping'' [''b'']) (plugin_register (demo_plugin ''ping'' [''a'']) new_registry)"
  have r: "reach plugin_step new_registry ?pr"
    by (rule reach_step, rule reach_step, rule reach_init) (rule p_register)+
  have "plugins ?pr = [''ping'' \<mapsto> demo_plugin ''ping'' [''b'']]"
    by (simp add: plugin_register_def new_registry_def demo_plugin_def Let_def)
  then have "{p. plugins ?pr (pl_name p) = Some p \<and> ''a'' \<in> set (pl_incoming p)} = {}"
    by (auto simp: demo_plugin_def)
  with capability_lookup_exact [OF r, of "''a''"] capability_lookup_exact [OF r, of "''b''"] show ?thesis
    by (simp add: Let_def)
qed

lemma count_list_distinct: "distinct xs \<Longrightarrow> count_list xs x = (if x \<in> set xs then 1 else 0)"
  by (induction xs) auto

lemma fold_router_register:
  "handlers (fold (\<lambda>cap r. router_register cap h r) caps r) c =
     (if c \<in> set caps then Some (entry_list (handlers r) c @ replicate (count_list caps c) h) else handlers r c)"
proof (induction caps arbitrary: r)
  case (Cons x xs)
  then show ?case
    by (auto simp: router_register_def entry_list_def count_notin split: option.splits)
qed simp

text \<open>Start-up wires every plugin: for plugins that list a capability at most once, the handlers
  of a packet type afterwards are those of exactly the plugins that declare it, one each, in
  the order of the sweep, and types nobody declares have no handler.\<close>

theorem init_plugins_wires_all:
  assumes "\<forall>p \<in> ran (plugins pr). distinct (pl_incoming p)"
  shows "entry_list (handlers (init_plugins order pr new_router)) cap
      = map pl_handle (filter (\<lambda>p. cap \<in> set (pl_incoming p)) (List.map_filter (plugins pr) order))"
proof -
  have "entry_list (handlers (init_plugins order pr r)) cap = entry_list (handlers r) cap
      @ map pl_handle (filter (\<lambda>p. cap \<in> set (pl_incoming p)) (List.map_filter (plugins pr) order))" for r
    using assms
  proof (induction order arbitrary: r)
    case (Cons n ns)
    have "count_list (pl_incoming p) cap = (if cap \<in> set (pl_incoming p) then 1 else 0)" if "plugins pr n = Some p" for p
      by (rule count_list_distinct) (use that Cons.prems in \<open>auto simp: ran_def\<close>)
    with Cons show ?case
      by (auto simp: init_plugins_def fold_router_register entry_list_def map_filter_simps split: option.splits)
  qed (simp add: init_plugins_def map_filter_simps)
  then show ?thesis by (simp add: new_router_def entry_list_def)
qed

theorem init_plugins_wires_all_witness:
  "length (entry_list (handlers (init_plugins [''ping''] (plugin_register (demo_plugin ''ping'' [''a'', ''b'']) new_registry)
     new_router)) ''b'') = 1"
proof -
  let ?pr = "plugin_register (demo_plugin ''ping'' [''a'', ''b'']) new_registry"
  have pl: "plugins ?pr = [''ping'' \<mapsto> demo_plugin ''ping'' [''a'', ''b'']]"
    by (simp add: plugin_register_def new_registry_def demo_plugin_def Let_def)
  then have "\<forall>p \<in> ran (plugins ?pr). distinct (pl_incoming p)" by (simp add: demo_plugin_def)
  from init_plugins_wires_all [OF this, of "[''ping'']" "''b''"] show ?thesis
    by (simp add: pl map_filter_simps) (simp add: demo_plugin_def)
qed

end
