(* ===== verification/Packet_Loop.thy ===== *)
theory Packet_Loop
  imports Connection Router
begin

text \<open>
  The packet loop of one link (\<open>run_packet_loop\<close> in \<open>src/protocol/connection_loop.rs\<close>) and
  the advertisement of the plugins to a device (\<open>send_plugin_init_packets\<close> in
  \<open>src/app.rs\<close>). It composes the connection manager, the pairing handler, the registry and
  lifecycle, the router and the plugins over one state.

  One turn of the loop serves the branch that the \<open>select\<close> picked: a receive, the link's
  cancellation, the shutdown of the daemon, or an idle check. It ends with going on (and the
  flag that says whether the peer was told it is not paired) or with the loop's result. Tasks
  the loop spawns are queued by device in \<open>init_queue\<close>.
\<close>

section \<open>The loop\<close>

record daemon = conn_mgr +
  init_queue :: "device_key list"

datatype loop_result = LoopShutdown | LoopDisconnected
datatype 's turn = Continue bool 's | Return loop_result 's
datatype branch = Receive | Cancelled | Shutdown | IdleCheck

primrec turn_state :: "'s turn \<Rightarrow> 's" where
  "turn_state (Continue b s) = s"
| "turn_state (Return r s) = s"

text \<open>The parts of the daemon that do not change while it runs: the router, the plugins and the
  order in which their table is swept.\<close>

record 's app =
  app_router :: "'s packet_router"
  app_plugins :: "'s plugin_registry"
  app_order :: "string list"

definition pair_decision :: "packet \<Rightarrow> bool option" where
  "pair_decision p = Option.bind (json_get (packet_body p) ''pair'') as_bool"

definition abs_diff :: "i64 \<Rightarrow> i64 \<Rightarrow> u64" where
  "abs_diff a b = word_of_int \<bar>sint a - sint b\<bar>"

definition pair_timestamp_is_fresh :: "i64 \<Rightarrow> i64 \<Rightarrow> bool" where
  "pair_timestamp_is_fresh ts now \<longleftrightarrow> abs_diff ts now \<le> 1800"

definition now_ts :: "instant \<Rightarrow> i64" where
  "now_ts t = word_of_int (timestamp t)"

definition notify_disconnected :: "('z conn_mgr_scheme) app \<Rightarrow> device_key \<Rightarrow> 'z conn_mgr_scheme \<Rightarrow> 'z conn_mgr_scheme" where
  "notify_disconnected A did s =
     (if get_generation did s \<noteq> None then s
      else fold (\<lambda>p. pl_on_disconnected p did) (List.map_filter (plugins (app_plugins A)) (app_order A)) s)"

definition drop_link :: "('z conn_mgr_scheme) app \<Rightarrow> device_key \<Rightarrow> u64 \<Rightarrow> clock \<Rightarrow> 'z conn_mgr_scheme \<Rightarrow> 'z conn_mgr_scheme" where
  "drop_link A did g clk s =
     (case disconnect did g s of
        (Inr True, s1) \<Rightarrow> notify_disconnected A did (try_transition did device_state.Disconnected clk s1)
      | (_, s1) \<Rightarrow> s1)"

definition queue_init :: "device_key \<Rightarrow> 'z daemon_scheme \<Rightarrow> 'z daemon_scheme" where
  "queue_init did s = s\<lparr>init_queue := init_queue s @ [did]\<rparr>"

text \<open>A pair packet that says yes, while our own request is pending: it completes the pairing.\<close>

definition peer_accepted ::
    "externals \<Rightarrow> device_key \<Rightarrow> (nat \<Rightarrow> i64) \<Rightarrow> clock \<Rightarrow> 'z daemon_scheme \<Rightarrow> 'z daemon_scheme turn" where
  "peer_accepted E did pid clk s =
     (let s1 = (case get_peer_certificate did s of Some c \<Rightarrow> set_pending_peer_cert did c s | None \<Rightarrow> s)
      in case accept_pairing E did clk s1 of
           (Inl _, s2) \<Rightarrow>
             Continue False (snd (send_packet E did (pair_response (pid 0) False (now_ts (clk 2))) (\<lambda>n. clk (n + 3)) s2))
         | (Inr _, s2) \<Rightarrow> Continue False (queue_init did s2))"

text \<open>Otherwise it is a request; from protocol version 8 on it needs a recent timestamp.\<close>

definition request_too_old :: "device_key \<Rightarrow> i64 option \<Rightarrow> instant \<Rightarrow> 'z registry_scheme \<Rightarrow> bool" where
  "request_too_old did pair_ts now s \<longleftrightarrow>
     (case devices s did of Some d \<Rightarrow> dv_protocol_version d | None \<Rightarrow> 8) \<ge> 8
     \<and> (case pair_ts of None \<Rightarrow> True | Some ts \<Rightarrow> \<not> pair_timestamp_is_fresh ts (now_ts now))"

definition peer_requested ::
    "externals \<Rightarrow> device_key \<Rightarrow> i64 option \<Rightarrow> (nat \<Rightarrow> i64) \<Rightarrow> clock \<Rightarrow> 'z daemon_scheme \<Rightarrow> 'z daemon_scheme turn" where
  "peer_requested E did pair_ts pid clk s =
     (if request_too_old did pair_ts (clk 0) s then Continue False s
      else case receive_pair_request_with_cert E did pair_ts (get_peer_certificate did s) (\<lambda>n. clk (n + 1)) s of
             (Inl _, s1) \<Rightarrow> Continue False s1
           | (Inr _, s1) \<Rightarrow>
               if is_paired did s1 then
                 (case send_packet E did (pair_response (pid 0) True (now_ts (clk 10))) (\<lambda>n. clk (n + 11)) s1 of
                    (Inl _, s2) \<Rightarrow> Continue False (snd (unpair E did s2))
                  | (Inr _, s2) \<Rightarrow> Continue False (queue_init did s2))
               else Continue False (broadcast (EvPairRequested did
                      (case devices s1 did of Some d \<Rightarrow> dv_name d | None \<Rightarrow> did)) s1))"

definition peer_declined ::
    "externals \<Rightarrow> ('z daemon_scheme) app \<Rightarrow> device_key \<Rightarrow> u64 \<Rightarrow> pair_state \<Rightarrow> clock \<Rightarrow> 'z daemon_scheme \<Rightarrow> 'z daemon_scheme turn" where
  "peer_declined E A did g ps clk s =
     (case ps of
        pair_state.Paired \<Rightarrow> Return LoopDisconnected (drop_link A did g clk (snd (unpair E did s)))
      | Requested \<Rightarrow> Return LoopDisconnected (snd (reject_pairing did s))
      | RequestedByPeer \<Rightarrow> Return LoopDisconnected (snd (reject_pairing did s))
      | NotPaired \<Rightarrow> Continue False s)"

definition handle_pair ::
    "externals \<Rightarrow> ('z daemon_scheme) app \<Rightarrow> device_key \<Rightarrow> u64 \<Rightarrow> packet \<Rightarrow> (nat \<Rightarrow> i64) \<Rightarrow> clock
     \<Rightarrow> 'z daemon_scheme \<Rightarrow> 'z daemon_scheme turn" where
  "handle_pair E A did g p pid clk s =
     (case pair_decision p of
        None \<Rightarrow> Continue False s
      | Some accepted \<Rightarrow>
          (let pair_ts = Option.bind (json_get (packet_body p) ''timestamp'') json_as_i64;
               ps = pair_state did clk s
           in if accepted then
                (if ps = Requested then peer_accepted E did pid (\<lambda>n. clk (n + 2)) s
                 else peer_requested E did pair_ts pid (\<lambda>n. clk (n + 2)) s)
              else peer_declined E A did g ps (\<lambda>n. clk (n + 2)) s))"

fun send_all :: "externals \<Rightarrow> device_key \<Rightarrow> packet list \<Rightarrow> clock \<Rightarrow> 'z conn_mgr_scheme \<Rightarrow> 'z conn_mgr_scheme" where
  "send_all E did [] clk s = s"
| "send_all E did (p # ps) clk s = send_all E did ps (\<lambda>n. clk (n + 2)) (snd (send_packet E did p clk s))"

definition handle_packet_turn ::
    "externals \<Rightarrow> ('z daemon_scheme) app \<Rightarrow> device_key \<Rightarrow> u64 \<Rightarrow> bool \<Rightarrow> packet \<Rightarrow> (nat \<Rightarrow> i64) \<Rightarrow> clock
     \<Rightarrow> 'z daemon_scheme \<Rightarrow> 'z daemon_scheme turn" where
  "handle_packet_turn E A did g notified p pid clk s =
     (if is_pair p then handle_pair E A did g p pid clk s
      else if \<not> is_paired did s then
        (if \<not> notified then
           Continue True (snd (send_packet E did (pair_response (pid 0) False (now_ts (clk 0))) (\<lambda>n. clk (n + 1)) s))
         else Continue notified s)
      else (case route (app_router A) did p s of
              (Inr (Some ps), s1) \<Rightarrow> Continue notified (send_all E did ps clk s1)
            | (_, s1) \<Rightarrow> Continue notified s1))"

text \<open>
  One turn. The idle check runs every 30 seconds when an idle limit is set; its
  \<open>return\<close> ends the asynchronous block of that branch, and the loop goes on.
\<close>

definition loop_turn ::
    "externals \<Rightarrow> ('z daemon_scheme) app \<Rightarrow> device_key \<Rightarrow> u64 \<Rightarrow> u64 \<Rightarrow> (nat \<Rightarrow> i64) \<Rightarrow> clock \<Rightarrow> branch \<Rightarrow> bool
     \<Rightarrow> 'z daemon_scheme \<Rightarrow> 'z daemon_scheme turn" where
  "loop_turn E A did g idle_secs pid clk br notified s =
     (case br of
        Receive \<Rightarrow>
          (case recv_packet_current E did g clk s of
             (Inr p, s1) \<Rightarrow> handle_packet_turn E A did g notified p pid (\<lambda>n. clk (n + 1)) s1
           | (Inl (ConnectionTimeout _), s1) \<Rightarrow> Continue notified s1
           | (Inl _, s1) \<Rightarrow> Return LoopDisconnected (drop_link A did g (\<lambda>n. clk (n + 1)) s1))
      | Cancelled \<Rightarrow>
          (case remove_cancel_token_if_current did g s of
             (True, s1) \<Rightarrow> Return LoopDisconnected (try_transition did device_state.Disconnected clk s1)
           | (False, s1) \<Rightarrow> Return LoopDisconnected s1)
      | Shutdown \<Rightarrow> Return LoopShutdown (drop_link A did g clk s)
      | IdleCheck \<Rightarrow>
          (if idle_secs = 0 then Continue notified s
           else case get_connection_info did s of
                  Some ci \<Rightarrow>
                    if is_idle (clk 0) (secs (sint idle_secs)) ci
                    then Continue notified (drop_link A did g (\<lambda>n. clk (n + 1)) s)
                    else Continue notified s
                | None \<Rightarrow> Continue notified s))"

section \<open>Advertising the plugins\<close>

text \<open>Up to three passes; a pass sends what every plugin wants to say to a connected device and
  is the last one if every packet went out. The waiting for a link between the passes does
  not change the state.\<close>

fun send_counting :: "externals \<Rightarrow> device_key \<Rightarrow> packet list \<Rightarrow> clock \<Rightarrow> 'z conn_mgr_scheme \<Rightarrow> nat \<times> 'z conn_mgr_scheme" where
  "send_counting E did [] clk s = (0, s)"
| "send_counting E did (p # ps) clk s =
     (let (r, s1) = send_packet E did p clk s; (n, s2) = send_counting E did ps (\<lambda>n. clk (n + 2)) s1
      in ((if is_ok r then n else Suc n), s2))"

fun init_passes :: "nat \<Rightarrow> externals \<Rightarrow> ('z conn_mgr_scheme) app \<Rightarrow> device_key \<Rightarrow> (nat \<Rightarrow> clock) \<Rightarrow> 'z conn_mgr_scheme \<Rightarrow> bool \<times> 'z conn_mgr_scheme" where
  "init_passes 0 E A did clks s = (False, s)"
| "init_passes (Suc n) E A did clks s =
     (let (packets, s1) = notify_connected (app_order A) did (app_plugins A) s;
          (failed, s2) = send_counting E did packets (clks n) s1
      in if failed = 0 then (True, s2) else init_passes n E A did clks s2)"

definition ATTEMPTS :: nat where "ATTEMPTS = 3"

definition send_plugin_init_packets ::
    "externals \<Rightarrow> ('z conn_mgr_scheme) app \<Rightarrow> device_key \<Rightarrow> (nat \<Rightarrow> clock) \<Rightarrow> 'z conn_mgr_scheme \<Rightarrow> bool \<times> 'z conn_mgr_scheme" where
  "send_plugin_init_packets E A did clks s =
     (if \<not> is_paired did s then (False, s) else init_passes ATTEMPTS E A did clks s)"

section \<open>What the other components leave of the trust\<close>

definition trust :: "'z pairing_handler_scheme \<Rightarrow> _" where
  "trust s = (outgoing s, incoming s, paired s, pending_certs s, config s, files (sh_disk s))"

lemma trust_inv: "trust t = trust s \<Longrightarrow> pairing_inv E t = pairing_inv E s"
  by (auto simp: trust_def pairing_inv_def pins_def pinned_fp_def persist_apart_def config_def)

lemma trust_fields: "trust t = trust s \<Longrightarrow> outgoing t = outgoing s \<and> incoming t = incoming s \<and> paired t = paired s"
  by (simp add: trust_def)

lemma trust_disconnect [simp]: "trust (snd (disconnect did g s)) = trust s"
  by (simp add: disconnect_def trust_def config_def Let_def remove_cancel_token_def split: option.splits)

lemma trust_send [simp]: "trust (snd (send_packet E did p clk s)) = trust s"
proof -
  have "trust (s\<lparr>connections := m\<rparr>) = trust s" for m :: "device_key \<Rightarrow> connection option"
    by (simp add: trust_def config_def)
  then show ?thesis
    by (auto simp: send_packet_def Let_def split: option.splits prod.splits sum.splits)
qed

lemma trust_recv [simp]: "trust (snd (recv_packet_current E did g clk s)) = trust s"
  by (simp add: recv_packet_current_def recv_packet_inner_def Let_def trust_def config_def
      split: option.splits prod.splits next_line.splits)

lemma trust_transition [simp]: "trust (try_transition did st clk s) = trust s"
  by (auto simp: try_transition_def transition_run broadcast_def trust_def config_def Let_def split: option.splits if_splits)

lemma trust_token [simp]: "trust (snd (remove_cancel_token_if_current did g s)) = trust s"
  by (simp add: remove_cancel_token_if_current_def remove_cancel_token_def Let_def trust_def config_def)

lemma trust_queue [simp]: "trust (queue_init did s) = trust s" "trust (broadcast ev s) = trust s"
  by (simp_all add: queue_init_def broadcast_def trust_def config_def)

lemma trust_send_all [simp]: "trust (send_all E did ps clk s) = trust s"
  by (induction E did ps clk s rule: send_all.induct) simp_all

text \<open>What is asked of plugins: that they keep the trust invariant themselves.\<close>

definition plugins_keep :: "('s \<Rightarrow> bool) \<Rightarrow> 's app \<Rightarrow> bool" where
  "plugins_keep P A \<longleftrightarrow>
     (\<forall>p \<in> ran (plugins (app_plugins A)). \<forall>did s. P s \<longrightarrow> P (pl_on_disconnected p did s))
   \<and> (\<forall>hs \<in> ran (handlers (app_router A)) \<union> {default_handlers (app_router A)}. \<forall>h \<in> set hs.
        \<forall>did pkt s. P s \<longrightarrow> P (snd (h did pkt s)))"

lemma notify_disconnected_keeps:
  assumes "plugins_keep P A" and "P s"
  shows "P (notify_disconnected A did s)"
proof -
  have "P (fold (\<lambda>p. pl_on_disconnected p did) ps s)" if "set ps \<subseteq> ran (plugins (app_plugins A))" for ps
    using that assms(2)
  proof (induction ps arbitrary: s)
    case (Cons p ps)
    then show ?case using assms(1) by (simp add: plugins_keep_def)
  qed simp
  moreover have "set (List.map_filter m order) \<subseteq> ran m" for m :: "string \<Rightarrow> 'a conn_mgr_scheme plugin option" and order
    by (induction order) (auto simp: map_filter_simps ran_def split: option.splits)
  ultimately show ?thesis using assms(2) by (simp add: notify_disconnected_def)
qed

lemma run_all_keeps:
  assumes "\<forall>h \<in> set hs. \<forall>did pkt s. P s \<longrightarrow> P (snd (h did pkt s))" and "P s"
  shows "P (snd (run_all hs did pkt s))"
  using assms
proof (induction hs arbitrary: s)
  case (Cons h hs)
  have "snd (run_all (h # hs) did pkt s) = snd (run_all hs did pkt (snd (h did pkt s)))"
    by (simp add: Let_def split: prod.splits)
  with Cons show ?case by simp
qed simp

lemma route_keeps:
  assumes "plugins_keep P A" and "P s"
  shows "P (snd (route (app_router A) did pkt s))"
proof -
  have "\<forall>h \<in> set (case handlers (app_router A) (packet_type pkt) of Some hs \<Rightarrow> hs | None \<Rightarrow> default_handlers (app_router A)).
      \<forall>did pkt s. P s \<longrightarrow> P (snd (h did pkt s))"
    using assms(1) by (fastforce simp: plugins_keep_def ran_def split: option.splits)
  from run_all_keeps [OF this assms(2)] assms(2) show ?thesis by (simp add: route_runs Let_def)
qed

section \<open>Trust through the loop\<close>

lemma drop_link_keeps:
  assumes "plugins_keep (pairing_inv E) A" and "pairing_inv E s"
  shows "pairing_inv E (drop_link A did g clk s)"
proof -
  obtain r s1 where d: "disconnect did g s = (r, s1)" by fastforce
  have t: "trust s1 = trust s" using trust_disconnect [of did g s] d by simp
  have "pairing_inv E s1" using trust_inv [OF t] assms(2) by blast
  moreover have "pairing_inv E (try_transition did device_state.Disconnected clk s1)"
    using trust_inv [OF trans [OF trust_transition t]] assms(2) by blast
  ultimately show ?thesis
    using notify_disconnected_keeps [OF assms(1)] d by (auto simp: drop_link_def split: sum.splits bool.splits)
qed

lemma inv_send: "pairing_inv E s \<Longrightarrow> pairing_inv E (snd (send_packet E' did p clk s))"
  using trust_inv [OF trust_send] by blast

lemma inv_queue: "pairing_inv E s \<Longrightarrow> pairing_inv E (queue_init did s)" "pairing_inv E s \<Longrightarrow> pairing_inv E (broadcast ev s)"
  using trust_inv [OF trust_queue(1)] trust_inv [OF trust_queue(2)] by blast+

lemma inv_staged: "pairing_inv E s \<Longrightarrow> pairing_inv E (case c of Some c \<Rightarrow> set_pending_peer_cert did c s | None \<Rightarrow> s)"
  by simp

lemma peer_accepted_inv: "pairing_inv E s \<Longrightarrow> pairing_inv E (turn_state (peer_accepted E did pid clk s))"
proof -
  assume "pairing_inv E s"
  then have 1: "pairing_inv E (case get_peer_certificate did s of Some c \<Rightarrow> set_pending_peer_cert did c s | None \<Rightarrow> s)" (is "pairing_inv E ?s1")
    by (rule inv_staged)
  obtain r s2 where a: "accept_pairing E did clk ?s1 = (r, s2)" by fastforce
  with 1 have "pairing_inv E s2" by (blast intro: accept_inv)
  with a show ?thesis by (auto simp: peer_accepted_def Let_def intro: inv_send inv_queue split: sum.splits)
qed

lemma peer_requested_inv: "pairing_inv E s \<Longrightarrow> pairing_inv E (turn_state (peer_requested E did ts pid clk s))"
proof -
  assume inv: "pairing_inv E s"
  obtain r s1 where a: "receive_pair_request_with_cert E did ts (get_peer_certificate did s) (\<lambda>n. clk (n + 1)) s = (r, s1)"
    by fastforce
  with inv have i1: "pairing_inv E s1" by (blast intro: receive_inv)
  let ?p = "pair_response (pid 0) True (now_ts (clk 10))"
  obtain r2 s2 where b: "send_packet E did ?p (\<lambda>n. clk (n + 11)) s1 = (r2, s2)" by fastforce
  then have i2: "pairing_inv E s2" using inv_send [OF i1] by (metis snd_conv)
  have "pairing_inv E (snd (unpair E did s2))" using unpair_inv [OF prod.collapse [symmetric] i2] .
  with inv i1 i2 a b show ?thesis
    by (auto simp: peer_requested_def intro: inv_queue split: sum.splits)
qed

lemma peer_declined_inv:
  assumes "pairing_inv E s" and "plugins_keep (pairing_inv E) A"
  shows "pairing_inv E (turn_state (peer_declined E A did g ps clk s))"
proof -
  have "pairing_inv E (snd (unpair E did s))" "pairing_inv E (snd (reject_pairing did s))"
    using unpair_inv [OF prod.collapse [symmetric] assms(1)] reject_inv [OF prod.collapse [symmetric] assms(1)] by blast+
  with assms drop_link_keeps show ?thesis by (auto simp: peer_declined_def split: pair_state.splits)
qed

lemma handle_packet_turn_inv:
  assumes "pairing_inv E s" and "plugins_keep (pairing_inv E) A"
  shows "pairing_inv E (turn_state (handle_packet_turn E A did g notified p pid clk s))"
proof -
  obtain r s1 where rt: "route (app_router A) did p s = (r, s1)" by fastforce
  then have i1: "pairing_inv E s1" using route_keeps [OF assms(2,1), of did p] by simp
  have "pairing_inv E (send_all E did ps clk s1)" for ps
    using trust_inv [OF trust_send_all] i1 by blast
  with i1 assms rt show ?thesis
    by (auto simp: handle_packet_turn_def handle_pair_def Let_def
        intro: inv_send peer_accepted_inv peer_requested_inv peer_declined_inv split: sum.splits option.splits)
qed

text \<open>Trust survives the loop: whichever branch of the loop runs, whatever the peer sends and
  however the disk and the network behave, a turn keeps the trust invariant (every paired
  device is pinned to a certificate, our own id is never paired or pending, pending requests
  are bounded), provided the plugins it calls keep it.\<close>

theorem loop_turn_keeps_trust:
  assumes "pairing_inv E s" and "plugins_keep (pairing_inv E) A"
  shows "pairing_inv E (turn_state (loop_turn E A did g idle pid clk br notified s))"
proof (cases br)
  case Receive
  obtain r s1 where rc: "recv_packet_current E did g clk s = (r, s1)" by fastforce
  have "trust s1 = trust s" using trust_recv [of E did g clk s] rc by simp
  then have i1: "pairing_inv E s1" using trust_inv assms(1) by blast
  show ?thesis
  proof (cases r)
    case (Inr p)
    with Receive rc handle_packet_turn_inv [OF i1 assms(2)] show ?thesis by (simp add: loop_turn_def)
  next
    case (Inl e)
    with Receive rc i1 drop_link_keeps [OF assms(2) i1] show ?thesis by (cases e) (simp_all add: loop_turn_def)
  qed
next
  case Cancelled
  obtain b s1 where rm: "remove_cancel_token_if_current did g s = (b, s1)" by fastforce
  have t: "trust s1 = trust s" using trust_token [of did g s] rm by simp
  have "pairing_inv E s1" "pairing_inv E (try_transition did device_state.Disconnected clk s1)"
    using trust_inv [OF t] trust_inv [OF trans [OF trust_transition t]] assms(1) by blast+
  with Cancelled rm show ?thesis by (cases b) (simp_all add: loop_turn_def)
qed (use assms drop_link_keeps in \<open>auto simp: loop_turn_def split: option.splits\<close>)

section \<open>Who gets paired, and who gets heard\<close>

lemma paired_trust: "trust t = trust s \<Longrightarrow> is_paired d t = is_paired d s"
  by (simp add: trust_def is_paired_def)

lemma paired_ops [simp]:
  "is_paired d (snd (send_packet E did p clk s)) = is_paired d s"
  "is_paired d (send_all E did ps clk s) = is_paired d s"
  "is_paired d (queue_init did s') = is_paired d s'"
  "is_paired d (broadcast ev s'') = is_paired d s''"
  by (rule paired_trust, simp)+ (simp add: is_paired_def broadcast_def)

lemma stage_paired [simp]:
  "paired (case c of Some c \<Rightarrow> set_pending_peer_cert did c s | None \<Rightarrow> s) = paired s"
  by (simp add: set_pending_peer_cert_def split: option.splits)

lemma accept_pairs:
  assumes "accept_pairing E did clk s = (r, s')" and "is_paired d s'" and "\<not> is_paired d s"
  shows "d = did"
proof (cases "\<exists>s1. remove_pending_request did (clk 0) s = (Inr True, s1)")
  case True
  then obtain s1 where 1: "remove_pending_request did (clk 0) s = (Inr True, s1)" by blast
  with assms(1) have 2: "complete_pairing E did (clk 1) s1 = (r, s')" by (simp add: accept_pairing_def sbind_def)
  from assms(2,3) complete_frame(5) [OF 2] remove_pending_frame(1) [OF 1] show ?thesis
    by (auto simp: is_paired_def split: if_splits)
next
  case False
  obtain r1 s1 where 1: "remove_pending_request did (clk 0) s = (r1, s1)" by fastforce
  with False assms(1) have "s' = s1" by (auto simp: accept_pairing_def sbind_def sfail_def split: sum.splits if_splits)
  with assms(2,3) remove_pending_frame(1) [OF 1] show ?thesis by (simp add: is_paired_def)
qed

lemma receive_pairs:
  assumes "receive_pair_request_with_cert E did ts cert clk s = (r, s')" and "is_paired d s'" and "\<not> is_paired d s"
  shows "d = did \<and> (\<exists>q. outgoing s did = Some q \<and> \<not> is_expired (clk 0) q)"
  using assms(1)
proof (cases rule: receive_cases)
  case own
  with assms(2,3) show ?thesis by simp
next
  case (live s1 n s2)
  let ?st = "\<lambda>s. case cert of Some c \<Rightarrow> set_pending_peer_cert did c s | None \<Rightarrow> s"
  have "paired s1 = (if is_paired did s then hm_remove did (paired s) else paired s) \<and> outgoing s1 = outgoing s"
    using live(2) unpair_effect(1,2) [OF prod.collapse [symmetric], of E did s] by simp
  then have p2: "\<not> is_paired d s2" and o2: "outgoing s2 = hm_retain (\<lambda>_ r. \<not> is_expired (clk 0) r) (outgoing s)"
    using cleanup_frame(1,5) [OF live(3)] assms(3) by (auto simp: is_paired_def split: if_splits)
  have gk: "paired (snd (get_verification_key E did now t)) = paired t" for now t
    using verification_key_files [OF prod.collapse [symmetric], of E did now t] by auto
  have "did \<in> dom (outgoing s2)"
  proof (rule ccontr)
    assume "did \<notin> dom (outgoing s2)"
    then have "paired s' = paired s2"
      using arg_cong [OF live(4), of snd] by (auto simp: Let_def gk split: if_splits)
    with assms(2) p2 show False by (simp add: is_paired_def)
  qed
  moreover from this have "accept_pairing E did (\<lambda>n. clk (n + 2)) (?st s2) = (r, s')"
    using live(4) by (simp add: Let_def)
  then have "d = did" by (rule accept_pairs) (use assms(2) p2 in \<open>simp_all add: is_paired_def\<close>)
  ultimately show ?thesis using o2 by (auto simp: hm_retain_Some_iff)
qed

lemma not_paired_drop:
  assumes "plugins_keep (\<lambda>s. \<not> is_paired d s) A" and "\<not> is_paired d s"
  shows "\<not> is_paired d (drop_link A did g clk s)"
proof -
  obtain r s1 where d: "disconnect did g s = (r, s1)" by fastforce
  have t: "trust s1 = trust s" using trust_disconnect [of did g s] d by simp
  have "\<not> is_paired d s1" "\<not> is_paired d (try_transition did device_state.Disconnected clk s1)"
    using paired_trust [OF t] paired_trust [OF trans [OF trust_transition t]] assms(2) by blast+
  with d notify_disconnected_keeps [OF assms(1)] show ?thesis
    by (auto simp: drop_link_def split: sum.splits bool.splits)
qed

lemma peer_requested_pairs:
  assumes "\<not> is_paired d s" and "is_paired d (turn_state (peer_requested E did ts pid clk s))"
  shows "d = did \<and> (\<exists>q. outgoing s did = Some q \<and> \<not> is_expired (clk 1) q)"
proof -
  obtain r s1 where a: "receive_pair_request_with_cert E did ts (get_peer_certificate did s) (\<lambda>n. clk (n + 1)) s = (r, s1)"
    by fastforce
  have "is_paired d s1"
  proof (rule ccontr)
    assume n1: "\<not> is_paired d s1"
    let ?p = "pair_response (pid 0) True (now_ts (clk 10))"
    obtain r2 s2 where b: "send_packet E did ?p (\<lambda>n. clk (n + 11)) s1 = (r2, s2)" by fastforce
    then have n2: "\<not> is_paired d s2" using n1 paired_ops(1) [of d E did ?p "\<lambda>n. clk (n + 11)" s1] by simp
    then have "\<not> is_paired d (snd (unpair E did s2))"
      using unpair_effect(1) [OF prod.collapse [symmetric], of E did s2] by (simp add: is_paired_def)
    with n1 n2 assms a b show False by (auto simp: peer_requested_def split: sum.splits if_splits)
  qed
  from receive_pairs [OF a this assms(1)] show ?thesis by simp
qed

lemma handle_pair_pairs:
  assumes "plugins_keep (\<lambda>s. \<not> is_paired d s) A" and "\<not> is_paired d s"
    and "is_paired d (turn_state (handle_pair E A did g p pid clk s))"
  shows "d = did \<and> (\<exists>q n. outgoing s did = Some q \<and> \<not> is_expired (clk n) q)"
proof -
  obtain accepted where dec: "pair_decision p = Some accepted"
    using assms(2,3) by (cases "pair_decision p") (simp_all add: handle_pair_def)
  let ?ts = "Option.bind (json_get (packet_body p) ''timestamp'') json_as_i64"
  let ?clk = "\<lambda>n. clk (n + 2)"
  consider (acc) "accepted" "pair_state did clk s = Requested" | (req) "accepted" "pair_state did clk s \<noteq> Requested"
    | (no) "\<not> accepted" by blast
  then show ?thesis
  proof cases
    case acc
    let ?s1 = "case get_peer_certificate did s of Some c \<Rightarrow> set_pending_peer_cert did c s | None \<Rightarrow> s"
    obtain r s2 where a: "accept_pairing E did ?clk ?s1 = (r, s2)" by fastforce
    have "is_paired d s2"
      using assms(3) acc dec a
      by (auto simp: handle_pair_def peer_accepted_def Let_def split: sum.splits)
    moreover have "\<not> is_paired d ?s1"
      using assms(2) by (simp add: is_paired_def)
    ultimately have "d = did" by (rule accept_pairs [OF a])
    moreover have "\<exists>q. outgoing s did = Some q \<and> \<not> is_expired (clk 0) q"
      using acc(2) by (auto simp: pair_state_def split: if_splits option.splits)
    ultimately show ?thesis by blast
  next
    case req
    have "is_paired d (turn_state (peer_requested E did ?ts pid ?clk s))"
      using assms(3) dec req by (simp add: handle_pair_def Let_def)
    from peer_requested_pairs [OF assms(2) this] show ?thesis by blast
  next
    case no
    have "\<not> is_paired d (snd (unpair E did s))" "\<not> is_paired d (snd (reject_pairing did s))"
      using unpair_effect(1) [OF prod.collapse [symmetric], of E did s] reject_frame(1) [OF prod.collapse [symmetric], of did s]
        assms(2) by (simp_all add: is_paired_def)
    with not_paired_drop [OF assms(1)] assms(2) have "\<not> is_paired d (turn_state (handle_pair E A did g p pid clk s))"
      using dec no by (simp add: handle_pair_def peer_declined_def Let_def split: pair_state.splits)
    with assms(3) show ?thesis by simp
  qed
qed

text \<open>Property C4.
  A peer cannot pair itself: if a device that was not paired is paired after a turn of the
  loop, then that turn received a packet, the device is the loop's own peer, and we had a
  pairing request of our own to it that had not expired. Whatever the peer sends without such
  a request pairs nobody (the plugins are asked not to pair anybody themselves).\<close>

theorem loop_pairs_only_requested:
  assumes "plugins_keep (\<lambda>s. \<not> is_paired d s) A" and "\<not> is_paired d s"
    and "is_paired d (turn_state (loop_turn E A did g idle pid clk br notified s))"
  shows "br = Receive \<and> d = did \<and> (\<exists>q n. outgoing s did = Some q \<and> \<not> is_expired (clk n) q)"
proof (cases br)
  case Receive
  obtain r s1 where rc: "recv_packet_current E did g clk s = (r, s1)" by fastforce
  have t1: "trust s1 = trust s" using trust_recv [of E did g clk s] rc by simp
  then have n1: "\<not> is_paired d s1" using paired_trust assms(2) by blast
  obtain p where p: "r = Inr p"
    using assms(3) Receive rc n1 not_paired_drop [OF assms(1) n1]
    by (cases r) (auto simp: loop_turn_def split: error.splits)
  have in2: "is_paired d (turn_state (handle_packet_turn E A did g notified p pid (\<lambda>n. clk (n + 1)) s1))"
    using assms(3) Receive rc p by (simp add: loop_turn_def)
  have "\<not> is_paired d (snd (route (app_router A) did p s1))" by (rule route_keeps [OF assms(1) n1])
  then have "is_pair p"
    using in2 n1 route_keeps [OF assms(1) n1, of did p]
    by (auto simp: handle_packet_turn_def split: if_splits sum.splits option.splits prod.splits)
  with in2 have "is_paired d (turn_state (handle_pair E A did g p pid (\<lambda>n. clk (n + 1)) s1))"
    by (simp add: handle_packet_turn_def)
  from handle_pair_pairs [OF assms(1) n1 this] trust_fields [OF t1] Receive show ?thesis by auto
next
  case Cancelled
  obtain b s1 where rm: "remove_cancel_token_if_current did g s = (b, s1)" by fastforce
  have t: "trust s1 = trust s" using trust_token [of did g s] rm by simp
  have "\<not> is_paired d s1" "\<not> is_paired d (try_transition did device_state.Disconnected clk s1)"
    using paired_trust [OF t] paired_trust [OF trans [OF trust_transition t]] assms(2) by blast+
  with Cancelled rm assms(3) show ?thesis by (cases b) (simp_all add: loop_turn_def)
qed (use assms not_paired_drop [OF assms(1,2)] in \<open>auto simp: loop_turn_def split: option.splits if_splits\<close>)

text \<open>Property C5.
  Packets of an unpaired device never reach a plugin: as long as the device is not paired,
  every turn of its loop gives the same result and the same state whatever handlers are
  registered with the router.\<close>

theorem unpaired_never_routed:
  assumes "\<not> is_paired did s"
  shows "loop_turn E A did g idle pid clk br notified s =
    loop_turn E (A\<lparr>app_router := other\<rparr>) did g idle pid clk br notified s"
proof -
  have "notify_disconnected (A\<lparr>app_router := other\<rparr>) = notify_disconnected A"
    by (simp add: notify_disconnected_def fun_eq_iff)
  then have drop: "drop_link (A\<lparr>app_router := other\<rparr>) did g c t = drop_link A did g c t" for c t
    by (simp add: drop_link_def split: prod.splits sum.splits bool.splits)
  have "peer_declined E (A\<lparr>app_router := other\<rparr>) did g ps c t = peer_declined E A did g ps c t" for ps c t
    by (simp add: peer_declined_def drop split: pair_state.splits)
  then have pair: "handle_pair E (A\<lparr>app_router := other\<rparr>) did g p pid c t = handle_pair E A did g p pid c t" for p c t
    by (simp add: handle_pair_def Let_def split: option.splits)
  obtain r s1 where rc: "recv_packet_current E did g clk s = (r, s1)" by fastforce
  have "trust s1 = trust s" using trust_recv [of E did g clk s] rc by simp
  then have "\<not> is_paired did s1" using paired_trust assms by blast
  with rc drop pair show ?thesis
    by (cases br) (simp_all add: loop_turn_def handle_packet_turn_def split: sum.splits error.splits option.splits)
qed

text \<open>Property C12.
  A loop that lost its link stops without a trace: when the device's link belongs to another
  generation, the turn of a receive, a cancellation or a shutdown ends the loop, an idle check
  goes on, and no turn changes anything: not the new link, not the device's state, not the
  plugins.\<close>

theorem stale_loop_ends_quietly:
  assumes "get_generation did s = Some g'" and "g' \<noteq> g"
  shows "loop_turn E A did g idle pid clk br notified s =
    (case br of Receive \<Rightarrow> Return LoopDisconnected s | Cancelled \<Rightarrow> Return LoopDisconnected s
              | Shutdown \<Rightarrow> Return LoopShutdown s | IdleCheck \<Rightarrow> Continue notified s)"
proof -
  from assms obtain h where h: "connections s did = Some h" "cn_generation h \<noteq> g"
    by (auto simp: get_generation_def)
  then have "disconnect did g t = (Inr False, t)" "drop_link A did g c t = t" if "t = s" for t c
    using that by (simp_all add: disconnect_def drop_link_def)
  moreover have "remove_cancel_token_if_current did g s = (False, s)"
    "recv_packet_current E did g clk s = (Inl (ConnectionError ''Stale generation (link replaced)''), s)"
    using h by (simp_all add: remove_cancel_token_if_current_def is_current_generation_def Let_def
        recv_packet_current_def recv_packet_inner_def)
  ultimately show ?thesis by (cases br) (simp_all add: loop_turn_def split: option.splits)
qed

text \<open>The window of a pairing request: a timestamp is fresh exactly if it lies within half an hour
  of now, in either direction, over the whole range of 64-bit timestamps; the difference does
  not wrap around.\<close>

theorem pair_timestamp_window: "pair_timestamp_is_fresh ts now \<longleftrightarrow> \<bar>sint ts - sint now\<bar> \<le> 1800"
proof -
  have "\<bar>sint ts - sint now\<bar> < 2 ^ 64"
    using sint_greater_eq [of ts] sint_less [of ts] sint_greater_eq [of now] sint_less [of now] by simp
  then have "uint (abs_diff ts now) = \<bar>sint ts - sint now\<bar>"
    by (simp add: abs_diff_def uint_word_of_int)
  then show ?thesis by (simp add: pair_timestamp_is_fresh_def word_le_def)
qed

text \<open>A request that the peer turns down leaks its link: when the peer answers our pending request
  with a refusal, the loop ends, but the link stays in the table of connections as it was and
  the device is not marked disconnected. (A refusal from a paired device does remove the link.)\<close>

theorem declined_request_leaks_link:
  assumes "recv_packet_current E did g clk s = (Inr p, s1)" and "is_pair p" and "pair_decision p = Some False"
    and "pair_state did (\<lambda>n. clk (n + 1)) s1 = Requested \<or> pair_state did (\<lambda>n. clk (n + 1)) s1 = RequestedByPeer"
  shows "\<exists>t. loop_turn E A did g idle pid clk Receive notified s = Return LoopDisconnected t
    \<and> connections t = connections s1 \<and> get_generation did t = Some g \<and> devices t = devices s"
proof -
  let ?t = "snd (reject_pairing did s1)"
  have "loop_turn E A did g idle pid clk Receive notified s = Return LoopDisconnected ?t"
    using assms by (auto simp: loop_turn_def handle_packet_turn_def handle_pair_def peer_declined_def Let_def)
  moreover have "connections ?t = connections s1" "devices ?t = devices s1"
    by (simp_all add: reject_pairing_def Let_def)
  moreover have "get_generation did s1 = Some g" "devices s1 = devices s"
    using assms(1) by (auto simp: recv_packet_current_def recv_packet_inner_def Let_def get_generation_def
        split: option.splits if_splits prod.splits next_line.splits)
  ultimately show ?thesis by (auto simp: get_generation_def)
qed

text \<open>An idle link is torn down twice: the idle check removes the link and runs the teardown, but
  the loop goes on, its next receive fails for want of a link, and the teardown (the state
  transition and the notification of the plugins) runs a second time.\<close>

theorem idle_teardown_runs_twice:
  assumes "get_generation did s = Some g" and "get_connection_info did s = Some ci" and "idle \<noteq> 0"
    and "is_idle (clk 0) (secs (sint idle)) ci"
    and "plugins_keep (\<lambda>s. connections s did = None) A"
  shows "\<exists>s1. loop_turn E A did g idle pid clk IdleCheck notified s = Continue notified s1
    \<and> connections s1 did = None
    \<and> loop_turn E A did g idle pid' clk' Receive notified s1 =
        Return LoopDisconnected (notify_disconnected A did
          (try_transition did device_state.Disconnected (\<lambda>n. clk' (n + 1)) (snd (disconnect did g s1))))"
proof -
  let ?c = "\<lambda>n. clk (n + 1)"
  obtain s0 where d: "disconnect did g s = (Inr True, s0)" and n0: "connections s0 did = None"
  proof -
    have "fst (disconnect did g s) = Inr True" "connections (snd (disconnect did g s)) did = None"
      using assms(1) by (auto simp: disconnect_def get_generation_def Let_def remove_cancel_token_def)
    then show thesis using that by (metis prod.collapse)
  qed
  let ?s0 = "try_transition did device_state.Disconnected ?c s0"
  let ?s1 = "notify_disconnected A did ?s0"
  have "connections ?s0 = connections s0"
    by (auto simp: try_transition_def transition_run broadcast_def Let_def split: option.splits if_splits)
  with n0 have n1: "connections ?s1 did = None" by (intro notify_disconnected_keeps [OF assms(5)]) simp
  have "loop_turn E A did g idle pid clk IdleCheck notified s = Continue notified ?s1"
    using assms(2-4) d by (simp add: loop_turn_def drop_link_def)
  moreover have "recv_packet_current E did g clk' ?s1 = (Inl (ConnectionError ''No connection for device''), ?s1)"
    using n1 by (simp add: recv_packet_current_def recv_packet_inner_def)
  moreover have "fst (disconnect did g ?s1) = Inr True"
    using n1 by (simp add: disconnect_def Let_def)
  ultimately show ?thesis using n1
    by (auto simp: loop_turn_def drop_link_def split: prod.splits sum.splits)
qed

section \<open>The loop at work\<close>

text \<open>A link to a device with a request of ours pending; the peer answers with a pair packet,
  accepting or refusing.\<close>

definition loop_externals :: "bool \<Rightarrow> externals" where
  "loop_externals b = demo_externals\<lparr>json_parse := \<lambda>_. Some (packet_to_json (pair_response 1 b 5))\<rparr>"

definition demo_peer :: connection where
  "demo_peer = new_link [Chunk demo_line] [] 0 demo_id 1 (Some ''CERT'') None None"

definition demo_daemon :: daemon where
  "demo_daemon = conn_mgr.extend (demo_manager\<lparr>connections := [demo_id \<mapsto> demo_peer], outgoing := [demo_id \<mapsto> demo_request]\<rparr>)
     (daemon.fields [])"

definition no_plugins :: "'s app" where
  "no_plugins = \<lparr>app_router = new_router, app_plugins = \<lparr>plugins = Map.empty, capability_index = Map.empty\<rparr>, app_order = []\<rparr>"

lemma no_plugins_keep [simp]: "plugins_keep P no_plugins"
  by (simp add: plugins_keep_def no_plugins_def new_router_def)

lemma demo_daemon_simps [simp]:
  "connections demo_daemon = [demo_id \<mapsto> demo_peer]" "outgoing demo_daemon = [demo_id \<mapsto> demo_request]"
  "incoming demo_daemon = Map.empty" "paired demo_daemon = Map.empty" "devices demo_daemon = Map.empty"
  "pending_certs demo_daemon = Map.empty" "cert_manager demo_daemon = demo_certs" "sh_disk demo_daemon = demo_disk []"
  "own_device_id demo_daemon = None" "max_pending demo_daemon = max_pending demo_handler"
  "persist_path demo_daemon = persist_path demo_handler"
  by (simp_all add: demo_daemon_def conn_mgr.extend_def daemon.fields_def demo_manager_def new_manager_def registry.extend_def
      conn_mgr.fields_def demo_registry_def pairing_handler.extend_def demo_handler_def new_handler_def)

lemma demo_peer_simps [simp]:
  "cn_generation demo_peer = 1" "cn_peer_cert demo_peer = Some ''CERT''" "cn_input demo_peer = [Chunk demo_line]"
  "cn_info demo_peer = new_connection_info 0 demo_id 1"
  by (simp_all add: demo_peer_def new_link_def)

lemma demo_pair_line: "deserialize (loop_externals b) demo_line = Inr (pair_response 1 b 5)"
proof -
  have "deserialize (loop_externals b) demo_line = packet_of_json (packet_to_json (pair_response 1 b 5))"
    by (simp add: demo_line_def deserialize_braces [unfolded append.simps] loop_externals_def)
  also have "\<dots> = Inr (pair_response 1 b 5)"
    by (rule packet_of_to_json) (simp add: pair_response_def new_packet_def)
  finally show ?thesis .
qed

definition demo_heard :: daemon where
  "demo_heard = demo_daemon\<lparr>connections := [demo_id \<mapsto>
     demo_peer\<lparr>cn_input := [], cn_info := increment_received 0 (new_connection_info 0 demo_id 1)\<rparr>]\<rparr>"

lemma demo_recv:
  "recv_packet_current (loop_externals b) demo_id 1 (\<lambda>_. 0) demo_daemon = (Inr (pair_response 1 b 5), demo_heard)"
proof -
  have "recv_line MAX_STEADY_PACKET_SIZE [Chunk demo_line] = (GotLine demo_line, [])"
    by (subst recv_line.simps) (simp add: read_steady_line_def unread_def demo_line_def newline_def MAX_STEADY_PACKET_SIZE_def is_ascii_whitespace_def)
  then show ?thesis
    by (simp add: recv_packet_current_def recv_packet_inner_def demo_heard_def demo_pair_line)
qed

theorem declined_request_leaks_link_witness:
  "\<exists>t. loop_turn (loop_externals False) no_plugins demo_id 1 0 (\<lambda>_. 9) (\<lambda>_. 0) Receive False demo_daemon = Return LoopDisconnected t
     \<and> get_generation demo_id t = Some 1"
proof -
  have "pair_state demo_id (\<lambda>n. 0) demo_heard = Requested"
    by (simp add: pair_state_def demo_heard_def demo_request_def is_expired_def secs_def)
  then show ?thesis
    using declined_request_leaks_link [OF demo_recv, of False no_plugins 0 "\<lambda>_. 9" False]
    by (auto simp: pair_response_def new_packet_def is_pair_def pair_decision_def)
qed

theorem stale_loop_ends_quietly_witness:
  "loop_turn (loop_externals True) no_plugins demo_id 7 0 (\<lambda>_. 9) (\<lambda>_. 0) Shutdown False demo_daemon = Return LoopShutdown demo_daemon"
  using stale_loop_ends_quietly [of demo_id demo_daemon 1 7 _ _ _ _ _ Shutdown] by (simp add: get_generation_def)

theorem unpaired_never_routed_witness:
  "loop_turn (loop_externals True) no_plugins demo_id 1 0 (\<lambda>_. 9) (\<lambda>_. 0) Receive False demo_daemon
   = loop_turn (loop_externals True) (no_plugins\<lparr>app_router := new_router\<lparr>default_handlers := [\<lambda>_ _ s. (HResult (Inr None), s\<lparr>connections := Map.empty\<rparr>)]\<rparr>\<rparr>) demo_id 1 0 (\<lambda>_. 9) (\<lambda>_. 0) Receive False demo_daemon"
  by (rule unpaired_never_routed) (simp add: is_paired_def)

theorem idle_teardown_runs_twice_witness:
  "\<exists>s1. loop_turn (loop_externals True) no_plugins demo_id 1 60 (\<lambda>_. 9) (\<lambda>_. secs 61) IdleCheck False demo_daemon = Continue False s1
     \<and> connections s1 demo_id = None
     \<and> loop_turn (loop_externals True) no_plugins demo_id 1 60 (\<lambda>_. 9) (\<lambda>_. secs 62) Receive False s1 =
         Return LoopDisconnected (notify_disconnected no_plugins demo_id
           (try_transition demo_id device_state.Disconnected (\<lambda>_. secs 62) (snd (disconnect demo_id 1 s1))))"
proof -
  have "is_idle (secs 61) (secs (sint (60 :: u64))) (new_connection_info 0 demo_id 1)"
    by (simp add: is_idle_def new_connection_info_def secs_def)
  then show ?thesis
    using idle_teardown_runs_twice [of demo_id demo_daemon 1 "new_connection_info 0 demo_id 1" 60 "\<lambda>_. secs 61" no_plugins
        "loop_externals True" "\<lambda>_. 9" False "\<lambda>_. 9" "\<lambda>_. secs 62"]
    by (simp add: get_generation_def get_connection_info_def)
qed

lemma demo_pairs: "is_paired demo_id (turn_state
  (loop_turn (loop_externals True) no_plugins demo_id 1 0 (\<lambda>_. 9) (\<lambda>_. 0) Receive False demo_daemon))"
proof -
  have "script (demo_disk []) = []" "pinned_fp (loop_externals True) demo_certs demo_id (demo_disk []) = None"
    "valid_id (loop_externals True) demo_id"
    by (simp_all add: demo_disk_def pinned_fp_def valid_demo_id)
  then obtain d1 where d1: "store_peer_certificate (loop_externals True) demo_certs demo_id ''CERT'' (demo_disk []) = (Inr (), d1)"
    using store_healthy by blast
  have ps: "pair_state demo_id (\<lambda>n. 0) demo_heard = Requested"
    by (simp add: pair_state_def demo_heard_def demo_request_def is_expired_def secs_def)
  have dec: "is_pair (pair_response 1 True 5)" "pair_decision (pair_response 1 True 5) = Some True"
    by (simp_all add: pair_response_def new_packet_def is_pair_def pair_decision_def)
  let ?s1 = "set_pending_peer_cert demo_id ''CERT'' demo_heard"
  obtain r s2 where a: "accept_pairing (loop_externals True) demo_id (\<lambda>_. 0) ?s1 = (r, s2)" by fastforce
  then have "r = Inr ()" "is_paired demo_id s2"
    by (auto simp: accept_pairing_def sbind_def remove_pending_request_def set_pending_peer_cert_def demo_heard_def demo_request_def
          is_expired_def secs_def complete_pairing_def on_disk_def d1 Let_def is_paired_def)
  with a dec ps show ?thesis
    by (simp add: loop_turn_def demo_recv handle_packet_turn_def handle_pair_def Let_def peer_accepted_def
        get_peer_certificate_def demo_heard_def)
qed

theorem loop_pairs_only_requested_witness:
  "\<exists>q. outgoing demo_daemon demo_id = Some q \<and> \<not> is_expired 0 q"
  using loop_pairs_only_requested [OF no_plugins_keep _ demo_pairs] by (auto simp: is_paired_def)

theorem loop_turn_keeps_trust_witness:
  "pairing_inv (loop_externals True) (turn_state
     (loop_turn (loop_externals True) no_plugins demo_id 1 0 (\<lambda>_. 9) (\<lambda>_. 0) Receive False demo_daemon))"
proof (rule loop_turn_keeps_trust [OF _ no_plugins_keep])
  have "persist_apart demo_daemon = persist_apart demo_handler"
    by (simp add: persist_apart_def demo_handler_def new_handler_def)
  then show "pairing_inv (loop_externals True) demo_daemon"
    using demo_apart by (simp add: pairing_inv_def hm_len_def demo_handler_def new_handler_def)
qed

end
