(* ===== verification/Sessions.thy ===== *)
theory Sessions
  imports Packet_Loop
begin

text \<open>
  The life of a connection from the accepted or dialled socket to its end: the listener
  (\<open>src/protocol/listener.rs\<close>) and the connection orchestrator
  (\<open>src/services/connection_orchestrator.rs\<close>). Both complete a handshake, register the link's
  cancel token, mark the device connected, queue the advertisement of the plugins and run the
  packet loop.

  Other tasks run between the steps of a session. A \<open>schedule\<close> therefore carries, besides
  clock readings and packet ids, the effect of the other tasks at each point where the session
  waits (\<open>sc_env\<close>, \<open>ti_env\<close>): arbitrary functions on the state. A session that has not
  ended when its schedule is used up is still running.

  The 30 second limit around the inbound handshake never fires: its parts have limits of 10
  seconds each. The limit of 15 seconds around the exchange of encrypted identities ends in the
  same branch as a failed exchange.
\<close>

section \<open>The loop over many turns\<close>

record 's turn_input =
  ti_env :: "'s \<Rightarrow> 's"
  ti_branch :: branch
  ti_pid :: "nat \<Rightarrow> i64"
  ti_clk :: clock

text \<open>What does not change while the daemon runs.\<close>

record 's site =
  st_ext :: externals
  st_rustls :: rustls
  st_json :: devices_json
  st_app :: "'s app"
  st_idle :: u64

fun run_packet_loop ::
    "('z daemon_scheme) site \<Rightarrow> device_key \<Rightarrow> u64 \<Rightarrow> ('z daemon_scheme) turn_input list \<Rightarrow> bool \<Rightarrow> 'z daemon_scheme
     \<Rightarrow> 'z daemon_scheme turn" where
  "run_packet_loop H did g [] notified s = Continue notified s"
| "run_packet_loop H did g (t # ts) notified s =
     (case loop_turn (st_ext H) (st_app H) did g (st_idle H) (ti_pid t) (ti_clk t) (ti_branch t) notified (ti_env t s) of
        Continue notified' s' \<Rightarrow> run_packet_loop H did g ts notified' s'
      | Return r s' \<Rightarrow> Return r s')"

record 's schedule =
  sc_env :: "nat \<Rightarrow> 's \<Rightarrow> 's"
  sc_clk :: "nat \<Rightarrow> clock"
  sc_pid :: "nat \<Rightarrow> i64"
  sc_token :: nat
  sc_order :: "device_key list"
  sc_turns :: "'s turn_input list"

datatype 's session = Ended 's | Running device_key u64 's

primrec session_state :: "'s session \<Rightarrow> 's" where
  "session_state (Ended s) = s"
| "session_state (Running did g s) = s"

section \<open>The listener\<close>

definition MAX_INBOUND_CONNECTIONS :: nat where "MAX_INBOUND_CONNECTIONS = 64"

definition try_acquire_inbound_slot :: "nat \<Rightarrow> nat option" where
  "try_acquire_inbound_slot slots = (if slots = 0 then None else Some (slots - 1))"

definition with_error :: "(error \<Rightarrow> error) \<Rightarrow> ('s, 'a) op \<Rightarrow> ('s, 'a) op" where
  "with_error f m s = (case m s of (r, s') \<Rightarrow> (map_err f r, s'))"

definition identity_exchange ::
    "externals \<Rightarrow> identity \<Rightarrow> identity \<Rightarrow> device_key \<Rightarrow> u64 \<Rightarrow> i64 \<Rightarrow> clock \<Rightarrow> ('z conn_mgr_scheme, unit) op" where
  "identity_exchange E our plain did g pid clk =
     sbind (with_error (\<lambda>_. ConnectionError ''Failed to read encrypted identity'') (recv_packet_current E did g clk)) (\<lambda>p.
       if \<not> is_identity p then sfail (InvalidPacket ''Expected encrypted identity packet'')
       else sbind (slift (map_err (\<lambda>_. InvalidPacket ''Malformed encrypted identity'') (from_packet E p))) (\<lambda>i.
         if device_id i \<noteq> did then
           sfail (InvalidPacket ''Encrypted identity deviceId does not match plaintext identity'')
         else if protocol_version i \<noteq> protocol_version plain then
           sfail (InvalidPacket ''Encrypted identity protocolVersion differs from plaintext'')
         else with_error (\<lambda>_. ConnectionError ''Failed to send encrypted identity'')
                (send_packet E did (to_tcp_packet pid our) (\<lambda>n. clk (n + 1)))))"

definition handle_connection ::
    "('z daemon_scheme) site \<Rightarrow> identity \<Rightarrow> socket \<Rightarrow> ('z daemon_scheme) schedule \<Rightarrow> 'z daemon_scheme \<Rightarrow> 'z daemon_scheme session" where
  "handle_connection H our k sc s =
     (case accept_incoming (st_ext H) (st_rustls H) k (sc_clk sc 0) s of
        (Inl _, s1) \<Rightarrow> Ended s1
      | (Inr (did, i, g), s1) \<Rightarrow>
          (case identity_exchange (st_ext H) our i did g (sc_pid sc 0) (sc_clk sc 1) (sc_env sc 0 s1) of
             (Inl _, s2) \<Rightarrow> Ended (drop_link (st_app H) did g (sc_clk sc 2) (sc_env sc 1 s2))
           | (Inr _, s2) \<Rightarrow>
               (case register_cancel_token_if_current (sc_token sc) did g (sc_env sc 1 s2) of
                  (False, s3) \<Rightarrow> Ended s3
                | (True, s3) \<Rightarrow>
                    (let s4 = snd (ensure_and_transition (st_ext H) (st_json H) (sc_order sc) did i device_state.Connected (sc_clk sc 2) s3);
                         s5 = (if is_paired did s4 then queue_init did s4 else s4)
                     in case run_packet_loop H did g (sc_turns sc) False s5 of
                          Continue _ s6 \<Rightarrow> Running did g s6
                        | Return _ s6 \<Rightarrow> Ended (snd (disconnect did g (sc_env sc 2 s6)))))))"

section \<open>The orchestrator\<close>

text \<open>The pause before a reconnection attempt, in nanoseconds; the random number is drawn anew
  each time.\<close>

definition backoff_base :: "nat \<Rightarrow> nat \<Rightarrow> nat \<Rightarrow> nat" where
  "backoff_base attempt base cap = ((\<lambda>delay. min (delay * 2) cap) ^^ (attempt - 1)) base"

definition backoff_delay :: "nat \<Rightarrow> nat \<Rightarrow> nat \<Rightarrow> nat \<Rightarrow> nat" where
  "backoff_delay attempt base cap draw =
     (let delay = backoff_base attempt base cap;
          quarter = delay div 1000000 mod 2 ^ 64 div 4
      in delay + draw mod (quarter * 2 + 1) * 1000000)"

definition run_connection_setup ::
    "('z daemon_scheme) site \<Rightarrow> ('z daemon_scheme, 'm) schedule_scheme \<Rightarrow> device_key \<Rightarrow> identity \<Rightarrow> u64 \<Rightarrow> ('z daemon_scheme, unit) op" where
  "run_connection_setup H sc did i g s =
     (case register_cancel_token_if_current (sc_token sc) did g s of
        (False, s1) \<Rightarrow> (Inl (ConnectionError ''Connection replaced during setup (stale generation)''), s1)
      | (True, s1) \<Rightarrow>
          (let s2 = snd (ensure_and_transition (st_ext H) (st_json H) (sc_order sc) did i device_state.Connected (sc_clk sc 2) s1);
               s3 = (if is_paired did s2 then s2
                     else case pending_outgoing_timestamp did (sc_clk sc 3 0) s2 of
                            Some ts \<Rightarrow> snd (send_packet (st_ext H) did (pair_request_with_timestamp (sc_pid sc 1) ts) (sc_clk sc 4) s2)
                          | None \<Rightarrow> s2);
               s4 = (if is_paired did s3 then queue_init did s3 else s3)
           in (Inr (), s4)))"

definition run_connection_sequence ::
    "('z daemon_scheme) site \<Rightarrow> ('z daemon_scheme, 'm) schedule_scheme \<Rightarrow> device_key \<Rightarrow> identity \<Rightarrow> u64 \<Rightarrow> 'z daemon_scheme \<Rightarrow> 'z daemon_scheme turn" where
  "run_connection_sequence H sc did i g s =
     (case run_connection_setup H sc did i g s of
        (Inl _, s1) \<Rightarrow> Return LoopDisconnected s1
      | (Inr _, s1) \<Rightarrow> run_packet_loop H did g (sc_turns sc) False s1)"

text \<open>What a dial needs, and the answers of the shutdown flag each time it is asked.\<close>

record 's attempt = "'s schedule" +
  at_dial :: dial
  at_udp :: udp_outcome
  at_draws :: draws
  at_ids :: "nat \<Rightarrow> i64"
  at_shutdown :: "nat \<Rightarrow> bool"

text \<open>A dial under the pending guard: the device's id is in the pending set while the dial runs.\<close>

definition dial_pending ::
    "('z daemon_scheme) site \<Rightarrow> ('z daemon_scheme) attempt \<Rightarrow> identity \<Rightarrow> sock_addr \<Rightarrow> identity \<Rightarrow> device_key
     \<Rightarrow> ('z daemon_scheme, device_key \<times> identity \<times> u64) op" where
  "dial_pending H at our addr i did s =
     (case connect_to_device (st_ext H) (st_rustls H) (at_draws at) (at_ids at) (at_udp at) our addr (Some i)
             (sc_clk at 0) (at_dial at) s of
        (r, s') \<Rightarrow> (r, remove_pending_connection did s'))"

definition max_retries :: nat where "max_retries = 5"

fun reconnect_loop ::
    "nat \<Rightarrow> ('z daemon_scheme) site \<Rightarrow> identity \<Rightarrow> sock_addr \<Rightarrow> device_key \<Rightarrow> (nat \<Rightarrow> ('z daemon_scheme) attempt)
     \<Rightarrow> 'z daemon_scheme \<Rightarrow> 'z daemon_scheme session" where
  "reconnect_loop 0 H i addr did ats s = Ended s"
| "reconnect_loop (Suc n) H i addr did ats s =
     (let at = ats n; s0 = sc_env at 0 s in
      if at_shutdown at 0 then Ended s
      else if at_shutdown at 1 \<or> at_shutdown at 2 \<or> is_connected did s0 then Ended s0
      else case get_identity s0 of
             None \<Rightarrow> Ended s0
           | Some our \<Rightarrow>
               (case add_pending_connection did s0 of
                  (False, s1) \<Rightarrow> reconnect_loop n H i addr did ats s1
                | (True, s1) \<Rightarrow>
                    (case dial_pending H at our addr i did s1 of
                       (Inl _, s2) \<Rightarrow> reconnect_loop n H i addr did ats s2
                     | (Inr (cid, ri, g), s2) \<Rightarrow>
                         (case run_connection_sequence H at cid ri g (sc_env at 1 s2) of
                            Continue _ s3 \<Rightarrow> Running cid g s3
                          | Return r s3 \<Rightarrow>
                              if r = LoopDisconnected \<and> \<not> at_shutdown at 3 \<and> 0 < n
                              then reconnect_loop n H i addr did ats s3 else Ended s3))))"

text \<open>A device announced itself: dial it, unless it is us, connected, pending, or paired with a
  newer protocol version than it announces now.\<close>

definition downgraded :: "identity \<Rightarrow> 'z registry_scheme \<Rightarrow> bool" where
  "downgraded i s \<longleftrightarrow> is_paired (device_id i) s
     \<and> (case devices s (device_id i) of Some d \<Rightarrow> protocol_version i < dv_protocol_version d | None \<Rightarrow> False)"

definition spawn_discovered_connection ::
    "('z daemon_scheme) site \<Rightarrow> identity \<Rightarrow> ip_addr \<Rightarrow> ('z daemon_scheme) attempt \<Rightarrow> (nat \<Rightarrow> ('z daemon_scheme) attempt)
     \<Rightarrow> 'z daemon_scheme \<Rightarrow> 'z daemon_scheme session" where
  "spawn_discovered_connection H i ip at ats s =
     (let did = device_id i; addr = SockAddr ip (case tcp_port i of Some p \<Rightarrow> p | None \<Rightarrow> 1716) in
      if did = cm_device_id s then Ended s
      else (let s0 = sc_env at 0 s in
        if is_connected did s0 then Ended s0
        else if downgraded i s0 then Ended s0
        else case get_identity s0 of
               None \<Rightarrow> Ended s0
             | Some our \<Rightarrow>
                 (case add_pending_connection did s0 of
                    (False, s1) \<Rightarrow> Ended s1
                  | (True, s1) \<Rightarrow>
                      (case dial_pending H at our addr i did s1 of
                         (Inl _, s2) \<Rightarrow> Ended s2
                       | (Inr (cid, ri, g), s2) \<Rightarrow>
                           (case run_connection_sequence H at cid ri g (sc_env at 1 s2) of
                              Continue _ s3 \<Rightarrow> Running cid g s3
                            | Return r s3 \<Rightarrow>
                                if r = LoopDisconnected \<and> is_paired cid s3 \<and> \<not> at_shutdown at 0
                                then reconnect_loop max_retries H i addr cid ats s3 else Ended s3)))))"

text \<open>A dial by address on request of a user: the loop is spawned, so the call returns with the
  loop's first turn still to come.\<close>

definition connect_and_spawn_loop ::
    "('z daemon_scheme) site \<Rightarrow> identity \<Rightarrow> sock_addr \<Rightarrow> ('z daemon_scheme) attempt \<Rightarrow> ('z daemon_scheme, device_key \<times> u64) op" where
  "connect_and_spawn_loop H our addr at =
     sbind (with_error (\<lambda>_. ConnectionError ''Failed to connect'')
              (connect_to_device (st_ext H) (st_rustls H) (at_draws at) (at_ids at) (at_udp at) our addr None
                 (sc_clk at 0) (at_dial at))) (\<lambda>(cid, ri, g).
     sbind (\<lambda>s. (Inr (), sc_env at 1 s)) (\<lambda>_.
     sbind (run_connection_setup H at cid ri g) (\<lambda>_.
       sreturn (cid, g))))"

section \<open>Inbound sessions\<close>

lemma transition_links [simp]:
  "connections (try_transition did st clk s) = connections s"
  by (auto simp: try_transition_def transition_run broadcast_def Let_def split: option.splits if_splits)

lemma disconnect_gone: "get_generation did (snd (disconnect did g s)) \<noteq> Some g"
  by (simp add: disconnect_def get_generation_def Let_def remove_cancel_token_def split: option.splits)

lemma drop_link_gone:
  assumes "plugins_keep (\<lambda>s. get_generation did s \<noteq> Some g) A"
  shows "get_generation did (drop_link A did g clk s) \<noteq> Some g"
proof -
  obtain r s1 where d: "disconnect did g s = (r, s1)" by fastforce
  then have 1: "get_generation did s1 \<noteq> Some g" using disconnect_gone [of did g s] by simp
  then have "get_generation did (try_transition did device_state.Disconnected clk s1) \<noteq> Some g"
    by (simp add: get_generation_def)
  from notify_disconnected_keeps [OF assms this] 1 d show ?thesis
    by (auto simp: drop_link_def split: sum.splits bool.splits)
qed

text \<open>How a session that got past the inbound handshake goes on.\<close>

lemma handle_connection_cases [consumes 2, case_names failed replaced looped]:
  assumes "accept_incoming (st_ext H) (st_rustls H) k (sc_clk sc 0) s = (Inr (did, i, g), s1)"
    and "handle_connection H our k sc s = r"
  obtains e s2 where
      "identity_exchange (st_ext H) our i did g (sc_pid sc 0) (sc_clk sc 1) (sc_env sc 0 s1) = (Inl e, s2)"
      "r = Ended (drop_link (st_app H) did g (sc_clk sc 2) (sc_env sc 1 s2))"
  | s2 where "identity_exchange (st_ext H) our i did g (sc_pid sc 0) (sc_clk sc 1) (sc_env sc 0 s1) = (Inr (), s2)"
      "\<not> is_current_generation did g (sc_env sc 1 s2)" "r = Ended (sc_env sc 1 s2)"
  | s2 s3 s4 where "identity_exchange (st_ext H) our i did g (sc_pid sc 0) (sc_clk sc 1) (sc_env sc 0 s1) = (Inr (), s2)"
      "register_cancel_token_if_current (sc_token sc) did g (sc_env sc 1 s2) = (True, s3)"
      "s4 = snd (ensure_and_transition (st_ext H) (st_json H) (sc_order sc) did i device_state.Connected (sc_clk sc 2) s3)"
      "r = (case run_packet_loop H did g (sc_turns sc) False (if is_paired did s4 then queue_init did s4 else s4) of
              Continue _ s6 \<Rightarrow> Running did g s6
            | Return _ s6 \<Rightarrow> Ended (snd (disconnect did g (sc_env sc 2 s6))))"
proof -
  obtain x s2 where x: "identity_exchange (st_ext H) our i did g (sc_pid sc 0) (sc_clk sc 1) (sc_env sc 0 s1) = (x, s2)"
    by fastforce
  show thesis
  proof (cases x)
    case (Inl e)
    with x assms that(1) show thesis by (simp add: handle_connection_def)
  next
    case (Inr u)
    show thesis
    proof (cases "is_current_generation did g (sc_env sc 1 s2)")
      case False
      with Inr x assms that(2) show thesis
        by (simp add: handle_connection_def register_cancel_token_if_current_def Let_def)
    next
      case True
      then have "register_cancel_token_if_current (sc_token sc) did g (sc_env sc 1 s2) =
          (True, (sc_env sc 1 s2)\<lparr>cancel_tokens := (cancel_tokens (sc_env sc 1 s2))(did \<mapsto> sc_token sc)\<rparr>)"
        by (simp add: register_cancel_token_if_current_def Let_def)
      with Inr x assms that(3) show thesis by (simp add: handle_connection_def Let_def)
    qed
  qed
qed

text \<open>An inbound session cleans up after itself: once it has ended, however it ended (a failed or
  late exchange of identities, a link replaced meanwhile, the end of the loop) and whatever other
  tasks did in between, the link it installed is not in the table any more.\<close>

theorem inbound_leaves_no_link:
  assumes "accept_incoming (st_ext H) (st_rustls H) k (sc_clk sc 0) s = (Inr (did, i, g), s1)"
    and "handle_connection H our k sc s = Ended t"
    and "plugins_keep (\<lambda>s. get_generation did s \<noteq> Some g) (st_app H)"
  shows "get_generation did t \<noteq> Some g"
  using assms(1,2)
proof (cases rule: handle_connection_cases)
  case (failed e s2)
  with drop_link_gone [OF assms(3)] show ?thesis by simp
next
  case (replaced s2)
  then show ?thesis by (auto simp: is_current_generation_def get_generation_def split: option.splits)
next
  case (looped s2 s3 s4)
  with disconnect_gone show ?thesis by (auto split: turn.splits)
qed

lemma identity_exchange_Inr:
  assumes "identity_exchange E our i did g pid clk s = (Inr (), t)"
  obtains p j s1 where "recv_packet_current E did g clk s = (Inr p, s1)" "is_identity p" "from_packet E p = Inr j"
    "device_id j = did" "protocol_version j = protocol_version i"
    "send_packet E did (to_tcp_packet pid our) (\<lambda>n. clk (n + 1)) s1 = (Inr (), t)"
  using assms
  by (auto simp: identity_exchange_def with_error_def sbind_def slift_def sfail_def map_err_def
      split: prod.splits sum.splits if_splits)

text \<open>Property C8.
  Nobody gets a loop without proving who they are twice: a running inbound session had a
  handshake from a local address whose certificate fits the id and the pin, and afterwards an
  encrypted identity packet on that very link with the same device id and protocol version as
  the one in the clear, answered with our own identity.\<close>

theorem inbound_loop_authenticated:
  assumes "handle_connection H our k sc s = Running did g t"
  shows "\<exists>i cert s1 p j s2 s3. accept_incoming (st_ext H) (st_rustls H) k (sc_clk sc 0) s = (Inr (did, i, g), s1)
    \<and> \<not> non_local (so_peer_addr k) \<and> addressed_to_us i s
    \<and> get_peer_certificate did s1 = cert \<and> cert_ok (st_ext H) (cert_manager s) did cert (sh_disk s)
    \<and> recv_packet_current (st_ext H) did g (sc_clk sc 1) (sc_env sc 0 s1) = (Inr p, s2)
    \<and> is_identity p \<and> from_packet (st_ext H) p = Inr j \<and> device_id j = device_id i \<and> protocol_version j = protocol_version i
    \<and> send_packet (st_ext H) did (to_tcp_packet (sc_pid sc 0) our) (\<lambda>n. sc_clk sc 1 (n + 1)) s2 = (Inr (), s3)"
proof -
  obtain did' i g' s1 where acc: "accept_incoming (st_ext H) (st_rustls H) k (sc_clk sc 0) s = (Inr (did', i, g'), s1)"
    using assms by (auto simp: handle_connection_def split: prod.splits sum.splits)
  from acc assms show ?thesis
  proof (cases rule: handle_connection_cases)
    case (looped s2 s3 s4)
    then have id: "did' = did" "g' = g" by (auto split: turn.splits)
    from acc show ?thesis
    proof (cases rule: accept_incoming_cases)
      case (installed j cert s0)
      note inst = install_inbound_Inr [OF installed(6)]
      have "get_peer_certificate did s1 = cert" "device_id i = did"
        using inst(1,2,4) id by (simp_all add: get_peer_certificate_def new_link_def)
      moreover have "cert_ok (st_ext H) (cert_manager s) did cert (sh_disk s)" "addressed_to_us i s"
        using installed(3,5) inst(1,2) id by simp_all
      moreover obtain p ei s2' where "recv_packet_current (st_ext H) did g (sc_clk sc 1) (sc_env sc 0 s1) = (Inr p, s2')"
        "is_identity p" "from_packet (st_ext H) p = Inr ei" "device_id ei = did" "protocol_version ei = protocol_version i"
        "send_packet (st_ext H) did (to_tcp_packet (sc_pid sc 0) our) (\<lambda>n. sc_clk sc 1 (n + 1)) s2' = (Inr (), s2)"
        using looped(1) id by (auto elim: identity_exchange_Inr)
      ultimately show ?thesis using acc id installed(1) by blast
    qed simp
  qed auto
qed

section \<open>Trust through a whole session\<close>

text \<open>What the trust invariant reads: the requests, the pairings, the configuration, the pins.\<close>

definition trusts :: "externals \<Rightarrow> 'z pairing_handler_scheme \<Rightarrow> _" where
  "trusts E s = (outgoing s, incoming s, paired s, config s, pins E s)"

lemma trusts_inv: "trusts E t = trusts E s \<Longrightarrow> pairing_inv E t = pairing_inv E s"
  by (auto simp: trusts_def pairing_inv_def persist_apart_def config_def)

lemma trust_trusts: "trust t = trust s \<Longrightarrow> trusts E t = trusts E s"
  by (auto simp: trust_def trusts_def pins_def pinned_fp_def config_def fun_eq_iff)

lemma same_but_disk_trust: "same_but_disk s t \<Longrightarrow> trust t = trust s"
proof -
  assume a: "same_but_disk s t"
  then have t: "t = s\<lparr>sh_disk := sh_disk t\<rparr>" and f: "files (sh_disk t) = files (sh_disk s)"
    unfolding same_but_disk_def by auto
  show ?thesis by (subst t) (use f in \<open>simp add: trust_def config_def\<close>)
qed

lemma install_inbound_trust [simp]: "trust (snd (install_inbound k i cert now s)) = trust s"
  by (simp add: install_inbound_def Let_def next_generation_def evict_def remove_cancel_token_def cancel_loop_def
      record_peer_capabilities_def trust_def config_def split: option.splits)

lemma accept_incoming_trust: "trust (snd (accept_incoming E R k clk s)) = trust s"
proof -
  obtain r t where a: "accept_incoming E R k clk s = (r, t)" by fastforce
  then show ?thesis
  proof (cases rule: accept_incoming_cases)
    case (refused e)
    with a same_but_disk_trust show ?thesis by simp
  next
    case (installed i cert s1)
    from arg_cong [OF installed(6), of snd] have "trust t = trust s1" by (metis install_inbound_trust snd_conv)
    with a same_but_disk_trust [OF installed(4)] show ?thesis by simp
  qed
qed

lemma trust_keeps: "keeps trust (slift x)" "keeps trust (sfail e)" "keeps trust (recv_packet_current E did g clk)"
  "keeps trust (send_packet E did p clk)"
  by (simp_all add: keeps_def slift_def sfail_def)

lemma keeps_with_error: "keeps f m \<Longrightarrow> keeps f (with_error h m)"
  by (simp add: keeps_def with_error_def split_beta)

lemma keepsD: "keeps f m \<Longrightarrow> m s = (r, t) \<Longrightarrow> f t = f s"
  unfolding keeps_def by (metis snd_conv)

lemma identity_exchange_trust: "keeps trust (identity_exchange E our i did g pid clk)"
  unfolding identity_exchange_def by (auto intro!: keeps_bind keeps_with_error trust_keeps)

text \<open>The registry keeps its file outside the pins; then its saves do not touch them.\<close>

definition reg_apart :: "'z registry_scheme \<Rightarrow> bool" where
  "reg_apart s \<longleftrightarrow> (\<forall>p did. reg_path s = Some p \<longrightarrow> p \<noteq> (cert_dir (cert_manager s), did @ ''_fingerprint.txt''))"

lemma save_if_persistent_trusts:
  assumes "reg_apart s"
  shows "trusts E (save_if_persistent J s) = trusts E s"
proof (cases "reg_path s")
  case (Some p)
  let ?m = "sbind (fs_create_dir_all (Io ''create_dir_all'') (fst p)) (\<lambda>_.
      sbind (fs_write (Io ''write'') (with_extension ''tmp'' p) (devices_print J (hm_retain (\<lambda>_ d. is_truly_paired s d) (devices s))))
        (\<lambda>_. fs_rename (Io ''rename'') (with_extension ''tmp'' p) p))"
  let ?q = "\<lambda>did. (cert_dir (cert_manager s), did @ ''_fingerprint.txt'')"
  have "files (snd (?m (sh_disk s))) (?q did) = files (sh_disk s) (?q did)" for did
    by (rule atomic_write_other) (use assms Some not_sym [OF tmp_not_fingerprint] in \<open>simp_all add: reg_apart_def\<close>, metis)
  moreover have "save_if_persistent J s = s\<lparr>sh_disk := snd (?m (sh_disk s))\<rparr>"
    using Some by (simp add: save_if_persistent_def reg_save_def on_disk_def Let_def split: prod.splits)
  ultimately show ?thesis
    by (simp add: trusts_def pins_def pinned_fp_def config_def fun_eq_iff)
qed (simp add: save_if_persistent_def)

lemma devices_trusts [simp]:
  "trusts E (s\<lparr>devices := m\<rparr>) = trusts E s" "trusts E (broadcast ev s) = trusts E s"
  "reg_apart (s\<lparr>devices := m\<rparr>) = reg_apart s"
  by (simp_all add: trusts_def pins_def config_def broadcast_def reg_apart_def fun_eq_iff)

lemma modify_trusts: "keeps (trusts E) (modify did f)"
  by (simp add: keeps_def modify_def Let_def split: option.splits prod.splits)

lemma transition_trusts: "keeps (trusts E) (transition did st clk)"
  by (simp add: keeps_def transition_run split: option.splits)

lemma ensure_and_transition_trusts:
  assumes "reg_apart s" and "ensure_and_transition E J order did i device_state.Connected clk s = (r, t)"
  shows "trusts E' t = trusts E' s"
proof -
  have add: "trusts E' (snd (add J order d s)) = trusts E' s" for d
    using save_if_persistent_trusts [of "s\<lparr>devices := _\<rparr>"] assms(1) by (simp add: add_def)
  obtain x s1 where e: "ensure_registered E J order did i clk s = (x, s1)" by fastforce
  have 1: "trusts E' s1 = trusts E' s"
  proof (cases "contains did s")
    case True
    have "keeps (trusts E') (sbind (modify did f) (\<lambda>_. sreturn b))" for b and f :: "device \<Rightarrow> unit res \<times> device"
      by (intro keeps_bind modify_trusts) (simp add: keeps_def sreturn_def)
    from keepsD [OF this] True e show ?thesis by (simp add: ensure_registered_def)
  next
    case False
    let ?d = "with_capabilities (incoming_capabilities i) (outgoing_capabilities i)
                   (new_device (clk 0) did (device_name i) (parse_device_type E (device_type i)) (protocol_version i))"
    obtain y s2 where y: "add J order ?d s = (y, s2)" by fastforce
    with False e have "s1 = s2" by (auto simp: ensure_registered_def Let_def split: sum.splits error.splits)
    with add [of ?d] y show ?thesis by simp
  qed
  show ?thesis
  proof (cases x)
    case (Inl e')
    with 1 e assms(2) show ?thesis by (simp add: ensure_and_transition_def sbind_def)
  next
    case (Inr b)
    with e assms(2) have "transition did device_state.Connected (\<lambda>n. clk (n + 2)) s1 = (r, t)"
      by (simp add: ensure_and_transition_def sbind_def sreturn_def)
    with 1 keepsD [OF transition_trusts] show ?thesis by metis
  qed
qed

lemma reg_apart_links [simp]:
  "reg_apart (s\<lparr>connections := m\<rparr>) = reg_apart s" "reg_apart (snd (disconnect did g s)) = reg_apart s"
  by (simp_all add: reg_apart_def disconnect_def Let_def remove_cancel_token_def split: option.splits)

lemma reg_apart_keeps:
  "keeps reg_apart (slift x)" "keeps reg_apart (sfail e)" "keeps reg_apart (recv_packet_current E did g clk)"
  "keeps reg_apart (send_packet E did p clk)" "keeps reg_apart (install_inbound k i cert now)"
  by (auto simp: keeps_def slift_def sfail_def send_packet_def recv_packet_current_def recv_packet_inner_def Let_def
      split: option.splits prod.splits sum.splits next_line.splits)
     (auto simp: install_inbound_def Let_def next_generation_def evict_def remove_cancel_token_def cancel_loop_def
      record_peer_capabilities_def reg_apart_def split: option.splits if_splits)

lemma same_but_disk_apart: "same_but_disk s t \<Longrightarrow> reg_apart t = reg_apart s"
proof -
  assume "same_but_disk s t"
  then have t: "t = s\<lparr>sh_disk := sh_disk t\<rparr>" unfolding same_but_disk_def by auto
  show ?thesis by (subst t) (simp add: reg_apart_def)
qed

lemma accept_incoming_apart:
  assumes "accept_incoming E R k clk s = (r, t)"
  shows "reg_apart t = reg_apart s"
  using assms
proof (cases rule: accept_incoming_cases)
  case (installed i cert s1)
  with keepsD [OF reg_apart_keeps(5) installed(6)] same_but_disk_apart show ?thesis by blast
qed (use same_but_disk_apart in blast)

lemma identity_exchange_apart: "keeps reg_apart (identity_exchange E our i did g pid clk)"
  unfolding identity_exchange_def by (auto intro!: keeps_bind keeps_with_error reg_apart_keeps)

text \<open>What is asked of the other tasks: that they keep a property, too.\<close>

definition env_keeps :: "('s \<Rightarrow> bool) \<Rightarrow> ('s, 'm) schedule_scheme \<Rightarrow> bool" where
  "env_keeps P sc \<longleftrightarrow> (\<forall>n s. P s \<longrightarrow> P (sc_env sc n s)) \<and> (\<forall>t \<in> set (sc_turns sc). \<forall>s. P s \<longrightarrow> P (ti_env t s))"

lemma loop_keeps_trust:
  assumes "plugins_keep (pairing_inv (st_ext H)) (st_app H)" and "pairing_inv (st_ext H) s"
    and "\<forall>t \<in> set ts. \<forall>s. pairing_inv (st_ext H) s \<longrightarrow> pairing_inv (st_ext H) (ti_env t s)"
  shows "pairing_inv (st_ext H) (turn_state (run_packet_loop H did g ts notified s))"
  using assms(2,3)
proof (induction ts arbitrary: notified s)
  case (Cons t ts)
  obtain r where r: "loop_turn (st_ext H) (st_app H) did g (st_idle H) (ti_pid t) (ti_clk t) (ti_branch t) notified (ti_env t s) = r"
    by simp
  have "pairing_inv (st_ext H) (turn_state r)"
    using loop_turn_keeps_trust [OF _ assms(1)] Cons.prems r by auto
  with r Cons show ?case by (cases r) auto
qed simp

lemma queue_trusts [simp]: "pairing_inv E (queue_init did s) = pairing_inv E s"
  by (rule trust_inv) simp

text \<open>Property C7.
  Trust survives whole sessions: an inbound connection, from the first byte to the end of its loop,
  with every packet the peer can send, every failure of the disk and the network and every
  interleaving with other tasks that keep it, keeps the trust invariant.\<close>

theorem inbound_session_keeps_trust:
  assumes "pairing_inv (st_ext H) s" and "reg_apart s" and "plugins_keep (pairing_inv (st_ext H)) (st_app H)"
    and "env_keeps (pairing_inv (st_ext H)) sc" and "env_keeps reg_apart sc"
  shows "pairing_inv (st_ext H) (session_state (handle_connection H our k sc s))"
proof -
  let ?inv = "pairing_inv (st_ext H)"
  obtain r s1 where a: "accept_incoming (st_ext H) (st_rustls H) k (sc_clk sc 0) s = (r, s1)" by fastforce
  have env: "?inv t \<Longrightarrow> ?inv (sc_env sc n t)" "reg_apart t \<Longrightarrow> reg_apart (sc_env sc n t)" for n t
    using assms(4,5) by (auto simp: env_keeps_def)
  have "trust s1 = trust s" using accept_incoming_trust [of "st_ext H" "st_rustls H" k "sc_clk sc 0" s] a by simp
  then have 1: "?inv s1" "reg_apart s1" using trust_inv assms(1,2) accept_incoming_apart [OF a] by blast+
  show ?thesis
  proof (cases r)
    case (Inl e)
    with a 1 show ?thesis by (simp add: handle_connection_def)
  next
    case (Inr x)
    obtain did i g where x: "x = (did, i, g)" by (cases x)
    have ex: "?inv s2 \<and> reg_apart s2"
      if "identity_exchange (st_ext H) our i did g (sc_pid sc 0) (sc_clk sc 1) (sc_env sc 0 s1) = (y, s2)" for y s2
      using keepsD [OF identity_exchange_trust that] keepsD [OF identity_exchange_apart that] env 1 trust_inv by blast
    obtain q where q: "handle_connection H our k sc s = q" by simp
    from a [unfolded Inr x] q have "?inv (session_state q)"
    proof (cases rule: handle_connection_cases)
      case (failed e s2)
      with drop_link_keeps [OF assms(3)] ex [OF failed(1)] env show ?thesis by simp
    next
      case (replaced s2)
      with ex [OF replaced(1)] env show ?thesis by simp
    next
      case (looped s2 s3 s4)
      have "trust s3 = trust (sc_env sc 1 s2)" "reg_apart s3 = reg_apart (sc_env sc 1 s2)"
        using looped(2) by (auto simp: register_cancel_token_if_current_def Let_def trust_def config_def reg_apart_def split: if_splits)
      then have 3: "?inv s3" "reg_apart s3" using trust_inv ex [OF looped(1)] env by blast+
      have "?inv s4" using looped(3) trusts_inv [OF ensure_and_transition_trusts [OF 3(2) prod.collapse [symmetric]]] 3(1) by blast
      then have "?inv (turn_state (run_packet_loop H did g (sc_turns sc) False (if is_paired did s4 then queue_init did s4 else s4)))"
        (is "?inv (turn_state ?l)")
        using assms(4) by (intro loop_keeps_trust assms(3)) (auto simp: env_keeps_def)
      moreover have "?inv (snd (disconnect did g t)) = ?inv t" for t
        by (rule trust_inv) simp
      ultimately show ?thesis using looped(4) env(1) by (cases ?l) auto
    qed
    with q show ?thesis by simp
  qed
qed

section \<open>Outgoing sessions\<close>

text \<open>Property C39.
  A refused request on an outgoing link blocks the device: when the peer of an outgoing
  connection turns a pending pairing request down, the session ends and its link stays in the
  table with nobody reading it; from then on every announcement of the device is ignored, because
  it counts as connected.\<close>

theorem outgoing_refusal_leaks_link:
  assumes "run_connection_setup H sc did i g s = (Inr (), s0)" and "sc_turns sc = [t]" and "ti_branch t = Receive"
    and "recv_packet_current (st_ext H) did g (ti_clk t) (ti_env t s0) = (Inr p, s1)"
    and "is_pair p" and "pair_decision p = Some False"
    and "pair_state did (\<lambda>n. ti_clk t (n + 1)) s1 \<in> {Requested, RequestedByPeer}"
  shows "\<exists>u. run_connection_sequence H sc did i g s = Return LoopDisconnected u
    \<and> get_generation did u = Some g
    \<and> (\<forall>j ip at ats. device_id j = did \<and> sc_env at 0 u = u \<longrightarrow> spawn_discovered_connection H j ip at ats u = Ended u)"
proof -
  obtain u where u: "loop_turn (st_ext H) (st_app H) did g (st_idle H) (ti_pid t) (ti_clk t) Receive False (ti_env t s0)
      = Return LoopDisconnected u" "get_generation did u = Some g"
    using declined_request_leaks_link [OF assms(4-6)] assms(7) by blast
  then have "is_connected did u" by (auto simp: is_connected_def get_generation_def)
  then have "spawn_discovered_connection H j ip at ats u = Ended u" if "device_id j = did" "sc_env at 0 u = u" for j ip at ats
    using that by (simp add: spawn_discovered_connection_def Let_def)
  moreover have "run_connection_sequence H sc did i g s = Return LoopDisconnected u"
    using assms(1-3) u(1) by (simp add: run_connection_sequence_def)
  ultimately show ?thesis using u(2) by blast
qed

lemma pending_keeps:
  "keeps pending_connections (slift x)" "keeps pending_connections (on_disk m)"
  "keeps pending_connections (check_peer_cert E did cert)"
  "keeps pending_connections (install_outbound sent inp ws addr loc i cert now)"
  by (auto simp: keeps_def slift_def on_disk_def check_peer_cert_def sbind_def sfail_def install_outbound_def Let_def
      record_peer_capabilities_def next_generation_def evict_def remove_cancel_token_def cancel_loop_def
      cleanup_stale_generations_def split: prod.splits option.splits sum.splits)

lemma connect_over_pending: "keeps pending_connections (connect_over E R rnd p expected addr clk k)"
proof -
  have "keeps pending_connections (sbind (on_disk a) (\<lambda>_. sbind (on_disk b) (\<lambda>cert. sbind (slift c) (\<lambda>ws.
      sbind (slift d) (\<lambda>(line, inp). sbind (slift (parse_identity E line)) (\<lambda>i.
        sbind (slift (matches_expected expected i)) (\<lambda>_. sbind (check_peer_cert E (device_id i) cert) (\<lambda>_.
          install_outbound (serialize E p) inp ws addr (so_local_addr k) i cert (clk 4)))))))))" for a b c d
    by (intro keeps_bind pending_keeps) (auto split: prod.splits intro!: keeps_bind pending_keeps)
  then show ?thesis unfolding connect_over_def keeps_def by blast
qed

lemma fallback_pending [simp]:
  "pending_connections (send_reverse_connection_fallback E pid udp our ip port s) = pending_connections s"
  by (simp add: send_reverse_connection_fallback_def unicast_identity_def Let_def split: udp_outcome.splits)

lemma connect_pending: "keeps pending_connections (connect_to_device E R rnd pid udp our addr expected clk net)"
  by (simp add: keeps_def connect_to_device_def connect_to_device_with_fallback_port_def Let_def
      connect_over_pending [unfolded keeps_def, rule_format] split: sock_addr.splits dial.splits sum.splits)

text \<open>One dial at a time: an announcement is ignored if it carries our own id, if the device is
  connected, if a dial to it is pending, or if the device is paired and announces an older protocol
  version than we know of it; and whatever comes of a dial, afterwards exactly the dials that
  were pending before it are pending.\<close>

theorem discovered_dial_guarded:
  "(device_id i = cm_device_id s \<longrightarrow> spawn_discovered_connection H i ip at ats s = Ended s)
   \<and> (device_id i \<noteq> cm_device_id s \<and> get_identity (sc_env at 0 s) \<noteq> None \<longrightarrow>
      is_connected (device_id i) (sc_env at 0 s) \<or> downgraded i (sc_env at 0 s)
        \<or> device_id i \<in> pending_connections (sc_env at 0 s) \<longrightarrow>
      spawn_discovered_connection H i ip at ats s = Ended (sc_env at 0 s))
   \<and> (did \<notin> pending_connections s \<longrightarrow>
      pending_connections (snd (dial_pending H at our addr i did (snd (add_pending_connection did s)))) = pending_connections s)"
proof (intro conjI impI)
  assume "device_id i \<noteq> cm_device_id s \<and> get_identity (sc_env at 0 s) \<noteq> None"
    and "is_connected (device_id i) (sc_env at 0 s) \<or> downgraded i (sc_env at 0 s)
        \<or> device_id i \<in> pending_connections (sc_env at 0 s)"
  moreover have "(u\<lparr>pending_connections := insert d (pending_connections u)\<rparr>) = u"
    if "d \<in> pending_connections u" for u :: "'a daemon_scheme" and d
    using that by (simp add: insert_absorb)
  ultimately show "spawn_discovered_connection H i ip at ats s = Ended (sc_env at 0 s)"
    by (auto simp: spawn_discovered_connection_def Let_def add_pending_connection_def)
next
  assume "did \<notin> pending_connections s"
  moreover obtain r t where c: "connect_to_device (st_ext H) (st_rustls H) (at_draws at) (at_ids at) (at_udp at) our addr (Some i)
      (sc_clk at 0) (at_dial at) (snd (add_pending_connection did s)) = (r, t)" by fastforce
  ultimately show "pending_connections (snd (dial_pending H at our addr i did (snd (add_pending_connection did s)))) = pending_connections s"
    using keepsD [OF connect_pending c]
    by (simp add: dial_pending_def remove_pending_connection_def add_pending_connection_def)
qed (simp add: spawn_discovered_connection_def Let_def)

lemma backoff_base_closed:
  assumes "base \<le> cap"
  shows "backoff_base attempt base cap = min cap (base * 2 ^ (attempt - 1))"
proof -
  have "((\<lambda>delay. min (delay * 2) cap) ^^ n) base = min cap (base * 2 ^ n)" for n
    using assms by (induction n) (auto simp: min_def)
  then show ?thesis by (simp add: backoff_base_def)
qed

text \<open>The pause before a reconnection doubles with each attempt up to the cap, and the random part
  adds at most half of it: with the pause \<open>d\<close> of the closed form, the delay lies between
  \<open>d\<close> and \<open>d + d div 2\<close>, whatever the random number.\<close>

theorem backoff_delay_bounds:
  assumes "base \<le> cap"
  shows "min cap (base * 2 ^ (attempt - 1)) \<le> backoff_delay attempt base cap draw
    \<and> backoff_delay attempt base cap draw \<le> min cap (base * 2 ^ (attempt - 1)) + min cap (base * 2 ^ (attempt - 1)) div 2"
proof -
  define d where "d = min cap (base * 2 ^ (attempt - 1))"
  define q where "q = d div 1000000 mod 2 ^ 64 div 4"
  have "q \<le> d div 1000000 div 4" unfolding q_def by (intro div_le_mono mod_less_eq_dividend)
  then have "q * 2 * 1000000 \<le> d div 2" by linarith
  moreover have "draw mod (q * 2 + 1) \<le> q * 2" by (metis Suc_eq_plus1 less_Suc_eq_le mod_less_divisor zero_less_Suc)
  ultimately have "draw mod (q * 2 + 1) * 1000000 \<le> d div 2"
    by (meson le_trans mult_le_mono1)
  moreover have "backoff_delay attempt base cap draw = d + draw mod (q * 2 + 1) * 1000000"
    using backoff_base_closed [OF assms, of attempt] by (simp add: backoff_delay_def Let_def d_def q_def)
  ultimately show ?thesis by (simp add: d_def)
qed

theorem backoff_delay_bounds_witness:
  "3000000000 < backoff_delay 3 1000000000 30000000000 7 \<and> backoff_delay 3 1000000000 30000000000 7 \<le> 6000000000"
  using backoff_delay_bounds [of 1000000000 30000000000 3 7] by simp

section \<open>The accept loop\<close>

text \<open>The listener's slots: free ones and running handlers.\<close>

inductive listener_step :: "nat \<times> nat \<Rightarrow> nat \<times> nat \<Rightarrow> bool" where
  accepted: "try_acquire_inbound_slot free = Some free' \<Longrightarrow> listener_step (free, n) (free', Suc n)"
| dropped: "try_acquire_inbound_slot free = None \<Longrightarrow> listener_step (free, n) (free, n)"
| finished: "listener_step (free, Suc n) (Suc free, n)"

inductive_cases listener_step_elims: "listener_step (free, n) t"

interpretation slots: machine listener_step "\<lambda>(free, n). free + n = MAX_INBOUND_CONNECTIONS"
proof
  fix s t
  assume "listener_step s t" "case s of (free, n) \<Rightarrow> free + n = MAX_INBOUND_CONNECTIONS"
  then show "case t of (free, n) \<Rightarrow> free + n = MAX_INBOUND_CONNECTIONS"
    by (cases rule: listener_step.cases) (auto simp: try_acquire_inbound_slot_def split: if_splits)
qed

lemma inbound_handlers_bounded:
  assumes "reach listener_step (MAX_INBOUND_CONNECTIONS, 0) (free, n)"
  shows "n \<le> MAX_INBOUND_CONNECTIONS \<and> (n = MAX_INBOUND_CONNECTIONS \<longleftrightarrow> try_acquire_inbound_slot free = None)"
  using slots.reach_inv [OF assms] by (auto simp: try_acquire_inbound_slot_def)

section \<open>Sessions at work\<close>

definition demo_site :: "externals \<Rightarrow> daemon site" where
  "demo_site E = \<lparr>st_ext = E, st_rustls = demo_rustls, st_json = demo_json, st_app = no_plugins, st_idle = 0\<rparr>"

definition demo_schedule :: "daemon turn_input list \<Rightarrow> daemon schedule" where
  "demo_schedule ts = \<lparr>sc_env = \<lambda>_ s. s, sc_clk = \<lambda>_ _. 0, sc_pid = \<lambda>_. 9, sc_token = 4, sc_order = [], sc_turns = ts\<rparr>"

definition demo_turn :: "branch \<Rightarrow> daemon turn_input" where
  "demo_turn br = \<lparr>ti_env = \<lambda>s. s, ti_branch = br, ti_pid = \<lambda>_. 9, ti_clk = \<lambda>_. 0\<rparr>"

definition demo_fresh :: daemon where
  "demo_fresh = conn_mgr.extend demo_manager (daemon.fields [])"

lemma demo_fresh_simps [simp]:
  "connections demo_fresh = Map.empty" "generations demo_fresh = Map.empty" "paired demo_fresh = Map.empty"
  "outgoing demo_fresh = Map.empty" "incoming demo_fresh = Map.empty" "cm_device_id demo_fresh = short_id"
  "cert_manager demo_fresh = demo_certs" "sh_disk demo_fresh = demo_disk []" "reg_path demo_fresh = None"
  "own_device_id demo_fresh = None" "persist_path demo_fresh = persist_path demo_handler"
  by (simp_all add: demo_fresh_def conn_mgr.extend_def daemon.fields_def demo_manager_def new_manager_def registry.extend_def
      conn_mgr.fields_def demo_registry_def pairing_handler.extend_def demo_handler_def new_handler_def)

definition demo_accepted :: daemon where
  "demo_accepted = snd (install_inbound demo_socket demo_identity (Some demo_id) 0 demo_fresh)"

lemma demo_accepts:
  "accept_incoming link_externals demo_rustls demo_socket (\<lambda>_. 0) demo_fresh = (Inr (demo_id, demo_identity, 1), demo_accepted)"
proof -
  have "fst (install_inbound demo_socket demo_identity (Some demo_id) 0 demo_fresh) = Inr (demo_id, demo_identity, 1)"
    by (simp add: install_inbound_def Let_def next_generation_def record_peer_capabilities_def)
  then show ?thesis
    using demo_accept_runs [of demo_fresh demo_rustls demo_id "\<lambda>_. 0"]
    by (simp add: demo_socket_tls demo_accepted_def) (metis prod.collapse)
qed

lemma demo_hears:
  assumes "connections s demo_id = Some h" and "cn_generation h = 1" and "cn_input h = Chunk (demo_line @ ''{'') # rest"
  shows "\<exists>h'. recv_packet_current link_externals demo_id 1 clk s =
    (Inr (to_packet 1 demo_identity), s\<lparr>connections := (connections s)(demo_id \<mapsto> h')\<rparr>)
    \<and> cn_generation h' = 1 \<and> cn_writes h' = cn_writes h"
proof -
  have "recv_line MAX_STEADY_PACKET_SIZE (Chunk (demo_line @ ''{'') # rest) = (GotLine demo_line, Chunk ''{'' # rest)"
    by (subst recv_line.simps) (simp add: read_steady_line_def unread_def demo_line_def newline_def MAX_STEADY_PACKET_SIZE_def is_ascii_whitespace_def)
  with demo_line_packet show ?thesis
    using assms by (intro exI [of _ "h\<lparr>cn_input := Chunk ''{'' # rest, cn_info := increment_received (clk 0) (cn_info h)\<rparr>"])
      (simp add: recv_packet_current_def recv_packet_inner_def)
qed

lemma demo_exchange:
  assumes "connections s demo_id = Some h" and "cn_generation h = 1" and "cn_input h = Chunk (demo_line @ ''{'') # rest"
    and "cn_writes h = []"
  shows "\<exists>t. identity_exchange link_externals demo_identity demo_identity demo_id 1 9 clk s = (Inr (), t)
    \<and> is_current_generation demo_id 1 t"
proof -
  obtain h' where r: "recv_packet_current link_externals demo_id 1 clk s =
      (Inr (to_packet 1 demo_identity), s\<lparr>connections := (connections s)(demo_id \<mapsto> h')\<rparr>)"
    "cn_generation h' = 1" "cn_writes h' = []"
    using demo_hears [OF assms(1-3)] assms(4) by auto
  have id: "is_identity (to_packet 1 demo_identity)" "is_identity (to_tcp_packet 9 demo_identity)"
    by (simp_all add: is_identity_def to_packet_def to_tcp_packet_def new_packet_def)
  show ?thesis
    by (simp add: identity_exchange_def with_error_def sbind_def slift_def map_err_def r id from_packet_demo
        send_packet_def refuses_type_def write_framed_def next_write_def put_bytes_def Let_def is_current_generation_def)
qed

lemma demo_accepted_link:
  "connections demo_accepted demo_id = Some (new_link (so_secure demo_socket) [] 0 demo_id 1 (Some demo_id) (so_peer_addr demo_socket) None)"
  by (simp add: demo_accepted_def install_inbound_def Let_def next_generation_def record_peer_capabilities_def)
     (simp add: demo_socket_def)

lemma demo_session_exchange:
  "\<exists>t. identity_exchange link_externals demo_identity demo_identity demo_id 1 9 (\<lambda>_. 0) demo_accepted = (Inr (), t)
    \<and> is_current_generation demo_id 1 t"
  by (rule demo_exchange [OF demo_accepted_link]) (simp_all add: new_link_def demo_socket_def)

lemma demo_session:
  "\<exists>S. handle_connection (demo_site link_externals) demo_identity demo_socket (demo_schedule ts) demo_fresh =
     (case run_packet_loop (demo_site link_externals) demo_id 1 ts False S of
        Continue _ s6 \<Rightarrow> Running demo_id 1 s6 | Return _ s6 \<Rightarrow> Ended (snd (disconnect demo_id 1 s6)))"
proof -
  let ?H = "demo_site link_externals" and ?sc = "demo_schedule ts"
  have fields: "sc_env ?sc n s = s" "st_ext ?H = link_externals" "st_rustls ?H = demo_rustls" "sc_clk ?sc n = (\<lambda>_. 0)"
    "sc_pid ?sc n = 9" "sc_turns ?sc = ts" for n s
    by (simp_all add: demo_site_def demo_schedule_def)
  obtain t where t: "identity_exchange link_externals demo_identity demo_identity demo_id 1 9 (\<lambda>_. 0) demo_accepted = (Inr (), t)"
    "is_current_generation demo_id 1 t" using demo_session_exchange by blast
  obtain q where q: "handle_connection ?H demo_identity demo_socket ?sc demo_fresh = q" by simp
  have "accept_incoming (st_ext ?H) (st_rustls ?H) demo_socket (sc_clk ?sc 0) demo_fresh = (Inr (demo_id, demo_identity, 1), demo_accepted)"
    by (simp add: fields demo_accepts)
  from this q show ?thesis
  proof (cases rule: handle_connection_cases)
    case (looped s2 s3 s4)
    with q show ?thesis unfolding fields by blast
  qed (use t in \<open>auto simp: fields\<close>)
qed

theorem inbound_loop_authenticated_witness:
  "\<exists>t. handle_connection (demo_site link_externals) demo_identity demo_socket (demo_schedule []) demo_fresh = Running demo_id 1 t
     \<and> \<not> non_local (so_peer_addr demo_socket)"
proof -
  obtain t where t: "handle_connection (demo_site link_externals) demo_identity demo_socket (demo_schedule []) demo_fresh = Running demo_id 1 t"
    using demo_session [of "[]"] by auto
  from inbound_loop_authenticated [OF this] t show ?thesis by blast
qed

theorem inbound_leaves_no_link_witness:
  "\<exists>t. handle_connection (demo_site link_externals) demo_identity demo_socket (demo_schedule [demo_turn Shutdown]) demo_fresh = Ended t
     \<and> get_generation demo_id t \<noteq> Some 1"
proof -
  let ?H = "demo_site link_externals" and ?sc = "demo_schedule [demo_turn Shutdown]"
  obtain t where t: "handle_connection ?H demo_identity demo_socket ?sc demo_fresh = Ended t"
    using demo_session [of "[demo_turn Shutdown]"] by (auto simp: demo_turn_def loop_turn_def)
  have "accept_incoming (st_ext ?H) (st_rustls ?H) demo_socket (sc_clk ?sc 0) demo_fresh = (Inr (demo_id, demo_identity, 1), demo_accepted)"
    by (simp add: demo_site_def demo_schedule_def demo_accepts)
  from inbound_leaves_no_link [OF this t] t show ?thesis by (simp add: demo_site_def)
qed

theorem inbound_session_keeps_trust_witness:
  "pairing_inv link_externals (session_state
     (handle_connection (demo_site link_externals) demo_identity demo_socket (demo_schedule [demo_turn Receive]) demo_fresh))"
proof -
  have "persist_apart demo_fresh = persist_apart demo_handler"
    by (simp add: persist_apart_def demo_handler_def new_handler_def)
  then have "pairing_inv link_externals demo_fresh" "reg_apart demo_fresh"
    using demo_apart by (simp_all add: pairing_inv_def reg_apart_def)
  then show ?thesis
    using inbound_session_keeps_trust [of "demo_site link_externals" demo_fresh "demo_schedule [demo_turn Receive]"]
    by (simp add: demo_site_def demo_schedule_def demo_turn_def env_keeps_def)
qed

text \<open>An outgoing link to a device that asked to be paired and then takes it back.\<close>

definition demo_asked :: daemon where
  "demo_asked = demo_daemon\<lparr>outgoing := Map.empty, incoming := [demo_id \<mapsto> demo_request]\<rparr>"

lemma ensure_fresh:
  assumes "devices s did = None" and "reg_path s = None"
  shows "connections (snd (ensure_and_transition E J order did i device_state.Connected clk s)) = connections s"
    "outgoing (snd (ensure_and_transition E J order did i device_state.Connected clk s)) = outgoing s"
    "incoming (snd (ensure_and_transition E J order did i device_state.Connected clk s)) = incoming s"
    "paired (snd (ensure_and_transition E J order did i device_state.Connected clk s)) = paired s"
  using assms
  by (simp_all add: ensure_and_transition_def ensure_registered_def sbind_def sreturn_def contains_def add_def domIff
      save_if_persistent_def transition_run broadcast_def Let_def with_capabilities_def new_device_def)

lemma demo_setup:
  "\<exists>s0. run_connection_setup (demo_site (loop_externals False)) (demo_schedule ts) demo_id demo_identity 1 demo_asked = (Inr (), s0)
    \<and> connections s0 = [demo_id \<mapsto> demo_peer] \<and> outgoing s0 = Map.empty \<and> incoming s0 = [demo_id \<mapsto> demo_request]
    \<and> paired s0 = Map.empty"
proof -
  let ?s1 = "demo_asked\<lparr>cancel_tokens := (cancel_tokens demo_asked)(demo_id \<mapsto> 4)\<rparr>"
  have "reg_path demo_daemon = None"
    by (simp add: demo_daemon_def conn_mgr.extend_def daemon.fields_def demo_manager_def new_manager_def registry.extend_def
        conn_mgr.fields_def demo_registry_def pairing_handler.extend_def)
  then have "devices ?s1 demo_id = None" "reg_path ?s1 = None" by (simp_all add: demo_asked_def)
  note f = ensure_fresh [OF this, of "loop_externals False" demo_json "[]" demo_identity "\<lambda>_. 0"]
  have "register_cancel_token_if_current 4 demo_id 1 demo_asked = (True, ?s1)"
    by (simp add: register_cancel_token_if_current_def is_current_generation_def demo_asked_def)
  with f show ?thesis
    by (simp add: run_connection_setup_def demo_site_def demo_schedule_def Let_def is_paired_def pending_outgoing_timestamp_def)
       (simp add: demo_asked_def)
qed

theorem outgoing_refusal_leaks_link_witness:
  "\<exists>u. run_connection_sequence (demo_site (loop_externals False)) (demo_schedule [demo_turn Receive]) demo_id demo_identity 1 demo_asked
      = Return LoopDisconnected u
    \<and> get_generation demo_id u = Some 1"
proof -
  let ?H = "demo_site (loop_externals False)" and ?sc = "demo_schedule [demo_turn Receive]"
  obtain s0 where s0: "run_connection_setup ?H ?sc demo_id demo_identity 1 demo_asked = (Inr (), s0)"
    "connections s0 = [demo_id \<mapsto> demo_peer]" "outgoing s0 = Map.empty" "incoming s0 = [demo_id \<mapsto> demo_request]" "paired s0 = Map.empty"
    using demo_setup by blast
  let ?s1 = "s0\<lparr>connections := [demo_id \<mapsto> demo_peer\<lparr>cn_input := [], cn_info := increment_received 0 (new_connection_info 0 demo_id 1)\<rparr>]\<rparr>"
  have rl: "recv_line MAX_STEADY_PACKET_SIZE [Chunk demo_line] = (GotLine demo_line, [])"
    by (subst recv_line.simps) (simp add: read_steady_line_def unread_def demo_line_def newline_def MAX_STEADY_PACKET_SIZE_def is_ascii_whitespace_def)
  have f: "sc_turns ?sc = [demo_turn Receive]" "ti_branch (demo_turn Receive) = Receive" "ti_env (demo_turn Receive) s0 = s0"
    "ti_clk (demo_turn Receive) = (\<lambda>_. 0)" "st_ext ?H = loop_externals False"
    by (simp_all add: demo_schedule_def demo_turn_def demo_site_def)
  have "recv_packet_current (loop_externals False) demo_id 1 (\<lambda>_. 0) s0 = (Inr (pair_response 1 False 5), ?s1)"
    using s0(2) by (simp add: recv_packet_current_def recv_packet_inner_def rl demo_pair_line)
  moreover have "pair_state demo_id (\<lambda>n. 0) ?s1 = RequestedByPeer"
    using s0(3-5) by (simp add: pair_state_def demo_request_def is_expired_def secs_def)
  moreover have "is_pair (pair_response 1 False 5)" "pair_decision (pair_response 1 False 5) = Some False"
    by (simp_all add: pair_response_def new_packet_def is_pair_def pair_decision_def)
  ultimately show ?thesis
    using outgoing_refusal_leaks_link [OF s0(1) f(1,2), unfolded f] by blast
qed

definition demo_attempt :: "daemon attempt" where
  "demo_attempt = schedule.extend (demo_schedule []) (attempt.fields DialErr UdpOk demo_draws (\<lambda>_. 7) (\<lambda>_. False))"

theorem discovered_dial_guarded_witness:
  "spawn_discovered_connection (demo_site link_externals) demo_identity (V4 192 168 1 5) demo_attempt (\<lambda>_. demo_attempt) demo_daemon
     = Ended demo_daemon"
proof -
  have "sc_env demo_attempt 0 demo_daemon = demo_daemon" "is_connected demo_id demo_daemon"
    by (simp_all add: demo_attempt_def schedule.extend_def demo_schedule_def is_connected_def)
  moreover have "cm_device_id demo_daemon = short_id"
    by (simp add: demo_daemon_def conn_mgr.extend_def daemon.fields_def demo_manager_def new_manager_def registry.extend_def
        conn_mgr.fields_def)
  moreover from this have "get_identity demo_daemon \<noteq> None"
    by (simp add: get_identity_def short_id_def Let_def)
  ultimately show ?thesis
    using discovered_dial_guarded [of demo_identity demo_daemon "demo_site link_externals" "V4 192 168 1 5" demo_attempt
        "\<lambda>_. demo_attempt" demo_id demo_identity] by simp
qed

end
