(* ===== verification/Discovery.thy ===== *)
theory Discovery
  imports Sessions
begin

text \<open>
  Finding peers: the UDP discovery service (\<open>src/protocol/discovery.rs\<close>), the parsing of mDNS
  records (\<open>src/protocol/mdns_discovery.rs\<close>), what the daemon does with an announced or
  resolved device (\<open>src/services/service_manager.rs\<close>), the broadcast fallback
  (\<open>src/services/broadcast_fallback.rs\<close>) and the debouncing of network changes
  (\<open>src/services/network_watcher.rs\<close>). The sockets and the mDNS daemon are libraries: a datagram
  is its bytes and its source, a resolved service the view the code takes of it, a send has an
  outcome.
\<close>

section \<open>UDP announcements\<close>

record discovery_service =
  dc_identity :: identity
  dc_broadcast_addr :: sock_addr
  dc_policy :: split_brain_policy

datatype send_outcome = SendOk | SendTooLarge | SendErr

definition send_datagram :: "sock_addr \<Rightarrow> string \<Rightarrow> 'z conn_mgr_scheme \<Rightarrow> 'z conn_mgr_scheme" where
  "send_datagram addr bytes s = s\<lparr>udp_sent := udp_sent s @ [(addr, bytes)]\<rparr>"

text \<open>An identity too large for a datagram is sent again without its capabilities.\<close>

definition discovery_broadcast ::
    "externals \<Rightarrow> (nat \<Rightarrow> i64) \<Rightarrow> (nat \<Rightarrow> send_outcome) \<Rightarrow> discovery_service \<Rightarrow> ('z conn_mgr_scheme, unit) op" where
  "discovery_broadcast E pid out dc s =
     (case out 0 of
        SendOk \<Rightarrow> (Inr (), send_datagram (dc_broadcast_addr dc) (serialize E (to_packet (pid 0) (dc_identity dc))) s)
      | SendErr \<Rightarrow> (Inl (DiscoveryError ''Failed to send broadcast''), s)
      | SendTooLarge \<Rightarrow>
          (let stripped = (dc_identity dc)\<lparr>incoming_capabilities := [], outgoing_capabilities := []\<rparr>
           in if out 1 = SendOk
              then (Inr (), send_datagram (dc_broadcast_addr dc) (serialize E (to_packet (pid 1) stripped)) s)
              else (Inl (DiscoveryError ''Failed to send broadcast (retry with emptied capabilities)''), s)))"

definition listen ::
    "externals \<Rightarrow> (ip_addr \<Rightarrow> ip_addr option) \<Rightarrow> discovery_service \<Rightarrow> string \<Rightarrow> sock_addr \<Rightarrow> (identity \<times> sock_addr) res" where
  "listen E local_end dc bytes addr =
     (case addr of SockAddr ip _ \<Rightarrow>
        if \<not> is_private_address ip then Inl (DiscoveryError ''Discarding UDP packet from a non-local IP'')
        else rbind (deserialize E bytes) (\<lambda>p.
          if \<not> is_identity p then Inl (InvalidPacket ''Expected identity packet'')
          else rbind (from_packet E p) (\<lambda>i.
            (let port = (case tcp_port i of Some q \<Rightarrow> q | None \<Rightarrow> MIN_PORT) in
             if \<not> (MIN_PORT \<le> port \<and> port \<le> MAX_PORT) then Inl (DiscoveryError ''TCP port outside of kdeconnect's range'')
             else if device_id i = device_id (dc_identity dc) then Inl (DiscoveryError ''ignored_own'')
             else if is_split_brain local_end ip (device_id (dc_identity dc)) (device_id i) \<and> dc_policy dc = Refuse
               then Inl (DiscoveryError ''split_brain'')
             else Inr (i, addr)))))"

text \<open>The listening loop: each datagram (or receive error, \<open>None\<close>) in turn, the callback run on
  what passes.\<close>

fun start_listening ::
    "externals \<Rightarrow> (ip_addr \<Rightarrow> ip_addr option) \<Rightarrow> discovery_service \<Rightarrow> (identity \<Rightarrow> sock_addr \<Rightarrow> 's \<Rightarrow> 's)
     \<Rightarrow> (string \<times> sock_addr) option list \<Rightarrow> 's \<Rightarrow> 's" where
  "start_listening E le dc callback [] s = s"
| "start_listening E le dc callback (None # ds) s = start_listening E le dc callback ds s"
| "start_listening E le dc callback (Some (bytes, addr) # ds) s =
     (case listen E le dc bytes addr of
        Inr (i, a) \<Rightarrow> start_listening E le dc callback ds (callback i a s)
      | Inl _ \<Rightarrow> start_listening E le dc callback ds s)"

section \<open>mDNS\<close>

definition SERVICE_TYPE :: string where "SERVICE_TYPE = ''_kdeconnect._udp.local.''"

record service_view =
  sv_fullname :: string
  sv_port :: u16
  sv_addresses :: "ip_addr list"
  sv_txt :: "string \<rightharpoonup> string"

record mdns_peer =
  mp_device_id :: string
  mp_device_name :: string
  mp_device_type :: string
  mp_protocol_version :: u32
  mp_address :: ip_addr
  mp_srv_port :: u16

fun is_ipv4 :: "ip_addr \<Rightarrow> bool" where
  "is_ipv4 (V4 a b c d) = True"
| "is_ipv4 (V6 os) = False"

definition usable_peer_address :: "ip_addr \<Rightarrow> bool" where
  "usable_peer_address ip \<longleftrightarrow> is_ipv4 ip \<and> is_private_address ip"

definition instance_name :: "string \<Rightarrow> string" where
  "instance_name fullname =
     (case Option.bind (strip_suffix SERVICE_TYPE fullname) (strip_suffix ''.'') of Some n \<Rightarrow> n | None \<Rightarrow> fullname)"

definition resolved_to_peer :: "externals \<Rightarrow> service_view \<Rightarrow> string + mdns_peer" where
  "resolved_to_peer E sv =
     (let did = (case sv_txt sv ''id'' of Some x \<Rightarrow> x | None \<Rightarrow> instance_name (sv_fullname sv)) in
      if is_err (validate_device_id E did) then Inl ''invalid_device_id''
      else rbind (ok_or ''no_protocol_version'' (sv_txt sv ''protocol'')) (\<lambda>v.
           rbind (ok_or ''unparseable_protocol_version'' (parse_u32 v)) (\<lambda>version.
           rbind (case find usable_peer_address (sv_addresses sv) of
                    Some ip \<Rightarrow> Inr ip
                  | None \<Rightarrow> Inl (if sv_addresses sv \<noteq> [] \<and> list_all (\<lambda>ip. \<not> is_ipv4 ip) (sv_addresses sv)
                                 then ''ipv6_only'' else ''no_private_ipv4'')) (\<lambda>ip.
             Inr \<lparr>mp_device_id = did,
                  mp_device_name = (case sv_txt sv ''name'' of Some n \<Rightarrow> n | None \<Rightarrow> did),
                  mp_device_type = (case sv_txt sv ''type'' of Some t \<Rightarrow> t | None \<Rightarrow> ''desktop''),
                  mp_protocol_version = version, mp_address = ip, mp_srv_port = sv_port sv\<rparr>))))"

section \<open>What the daemon does with a device it found\<close>

definition on_mdns_device_resolved ::
    "externals \<Rightarrow> (ip_addr \<Rightarrow> ip_addr option) \<Rightarrow> i64 \<Rightarrow> udp_outcome \<Rightarrow> clock \<Rightarrow> mdns_peer \<Rightarrow> 'z conn_mgr_scheme \<Rightarrow> 'z conn_mgr_scheme" where
  "on_mdns_device_resolved E local_end pid udp clk peer s =
     (let did = mp_device_id peer; ip = mp_address peer in
      if did = cm_device_id s then s
      else if is_split_brain local_end ip (cm_device_id s) did \<and> policy s = Refuse then s
      else if is_connected did s then s
      else case allow_mdns_unicast ip clk s of
             (False, s1) \<Rightarrow> s1
           | (True, s1) \<Rightarrow>
               (case get_identity s1 of
                  None \<Rightarrow> s1
                | Some our \<Rightarrow> snd (unicast_identity E pid udp our ip fallback_udp_port s1)))"

definition announced_device :: "externals \<Rightarrow> instant \<Rightarrow> identity \<Rightarrow> device" where
  "announced_device E now i =
     with_capabilities (incoming_capabilities i) (outgoing_capabilities i)
       (new_device now (device_id i) (device_name i) (parse_device_type E (device_type i)) (protocol_version i))"

definition on_device_discovered ::
    "('z daemon_scheme) site \<Rightarrow> identity \<Rightarrow> sock_addr \<Rightarrow> ('z daemon_scheme) attempt \<Rightarrow> (nat \<Rightarrow> ('z daemon_scheme) attempt)
     \<Rightarrow> 'z daemon_scheme \<Rightarrow> 'z daemon_scheme session" where
  "on_device_discovered H i addr at ats s =
     (case addr of SockAddr ip _ \<Rightarrow>
        (let s1 = snd (upsert_device (st_json H) (sc_order at) (sc_clk at 5 1) (announced_device (st_ext H) (sc_clk at 5 0) i) s)
         in spawn_discovered_connection H i ip at ats s1))"

section \<open>The broadcast fallback\<close>

text \<open>Intervals in seconds. A step of the schedule asks whether a broadcast is due (mDNS is not
  healthy and nobody is connected); the result is the action taken and the pause after it.\<close>

definition FALLBACK_INITIAL_INTERVAL :: nat where "FALLBACK_INITIAL_INTERVAL = 5"
definition FALLBACK_MAX_INTERVAL :: nat where "FALLBACK_MAX_INTERVAL = 5 * 60"
definition ELIGIBILITY_POLL_INTERVAL :: nat where "ELIGIBILITY_POLL_INTERVAL = 2"

fun run_fallback_schedule :: "nat \<Rightarrow> nat \<Rightarrow> nat \<Rightarrow> nat \<Rightarrow> bool list \<Rightarrow> (bool \<times> nat) list" where
  "run_fallback_schedule initial cap poll current [] = []"
| "run_fallback_schedule initial cap poll current (eligible # es) =
     (if \<not> eligible then (False, poll) # run_fallback_schedule initial cap poll initial es
      else (True, current) # run_fallback_schedule initial cap poll (min (current * 2) cap) es)"

definition fallback_eligible :: "bool \<Rightarrow> 'z conn_mgr_scheme \<Rightarrow> bool" where
  "fallback_eligible mdns_healthy s \<longleftrightarrow> \<not> mdns_healthy \<and> connections s = Map.empty"

definition run_broadcast_fallback :: "bool list \<Rightarrow> (bool \<times> nat) list" where
  "run_broadcast_fallback es =
     run_fallback_schedule FALLBACK_INITIAL_INTERVAL FALLBACK_MAX_INTERVAL ELIGIBILITY_POLL_INTERVAL FALLBACK_INITIAL_INTERVAL es"

section \<open>Network changes\<close>

text \<open>The debouncer over the times of the raw events: it answers with the times at which it
  fires. A further event within the window starts the window anew. The stream of raw events
  does not end while the daemon runs.\<close>

fun debounce_from :: "nat \<Rightarrow> nat \<Rightarrow> nat list \<Rightarrow> nat list" where
  "debounce_from window prev [] = [prev + window]"
| "debounce_from window prev (t # ts) =
     (if t - prev < window then debounce_from window t ts else (prev + window) # debounce_from window t ts)"

fun debounce :: "nat \<Rightarrow> nat list \<Rightarrow> nat list" where
  "debounce window [] = []"
| "debounce window (t # ts) = debounce_from window t ts"

definition SUSPEND_WATCHDOG_SLACK :: nat where "SUSPEND_WATCHDOG_SLACK = 5 * 1000000000"

text \<open>The suspend watchdog compares the clock that runs during suspend with the one that does not;
  a failed reading skips the sample. Times are in nanoseconds.\<close>

definition watchdog_sample :: "nat \<times> nat \<Rightarrow> (nat option \<times> nat) \<Rightarrow> bool \<times> (nat \<times> nat)" where
  "watchdog_sample prev now =
     (case now of
        (None, _) \<Rightarrow> (False, prev)
      | (Some boot, steady) \<Rightarrow> (SUSPEND_WATCHDOG_SLACK < (boot - fst prev) - (steady - snd prev), (boot, steady)))"

section \<open>What is let in\<close>

text \<open>Property C37.
  An announcement that the listener passes on came from a local address, names a valid device id
  that is not ours and a TCP port of the protocol's range (or none), and, in the refusing policy,
  did not come from this very host.\<close>

theorem listen_sound:
  assumes "listen E local_end dc bytes (SockAddr ip p) = Inr (i, a)"
  shows "a = SockAddr ip p \<and> is_private_address ip \<and> valid_id E (device_id i) \<and> device_id i \<noteq> device_id (dc_identity dc)
    \<and> (case tcp_port i of Some q \<Rightarrow> 1716 \<le> unat q \<and> unat q \<le> 1764 | None \<Rightarrow> True)
    \<and> (dc_policy dc = Refuse \<longrightarrow> \<not> is_local_address local_end ip)"
proof -
  from assms obtain pk where pk: "from_packet E pk = Inr i" "a = SockAddr ip p" "is_private_address ip"
    "device_id i \<noteq> device_id (dc_identity dc)"
    "MIN_PORT \<le> (case tcp_port i of Some q \<Rightarrow> q | None \<Rightarrow> MIN_PORT)" "(case tcp_port i of Some q \<Rightarrow> q | None \<Rightarrow> MIN_PORT) \<le> MAX_PORT"
    "\<not> (is_split_brain local_end ip (device_id (dc_identity dc)) (device_id i) \<and> dc_policy dc = Refuse)"
    by (auto simp: listen_def result_simps Let_def split: if_splits)
  have "valid_id E (device_id i)"
    using pk(1) by (auto simp: from_packet_def result_simps Let_def split: if_splits)
  moreover have "case tcp_port i of Some q \<Rightarrow> 1716 \<le> unat q \<and> unat q \<le> 1764 | None \<Rightarrow> True"
    using pk(5,6) by (auto simp: MIN_PORT_def MAX_PORT_def word_le_nat_alt split: option.splits)
  ultimately show ?thesis using pk(2-4,7) by (auto simp: is_split_brain_def)
qed

lemma resolved_to_peer_sound:
  assumes "resolved_to_peer E sv = Inr peer"
  shows "valid_id E (mp_device_id peer) \<and> mp_address peer \<in> set (sv_addresses sv) \<and> is_ipv4 (mp_address peer)
    \<and> is_private_address (mp_address peer)"
  using assms
  by (auto simp: resolved_to_peer_def result_simps Let_def usable_peer_address_def find_Some_iff is_err_def
      is_ok_iff split: if_splits option.splits)

text \<open>The downgrade check cannot refuse anything: an announcement is entered in the registry before
  the dial is decided, and entering it overwrites the known protocol version with the announced
  one. Whatever was known before, afterwards the announced version is on record and the check
  finds no downgrade.\<close>

theorem downgrade_guard_dead:
  "case upsert_device J order now (announced_device E t i) s of
     (r, s1) \<Rightarrow> r = Inr () \<and> \<not> downgraded i s1 \<and> paired s1 = paired s
       \<and> map_option dv_protocol_version (devices s1 (device_id i)) = Some (protocol_version i)"
proof -
  have id: "dv_id (announced_device E t i) = device_id i" "dv_protocol_version (announced_device E t i) = protocol_version i"
    by (simp_all add: announced_device_def with_capabilities_def new_device_def)
  have "dv_protocol_version (refresh_identity d n e) = dv_protocol_version d" for d n e
    by (simp add: refresh_identity_def apply_capability_update_def update_last_seen_def Let_def)
  then have "map_option dv_protocol_version (devices (snd (upsert_device J order now (announced_device E t i) s)) (device_id i))
      = Some (protocol_version i)"
    using id by (simp add: upsert_device_def Let_def split: option.splits)
  moreover from this have "\<not> downgraded i (snd (upsert_device J order now (announced_device E t i) s))"
    by (auto simp: downgraded_def)
  moreover have "paired (snd (upsert_device J order now (announced_device E t i) s)) = paired s"
    "fst (upsert_device J order now (announced_device E t i) s) = Inr ()"
    by (simp_all add: upsert_device_def Let_def split: option.splits)
  ultimately show ?thesis by (auto split: prod.splits)
qed

text \<open>Announcements are understood: what one daemon broadcasts, another one hears as that daemon's
  identity with its port, provided it comes from a local address that is not the hearer's own, the
  ids differ, the identity is a valid one and the JSON library reads back what it prints.\<close>

theorem announcement_heard:
  assumes "discovery_broadcast E pid (\<lambda>_. SendOk) dc s = (Inr (), t)"
    and "valid_id E (device_id i)" and "dc_identity dc = i" and "protocol_version i \<noteq> 0"
    and "sanitize_device_name (device_name i) = device_name i" and "device_name i \<noteq> ''''"
    and "tcp_port i = Some q" and "1716 \<le> q" and "q \<le> 1764"
    and "json_parse E (json_print E (packet_to_json (to_packet (pid 0) i))) = Some (packet_to_json (to_packet (pid 0) i))"
    and "json_print E (packet_to_json (to_packet (pid 0) i)) = ''{'' @ mid @ ''}''"
    and "valid_utf8 (json_print E (packet_to_json (to_packet (pid 0) i)))"
    and "length (serialize E (to_packet (pid 0) i)) \<le> MAX_PACKET_SIZE_STEADY"
    and "is_private_address ip" and "\<not> is_local_address local_end ip" and "device_id (dc_identity dc') \<noteq> device_id i"
  shows "\<exists>bytes. udp_sent t = udp_sent s @ [(dc_broadcast_addr dc, bytes)]
    \<and> listen E local_end dc' bytes (SockAddr ip p) = Inr (i, SockAddr ip p)"
proof -
  let ?p = "to_packet (pid 0) i"
  have nj: "packet_payload_transfer_info ?p \<noteq> Some JNull" and id: "is_identity ?p"
    by (simp_all add: to_packet_def new_packet_def is_identity_def)
  have ds: "deserialize E (serialize E ?p) = Inr ?p"
    by (rule deserialize_serialize [OF nj assms(10-13)])
  have "from_packet E ?p = Inr i"
    using identity_exchange_roundtrip [OF assms(2,4), of "pid 0"] assms(5,6) by simp
  then have "listen E local_end dc' (serialize E ?p) (SockAddr ip p) = Inr (i, SockAddr ip p)"
    using ds id assms(7-9,14-16) by (simp add: listen_def MIN_PORT_def MAX_PORT_def is_split_brain_def)
  moreover have "udp_sent t = udp_sent s @ [(dc_broadcast_addr dc, serialize E ?p)]"
    using assms(1,3) by (auto simp: discovery_broadcast_def send_datagram_def)
  ultimately show ?thesis by blast
qed

section \<open>The fallback's pauses\<close>

definition streak :: "bool list \<Rightarrow> nat \<Rightarrow> nat" where
  "streak es k = length (takeWhile id (rev (take k es)))"

lemma streak_all: "False \<notin> set (take k es) \<Longrightarrow> streak es k = length (take k es)"
proof -
  assume "False \<notin> set (take k es)"
  then have "\<forall>x \<in> set (rev (take k es)). id x" by (metis (full_types) id_apply set_rev)
  then have "takeWhile id (rev (take k es)) = rev (take k es)" by (simp only: takeWhile_eq_all_conv)
  then show ?thesis unfolding streak_def by (simp only: length_rev)
qed

lemma streak_Cons:
  "streak (e # es) (Suc k) =
     (if False \<in> set (take k es) then streak es k else length (take k es) + (if e then 1 else 0))"
proof (cases "False \<in> set (take k es)")
  case True
  then have "takeWhile id (rev (take k es) @ [e]) = takeWhile id (rev (take k es))"
    by (metis id_apply set_rev takeWhile_append1)
  with True show ?thesis by (simp add: streak_def)
next
  case False
  then have "\<forall>x \<in> set (rev (take k es)). id x" by (metis (full_types) id_apply set_rev)
  then have "takeWhile id (rev (take k es) @ [e]) = rev (take k es) @ takeWhile id [e]"
    by (intro takeWhile_append2) blast
  with False show ?thesis by (simp add: streak_def)
qed

lemma schedule_nth:
  assumes "k < length es" and "initial \<le> cap"
  shows "run_fallback_schedule initial cap poll (min cap (initial * 2 ^ m)) es ! k =
    (if es ! k then (True, min cap (initial * 2 ^ (streak es k + (if False \<in> set (take k es) then 0 else m)))) else (False, poll))"
  using assms(1)
proof (induction es arbitrary: k m)
  case (Cons e es)
  show ?case
  proof (cases k)
    case 0
    then show ?thesis by (simp add: streak_def)
  next
    case (Suc j)
    have two: "min (min cap (initial * 2 ^ m) * 2) cap = min cap (initial * 2 ^ Suc m)" by (auto simp: min_def)
    have start: "initial = min cap (initial * 2 ^ 0)" using assms(2) by simp
    show ?thesis
    proof (cases e)
      case True
      with Suc Cons.prems Cons.IH [of j "Suc m"] two show ?thesis
        by (auto simp: streak_Cons streak_all simp del: power_Suc)
    next
      case False
      from Cons.IH [of j 0] start False Suc Cons.prems show ?thesis
        by (auto simp: streak_Cons streak_all)
    qed
  qed
qed simp

text \<open>The fallback broadcasts exactly when it is due, and backs off: at each step it broadcasts if and
  only if mDNS is down and nobody is connected; the pause after a broadcast is five seconds doubled
  once for every broadcast directly before it, at most five minutes, and two seconds otherwise.\<close>

theorem fallback_schedule_spec:
  assumes "k < length es"
  shows "run_broadcast_fallback es ! k =
    (if es ! k then (True, min 300 (5 * 2 ^ length (takeWhile id (rev (take k es))))) else (False, 2))"
  using schedule_nth [OF assms, of 5 300 2 0]
  by (simp add: run_broadcast_fallback_def FALLBACK_INITIAL_INTERVAL_def FALLBACK_MAX_INTERVAL_def
      ELIGIBILITY_POLL_INTERVAL_def streak_def)

theorem fallback_schedule_spec_witness:
  "run_broadcast_fallback [True, True, False, True] ! 1 = (True, 10) \<and> run_broadcast_fallback [True, True, False, True] ! 3 = (True, 5)"
  using fallback_schedule_spec [of 1 "[True, True, False, True]"] fallback_schedule_spec [of 3 "[True, True, False, True]"]
  by (simp add: numeral_2_eq_2 numeral_3_eq_3)

section \<open>Resolved devices and network changes\<close>

text \<open>A resolved mDNS record makes the daemon send at most one datagram, its own identity, and only
  to a device that is not itself, not connected and not throttled; links, records and pairings do
  not change.\<close>

lemma mdns_resolved_effect:
  assumes "t = on_mdns_device_resolved E local_end pid udp clk peer s"
  shows "connections t = connections s \<and> devices t = devices s \<and> paired t = paired s
    \<and> (udp_sent t = udp_sent s
       \<or> (\<exists>our. get_identity s = Some our \<and> mp_device_id peer \<noteq> cm_device_id s \<and> \<not> is_connected (mp_device_id peer) s
            \<and> \<not> too_soon (last_mdns_unicast s) (mp_address peer) (clk 0)
            \<and> udp_sent t = udp_sent s @ [(SockAddr (mp_address peer) fallback_udp_port, serialize E (to_packet pid our))]))"
  using assms
  by (auto simp: on_mdns_device_resolved_def Let_def allow_mdns_unicast_def unicast_identity_def get_identity_def
      split: if_splits option.splits udp_outcome.splits)

text \<open>The debouncer fires at quiet moments: at each of its times no raw event has happened for
  a whole window, and successive times are at least a window apart.\<close>

lemma debounce_from_times:
  assumes "sorted (prev # ts)" and "0 < window" and "x \<in> set (debounce_from window prev ts)"
  shows "prev + window \<le> x" and "\<forall>t \<in> set (prev # ts). t < x \<longrightarrow> t + window \<le> x"
  using assms
proof (induction window prev ts rule: debounce_from.induct)
  case (2 window prev t ts)
  {
    case 1
    then show ?case using 2 by (auto split: if_splits)
  next
    case 2
    show ?case
    proof (cases "t - prev < window")
      case True
      with 2 "2.IH"(1,2) show ?thesis by fastforce
    next
      case False
      with 2 "2.IH"(3,4) show ?thesis by fastforce
    qed
  }
qed auto

section \<open>Announcements at work\<close>

definition demo_discovery :: "string \<Rightarrow> discovery_service" where
  "demo_discovery did = \<lparr>dc_identity = demo_identity\<lparr>device_id := did\<rparr>,
     dc_broadcast_addr = SockAddr (V4 255 255 255 255) 1716, dc_policy = Refuse\<rparr>"

theorem announcement_heard_witness:
  "\<exists>bytes. udp_sent (snd (discovery_broadcast link_externals (\<lambda>_. 1) (\<lambda>_. SendOk) (demo_discovery demo_id) demo_manager))
       = udp_sent demo_manager @ [(SockAddr (V4 255 255 255 255) 1716, bytes)]
     \<and> listen link_externals (\<lambda>_. None) (demo_discovery short_id) bytes (SockAddr (V4 192 168 1 5) 1716)
       = Inr (demo_identity, SockAddr (V4 192 168 1 5) 1716)"
proof -
  let ?dc = "demo_discovery demo_id" and ?p = "to_packet 1 demo_identity"
  obtain t where b: "discovery_broadcast link_externals (\<lambda>_. 1) (\<lambda>_. SendOk) ?dc demo_manager = (Inr (), t)"
    by (simp add: discovery_broadcast_def)
  have i: "dc_identity ?dc = demo_identity" by (simp add: demo_discovery_def demo_identity_def new_identity_def)
  have name: "device_name demo_identity = ''phone''" "tcp_port demo_identity = Some 1716"
    by (simp_all add: demo_identity_def new_identity_def DEFAULT_TCP_PORT_def)
  have json: "json_print link_externals j = ''{'' @ '''' @ ''}''" "json_parse link_externals x = Some (packet_to_json ?p)"
    "valid_utf8 (json_print link_externals j)" "length (serialize link_externals q) \<le> MAX_PACKET_SIZE_STEADY" for j x q
    by (simp_all add: link_externals_def demo_externals_def serialize_def MAX_PACKET_SIZE_STEADY_def valid_utf8_def bytes_of_def)
  have "\<exists>bytes. udp_sent t = udp_sent demo_manager @ [(dc_broadcast_addr ?dc, bytes)]
     \<and> listen link_externals (\<lambda>_. None) (demo_discovery short_id) bytes (SockAddr (V4 192 168 1 5) 1716)
       = Inr (demo_identity, SockAddr (V4 192 168 1 5) 1716)"
    by (rule announcement_heard [OF b, where q = 1716, OF _ i _ _ _ name(2) _ _ json(2,1,3,4)])
       (simp_all add: valid_demo_id name sanitize_phone demo_discovery_def is_local_address_def demo_id_not_short [symmetric])
  with b show ?thesis by (simp add: demo_discovery_def)
qed

theorem listen_sound_witness:
  "\<exists>i. listen link_externals (\<lambda>_. None) (demo_discovery short_id) demo_line (SockAddr (V4 192 168 1 5) 1716)
      = Inr (i, SockAddr (V4 192 168 1 5) 1716)
    \<and> valid_id link_externals (device_id i) \<and> \<not> is_local_address (\<lambda>_. None) (V4 192 168 1 5)"
proof -
  have port: "tcp_port demo_identity = Some 1716" by (simp add: demo_identity_def new_identity_def DEFAULT_TCP_PORT_def)
  have "is_identity (to_packet 1 demo_identity)" by (simp add: is_identity_def to_packet_def new_packet_def)
  then have heard: "listen link_externals (\<lambda>_. None) (demo_discovery short_id) demo_line (SockAddr (V4 192 168 1 5) 1716)
      = Inr (demo_identity, SockAddr (V4 192 168 1 5) 1716)"
    by (simp add: listen_def demo_line_packet from_packet_demo port MIN_PORT_def MAX_PORT_def demo_discovery_def
        is_split_brain_def is_local_address_def)
  with listen_sound [OF heard] show ?thesis by (simp add: demo_discovery_def)
qed

end
