(* ===== verification/Net_Text.thy ===== *)
theory Net_Text
  imports Device_Types
begin

text \<open>
  Numbers and IP addresses as text, as the standard library prints and parses them
  (\<open>Display\<close> and \<open>FromStr\<close> of the integer types and of \<open>IpAddr\<close>). The payload
  transfer prints its own address into a packet and parses the one it is sent, and numbers
  the copies of a file name. Addresses of both families are covered; the round trip is shown
  for IPv4, whose text is what the protocol's own senders put on the wire.
\<close>

section \<open>Decimal and hexadecimal numbers\<close>

definition digit_char :: "nat \<Rightarrow> char" where
  "digit_char n = char_of (if n < 10 then 48 + n else 87 + n)"

fun show_radix :: "nat \<Rightarrow> nat \<Rightarrow> string" where
  "show_radix r n = (if n < r \<or> r < 2 then [digit_char n] else show_radix r (n div r) @ [digit_char (n mod r)])"

declare show_radix.simps [simp del]

definition show_nat :: "nat \<Rightarrow> string" where
  "show_nat n = show_radix 10 n"

text \<open>The value of a character as a digit of a number in base \<open>r\<close> (at most 16).\<close>

definition radix_val :: "nat \<Rightarrow> char \<Rightarrow> nat option" where
  "radix_val r c =
     (let n = of_char c;
          v = (if 48 \<le> n \<and> n \<le> 57 then n - 48 else if 97 \<le> n \<and> n \<le> 102 then n - 87
               else if 65 \<le> n \<and> n \<le> 70 then n - 55 else r)
      in if v < r then Some v else None)"

definition is_digit :: "nat \<Rightarrow> char \<Rightarrow> bool" where
  "is_digit r c \<longleftrightarrow> radix_val r c \<noteq> None"

definition digits_value :: "nat \<Rightarrow> string \<Rightarrow> nat" where
  "digits_value r ds = foldl (\<lambda>acc c. acc * r + the (radix_val r c)) 0 ds"

section \<open>The address parser\<close>

text \<open>
  Each reader returns what it read and the text that is left. A number is all the digits
  there are: too many of them, a value out of range, or a leading zero where it is not
  allowed fail the reader.
\<close>

type_synonym 'a reader = "string \<Rightarrow> ('a \<times> string) option"

definition read_number :: "nat \<Rightarrow> nat \<Rightarrow> nat \<Rightarrow> bool \<Rightarrow> nat reader" where
  "read_number r max_digits bound allow_zero_prefix s =
     (let ds = takeWhile (is_digit r) s in
      if ds = [] \<or> max_digits < length ds \<or> bound \<le> digits_value r ds then None
      else if \<not> allow_zero_prefix \<and> hd ds = CHR ''0'' \<and> 1 < length ds then None
      else Some (digits_value r ds, dropWhile (is_digit r) s))"

definition read_given_char :: "char \<Rightarrow> unit reader" where
  "read_given_char c s = (case s of [] \<Rightarrow> None | x # xs \<Rightarrow> if x = c then Some ((), xs) else None)"

text \<open>An item, with the separator before it unless it is the first.\<close>

definition read_separator :: "char \<Rightarrow> nat \<Rightarrow> 'a reader \<Rightarrow> 'a reader" where
  "read_separator sep i item s =
     (if 0 < i then Option.bind (read_given_char sep s) (\<lambda>(_, s'). item s') else item s)"

fun read_octets :: "nat \<Rightarrow> nat \<Rightarrow> nat list reader" where
  "read_octets i 0 s = Some ([], s)"
| "read_octets i (Suc k) s =
     Option.bind (read_separator (CHR ''.'') i (read_number 10 3 256 False) s) (\<lambda>(n, s').
     Option.bind (read_octets (Suc i) k s') (\<lambda>(ns, s''). Some (n # ns, s'')))"

definition read_ipv4_addr :: "nat list reader" where
  "read_ipv4_addr = read_octets 0 4"

text \<open>Up to \<open>limit\<close> groups of an IPv6 address; a dotted IPv4 address may stand for the last
  two. The flag says that it did.\<close>

fun read_groups :: "nat \<Rightarrow> nat \<Rightarrow> string \<Rightarrow> nat list \<times> bool \<times> string" where
  "read_groups i 0 s = ([], False, s)"
| "read_groups i (Suc k) s =
     (case (if 0 < k then read_separator (CHR '':'') i read_ipv4_addr s else None) of
        Some (ns, s') \<Rightarrow> ([ns ! 0 * 256 + ns ! 1, ns ! 2 * 256 + ns ! 3], True, s')
      | None \<Rightarrow>
          (case read_separator (CHR '':'') i (read_number 16 4 65536 True) s of
             None \<Rightarrow> ([], False, s)
           | Some (g, s') \<Rightarrow> (let (gs, v4, s'') = read_groups (Suc i) k s' in (g # gs, v4, s''))))"

definition octets_of :: "nat list \<Rightarrow> u8 list" where
  "octets_of gs = concat (map (\<lambda>g. [of_nat (g div 256), of_nat (g mod 256)]) gs)"

definition read_ipv6_addr :: "ip_addr reader" where
  "read_ipv6_addr s =
     (let (head, head_ipv4, s') = read_groups 0 8 s in
      if length head = 8 then Some (V6 (octets_of head), s')
      else if head_ipv4 then None
      else Option.bind (read_given_char (CHR '':'') s') (\<lambda>(_, s').
           Option.bind (read_given_char (CHR '':'') s') (\<lambda>(_, s').
             (let (tail, _, s'') = read_groups 0 (7 - length head) s' in
              Some (V6 (octets_of (head @ replicate (8 - length head - length tail) 0 @ tail)), s'')))))"

definition read_ip_addr :: "ip_addr reader" where
  "read_ip_addr s =
     (case read_ipv4_addr s of
        Some (ns, s') \<Rightarrow> Some (V4 (of_nat (ns ! 0)) (of_nat (ns ! 1)) (of_nat (ns ! 2)) (of_nat (ns ! 3)), s')
      | None \<Rightarrow> read_ipv6_addr s)"

definition parse_ip :: "string \<Rightarrow> ip_addr option" where
  "parse_ip s = (case read_ip_addr s of Some (ip, []) \<Rightarrow> Some ip | _ \<Rightarrow> None)"

section \<open>The address printer\<close>

definition show_v4 :: "nat \<Rightarrow> nat \<Rightarrow> nat \<Rightarrow> nat \<Rightarrow> string" where
  "show_v4 a b c d = show_nat a @ ''.'' @ show_nat b @ ''.'' @ show_nat c @ ''.'' @ show_nat d"

fun segments :: "u8 list \<Rightarrow> nat list" where
  "segments (a # b # os) = (unat a * 256 + unat b) # segments os"
| "segments _ = []"

text \<open>The first of the longest runs of zero segments, as its start and its length.\<close>

fun longest_zeroes :: "nat \<Rightarrow> nat \<times> nat \<Rightarrow> nat \<times> nat \<Rightarrow> nat list \<Rightarrow> nat \<times> nat" where
  "longest_zeroes i longest current [] = longest"
| "longest_zeroes i longest current (g # gs) =
     (if g = 0 then
        (let current' = (if snd current = 0 then (i, 1) else (fst current, snd current + 1))
         in longest_zeroes (Suc i) (if snd longest < snd current' then current' else longest) current' gs)
      else longest_zeroes (Suc i) longest (0, 0) gs)"

fun join_groups :: "nat list \<Rightarrow> string" where
  "join_groups [] = []"
| "join_groups [g] = show_radix 16 g"
| "join_groups (g # gs) = show_radix 16 g @ '':'' @ join_groups gs"

fun show_ip :: "ip_addr \<Rightarrow> string" where
  "show_ip (V4 a b c d) = show_v4 (unat a) (unat b) (unat c) (unat d)"
| "show_ip (V6 os) =
     (if take 12 os = replicate 10 0 @ [255, 255] then
        ''::ffff:'' @ show_v4 (unat (os ! 12)) (unat (os ! 13)) (unat (os ! 14)) (unat (os ! 15))
      else (let gs = segments os; (start, len) = longest_zeroes 0 (0, 0) (0, 0) gs in
        if 1 < len then join_groups (take start gs) @ ''::'' @ join_groups (drop (start + len) gs)
        else join_groups gs))"

section \<open>What is printed is read back\<close>

lemma digit_char_code: "n < 16 \<Longrightarrow> (of_char (digit_char n) :: nat) = (if n < 10 then 48 + n else 87 + n)"
  by (simp add: digit_char_def of_char_of)

lemma radix_val_digit [simp]: "n < 10 \<Longrightarrow> radix_val 10 (digit_char n) = Some n"
  by (simp add: radix_val_def digit_char_code)

lemma show_nat_small: "n < 10 \<Longrightarrow> show_nat n = [digit_char n]"
  by (simp add: show_nat_def show_radix.simps)

lemma show_nat_step: "10 \<le> n \<Longrightarrow> show_nat n = show_nat (n div 10) @ [digit_char (n mod 10)]"
  by (simp add: show_nat_def show_radix.simps [of 10 n])

lemma show_nat_induct [case_names small step]:
  assumes "\<And>n. n < 10 \<Longrightarrow> P n" and "\<And>n. 10 \<le> n \<Longrightarrow> P (n div 10) \<Longrightarrow> P n"
  shows "P (n :: nat)"
proof (induction n rule: less_induct)
  case (less n)
  show ?case
  proof (cases "n < 10")
    case False
    then have "10 \<le> n" and "n div 10 < n" by simp_all
    then show ?thesis by (rule assms(2) [OF _ less])
  qed (rule assms(1))
qed

lemma show_nat_digits: "list_all (is_digit 10) (show_nat n)"
  by (induction n rule: show_nat_induct) (simp_all add: show_nat_small show_nat_step is_digit_def)

lemma show_nat_not_Nil [simp]: "show_nat n \<noteq> []"
  by (induction n rule: show_nat_induct) (simp_all add: show_nat_small show_nat_step)

lemma digits_value_show [simp]: "digits_value 10 (show_nat n) = n"
proof (induction n rule: show_nat_induct)
  case (small n)
  then show ?case by (simp add: show_nat_small digits_value_def)
next
  case (step n)
  have "digits_value 10 (show_nat n) = digits_value 10 (show_nat (n div 10)) * 10 + n mod 10"
    using step(1) by (simp add: show_nat_step digits_value_def)
  then show ?case using step(2) by simp
qed

lemma show_nat_inj: "show_nat m = show_nat n \<Longrightarrow> m = n"
  by (metis digits_value_show)

lemma show_nat_hd: "hd (show_nat n) = CHR ''0'' \<Longrightarrow> n = 0"
proof (induction n rule: show_nat_induct)
  case (small n)
  then have "(of_char (digit_char n) :: nat) = of_char (CHR ''0'')" by (simp add: show_nat_small)
  with small(1) show ?case by (simp add: digit_char_code)
next
  case (step n)
  then have "hd (show_nat (n div 10)) = CHR ''0''" by (simp add: show_nat_step [of n])
  with step show ?case by simp
qed

lemma length_show_nat_le: "n < 10 ^ Suc k \<Longrightarrow> length (show_nat n) \<le> Suc k"
proof (induction k arbitrary: n)
  case (Suc k)
  show ?case
  proof (cases "n < 10")
    case False
    with Suc.prems Suc.IH [of "n div 10"] show ?thesis by (simp add: show_nat_step less_mult_imp_div_less)
  qed (simp add: show_nat_small)
qed (simp add: show_nat_small)

text \<open>Text after which a number ends.\<close>

definition stops :: "nat \<Rightarrow> string \<Rightarrow> bool" where
  "stops r s \<longleftrightarrow> (case s of [] \<Rightarrow> True | c # _ \<Rightarrow> \<not> is_digit r c)"

lemma stops_simps [simp]: "stops 10 []" "stops 10 (CHR ''.'' # s)"
  by (simp_all add: stops_def is_digit_def radix_val_def)

lemma takeWhile_stops:
  "list_all P ds \<Longrightarrow> (case s of [] \<Rightarrow> True | c # _ \<Rightarrow> \<not> P c) \<Longrightarrow> takeWhile P (ds @ s) = ds \<and> dropWhile P (ds @ s) = s"
  by (induction ds) (auto split: list.splits)

lemma read_number_show:
  assumes "n < 256" and "stops 10 s"
  shows "read_number 10 3 256 False (show_nat n @ s) = Some (n, s)"
proof -
  have cut: "takeWhile (is_digit 10) (show_nat n @ s) = show_nat n" "dropWhile (is_digit 10) (show_nat n @ s) = s"
    using takeWhile_stops [OF show_nat_digits assms(2) [unfolded stops_def]] by auto
  have "length (show_nat n) \<le> 3"
    using length_show_nat_le [of n 2] assms(1) by (simp add: numeral_3_eq_3)
  moreover have "length (show_nat n) = 1" if "hd (show_nat n) = CHR ''0''"
    using show_nat_hd [OF that] by (simp add: show_nat_small)
  ultimately show ?thesis using assms(1) by (auto simp: read_number_def cut Let_def)
qed

lemma read_octets_Suc:
  "0 < k \<Longrightarrow> read_octets i k s =
     Option.bind (read_separator (CHR ''.'') i (read_number 10 3 256 False) s) (\<lambda>(n, s').
     Option.bind (read_octets (Suc i) (k - 1) s') (\<lambda>(ns, s''). Some (n # ns, s'')))"
  by (cases k) simp_all

lemma read_octets_show:
  assumes "a < 256" "b < 256" "c < 256" "d < 256" "stops 10 s"
  shows "read_ipv4_addr (show_v4 a b c d @ s) = Some ([a, b, c, d], s)"
  using assms
  by (simp add: read_ipv4_addr_def show_v4_def read_octets_Suc read_separator_def read_given_char_def read_number_show)

lemma parse_show_v4: "parse_ip (show_ip (V4 a b c d)) = Some (V4 a b c d)"
proof -
  have "unat (x :: u8) < 256" for x using unsigned_less [of x] by simp
  then show ?thesis
    using read_octets_show [of "unat a" "unat b" "unat c" "unat d" "[]"]
    by (simp add: parse_ip_def read_ip_addr_def)
qed

end
