(* ===== verification/Payload.thy ===== *)
theory Payload
  imports Connection Net_Text "HOL-Library.Sublist"
begin

text \<open>
  Payload transfers (\<open>src/protocol/payload_transfer.rs\<close>): files go over a TCP and TLS
  connection of their own. The sender binds a port of a fixed range, tells it to the peer and
  serves the file as TLS server; the receiver connects to it as TLS client and stores exactly
  the announced number of bytes, or, for a stream of unknown size, all bytes up to a cap.

  What the connection delivers is a list of read events as in \<open>Framing\<close>; how the writes to
  the destination end is a list of \<open>wr\<close>. A \<open>Stall\<close> or \<open>WrTimeout\<close> stands for an
  operation that did not end within its time limit, the smaller of the idle limit of 120 seconds
  and what is left of the whole transfer's limit; the limit of the whole transfer itself is
  checked against clock readings. The limit of 30 seconds around a TLS handshake never fires,
  because the handshake has its own of 10 seconds. The sender's task is the second half of
  \<open>send_file\<close>; it runs later, on the state of that time.
\<close>

section \<open>Limits\<close>

definition TRANSFER_MIN_PORT :: nat where "TRANSFER_MIN_PORT = 1739"
definition TRANSFER_MAX_PORT :: nat where "TRANSFER_MAX_PORT = 1764"
definition IO_TOTAL_TIMEOUT_FLOOR :: duration where "IO_TOTAL_TIMEOUT_FLOOR = secs 3600"
definition TRANSFER_FLOOR_RATE_BYTES_PER_SEC :: u64 where "TRANSFER_FLOOR_RATE_BYTES_PER_SEC = 64 * 1024"

definition total_deadline_for :: "u64 \<Rightarrow> duration" where
  "total_deadline_for sz =
     max IO_TOTAL_TIMEOUT_FLOOR (secs (int (unat (sz div TRANSFER_FLOOR_RATE_BYTES_PER_SEC))))"

section \<open>Copying\<close>

definition COPY_BUFFER :: nat where "COPY_BUFFER = 32 * 1024"

text \<open>One read into a buffer of \<open>n\<close> bytes; no bytes at all mean the end of the stream. A
  reader behind \<open>take\<close> stops at its limit without asking the stream.\<close>

datatype got = GotTimeout | GotErr | Got string

fun read_some :: "nat \<Rightarrow> rd list \<Rightarrow> got \<times> rd list" where
  "read_some n [] = (Got [], [])"
| "read_some n (Stall # inp) = (GotTimeout, inp)"
| "read_some n (RdErr # inp) = (GotErr, inp)"
| "read_some n (Chunk c # inp) = (Got (take n c), unread (drop n c) inp)"

definition read_limited :: "u64 option \<Rightarrow> rd list \<Rightarrow> got \<times> rd list" where
  "read_limited limit inp =
     (case limit of
        None \<Rightarrow> read_some COPY_BUFFER inp
      | Some l \<Rightarrow> if l = 0 then (Got [], inp) else read_some (min COPY_BUFFER (unat l)) inp)"

definition lower_limit :: "u64 option \<Rightarrow> string \<Rightarrow> u64 option" where
  "lower_limit limit c = map_option (\<lambda>l. l - of_nat (length c)) limit"

text \<open>Writing goes to a sink of any kind; an unsuccessful write may have stored a part.\<close>

definition write_all :: "(string \<Rightarrow> 'w \<Rightarrow> 'w) \<Rightarrow> string \<Rightarrow> wr list \<Rightarrow> 'w \<Rightarrow> wr \<times> wr list \<times> 'w" where
  "write_all put c ws w =
     (case ws of
        [] \<Rightarrow> (WrOk, [], put c w)
      | WrOk # ws' \<Rightarrow> (WrOk, ws', put c w)
      | WrErr k # ws' \<Rightarrow> (WrErr k, ws', put (take k c) w)
      | WrTimeout k # ws' \<Rightarrow> (WrTimeout k, ws', put (take k c) w))"

definition deadline_error :: "string \<Rightarrow> error" where
  "deadline_error operation = ConnectionTimeout (''Payload '' @ operation @ '' exceeded the total transfer deadline'')"

fun rd_weight :: "rd \<Rightarrow> nat" where
  "rd_weight (Chunk c) = Suc (length c)"
| "rd_weight _ = 1"

lemma read_limited_decreases:
  assumes "read_limited limit inp = (Got c, inp')" and "c \<noteq> []"
  shows "sum_list (map rd_weight inp') < sum_list (map rd_weight inp)"
proof -
  have "read_some n inp = (Got c, inp') \<Longrightarrow> ?thesis" for n
    using assms(2) by (cases "(n, inp)" rule: read_some.cases) (auto simp: unread_def)
  with assms show ?thesis by (auto simp: read_limited_def split: option.splits if_splits)
qed

function copy_loop ::
    "string \<Rightarrow> instant \<Rightarrow> clock \<Rightarrow> (string \<Rightarrow> 'w \<Rightarrow> 'w) \<Rightarrow> nat \<Rightarrow> u64 option \<Rightarrow> u64 \<Rightarrow> rd list \<Rightarrow> wr list \<Rightarrow> 'w
     \<Rightarrow> u64 res \<times> wr list \<times> 'w" where
  "copy_loop operation deadline clk put n limit copied inp ws w =
     (if deadline \<le> clk n then (Inl (deadline_error operation), ws, w)
      else case read_limited limit inp of
        (GotTimeout, _) \<Rightarrow> (Inl (ConnectionTimeout (''Timed out waiting for payload '' @ operation)), ws, w)
      | (GotErr, _) \<Rightarrow> (Inl (io_error (''Failed to read payload during '' @ operation) None), ws, w)
      | (Got c, inp') \<Rightarrow>
          if c = [] then (Inr copied, ws, w)
          else if deadline \<le> clk (n + 1) then (Inl (deadline_error operation), ws, w)
          else (case write_all put c ws w of
              (WrTimeout _, ws', w') \<Rightarrow>
                (Inl (ConnectionTimeout (''Timed out writing payload during '' @ operation)), ws', w')
            | (WrErr _, ws', w') \<Rightarrow> (Inl (io_error (''Failed to write payload during '' @ operation) None), ws', w')
            | (WrOk, ws', w') \<Rightarrow>
                copy_loop operation deadline clk put (n + 2) (lower_limit limit c) (copied + of_nat (length c)) inp' ws' w'))"
  by pat_completeness auto
termination
  by (relation "measure (\<lambda>(_, _, _, _, _, _, _, inp, _, _). sum_list (map rd_weight inp))")
     (auto dest: read_limited_decreases [OF sym])

declare copy_loop.simps [simp del]

definition copy_with_idle_timeout ::
    "string \<Rightarrow> clock \<Rightarrow> duration \<Rightarrow> (string \<Rightarrow> 'w \<Rightarrow> 'w) \<Rightarrow> u64 option \<Rightarrow> rd list \<Rightarrow> wr list \<Rightarrow> 'w
     \<Rightarrow> u64 res \<times> wr list \<times> 'w" where
  "copy_with_idle_timeout operation clk total_timeout put limit inp ws w =
     copy_loop operation (clk 0 + total_timeout) clk put 1 limit 0 inp ws w"

section \<open>Destinations\<close>

text \<open>Opening with \<open>create_new\<close> fails on any existing entry.\<close>

datatype created = Created | AlreadyThere | CreateFailed

definition fs_create_new :: "path \<Rightarrow> disk \<Rightarrow> created \<times> disk" where
  "fs_create_new p d =
     (case next_outcome d of
        (Done, d') \<Rightarrow> if path_exists p d' then (AlreadyThere, d') else (Created, put_file p (create_mode d') [] d')
      | (_, d') \<Rightarrow> (CreateFailed, d'))"

text \<open>Bytes appended to the open file; the result of removing a file is ignored.\<close>

definition fs_append :: "path \<Rightarrow> string \<Rightarrow> disk \<Rightarrow> disk" where
  "fs_append p c d =
     (case files d p of
        Some f \<Rightarrow> d\<lparr>files := (files d)(p \<mapsto> f\<lparr>contents := contents f @ c\<rparr>)\<rparr>
      | None \<Rightarrow> d)"

definition discard :: "path \<Rightarrow> disk \<Rightarrow> disk" where
  "discard p d = snd (fs_remove (io_error ''remove'' None) p d)"

definition show_path :: "path \<Rightarrow> string" where
  "show_path p = fst p @ ''/'' @ snd p"

definition create_destination :: "path \<Rightarrow> (disk, unit) op" where
  "create_destination p d =
     (case fs_create_new p d of
        (Created, d') \<Rightarrow> (Inr (), d')
      | (_, d') \<Rightarrow> (Inl (io_error ''Failed to create destination file'' (Some (show_path p))), d'))"

definition file_extension :: "string \<Rightarrow> string option" where
  "file_extension n =
     (let r = dropWhile (\<lambda>c. c \<noteq> CHR ''.'') (rev n)
      in if r = [] \<or> tl r = [] then None else Some (rev (takeWhile (\<lambda>c. c \<noteq> CHR ''.'') (rev n))))"

definition collision_candidate :: "path \<Rightarrow> nat \<Rightarrow> path" where
  "collision_candidate p copy =
     (if copy = 0 then p
      else (let n = snd p;
                stem = (if valid_utf8 (file_stem n) then file_stem n else ''shared_file'');
                extension = (case file_extension n of Some e \<Rightarrow> if valid_utf8 e then Some e else None | None \<Rightarrow> None)
            in (fst p, case extension of
                  Some e \<Rightarrow> stem @ '' ('' @ show_nat copy @ '').'' @ e
                | None \<Rightarrow> stem @ '' ('' @ show_nat copy @ '')'')))"

fun try_copies :: "path \<Rightarrow> nat list \<Rightarrow> (disk, path) op" where
  "try_copies p [] d = (Inl (io_error ''Failed to choose a unique destination filename'' (Some (show_path p))), d)"
| "try_copies p (copy # copies) d =
     (let candidate = collision_candidate p copy in
      case fs_create_new candidate d of
        (Created, d') \<Rightarrow> (Inr candidate, d')
      | (AlreadyThere, d') \<Rightarrow> try_copies p copies d'
      | (CreateFailed, d') \<Rightarrow> (Inl (io_error ''Failed to create destination file'' (Some (show_path candidate))), d'))"

definition MAX_COPIES :: nat where "MAX_COPIES = 10000"

definition create_unique_destination :: "path \<Rightarrow> (disk, path) op" where
  "create_unique_destination p = try_copies p [0..<MAX_COPIES]"

section \<open>What is announced\<close>

record payload_transfer_info =
  pti_ip :: "string option"
  pti_port :: u16
  pti_available_streams :: u64
  pti_total_streams :: u64

fun dec_usize :: "json \<Rightarrow> u64 res" where
  "dec_usize (JNum (PosInt n)) = Inr n"
| "dec_usize _ = Inl dec_err"

definition transfer_info_of_fields :: "(string \<Rightarrow> json option) \<Rightarrow> payload_transfer_info res" where
  "transfer_info_of_fields get =
     rbind (optional dec_string (get ''ip'')) (\<lambda>i.
     rbind (required dec_u16 (get ''port'')) (\<lambda>p.
     rbind (defaulted 0 dec_usize (get ''availableStreams'')) (\<lambda>a.
     rbind (defaulted 0 dec_usize (get ''totalStreams'')) (\<lambda>t.
       Inr \<lparr>pti_ip = i, pti_port = p, pti_available_streams = a, pti_total_streams = t\<rparr>))))"

definition transfer_info_field_names :: "string list" where
  "transfer_info_field_names = [''ip'', ''port'', ''availableStreams'', ''totalStreams'']"

fun transfer_info_of_json :: "json \<Rightarrow> payload_transfer_info res" where
  "transfer_info_of_json (JObj kvs) = transfer_info_of_fields (map_of kvs)"
| "transfer_info_of_json (JArr js) =
     (if 4 < length js then Inl dec_err
      else transfer_info_of_fields (map_of (zip transfer_info_field_names js)))"
| "transfer_info_of_json _ = Inl dec_err"

definition transfer_info_to_json :: "payload_transfer_info \<Rightarrow> json" where
  "transfer_info_to_json i =
     JObj [(''ip'', case pti_ip i of None \<Rightarrow> JNull | Some a \<Rightarrow> JStr a),
           (''port'', JNum (PosInt (ucast (pti_port i)))),
           (''availableStreams'', JNum (PosInt (pti_available_streams i))),
           (''totalStreams'', JNum (PosInt (pti_total_streams i)))]"

section \<open>Receiving\<close>

text \<open>The transfer object: our certificates and the id of the device at the other end.\<close>

record payload_transfer =
  pt_cert_manager :: certificate_manager
  pt_device_id :: device_key

definition connect_receiver ::
    "externals \<Rightarrow> rustls \<Rightarrow> payload_transfer \<Rightarrow> (sock_addr \<Rightarrow> dial) \<Rightarrow> payload_transfer_info \<Rightarrow> (disk, socket) op" where
  "connect_receiver E R T net info =
     sbind (slift (ok_or (ConnectionError ''Payload transfer info has no address (no ip, no peer fallback)'') (pti_ip info))) (\<lambda>a.
     sbind (slift (ok_or (ConnectionError ''Invalid transfer address'') (parse_ip a))) (\<lambda>ip.
     case net (SockAddr ip (pti_port info)) of
       DialTimeout \<Rightarrow> sfail (ConnectionTimeout ''Timed out connecting to payload transfer'')
     | DialErr \<Rightarrow> sfail (ConnectionError ''Failed to connect to payload transfer'')
     | DialOk k \<Rightarrow>
         sbind (tls_connect E R (pt_cert_manager T) (pt_device_id T) (so_tls k)) (\<lambda>_. sreturn k)))"

text \<open>How the flush of the destination ends, after the writes.\<close>

definition flush_ok :: "wr list \<Rightarrow> bool" where
  "flush_ok ws \<longleftrightarrow> (case ws of [] \<Rightarrow> True | out # _ \<Rightarrow> out = WrOk)"

definition finish_receive :: "path \<Rightarrow> u64 \<Rightarrow> wr list \<Rightarrow> (disk, u64) op" where
  "finish_receive dest bytes ws d =
     (if flush_ok ws then (Inr bytes, d) else (Inl (io_error ''Failed to flush received payload'' (Some (show_path dest))), discard dest d))"

definition receive_into :: "clock \<Rightarrow> rd list \<Rightarrow> wr list \<Rightarrow> u64 \<Rightarrow> path \<Rightarrow> (disk, u64) op" where
  "receive_into clk inp ws sz dest d =
     (case copy_with_idle_timeout ''receive'' clk (total_deadline_for sz) (fs_append dest) (Some sz) inp ws d of
        (Inl e, _, d') \<Rightarrow> (Inl e, discard dest d')
      | (Inr bytes, ws', d') \<Rightarrow>
          if bytes < sz then (Inl (ConnectionError ''Payload truncated''), discard dest d')
          else finish_receive dest bytes ws' d')"

definition saturating_inc :: "u64 \<Rightarrow> u64" where
  "saturating_inc n = (if n = - 1 then n else n + 1)"

definition receive_into_streaming :: "clock \<Rightarrow> rd list \<Rightarrow> wr list \<Rightarrow> u64 \<Rightarrow> path \<Rightarrow> (disk, u64) op" where
  "receive_into_streaming clk inp ws max_bytes dest d =
     (case copy_with_idle_timeout ''receive'' clk (total_deadline_for max_bytes) (fs_append dest)
             (Some (saturating_inc max_bytes)) inp ws d of
        (Inl e, _, d') \<Rightarrow> (Inl e, discard dest d')
      | (Inr bytes, ws', d') \<Rightarrow>
          if max_bytes < bytes then (Inl (ConnectionError ''Endless-stream payload exceeded the cap''), discard dest d')
          else finish_receive dest bytes ws' d')"

text \<open>Connecting for a destination that was created already: it is removed on failure.\<close>

definition connect_or_discard ::
    "externals \<Rightarrow> rustls \<Rightarrow> payload_transfer \<Rightarrow> (sock_addr \<Rightarrow> dial) \<Rightarrow> payload_transfer_info \<Rightarrow> path \<Rightarrow> (disk, socket) op" where
  "connect_or_discard E R T net info dest d =
     (case connect_receiver E R T net info d of
        (Inl e, d') \<Rightarrow> (Inl e, discard dest d')
      | (Inr k, d') \<Rightarrow> (Inr k, d'))"

definition receive_file ::
    "externals \<Rightarrow> rustls \<Rightarrow> payload_transfer \<Rightarrow> (sock_addr \<Rightarrow> dial) \<Rightarrow> clock \<Rightarrow> wr list
     \<Rightarrow> payload_transfer_info \<Rightarrow> u64 \<Rightarrow> path \<Rightarrow> (disk, u64) op" where
  "receive_file E R T net clk ws info sz dest =
     sbind (create_destination dest) (\<lambda>_.
     sbind (connect_or_discard E R T net info dest) (\<lambda>k.
       receive_into clk (so_secure k) ws sz dest))"

definition receive_file_unique ::
    "externals \<Rightarrow> rustls \<Rightarrow> payload_transfer \<Rightarrow> (sock_addr \<Rightarrow> dial) \<Rightarrow> clock \<Rightarrow> wr list
     \<Rightarrow> payload_transfer_info \<Rightarrow> u64 \<Rightarrow> path \<Rightarrow> (disk, u64 \<times> path) op" where
  "receive_file_unique E R T net clk ws info sz desired =
     sbind (create_unique_destination desired) (\<lambda>dest.
     sbind (connect_or_discard E R T net info dest) (\<lambda>k.
     sbind (receive_into clk (so_secure k) ws sz dest) (\<lambda>bytes. sreturn (bytes, dest))))"

definition receive_file_streaming ::
    "externals \<Rightarrow> rustls \<Rightarrow> payload_transfer \<Rightarrow> (sock_addr \<Rightarrow> dial) \<Rightarrow> clock \<Rightarrow> wr list
     \<Rightarrow> payload_transfer_info \<Rightarrow> u64 \<Rightarrow> path \<Rightarrow> (disk, u64) op" where
  "receive_file_streaming E R T net clk ws info max_bytes dest =
     sbind (create_destination dest) (\<lambda>_.
     sbind (connect_or_discard E R T net info dest) (\<lambda>k.
       receive_into_streaming clk (so_secure k) ws max_bytes dest))"

definition receive_file_unique_streaming ::
    "externals \<Rightarrow> rustls \<Rightarrow> payload_transfer \<Rightarrow> (sock_addr \<Rightarrow> dial) \<Rightarrow> clock \<Rightarrow> wr list
     \<Rightarrow> payload_transfer_info \<Rightarrow> u64 \<Rightarrow> path \<Rightarrow> (disk, u64 \<times> path) op" where
  "receive_file_unique_streaming E R T net clk ws info max_bytes desired =
     sbind (create_unique_destination desired) (\<lambda>dest.
     sbind (connect_or_discard E R T net info dest) (\<lambda>k.
     sbind (receive_into_streaming clk (so_secure k) ws max_bytes dest) (\<lambda>bytes. sreturn (bytes, dest))))"

section \<open>Sending\<close>

text \<open>\<open>free\<close> says which ports can be bound.\<close>

definition find_free_port :: "(u16 \<Rightarrow> bool) \<Rightarrow> u16 res" where
  "find_free_port free =
     (case find free (map of_nat [TRANSFER_MIN_PORT..<Suc TRANSFER_MAX_PORT]) of
        Some p \<Rightarrow> Inr p
      | None \<Rightarrow> Inl (ConnectionError ''No free ports in transfer range 1739-1764''))"

definition fs_metadata_len :: "error \<Rightarrow> path \<Rightarrow> (disk, u64) op" where
  "fs_metadata_len e p d = sbind (fs_read e p) (\<lambda>c. sreturn (of_nat (length c))) d"

text \<open>What the spawned task has captured.\<close>

record send_job =
  sj_path :: path
  sj_size :: u64
  sj_port :: u16

text \<open>\<open>addr_of\<close> is what the bound listener reports as its port, if it can.\<close>

definition send_file ::
    "path \<Rightarrow> ip_addr \<Rightarrow> (u16 \<Rightarrow> bool) \<Rightarrow> (u16 \<Rightarrow> u16 option) \<Rightarrow> (disk, payload_transfer_info \<times> send_job) op" where
  "send_file p local_ip free addr_of =
     sbind (fs_metadata_len (io_error ''Cannot read file metadata'' None) p) (\<lambda>sz.
     sbind (slift (find_free_port free)) (\<lambda>listener.
     sbind (slift (ok_or (ConnectionError ''Cannot get listener address'') (addr_of listener))) (\<lambda>port.
       sreturn (\<lparr>pti_ip = Some (show_ip local_ip), pti_port = port,
                 pti_available_streams = 1, pti_total_streams = 1\<rparr>,
                \<lparr>sj_path = p, sj_size = sz, sj_port = listener\<rparr>))))"

datatype accepted = AcceptOk socket | AcceptErr | AcceptTimeout

text \<open>The reads of an open file: short ones, a failure, a stall, then all the rest.\<close>

datatype file_read = ShortRead nat | ReadFails | ReadStalls

fun file_reads :: "file_read list \<Rightarrow> string \<Rightarrow> rd list" where
  "file_reads [] c = (if c = [] then [] else [Chunk c])"
| "file_reads (ShortRead n # rs) c =
     (if c = [] then [] else Chunk (take (Suc n) c) # file_reads rs (drop (Suc n) c))"
| "file_reads (ReadFails # rs) c = [RdErr]"
| "file_reads (ReadStalls # rs) c = [Stall]"

text \<open>What went out on the connection, and whether the sender announced its end.\<close>

record sending =
  sd_sent :: string
  sd_closed :: bool

definition nothing_sent :: sending where "nothing_sent = \<lparr>sd_sent = [], sd_closed = False\<rparr>"

definition send_tail :: "wr list \<Rightarrow> string \<Rightarrow> unit res \<times> sending" where
  "send_tail ws sent =
     (case ws of
        WrTimeout _ # _ \<Rightarrow> (Inl (ConnectionTimeout ''Timed out flushing payload''), \<lparr>sd_sent = sent, sd_closed = False\<rparr>)
      | WrErr _ # _ \<Rightarrow> (Inl (io_error ''Failed to flush payload'' None), \<lparr>sd_sent = sent, sd_closed = False\<rparr>)
      | _ \<Rightarrow> (Inr (), \<lparr>sd_sent = sent, sd_closed = flush_ok (tl ws)\<rparr>))"

definition run_send_job ::
    "externals \<Rightarrow> rustls \<Rightarrow> payload_transfer \<Rightarrow> clock \<Rightarrow> send_job \<Rightarrow> accepted \<Rightarrow> file_read list \<Rightarrow> disk
     \<Rightarrow> unit res \<times> sending \<times> disk" where
  "run_send_job E R T clk j acc reads d =
     (case acc of
        AcceptTimeout \<Rightarrow> (Inl (ConnectionTimeout ''Timed out waiting for payload receiver''), nothing_sent, d)
      | AcceptErr \<Rightarrow> (Inl (ConnectionError ''Failed to accept payload connection''), nothing_sent, d)
      | AcceptOk k \<Rightarrow>
          (case tls_accept E R (pt_cert_manager T) (Some (pt_device_id T)) (so_tls k) d of
             (Inl e, d') \<Rightarrow> (Inl e, nothing_sent, d')
           | (Inr _, d') \<Rightarrow>
               (case fs_read (io_error ''Cannot open file for transfer'' None) (sj_path j) d' of
                  (Inl e, d'') \<Rightarrow> (Inl e, nothing_sent, d'')
                | (Inr c, d'') \<Rightarrow>
                    (case copy_with_idle_timeout ''send'' clk (total_deadline_for (sj_size j)) (\<lambda>b sent. sent @ b) None
                            (file_reads reads c) (so_writes k) [] of
                       (Inl e, _, sent) \<Rightarrow> (Inl e, \<lparr>sd_sent = sent, sd_closed = False\<rparr>, d'')
                     | (Inr _, ws, sent) \<Rightarrow> (case send_tail ws sent of (r, sd) \<Rightarrow> (r, sd, d''))))))"

section \<open>What the copy loop moves\<close>

text \<open>The bytes a connection delivers before it ends, fails or stalls, and whether it ends.\<close>

fun arriving :: "rd list \<Rightarrow> string" where
  "arriving (Chunk c # inp) = (if c = [] then [] else c @ arriving inp)"
| "arriving _ = []"

fun ends_cleanly :: "rd list \<Rightarrow> bool" where
  "ends_cleanly [] \<longleftrightarrow> True"
| "ends_cleanly (Chunk c # inp) \<longleftrightarrow> c = [] \<or> ends_cleanly inp"
| "ends_cleanly _ \<longleftrightarrow> False"

definition within :: "u64 option \<Rightarrow> string \<Rightarrow> bool" where
  "within limit bs \<longleftrightarrow> (case limit of None \<Rightarrow> True | Some l \<Rightarrow> length bs \<le> unat l)"

definition used_up :: "u64 option \<Rightarrow> string \<Rightarrow> bool" where
  "used_up limit bs \<longleftrightarrow> (case limit of None \<Rightarrow> False | Some l \<Rightarrow> length bs = unat l)"

lemma arriving_unread: "arriving (unread r inp) = (if r = [] then arriving inp else r @ arriving inp)"
  by (simp add: unread_def)

lemma ends_cleanly_unread: "ends_cleanly (unread r inp) = ends_cleanly inp"
  by (simp add: unread_def)

lemma read_some_Got:
  assumes "read_some n inp = (Got c, inp')" and "0 < n"
  shows "length c \<le> n"
    and "c \<noteq> [] \<Longrightarrow> arriving inp = c @ arriving inp' \<and> ends_cleanly inp = ends_cleanly inp'"
    and "c = [] \<Longrightarrow> arriving inp = [] \<and> ends_cleanly inp"
  using assms by (cases "(n, inp)" rule: read_some.cases;
      force simp: arriving_unread ends_cleanly_unread)+

lemma COPY_BUFFER_pos [simp]: "0 < COPY_BUFFER"
  by (simp add: COPY_BUFFER_def)

lemma read_limited_Got:
  assumes "read_limited limit inp = (Got c, inp')"
  shows "within limit c"
    and "c \<noteq> [] \<Longrightarrow> arriving inp = c @ arriving inp' \<and> ends_cleanly inp = ends_cleanly inp'"
    and "c = [] \<Longrightarrow> used_up limit [] \<or> arriving inp = [] \<and> ends_cleanly inp"
  using assms read_some_Got [of COPY_BUFFER inp c inp']
    read_some_Got [of "min COPY_BUFFER (unat (the limit))" inp c inp']
  by (auto simp: read_limited_def within_def used_up_def unat_gt_0 split: option.splits if_splits)

lemma read_limited_stuck:
  assumes "read_limited limit inp = (g, inp')" and "g = GotTimeout \<or> g = GotErr"
  shows "arriving inp = []" and "\<not> ends_cleanly inp" and "\<not> used_up limit []"
proof -
  have "read_some n inp = (g, inp') \<Longrightarrow> arriving inp = [] \<and> \<not> ends_cleanly inp" for n
    using assms(2) by (cases "(n, inp)" rule: read_some.cases) auto
  moreover have "limit = None \<or> (\<exists>l. limit = Some l \<and> l \<noteq> 0)" "\<exists>n. read_some n inp = (g, inp')"
    using assms by (auto simp: read_limited_def split: option.splits if_splits)
  ultimately show "arriving inp = []" "\<not> ends_cleanly inp" "\<not> used_up limit []"
    by (auto simp: used_up_def unat_eq_0 split: option.splits)
qed

lemma unat_minus_of_nat:
  assumes "n \<le> unat (l :: u64)"
  shows "unat (l - of_nat n) = unat l - n"
proof -
  have "unat (of_nat n :: u64) = n" using le_unat_uoi [OF assms] .
  then show ?thesis using assms by (simp add: unat_sub word_le_nat_alt)
qed

lemma lower_limit_within:
  assumes "within limit c"
  shows "within (lower_limit limit c) bs \<longleftrightarrow> within limit (c @ bs)"
    and "used_up (lower_limit limit c) bs \<longleftrightarrow> used_up limit (c @ bs)"
  using assms by (auto simp: within_def used_up_def lower_limit_def unat_minus_of_nat split: option.splits)

text \<open>
  The contract of what is written to: nothing written changes nothing, and writes in sequence
  are one write. The loop then writes a prefix of what arrives, within its limit, and returns
  the number of bytes only at the limit or at the end of the stream.
\<close>

locale sink =
  fixes put :: "string \<Rightarrow> 'w \<Rightarrow> 'w"
  assumes put_Nil: "put [] w = w"
    and put_append: "put b (put a w) = put (a @ b) w"
begin

lemma write_all_cases:
  assumes "write_all put c ws w = (out, ws', w')"
  obtains k where "w' = put (take k c) w" and "out = WrOk \<Longrightarrow> w' = put c w"
  using assms by (auto simp: write_all_def split: list.splits wr.splits)
    (metis take_all order_refl)+

definition moved :: "u64 option \<Rightarrow> u64 \<Rightarrow> rd list \<Rightarrow> 'w \<Rightarrow> u64 res \<Rightarrow> 'w \<Rightarrow> bool" where
  "moved limit copied inp w r w' \<longleftrightarrow>
     (\<exists>bs rest. arriving inp = bs @ rest \<and> w' = put bs w \<and> within limit bs
        \<and> (\<forall>m. r = Inr m \<longrightarrow> m = copied + of_nat (length bs) \<and> (used_up limit bs \<or> rest = [] \<and> ends_cleanly inp)))"

lemma moved_stop: "moved limit copied inp w (Inl e) w"
  unfolding moved_def
  by (intro exI [of _ "[]"] exI [of _ "arriving inp"]) (auto simp: put_Nil within_def split: option.splits)

lemma moved_part:
  assumes "arriving inp = c @ rest" and "within limit c"
  shows "moved limit copied inp w (Inl e) (put (take k c) w)"
  unfolding moved_def
proof (intro exI conjI)
  show "arriving inp = take k c @ drop k c @ rest" by (simp add: assms(1))
  show "within limit (take k c)" using assms(2) by (auto simp: within_def split: option.splits)
qed auto

lemma moved_step:
  assumes "moved (lower_limit limit c) (copied + of_nat (length c)) inp' (put c w) r w'"
    and c: "arriving inp = c @ arriving inp'" "ends_cleanly inp = ends_cleanly inp'" "within limit c"
  shows "moved limit copied inp w r w'"
proof -
  from assms(1) obtain bs rest where "arriving inp' = bs @ rest" "w' = put (c @ bs) w" "within limit (c @ bs)"
    "\<forall>m. r = Inr m \<longrightarrow> m = copied + of_nat (length (c @ bs)) \<and> (used_up limit (c @ bs) \<or> rest = [] \<and> ends_cleanly inp')"
    unfolding moved_def by (auto simp: put_append lower_limit_within [OF c(3)] add.assoc)
  with c show ?thesis unfolding moved_def by (intro exI [of _ "c @ bs"] exI [of _ rest]) simp
qed

lemma moved_end:
  assumes "used_up limit [] \<or> arriving inp = [] \<and> ends_cleanly inp"
  shows "moved limit copied inp w (Inr copied) w"
  unfolding moved_def using assms
  by (intro exI [of _ "[]"] exI [of _ "arriving inp"]) (auto simp: put_Nil within_def split: option.splits)

lemma copy_loop_moved:
  "copy_loop operation deadline clk put n limit copied inp ws w = (r, ws', w') \<Longrightarrow> moved limit copied inp w r w'"
proof (induction inp arbitrary: n limit copied ws w rule: measure_induct_rule [of "\<lambda>inp. sum_list (map rd_weight inp)"])
  case (less inp)
  obtain g inp' where read: "read_limited limit inp = (g, inp')" by (cases "read_limited limit inp")
  note step = less.prems [unfolded copy_loop.simps [of operation deadline clk put n limit copied inp] read]
  show ?case
  proof (cases "(\<exists>c. g = Got c \<and> c \<noteq> []) \<and> \<not> deadline \<le> clk n \<and> \<not> deadline \<le> clk (n + 1)")
    case False
    with step read_limited_Got(3) [of limit inp _ inp'] read show ?thesis
      by (auto split: if_splits got.splits intro: moved_stop moved_end)
  next
    case True
    then obtain c where c: "g = Got c" "c \<noteq> []" by blast
    note got = read_limited_Got [OF read [unfolded c]]
    obtain out ws1 w1 where wr: "write_all put c ws w = (out, ws1, w1)" by (cases "write_all put c ws w")
    obtain k where k: "w1 = put (take k c) w" "out = WrOk \<longrightarrow> w1 = put c w"
      by (rule write_all_cases [OF wr]) blast
    show ?thesis
    proof (cases out)
      case WrOk
      then have "copy_loop operation deadline clk put (n + 2) (lower_limit limit c) (copied + of_nat (length c)) inp' ws1 w1
          = (r, ws', w')"
        using step True c wr by simp
      then have "moved (lower_limit limit c) (copied + of_nat (length c)) inp' w1 r w'"
        by (rule less.IH [rotated]) (rule read_limited_decreases [OF read [unfolded c(1)] c(2)])
      then show ?thesis using moved_step k(2) WrOk got c(2) by metis
    qed (use step True c wr k got moved_part in \<open>auto\<close>)
  qed
qed

end

text \<open>
  Whether the loop gets there: with time left at every reading, writes that succeed, and a
  stream that ends or delivers as many bytes as the limit asks for, it returns.
\<close>

definition enough :: "u64 option \<Rightarrow> rd list \<Rightarrow> bool" where
  "enough limit inp \<longleftrightarrow> ends_cleanly inp \<or> (case limit of None \<Rightarrow> False | Some l \<Rightarrow> unat l \<le> length (arriving inp))"

lemma enough_step:
  assumes "enough limit inp" and c: "arriving inp = c @ arriving inp'" "ends_cleanly inp = ends_cleanly inp'" "within limit c"
  shows "enough (lower_limit limit c) inp'"
  using assms by (auto simp: enough_def lower_limit_def within_def unat_minus_of_nat split: option.splits)

lemma enough_reads:
  assumes "enough limit inp"
  shows "\<exists>c inp'. read_limited limit inp = (Got c, inp')"
proof (cases "read_limited limit inp")
  case (Pair g inp')
  show ?thesis
  proof (cases g)
    case (Got c)
    with Pair show ?thesis by blast
  qed (use Pair assms read_limited_stuck [OF Pair] in \<open>auto simp: enough_def used_up_def split: option.splits\<close>)
qed

abbreviation all_ok :: "wr list \<Rightarrow> bool" where
  "all_ok ws \<equiv> list_all (\<lambda>out. out = WrOk) ws"

lemma write_all_ok: "all_ok ws \<Longrightarrow> \<exists>ws'. write_all put c ws w = (WrOk, ws', put c w) \<and> all_ok ws'"
  by (auto simp: write_all_def split: list.splits wr.splits)

lemma copy_loop_completes:
  assumes "\<And>i. clk i < deadline"
  shows "all_ok ws \<Longrightarrow> enough limit inp \<Longrightarrow>
    \<exists>m ws' w'. copy_loop operation deadline clk put n limit copied inp ws w = (Inr m, ws', w') \<and> all_ok ws'"
proof (induction inp arbitrary: n limit copied ws w rule: measure_induct_rule [of "\<lambda>inp. sum_list (map rd_weight inp)"])
  case (less inp)
  have time: "\<not> deadline \<le> clk i" for i using assms [of i] by simp
  obtain c inp' where read: "read_limited limit inp = (Got c, inp')" using enough_reads [OF less.prems(2)] by blast
  show ?case
  proof (cases "c = []")
    case True
    with less.prems(1) show ?thesis by (simp add: copy_loop.simps [of _ _ _ _ _ _ _ inp] read time)
  next
    case False
    obtain ws1 where ws1: "write_all put c ws w = (WrOk, ws1, put c w)" "all_ok ws1"
      using write_all_ok [OF less.prems(1), of put c w] by blast
    have "enough (lower_limit limit c) inp'"
      using enough_step [OF less.prems(2)] read_limited_Got [OF read] False by blast
    then show ?thesis
      using less.IH [OF read_limited_decreases [OF read False] ws1(2)]
      by (simp add: copy_loop.simps [of _ _ _ _ _ _ _ inp] read time False ws1)
  qed
qed

section \<open>Files as sinks\<close>

lemma files_fs_append:
  "files (fs_append p c d) q = (if q = p then map_option (\<lambda>f. f\<lparr>contents := contents f @ c\<rparr>) (files d p) else files d q)"
  by (auto simp: fs_append_def split: option.splits)

lemma script_fs_append [simp]: "script (fs_append p c d) = script d"
  by (auto simp: fs_append_def split: option.splits)

lemma fs_append_Nil: "fs_append p [] d = d"
  by (cases "files d p") (simp_all add: fs_append_def map_upd_triv)

lemma fs_append_append: "fs_append p b (fs_append p a d) = fs_append p (a @ b) d"
  by (cases "files d p") (simp_all add: fs_append_def)

interpretation file_sink: sink "fs_append p" for p
  by unfold_locales (rule fs_append_Nil, rule fs_append_append)

interpretation stream_sink: sink "\<lambda>b sent. sent @ b"
  by unfold_locales simp_all

text \<open>Without failures pending, disk calls keep it that way.\<close>

definition quiet :: "(disk, 'a) op \<Rightarrow> bool" where
  "quiet m \<longleftrightarrow> (\<forall>d. script d = [] \<longrightarrow> script (snd (m d)) = [])"

lemma next_outcome_quiet [simp]: "script d = [] \<Longrightarrow> next_outcome d = (Done, d)"
  by (simp add: next_outcome_def)

lemma quietD: "quiet m \<Longrightarrow> m d = (r, d') \<Longrightarrow> script d = [] \<Longrightarrow> script d' = []"
  unfolding quiet_def by (metis snd_conv)

lemma quiet_bind: "quiet m \<Longrightarrow> (\<And>a. quiet (g a)) \<Longrightarrow> quiet (sbind m g)"
  unfolding quiet_def sbind_def by (auto split: prod.splits sum.splits)

lemma quiet_basic [simp]:
  "quiet (slift r)" "quiet (sreturn a)" "quiet (sfail e)" "quiet (fs_read e p)"
  by (auto simp: quiet_def slift_def sreturn_def sfail_def fs_read_def split: option.splits)

lemma quiet_if: "(\<And>d. P d \<Longrightarrow> quiet m) \<Longrightarrow> (\<And>d. \<not> P d \<Longrightarrow> quiet m') \<Longrightarrow> quiet (\<lambda>d. if P d then m d else m' d)"
  by (auto simp: quiet_def)

lemma quiet_done: "quiet (\<lambda>d. (r, d))"
  by (simp add: quiet_def)

lemma quiet_load_own_identity: "quiet (load_own_identity R cm)"
  by (auto simp: load_own_identity_def load_own_certificate_def split: prod.splits if_splits intro!: quiet_bind)

lemma quiet_verify_peer_fingerprint: "quiet (verify_peer_fingerprint E cm did c)"
  by (auto simp: verify_peer_fingerprint_def load_peer_fingerprint_def fs_read_to_string_def
      intro!: quiet_bind quiet_if quiet_done)

lemma quiet_verify_server_cert: "quiet (verify_server_cert E cm did c)"
proof -
  have "verify_server_cert E cm did c = (\<lambda>d. if has_peer_fingerprint E cm did d then verify_peer_fingerprint E cm did c d else (Inr (), d))"
    by (simp add: verify_server_cert_def fun_eq_iff)
  then show ?thesis by (simp add: quiet_if quiet_done quiet_verify_peer_fingerprint)
qed

lemma quiet_relabel: "quiet m \<Longrightarrow> quiet (\<lambda>d. case m d of (Inl e, d') \<Rightarrow> (f e, d') | (Inr a, d') \<Rightarrow> (g a, d'))"
  by (auto simp: quiet_def split: prod.splits sum.splits)

lemma quiet_tls_connect: "quiet (tls_connect E R cm did peer)"
  unfolding tls_connect_def
  by (intro quiet_bind quiet_if)
     (auto split: prod.splits tls_peer.splits list.splits intro!: quiet_bind quiet_done quiet_load_own_identity
        quiet_relabel quiet_verify_server_cert)

lemma quiet_connect_receiver: "quiet (connect_receiver E R T net info)"
  unfolding connect_receiver_def by (auto intro!: quiet_bind quiet_tls_connect split: dial.splits)

lemma connect_receiver_files:
  assumes "connect_receiver E R T net info d = (r, d')"
  shows "files d' = files d"
  using assms
  by (auto simp: connect_receiver_def sbind_def slift_def sfail_def sreturn_def split: sum.splits prod.splits dial.splits
      dest: tls_connect_files)

lemma discard_files:
  "q \<noteq> p \<Longrightarrow> files (discard p d) q = files d q"
  "files (discard p d) p = None \<or> files (discard p d) p = files d p"
  "script d = [] \<Longrightarrow> files (discard p d) p = None"
proof -
  obtain r d' where rm: "fs_remove (io_error ''remove'' None) p d = (r, d')" by fastforce
  then have d': "discard p d = d'" by (simp add: discard_def)
  show "q \<noteq> p \<Longrightarrow> files (discard p d) q = files d q" using fs_remove_other [OF rm] d' by simp
  show "files (discard p d) p = None \<or> files (discard p d) p = files d p" using fs_remove_le [OF rm] d' by blast
  show "files (discard p d) p = None" if "script d = []"
    using rm that unfolding d' by (auto simp: fs_remove_def path_exists_def split: if_splits)
qed

section \<open>Creating destinations\<close>

lemma fs_create_new_cases:
  assumes "fs_create_new p d = (c, d')"
  shows "c = Created \<Longrightarrow> files d p = None \<and> files d' = (files d)(p \<mapsto> \<lparr>contents = [], fmode = create_mode d\<rparr>)"
    and "c \<noteq> Created \<Longrightarrow> files d' = files d"
    and "script d = [] \<Longrightarrow> script d' = [] \<and> c = (if files d p = None then Created else AlreadyThere)"
  using assms by (auto simp: fs_create_new_def path_exists_def put_file_def mode_for_def
      split: prod.splits outcome.splits if_splits)

lemma try_copies_cases:
  assumes "try_copies p copies d = (r, d')"
  shows "\<And>e. r = Inl e \<Longrightarrow> files d' = files d"
    and "\<And>dest. r = Inr dest \<Longrightarrow> dest \<in> collision_candidate p ` set copies \<and> files d dest = None
      \<and> files d' = (files d)(dest \<mapsto> \<lparr>contents = [], fmode = create_mode d\<rparr>)"
    and "script d = [] \<Longrightarrow> script d' = []"
proof -
  have "(\<forall>e. r = Inl e \<longrightarrow> files d' = files d)
    \<and> (\<forall>dest. r = Inr dest \<longrightarrow> dest \<in> collision_candidate p ` set copies \<and> files d dest = None
      \<and> files d' = (files d)(dest \<mapsto> \<lparr>contents = [], fmode = create_mode d\<rparr>))
    \<and> (script d = [] \<longrightarrow> script d' = [])"
    using assms
  proof (induction copies arbitrary: d)
    case (Cons copy copies)
    let ?q = "collision_candidate p copy"
    obtain c d1 where c: "fs_create_new ?q d = (c, d1)" by fastforce
    have mode: "create_mode d1 = create_mode d" if "c = AlreadyThere"
      using c that by (auto simp: fs_create_new_def split: prod.splits outcome.splits if_splits)
    show ?case
    proof (cases c)
      case AlreadyThere
      with Cons.prems c have "try_copies p copies d1 = (r, d')" by simp
      from Cons.IH [OF this] fs_create_new_cases(2,3) [OF c] mode [OF AlreadyThere] AlreadyThere show ?thesis by auto
    qed (use Cons.prems c fs_create_new_cases [OF c] in auto)
  qed auto
  then show "\<And>e. r = Inl e \<Longrightarrow> files d' = files d"
    and "\<And>dest. r = Inr dest \<Longrightarrow> dest \<in> collision_candidate p ` set copies \<and> files d dest = None
      \<and> files d' = (files d)(dest \<mapsto> \<lparr>contents = [], fmode = create_mode d\<rparr>)"
    and "script d = [] \<Longrightarrow> script d' = []" by auto
qed

lemma try_copies_finds:
  assumes "script d = []" and "copy \<in> set copies" and "files d (collision_candidate p copy) = None"
  shows "\<exists>dest d'. try_copies p copies d = (Inr dest, d')"
  using assms
proof (induction copies)
  case (Cons x xs)
  obtain c d1 where c: "fs_create_new (collision_candidate p x) d = (c, d1)" by fastforce
  show ?case
  proof (cases "files d (collision_candidate p x) = None")
    case False
    then have "c = AlreadyThere" "d1 = d"
      using c Cons.prems(1) by (auto simp: fs_create_new_def path_exists_def split: if_splits)
    with False Cons c show ?thesis by auto
  qed (use fs_create_new_cases(3) [OF c Cons.prems(1)] c in simp)
qed simp

subsection \<open>Candidates are different\<close>

lemma file_stem_extension:
  "file_extension n = Some e \<Longrightarrow> n = file_stem n @ ''.'' @ e"
  "file_extension n = None \<Longrightarrow> file_stem n = n"
proof -
  let ?r = "dropWhile (\<lambda>c. c \<noteq> CHR ''.'') (rev n)" and ?t = "takeWhile (\<lambda>c. c \<noteq> CHR ''.'') (rev n)"
  have n: "rev n = ?t @ ?r" by simp
  have dot: "hd ?r = CHR ''.''" if "?r \<noteq> []" using hd_dropWhile [OF that] by simp
  show "n = file_stem n @ ''.'' @ e" if "file_extension n = Some e"
  proof -
    have r: "?r \<noteq> []" "tl ?r \<noteq> []" "e = rev ?t" using that by (auto simp: file_extension_def Let_def split: if_splits)
    then have "rev n = ?t @ CHR ''.'' # tl ?r" using n dot [OF r(1)] by (metis list.collapse)
    then have "n = rev (tl ?r) @ CHR ''.'' # rev ?t" by (metis rev.simps(2) rev_append rev_rev_ident append.assoc append_Cons append_Nil)
    with r show ?thesis by (simp add: file_stem_def)
  qed
  show "file_stem n = n" if "file_extension n = None"
    using that by (auto simp: file_extension_def file_stem_def Let_def split: if_splits)
qed

lemma is_digit_ascii: "is_digit 10 c \<Longrightarrow> of_char c < (128 :: nat) \<and> c \<noteq> CHR ''.''"
  by (auto simp: is_digit_def radix_val_def Let_def split: if_splits)

lemma shared_file_copy:
  shows "valid_utf8 (''shared_file ('' @ show_nat m @ '')'')" and "CHR ''.'' \<notin> set (''shared_file ('' @ show_nat m @ '')'')"
proof -
  have digits: "\<forall>c \<in> set (show_nat m). is_digit 10 c" using show_nat_digits [of m] by (simp add: list_all_iff)
  then show "valid_utf8 (''shared_file ('' @ show_nat m @ '')'')"
    by (intro valid_utf8_ascii) (auto simp: ascii_string_def list_all_iff bytes_of_def dest: is_digit_ascii)
  show "CHR ''.'' \<notin> set (''shared_file ('' @ show_nat m @ '')'')"
    using digits by (auto dest: is_digit_ascii)
qed

lemma copy_name_differs:
  assumes "0 < m"
  shows "snd (collision_candidate p m) \<noteq> snd p"
proof
  assume eq: "snd (collision_candidate p m) = snd p"
  let ?n = "snd p" and ?c = "'' ('' @ show_nat m @ '')''"
  let ?stem = "if valid_utf8 (file_stem ?n) then file_stem ?n else ''shared_file''"
  show False
  proof (cases "file_extension ?n")
    case None
    then have "?stem @ ?c = ?n" "file_stem ?n = ?n"
      using eq assms file_stem_extension(2) [OF None] by (simp_all add: collision_candidate_def Let_def)
    then show False using shared_file_copy(1) [of m] by (auto split: if_splits)
  next
    case (Some e)
    note n = file_stem_extension(1) [OF Some]
    show False
    proof (cases "valid_utf8 e")
      case True
      then have "?stem @ ?c @ ''.'' @ e = file_stem ?n @ ''.'' @ e"
        using eq assms Some n by (simp add: collision_candidate_def Let_def)
      then have "?stem @ ?c = file_stem ?n" by (metis append.assoc append_same_eq)
      then show False using shared_file_copy(1) [of m] by (auto split: if_splits)
    next
      case False
      then have "?stem @ ?c = file_stem ?n @ ''.'' @ e"
        using eq assms Some n by (simp add: collision_candidate_def Let_def)
      then have "''shared_file'' @ ?c = file_stem ?n @ ''.'' @ e" by (auto split: if_splits)
      then have "CHR ''.'' \<in> set (''shared_file'' @ ?c)" by (metis in_set_conv_decomp append_Cons append_Nil)
      then show False using shared_file_copy(2) [of m] by simp
    qed
  qed
qed

lemma collision_candidate_inj: "inj (collision_candidate p)"
proof (rule injI)
  fix a b
  assume eq: "collision_candidate p a = collision_candidate p b"
  show "a = b"
  proof (cases "a = 0 \<or> b = 0")
    case True
    moreover have "collision_candidate p 0 = p" by (simp add: collision_candidate_def)
    ultimately show ?thesis using eq copy_name_differs [of a p] copy_name_differs [of b p] by (metis gr0I)
  next
    case False
    then have "show_nat a = show_nat b"
      using eq by (auto simp: collision_candidate_def Let_def split: option.splits)
    then show ?thesis by (rule show_nat_inj)
  qed
qed

text \<open>With fewer files than copies one of the copies is free.\<close>

lemma free_candidate:
  assumes "finite (dom m)" and "card (dom m) < n"
  shows "\<exists>copy < n. m (collision_candidate p copy) = None"
proof (rule ccontr)
  assume "\<not> ?thesis"
  then have "collision_candidate p ` {..<n} \<subseteq> dom m" by auto
  then have "card (collision_candidate p ` {..<n}) \<le> card (dom m)" by (rule card_mono [OF assms(1)])
  moreover have "card (collision_candidate p ` {..<n}) = n"
    by (simp add: card_image inj_on_subset [OF collision_candidate_inj])
  ultimately show False using assms(2) by simp
qed

section \<open>What a receiver stores\<close>

text \<open>The receive step proper, for a fresh destination: on success the file holds what the
  transfer accepts, on failure it is gone, and no other file is touched.\<close>

definition empty_file :: "mode \<Rightarrow> fentry" where
  "empty_file m = \<lparr>contents = [], fmode = m\<rparr>"

lemma copy_to_file:
  assumes "copy_with_idle_timeout operation clk lim (fs_append dest) limit inp ws d = (r, ws', d')"
  obtains bs rest where "arriving inp = bs @ rest" "d' = fs_append dest bs d" "within limit bs"
    "\<And>n. r = Inr n \<Longrightarrow> n = of_nat (length bs) \<and> (used_up limit bs \<or> rest = [] \<and> ends_cleanly inp)"
  using file_sink.copy_loop_moved [OF assms [unfolded copy_with_idle_timeout_def]]
  unfolding file_sink.moved_def by auto

lemma finish_receive_cases:
  assumes "finish_receive dest n ws d = (r, d')"
  shows "(\<exists>e. r = Inl e) \<and> d' = discard dest d \<or> r = Inr n \<and> d' = d"
  using assms by (auto simp: finish_receive_def split: if_splits)

lemma connect_receiver_Inr:
  assumes "connect_receiver E R T net info d = (Inr k, d')"
  obtains a ip cert where "pti_ip info = Some a" "parse_ip a = Some ip" "net (SockAddr ip (pti_port info)) = DialOk k"
    "tls_connect E R (pt_cert_manager T) (pt_device_id T) (so_tls k) d = (Inr cert, d')"
proof -
  from assms obtain a ip where a: "pti_ip info = Some a" "parse_ip a = Some ip"
    and step: "(case net (SockAddr ip (pti_port info)) of
       DialTimeout \<Rightarrow> sfail (ConnectionTimeout ''Timed out connecting to payload transfer'')
     | DialErr \<Rightarrow> sfail (ConnectionError ''Failed to connect to payload transfer'')
     | DialOk k \<Rightarrow> sbind (tls_connect E R (pt_cert_manager T) (pt_device_id T) (so_tls k)) (\<lambda>_. sreturn k)) d = (Inr k, d')"
    by (auto simp: connect_receiver_def result_simps)
  then show thesis using that [OF a] by (cases "net (SockAddr ip (pti_port info))") (auto simp: result_simps)
qed

text \<open>What each way of receiving accepts from a connection, the number it returns and the
  contents it stores.\<close>

definition accepts_exactly :: "u64 \<Rightarrow> rd list \<Rightarrow> u64 \<Rightarrow> string \<Rightarrow> bool" where
  "accepts_exactly sz inp n bs \<longleftrightarrow>
     n = sz \<and> unat sz \<le> length (arriving inp) \<and> bs = take (unat sz) (arriving inp)"

definition accepts_up_to :: "u64 \<Rightarrow> rd list \<Rightarrow> u64 \<Rightarrow> string \<Rightarrow> bool" where
  "accepts_up_to max_bytes inp n bs \<longleftrightarrow>
     unat n = length bs \<and> n \<le> max_bytes
     \<and> (if max_bytes = - 1 then bs = take (length bs) (arriving inp) else bs = arriving inp \<and> ends_cleanly inp)"

locale receiver =
  fixes recv :: "rd list \<Rightarrow> path \<Rightarrow> (disk, u64) op"
    and accepts :: "rd list \<Rightarrow> u64 \<Rightarrow> string \<Rightarrow> bool"
  assumes recv_other: "recv inp dest d = (r, d') \<Longrightarrow> q \<noteq> dest \<Longrightarrow> files d' q = files d q"
    and recv_ok: "recv inp dest d = (Inr n, d') \<Longrightarrow> files d dest = Some (empty_file m)
      \<Longrightarrow> \<exists>bs. accepts inp n bs \<and> files d' dest = Some \<lparr>contents = bs, fmode = m\<rparr>"
    and recv_fail: "recv inp dest d = (Inl e, d') \<Longrightarrow> files d' dest = None \<or> script d \<noteq> []"
begin

text \<open>The whole transfer to a fresh destination, as both user-facing operations run it.\<close>

definition receive_unique ::
    "externals \<Rightarrow> rustls \<Rightarrow> payload_transfer \<Rightarrow> (sock_addr \<Rightarrow> dial) \<Rightarrow> payload_transfer_info \<Rightarrow> path \<Rightarrow> (disk, u64 \<times> path) op" where
  "receive_unique E R T net info desired =
     sbind (create_unique_destination desired) (\<lambda>dest.
     sbind (connect_or_discard E R T net info dest) (\<lambda>k.
     sbind (recv (so_secure k) dest) (\<lambda>bytes. sreturn (bytes, dest))))"

lemma receive_unique_stages:
  assumes "receive_unique E R T net info desired d = (r, d')"
  obtains (not_created) e where "r = Inl e" "files d' = files d"
  | (not_connected) e dest d1 d2 where "r = Inl e" "create_unique_destination desired d = (Inr dest, d1)"
      "connect_receiver E R T net info d1 = (Inl e, d2)" "d' = discard dest d2"
  | (not_received) e dest k d1 d2 where "r = Inl e" "create_unique_destination desired d = (Inr dest, d1)"
      "connect_receiver E R T net info d1 = (Inr k, d2)" "recv (so_secure k) dest d2 = (Inl e, d')"
  | (received) n dest k d1 d2 where "r = Inr (n, dest)" "create_unique_destination desired d = (Inr dest, d1)"
      "connect_receiver E R T net info d1 = (Inr k, d2)" "recv (so_secure k) dest d2 = (Inr n, d')"
proof -
  obtain c d1 where c: "create_unique_destination desired d = (c, d1)" by fastforce
  show thesis
  proof (cases c)
    case (Inl e)
    have "r = Inl e" "d' = d1" using assms c Inl by (simp_all add: receive_unique_def sbind_def)
    then show thesis using not_created try_copies_cases(1) [OF c [unfolded create_unique_destination_def] Inl] by blast
  next
    case (Inr dest)
    obtain k d2 where k: "connect_receiver E R T net info d1 = (k, d2)" by fastforce
    show thesis
    proof (cases k)
      case (Inl e)
      then show thesis using not_connected [OF _ c [unfolded Inr] k [unfolded Inl]] assms c Inr k
        by (simp add: receive_unique_def sbind_def connect_or_discard_def)
    next
      case (Inr s)
      obtain x d3 where x: "recv (so_secure s) dest d2 = (x, d3)" by fastforce
      have "sbind (recv (so_secure s) dest) (\<lambda>bytes. sreturn (bytes, dest)) d2 = (r, d')"
        using assms c \<open>c = Inr dest\<close> k Inr by (simp add: receive_unique_def sbind_def connect_or_discard_def)
      then show thesis using x not_received [OF _ c [unfolded \<open>c = Inr dest\<close>] k [unfolded Inr]]
          received [OF _ c [unfolded \<open>c = Inr dest\<close>] k [unfolded Inr]]
        by (cases x) (auto simp: sbind_def sreturn_def)
    qed
  qed
qed

lemma receive_unique_ok:
  assumes "receive_unique E R T net info desired d = (Inr (n, dest), d')"
  shows "files d dest = None" and "dest \<in> collision_candidate desired ` {..<MAX_COPIES}"
    and "\<exists>k a ip bs. pti_ip info = Some a \<and> parse_ip a = Some ip \<and> net (SockAddr ip (pti_port info)) = DialOk k
      \<and> accepts (so_secure k) n bs \<and> files d' = (files d)(dest \<mapsto> \<lparr>contents = bs, fmode = create_mode d\<rparr>)"
  using assms
proof (induction rule: receive_unique_stages [consumes 1])
  case (received m dest' k d1 d2)
  then have "dest' = dest" "m = n" by simp_all
  note st = received [unfolded \<open>dest' = dest\<close> \<open>m = n\<close>]
  note created = try_copies_cases(2) [OF st(2) [unfolded create_unique_destination_def] refl]
  show "files d dest = None" using created by blast
  show "dest \<in> collision_candidate desired ` {..<MAX_COPIES}" using created by (auto simp: atLeast0LessThan)
  have d2: "files d2 = (files d)(dest \<mapsto> empty_file (create_mode d))"
    using created connect_receiver_files [OF st(3)] by (simp add: empty_file_def)
  obtain bs where bs: "accepts (so_secure k) n bs" "files d' dest = Some \<lparr>contents = bs, fmode = create_mode d\<rparr>"
    using recv_ok [OF st(4)] d2 by force
  have "files d' = (files d)(dest \<mapsto> \<lparr>contents = bs, fmode = create_mode d\<rparr>)"
    using recv_other [OF st(4)] d2 bs(2) by (intro ext) auto
  moreover obtain a ip where "pti_ip info = Some a" "parse_ip a = Some ip" "net (SockAddr ip (pti_port info)) = DialOk k"
    by (rule connect_receiver_Inr [OF st(3)])
  ultimately show "\<exists>k a ip bs. pti_ip info = Some a \<and> parse_ip a = Some ip \<and> net (SockAddr ip (pti_port info)) = DialOk k
      \<and> accepts (so_secure k) n bs \<and> files d' = (files d)(dest \<mapsto> \<lparr>contents = bs, fmode = create_mode d\<rparr>)"
    using bs(1) by blast
qed simp_all

lemma receive_unique_fail:
  assumes "receive_unique E R T net info desired d = (Inl e, d')"
  shows "\<exists>dest. (\<forall>q. q \<noteq> dest \<longrightarrow> files d' q = files d q) \<and> (files d' = files d \<or> files d dest = None \<and> script d \<noteq> [])"
  using assms
proof (cases rule: receive_unique_stages)
  case (not_connected e' dest d1 d2)
  note created = try_copies_cases(2,3) [OF not_connected(2) [unfolded create_unique_destination_def]]
  have d2: "files d2 = (files d)(dest \<mapsto> empty_file (create_mode d))" "files d dest = None"
    using created(1) connect_receiver_files [OF not_connected(3)] by (simp_all add: empty_file_def)
  have "script d = [] \<Longrightarrow> script d2 = []"
    using created(2) quietD [OF quiet_connect_receiver not_connected(3)] by blast
  then have "script d = [] \<Longrightarrow> files d' = files d"
    using discard_files(1) [of _ dest d2] discard_files(3) [of d2 dest] d2 not_connected(4) by (intro ext) (metis fun_upd_apply)
  then show ?thesis using discard_files(1) [of _ dest d2] d2 not_connected(4) by (intro exI [of _ dest]) auto
next
  case (not_received e' dest k d1 d2)
  note created = try_copies_cases(2,3) [OF not_received(2) [unfolded create_unique_destination_def]]
  have d2: "files d2 = (files d)(dest \<mapsto> empty_file (create_mode d))" "files d dest = None"
    using created(1) connect_receiver_files [OF not_received(3)] by (simp_all add: empty_file_def)
  have "script d = [] \<Longrightarrow> script d2 = []"
    using created(2) quietD [OF quiet_connect_receiver not_received(3)] by blast
  then have "script d = [] \<Longrightarrow> files d' = files d"
    using recv_fail [OF not_received(4)] recv_other [OF not_received(4)] d2 by (intro ext) (metis fun_upd_apply)
  then show ?thesis using recv_other [OF not_received(4)] d2 by (intro exI [of _ dest]) auto
qed simp_all

end

subsection \<open>The two receivers\<close>

lemma unat_of_nat_within: "within (Some (l :: u64)) bs \<Longrightarrow> unat (of_nat (length bs) :: u64) = length bs"
  unfolding within_def by (simp add: le_unat_uoi)

lemma receive_into_copy:
  assumes "receive_into clk inp ws sz dest d = (r, d')"
  obtains bs rest where "arriving inp = bs @ rest"
    "(\<exists>e. r = Inl e) \<and> d' = discard dest (fs_append dest bs d)
     \<or> r = Inr sz \<and> length bs = unat sz \<and> d' = fs_append dest bs d"
proof -
  obtain c ws1 d1 where copy: "copy_with_idle_timeout ''receive'' clk (total_deadline_for sz) (fs_append dest) (Some sz) inp ws d
      = (c, ws1, d1)" by (metis prod_cases3)
  obtain bs rest where bs: "arriving inp = bs @ rest" "d1 = fs_append dest bs d" "within (Some sz) bs"
    "\<And>n. c = Inr n \<Longrightarrow> n = of_nat (length bs)"
    by (rule copy_to_file [OF copy]) blast
  show thesis
  proof (cases c)
    case (Inl e)
    then show thesis using assms copy that [OF bs(1)] bs(2) by (auto simp: receive_into_def)
  next
    case (Inr n)
    have n: "unat n = length bs" using bs(4) [OF Inr] unat_of_nat_within [OF bs(3)] by simp
    have sz: "\<not> n < sz \<Longrightarrow> n = sz" using n bs(3) by (simp add: within_def word_less_nat_alt word_unat_eq_iff)
    show thesis
    proof (cases "n < sz")
      case True
      then show thesis using assms copy Inr that [OF bs(1)] bs(2) by (auto simp: receive_into_def)
    next
      case False
      then have "finish_receive dest sz ws1 d1 = (r, d')" using assms copy Inr sz by (simp add: receive_into_def)
      then show thesis using finish_receive_cases that [OF bs(1)] bs(2) n sz [OF False] by metis
    qed
  qed
qed

lemma receive_into_streaming_copy:
  assumes "receive_into_streaming clk inp ws max_bytes dest d = (r, d')"
  obtains bs rest where "arriving inp = bs @ rest"
    "(\<exists>e. r = Inl e) \<and> d' = discard dest (fs_append dest bs d)
     \<or> (\<exists>n. r = Inr n \<and> accepts_up_to max_bytes inp n bs \<and> d' = fs_append dest bs d)"
proof -
  let ?l = "saturating_inc max_bytes"
  obtain c ws1 d1 where copy: "copy_with_idle_timeout ''receive'' clk (total_deadline_for max_bytes) (fs_append dest) (Some ?l) inp ws d
      = (c, ws1, d1)" by (metis prod_cases3)
  obtain bs rest where bs: "arriving inp = bs @ rest" "d1 = fs_append dest bs d" "within (Some ?l) bs"
    "\<And>n. c = Inr n \<Longrightarrow> n = of_nat (length bs) \<and> (used_up (Some ?l) bs \<or> rest = [] \<and> ends_cleanly inp)"
    by (rule copy_to_file [OF copy]) blast
  show thesis
  proof (cases c)
    case (Inl e)
    then show thesis using assms copy that [OF bs(1)] bs(2) by (auto simp: receive_into_streaming_def)
  next
    case (Inr n)
    have n: "unat n = length bs" using bs(4) [OF Inr] unat_of_nat_within [OF bs(3)] by simp
    show thesis
    proof (cases "max_bytes < n")
      case True
      then show thesis using assms copy Inr that [OF bs(1)] bs(2) by (auto simp: receive_into_streaming_def)
    next
      case False
      have "\<not> used_up (Some ?l) bs" if "max_bytes \<noteq> - 1"
      proof -
        have "1 + max_bytes \<noteq> 0" using that by (simp add: eq_neg_iff_add_eq_0 add.commute)
        then have "unat ?l = Suc (unat max_bytes)" using that unatSuc [of max_bytes] by (simp add: saturating_inc_def add.commute)
        then show ?thesis using False n by (simp add: used_up_def word_less_nat_alt)
      qed
      then have acc: "accepts_up_to max_bytes inp n bs"
        using bs(1,4) Inr n False by (auto simp: accepts_up_to_def)
      have "finish_receive dest n ws1 d1 = (r, d')" using assms copy Inr False by (simp add: receive_into_streaming_def)
      then show thesis using finish_receive_cases that [OF bs(1)] bs(2) acc by metis
    qed
  qed
qed

lemma appended_file:
  "files d dest = Some (empty_file m) \<Longrightarrow> files (fs_append dest bs d) dest = Some \<lparr>contents = bs, fmode = m\<rparr>"
  by (simp add: files_fs_append empty_file_def)

lemma files_append_discard:
  "q \<noteq> dest \<Longrightarrow> files (fs_append dest bs d) q = files d q"
  "q \<noteq> dest \<Longrightarrow> files (discard dest (fs_append dest bs d)) q = files d q"
  "script d = [] \<Longrightarrow> files (discard dest (fs_append dest bs d)) dest = None"
  by (simp_all add: files_fs_append discard_files)

interpretation exact: receiver "\<lambda>inp dest. receive_into clk inp ws sz dest" "accepts_exactly sz" for clk ws sz
proof
  fix inp dest d r d' q
  assume "receive_into clk inp ws sz dest d = (r, d')" "q \<noteq> dest"
  then show "files d' q = files d q" by (elim receive_into_copy) (auto simp: files_append_discard)
next
  fix inp dest d n d' m
  assume "receive_into clk inp ws sz dest d = (Inr n, d')" "files d dest = Some (empty_file m)"
  then show "\<exists>bs. accepts_exactly sz inp n bs \<and> files d' dest = Some \<lparr>contents = bs, fmode = m\<rparr>"
    by (elim receive_into_copy) (auto simp: accepts_exactly_def appended_file)
next
  fix inp dest d e d'
  assume "receive_into clk inp ws sz dest d = (Inl e, d')"
  then show "files d' dest = None \<or> script d \<noteq> []" by (elim receive_into_copy) (auto simp: files_append_discard)
qed

interpretation streaming: receiver "\<lambda>inp dest. receive_into_streaming clk inp ws max_bytes dest" "accepts_up_to max_bytes"
  for clk ws max_bytes
proof
  fix inp dest d r d' q
  assume "receive_into_streaming clk inp ws max_bytes dest d = (r, d')" "q \<noteq> dest"
  then show "files d' q = files d q" by (elim receive_into_streaming_copy) (auto simp: files_append_discard)
next
  fix inp dest d n d' m
  assume "receive_into_streaming clk inp ws max_bytes dest d = (Inr n, d')" "files d dest = Some (empty_file m)"
  then show "\<exists>bs. accepts_up_to max_bytes inp n bs \<and> files d' dest = Some \<lparr>contents = bs, fmode = m\<rparr>"
    by (elim receive_into_streaming_copy) (auto simp: appended_file)
next
  fix inp dest d e d'
  assume "receive_into_streaming clk inp ws max_bytes dest d = (Inl e, d')"
  then show "files d' dest = None \<or> script d \<noteq> []" by (elim receive_into_streaming_copy) (auto simp: files_append_discard)
qed

section \<open>Transfers\<close>

lemma receive_file_unique_eq:
  "receive_file_unique E R T net clk ws info sz desired = exact.receive_unique clk ws sz E R T net info desired"
  by (simp add: receive_file_unique_def exact.receive_unique_def)

lemma receive_file_unique_streaming_eq:
  "receive_file_unique_streaming E R T net clk ws info max_bytes desired
     = streaming.receive_unique clk ws max_bytes E R T net info desired"
  by (simp add: receive_file_unique_streaming_def streaming.receive_unique_def)

text \<open>Property C33.
  A download of known size is exact and never overwrites. When \<open>receive_file_unique\<close> succeeds,
  the file it names did not exist before and is the wished name or one of its numbered copies; it
  holds exactly the announced number of bytes, the first ones the connection to the announced
  address delivered, never more; and no other file has changed.\<close>
theorem receive_file_unique_exact:
  assumes "receive_file_unique E R T net clk ws info sz desired d = (Inr (n, dest), d')"
  shows "n = sz \<and> files d dest = None \<and> dest \<in> collision_candidate desired ` {..<MAX_COPIES}
    \<and> (\<exists>a ip k. pti_ip info = Some a \<and> parse_ip a = Some ip \<and> net (SockAddr ip (pti_port info)) = DialOk k
        \<and> unat sz \<le> length (arriving (so_secure k))
        \<and> files d' = (files d)(dest \<mapsto> \<lparr>contents = take (unat sz) (arriving (so_secure k)), fmode = create_mode d\<rparr>))"
  using exact.receive_unique_ok [OF assms [unfolded receive_file_unique_eq]] by (auto simp: accepts_exactly_def)

text \<open>A stream of unknown size is stored whole or not at all, within the cap: on success of
  \<open>receive_file_unique_streaming\<close> the new file has at most \<open>max_bytes\<close> bytes, and (unless the cap
  is the largest 64-bit number, where the probe byte beyond it does not exist) it holds everything
  the peer sent up to its clean end of stream.\<close>
theorem receive_streaming_capped:
  assumes "receive_file_unique_streaming E R T net clk ws info max_bytes desired d = (Inr (n, dest), d')"
  shows "files d dest = None \<and> n \<le> max_bytes
    \<and> (\<exists>a ip k bs. pti_ip info = Some a \<and> parse_ip a = Some ip \<and> net (SockAddr ip (pti_port info)) = DialOk k
        \<and> length bs = unat n \<and> prefix bs (arriving (so_secure k))
        \<and> (max_bytes \<noteq> - 1 \<longrightarrow> bs = arriving (so_secure k) \<and> ends_cleanly (so_secure k))
        \<and> files d' = (files d)(dest \<mapsto> \<lparr>contents = bs, fmode = create_mode d\<rparr>))"
proof -
  note ok = streaming.receive_unique_ok [OF assms [unfolded receive_file_unique_streaming_eq]]
  from ok(3) obtain k a ip bs where k: "pti_ip info = Some a" "parse_ip a = Some ip" "net (SockAddr ip (pti_port info)) = DialOk k"
    "accepts_up_to max_bytes (so_secure k) n bs" "files d' = (files d)(dest \<mapsto> \<lparr>contents = bs, fmode = create_mode d\<rparr>)"
    by blast
  have "prefix bs (arriving (so_secure k))"
    using k(4) by (auto simp: accepts_up_to_def split: if_splits) (metis take_is_prefix)
  with ok(1) k show ?thesis unfolding accepts_up_to_def by (auto split: if_splits)
qed

text \<open>Property C36.
  A failed download leaves nothing behind. Whatever goes wrong in \<open>receive_file_unique\<close> or its
  streaming form (no free name, no connection, a failed handshake, a stall, a short or too long
  payload, a full disk), no existing file is touched; and if the disk itself does not fail, the
  disk's files are those from before.\<close>
theorem receive_failure_undone:
  assumes "receive_file_unique E R T net clk ws info sz desired d = (Inl e, d')
    \<or> receive_file_unique_streaming E R T net clk ws info sz desired d = (Inl e, d')"
  shows "(\<forall>q f. files d q = Some f \<longrightarrow> files d' q = Some f)
    \<and> (\<exists>dest. \<forall>q. q \<noteq> dest \<longrightarrow> files d' q = files d q) \<and> (script d = [] \<longrightarrow> files d' = files d)"
proof -
  have "\<exists>dest. (\<forall>q. q \<noteq> dest \<longrightarrow> files d' q = files d q) \<and> (files d' = files d \<or> files d dest = None \<and> script d \<noteq> [])"
    using assms unfolding receive_file_unique_eq receive_file_unique_streaming_eq
    by (elim disjE) (erule exact.receive_unique_fail, erule streaming.receive_unique_fail)
  then obtain dest where dest: "\<forall>q. q \<noteq> dest \<longrightarrow> files d' q = files d q"
    "files d' = files d \<or> files d dest = None \<and> script d \<noteq> []" by blast
  have "files d' q = Some f" if "files d q = Some f" for q f
    using dest that by (metis option.distinct(1))
  with dest show ?thesis by blast
qed

text \<open>A name is always found: on a disk that works and holds fewer than 10,000 files,
  \<open>create_unique_destination\<close> ends with a new empty file, because the candidates it tries are
  pairwise different; the wished name itself is taken when it is free.\<close>
theorem unique_destination_found:
  assumes "script d = []" and "finite (dom (files d))" and "card (dom (files d)) < MAX_COPIES"
  shows "\<exists>dest d'. create_unique_destination p d = (Inr dest, d') \<and> files d dest = None
    \<and> files d' = (files d)(dest \<mapsto> \<lparr>contents = [], fmode = create_mode d\<rparr>) \<and> (files d p = None \<longrightarrow> dest = p)"
proof -
  obtain copy where "copy < MAX_COPIES" "files d (collision_candidate p copy) = None"
    using free_candidate [OF assms(2,3)] by blast
  then obtain dest d' where created: "create_unique_destination p d = (Inr dest, d')"
    using try_copies_finds [OF assms(1), of copy "[0..<MAX_COPIES]" p] by (auto simp: create_unique_destination_def)
  moreover have "dest = p" if "files d p = None"
  proof -
    have "0 < MAX_COPIES" by (simp add: MAX_COPIES_def)
    then have "[0..<MAX_COPIES] = 0 # [Suc 0..<MAX_COPIES]" by (rule upt_conv_Cons)
    then show ?thesis
      using created that assms(1) by (simp add: create_unique_destination_def collision_candidate_def fs_create_new_def path_exists_def)
  qed
  ultimately show ?thesis
    using try_copies_cases(2) [OF created [unfolded create_unique_destination_def] refl] by (intro exI conjI) auto
qed

subsection \<open>Sending\<close>

lemma file_reads_arrive:
  "prefix (arriving (file_reads reads c)) c" "ends_cleanly (file_reads reads c) \<Longrightarrow> arriving (file_reads reads c) = c"
proof -
  have "prefix (arriving (file_reads reads c)) c \<and> (ends_cleanly (file_reads reads c) \<longrightarrow> arriving (file_reads reads c) = c)"
  proof (induction reads c rule: file_reads.induct)
    case (2 n rs c)
    show ?case
    proof (cases "c = []")
      case False
      let ?rest = "arriving (file_reads rs (drop (Suc n) c))"
      have "arriving (file_reads (ShortRead n # rs) c) = take (Suc n) c @ ?rest" using False by simp
      moreover have "prefix (take (Suc n) c @ ?rest) (take (Suc n) c @ drop (Suc n) c)"
        using 2 [OF False] by (simp only: same_prefix_prefix)
      ultimately show ?thesis using 2 [OF False] False by auto
    qed simp
  qed auto
  then show "prefix (arriving (file_reads reads c)) c" "ends_cleanly (file_reads reads c) \<Longrightarrow> arriving (file_reads reads c) = c"
    by auto
qed

lemma send_tail_sent: "send_tail ws sent = (r, sd) \<Longrightarrow> sd_sent sd = sent"
  by (auto simp: send_tail_def split: list.splits wr.splits)

text \<open>The sender's task sends a beginning of the file, all of it when it succeeds, and only after
  the handshake.\<close>

lemma run_send_job_sent:
  assumes "run_send_job E R T clk j acc reads d = (r, sd, d')"
  obtains (no_bytes) "sd_sent sd = []" "\<And>u. r \<noteq> Inr u"
  | (sent) k cert d1 f where "acc = AcceptOk k"
      "tls_accept E R (pt_cert_manager T) (Some (pt_device_id T)) (so_tls k) d = (Inr cert, d1)"
      "files d (sj_path j) = Some f" "prefix (sd_sent sd) (contents f)" "\<And>u. r = Inr u \<Longrightarrow> sd_sent sd = contents f"
proof (cases acc)
  case (AcceptOk k)
  obtain a d1 where tls: "tls_accept E R (pt_cert_manager T) (Some (pt_device_id T)) (so_tls k) d = (a, d1)" by fastforce
  show thesis
  proof (cases a)
    case (Inl e)
    with assms AcceptOk tls have "sd_sent sd = []" "r = Inl e" by (auto simp: run_send_job_def nothing_sent_def)
    then show thesis using no_bytes by simp
  next
    case (Inr cert)
    obtain x d2 where x: "fs_read (io_error ''Cannot open file for transfer'' None) (sj_path j) d1 = (x, d2)" by fastforce
    show thesis
    proof (cases x)
      case (Inl e)
      with assms AcceptOk tls Inr x have "sd_sent sd = []" "r = Inl e" by (auto simp: run_send_job_def nothing_sent_def)
      then show thesis using no_bytes by simp
    next
      case c: (Inr c)
      obtain f where f: "files d (sj_path j) = Some f" "contents f = c"
        using fs_read_Inr [OF x [unfolded c]] tls_accept_files [OF tls] by auto
      obtain m ws1 snt where copy: "copy_with_idle_timeout ''send'' clk (total_deadline_for (sj_size j)) (\<lambda>b sent. sent @ b) None
          (file_reads reads c) (so_writes k) [] = (m, ws1, snt)" by (metis prod_cases3)
      obtain rest where part: "arriving (file_reads reads c) = snt @ rest"
        "\<And>n. m = Inr n \<Longrightarrow> rest = [] \<and> ends_cleanly (file_reads reads c)"
        using stream_sink.copy_loop_moved [OF copy [unfolded copy_with_idle_timeout_def]]
        unfolding stream_sink.moved_def by (auto simp: used_up_def)
      have sd: "sd_sent sd = snt" "\<And>u. r = Inr u \<Longrightarrow> \<exists>n. m = Inr n"
        using assms AcceptOk tls Inr x c copy
        by (auto simp: run_send_job_def split: sum.splits prod.splits dest: send_tail_sent)
      have "prefix snt c" using part(1) file_reads_arrive(1) [of reads c] by (metis prefix_def append.assoc)
      moreover have "snt = c" if "r = Inr u" for u
        using sd(2) [OF that] part file_reads_arrive(2) [of reads c] by auto
      ultimately show thesis using sent [OF AcceptOk tls [unfolded Inr] f(1)] f(2) sd(1) by blast
    qed
  qed
qed (use assms no_bytes in \<open>auto simp: run_send_job_def nothing_sent_def\<close>)

lemma receive_into_completes:
  assumes "\<And>i. clk i < clk 0 + total_deadline_for sz" and "all_ok ws" and "unat sz \<le> length (arriving inp)"
  shows "\<exists>d'. receive_into clk inp ws sz dest d = (Inr sz, d')"
proof -
  have "enough (Some sz) inp" using assms(3) by (simp add: enough_def)
  then obtain n ws' d' where copy: "copy_loop ''receive'' (clk 0 + total_deadline_for sz) clk (fs_append dest) 1 (Some sz) 0 inp ws d
      = (Inr n, ws', d')" and ok: "all_ok ws'"
    using copy_loop_completes [where limit = "Some sz" and inp = inp and ws = ws and clk = clk
        and operation = "''receive''" and put = "fs_append dest" and n = 1 and copied = 0 and w = d, OF assms(1) assms(2)] by blast
  obtain bs rest where bs: "arriving inp = bs @ rest" "within (Some sz) bs"
    "n = of_nat (length bs)" "used_up (Some sz) bs \<or> rest = []"
    using file_sink.copy_loop_moved [OF copy] unfolding file_sink.moved_def by auto
  have "length bs = unat sz"
    using bs(1,2,4) assms(3) by (auto simp: within_def used_up_def)
  then have "n = sz" using bs(3) unat_of_nat_within [OF bs(2)] by (simp add: word_unat_eq_iff)
  moreover have "flush_ok ws'" using ok by (auto simp: flush_ok_def split: list.splits)
  ultimately show ?thesis
    using copy by (simp add: receive_into_def copy_with_idle_timeout_def finish_receive_def)
qed

text \<open>Property C34.
  A file arrives as it was sent. If the sender's task ends well and the network delivers the bytes
  it sent, in whatever pieces, to a receiver that was told the size, is connected, has time and a
  working disk, then \<open>receive_file_unique\<close> succeeds and the new file has the contents of the
  sender's file.\<close>
theorem payload_roundtrip:
  assumes "run_send_job E R T clk j acc reads d = (Inr (), sd, d0)"
    and "files d (sj_path j) = Some f" and "unat (sj_size j) = length (contents f)"
    and "create_unique_destination desired d1 = (Inr dest, d2)"
    and "connect_receiver E' R' T' net info d2 = (Inr k, d3)"
    and "arriving (so_secure k) = sd_sent sd"
    and "\<And>i. clk' i < clk' 0 + total_deadline_for (sj_size j)" and "all_ok ws"
  shows "\<exists>d4. receive_file_unique E' R' T' net clk' ws info (sj_size j) desired d1 = (Inr (sj_size j, dest), d4)
    \<and> map_option contents (files d4 dest) = Some (contents f)"
proof -
  have sent: "sd_sent sd = contents f"
    by (rule run_send_job_sent [OF assms(1)]) (use assms(2) in auto)
  obtain d4 where d4: "receive_into clk' (so_secure k) ws (sj_size j) dest d3 = (Inr (sj_size j), d4)"
    using receive_into_completes [where clk = clk' and sz = "sj_size j" and inp = "so_secure k" and dest = dest and d = d3, OF assms(7,8)]
      assms(3,6) sent by auto
  then have "receive_file_unique E' R' T' net clk' ws info (sj_size j) desired d1 = (Inr (sj_size j, dest), d4)"
    using assms(4,5) by (simp add: receive_file_unique_def sbind_def connect_or_discard_def sreturn_def)
  moreover have "files d3 dest = Some (empty_file (create_mode d1))"
    using try_copies_cases(2) [OF assms(4) [unfolded create_unique_destination_def] refl] connect_receiver_files [OF assms(5)]
    by (simp add: empty_file_def)
  from exact.recv_ok [OF d4 this] have "map_option contents (files d4 dest) = Some (contents f)"
    using assms(3,6) sent by (auto simp: accepts_exactly_def)
  ultimately show ?thesis by blast
qed

text \<open>When a handshake is done for a device with a pinned fingerprint, the peer's certificate has it.\<close>

definition presents :: "externals \<Rightarrow> socket \<Rightarrow> string \<Rightarrow> bool" where
  "presents E k fp \<longleftrightarrow> (case so_tls k of TlsCerts (c # cs) \<Rightarrow> compute_fingerprint E c = fp | _ \<Rightarrow> False)"

lemma tls_connect_pinned:
  assumes "tls_connect E R cm did (so_tls k) d = (Inr cert, d')" and "pinned_fp E cm did d = Some fp"
  shows "presents E k fp"
proof -
  from assms(1) obtain d1 where step: "(case so_tls k of
       TlsStall \<Rightarrow> sfail (ConnectionTimeout ''TLS handshake timed out'')
     | TlsFail \<Rightarrow> sfail (TlsError ''TLS handshake failed'')
     | TlsCerts [] \<Rightarrow> sfail (TlsError ''TLS handshake failed'')
     | TlsCerts (c # cs) \<Rightarrow> (\<lambda>d. case verify_server_cert E cm did c d of
           (Inl _, d') \<Rightarrow> (Inl (TlsError ''TLS handshake failed''), d')
         | (Inr _, d') \<Rightarrow> (Inr (first_cert (c # cs)), d'))) d1 = (Inr cert, d')"
    and d1: "files d1 = files d"
    unfolding tls_connect_def
    by (elim sbind_cases) (auto split: if_splits prod.splits elim!: sbind_cases simp: sreturn_def sfail_def dest: load_own_identity_files)
  have "pinned_fp E cm did d1 = Some fp" using assms(2) pinned_fp_cong [OF d1] by simp
  then show ?thesis using step
    by (auto simp: presents_def sfail_def verify_server_cert_eq split: tls_peer.splits list.splits prod.splits sum.splits
        dest: verify_peer_certificate_pin)
qed

lemma tls_accept_pinned:
  assumes "tls_accept E R cm (Some did) (so_tls k) d = (Inr cert, d')" and "pinned_fp E cm did d = Some fp"
  shows "presents E k fp"
proof -
  from assms(1) obtain certs key d1 where load: "load_own_identity R cm d = (Inr (certs, key), d1)"
    by (auto simp: tls_accept_def elim!: sbind_cases)
  have pin: "pinned_fp E cm did d1 = Some fp" using assms(2) pinned_fp_cong [OF load_own_identity_files [OF load]] by simp
  then show ?thesis using assms(1) load
    by (auto simp: tls_accept_def presents_def sbind_def sfail_def verify_client_cert_eq client_auth_mandatory_def has_peer_fingerprint_iff
        split: if_splits tls_peer.splits list.splits prod.splits sum.splits dest: verify_peer_certificate_pin)
qed

lemma pinned_fp_created:
  assumes "files d dest = None" and "files d1 = (files d)(dest \<mapsto> f)" and "pinned_fp E cm did d = Some fp"
  shows "pinned_fp E cm did d1 = Some fp"
proof -
  have "dest \<noteq> (cert_dir cm, did @ ''_fingerprint.txt'')" using assms(1,3) by (auto simp: pinned_fp_def split: if_splits)
  then show ?thesis using assms(2,3) by (auto simp: pinned_fp_def split: if_splits)
qed

text \<open>Property C35.
  Payloads flow only between the paired devices. When a fingerprint is pinned for the device a
  transfer is for, then a download that succeeds came from a peer that presented a certificate with
  this fingerprint, and whenever the sender has sent even one byte the peer that connected to its
  port had presented such a certificate; in particular a client without certificate gets nothing.\<close>
theorem payload_peers_authenticated:
  assumes "pinned_fp E (pt_cert_manager T) (pt_device_id T) d = Some fp"
  shows "(receive_file_unique E R T net clk ws info sz desired d = (Inr (n, dest), d')
        \<longrightarrow> (\<exists>a k. net a = DialOk k \<and> presents E k fp))
    \<and> (run_send_job E R T clk j acc reads d = (r, sd, d'') \<and> sd_sent sd \<noteq> []
        \<longrightarrow> (\<exists>k. acc = AcceptOk k \<and> presents E k fp))"
proof (intro conjI impI)
  assume "receive_file_unique E R T net clk ws info sz desired d = (Inr (n, dest), d')"
  then have "exact.receive_unique clk ws sz E R T net info desired d = (Inr (n, dest), d')" by (simp add: receive_file_unique_eq)
  then show "\<exists>a k. net a = DialOk k \<and> presents E k fp"
  proof (cases rule: exact.receive_unique_stages)
    case (received n' dest' k d1 d2)
    have pin: "pinned_fp E (pt_cert_manager T) (pt_device_id T) d1 = Some fp"
      using try_copies_cases(2) [OF received(2) [unfolded create_unique_destination_def] refl]
      by (blast intro: pinned_fp_created [OF _ _ assms])
    show ?thesis by (rule connect_receiver_Inr [OF received(3)]) (use pin in \<open>blast dest: tls_connect_pinned\<close>)
  qed simp_all
next
  assume "run_send_job E R T clk j acc reads d = (r, sd, d'') \<and> sd_sent sd \<noteq> []"
  then show "\<exists>k. acc = AcceptOk k \<and> presents E k fp"
    by (auto elim!: run_send_job_sent dest: tls_accept_pinned [OF _ assms])
qed

text \<open>The announced port: the first free one of the range, and an error when none is.\<close>

lemma find_free_port_first:
  "find_free_port free = Inr p \<Longrightarrow> TRANSFER_MIN_PORT \<le> unat p \<and> unat p \<le> TRANSFER_MAX_PORT \<and> free p
     \<and> (\<forall>q. TRANSFER_MIN_PORT \<le> unat q \<and> q < p \<longrightarrow> \<not> free q)"
  "find_free_port free = Inl e \<Longrightarrow> TRANSFER_MIN_PORT \<le> unat q \<Longrightarrow> unat q \<le> TRANSFER_MAX_PORT \<Longrightarrow> \<not> free q"
proof -
  let ?ports = "[TRANSFER_MIN_PORT..<Suc TRANSFER_MAX_PORT]"
  have small: "unat (of_nat i :: u16) = i" if "i \<le> TRANSFER_MAX_PORT" for i
    using that by (simp add: TRANSFER_MAX_PORT_def unat_of_nat)
  show "\<not> free q" if "find_free_port free = Inl e" "TRANSFER_MIN_PORT \<le> unat q" "unat q \<le> TRANSFER_MAX_PORT"
  proof -
    have "find free (map of_nat ?ports) = None" using that(1) by (auto simp: find_free_port_def simp del: upt_Suc split: option.splits)
    then have "\<forall>x \<in> set ?ports. \<not> free (of_nat x)" by (auto simp: find_None_iff simp del: upt_Suc)
    moreover have "unat q \<in> set ?ports" using that(2,3) by (simp del: upt_Suc)
    ultimately have "\<not> free (of_nat (unat q))" by blast
    then show ?thesis by simp
  qed
  assume "find_free_port free = Inr p"
  then have "find free (map of_nat ?ports) = Some p" by (auto simp: find_free_port_def simp del: upt_Suc split: option.splits)
  then obtain i where i: "i < length ?ports" "free (of_nat (?ports ! i))" "p = of_nat (?ports ! i)"
    "\<forall>j < i. \<not> free (of_nat (?ports ! j))"
    by (auto simp: find_Some_iff simp del: upt_Suc)
  have nth: "?ports ! j = TRANSFER_MIN_PORT + j" if "j \<le> i" for j using that i(1) by (simp del: upt_Suc)
  have p: "unat p = TRANSFER_MIN_PORT + i" using i(1,3) nth [OF order_refl] small [of "TRANSFER_MIN_PORT + i"] by (simp del: upt_Suc of_nat_add)
  have "\<not> free q" if lo: "TRANSFER_MIN_PORT \<le> unat q" and hi: "q < p" for q
  proof -
    obtain j where j: "unat q = TRANSFER_MIN_PORT + j" using le_Suc_ex [OF lo] by auto
    have "unat q < unat p" using hi by (simp add: word_less_nat_alt)
    with j p have "j < i" by simp
    moreover have "q = of_nat (unat q)" by simp
    ultimately have "q = of_nat (?ports ! j)" using nth [of j] j by (simp del: upt_Suc of_nat_add of_nat_unat)
    then show ?thesis using i(4) \<open>j < i\<close> by blast
  qed
  then show "TRANSFER_MIN_PORT \<le> unat p \<and> unat p \<le> TRANSFER_MAX_PORT \<and> free p
     \<and> (\<forall>q. TRANSFER_MIN_PORT \<le> unat q \<and> q < p \<longrightarrow> \<not> free q)"
    using i p by (auto simp: TRANSFER_MAX_PORT_def TRANSFER_MIN_PORT_def simp del: upt_Suc)
qed

section \<open>Witnesses\<close>

text \<open>A peer at 10.0.0.7 that offers seven bytes in two pieces, and a download directory in which
  the wished name is taken.\<close>

definition offering_peer :: socket where
  "offering_peer = \<lparr>so_peer_addr = None, so_local_addr = None, so_plain = [], so_plain_writes = [],
     so_tls = TlsCerts [demo_id], so_secure = [Chunk ''hel'', Chunk ''lo!!''], so_writes = []\<rparr>"

definition demo_net :: "sock_addr \<Rightarrow> dial" where
  "demo_net a = (if a = SockAddr (V4 10 0 0 7) 1740 then DialOk offering_peer else DialErr)"

definition demo_info :: payload_transfer_info where
  "demo_info = \<lparr>pti_ip = Some ''10.0.0.7'', pti_port = 1740, pti_available_streams = 1, pti_total_streams = 1\<rparr>"

definition demo_transfer :: payload_transfer where
  "demo_transfer = \<lparr>pt_cert_manager = demo_certs, pt_device_id = demo_id\<rparr>"

definition demo_downloads :: disk where
  "demo_downloads = (demo_disk [])\<lparr>files := [(''dl'', ''a.txt'') \<mapsto> \<lparr>contents = ''old'', fmode = 420\<rparr>]\<rparr>"

definition demo_copy :: path where "demo_copy = (''dl'', ''a (1).txt'')"

definition demo_created :: disk where
  "demo_created = put_file demo_copy 420 [] demo_downloads"

lemma demo_address: "parse_ip ''10.0.0.7'' = Some (V4 10 0 0 7)"
  by code_simp

lemma demo_candidate: "collision_candidate (''dl'', ''a.txt'') 1 = demo_copy"
  by code_simp

lemma MAX_COPIES_upt: "[0..<MAX_COPIES] = 0 # 1 # [2..<MAX_COPIES]"
proof -
  have "2 \<le> MAX_COPIES" by (simp add: MAX_COPIES_def)
  then show ?thesis by (simp add: upt_conv_Cons numeral_2_eq_2)
qed

lemma demo_create: "create_unique_destination (''dl'', ''a.txt'') demo_downloads = (Inr demo_copy, demo_created)"
proof -
  have "fs_create_new (''dl'', ''a.txt'') demo_downloads = (AlreadyThere, demo_downloads)"
    by (simp add: fs_create_new_def path_exists_def demo_downloads_def demo_disk_def)
  moreover have "fs_create_new demo_copy demo_downloads = (Created, demo_created)"
    by (simp add: fs_create_new_def path_exists_def demo_created_def demo_copy_def demo_downloads_def demo_disk_def put_file_def mode_for_def)
  ultimately show ?thesis
    using demo_candidate by (simp add: create_unique_destination_def MAX_COPIES_upt collision_candidate_def [of _ 0])
qed

lemma demo_payload_connect: "connect_receiver link_externals demo_rustls demo_transfer demo_net demo_info demo_created = (Inr offering_peer, demo_created)"
proof -
  have "tls_connect link_externals demo_rustls demo_certs demo_id (TlsCerts [demo_id]) demo_created = (Inr (Some demo_id), demo_created)"
    by (simp add: tls_connect_def sbind_def verify_server_cert_eq verify_peer_certificate_def has_peer_fingerprint_iff
        has_own_certificate_def path_exists_def demo_created_def demo_downloads_def demo_disk_def demo_copy_def put_file_def
        pinned_fp_def first_cert_def own_cert_path_def own_key_path_def demo_certs_def)
  then show ?thesis
    by (simp add: connect_receiver_def demo_info_def demo_address sbind_def slift_def ok_or_def demo_net_def sreturn_def
        demo_transfer_def) (simp add: offering_peer_def sreturn_def)
qed

lemma arriving_demo [simp]: "arriving (so_secure offering_peer) = ''hello!!''" "ends_cleanly (so_secure offering_peer)"
  by (simp_all add: offering_peer_def)

lemma total_deadline_pos: "0 < total_deadline_for n"
  by (simp add: total_deadline_for_def IO_TOTAL_TIMEOUT_FLOOR_def secs_def)

lemma demo_download:
  "unat sz \<le> 7 \<Longrightarrow> \<exists>d'. receive_file_unique link_externals demo_rustls demo_transfer demo_net (\<lambda>_. 0) [] demo_info sz (''dl'', ''a.txt'')
     demo_downloads = (Inr (sz, demo_copy), d')"
  using receive_into_completes [of "\<lambda>_. 0" sz "[]" "so_secure offering_peer" demo_copy demo_created] total_deadline_pos [of sz]
  by (auto simp: receive_file_unique_def sbind_def demo_create demo_payload_connect connect_or_discard_def sreturn_def)

theorem receive_file_unique_exact_witness:
  "\<exists>d'. receive_file_unique link_externals demo_rustls demo_transfer demo_net (\<lambda>_. 0) [] demo_info 5 (''dl'', ''a.txt'')
       demo_downloads = (Inr (5, demo_copy), d')
     \<and> files d' = (files demo_downloads)(demo_copy \<mapsto> \<lparr>contents = ''hello'', fmode = 420\<rparr>)"
proof -
  obtain d' where d': "receive_file_unique link_externals demo_rustls demo_transfer demo_net (\<lambda>_. 0) [] demo_info 5 (''dl'', ''a.txt'')
       demo_downloads = (Inr (5, demo_copy), d')" using demo_download [of 5] by auto
  obtain a ip k where k: "pti_ip demo_info = Some a" "parse_ip a = Some ip" "demo_net (SockAddr ip (pti_port demo_info)) = DialOk k"
    "files d' = (files demo_downloads)(demo_copy \<mapsto> \<lparr>contents = take (unat (5 :: u64)) (arriving (so_secure k)), fmode = create_mode demo_downloads\<rparr>)"
    using receive_file_unique_exact [OF d'] by blast
  have "k = offering_peer" using k(3) by (simp add: demo_net_def split: if_splits)
  with k(4) d' show ?thesis by (simp add: demo_downloads_def demo_disk_def)
qed

theorem receive_failure_undone_witness:
  "\<exists>e d'. receive_file_unique link_externals demo_rustls demo_transfer demo_net (\<lambda>_. 0) [] demo_info 9 (''dl'', ''a.txt'')
       demo_downloads = (Inl e, d') \<and> files d' = files demo_downloads"
proof -
  let ?r = "receive_file_unique link_externals demo_rustls demo_transfer demo_net (\<lambda>_. 0) [] demo_info 9 (''dl'', ''a.txt'') demo_downloads"
  have "fst ?r \<noteq> Inr nd" for nd
  proof
    assume "fst ?r = Inr nd"
    then obtain d' where "exact.receive_unique (\<lambda>_. 0) [] 9 link_externals demo_rustls demo_transfer demo_net demo_info (''dl'', ''a.txt'')
        demo_downloads = (Inr (fst nd, snd nd), d')"
      unfolding receive_file_unique_eq by (metis prod.collapse)
    from exact.receive_unique_ok(3) [OF this] show False
      by (auto simp: demo_net_def accepts_exactly_def split: if_splits)
  qed
  then obtain e d' where r: "?r = (Inl e, d')" by (metis prod.collapse sumE)
  have "script demo_downloads = []" by (simp add: demo_downloads_def demo_disk_def)
  then show ?thesis using receive_failure_undone [OF disjI1 [OF r]] r by blast
qed

theorem unique_destination_found_witness:
  "\<exists>dest d'. create_unique_destination (''dl'', ''b.txt'') demo_downloads = (Inr dest, d') \<and> dest = (''dl'', ''b.txt'')"
  using unique_destination_found [of demo_downloads "(''dl'', ''b.txt'')"]
  by (auto simp: demo_downloads_def demo_disk_def MAX_COPIES_def)

lemma demo_stream:
  "\<exists>d'. receive_file_unique_streaming link_externals demo_rustls demo_transfer demo_net (\<lambda>_. 0) [] demo_info 10 (''dl'', ''a.txt'')
     demo_downloads = (Inr (7, demo_copy), d')"
proof -
  obtain n ws' d' where copy: "copy_loop ''receive'' (0 + total_deadline_for 10) (\<lambda>_. 0) (fs_append demo_copy) 1 (Some 11) 0
      (so_secure offering_peer) [] demo_created = (Inr n, ws', d')" "all_ok ws'"
    using copy_loop_completes [of "\<lambda>_. 0" "0 + total_deadline_for 10" "[]" "Some 11" "so_secure offering_peer" "''receive''"
        "fs_append demo_copy" 1 0 demo_created] total_deadline_pos [of 10] by (auto simp: enough_def)
  obtain bs rest where bs: "''hello!!'' = bs @ rest" "n = of_nat (length bs)" "length bs = 11 \<or> rest = []"
    using file_sink.copy_loop_moved [OF copy(1)] unfolding file_sink.moved_def by (auto simp: used_up_def)
  have "7 = length bs + length rest" using arg_cong [OF bs(1), of length] by simp
  then have "n = 7" using bs by auto
  moreover have "flush_ok ws'" using copy(2) by (auto simp: flush_ok_def split: list.splits)
  ultimately have "receive_into_streaming (\<lambda>_. 0) (so_secure offering_peer) [] 10 demo_copy demo_created = (Inr 7, d')"
    using copy by (simp add: receive_into_streaming_def saturating_inc_def copy_with_idle_timeout_def finish_receive_def)
  then show ?thesis
    by (simp add: receive_file_unique_streaming_def sbind_def demo_create demo_payload_connect connect_or_discard_def sreturn_def)
qed

theorem receive_streaming_capped_witness:
  "\<exists>d'. receive_file_unique_streaming link_externals demo_rustls demo_transfer demo_net (\<lambda>_. 0) [] demo_info 10 (''dl'', ''a.txt'')
       demo_downloads = (Inr (7, demo_copy), d') \<and> map_option contents (files d' demo_copy) = Some ''hello!!''"
proof -
  obtain d' where d': "receive_file_unique_streaming link_externals demo_rustls demo_transfer demo_net (\<lambda>_. 0) [] demo_info 10
       (''dl'', ''a.txt'') demo_downloads = (Inr (7, demo_copy), d')" using demo_stream by blast
  obtain a ip k bs where k: "demo_net (SockAddr ip (pti_port demo_info)) = DialOk k" "bs = arriving (so_secure k)"
    "files d' = (files demo_downloads)(demo_copy \<mapsto> \<lparr>contents = bs, fmode = create_mode demo_downloads\<rparr>)"
    using receive_streaming_capped [OF d'] by auto
  have "k = offering_peer" using k(1) by (simp add: demo_net_def split: if_splits)
  with k d' show ?thesis by simp
qed

text \<open>A sender with a certificate of its own, the receiver's fingerprint and a file.\<close>

definition demo_shelf :: disk where
  "demo_shelf = (demo_disk [])\<lparr>files :=
     [own_cert_path demo_certs \<mapsto> \<lparr>contents = ''CERT'', fmode = 420\<rparr>, own_key_path demo_certs \<mapsto> \<lparr>contents = ''KEY'', fmode = 384\<rparr>,
      (''certs'', demo_id @ ''_fingerprint.txt'') \<mapsto> \<lparr>contents = compute_fingerprint link_externals demo_id, fmode = 420\<rparr>,
      (''home'', ''f'') \<mapsto> \<lparr>contents = ''hello!!'', fmode = 420\<rparr>]\<rparr>"

definition demo_job :: send_job where
  "demo_job = \<lparr>sj_path = (''home'', ''f''), sj_size = 7, sj_port = 1740\<rparr>"

lemma demo_shelf_files [simp]:
  "script demo_shelf = []"
  "files demo_shelf (own_cert_path demo_certs) = Some \<lparr>contents = ''CERT'', fmode = 420\<rparr>"
  "files demo_shelf (own_key_path demo_certs) = Some \<lparr>contents = ''KEY'', fmode = 384\<rparr>"
  "files demo_shelf (cert_dir demo_certs, demo_id @ ''_fingerprint.txt'') = Some \<lparr>contents = compute_fingerprint link_externals demo_id, fmode = 420\<rparr>"
  "files demo_shelf (''home'', ''f'') = Some \<lparr>contents = ''hello!!'', fmode = 420\<rparr>"
  by (simp_all add: demo_shelf_def demo_disk_def own_cert_path_def own_key_path_def demo_certs_def demo_id_def)

lemma demo_send:
  "run_send_job link_externals demo_rustls demo_transfer (\<lambda>_. 0) demo_job (AcceptOk offering_peer) [] demo_shelf
     = (Inr (), \<lparr>sd_sent = ''hello!!'', sd_closed = True\<rparr>, demo_shelf)"
proof -
  have "load_own_identity demo_rustls demo_certs demo_shelf = (Inr ([''CERT''], ''KEY''), demo_shelf)"
    by (simp add: load_own_identity_def load_own_certificate_def sbind_def slift_def sreturn_def ok_or_def demo_rustls_def)
  moreover have "verify_client_cert link_externals demo_certs (Some demo_id) demo_id demo_shelf = (Inr (), demo_shelf)"
    using verify_healthy [OF demo_shelf_files(1) valid_demo_id demo_shelf_files(4)] by (simp add: verify_client_cert_eq)
  ultimately have tls: "tls_accept link_externals demo_rustls demo_certs (Some demo_id) (TlsCerts [demo_id]) demo_shelf
      = (Inr (Some demo_id), demo_shelf)"
    by (simp add: tls_accept_def sbind_def first_cert_def) (simp add: demo_rustls_def)
  have "copy_loop ''send'' (total_deadline_for 7) (\<lambda>_. 0) (\<lambda>b sent. sent @ b) 1 None 0 [Chunk ''hello!!''] [] []
      = (Inr 7, [], ''hello!!'')"
    using total_deadline_pos [of 7]
    by (simp add: copy_loop.simps [of _ _ _ _ _ _ _ "[Chunk _]"] copy_loop.simps [of _ _ _ _ _ _ _ "[]"]
        read_limited_def COPY_BUFFER_def write_all_def unread_def lower_limit_def)
  with tls show ?thesis
    by (simp add: run_send_job_def demo_transfer_def demo_job_def offering_peer_def copy_with_idle_timeout_def send_tail_def flush_ok_def)
qed

theorem payload_roundtrip_witness:
  "\<exists>sd d0 d4. run_send_job link_externals demo_rustls demo_transfer (\<lambda>_. 0) demo_job (AcceptOk offering_peer) [] demo_shelf = (Inr (), sd, d0)
     \<and> receive_file_unique link_externals demo_rustls demo_transfer demo_net (\<lambda>_. 0) [] demo_info 7 (''dl'', ''a.txt'') demo_downloads
         = (Inr (7, demo_copy), d4)
     \<and> map_option contents (files d4 demo_copy) = map_option contents (files demo_shelf (''home'', ''f''))"
proof -
  have "\<exists>d4. receive_file_unique link_externals demo_rustls demo_transfer demo_net (\<lambda>_. 0) [] demo_info (sj_size demo_job) (''dl'', ''a.txt'')
      demo_downloads = (Inr (sj_size demo_job, demo_copy), d4)
    \<and> map_option contents (files d4 demo_copy) = Some (contents \<lparr>contents = ''hello!!'', fmode = 420\<rparr>)"
    by (rule payload_roundtrip [OF demo_send _ _ demo_create demo_payload_connect])
       (use total_deadline_pos [of 7] in \<open>simp_all add: demo_job_def\<close>)
  then show ?thesis using demo_send by (auto simp: demo_job_def)
qed

theorem payload_peers_authenticated_witness:
  "sd_sent (fst (snd (run_send_job link_externals demo_rustls demo_transfer (\<lambda>_. 0) demo_job (AcceptOk offering_peer) [] demo_shelf))) \<noteq> []
   \<and> presents link_externals offering_peer (trim (compute_fingerprint link_externals demo_id))"
proof -
  have "pinned_fp link_externals (pt_cert_manager demo_transfer) (pt_device_id demo_transfer) demo_shelf
      = Some (trim (compute_fingerprint link_externals demo_id))"
    by (simp add: pinned_fp_def valid_demo_id demo_transfer_def)
  from payload_peers_authenticated [OF this] demo_send show ?thesis by fastforce
qed

end
