(* ===== verification/Share.thy ===== *)
theory Share
  imports Packet_Loop Payload
begin

text \<open>
  The share plugin (\<open>src/plugins/share.rs\<close>): files, texts and links that a paired device sends.
  Its state extends the daemon's. A file is received by a task of its own that holds two permits,
  one of all transfers and one of the device's; the tasks that are running are part of the state,
  and the end of one is a step of its own, so packets and the ends of transfers interleave in any
  order. What the outside does (random names, writes to the destination, the desktop's URL
  handler, the network) are arguments.
\<close>

section \<open>Data\<close>

record batch_totals =
  number_of_files :: u32
  total_payload_size :: u64

record received_file =
  rf_device_id :: device_key
  rf_filename :: string
  rf_path :: path
  rf_size :: u64

datatype share_event =
    ShareText device_key string string
  | ShareUrl device_key string bool
  | ShareProgress device_key u32 u64

text \<open>What a running receive task has captured.\<close>

record share_job =
  jb_device :: device_key
  jb_filename :: string
  jb_info :: payload_transfer_info
  jb_size :: payload_size
  jb_max :: u64
  jb_dir :: string
  jb_certs :: certificate_manager

text \<open>The semaphores are the numbers of free permits.\<close>

record share_daemon = daemon +
  download_dir :: string
  received_files :: "received_file list"
  max_file_size_bytes :: u64
  share_certs :: "certificate_manager option"
  global_transfer_permits :: nat
  device_transfer_permits :: "device_key \<rightharpoonup> nat"
  batch_totals_of :: "device_key \<rightharpoonup> batch_totals"
  share_events :: "share_event list"
  opened_urls :: "string list"
  share_jobs :: "share_job list"

definition MAX_SHARE_TEXT_BYTES :: nat where "MAX_SHARE_TEXT_BYTES = 256 * 1024"
definition MAX_TRANSFERS_PER_DEVICE :: nat where "MAX_TRANSFERS_PER_DEVICE = 3"
definition MAX_TRANSFERS_GLOBAL :: nat where "MAX_TRANSFERS_GLOBAL = 8"
definition MAX_TRANSFER_DEVICES :: nat where "MAX_TRANSFER_DEVICES = 64"
definition MAX_RECEIVED_FILES :: nat where "MAX_RECEIVED_FILES = 100"

section \<open>Batches\<close>

definition parse_batch_totals :: "json \<Rightarrow> batch_totals option" where
  "parse_batch_totals body =
     (let n = Option.bind (json_get body ''numberOfFiles'') json_as_u64;
          t = Option.bind (json_get body ''totalPayloadSize'') json_as_u64
      in if n = None \<and> t = None then None
         else Some \<lparr>number_of_files = (case n of Some x \<Rightarrow> if x < 2 ^ 32 then ucast x else 0 | None \<Rightarrow> 0),
                    total_payload_size = (case t of Some x \<Rightarrow> x | None \<Rightarrow> 0)\<rparr>)"

definition share_broadcast :: "share_event \<Rightarrow> 'z share_daemon_scheme \<Rightarrow> 'z share_daemon_scheme" where
  "share_broadcast ev s = s\<lparr>share_events := share_events s @ [ev]\<rparr>"

definition record_batch_totals :: "device_key \<Rightarrow> json \<Rightarrow> 'z share_daemon_scheme \<Rightarrow> 'z share_daemon_scheme" where
  "record_batch_totals did body s =
     (case parse_batch_totals body of
        None \<Rightarrow> s
      | Some t \<Rightarrow>
          if \<not> hm_contains (batch_totals_of s) did \<and> MAX_TRANSFER_DEVICES \<le> hm_len (batch_totals_of s) then s
          else share_broadcast (ShareProgress did (number_of_files t) (total_payload_size t))
                 (s\<lparr>batch_totals_of := (batch_totals_of s)(did \<mapsto> t)\<rparr>))"

section \<open>Links\<close>

definition ALLOWED_URL_SCHEMES :: "string list" where
  "ALLOWED_URL_SCHEMES = [''http'', ''https'', ''ftp'', ''ftps'', ''mailto'', ''tel'']"

definition is_control :: "nat \<Rightarrow> bool" where
  "is_control c \<longleftrightarrow> c < 32 \<or> (127 \<le> c \<and> c < 160)"

definition ascii_alpha :: "nat \<Rightarrow> bool" where
  "ascii_alpha c \<longleftrightarrow> (65 \<le> c \<and> c \<le> 90) \<or> (97 \<le> c \<and> c \<le> 122)"

definition allowed_url_scheme :: "string \<Rightarrow> string option" where
  "allowed_url_scheme url =
     (if url = [] \<or> list_ex is_control (chars_of url) then None
      else case split_once (CHR '':'') url of
             None \<Rightarrow> None
           | Some (scheme, rest) \<Rightarrow>
               if rest = [] then None
               else (case chars_of scheme of
                       [] \<Rightarrow> None
                     | first # others \<Rightarrow>
                         if \<not> ascii_alpha first then None
                         else if \<not> list_all (\<lambda>c. ascii_alnum c \<or> c \<in> {43, 45, 46}) others then None
                         else (let scheme = map ascii_lower scheme
                               in if scheme \<in> set ALLOWED_URL_SCHEMES then Some scheme else None)))"

definition receive_url :: "(string \<Rightarrow> bool) \<Rightarrow> device_key \<Rightarrow> string \<Rightarrow> 'z share_daemon_scheme \<Rightarrow> 'z share_daemon_scheme" where
  "receive_url opener did url s =
     (let allowed = allowed_url_scheme url \<noteq> None;
          s1 = (if allowed then s\<lparr>opened_urls := opened_urls s @ [url]\<rparr> else s)
      in share_broadcast (ShareUrl did url (allowed \<and> opener url)) s1)"

section \<open>Files\<close>

text \<open>\<open>Path::components\<close> of a relative path, without the components for the current directory,
  which the code skips.\<close>

definition path_components :: "string \<Rightarrow> string list" where
  "path_components p = filter (\<lambda>c. c \<noteq> [] \<and> c \<noteq> ''.'') (split_on (CHR ''/'') p)"

definition is_absolute :: "string \<Rightarrow> bool" where
  "is_absolute p \<longleftrightarrow> (case p of c # _ \<Rightarrow> c = CHR ''/'' | [] \<Rightarrow> False)"

definition sanitize_filename :: "string \<Rightarrow> string option" where
  "sanitize_filename filename =
     (if is_absolute filename then None
      else (let components = path_components filename in
            if ''..'' \<in> set components then None
            else if components = [] then None
            else Some (last components)))"

definition resolve_transfer_info ::
    "device_key \<Rightarrow> payload_transfer_info \<Rightarrow> 'z share_daemon_scheme \<Rightarrow> payload_transfer_info option" where
  "resolve_transfer_info did info s =
     (case pti_ip info of
        Some _ \<Rightarrow> Some info
      | None \<Rightarrow> (case get_peer_addr did s of
                   Some (SockAddr ip _) \<Rightarrow> Some (info\<lparr>pti_ip := Some (show_ip ip)\<rparr>)
                 | None \<Rightarrow> None))"

definition try_acquire_transfer_permits ::
    "device_key \<Rightarrow> 'z share_daemon_scheme \<Rightarrow> bool \<times> 'z share_daemon_scheme" where
  "try_acquire_transfer_permits did s =
     (if global_transfer_permits s = 0 then (False, s)
      else (case (case device_transfer_permits s did of
                    Some free \<Rightarrow> Some (free, s)
                  | None \<Rightarrow>
                      if MAX_TRANSFER_DEVICES \<le> hm_len (device_transfer_permits s) then None
                      else Some (MAX_TRANSFERS_PER_DEVICE,
                                 s\<lparr>device_transfer_permits := (device_transfer_permits s)(did \<mapsto> MAX_TRANSFERS_PER_DEVICE)\<rparr>)) of
              None \<Rightarrow> (False, s)
            | Some (free, s1) \<Rightarrow>
                if free = 0 then (False, s1)
                else (True, s1\<lparr>global_transfer_permits := global_transfer_permits s1 - 1,
                               device_transfer_permits := (device_transfer_permits s1)(did \<mapsto> free - 1)\<rparr>)))"

definition release_permits :: "device_key \<Rightarrow> 'z share_daemon_scheme \<Rightarrow> 'z share_daemon_scheme" where
  "release_permits did s =
     s\<lparr>global_transfer_permits := global_transfer_permits s + 1,
       device_transfer_permits := (device_transfer_permits s)(did := map_option Suc (device_transfer_permits s did))\<rparr>"

definition push_received :: "received_file \<Rightarrow> received_file list \<Rightarrow> received_file list" where
  "push_received f fs = (if MAX_RECEIVED_FILES \<le> length fs then tl fs else fs) @ [f]"

text \<open>The network side of one transfer: who answers, the clock, how writes to the file end.\<close>

record transfer_env =
  te_net :: "sock_addr \<Rightarrow> dial"
  te_clk :: clock
  te_writes :: "wr list"

definition receive_job :: "externals \<Rightarrow> rustls \<Rightarrow> transfer_env \<Rightarrow> share_job \<Rightarrow> (disk, u64 \<times> path) op" where
  "receive_job E R V j =
     (case sanitize_filename (jb_filename j) of
        None \<Rightarrow> sfail (Other ''Filename rejected for security reasons'')
      | Some safe_filename \<Rightarrow>
          if (case jb_size j of Known sz \<Rightarrow> jb_max j < sz | Stream \<Rightarrow> False)
          then sfail (Other ''File exceeds size limit'')
          else sbind (fs_create_dir_all (Other ''Failed to create download directory'') (jb_dir j)) (\<lambda>_.
            (let transfer = \<lparr>pt_cert_manager = jb_certs j, pt_device_id = jb_device j\<rparr>;
                 dest = (jb_dir j, safe_filename)
             in case jb_size j of
                  Known sz \<Rightarrow> receive_file_unique E R transfer (te_net V) (te_clk V) (te_writes V) (jb_info j) sz dest
                | Stream \<Rightarrow> receive_file_unique_streaming E R transfer (te_net V) (te_clk V) (te_writes V) (jb_info j) (jb_max j) dest)))"

text \<open>A failed transfer is only logged, so the error values above do not matter.\<close>

definition receive_file_async ::
    "externals \<Rightarrow> rustls \<Rightarrow> transfer_env \<Rightarrow> share_job \<Rightarrow> 'z share_daemon_scheme \<Rightarrow> 'z share_daemon_scheme" where
  "receive_file_async E R V j s =
     (case on_disk (receive_job E R V j) s of
        (Inl _, s1) \<Rightarrow> s1
      | (Inr (bytes, received_path), s1) \<Rightarrow>
          s1\<lparr>received_files := push_received \<lparr>rf_device_id = jb_device j, rf_filename = snd received_path,
               rf_path = received_path, rf_size = bytes\<rparr> (received_files s1)\<rparr>)"

text \<open>The task of the \<open>n\<close>-th running transfer ends: it leaves the list and its permits are freed.\<close>

definition finish_job ::
    "externals \<Rightarrow> rustls \<Rightarrow> transfer_env \<Rightarrow> nat \<Rightarrow> 'z share_daemon_scheme \<Rightarrow> 'z share_daemon_scheme" where
  "finish_job E R V n s =
     (if n < length (share_jobs s) then
        (let j = share_jobs s ! n;
             s1 = receive_file_async E R V j s
         in release_permits (jb_device j) (s1\<lparr>share_jobs := take n (share_jobs s1) @ drop (Suc n) (share_jobs s1)\<rparr>))
      else s)"

section \<open>Texts\<close>

definition hex_padded :: "nat \<Rightarrow> nat \<Rightarrow> string" where
  "hex_padded width n = (let h = show_radix 16 n in replicate (width - length h) (CHR ''0'') @ h)"

definition text_filename :: "u32 \<Rightarrow> string" where
  "text_filename r = ''kdeconnect-'' @ hex_padded 8 (unat r) @ ''.txt''"

definition store_text :: "string \<Rightarrow> u32 \<Rightarrow> wr list \<Rightarrow> string \<Rightarrow> (disk, path) op" where
  "store_text dir rnd ws txt =
     sbind (fs_create_dir_all (Other ''Failed to create download directory'') dir) (\<lambda>_.
     sbind (create_unique_destination (dir, text_filename rnd)) (\<lambda>p d.
       (case write_all (fs_append p) txt ws d of
          (WrOk, ws', d') \<Rightarrow> if flush_ok ws' then (Inr p, d')
                             else (Inl (Other ''Failed to flush shared text''), discard p d')
        | (_, _, d') \<Rightarrow> (Inl (Other ''Failed to write shared text''), discard p d'))))"

definition receive_text :: "u32 \<Rightarrow> wr list \<Rightarrow> device_key \<Rightarrow> string \<Rightarrow> 'z share_daemon_scheme \<Rightarrow> 'z share_daemon_scheme" where
  "receive_text rnd ws did txt s =
     (if MAX_SHARE_TEXT_BYTES < length txt then s
      else case on_disk (store_text (download_dir s) rnd ws txt) s of
             (Inl _, s1) \<Rightarrow> s1
           | (Inr p, s1) \<Rightarrow>
               share_broadcast (ShareText did txt (show_path p))
                 (s1\<lparr>received_files := push_received \<lparr>rf_device_id = did, rf_filename = snd p, rf_path = p,
                      rf_size = of_nat (length txt)\<rparr> (received_files s1)\<rparr>))"

section \<open>The plugin\<close>

definition share_incoming :: "string list" where
  "share_incoming = [''kdeconnect.share.request'', ''kdeconnect.share.request.update'']"

definition share_outgoing :: "string list" where
  "share_outgoing = [''kdeconnect.share.request'']"

record share_env =
  se_opener :: "string \<Rightarrow> bool"
  se_random :: u32
  se_writes :: "wr list"

definition start_transfer :: "device_key \<Rightarrow> packet \<Rightarrow> json \<Rightarrow> 'z share_daemon_scheme \<Rightarrow> 'z share_daemon_scheme" where
  "start_transfer did p info_val s =
     (case transfer_info_of_json info_val of
        Inl _ \<Rightarrow> s
      | Inr info0 \<Rightarrow>
          (case resolve_transfer_info did info0 s of
             None \<Rightarrow> s
           | Some info \<Rightarrow>
               (case (packet_payload_size p, share_certs s) of
                  (Some sz, Some cm) \<Rightarrow>
                    (case try_acquire_transfer_permits did s of
                       (False, s1) \<Rightarrow> s1
                     | (True, s1) \<Rightarrow>
                         s1\<lparr>share_jobs := share_jobs s1 @
                           [\<lparr>jb_device = did,
                             jb_filename = (case Option.bind (json_get (packet_body p) ''filename'') json_as_str of
                                              Some n \<Rightarrow> n | None \<Rightarrow> ''shared_file''),
                             jb_info = info, jb_size = sz, jb_max = max_file_size_bytes s1,
                             jb_dir = download_dir s1, jb_certs = cm\<rparr>]\<rparr>)
                | _ \<Rightarrow> s)))"

definition share_handle_packet ::
    "share_env \<Rightarrow> device_key \<Rightarrow> packet \<Rightarrow> 'z share_daemon_scheme \<Rightarrow> 'z share_daemon_scheme" where
  "share_handle_packet V did p s =
     (let s1 = record_batch_totals did (packet_body p) s;
          has_file = packet_payload_transfer_info p \<noteq> None \<or> json_get (packet_body p) ''filename'' \<noteq> None in
      if packet_type p = ''kdeconnect.share.request.update'' then s1
      else if \<not> has_file then
        (case Option.bind (json_get (packet_body p) ''text'') json_as_str of
           Some txt \<Rightarrow> receive_text (se_random V) (se_writes V) did txt s1
         | None \<Rightarrow>
             (case Option.bind (json_get (packet_body p) ''url'') json_as_str of
                Some url \<Rightarrow> receive_url (se_opener V) did url s1
              | None \<Rightarrow> s1))
      else (case packet_payload_transfer_info p of
              Some info_val \<Rightarrow> start_transfer did p info_val s1
            | None \<Rightarrow> s1))"

definition share_on_disconnected :: "device_key \<Rightarrow> 'z share_daemon_scheme \<Rightarrow> 'z share_daemon_scheme" where
  "share_on_disconnected did s = s\<lparr>batch_totals_of := hm_remove did (batch_totals_of s)\<rparr>"

text \<open>The plugin as the registry and the router see it. It never answers and never fails.\<close>

definition share_plugin :: "share_env \<Rightarrow> ('z share_daemon_scheme) plugin" where
  "share_plugin V =
     \<lparr>pl_name = ''share'', pl_incoming = share_incoming, pl_outgoing = share_outgoing,
      pl_handle = (\<lambda>did p s. (HResult (Inr None), share_handle_packet V did p s)),
      pl_on_connected = (\<lambda>did s. ([], s)), pl_on_disconnected = share_on_disconnected\<rparr>"

section \<open>Where a transfer writes\<close>

text \<open>Whatever the outcome, the only path a transfer changes is a new one, the wished path or a
  numbered copy of it.\<close>

definition fresh_candidate :: "path \<Rightarrow> disk \<Rightarrow> path \<Rightarrow> bool" where
  "fresh_candidate p d q \<longleftrightarrow> files d q = None \<and> q \<in> range (collision_candidate p)"

context receiver
begin

lemma receive_unique_touches:
  assumes "receive_unique E R T net info desired d = (r, d')" and "files d' q \<noteq> files d q"
  shows "fresh_candidate desired d q"
proof -
  have fresh: "fresh_candidate desired d dest \<and> (\<forall>q. q \<noteq> dest \<longrightarrow> files d1 q = files d q)"
    if "create_unique_destination desired d = (Inr dest, d1)" for dest d1
    using try_copies_cases(2) [OF that [unfolded create_unique_destination_def] refl] by (auto simp: fresh_candidate_def)
  from assms(1) show ?thesis
  proof (cases rule: receive_unique_stages)
    case (not_created e)
    with assms(2) show ?thesis by simp
  next
    case (not_connected e dest d1 d2)
    have "files d' x = files d x" if "x \<noteq> dest" for x
      using that fresh [OF not_connected(2)] connect_receiver_files [OF not_connected(3)] discard_files(1) not_connected(4)
      by (simp del: split_paired_All)
    then show ?thesis using assms(2) fresh [OF not_connected(2)] by metis
  next
    case (not_received e dest k d1 d2)
    have "files d' x = files d x" if "x \<noteq> dest" for x
      using that fresh [OF not_received(2)] connect_receiver_files [OF not_received(3)] recv_other [OF not_received(4)]
      by (simp del: split_paired_All)
    then show ?thesis using assms(2) fresh [OF not_received(2)] by metis
  next
    case (received n dest k d1 d2)
    have "files d' x = files d x" if "x \<noteq> dest" for x
      using that fresh [OF received(2)] connect_receiver_files [OF received(3)] recv_other [OF received(4)]
      by (simp del: split_paired_All)
    then show ?thesis using assms(2) fresh [OF received(2)] by metis
  qed
qed

end

lemma receive_job_touches:
  assumes "receive_job E R V j d = (r, d')" and "files d' q \<noteq> files d q"
  shows "\<exists>name. sanitize_filename (jb_filename j) = Some name \<and> fresh_candidate (jb_dir j, name) d q"
proof -
  from assms obtain name where name: "sanitize_filename (jb_filename j) = Some name"
    by (auto simp: receive_job_def sfail_def split: option.splits)
  let ?T = "\<lparr>pt_cert_manager = jb_certs j, pt_device_id = jb_device j\<rparr>"
  obtain d1 r1 where mk: "fs_create_dir_all (Other ''Failed to create download directory'') (jb_dir j) d = (r1, d1)" by fastforce
  have d1: "files d1 = files d" using fs_dir_frame(1) [OF mk] .
  have "fresh_candidate (jb_dir j, name) d1 q"
  proof (cases "r1 = Inr () \<and> \<not> (case jb_size j of Known sz \<Rightarrow> jb_max j < sz | Stream \<Rightarrow> False)")
    case True
    then have "(case jb_size j of
          Known sz \<Rightarrow> receive_file_unique E R ?T (te_net V) (te_clk V) (te_writes V) (jb_info j) sz (jb_dir j, name)
        | Stream \<Rightarrow> receive_file_unique_streaming E R ?T (te_net V) (te_clk V) (te_writes V) (jb_info j) (jb_max j) (jb_dir j, name)) d1 = (r, d')"
      using assms(1) name mk by (simp add: receive_job_def Let_def)
    then show ?thesis using assms(2) d1
      by (cases "jb_size j")
         (auto simp: receive_file_unique_eq receive_file_unique_streaming_eq
           intro: exact.receive_unique_touches streaming.receive_unique_touches)
  next
    case False
    then have "files d' = files d"
      using assms(1) name mk d1 by (cases r1) (auto simp: receive_job_def sfail_def split: if_splits)
    with assms(2) show ?thesis by simp
  qed
  with name d1 show ?thesis by (simp add: fresh_candidate_def)
qed

lemma store_text_touches:
  assumes "store_text dir rnd ws txt d = (r, d')" and "files d' q \<noteq> files d q"
  shows "fresh_candidate (dir, text_filename rnd) d q"
proof -
  obtain r1 d1 where mk: "fs_create_dir_all (Other ''Failed to create download directory'') dir d = (r1, d1)" by fastforce
  have d1: "files d1 = files d" using fs_dir_frame(1) [OF mk] .
  obtain r2 d2 where cr: "create_unique_destination (dir, text_filename rnd) d1 = (r2, d2)" by fastforce
  note cases = try_copies_cases(1,2) [OF cr [unfolded create_unique_destination_def]]
  show ?thesis
  proof (cases "\<exists>p. r1 = Inr () \<and> r2 = Inr p")
    case True
    then obtain p where p: "r1 = Inr ()" "r2 = Inr p" by blast
    have d2: "files d1 p = None" "fresh_candidate (dir, text_filename rnd) d p" "\<forall>x. x \<noteq> p \<longrightarrow> files d2 x = files d x"
      using cases(2) [OF p(2)] d1 by (auto simp: fresh_candidate_def)
    obtain out ws' d3 where wr: "write_all (fs_append p) txt ws d2 = (out, ws', d3)" by (metis prod_cases3)
    have "files d3 x = files d2 x" if "x \<noteq> p" for x
      using wr that by (auto simp: write_all_def files_fs_append split: list.splits wr.splits)
    moreover have "d' = d3 \<or> d' = discard p d3"
      using assms(1) mk cr p wr by (auto simp: store_text_def split: wr.splits if_splits)
    ultimately have "files d' x = files d x" if "x \<noteq> p" for x using d2(3) that discard_files(1) by metis
    then show ?thesis using assms(2) d2(2) by metis
  next
    case False
    then have "files d' = files d"
      using assms(1) mk cr d1 cases(1) by (cases r1; cases r2) (auto simp: store_text_def)
    with assms(2) show ?thesis by simp
  qed
qed

text \<open>Names that stay in their directory.\<close>

definition plain_name :: "string \<Rightarrow> bool" where
  "plain_name n \<longleftrightarrow> n \<noteq> [] \<and> n \<noteq> ''.'' \<and> n \<noteq> ''..'' \<and> CHR ''/'' \<notin> set n"

lemma sanitize_plain: "sanitize_filename f = Some n \<Longrightarrow> plain_name n"
proof -
  assume "sanitize_filename f = Some n"
  then have n: "n \<in> set (path_components f)" "''..'' \<notin> set (path_components f)"
    by (auto simp: sanitize_filename_def Let_def split: if_splits)
  then have "n \<noteq> ''..''" by blast
  moreover have "n \<noteq> []" "n \<noteq> ''.''" "CHR ''/'' \<notin> set n"
    using n(1) split_on_parts [of "CHR ''/''" f] by (auto simp: path_components_def)
  ultimately show ?thesis by (simp add: plain_name_def)
qed

lemma file_stem_chars: "set (file_stem n) \<subseteq> set n" "file_extension n = Some e \<Longrightarrow> set e \<subseteq> set n"
proof -
  show "set (file_stem n) \<subseteq> set n"
  proof (cases "file_extension n")
    case (Some e)
    then have "set n = set (file_stem n @ ''.'' @ e)" using file_stem_extension(1) by metis
    then show ?thesis by auto
  qed (simp add: file_stem_extension(2))
  show "set e \<subseteq> set n" if "file_extension n = Some e"
  proof -
    have "set n = set (file_stem n @ ''.'' @ e)" using file_stem_extension(1) [OF that] by metis
    then show ?thesis by auto
  qed
qed

lemma candidate_plain:
  assumes "plain_name (snd p)"
  shows "fst (collision_candidate p m) = fst p" and "plain_name (snd (collision_candidate p m))"
proof -
  show "fst (collision_candidate p m) = fst p" by (simp add: collision_candidate_def Let_def)
  have digits: "CHR ''/'' \<notin> set (show_nat m)"
    using show_nat_digits [of m] by (auto simp: list_all_iff is_digit_def radix_val_def)
  have chars: "CHR ''/'' \<notin> set (file_stem (snd p))" "file_extension (snd p) = Some e \<Longrightarrow> CHR ''/'' \<notin> set e" for e
    using assms file_stem_chars [of "snd p"] by (auto simp: plain_name_def)
  have "snd (collision_candidate p m) = snd p \<or> CHR '' '' \<in> set (snd (collision_candidate p m))"
    by (auto simp: collision_candidate_def Let_def split: option.splits)
  moreover have "CHR ''/'' \<notin> set (snd (collision_candidate p m))"
    using assms digits chars by (auto simp: collision_candidate_def Let_def plain_name_def split: option.splits if_splits)
  ultimately show "plain_name (snd (collision_candidate p m))"
    using assms by (auto simp: plain_name_def)
qed

lemma fresh_candidate_plain:
  "fresh_candidate (dir, n) d q \<Longrightarrow> plain_name n \<Longrightarrow> files d q = None \<and> fst q = dir \<and> plain_name (snd q)"
  using candidate_plain [of "(dir, n)"] by (auto simp: fresh_candidate_def)

lemma show_radix_chars: "\<forall>c \<in> set (show_radix 16 n). c \<noteq> CHR ''/''"
proof (induction n rule: less_induct)
  case (less n)
  have "digit_char k \<noteq> CHR ''/''" if "k < 16" for k
  proof
    assume "digit_char k = CHR ''/''"
    then have "(of_char (digit_char k) :: nat) = 47" by simp
    then show False using that by (simp add: digit_char_code split: if_splits)
  qed
  then show ?case using less [of "n div 16"] by (auto simp: show_radix.simps [of 16 n])
qed

lemma text_filename_plain: "plain_name (text_filename r)"
  using show_radix_chars [of "unat r"] by (auto simp: plain_name_def text_filename_def hex_padded_def Let_def)

section \<open>Limits and confinement\<close>

definition jobs_of :: "device_key \<Rightarrow> share_job list \<Rightarrow> nat" where
  "jobs_of did js = length (filter (\<lambda>j. jb_device j = did) js)"

definition device_ok :: "nat option \<Rightarrow> nat \<Rightarrow> bool" where
  "device_ok free running \<longleftrightarrow>
     (case free of Some k \<Rightarrow> k + running = MAX_TRANSFERS_PER_DEVICE | None \<Rightarrow> running = 0)"

definition permits_ok :: "nat \<Rightarrow> (device_key \<rightharpoonup> nat) \<Rightarrow> share_job list \<Rightarrow> bool" where
  "permits_ok free permits js \<longleftrightarrow>
     free + length js = MAX_TRANSFERS_GLOBAL \<and> finite (dom permits) \<and> hm_len permits \<le> MAX_TRANSFER_DEVICES
     \<and> (\<forall>did. device_ok (permits did) (jobs_of did js))"

definition share_inv :: "'z share_daemon_scheme \<Rightarrow> bool" where
  "share_inv s \<longleftrightarrow>
     permits_ok (global_transfer_permits s) (device_transfer_permits s) (share_jobs s)
     \<and> length (received_files s) \<le> MAX_RECEIVED_FILES
     \<and> finite (dom (batch_totals_of s)) \<and> hm_len (batch_totals_of s) \<le> MAX_TRANSFER_DEVICES
     \<and> (\<forall>url \<in> set (opened_urls s). allowed_url_scheme url \<noteq> None)
     \<and> (\<forall>j \<in> set (share_jobs s). jb_dir j = download_dir s)"

text \<open>The plugin's own part of the state; the rest belongs to other components, which change it
  between the plugin's steps as they like.\<close>

definition share_part where
  "share_part s = (download_dir s, received_files s, global_transfer_permits s, device_transfer_permits s,
     batch_totals_of s, opened_urls s, share_jobs s)"

inductive share_step :: "externals \<Rightarrow> rustls \<Rightarrow> 'z share_daemon_scheme \<Rightarrow> 'z share_daemon_scheme \<Rightarrow> bool" for E R where
  packet: "share_step E R s (share_handle_packet V did p s)"
| job_end: "share_step E R s (finish_job E R W n s)"
| disconnected: "share_step E R s (share_on_disconnected did s)"
| elsewhere: "share_part t = share_part s \<Longrightarrow> share_step E R s t"

lemma share_inv_cong: "share_part t = share_part s \<Longrightarrow> share_inv t = share_inv s"
  by (simp add: share_part_def share_inv_def)

lemma push_received_bound: "length fs \<le> MAX_RECEIVED_FILES \<Longrightarrow> length (push_received f fs) \<le> MAX_RECEIVED_FILES"
  by (auto simp: push_received_def MAX_RECEIVED_FILES_def)

lemma jobs_of_simps [simp]:
  "jobs_of did [] = 0" "jobs_of did (j # js) = (if jb_device j = did then 1 else 0) + jobs_of did js"
  "jobs_of did (xs @ ys) = jobs_of did xs + jobs_of did ys"
  by (simp_all add: jobs_of_def)

text \<open>The device's semaphore after the first use of it.\<close>

definition entered :: "device_key \<Rightarrow> (device_key \<rightharpoonup> nat) \<Rightarrow> (device_key \<rightharpoonup> nat) \<Rightarrow> bool" where
  "entered did m m' \<longleftrightarrow>
     m did \<noteq> None \<and> m' = m \<or> m did = None \<and> hm_len m < MAX_TRANSFER_DEVICES \<and> m' = m(did \<mapsto> MAX_TRANSFERS_PER_DEVICE)"

lemma try_acquire_cases:
  assumes "try_acquire_transfer_permits did s = (b, t)"
  obtains (refused) "\<not> b" "t = s"
  | (busy) m where "\<not> b" "entered did (device_transfer_permits s) m" "t = s\<lparr>device_transfer_permits := m\<rparr>"
  | (granted) m k where "b" "entered did (device_transfer_permits s) m" "m did = Some (Suc k)" "0 < global_transfer_permits s"
      "t = s\<lparr>global_transfer_permits := global_transfer_permits s - 1, device_transfer_permits := m(did \<mapsto> k)\<rparr>"
proof (cases "global_transfer_permits s = 0")
  case True
  with assms refused show thesis by (simp add: try_acquire_transfer_permits_def)
next
  case g: False
  let ?m = "device_transfer_permits s"
  show thesis
  proof (cases "?m did")
    case None
    show thesis
    proof (cases "MAX_TRANSFER_DEVICES \<le> hm_len ?m")
      case True
      with assms None g refused show thesis by (simp add: try_acquire_transfer_permits_def)
    next
      case False
      let ?m1 = "?m(did \<mapsto> MAX_TRANSFERS_PER_DEVICE)"
      have "entered did ?m ?m1" using None False by (simp add: entered_def)
      then show thesis using assms None False g granted [of ?m1 2]
        by (simp add: try_acquire_transfer_permits_def MAX_TRANSFERS_PER_DEVICE_def)
    qed
  next
    case (Some k)
    have e: "entered did ?m ?m" using Some by (simp add: entered_def)
    show thesis
    proof (cases k)
      case 0
      then show thesis using assms Some g busy [OF _ e] by (simp add: try_acquire_transfer_permits_def)
    next
      case (Suc k')
      then show thesis using assms Some g granted [OF _ e, of k'] by (simp add: try_acquire_transfer_permits_def)
    qed
  qed
qed

lemma permits_okD: "permits_ok g m js \<Longrightarrow> device_ok (m did) (jobs_of did js)"
  by (simp add: permits_ok_def)

lemma permits_ok_entered:
  assumes "permits_ok g m js" and "entered did m m'"
  shows "permits_ok g m' js"
  using assms(2) unfolding entered_def
proof
  assume new: "m did = None \<and> hm_len m < MAX_TRANSFER_DEVICES \<and> m' = m(did \<mapsto> MAX_TRANSFERS_PER_DEVICE)"
  have "device_ok (m' x) (jobs_of x js)" for x
    using permits_okD [OF assms(1), of x] new by (auto simp: device_ok_def)
  moreover have "hm_len m' \<le> MAX_TRANSFER_DEVICES"
    using assms(1) new hm_len_update_le [of m did MAX_TRANSFERS_PER_DEVICE] by (simp add: permits_ok_def)
  ultimately show ?thesis using assms(1) new by (simp add: permits_ok_def)
qed (use assms(1) in simp)

lemma permits_ok_granted:
  assumes "permits_ok g m js" and "m did = Some (Suc k)" and "0 < g" and "jb_device j = did"
  shows "permits_ok (g - 1) (m(did \<mapsto> k)) (js @ [j])"
proof -
  have "did \<in> dom m" "finite (dom m)" using assms by (auto simp: permits_ok_def)
  then have "hm_len (m(did \<mapsto> k)) = hm_len m" by (simp add: hm_len_update)
  moreover have "device_ok ((m(did \<mapsto> k)) x) (jobs_of x (js @ [j]))" for x
    using permits_okD [OF assms(1), of x] assms(2,4) by (auto simp: device_ok_def split: option.splits)
  ultimately show ?thesis using assms by (simp add: permits_ok_def)
qed

lemma permits_ok_released:
  assumes "permits_ok g m js" and "n < length js"
  shows "permits_ok (Suc g) (m(jb_device (js ! n) := map_option Suc (m (jb_device (js ! n))))) (take n js @ drop (Suc n) js)"
proof -
  let ?did = "jb_device (js ! n)" and ?js = "take n js @ drop (Suc n) js"
  let ?m = "m(?did := map_option Suc (m ?did))"
  have js: "js = take n js @ js ! n # drop (Suc n) js" using assms(2) by (simp add: id_take_nth_drop)
  have count: "jobs_of x js = jobs_of x ?js + (if x = ?did then 1 else 0)" for x
    using arg_cong [OF js, of "jobs_of x"] by auto
  have "device_ok (?m x) (jobs_of x ?js)" for x
    using permits_okD [OF assms(1), of x] count [of x] by (auto simp: device_ok_def split: option.splits if_splits)
  moreover have "dom ?m = dom m" by auto
  moreover have "length js = Suc (length ?js)" using assms(2) by simp
  ultimately show ?thesis using assms(1) unfolding permits_ok_def hm_len_def by (metis add_Suc add_Suc_right)
qed


lemma share_inv_batch:
  assumes "share_inv s"
  shows "share_inv (record_batch_totals did body s)"
proof (cases "parse_batch_totals body")
  case (Some t)
  let ?m = "batch_totals_of s"
  show ?thesis
  proof (cases "\<not> hm_contains ?m did \<and> MAX_TRANSFER_DEVICES \<le> hm_len ?m")
    case False
    have "finite (dom ?m)" using assms by (simp add: share_inv_def)
    then have "hm_len (?m(did \<mapsto> t)) \<le> MAX_TRANSFER_DEVICES"
      using False assms by (auto simp: hm_len_update share_inv_def)
    then show ?thesis using assms False Some by (auto simp: record_batch_totals_def share_broadcast_def share_inv_def)
  qed (use assms Some in \<open>simp add: record_batch_totals_def\<close>)
qed (use assms in \<open>simp add: record_batch_totals_def\<close>)

lemma share_inv_text: "share_inv s \<Longrightarrow> share_inv (receive_text rnd ws did txt s)"
  by (auto simp: receive_text_def on_disk_def share_broadcast_def share_inv_def split: prod.splits sum.splits intro: push_received_bound)

lemma share_inv_url: "share_inv s \<Longrightarrow> share_inv (receive_url opener did url s)"
  by (auto simp: receive_url_def Let_def share_broadcast_def share_inv_def)

lemma share_inv_start:
  assumes "share_inv s"
  shows "share_inv (start_transfer did p v s)"
proof (cases "\<exists>info sz cm. resolve_transfer_info did info s \<noteq> None \<and> transfer_info_of_json v = Inr info
    \<and> packet_payload_size p = Some sz \<and> share_certs s = Some cm")
  case True
  then obtain info info' sz cm where pre: "resolve_transfer_info did info s = Some info'" "transfer_info_of_json v = Inr info"
    "packet_payload_size p = Some sz" "share_certs s = Some cm" by auto
  obtain b t where acq: "try_acquire_transfer_permits did s = (b, t)" by fastforce
  have ok: "permits_ok (global_transfer_permits s) (device_transfer_permits s) (share_jobs s)"
    using assms by (simp add: share_inv_def)
  from acq show ?thesis
  proof (cases rule: try_acquire_cases)
    case refused
    with assms pre acq show ?thesis by (simp add: start_transfer_def)
  next
    case (busy m)
    with pre acq have "start_transfer did p v s = s\<lparr>device_transfer_permits := m\<rparr>" by (simp add: start_transfer_def)
    with permits_ok_entered [OF ok busy(2)] assms show ?thesis by (simp add: share_inv_def)
  next
    case (granted m k)
    obtain j where j: "start_transfer did p v s = t\<lparr>share_jobs := share_jobs t @ [j]\<rparr>" "jb_device j = did" "jb_dir j = download_dir t"
      using granted(1) pre acq by (auto simp: start_transfer_def)
    have "permits_ok (global_transfer_permits s - 1) (m(did \<mapsto> k)) (share_jobs s @ [j])"
      using permits_ok_granted [OF permits_ok_entered [OF ok granted(2)] granted(3,4) j(2)] .
    with assms j granted(5) show ?thesis by (auto simp: share_inv_def)
  qed
next
  case False
  then have "start_transfer did p v s = s"
    by (auto simp: start_transfer_def split: sum.splits option.splits)
  with assms show ?thesis by simp
qed

lemma share_inv_packet: "share_inv s \<Longrightarrow> share_inv (share_handle_packet V did p s)"
  by (simp add: share_handle_packet_def Let_def share_inv_batch share_inv_text share_inv_url share_inv_start split: option.splits)

lemma receive_file_async_part:
  "share_part (receive_file_async E R V j s) =
     (download_dir s, received_files (receive_file_async E R V j s), global_transfer_permits s, device_transfer_permits s,
      batch_totals_of s, opened_urls s, share_jobs s)"
  "length (received_files s) \<le> MAX_RECEIVED_FILES \<Longrightarrow> length (received_files (receive_file_async E R V j s)) \<le> MAX_RECEIVED_FILES"
  by (auto simp: receive_file_async_def on_disk_def share_part_def split: prod.splits sum.splits intro: push_received_bound)

lemma share_inv_finish:
  assumes "share_inv s"
  shows "share_inv (finish_job E R V n s)"
proof (cases "n < length (share_jobs s)")
  case True
  let ?j = "share_jobs s ! n"
  note part = receive_file_async_part(1) [of E R V ?j s, unfolded share_part_def]
  have jobs: "set (take n (share_jobs s) @ drop (Suc n) (share_jobs s)) \<subseteq> set (share_jobs s)"
    by (auto dest: in_set_takeD in_set_dropD)
  have ok: "permits_ok (global_transfer_permits s) (device_transfer_permits s) (share_jobs s)"
    using assms by (simp add: share_inv_def)
  show ?thesis
    using assms part receive_file_async_part(2) [of s E R V ?j] permits_ok_released [OF ok True] True jobs
    by (auto simp: finish_job_def Let_def release_permits_def share_inv_def simp del: set_append)
qed (use assms in \<open>simp add: finish_job_def\<close>)

lemma share_step_inv: "share_step E R s t \<Longrightarrow> share_inv s \<Longrightarrow> share_inv t"
proof (induction rule: share_step.induct)
  case (disconnected s did)
  have "hm_len (hm_remove did (batch_totals_of s)) \<le> hm_len (batch_totals_of s)"
    using disconnected by (intro hm_len_remove_le) (simp add: share_inv_def)
  with disconnected show ?case by (auto simp: share_on_disconnected_def share_inv_def)
next
  case (elsewhere t s)
  then show ?case using share_inv_cong by blast
qed (simp_all add: share_inv_packet share_inv_finish)

interpretation sharing: machine "share_step E R" share_inv for E R
  by unfold_locales (rule share_step_inv)

text \<open>The state \<open>SharePlugin::new\<close> starts with.\<close>

definition new_share :: "'z share_daemon_scheme \<Rightarrow> bool" where
  "new_share s \<longleftrightarrow> received_files s = [] \<and> global_transfer_permits s = MAX_TRANSFERS_GLOBAL
     \<and> device_transfer_permits s = Map.empty \<and> batch_totals_of s = Map.empty \<and> opened_urls s = [] \<and> share_jobs s = []"

lemma new_share_inv: "new_share s \<Longrightarrow> share_inv s"
  by (simp add: new_share_def share_inv_def permits_ok_def device_ok_def)

lemma allowed_url_scheme_Some:
  assumes "allowed_url_scheme url = Some s"
  shows "s \<in> set ALLOWED_URL_SCHEMES \<and> \<not> list_ex is_control (chars_of url)
    \<and> (\<exists>scheme rest. url = scheme @ '':'' @ rest \<and> rest \<noteq> [] \<and> map ascii_lower scheme = s)"
  using assms split_once_Some
  by (fastforce simp: allowed_url_scheme_def Let_def split: if_splits option.splits list.splits)

text \<open>Property C16.
  The share plugin cannot be flooded and opens only harmless links. However packets, ends of
  transfers, disconnections and the work of other components interleave, from a new plugin on: at
  most 8 files are being received, at most 3 from one device, every permit that is not free belongs
  to a running transfer (so none is ever lost), the tables keep to 64 devices and the history to 100
  files, and every link handed to the desktop has no control characters and one of the six allowed
  schemes.\<close>
theorem share_reachable:
  assumes "reach (share_step E R) s0 s" and "new_share s0"
  shows "global_transfer_permits s + length (share_jobs s) = 8 \<and> jobs_of did (share_jobs s) \<le> 3
    \<and> hm_len (device_transfer_permits s) \<le> 64 \<and> hm_len (batch_totals_of s) \<le> 64 \<and> length (received_files s) \<le> 100
    \<and> (url \<in> set (opened_urls s) \<longrightarrow> \<not> list_ex is_control (chars_of url)
        \<and> (\<exists>scheme rest. url = scheme @ '':'' @ rest \<and> rest \<noteq> [] \<and> map ascii_lower scheme \<in> set ALLOWED_URL_SCHEMES))"
proof -
  have inv: "share_inv s" by (rule sharing.reach_inv [OF assms(1) new_share_inv [OF assms(2)]])
  have "device_ok (device_transfer_permits s did) (jobs_of did (share_jobs s))"
    using inv by (simp add: share_inv_def permits_ok_def)
  then have "jobs_of did (share_jobs s) \<le> 3"
    by (auto simp: device_ok_def MAX_TRANSFERS_PER_DEVICE_def split: option.splits)
  moreover have "\<not> list_ex is_control (chars_of url)
      \<and> (\<exists>scheme rest. url = scheme @ '':'' @ rest \<and> rest \<noteq> [] \<and> map ascii_lower scheme \<in> set ALLOWED_URL_SCHEMES)"
    if "url \<in> set (opened_urls s)"
  proof -
    obtain x where "allowed_url_scheme url = Some x" using inv \<open>url \<in> set (opened_urls s)\<close> by (auto simp: share_inv_def)
    from allowed_url_scheme_Some [OF this] show ?thesis by blast
  qed
  ultimately show ?thesis
    using inv by (simp add: share_inv_def permits_ok_def MAX_TRANSFERS_GLOBAL_def MAX_TRANSFER_DEVICES_def MAX_RECEIVED_FILES_def)
qed

lemma receive_file_async_disk:
  "sh_disk (receive_file_async E R V j s) = snd (receive_job E R V j (sh_disk s))"
  by (auto simp: receive_file_async_def on_disk_def split: prod.splits sum.splits)

lemma receive_text_disk:
  "sh_disk (receive_text rnd ws did txt s) = sh_disk s
   \<or> sh_disk (receive_text rnd ws did txt s) = snd (store_text (download_dir s) rnd ws txt (sh_disk s))"
  by (auto simp: receive_text_def on_disk_def share_broadcast_def split: prod.splits sum.splits)

lemma share_disk_frame [simp]:
  "sh_disk (record_batch_totals did body s) = sh_disk s" "download_dir (record_batch_totals did body s) = download_dir s"
  "sh_disk (receive_url opener did url s) = sh_disk s"
  by (simp_all add: record_batch_totals_def share_broadcast_def receive_url_def Let_def split: option.splits)

lemma start_transfer_disk [simp]: "sh_disk (start_transfer did p v s) = sh_disk s"
proof -
  obtain b t where acq: "try_acquire_transfer_permits did s = (b, t)" by fastforce
  then have "sh_disk t = sh_disk s" by (rule try_acquire_cases) simp_all
  with acq show ?thesis by (cases b) (simp_all add: start_transfer_def split: option.split sum.split)
qed

lemma share_handle_packet_disk:
  "sh_disk (share_handle_packet V did p s) = sh_disk s
   \<or> (\<exists>msg. sh_disk (share_handle_packet V did p s) = snd (store_text (download_dir s) (se_random V) (se_writes V) msg (sh_disk s)))"
proof -
  have stored: "sh_disk (receive_text (se_random V) (se_writes V) did m (record_batch_totals did b s)) = sh_disk s
      \<or> (\<exists>msg. sh_disk (receive_text (se_random V) (se_writes V) did m (record_batch_totals did b s))
                = snd (store_text (download_dir s) (se_random V) (se_writes V) msg (sh_disk s)))" for m b
    using receive_text_disk [of "se_random V" "se_writes V" did m "record_batch_totals did b s"] by auto
  show ?thesis
    unfolding share_handle_packet_def Let_def using stored by (simp split: option.split)
qed

text \<open>Property C17.
  What a device shares stays in the download directory and replaces nothing. In every reachable
  state, handling any packet and ending any transfer, with any file name the device chose, changes
  the disk's files at most at paths that held no file, directly in the download directory, with a
  name that is not empty, has no slash and is neither the directory itself nor its parent.\<close>
theorem share_confined:
  assumes "reach (share_step E R) s0 s" and "new_share s0"
    and "t = share_handle_packet V did p s \<or> t = finish_job E R W n s"
    and "files (sh_disk t) q \<noteq> files (sh_disk s) q"
  shows "files (sh_disk s) q = None \<and> fst q = download_dir s \<and> plain_name (snd q)"
  using assms(3)
proof
  assume t: "t = share_handle_packet V did p s"
  then have "\<exists>txt. sh_disk t = snd (store_text (download_dir s) (se_random V) (se_writes V) txt (sh_disk s))"
    using assms(4) share_handle_packet_disk [of V did p s] by auto
  then obtain msg r d' where "store_text (download_dir s) (se_random V) (se_writes V) msg (sh_disk s) = (r, d')" "sh_disk t = d'"
    by (metis prod.collapse)
  then show ?thesis
    using store_text_touches fresh_candidate_plain [OF _ text_filename_plain] assms(4) by metis
next
  assume t: "t = finish_job E R W n s"
  let ?j = "share_jobs s ! n"
  have n: "n < length (share_jobs s)" using t assms(4) by (cases "n < length (share_jobs s)") (simp_all add: finish_job_def)
  have dir: "jb_dir ?j = download_dir s"
    using sharing.reach_inv [OF assms(1) new_share_inv [OF assms(2)]] n by (simp add: share_inv_def)
  have "sh_disk t = snd (receive_job E R W ?j (sh_disk s))"
    using t n by (simp add: finish_job_def Let_def release_permits_def receive_file_async_disk)
  then obtain r d' where "receive_job E R W ?j (sh_disk s) = (r, d')" "sh_disk t = d'" by (metis prod.collapse)
  then obtain name where "sanitize_filename (jb_filename ?j) = Some name" "fresh_candidate (jb_dir ?j, name) (sh_disk s) q"
    using receive_job_touches assms(4) by metis
  then show ?thesis using fresh_candidate_plain sanitize_plain dir by metis
qed

section \<open>Witnesses\<close>

definition demo_share :: share_daemon where
  "demo_share = daemon.extend demo_daemon
     (share_daemon.fields ''dl'' [] 1000 (Some demo_certs) MAX_TRANSFERS_GLOBAL Map.empty Map.empty [] [] [])"

lemma demo_share_simps [simp]:
  "download_dir demo_share = ''dl''" "received_files demo_share = []" "global_transfer_permits demo_share = MAX_TRANSFERS_GLOBAL"
  "device_transfer_permits demo_share = Map.empty" "batch_totals_of demo_share = Map.empty" "opened_urls demo_share = []"
  "share_jobs demo_share = []" "sh_disk demo_share = demo_disk []"
  by (simp_all add: demo_share_def daemon.extend_def share_daemon.fields_def demo_daemon_def conn_mgr.extend_def daemon.fields_def
      demo_manager_def new_manager_def registry.extend_def conn_mgr.fields_def demo_registry_def pairing_handler.extend_def
      demo_handler_def new_handler_def)

lemma new_demo_share: "new_share demo_share"
  by (simp add: new_share_def)

definition demo_share_env :: share_env where
  "demo_share_env = \<lparr>se_opener = (\<lambda>_. True), se_random = 5, se_writes = []\<rparr>"

definition url_packet :: packet where
  "url_packet = new_packet 1 ''kdeconnect.share.request'' (JObj [(''url'', JStr ''https://kde.org'')])"

definition text_packet :: packet where
  "text_packet = new_packet 1 ''kdeconnect.share.request'' (JObj [(''text'', JStr ''hi'')])"

lemma demo_url: "allowed_url_scheme ''https://kde.org'' = Some ''https''"
  by code_simp

theorem share_reachable_witness:
  "''https://kde.org'' \<in> set (opened_urls (share_handle_packet demo_share_env demo_id url_packet demo_share))
   \<and> global_transfer_permits (share_handle_packet demo_share_env demo_id url_packet demo_share)
       + length (share_jobs (share_handle_packet demo_share_env demo_id url_packet demo_share)) = 8"
proof -
  have "reach (share_step demo_externals demo_rustls) demo_share (share_handle_packet demo_share_env demo_id url_packet demo_share)"
    by (rule reach_step, rule reach_init, rule packet)
  moreover have "''https://kde.org'' \<in> set (opened_urls (share_handle_packet demo_share_env demo_id url_packet demo_share))"
    by (simp add: share_handle_packet_def Let_def url_packet_def new_packet_def record_batch_totals_def parse_batch_totals_def
        receive_url_def demo_url share_broadcast_def)
  ultimately show ?thesis using share_reachable [OF _ new_demo_share] by blast
qed

lemma demo_text_stored:
  "files (sh_disk (share_handle_packet demo_share_env demo_id text_packet demo_share)) (''dl'', text_filename 5)
     = Some \<lparr>contents = ''hi'', fmode = 420\<rparr>"
proof -
  let ?p = "(''dl'', text_filename 5)"
  let ?d = "(demo_disk [])\<lparr>dirs := [''dl'' \<mapsto> 493]\<rparr>"
  have "fs_create_dir_all e ''dl'' (demo_disk []) = (Inr (), ?d)" for e
    by (simp add: fs_create_dir_all_def dir_exists_def demo_disk_def)
  moreover have "create_unique_destination ?p ?d = (Inr ?p, put_file ?p 420 [] ?d)"
    by (simp add: create_unique_destination_def MAX_COPIES_upt collision_candidate_def [of _ 0] fs_create_new_def path_exists_def
        demo_disk_def Let_def)
  ultimately have "store_text ''dl'' 5 [] ''hi'' (demo_disk []) = (Inr ?p, fs_append ?p ''hi'' (put_file ?p 420 [] ?d))"
    by (simp add: store_text_def write_all_def flush_ok_def)
  moreover have "files (fs_append ?p ''hi'' (put_file ?p 420 [] ?d)) ?p = Some \<lparr>contents = ''hi'', fmode = 420\<rparr>"
    by (simp add: files_fs_append put_file_def mode_for_def demo_disk_def)
  ultimately show ?thesis
    by (simp add: share_handle_packet_def Let_def text_packet_def new_packet_def record_batch_totals_def parse_batch_totals_def
        receive_text_def MAX_SHARE_TEXT_BYTES_def on_disk_def share_broadcast_def demo_share_env_def)
qed

theorem share_confined_witness:
  "files (sh_disk (share_handle_packet demo_share_env demo_id text_packet demo_share)) (''dl'', text_filename 5) \<noteq> None
   \<and> plain_name (text_filename 5) \<and> files (sh_disk demo_share) (''dl'', text_filename 5) = None"
proof -
  have "files (sh_disk (share_handle_packet demo_share_env demo_id text_packet demo_share)) (''dl'', text_filename 5)
      \<noteq> files (sh_disk demo_share) (''dl'', text_filename 5)"
    by (simp add: demo_text_stored) (simp add: demo_disk_def)
  then show ?thesis
    using share_confined [OF reach_init new_demo_share disjI1 [OF refl]] demo_text_stored by fastforce
qed

end
