(* ===== verification/Api_Access.thy ===== *)
theory Api_Access
  imports Own_Identity Net_Text
begin

text \<open>
  Settings and the gate of the HTTP API (\<open>src/config/settings.rs\<close>, \<open>src/bootstrap.rs\<close>,
  \<open>src/api/auth.rs\<close>, \<open>src/api/middleware.rs\<close>, \<open>src/api/router.rs\<close>): how the daemon comes to
  have an API key, how a request is checked against it, how often one address may ask, and in
  which order the layers of the router apply. Which handler a path belongs to is the web
  framework's matching and a parameter, as are the TOML codec, the host's name, the test for a
  UUID, fresh UUIDs and the evictions of the cache of rate-limit windows.
\<close>

section \<open>Settings\<close>

record runcommand_command =
  rc_key :: string
  rc_name :: string
  rc_command :: string

record app_settings =
  set_device_name :: string
  set_tcp_port :: u16
  set_udp_port :: u16
  set_cert_dir :: string
  set_data_dir :: string
  set_log_level :: string
  set_log_max_files :: u64
  set_api_enabled :: bool
  set_api_port :: u16
  set_api_bind :: string
  set_api_keys :: "string list"
  set_idle_timeout_secs :: u64
  set_ui_enabled :: bool
  set_allowed_origins :: "string list"
  set_runcommand :: "runcommand_command list"

text \<open>What settings take from other packages and from the host.\<close>

record host =
  ho_hostname :: "string option"
  ho_data_dir :: string
  ho_config_path :: path
  ho_uuid_ok :: "string \<Rightarrow> bool"
  ho_toml_parse :: "string \<Rightarrow> app_settings option"
  ho_toml_print :: "app_settings \<Rightarrow> string option"

definition default_settings :: "host \<Rightarrow> app_settings" where
  "default_settings H =
     \<lparr>set_device_name = ''Rust Connect Device'', set_tcp_port = DEFAULT_TCP_PORT, set_udp_port = DEFAULT_UDP_PORT,
      set_cert_dir = ho_data_dir H @ ''/certs'', set_data_dir = ho_data_dir H, set_log_level = ''info'',
      set_log_max_files = 24, set_api_enabled = True, set_api_port = 9090, set_api_bind = ''127.0.0.1'',
      set_api_keys = [], set_idle_timeout_secs = 0, set_ui_enabled = True, set_allowed_origins = [],
      set_runcommand = []\<rparr>"

definition api_key_path :: "app_settings \<Rightarrow> path" where
  "api_key_path c = (set_data_dir c, ''api_key'')"

text \<open>The key in the key file, if there is a readable one that is a UUID.\<close>

definition persisted_key :: "host \<Rightarrow> app_settings \<Rightarrow> disk \<Rightarrow> string option \<times> disk" where
  "persisted_key H c d =
     (if path_exists (api_key_path c) d then
        (case fs_read_to_string (Other ''read'') (api_key_path c) d of
           (Inr content, d') \<Rightarrow> (if ho_uuid_ok H (trim content) then Some (trim content) else None, d')
         | (Inl _, d') \<Rightarrow> (None, d'))
      else (None, d))"

definition persist_api_key :: "path \<Rightarrow> string \<Rightarrow> (disk, unit) op" where
  "persist_api_key p k =
     sbind (fs_create_dir_all (Other ''create_dir_all'') (fst p)) (\<lambda>_.
       write_private (Other ''set_permissions'') (Other ''open'') (Other ''write'') p k)"

definition ensure_api_key :: "host \<Rightarrow> string \<Rightarrow> app_settings \<Rightarrow> disk \<Rightarrow> app_settings \<times> disk" where
  "ensure_api_key H fresh c d =
     (if set_api_keys c \<noteq> [] then (c, d)
      else (case persisted_key H c d of
              (Some k, d1) \<Rightarrow> (c\<lparr>set_api_keys := [k]\<rparr>, d1)
            | (None, d1) \<Rightarrow> (c\<lparr>set_api_keys := [fresh]\<rparr>, snd (persist_api_key (api_key_path c) fresh d1))))"

definition initialize :: "host \<Rightarrow> string \<Rightarrow> app_settings \<Rightarrow> disk \<Rightarrow> app_settings \<times> disk" where
  "initialize H fresh c =
     ensure_api_key H fresh
       (case ho_hostname H of Some n \<Rightarrow> c\<lparr>set_device_name := n @ ''-RustConnect''\<rparr> | None \<Rightarrow> c)"

definition with_data_dir :: "string \<Rightarrow> app_settings \<Rightarrow> app_settings" where
  "with_data_dir p c = c\<lparr>set_data_dir := p, set_cert_dir := p @ ''/certs''\<rparr>"

definition load_from_file :: "host \<Rightarrow> path \<Rightarrow> (disk, app_settings) op" where
  "load_from_file H p =
     sbind (fs_read_to_string (ConfigError ''Failed to read config'') p) (\<lambda>content.
     sbind (slift (ok_or (Toml ''config'') (ho_toml_parse H content))) (\<lambda>c d.
       if set_api_keys c = [] then
         (case persisted_key H c d of
            (Some k, d') \<Rightarrow> (Inr (c\<lparr>set_api_keys := [k]\<rparr>), d')
          | (None, d') \<Rightarrow> (Inr c, d'))
       else (Inr c, d)))"

definition save_to_file :: "host \<Rightarrow> path \<Rightarrow> app_settings \<Rightarrow> (disk, unit) op" where
  "save_to_file H p c =
     sbind (fs_create_dir_all (ConfigError ''Failed to create config dir'') (fst p)) (\<lambda>_.
     sbind (slift (ok_or (ConfigError ''Failed to serialize config'') (ho_toml_print H c))) (\<lambda>content.
       write_private (ConfigError ''Failed to secure config'') (ConfigError ''Failed to write config'')
         (ConfigError ''Failed to write config'') p content))"

definition ensure_dirs_exist :: "app_settings \<Rightarrow> (disk, unit) op" where
  "ensure_dirs_exist c =
     sbind (fs_create_dir_all (ConfigError ''Failed to create data dir'') (set_data_dir c)) (\<lambda>_.
       fs_create_dir_all (ConfigError ''Failed to create cert dir'') (set_cert_dir c))"

definition validate :: "app_settings \<Rightarrow> unit res" where
  "validate c =
     (if set_api_port c = 0 then Inl (ConfigError ''api_port must be > 0 (port 0 is unpredictable)'')
      else if set_tcp_port c = 0 \<or> set_udp_port c = 0 then Inl (ConfigError ''tcp_port and udp_port must be > 0'')
      else Inr ())"

section \<open>Loading at start-up\<close>

datatype effective_config = Explicit path | Default path | Missing path | NoConfig

text \<open>\<open>stat_ok\<close> is false when the default path cannot be examined.\<close>

definition effective_config_path :: "path option \<Rightarrow> path \<Rightarrow> bool \<Rightarrow> disk \<Rightarrow> effective_config" where
  "effective_config_path config_path default_path stat_ok d =
     (case config_path of
        Some p \<Rightarrow> if path_exists p d then Explicit p else Missing p
      | None \<Rightarrow> if stat_ok \<and> path_exists default_path d then Default default_path else NoConfig)"

record overrides =
  ov_port :: "u16 option"
  ov_api_port :: "u16 option"
  ov_log_level :: "string option"
  ov_device_name :: "string option"
  ov_no_api :: bool
  ov_idle_timeout_secs :: "u64 option"

definition override :: "('a \<Rightarrow> 'b \<Rightarrow> 'b) \<Rightarrow> 'a option \<Rightarrow> 'b \<Rightarrow> 'b" where
  "override f x c = (case x of None \<Rightarrow> c | Some a \<Rightarrow> f a c)"

definition apply_overrides :: "overrides \<Rightarrow> app_settings \<Rightarrow> app_settings" where
  "apply_overrides ov c =
     override (\<lambda>t c. c\<lparr>set_idle_timeout_secs := t\<rparr>) (ov_idle_timeout_secs ov)
       ((\<lambda>c. if ov_no_api ov then c\<lparr>set_api_enabled := False\<rparr> else c)
         (override (\<lambda>n c. c\<lparr>set_device_name := n\<rparr>) (ov_device_name ov)
           (override (\<lambda>l c. c\<lparr>set_log_level := l\<rparr>) (ov_log_level ov)
             (override (\<lambda>p c. c\<lparr>set_api_port := p\<rparr>) (ov_api_port ov)
               (override (\<lambda>p c. c\<lparr>set_tcp_port := p, set_udp_port := p\<rparr>) (ov_port ov) c)))))"

text \<open>The two keys are what the generator yields at the two places that may need one.\<close>

definition load_config ::
    "host \<Rightarrow> string \<Rightarrow> string \<Rightarrow> bool \<Rightarrow> path option \<Rightarrow> overrides \<Rightarrow> (disk, app_settings) op" where
  "load_config H fresh1 fresh2 stat_ok config_path ov d0 =
     (case initialize H fresh1 (default_settings H) d0 of
        (c0, d) \<Rightarrow>
          (case effective_config_path config_path (ho_config_path H) stat_ok d of
             Explicit p \<Rightarrow>
               (case load_from_file H p d of
                  (Inl e, d') \<Rightarrow> (Inl e, d')
                | (Inr c, d') \<Rightarrow> (case ensure_api_key H fresh2 c d' of (c', d'') \<Rightarrow> (Inr (apply_overrides ov c'), d'')))
           | Default p \<Rightarrow>
               (case load_from_file H p d of
                  (Inl e, d') \<Rightarrow> (Inl e, d')
                | (Inr c, d') \<Rightarrow> (case ensure_api_key H fresh2 c d' of (c', d'') \<Rightarrow> (Inr (apply_overrides ov c'), d'')))
           | Missing _ \<Rightarrow> (Inr (apply_overrides ov c0), d)
           | NoConfig \<Rightarrow> (Inr (apply_overrides ov c0), d)))"

section \<open>Keys\<close>

definition byte :: "char \<Rightarrow> u8" where
  "byte c = of_nat (of_char c)"

definition xor_diff :: "string \<Rightarrow> string \<Rightarrow> u8" where
  "xor_diff a b = fold (\<lambda>(x, y) acc. or acc (xor (byte x) (byte y))) (zip a b) 0"

definition constant_time_contains :: "string list \<Rightarrow> string \<Rightarrow> bool" where
  "constant_time_contains keys target =
     (fold (\<lambda>k found. if length k = length target \<and> xor_diff k target = 0 then 1 else found) keys (0 :: u8) = 1)"

definition validate_api_key :: "string \<Rightarrow> string list \<Rightarrow> unit res" where
  "validate_api_key key allowed_keys =
     (if allowed_keys = [] then Inl (Unauthorized ''No API keys configured; refusing authentication'')
      else if constant_time_contains allowed_keys key then Inr () else Inl (Unauthorized ''Invalid API key''))"

section \<open>Requests\<close>

text \<open>The parts of a request the layers look at. The header is the value of \<open>X-API-Key\<close> when it is
  readable as text; the peer is the address the connection came from.\<close>

record request =
  rq_path :: string
  rq_query :: "string option"
  rq_key_header :: "string option"
  rq_peer :: "ip_addr option"

text \<open>The first parameter named \<open>api_key\<close> that has an equals sign.\<close>

fun query_key :: "string list \<Rightarrow> string option" where
  "query_key [] = None"
| "query_key (param # params) =
     (case split_once (CHR ''='') param of
        Some (k, v) \<Rightarrow> if k = ''api_key'' then Some v else query_key params
      | None \<Rightarrow> query_key params)"

definition presented_key :: "request \<Rightarrow> string option" where
  "presented_key rq =
     (case rq_key_header rq of
        Some k \<Rightarrow> Some k
      | None \<Rightarrow>
          if rq_path rq = ''/api/v1/events'' then
            (case rq_query rq of Some q \<Rightarrow> query_key (split_on (CHR ''&'') q) | None \<Rightarrow> None)
          else None)"

datatype 'r response = Served 'r | Unauthorized401 | RateLimited429 | NotFound404

type_synonym ('s, 'r) serving = "'s \<Rightarrow> 'r response \<times> 's"

definition auth_middleware :: "app_settings \<Rightarrow> request \<Rightarrow> ('s, 'r) serving \<Rightarrow> ('s, 'r) serving" where
  "auth_middleware c rq next s =
     (if (case presented_key rq of Some k \<Rightarrow> is_ok (validate_api_key k (set_api_keys c)) | None \<Rightarrow> False)
      then next s else (Unauthorized401, s))"

section \<open>The rate limiter\<close>

record client_rate_limiter =
  window_start :: instant
  request_count :: u64

type_synonym limiters = "ip_addr \<rightharpoonup> client_rate_limiter"

text \<open>\<open>elapsed().as_secs()\<close>: whole seconds, and no time at all if the clock ran backwards.\<close>

definition elapsed_secs :: "instant \<Rightarrow> instant \<Rightarrow> int" where
  "elapsed_secs since now = max 0 (now - since) div 1000000000"

definition upsert_window :: "instant \<Rightarrow> client_rate_limiter option \<Rightarrow> client_rate_limiter" where
  "upsert_window now existing =
     (case existing of
        Some e \<Rightarrow> if elapsed_secs (window_start e) now < 60
                  then e\<lparr>request_count := request_count e + 1\<rparr>
                  else \<lparr>window_start = now, request_count = 1\<rparr>
      | None \<Rightarrow> \<lparr>window_start = now, request_count = 1\<rparr>)"

definition client_ip :: "request \<Rightarrow> ip_addr" where
  "client_ip rq = (case rq_peer rq of Some ip \<Rightarrow> ip | None \<Rightarrow> V4 127 0 0 1)"

definition rate_check :: "instant \<Rightarrow> ip_addr \<Rightarrow> limiters \<Rightarrow> bool \<times> limiters" where
  "rate_check now ip m =
     (let e = upsert_window now (m ip) in (request_count e \<le> 100, m(ip \<mapsto> e)))"

section \<open>The router\<close>

definition api_bind_is_loopback :: "string \<Rightarrow> bool" where
  "api_bind_is_loopback b = (case parse_ip b of Some ip \<Rightarrow> is_loopback ip | None \<Rightarrow> False)"

definition ui_paths :: "string list" where
  "ui_paths = [''/'', ''/ui'', ''/ui/'', ''/ui/index.html'']"

text \<open>
  One request, from the outermost layer in. The web page is added after all layers and only sends
  static text; the health check is behind the limiter; everything else is behind the key as well.
  \<open>api_route\<close> is the handler of the request's method and path, if it has one.
\<close>

definition handle_request ::
    "app_settings \<Rightarrow> (request \<Rightarrow> ('s \<Rightarrow> 'r \<times> 's) option) \<Rightarrow> 'r \<Rightarrow> ('s \<Rightarrow> 'r) \<Rightarrow> instant \<Rightarrow> request
     \<Rightarrow> limiters \<times> 's \<Rightarrow> 'r response \<times> limiters \<times> 's" where
  "handle_request c api_route page health now rq ms =
     (case ms of (m, s) \<Rightarrow>
      if set_ui_enabled c \<and> rq_path rq \<in> set ui_paths then (Served page, m, s)
      else (let (allowed, m') = (if api_bind_is_loopback (set_api_bind c) then (True, m) else rate_check now (client_ip rq) m) in
            if \<not> allowed then (RateLimited429, m', s)
            else if rq_path rq = ''/api/v1/health'' then (Served (health s), m', s)
            else (case api_route rq of
                    None \<Rightarrow> (NotFound404, m', s)
                  | Some handler \<Rightarrow>
                      (case auth_middleware c rq (\<lambda>s. case handler s of (r, s') \<Rightarrow> (Served r, s')) s of
                         (r, s') \<Rightarrow> (r, m', s')))))"

section \<open>The comparison of keys\<close>

lemma byte_eq_iff [simp]: "byte x = byte y \<longleftrightarrow> x = y"
proof -
  have "of_char z < (256 :: nat)" for z :: char
    by simp
  then have "unat (byte z) = of_char z" for z
    by (simp add: byte_def unat_of_nat take_bit_eq_mod)
  then show ?thesis
    by (metis of_char_eq_iff)
qed

lemma xor_fold_zero_iff:
  "fold (\<lambda>(x, y) acc. or acc (xor (byte x) (byte y))) ps acc = 0 \<longleftrightarrow> acc = 0 \<and> (\<forall>(x, y) \<in> set ps. x = y)"
proof (induction ps arbitrary: acc)
  case (Cons p ps)
  have "xor (byte x) (byte y) = 0 \<longleftrightarrow> x = y" for x y
    by (metis byte_eq_iff xor_self_eq xor.assoc xor.left_neutral xor.right_neutral)
  then show ?case
    using Cons by (cases p) (auto simp: or_eq_0_iff)
qed simp

lemma xor_diff_zero_iff: "length a = length b \<Longrightarrow> xor_diff a b = 0 \<longleftrightarrow> a = b"
  by (simp add: xor_diff_def xor_fold_zero_iff list_eq_iff_zip_eq)

lemma found_fold:
  "fold (\<lambda>k found. if length k = length t \<and> xor_diff k t = 0 then 1 else found) keys (f :: u8)
     = (if t \<in> set keys then 1 else f)"
  by (induction keys arbitrary: f) (auto simp: xor_diff_zero_iff)

text \<open>the comparison that looks at every byte of every key, whatever it has seen so
  far, finds a key exactly when it is one of the configured keys.
\<close>

theorem constant_time_contains_member: "constant_time_contains keys target \<longleftrightarrow> target \<in> set keys"
  by (simp add: constant_time_contains_def found_fold)

section \<open>Who is served\<close>

text \<open>What a caller may present: a configured key in the header or, for the event stream only and
  without the header, in the query.\<close>

definition offers_key :: "request \<Rightarrow> string \<Rightarrow> bool" where
  "offers_key rq k \<longleftrightarrow> rq_key_header rq = Some k
     \<or> rq_key_header rq = None \<and> rq_path rq = ''/api/v1/events''
       \<and> (\<exists>q. rq_query rq = Some q \<and> ''api_key='' @ k \<in> set (split_on (CHR ''&'') q))"

lemma query_key_Some: "query_key params = Some k \<Longrightarrow> ''api_key='' @ k \<in> set params"
proof (induction params)
  case (Cons p ps)
  show ?case
  proof (cases "split_once (CHR ''='') p")
    case None
    with Cons show ?thesis by simp
  next
    case (Some kv)
    obtain a b where kv: "kv = (a, b)" by fastforce
    with Some have "p = a @ CHR ''='' # b" by (simp add: split_once_Some)
    with Cons Some kv show ?thesis by (cases "a = ''api_key''") simp_all
  qed
qed simp

lemma presented_key_presents: "presented_key rq = Some k \<Longrightarrow> offers_key rq k"
  by (auto simp: presented_key_def offers_key_def split: option.splits if_splits dest: query_key_Some)

lemma validate_api_key_ok: "is_ok (validate_api_key k keys) \<longleftrightarrow> k \<in> set keys"
  by (auto simp: validate_api_key_def constant_time_contains_def found_fold)

lemma auth_middleware_runs:
  "auth_middleware c rq next s =
     (if \<exists>k \<in> set (set_api_keys c). presented_key rq = Some k then next s else (Unauthorized401, s))"
  by (auto simp: auth_middleware_def validate_api_key_ok split: option.splits)

text \<open>Property C15.
  Without a configured key nothing of the daemon is reached: a request that presents none of the
  keys leaves the daemon's state alone, and its answer does not depend on the handlers at all,
  only on whether the path has one. With no key configured that is every request.
\<close>

theorem api_guarded:
  assumes "\<forall>k \<in> set (set_api_keys c). \<not> offers_key rq k"
    and "(api_route rq = None) = (other_route rq = None)"
    and "handle_request c api_route page health now rq (m, s) = (r, m', s')"
  shows "s' = s \<and> handle_request c other_route page health now rq (m, s) = (r, m', s)
    \<and> (r \<in> {Served page, Served (health s), Unauthorized401, RateLimited429, NotFound404})"
proof -
  have "\<not> (\<exists>k \<in> set (set_api_keys c). presented_key rq = Some k)"
    using assms(1) presented_key_presents by blast
  then show ?thesis
    using assms(2,3)
    by (auto simp: handle_request_def auth_middleware_runs Let_def split: prod.splits if_splits option.splits)
qed

section \<open>How often\<close>

datatype limiter_event = Asked instant ip_addr | Evicted "ip_addr set"

text \<open>The decisions on a sequence of requests, between which the cache may forget windows.\<close>

fun limiter_run :: "limiter_event list \<Rightarrow> limiters \<Rightarrow> (ip_addr \<times> bool) list" where
  "limiter_run [] m = []"
| "limiter_run (Asked now ip # es) m = (let (ok, m') = rate_check now ip m in (ip, ok) # limiter_run es m')"
| "limiter_run (Evicted S # es) m = limiter_run es (m |` (- S))"

definition decisions :: "ip_addr \<Rightarrow> limiter_event list \<Rightarrow> limiters \<Rightarrow> bool list" where
  "decisions ip es m = map snd (filter (\<lambda>d. fst d = ip) (limiter_run es m))"

fun asks :: "ip_addr \<Rightarrow> limiter_event list \<Rightarrow> nat" where
  "asks ip [] = 0"
| "asks ip (Asked t i # es) = (if i = ip then Suc (asks ip es) else asks ip es)"
| "asks ip (Evicted S # es) = asks ip es"

text \<open>All requests of \<open>ip\<close> come within a minute from \<open>begun\<close> on and its window is not evicted.\<close>

definition within_minute :: "instant \<Rightarrow> ip_addr \<Rightarrow> limiter_event list \<Rightarrow> bool" where
  "within_minute begun ip es \<longleftrightarrow> (\<forall>e \<in> set es. case e of Asked t i \<Rightarrow> i = ip \<longrightarrow> begun \<le> t \<and> t < begun + secs 60
      | Evicted S \<Rightarrow> ip \<notin> S)"

lemma decisions_simps [simp]:
  "decisions ip [] m = []"
  "decisions ip (Evicted S # es) m = decisions ip es (m |` (- S))"
  "i \<noteq> ip \<Longrightarrow> decisions ip (Asked t i # es) m = decisions ip es (m(i \<mapsto> upsert_window t (m i)))"
  "decisions ip (Asked t ip # es) m =
     (request_count (upsert_window t (m ip)) \<le> 100) # decisions ip es (m(ip \<mapsto> upsert_window t (m ip)))"
  by (simp_all add: decisions_def rate_check_def Let_def)

lemma within_minute_simps [simp]:
  "within_minute begun ip (Asked t i # es) \<longleftrightarrow> (i = ip \<longrightarrow> begun \<le> t \<and> t < begun + secs 60) \<and> within_minute begun ip es"
  "within_minute begun ip (Evicted S # es) \<longleftrightarrow> ip \<notin> S \<and> within_minute begun ip es"
  by (simp_all add: within_minute_def)

lemma same_window: "begun \<le> w \<Longrightarrow> t < begun + secs 60 \<Longrightarrow> elapsed_secs w t < 60"
  by (auto simp: elapsed_secs_def secs_def)

lemma quota_Suc:
  "replicate (min (Suc n) l) True @ replicate (Suc n - l) False =
     (0 < l) # replicate (min n (l - 1)) True @ replicate (n - (l - 1)) False"
  by (cases l) simp_all

lemma decisions_open_window:
  assumes "m ip = Some \<lparr>window_start = w, request_count = of_nat k\<rparr>" and "begun \<le> w" and "within_minute begun ip es"
    and "k + asks ip es < 2 ^ 64"
  shows "decisions ip es m = replicate (min (asks ip es) (100 - k)) True @ replicate (asks ip es - (100 - k)) False"
  using assms(1,3,4)
proof (induction es arbitrary: m k)
  case (Cons e es)
  show ?case
  proof (cases e)
    case (Evicted S)
    with Cons show ?thesis by simp
  next
    case (Asked t i)
    show ?thesis
    proof (cases "i = ip")
      case False
      with Cons Asked show ?thesis by simp
    next
      case True
      have up: "upsert_window t (m ip) = \<lparr>window_start = w, request_count = of_nat (Suc k)\<rparr>"
        using Cons.prems(1,2) same_window [OF assms(2), of t] Asked True by (simp add: upsert_window_def add.commute)
      have "Suc k < 2 ^ LENGTH(64)"
        using Cons.prems(3) Asked True by simp
      then have le: "of_nat (Suc k) \<le> (100 :: u64) \<longleftrightarrow> Suc k \<le> 100"
        by (simp add: word_le_nat_alt unat_of_nat take_bit_eq_mod del: of_nat_Suc)
      have "decisions ip es (m(ip \<mapsto> upsert_window t (m ip))) =
          replicate (min (asks ip es) (100 - Suc k)) True @ replicate (asks ip es - (100 - Suc k)) False"
        by (rule Cons.IH) (use Cons.prems(2,3) Asked True up in simp_all)
      then show ?thesis
        using Asked True up le quota_Suc [of "asks ip es" "100 - k"] by auto
    qed
  qed
qed simp

text \<open>The limiter lets exactly the first hundred requests of an address through: of the requests one
  address makes within a minute from its first one, the first 100 pass and the others do not,
  whatever other addresses do in between, as long as the cache does not forget the address.
\<close>

theorem rate_limit_exact:
  assumes "m ip = None" and "within_minute begun ip es" and "asks ip es < 2 ^ 64"
  shows "decisions ip es m = replicate (min (asks ip es) 100) True @ replicate (asks ip es - 100) False"
  using assms
proof (induction es arbitrary: m)
  case (Cons e es)
  show ?case
  proof (cases e)
    case (Evicted S)
    with Cons show ?thesis by simp
  next
    case (Asked t i)
    show ?thesis
    proof (cases "i = ip")
      case False
      with Cons Asked show ?thesis by simp
    next
      case True
      let ?w = "upsert_window t (m ip)"
      have "?w = \<lparr>window_start = t, request_count = of_nat 1\<rparr>"
        using Cons.prems(1) by (simp add: upsert_window_def)
      moreover from this have "decisions ip es (m(ip \<mapsto> ?w)) = replicate (min (asks ip es) (100 - 1)) True @ replicate (asks ip es - (100 - 1)) False"
        by (intro decisions_open_window [where begun = begun and w = t]) (use Cons.prems Asked True in simp_all)
      ultimately show ?thesis
        using Asked True quota_Suc [of "asks ip es" 100] by simp
    qed
  qed
qed simp

theorem rate_limit_exact_witness:
  "decisions (V4 10 0 0 1) ([Asked 0 (V4 10 0 0 1), Evicted {V4 10 0 0 2}, Asked 5 (V4 10 0 0 2)] @ replicate 101 (Asked 7 (V4 10 0 0 1))) Map.empty
     = replicate 100 True @ replicate 2 False"
proof -
  let ?ip = "V4 10 0 0 1" and ?es = "[Asked 0 (V4 10 0 0 1), Evicted {V4 10 0 0 2}, Asked 5 (V4 10 0 0 2)] @ replicate 101 (Asked 7 (V4 10 0 0 1))"
  have a: "asks ip (replicate n (Asked t ip)) = n" for ip n t
    by (induction n) simp_all
  then have "asks ?ip ?es = 102" by simp
  moreover have "within_minute 0 ?ip ?es" by (simp add: within_minute_def secs_def)
  ultimately show ?thesis
    using rate_limit_exact [of Map.empty ?ip 0 ?es] by (simp del: decisions_simps within_minute_simps)
qed

section \<open>The key of an installation\<close>

lemma persisted_key_files: "persisted_key H c d = (x, d') \<Longrightarrow> files d' = files d"
  by (auto simp: persisted_key_def split: prod.splits sum.splits if_splits dest!: read_to_string_files)

lemma persist_api_key_effect:
  assumes "persist_api_key p k d = (r, d')"
  shows "(\<forall>q. q \<noteq> p \<longrightarrow> files d' q = files d q)
    \<and> (files d' p = files d p \<or> (\<exists>f. files d' p = Some f \<and> fmode f = mode_0600))"
proof -
  obtain x d1 where 1: "fs_create_dir_all (Other ''create_dir_all'') (fst p) d = (x, d1)" by fastforce
  note f = fs_dir_frame(1) [OF 1]
  show ?thesis
  proof (cases x)
    case (Inl e)
    with assms 1 have "d' = d1" by (simp add: persist_api_key_def)
    with f show ?thesis by simp
  next
    case (Inr u)
    with assms 1 have w: "write_private (Other ''set_permissions'') (Other ''open'') (Other ''write'') p k d1 = (r, d')"
      by (simp add: persist_api_key_def)
    from write_private_other [OF w] write_private_mode(1) [OF w] f show ?thesis
      by (simp del: split_paired_All)
  qed
qed

lemma write_private_quiet:
  assumes "script d = []"
  shows "\<exists>d'. write_private e1 e2 e3 p k d = (Inr (), d') \<and> script d' = [] \<and> files d' p = Some \<lparr>contents = k, fmode = mode_0600\<rparr>"
  using assms
  by (auto simp: write_private_def sbind_def path_exists_def fs_set_mode_def next_outcome_def fs_open_truncate_def
      fs_write_mode_def put_file_def fs_write_all_def mode_for_def)

lemma persist_api_key_quiet:
  assumes "script d = []"
  shows "\<exists>d'. persist_api_key p k d = (Inr (), d') \<and> script d' = [] \<and> files d' p = Some \<lparr>contents = k, fmode = mode_0600\<rparr>"
proof -
  obtain d1 where "fs_create_dir_all (Other ''create_dir_all'') (fst p) d = (Inr (), d1)" "script d1 = []"
    using assms by (auto simp: fs_create_dir_all_def next_outcome_def)
  with write_private_quiet [OF this(2)] show ?thesis
    by (simp add: persist_api_key_def)
qed

lemma persisted_key_quiet:
  assumes "script d = []"
  shows "persisted_key H c d =
    (case files d (api_key_path c) of
       Some f \<Rightarrow> if valid_utf8 (contents f) \<and> ho_uuid_ok H (trim (contents f)) then Some (trim (contents f)) else None
     | None \<Rightarrow> None, d)"
  using assms
  by (auto simp: persisted_key_def path_exists_def fs_read_to_string_def sbind_def sreturn_def sfail_def split: option.splits)

text \<open>However the disk behaves, start-up never leaves the list of keys empty, keeps configured keys,
  and touches no file but the key file, which is private whenever it was written. When the disk
  works, the key is the same on the next start, so clients keep their access.
\<close>

theorem api_key_established:
  assumes "ensure_api_key H fresh c d = (c1, d1)"
  shows "set_api_keys c1 \<noteq> [] \<and> (set_api_keys c \<noteq> [] \<longrightarrow> (c1, d1) = (c, d))
    \<and> (\<forall>q. q \<noteq> api_key_path c \<longrightarrow> files d1 q = files d q)
    \<and> (files d1 (api_key_path c) = files d (api_key_path c) \<or> (\<exists>f. files d1 (api_key_path c) = Some f \<and> fmode f = mode_0600))
    \<and> (script d = [] \<and> ho_uuid_ok H fresh \<and> valid_utf8 fresh \<and> trim fresh = fresh
        \<longrightarrow> ensure_api_key H fresh2 c d1 = (c1, d1))"
proof (cases "set_api_keys c = []")
  case False
  with assms show ?thesis by (simp add: ensure_api_key_def)
next
  case True
  let ?p = "api_key_path c"
  obtain x d2 where k: "persisted_key H c d = (x, d2)" by fastforce
  note f2 = persisted_key_files [OF k]
  show ?thesis
  proof (cases x)
    case (Some key)
    with True k assms have c1: "c1 = c\<lparr>set_api_keys := [key]\<rparr>" "d1 = d2" by (simp_all add: ensure_api_key_def)
    moreover have "ensure_api_key H fresh2 c d1 = (c1, d1)" if "script d = []"
    proof -
      have "d2 = d" using k persisted_key_quiet [OF that, of H c] by simp
      with k True c1 Some show ?thesis by (simp add: ensure_api_key_def)
    qed
    ultimately show ?thesis using True f2 by simp
  next
    case None
    obtain r d3 where p: "persist_api_key ?p fresh d2 = (r, d3)" by fastforce
    with True k None assms have c1: "c1 = c\<lparr>set_api_keys := [fresh]\<rparr>" "d1 = d3" by (simp_all add: ensure_api_key_def)
    have "ensure_api_key H fresh2 c d1 = (c1, d1)"
      if "script d = []" "ho_uuid_ok H fresh" "valid_utf8 fresh" "trim fresh = fresh"
    proof -
      have "d2 = d" using k persisted_key_quiet [OF that(1), of H c] by simp
      with persist_api_key_quiet [of d ?p fresh] that(1) p c1(2)
      have "script d1 = []" "files d1 ?p = Some \<lparr>contents = fresh, fmode = mode_0600\<rparr>" by auto
      with that(2-4) persisted_key_quiet [of d1 H c] True c1 show ?thesis by (simp add: ensure_api_key_def)
    qed
    with True c1 f2 persist_api_key_effect [OF p] show ?thesis by (simp del: split_paired_All)
  qed
qed

definition demo_host :: host where
  "demo_host = \<lparr>ho_hostname = None, ho_data_dir = ''data'', ho_config_path = (''conf'', ''config.toml''), ho_uuid_ok = (\<lambda>s. length s = 4),
     ho_toml_parse = (\<lambda>_. None), ho_toml_print = (\<lambda>_. None)\<rparr>"

theorem api_key_established_witness:
  "\<exists>c1 d1. ensure_api_key demo_host ''k123'' (default_settings demo_host) (demo_disk []) = (c1, d1)
     \<and> set_api_keys c1 = [''k123''] \<and> ensure_api_key demo_host ''k456'' (default_settings demo_host) d1 = (c1, d1)"
proof -
  obtain c1 d1 where e: "ensure_api_key demo_host ''k123'' (default_settings demo_host) (demo_disk []) = (c1, d1)" by fastforce
  moreover have "set_api_keys c1 = [''k123'']"
    using e by (auto simp: ensure_api_key_def persisted_key_def path_exists_def demo_disk_def default_settings_def)
  moreover have "valid_utf8 ''k123''" "trim ''k123'' = ''k123''"
    by code_simp+
  ultimately show ?thesis
    using api_key_established [OF e, of "''k456''"] by (simp add: demo_host_def demo_disk_def)
qed

theorem api_guarded_witness:
  "(let c = (default_settings demo_host)\<lparr>set_api_keys := [''k123'']\<rparr>;
        rq = \<lparr>rq_path = ''/api/v1/devices'', rq_query = Some ''api_key=k123'', rq_key_header = None, rq_peer = None\<rparr>
    in handle_request c (\<lambda>_. Some (\<lambda>n. (''devices'', n + 1))) ''page'' (\<lambda>_. ''up'') 0 rq (Map.empty, 0 :: nat) = (Unauthorized401, Map.empty, 0)
     \<and> handle_request c (\<lambda>_. Some (\<lambda>n. (''other'', n + 2))) ''page'' (\<lambda>_. ''up'') 0 rq (Map.empty, 0 :: nat) = (Unauthorized401, Map.empty, 0))"
proof -
  let ?c = "(default_settings demo_host)\<lparr>set_api_keys := [''k123'']\<rparr>"
  let ?rq = "\<lparr>rq_path = ''/api/v1/devices'', rq_query = Some ''api_key=k123'', rq_key_header = None, rq_peer = None\<rparr>"
  let ?f = "\<lambda>_ :: request. Some (\<lambda>n :: nat. (''devices'', n + 1))" and ?g = "\<lambda>_ :: request. Some (\<lambda>n :: nat. (''other'', n + 2))"
  have l: "api_bind_is_loopback ''127.0.0.1''" by code_simp
  have r: "handle_request ?c ?f ''page'' (\<lambda>_. ''up'') 0 ?rq (Map.empty, 0) = (Unauthorized401, Map.empty, 0)"
    using l by (simp add: handle_request_def ui_paths_def default_settings_def auth_middleware_def presented_key_def)
  have "\<forall>k \<in> set (set_api_keys ?c). \<not> offers_key ?rq k" by (simp add: offers_key_def)
  from api_guarded [OF this, of ?f ?g, OF _ r] r show ?thesis unfolding Let_def by simp
qed

end
