(* ===== verification/Api_Devices.thy ===== *)
theory Api_Devices
  imports Sessions Net_Text
begin

text \<open>
  The device handlers of the HTTP API (\<open>src/api/handlers/device.rs\<close>, with
  \<open>src/api/types.rs\<close> and \<open>src/api/extractors.rs\<close>): listing, pairing, unpairing, deleting,
  dialling and disconnecting devices on behalf of a user. They run over the daemon's state
  beside the packet loops; a \<open>call\<close> carries, besides clock readings and packet ids, the effect
  of the other tasks between the steps of a handler (\<open>ca_env\<close>). A check and the action it
  guards at once (is the device connected, then send or disconnect) are one step.

  The cleanup of the file-system plugin that unpairing and deleting call directly is part of
  the call (\<open>ca_sftp_cleanup\<close>), like the plugins of the router. An error answers with the
  status and the code of the error; its text is left out.
\<close>

section \<open>Requests and answers\<close>

record 's call =
  ca_env :: "nat \<Rightarrow> 's \<Rightarrow> 's"
  ca_clk :: "nat \<Rightarrow> clock"
  ca_pid :: "nat \<Rightarrow> i64"
  ca_sftp_cleanup :: "device_key \<Rightarrow> 's \<Rightarrow> 's"

definition api_err :: "error \<Rightarrow> nat \<times> string" where
  "api_err e = (http_status (code e), as_str (code e))"

type_synonym 'a answer = "(nat \<times> string) + 'a"

definition answer :: "'a res \<times> 's \<Rightarrow> 'a answer \<times> 's" where
  "answer rs = (case rs of (Inl e, s) \<Rightarrow> (Inl (api_err e), s) | (Inr a, s) \<Rightarrow> (Inr a, s))"

record pair_response_body =
  pr_device_id :: device_key
  pr_status :: string

record device_summary =
  su_id :: device_key
  su_name :: string
  su_type :: dev_type
  su_state :: device_state
  su_last_seen :: instant
  su_paired_at :: "instant option"
  su_pair_state :: "string option"
  su_verification_key :: "string option"

definition summary :: "device \<Rightarrow> device_summary" where
  "summary d = \<lparr>su_id = dv_id d, su_name = dv_name d, su_type = dv_type d, su_state = dv_state d, su_last_seen = dv_last_seen d,
     su_paired_at = dv_paired_at d, su_pair_state = dv_pair_state d, su_verification_key = dv_verification_key d\<rparr>"

section \<open>Pages\<close>

definition usize_max :: nat where "usize_max = 2 ^ 64 - 1"

definition saturating_mul :: "nat \<Rightarrow> nat \<Rightarrow> nat" where
  "saturating_mul a b = min (a * b) usize_max"

definition saturating_add :: "nat \<Rightarrow> nat \<Rightarrow> nat" where
  "saturating_add a b = min (a + b) usize_max"

text \<open>\<open>parse\<close> of a \<open>usize\<close>: an optional plus sign, then digits only, within range.\<close>

definition parse_usize :: "string \<Rightarrow> nat option" where
  "parse_usize s =
     (let ds = (case s of c # cs \<Rightarrow> if c = CHR ''+'' then cs else s | [] \<Rightarrow> []) in
      if ds \<noteq> [] \<and> list_all (is_digit 10) ds \<and> digits_value 10 ds \<le> usize_max then Some (digits_value 10 ds) else None)"

definition page_of :: "(string \<rightharpoonup> string) \<Rightarrow> nat" where
  "page_of params = (case Option.bind (params ''page'') parse_usize of Some n \<Rightarrow> n | None \<Rightarrow> 1)"

definition limit_of :: "(string \<rightharpoonup> string) \<Rightarrow> nat" where
  "limit_of params = (case Option.bind (params ''limit'') parse_usize of Some n \<Rightarrow> n | None \<Rightarrow> 50)"

definition page_slice :: "nat \<Rightarrow> nat \<Rightarrow> 'a list \<Rightarrow> 'a list" where
  "page_slice page limit xs =
     (let total = length xs;
          start = min (saturating_mul (page - 1) limit) total;
          end' = min (saturating_add start limit) total
      in drop start (take end' xs))"

section \<open>Showing devices\<close>

definition reconcile_rendered_connection_state :: "'z conn_mgr_scheme \<Rightarrow> device \<Rightarrow> device" where
  "reconcile_rendered_connection_state s d =
     d\<lparr>dv_state := (if is_connected (dv_id d) s then device_state.Connected
                   else if dv_state d = device_state.Connected then device_state.Disconnected
                   else dv_state d)\<rparr>"

definition overlay_key :: "string option res \<Rightarrow> device \<Rightarrow> device" where
  "overlay_key r d = (case r of Inr (Some key) \<Rightarrow> set_verification_key key d | _ \<Rightarrow> d)"

definition render_device :: "externals \<Rightarrow> clock \<Rightarrow> device \<Rightarrow> 'z conn_mgr_scheme \<Rightarrow> device_summary \<times> 'z conn_mgr_scheme" where
  "render_device E clk d s =
     (let d1 = reconcile_paired_at (paired_since (dv_id d) s) (reconcile_rendered_connection_state s d);
          d2 = set_pair_state (as_api_str (pair_state (dv_id d) clk s)) d1;
          (key, s') = get_verification_key E (dv_id d) (clk 2) s
      in (summary (overlay_key key d2), s'))"

fun render_devices :: "externals \<Rightarrow> (nat \<Rightarrow> clock) \<Rightarrow> device list \<Rightarrow> 'z conn_mgr_scheme \<Rightarrow> device_summary list \<times> 'z conn_mgr_scheme" where
  "render_devices E clks [] s = ([], s)"
| "render_devices E clks (d # ds) s =
     (let (x, s1) = render_device E (clks 0) d s; (xs, s2) = render_devices E (\<lambda>n. clks (Suc n)) ds s1 in (x # xs, s2))"

text \<open>The registry lists its devices in the order of its table.\<close>

definition render_device_list ::
    "externals \<Rightarrow> (nat \<Rightarrow> clock) \<Rightarrow> device_key list \<Rightarrow> nat \<Rightarrow> nat \<Rightarrow> 'z conn_mgr_scheme
     \<Rightarrow> (device_summary list \<times> nat) \<times> 'z conn_mgr_scheme" where
  "render_device_list E clks order page limit s =
     (let devs = List.map_filter (devices s) order;
          (xs, s') = render_devices E clks (page_slice page limit devs) s
      in ((xs, length devs), s'))"

definition list_devices ::
    "externals \<Rightarrow> (nat \<Rightarrow> clock) \<Rightarrow> device_key list \<Rightarrow> (string \<rightharpoonup> string) \<Rightarrow> 'z conn_mgr_scheme
     \<Rightarrow> (device_summary list \<times> nat) answer \<times> 'z conn_mgr_scheme" where
  "list_devices E clks order params s =
     (case render_device_list E clks order (page_of params) (limit_of params) s of (r, s') \<Rightarrow> (Inr r, s'))"

definition get_device :: "externals \<Rightarrow> clock \<Rightarrow> device_key \<Rightarrow> 'z conn_mgr_scheme \<Rightarrow> device answer \<times> 'z conn_mgr_scheme" where
  "get_device E clk did s = answer (
     sbind (slift (validate_device_id E did)) (\<lambda>_.
     sbind (\<lambda>s. (reg_get did s, s)) (\<lambda>d s.
       (let (key, s1) = get_verification_key E did (clk 0) s;
            d1 = set_pair_state (as_api_str (pair_state did (\<lambda>n. clk (n + 1)) s1)) (overlay_key key d);
            d2 = reconcile_paired_at (paired_since did s1) d1
        in (Inr (reconcile_rendered_connection_state s1 d2), s1)))) s)"

definition get_device_state ::
    "externals \<Rightarrow> device_key \<Rightarrow> 'z conn_mgr_scheme \<Rightarrow> (device_state option \<times> instant option) answer \<times> 'z conn_mgr_scheme" where
  "get_device_state E did s = answer (
     sbind (slift (validate_device_id E did)) (\<lambda>_ s.
       (Inr (case get_state did s of Inr x \<Rightarrow> Some x | Inl _ \<Rightarrow> None,
             case get_state_since did s of Inr x \<Rightarrow> Some x | Inl _ \<Rightarrow> None), s)) s)"

definition list_connected_devices :: "device_key list \<Rightarrow> 'z conn_mgr_scheme \<Rightarrow> (device_key \<times> u64 option) list" where
  "list_connected_devices order s =
     map (\<lambda>did. (did, get_generation did s)) (filter (\<lambda>did. is_connected did s) order)"

section \<open>Pairing\<close>

definition stage_peer_cert :: "device_key \<Rightarrow> 'z conn_mgr_scheme \<Rightarrow> 'z conn_mgr_scheme" where
  "stage_peer_cert did s = (case get_peer_certificate did s of Some c \<Rightarrow> set_pending_peer_cert did c s | None \<Rightarrow> s)"

definition pair_device_accept ::
    "externals \<Rightarrow> ('z daemon_scheme) call \<Rightarrow> device_key \<Rightarrow> ('z daemon_scheme, pair_response_body) op" where
  "pair_device_accept E ca did s =
     (let s1 = ca_env ca 0 (stage_peer_cert did s) in
      if \<not> has_identity_anchor E did s1 then
        (Inl (PairingRejected ''Refusing pairing: no peer certificate (pending or pinned) was presented''),
         snd (reject_pairing did s1))
      else (case (if is_connected did s1
                  then send_packet E did (pair_response (ca_pid ca 0) True (now_ts (ca_clk ca 1 0))) (ca_clk ca 2) s1
                  else (Inl (ConnectionError ''Device is not connected''), s1)) of
              (Inl e, s2) \<Rightarrow> (Inl e, snd (reject_pairing did (ca_env ca 1 s2)))
            | (Inr _, s2) \<Rightarrow>
                (case accept_pairing E did (ca_clk ca 3) (ca_env ca 1 s2) of
                   (Inl e, s3) \<Rightarrow> (Inl e, s3)
                 | (Inr _, s3) \<Rightarrow> (Inr \<lparr>pr_device_id = did, pr_status = ''paired''\<rparr>, queue_init did s3))))"

definition pair_device_initiate ::
    "externals \<Rightarrow> ('z daemon_scheme) call \<Rightarrow> device_key \<Rightarrow> ('z daemon_scheme, pair_response_body) op" where
  "pair_device_initiate E ca did =
     sbind (initiate_pairing did (ca_clk ca 1)) (\<lambda>ts s1.
       (let s2 = ca_env ca 1 (stage_peer_cert did (ca_env ca 0 s1));
            s3 = (if is_connected did s2
                  then snd (send_packet E did (pair_request_with_timestamp (ca_pid ca 0) ts) (ca_clk ca 2) s2) else s2)
        in (Inr \<lparr>pr_device_id = did, pr_status = ''pairing_initiated''\<rparr>, s3)))"

definition pair_device ::
    "externals \<Rightarrow> ('z daemon_scheme) call \<Rightarrow> device_key \<Rightarrow> 'z daemon_scheme \<Rightarrow> pair_response_body answer \<times> 'z daemon_scheme" where
  "pair_device E ca did s = answer (
     sbind (slift (validate_device_id E did)) (\<lambda>_ s.
       if has_incoming_request did (ca_clk ca 0 0) s then pair_device_accept E ca did s
       else pair_device_initiate E ca did s) s)"

section \<open>Unpairing, deleting, connecting\<close>

definition notify_peer_unpair ::
    "externals \<Rightarrow> i64 \<Rightarrow> clock \<Rightarrow> device_key \<Rightarrow> 'z conn_mgr_scheme \<Rightarrow> 'z conn_mgr_scheme" where
  "notify_peer_unpair E pid clk did s =
     (if \<not> is_connected did s then s
      else snd (send_packet E did (pair_response pid False (now_ts (clk 0))) (\<lambda>n. clk (n + 1)) s))"

definition force_disconnect :: "device_key \<Rightarrow> 'z conn_mgr_scheme \<Rightarrow> 'z conn_mgr_scheme" where
  "force_disconnect did s = (case get_generation did s of Some g \<Rightarrow> snd (disconnect did g s) | None \<Rightarrow> s)"

definition unpair_device ::
    "('z daemon_scheme) site \<Rightarrow> ('z daemon_scheme) call \<Rightarrow> device_key \<Rightarrow> 'z daemon_scheme
     \<Rightarrow> pair_response_body answer \<times> 'z daemon_scheme" where
  "unpair_device H ca did s = answer (
     sbind (slift (validate_device_id (st_ext H) did)) (\<lambda>_ s.
       (let s1 = ca_env ca 0 (notify_peer_unpair (st_ext H) (ca_pid ca 0) (ca_clk ca 0) did s);
            s2 = ca_env ca 1 (if is_connected did s1 then force_disconnect did s1 else s1);
            s3 = ca_env ca 2 (ca_sftp_cleanup ca did s2);
            s4 = ca_env ca 3 (notify_disconnected (st_app H) did s3)
        in sbind (if is_paired did s4 then unpair (st_ext H) did else sreturn ()) (\<lambda>_.
             sreturn \<lparr>pr_device_id = did, pr_status = ''unpaired''\<rparr>) s4)) s)"

definition send_ping :: "externals \<Rightarrow> ('z daemon_scheme) call \<Rightarrow> device_key \<Rightarrow> 'z daemon_scheme \<Rightarrow> unit answer \<times> 'z daemon_scheme" where
  "send_ping E ca did s = answer (
     sbind (slift (validate_device_id E did)) (\<lambda>_. send_packet E did (ping (ca_pid ca 0)) (ca_clk ca 0)) s)"

definition delete_device ::
    "('z daemon_scheme) site \<Rightarrow> ('z daemon_scheme) call \<Rightarrow> device_key \<Rightarrow> 'z daemon_scheme \<Rightarrow> unit answer \<times> 'z daemon_scheme" where
  "delete_device H ca did s = answer (
     sbind (slift (validate_device_id (st_ext H) did)) (\<lambda>_ s.
       if \<not> contains did s then (Inl (not_found ''device'' (Some did)), s)
       else (let s1 = ca_env ca 0 (notify_peer_unpair (st_ext H) (ca_pid ca 0) (ca_clk ca 0) did s);
                 s2 = ca_env ca 1 (ca_sftp_cleanup ca did s1);
                 s3 = ca_env ca 2 (if is_connected did s2 then force_disconnect did s2 else s2);
                 s4 = ca_env ca 3 (snd (unpair (st_ext H) did s3));
                 s5 = snd (reg_remove (st_json H) did s4)
             in (Inr (), lifecycle_remove (st_json H) did s5))) s)"

definition read_port :: "nat reader" where
  "read_port s = Option.bind (read_given_char (CHR '':'') s) (\<lambda>(_, s'). read_number 10 (length s') 65536 True s')"

definition read_scope :: "string \<Rightarrow> string" where
  "read_scope s =
     (case Option.bind (read_given_char (CHR ''%'') s) (\<lambda>(_, s'). read_number 10 (length s') (2 ^ 32) True s') of
        Some (_, s') \<Rightarrow> s' | None \<Rightarrow> s)"

text \<open>\<open>FromStr\<close> of a socket address; a scope id is read and not kept.\<close>

definition parse_sock_addr :: "string \<Rightarrow> sock_addr option" where
  "parse_sock_addr s =
     (case Option.bind (read_ipv4_addr s) (\<lambda>(ns, s'). Option.bind (read_port s') (\<lambda>(p, s''). Some (ns, p, s''))) of
        Some (ns, p, []) \<Rightarrow> Some (SockAddr (V4 (of_nat (ns ! 0)) (of_nat (ns ! 1)) (of_nat (ns ! 2)) (of_nat (ns ! 3))) (of_nat p))
      | Some (ns, p, _ # _) \<Rightarrow> None
      | None \<Rightarrow>
          (case Option.bind (read_given_char (CHR ''['') s) (\<lambda>(_, s1).
                Option.bind (read_ipv6_addr s1) (\<lambda>(ip, s2).
                Option.bind (read_given_char (CHR '']'') (read_scope s2)) (\<lambda>(_, s3).
                Option.bind (read_port s3) (\<lambda>(p, s4). Some (ip, p, s4))))) of
             Some (ip, p, []) \<Rightarrow> Some (SockAddr ip (of_nat p))
           | _ \<Rightarrow> None))"

definition requested_address :: "json \<Rightarrow> sock_addr res" where
  "requested_address body =
     (case json_get body ''address'' of
        Some (JStr a) \<Rightarrow> ok_or (InvalidRequest ''Invalid address'') (parse_sock_addr a)
      | None \<Rightarrow> Inl (InvalidRequest ''address field required'')
      | Some _ \<Rightarrow> Inl (InvalidRequest ''address field must be a string''))"

definition connect_device ::
    "('z daemon_scheme) site \<Rightarrow> ('z daemon_scheme) attempt \<Rightarrow> device_key \<Rightarrow> json \<Rightarrow> 'z daemon_scheme
     \<Rightarrow> (device_key \<times> u64) answer \<times> 'z daemon_scheme" where
  "connect_device H at did body s = answer (
     sbind (slift (validate_device_id (st_ext H) did)) (\<lambda>_ s.
       if is_connected did s then (Inl (InvalidRequest ''Device is already connected''), s)
       else sbind (slift (requested_address body)) (\<lambda>addr s.
              (case get_identity s of
                 None \<Rightarrow> (Inl (Internal ''No device identity configured''), s)
               | Some our \<Rightarrow> connect_and_spawn_loop H our addr at s)) s) s)"

definition disconnect_device ::
    "('z daemon_scheme) site \<Rightarrow> ('z daemon_scheme) call \<Rightarrow> device_key \<Rightarrow> 'z daemon_scheme \<Rightarrow> unit answer \<times> 'z daemon_scheme" where
  "disconnect_device H ca did s = answer (
     sbind (slift (validate_device_id (st_ext H) did)) (\<lambda>_ s.
       if \<not> is_connected did s then (Inl (InvalidRequest ''Device is not connected''), s)
       else (Inr (), case get_generation did s of
                       Some g \<Rightarrow> drop_link (st_app H) did g (ca_clk ca 0) (ca_env ca 0 s)
                     | None \<Rightarrow> s)) s)"

section \<open>What the handlers leave alone\<close>

text \<open>The places of the certificates and of the registry's file never change.\<close>

definition places :: "'z registry_scheme \<Rightarrow> certificate_manager \<times> path option" where
  "places s = (cert_manager s, reg_path s)"

lemma places_apart: "places t = places s \<Longrightarrow> reg_apart t = reg_apart s"
  by (simp add: places_def reg_apart_def)

lemma places_updates [simp]:
  "places (s\<lparr>sh_disk := d\<rparr>) = places s" "places (s\<lparr>sh_events := ev\<rparr>) = places s" "places (s\<lparr>outgoing := m\<rparr>) = places s"
  "places (s\<lparr>incoming := m\<rparr>) = places s" "places (s\<lparr>pending_certs := c\<rparr>) = places s" "places (s\<lparr>paired := p\<rparr>) = places s"
  "places (s\<lparr>devices := ds\<rparr>) = places s" "places (snd (on_disk m' s)) = places s" "places (emit e s) = places s"
  "places (broadcast e s) = places s"
  by (simp_all add: places_def on_disk_def emit_def broadcast_def split: prod.splits)

lemma places_more [simp]:
  "places (s\<lparr>connections := m\<rparr>) = places s"
  "places (s\<lparr>cancel_tokens := c\<rparr>) = places s" "places (s\<lparr>shutdowns := l\<rparr>) = places s"
  by (simp_all add: places_def)

lemma places_keeps_basic:
  "keeps places (slift x)" "keeps places (sfail e)" "keeps places (sreturn y)" "keeps places (on_disk m)"
  by (simp_all add: keeps_def slift_def sfail_def sreturn_def)

lemma places_save [simp]: "places (snd (save_to_disk E s)) = places s"
  by (simp add: save_to_disk_def Let_def split: option.splits)

lemma places_remove_pending: "keeps places (remove_pending_request did now)"
  by (auto simp: keeps_def remove_pending_request_def Let_def split: option.splits)

lemma places_complete: "keeps places (complete_pairing E did now)"
  by (simp add: keeps_def complete_pairing_def Let_def sbind_def sreturn_def on_disk_def split: option.splits prod.splits sum.splits)

lemma places_pairing:
  "keeps places (accept_pairing E did clk)" "keeps places (reject_pairing did)" "keeps places (unpair E did)"
  "keeps places (initiate_pairing did clk)"
proof -
  show "keeps places (accept_pairing E did clk)"
    unfolding accept_pairing_def by (auto intro!: keeps_bind places_remove_pending places_complete places_keeps_basic)
  show "keeps places (reject_pairing did)" "keeps places (unpair E did)"
    by (simp_all add: keeps_def reject_pairing_def unpair_def Let_def)
  show "keeps places (initiate_pairing did clk)"
    by (simp add: keeps_def initiate_pairing_def cleanup_expired_def sbind_def Let_def)
qed

lemma places_key: "keeps places (get_verification_key E did now)"
  unfolding keeps_def by (metis verification_key_files prod.collapse places_updates(1))

lemma places_disconnect [simp]: "places (snd (disconnect did g s)) = places s"
  by (simp add: disconnect_def Let_def remove_cancel_token_def split: option.splits)

lemma places_send [simp]: "places (snd (send_packet E did p clk s)) = places s"
  by (auto simp: send_packet_def Let_def split: option.splits prod.splits sum.splits)

text \<open>The state the handlers keep good: the trust invariant, and the registry's file outside the pins.\<close>

definition trust_ok :: "externals \<Rightarrow> 'z registry_scheme \<Rightarrow> bool" where
  "trust_ok E s \<longleftrightarrow> pairing_inv E s \<and> reg_apart s"

named_theorems trust_intros

lemma trust_ok_same: "trust t = trust s \<Longrightarrow> places t = places s \<Longrightarrow> trust_ok E s \<Longrightarrow> trust_ok E t"
  using trust_inv places_apart by (metis trust_ok_def)

lemma trust_ok_trusts: "trusts E t = trusts E s \<Longrightarrow> places t = places s \<Longrightarrow> trust_ok E s \<Longrightarrow> trust_ok E t"
  using trusts_inv places_apart by (metis trust_ok_def)

lemma trust_ok_send [trust_intros]: "trust_ok E s \<Longrightarrow> trust_ok E (snd (send_packet E' did p clk s))"
  by (rule trust_ok_same) simp_all

lemma trust_ok_disconnect [trust_intros]: "trust_ok E s \<Longrightarrow> trust_ok E (snd (disconnect did g s))"
  by (rule trust_ok_same) simp_all

lemma trust_ok_queue [trust_intros]: "trust_ok E s \<Longrightarrow> trust_ok E (queue_init did s)"
  by (rule trust_ok_same) (simp, simp add: queue_init_def places_def)

lemma trust_ok_stage [trust_intros]: "trust_ok E s \<Longrightarrow> trust_ok E (stage_peer_cert did s)"
  by (auto simp: trust_ok_def stage_peer_cert_def set_pending_peer_cert_def reg_apart_def split: option.splits)

lemma trust_ok_pairing [trust_intros]:
  "trust_ok E s \<Longrightarrow> trust_ok E (snd (reject_pairing did s))"
  "trust_ok E s \<Longrightarrow> trust_ok E (snd (unpair E' did s))"
  "trust_ok E s \<Longrightarrow> trust_ok E (snd (accept_pairing E did clk s))"
  "trust_ok E s \<Longrightarrow> trust_ok E (snd (initiate_pairing did clk s))"
  "trust_ok E s \<Longrightarrow> trust_ok E (snd (get_verification_key E' did now s))"
  unfolding trust_ok_def
  using places_apart places_pairing [unfolded keeps_def, rule_format] places_key [unfolded keeps_def, rule_format]
  by (blast intro: reject_inv [OF prod.collapse [symmetric]] unpair_inv [OF prod.collapse [symmetric]]
      accept_inv [OF prod.collapse [symmetric]] initiate_inv [OF prod.collapse [symmetric]]
      verification_key_inv [OF prod.collapse [symmetric]])+

lemma trust_ok_transition [trust_intros]: "trust_ok E s \<Longrightarrow> trust_ok E (try_transition did st clk s)"
  by (rule trust_ok_same)
     (simp, auto simp: try_transition_def transition_run Let_def split: option.splits if_splits)

lemma trust_ok_reg_remove [trust_intros]: "trust_ok E s \<Longrightarrow> trust_ok E (snd (reg_remove J did s))"
proof -
  assume ok: "trust_ok E s"
  have "trust_ok E (save_if_persistent J t)" if "trust_ok E t" for t :: "'a registry_scheme"
    using that save_if_persistent_trusts [of t E J]
    by (intro trust_ok_trusts [OF _ _ that]) (auto simp: trust_ok_def save_if_persistent_def reg_save_def Let_def split: option.splits)
  moreover have "trust_ok E (s\<lparr>devices := m\<rparr>)" for m
    using ok by (intro trust_ok_trusts [OF _ _ ok]) simp_all
  ultimately show ?thesis
    using ok by (auto simp: reg_remove_def Let_def split: option.splits)
qed

lemma trust_ok_lifecycle_remove [trust_intros]: "trust_ok E s \<Longrightarrow> trust_ok E (lifecycle_remove J did s)"
  unfolding lifecycle_remove_def by (rule trust_ok_reg_remove)

section \<open>Every handler keeps the trust\<close>

text \<open>What is asked of the other tasks and of the plugin a handler cleans up.\<close>

definition call_keeps :: "('s \<Rightarrow> bool) \<Rightarrow> 's call \<Rightarrow> bool" where
  "call_keeps P ca \<longleftrightarrow> (\<forall>n s. P s \<longrightarrow> P (ca_env ca n s)) \<and> (\<forall>did s. P s \<longrightarrow> P (ca_sftp_cleanup ca did s))"

lemma call_keepsD [trust_intros]:
  "call_keeps (trust_ok E) ca \<Longrightarrow> trust_ok E s \<Longrightarrow> trust_ok E (ca_env ca n s)"
  "call_keeps (trust_ok E) ca \<Longrightarrow> trust_ok E s \<Longrightarrow> trust_ok E (ca_sftp_cleanup ca did s)"
  by (simp_all add: call_keeps_def)

lemma answer_state [simp]: "snd (answer rs) = snd rs"
  by (auto simp: answer_def split: prod.splits sum.splits)

lemma validated: "snd (sbind (slift v) f s) = (case v of Inl e \<Rightarrow> s | Inr a \<Rightarrow> snd (f a s))"
  by (simp add: sbind_def slift_def split: sum.splits)

lemma slift_bind: "sbind (slift (Inr a)) f s = f a s" "sbind (slift (Inl e)) f s = (Inl e, s)"
  by (simp_all add: sbind_def slift_def)

lemma trust_ok_notify_unpair [trust_intros]: "trust_ok E s \<Longrightarrow> trust_ok E (notify_peer_unpair E' pid clk did s)"
  by (simp add: notify_peer_unpair_def trust_intros)

lemma trust_ok_force_disconnect [trust_intros]: "trust_ok E s \<Longrightarrow> trust_ok E (force_disconnect did s)"
  by (simp add: force_disconnect_def trust_intros split: option.splits)

lemma trust_ok_drop_link [trust_intros]:
  assumes "plugins_keep (trust_ok E) A" and "trust_ok E s"
  shows "trust_ok E (drop_link A did g clk s)"
proof -
  obtain r s1 where d: "disconnect did g s = (r, s1)" by fastforce
  with trust_ok_disconnect [OF assms(2), of did g] have "trust_ok E s1" by simp
  with d show ?thesis
    by (auto simp: drop_link_def intro: notify_disconnected_keeps [OF assms(1)] trust_intros split: sum.splits bool.splits)
qed

lemma pair_device_accept_ok:
  assumes "trust_ok E s" and "call_keeps (trust_ok E) ca"
  shows "trust_ok E (snd (pair_device_accept E ca did s))"
proof -
  define s1 where "s1 = ca_env ca 0 (stage_peer_cert did s)"
  have 1: "trust_ok E s1" unfolding s1_def by (intro trust_intros assms)
  obtain r s2 where send: "(if is_connected did s1
      then send_packet E did (pair_response (ca_pid ca 0) True (now_ts (ca_clk ca 1 0))) (ca_clk ca 2) s1
      else (Inl (ConnectionError ''Device is not connected''), s1)) = (r, s2)" by fastforce
  then have "s2 = s1 \<or> s2 = snd (send_packet E did (pair_response (ca_pid ca 0) True (now_ts (ca_clk ca 1 0))) (ca_clk ca 2) s1)"
    by (auto split: if_splits)
  with 1 have 2: "trust_ok E (ca_env ca 1 s2)"
    by (auto intro: trust_intros assms)
  obtain x s3 where acc: "accept_pairing E did (ca_clk ca 3) (ca_env ca 1 s2) = (x, s3)" by fastforce
  with trust_ok_pairing(3) [OF 2, of did "ca_clk ca 3"] have "trust_ok E s3" by simp
  with 1 2 send acc show ?thesis
    by (auto simp: pair_device_accept_def s1_def [symmetric] intro: trust_intros split: sum.splits)
qed

lemma pair_device_initiate_ok:
  assumes "trust_ok E s" and "call_keeps (trust_ok E) ca"
  shows "trust_ok E (snd (pair_device_initiate E ca did s))"
proof -
  obtain r s1 where i: "initiate_pairing did (ca_clk ca 1) s = (r, s1)" by fastforce
  with trust_ok_pairing(4) [OF assms(1), of did "ca_clk ca 1"] have "trust_ok E s1" by simp
  then have "trust_ok E (ca_env ca 1 (stage_peer_cert did (ca_env ca 0 s1)))"
    by (intro trust_intros assms(2))
  with i \<open>trust_ok E s1\<close> show ?thesis
    by (cases r) (auto simp: pair_device_initiate_def Let_def intro: trust_intros)
qed

lemma pair_device_ok:
  assumes "trust_ok E s" and "call_keeps (trust_ok E) ca"
  shows "trust_ok E (snd (pair_device E ca did s))"
  using assms pair_device_accept_ok pair_device_initiate_ok
  by (auto simp: pair_device_def validated split: sum.splits)

lemma unpair_device_ok:
  assumes "trust_ok (st_ext H) s" and "call_keeps (trust_ok (st_ext H)) ca" and "plugins_keep (trust_ok (st_ext H)) (st_app H)"
  shows "trust_ok (st_ext H) (snd (unpair_device H ca did s))"
proof -
  define s1 where "s1 = ca_env ca 0 (notify_peer_unpair (st_ext H) (ca_pid ca 0) (ca_clk ca 0) did s)"
  define s2 where "s2 = ca_env ca 1 (if is_connected did s1 then force_disconnect did s1 else s1)"
  define s3 where "s3 = ca_env ca 2 (ca_sftp_cleanup ca did s2)"
  define s4 where "s4 = ca_env ca 3 (notify_disconnected (st_app H) did s3)"
  have 1: "trust_ok (st_ext H) s1" unfolding s1_def by (intro trust_intros assms)
  then have 2: "trust_ok (st_ext H) s2" unfolding s2_def by (auto intro: trust_intros assms)
  then have "trust_ok (st_ext H) s3" unfolding s3_def by (intro trust_intros assms)
  then have 4: "trust_ok (st_ext H) s4" unfolding s4_def by (intro trust_intros assms notify_disconnected_keeps [OF assms(3)])
  show ?thesis
  proof (cases "validate_device_id (st_ext H) did")
    case (Inl e)
    with assms(1) show ?thesis by (simp add: unpair_device_def slift_bind)
  next
    case (Inr v)
    have "unpair_device H ca did s = answer (sbind (if is_paired did s4 then unpair (st_ext H) did else sreturn ()) (\<lambda>_.
        sreturn \<lparr>pr_device_id = did, pr_status = ''unpaired''\<rparr>) s4)"
      unfolding unpair_device_def Inr slift_bind Let_def s4_def s3_def s2_def s1_def by (rule refl)
    with 4 trust_ok_pairing(2) [OF 4, of "st_ext H" did] show ?thesis
      by (auto simp: sbind_def sreturn_def split: sum.splits prod.splits)
  qed
qed

lemma delete_device_ok:
  assumes "trust_ok (st_ext H) s" and "call_keeps (trust_ok (st_ext H)) ca"
  shows "trust_ok (st_ext H) (snd (delete_device H ca did s))"
  using assms
  by (auto simp: delete_device_def validated Let_def intro!: trust_intros split: sum.splits)

lemma disconnect_device_ok:
  assumes "trust_ok (st_ext H) s" and "call_keeps (trust_ok (st_ext H)) ca" and "plugins_keep (trust_ok (st_ext H)) (st_app H)"
  shows "trust_ok (st_ext H) (snd (disconnect_device H ca did s))"
  using assms
  by (auto simp: disconnect_device_def validated intro!: trust_intros split: sum.splits option.splits)

lemma send_ping_ok: "trust_ok E s \<Longrightarrow> trust_ok E (snd (send_ping E' ca did s))"
  by (auto simp: send_ping_def validated intro!: trust_intros split: sum.splits)

lemma get_device_ok: "trust_ok E s \<Longrightarrow> trust_ok E (snd (get_device E' clk did s))"
  using trust_ok_pairing(5) [of E s E' did "clk 0"]
  by (simp add: get_device_def validated split_beta Let_def sbind_def [of "\<lambda>s. (reg_get did s, s)"] split: sum.splits)

lemma render_device_ok: "trust_ok E s \<Longrightarrow> trust_ok E (snd (render_device E' clk d s))"
  using trust_ok_pairing(5) [of E s E' "dv_id d" "clk 2"] by (simp add: render_device_def Let_def split_beta)

lemma render_devices_ok: "trust_ok E s \<Longrightarrow> trust_ok E (snd (render_devices E' clks ds s))"
proof (induction ds arbitrary: clks s)
  case (Cons d ds)
  have "trust_ok E (snd (render_devices E' (\<lambda>n. clks (Suc n)) ds (snd (render_device E' (clks 0) d s))))"
    by (intro Cons.IH render_device_ok Cons.prems)
  then show ?case by (simp add: Let_def split_beta)
qed simp

lemma list_devices_ok: "trust_ok E s \<Longrightarrow> trust_ok E (snd (list_devices E' clks order params s))"
  by (simp add: list_devices_def render_device_list_def Let_def split_beta render_devices_ok)

text \<open>A dial leaves the pairing handler's tables and the pins alone.\<close>

definition handler_state :: "'z registry_scheme \<Rightarrow> _" where
  "handler_state s = (outgoing s, incoming s, paired s, config s, reg_path s)"

lemma handler_keeps:
  "keeps handler_state (slift x)" "keeps handler_state (on_disk m)" "keeps handler_state (check_peer_cert E did cert)"
  "keeps handler_state (install_outbound sent inp ws addr loc i cert now)"
  by (auto simp: keeps_def slift_def on_disk_def check_peer_cert_def sbind_def sfail_def install_outbound_def Let_def
      record_peer_capabilities_def next_generation_def evict_def remove_cancel_token_def cancel_loop_def
      cleanup_stale_generations_def handler_state_def config_def split: prod.splits option.splits sum.splits)

lemma connect_over_handler: "keeps handler_state (connect_over E R rnd p expected addr clk k)"
proof -
  have "keeps handler_state (sbind (on_disk a) (\<lambda>_. sbind (on_disk b) (\<lambda>cert. sbind (slift c) (\<lambda>ws.
      sbind (slift d) (\<lambda>(line, inp). sbind (slift (parse_identity E line)) (\<lambda>i.
        sbind (slift (matches_expected expected i)) (\<lambda>_. sbind (check_peer_cert E (device_id i) cert) (\<lambda>_.
          install_outbound (serialize E p) inp ws addr (so_local_addr k) i cert (clk 4)))))))))" for a b c d
    by (intro keeps_bind handler_keeps) (auto split: prod.splits intro!: keeps_bind handler_keeps)
  then show ?thesis unfolding connect_over_def keeps_def by blast
qed

lemma fallback_handler [simp]:
  "handler_state (send_reverse_connection_fallback E pid udp our ip port s) = handler_state s"
  "handler_state (s\<lparr>last_connection_attempt := m, plain_sent := l\<rparr>) = handler_state s"
  "handler_state (s\<lparr>last_connection_attempt := m\<rparr>) = handler_state s" 
  by (simp_all add: send_reverse_connection_fallback_def unicast_identity_def Let_def handler_state_def config_def split: udp_outcome.splits)

lemma connect_handler: "keeps handler_state (connect_to_device E R rnd pid udp our addr expected clk net)"
  by (simp add: keeps_def connect_to_device_def connect_to_device_with_fallback_port_def Let_def
      connect_over_handler [unfolded keeps_def, rule_format] split: sock_addr.splits dial.splits sum.splits)

lemma install_outbound_disk: "install_outbound sent inp ws addr loc i cert now s = (r, t) \<Longrightarrow> sh_disk t = sh_disk s"
  by (auto simp: install_outbound_def Let_def record_peer_capabilities_def next_generation_def evict_def remove_cancel_token_def
      cancel_loop_def cleanup_stale_generations_def split: option.splits)

lemma connect_pins:
  assumes "connect_to_device E R rnd pid udp our addr expected clk net s = (r, t)"
  shows "pinned_fp E (cert_manager s) did (sh_disk t) = pinned_fp E (cert_manager s) did (sh_disk s)"
  using assms
proof (cases rule: connect_cases)
  case (installed k i cert ws line inp s1)
  with install_outbound_disk [OF installed(7)] show ?thesis by (simp add: same_links_def)
qed (simp add: same_links_def)

lemma connect_trust_ok:
  assumes "trust_ok E s" and "connect_to_device E R rnd pid udp our addr expected clk net s = (r, t)"
  shows "trust_ok E t"
proof -
  have h: "handler_state t = handler_state s" by (rule keepsD [OF connect_handler assms(2)])
  then have "trusts E t = trusts E s"
    using connect_pins [OF assms(2)] by (auto simp: handler_state_def trusts_def config_def pins_def fun_eq_iff)
  moreover have "places t = places s" using h by (simp add: handler_state_def places_def config_def)
  ultimately show ?thesis using assms(1) by (rule trust_ok_trusts)
qed

lemma places_save_devices [simp]: "places (save_if_persistent J s) = places s"
  by (simp add: save_if_persistent_def reg_save_def Let_def split: option.splits)

lemma places_modify: "keeps places (modify did f)"
  by (simp add: keeps_def modify_def Let_def split: option.splits prod.splits)

lemma places_transition: "keeps places (transition did st clk)"
  by (simp add: keeps_def transition_run split: option.splits)

lemma places_add: "places (snd (add J order d s)) = places s"
  by (simp add: add_def)

lemma places_ensure_registered: "keeps places (ensure_registered E J order did i clk)"
  unfolding keeps_def
proof
  fix s :: "'a registry_scheme"
  show "places (snd (ensure_registered E J order did i clk s)) = places s"
  proof (cases "contains did s")
    case True
    then show ?thesis
      unfolding ensure_registered_def
      by (simp add: keeps_bind [OF places_modify, OF places_keeps_basic(3), unfolded keeps_def, rule_format])
  next
    case False
    let ?d = "with_capabilities (incoming_capabilities i) (outgoing_capabilities i)
                   (new_device (clk 0) did (device_name i) (parse_device_type E (device_type i)) (protocol_version i))"
    obtain y s2 where y: "add J order ?d s = (y, s2)" by fastforce
    with False have "snd (ensure_registered E J order did i clk s) = s2"
      by (auto simp: ensure_registered_def Let_def split: sum.splits error.splits)
    with y places_add [of J order ?d s] show ?thesis by simp
  qed
qed

lemma ensure_trust_ok:
  assumes "trust_ok E s"
  shows "trust_ok E (snd (ensure_and_transition E' J order did i device_state.Connected clk s))"
proof -
  have "keeps places (ensure_and_transition E' J order did i device_state.Connected clk)"
    unfolding ensure_and_transition_def by (intro keeps_bind places_ensure_registered places_transition) (simp_all add: places_keeps_basic)
  moreover have "trusts E (snd (ensure_and_transition E' J order did i device_state.Connected clk s)) = trusts E s"
    using assms by (intro ensure_and_transition_trusts [OF _ prod.collapse [symmetric]]) (simp add: trust_ok_def)
  ultimately show ?thesis using assms trust_ok_trusts unfolding keeps_def by blast
qed

lemma setup_trust_ok:
  assumes "trust_ok (st_ext H) s"
  shows "trust_ok (st_ext H) (snd (run_connection_setup H sc did i g s))"
proof -
  obtain b s1 where t: "register_cancel_token_if_current (sc_token sc) did g s = (b, s1)" by fastforce
  then have "trust s1 = trust s" "places s1 = places s"
    by (auto simp: register_cancel_token_if_current_def Let_def trust_def config_def split: if_splits)
  then have 1: "trust_ok (st_ext H) s1" using assms trust_ok_same by blast
  let ?s2 = "snd (ensure_and_transition (st_ext H) (st_json H) (sc_order sc) did i device_state.Connected (sc_clk sc 2) s1)"
  define s2 where "s2 = ?s2"
  have 2: "trust_ok (st_ext H) s2" unfolding s2_def by (rule ensure_trust_ok [OF 1])
  define s3 where "s3 = (if is_paired did s2 then s2
      else case pending_outgoing_timestamp did (sc_clk sc 3 0) s2 of
             Some ts \<Rightarrow> snd (send_packet (st_ext H) did (pair_request_with_timestamp (sc_pid sc 1) ts) (sc_clk sc 4) s2)
           | None \<Rightarrow> s2)"
  have "trust_ok (st_ext H) s3" using 2 unfolding s3_def by (auto intro: trust_intros split: option.splits)
  moreover have "run_connection_setup H sc did i g s =
      (if b then (Inr (), if is_paired did s3 then queue_init did s3 else s3)
       else (Inl (ConnectionError ''Connection replaced during setup (stale generation)''), s1))"
    unfolding run_connection_setup_def t s3_def s2_def by (simp add: Let_def)
  ultimately show ?thesis using 1 trust_ok_queue by auto
qed

lemma connect_device_ok:
  assumes "trust_ok (st_ext H) s" and "\<forall>n s. trust_ok (st_ext H) s \<longrightarrow> trust_ok (st_ext H) (sc_env at n s)"
  shows "trust_ok (st_ext H) (snd (connect_device H at did body s))"
proof -
  have "trust_ok (st_ext H) (snd (connect_and_spawn_loop H our addr at s))" for our addr
  proof -
    let ?c = "connect_to_device (st_ext H) (st_rustls H) (at_draws at) (at_ids at) (at_udp at) our addr None (sc_clk at 0) (at_dial at)"
    obtain r s1 where c: "?c s = (r, s1)" by fastforce
    then have 1: "trust_ok (st_ext H) s1" by (rule connect_trust_ok [OF assms(1)])
    show ?thesis
    proof (cases r)
      case (Inl e)
      with 1 c show ?thesis by (simp add: connect_and_spawn_loop_def with_error_def map_err_def sbind_def)
    next
      case (Inr v)
      obtain cid ri g where v: "v = (cid, ri, g)" by (cases v)
      have "trust_ok (st_ext H) (snd (run_connection_setup H at cid ri g (sc_env at 1 s1)))"
        using assms(2) 1 by (intro setup_trust_ok) blast
      with c Inr v show ?thesis
        by (auto simp: connect_and_spawn_loop_def with_error_def map_err_def sbind_def sreturn_def split: prod.splits sum.splits)
    qed
  qed
  with assms(1) show ?thesis
    by (auto simp: connect_device_def validated split: sum.splits option.splits)
qed

text \<open>Any handler, called at any time, with other tasks running in between.\<close>

inductive api_step :: "('z daemon_scheme) site \<Rightarrow> 'z daemon_scheme \<Rightarrow> 'z daemon_scheme \<Rightarrow> bool" for H where
  list: "api_step H s (snd (list_devices (st_ext H) clks order params s))"
| get: "api_step H s (snd (get_device (st_ext H) clk did s))"
| pair: "call_keeps (trust_ok (st_ext H)) ca \<Longrightarrow> api_step H s (snd (pair_device (st_ext H) ca did s))"
| unpair: "call_keeps (trust_ok (st_ext H)) ca \<Longrightarrow> api_step H s (snd (unpair_device H ca did s))"
| ping: "api_step H s (snd (send_ping (st_ext H) ca did s))"
| delete: "call_keeps (trust_ok (st_ext H)) ca \<Longrightarrow> api_step H s (snd (delete_device H ca did s))"
| connect: "\<forall>n s. trust_ok (st_ext H) s \<longrightarrow> trust_ok (st_ext H) (sc_env at n s) \<Longrightarrow> api_step H s (snd (connect_device H at did body s))"
| disconnect: "call_keeps (trust_ok (st_ext H)) ca \<Longrightarrow> api_step H s (snd (disconnect_device H ca did s))"

lemma api_step_ok:
  assumes "plugins_keep (trust_ok (st_ext H)) (st_app H)" and "api_step H s t" and "trust_ok (st_ext H) s"
  shows "trust_ok (st_ext H) t"
  using assms(2,3)
  by cases (auto intro: list_devices_ok get_device_ok pair_device_ok unpair_device_ok [OF _ _ assms(1)] send_ping_ok
      delete_device_ok connect_device_ok disconnect_device_ok [OF _ _ assms(1)])

interpretation api: machine "\<lambda>s t. plugins_keep (trust_ok (st_ext H)) (st_app H) \<and> api_step H s t" "trust_ok (st_ext H)" for H
  by unfold_locales (blast intro: api_step_ok)

section \<open>What a user gets\<close>


subsection \<open>Pairing\<close>

lemma links_kept [simp]:
  "connections (snd (save_to_disk E s)) = connections s" "connections (emit e s) = connections s"
  "connections (queue_init did s') = connections s'" "connections (stage_peer_cert did s) = connections s"
  "connections (s\<lparr>sh_disk := d\<rparr>) = connections s" "connections (snd (on_disk m s)) = connections s"
  by (simp_all add: save_to_disk_def Let_def emit_def broadcast_def queue_init_def on_disk_def stage_peer_cert_def
      set_pending_peer_cert_def split: option.splits prod.splits)

lemma links_pairing:
  "keeps connections (remove_pending_request did now)" "keeps connections (complete_pairing E did now)"
  "keeps connections (accept_pairing E did clk)" "keeps connections (initiate_pairing did clk)"
  "keeps connections (reject_pairing did)" "keeps connections (unpair E did)"
proof -
  show r: "keeps connections (remove_pending_request did now)" for now
    by (auto simp: keeps_def remove_pending_request_def Let_def split: option.splits)
  show c: "keeps connections (complete_pairing E did now)" for now
    by (simp add: keeps_def complete_pairing_def Let_def sbind_def sreturn_def on_disk_def split: option.splits prod.splits sum.splits)
  show "keeps connections (accept_pairing E did clk)"
    unfolding accept_pairing_def by (auto intro!: keeps_bind r c) (simp add: keeps_def sfail_def)
  show "keeps connections (initiate_pairing did clk)"
    by (simp add: keeps_def initiate_pairing_def cleanup_expired_def sbind_def Let_def)
  show "keeps connections (reject_pairing did)" "keeps connections (unpair E did)"
    by (simp_all add: keeps_def reject_pairing_def unpair_def Let_def)
qed

lemma send_written:
  assumes "send_packet E did p clk s = (Inr (), t)"
  shows "\<exists>h h'. connections s did = Some h \<and> connections t did = Some h' \<and> cn_written h' = cn_written h @ serialize E p"
  using assms write_framed_fields(5)
  by (fastforce simp: send_packet_def Let_def split: option.splits prod.splits sum.splits if_splits)

lemma answer_Inr: "answer rs = (Inr a, t) \<longleftrightarrow> rs = (Inr a, t)"
  by (auto simp: answer_def split: prod.splits sum.splits)

lemma paired_send [simp]: "paired (snd (send_packet E did p clk s)) = paired s"
  using trust_fields [OF trust_send] by blast

lemma paired_stage [simp]: "paired (stage_peer_cert did s) = paired s"
  by (simp add: stage_peer_cert_def set_pending_peer_cert_def split: option.splits)

lemma accept_paired:
  assumes "accept_pairing E did clk s = (r, t)"
  shows "paired t = (if r = Inr () then (paired s)(did \<mapsto> clk 1) else paired s)"
proof -
  obtain x s1 where 1: "remove_pending_request did (clk 0) s = (x, s1)" by fastforce
  note f = remove_pending_frame(1) [OF 1]
  show ?thesis
  proof (cases "x = Inr True")
    case True
    with assms 1 have "complete_pairing E did (clk 1) s1 = (r, t)" by (simp add: accept_pairing_def)
    from complete_frame(5) [OF this] f show ?thesis by simp
  next
    case False
    with assms 1 have "t = s1" "r \<noteq> Inr ()"
      by (auto simp: accept_pairing_def sbind_def sfail_def split: sum.splits if_splits)
    with f show ?thesis by simp
  qed
qed

lemma initiate_paired [simp]: "paired (snd (initiate_pairing did clk s)) = paired s"
  by (simp add: initiate_pairing_def cleanup_expired_def sbind_def Let_def)

lemma reject_paired [simp]: "paired (snd (reject_pairing did s)) = paired s"
  using reject_frame(1) [OF prod.collapse [symmetric]] .

lemma pair_accept_result:
  assumes "\<forall>n s. ca_env ca n s = s" and "pair_device_accept E ca did s = (r, t)" and "trust_ok E s"
  shows "if is_ok r
    then r = Inr \<lparr>pr_device_id = did, pr_status = ''paired''\<rparr> \<and> paired t = (paired s)(did \<mapsto> ca_clk ca 3 1) \<and> pinned_fp E (cert_manager t) did (sh_disk t) \<noteq> None
      \<and> (\<exists>h h'. connections s did = Some h \<and> connections t did = Some h'
           \<and> cn_written h' = cn_written h @ serialize E (pair_response (ca_pid ca 0) True (now_ts (ca_clk ca 1 0))))
    else paired t = paired s"
proof -
  let ?p = "pair_response (ca_pid ca 0) True (now_ts (ca_clk ca 1 0))"
  define s1 where "s1 = stage_peer_cert did s"
  have s1: "trust_ok E s1" "paired s1 = paired s" "connections s1 = connections s"
    unfolding s1_def using trust_ok_stage [OF assms(3)] by simp_all
  show ?thesis
  proof (cases "has_identity_anchor E did s1 \<and> is_connected did s1")
    case False
    with assms(1,2) s1 show ?thesis
      by (auto simp: pair_device_accept_def s1_def [symmetric] split: if_splits)
  next
    case True
    obtain x s2 where send: "send_packet E did ?p (ca_clk ca 2) s1 = (x, s2)" by fastforce
    have s2: "trust_ok E s2" "paired s2 = paired s"
      using trust_ok_send [OF s1(1), of E did ?p "ca_clk ca 2"] paired_send [of E did ?p "ca_clk ca 2" s1] s1(2)
      unfolding send by simp_all
    show ?thesis
    proof (cases x)
      case (Inl e)
      with True send s2 assms(1,2) show ?thesis
        by (auto simp: pair_device_accept_def s1_def [symmetric])
    next
      case (Inr u)
      obtain y s3 where acc: "accept_pairing E did (ca_clk ca 3) s2 = (y, s3)" by fastforce
      have "pairing_inv E s3"
        using trust_ok_pairing(3) [OF s2(1), of did "ca_clk ca 3"] acc by (simp add: trust_ok_def)
      then have pin: "did \<in> dom (paired s3) \<Longrightarrow> pins E s3 did \<noteq> None" by (auto simp: pairing_inv_def)
      have run: "r = (case y of Inl e \<Rightarrow> Inl e | Inr _ \<Rightarrow> Inr \<lparr>pr_device_id = did, pr_status = ''paired''\<rparr>)"
        "t = (case y of Inl _ \<Rightarrow> s3 | Inr _ \<Rightarrow> queue_init did s3)"
        using True send Inr acc assms(1,2) by (auto simp: pair_device_accept_def s1_def [symmetric] split: sum.splits)
      note a = accept_paired [OF acc] and c = keepsD [OF links_pairing(3) acc]
      show ?thesis
      proof (cases y)
        case (Inl e)
        with run a s2 show ?thesis by simp
      next
        case (Inr v)
        from send_written [of E did ?p "ca_clk ca 2" s1 s2] send \<open>x = Inr u\<close> s1(3) obtain h h' where
          "connections s did = Some h" "connections s2 did = Some h'" "cn_written h' = cn_written h @ serialize E ?p" by auto
        with Inr run a c s2 pin show ?thesis
          by (auto simp: pins_def queue_init_def)
      qed
    qed
  qed
qed

lemma pair_initiate_result:
  assumes "\<forall>n s. ca_env ca n s = s" and "pair_device_initiate E ca did s = (r, t)"
  shows "paired t = paired s \<and> (\<forall>b. r = Inr b \<longrightarrow> pr_status b = ''pairing_initiated'')"
  using assms initiate_paired [of did "ca_clk ca 1" s]
  by (auto simp: pair_device_initiate_def sbind_def Let_def simp del: initiate_paired split: prod.splits sum.splits)

text \<open>Property C32.
  The peer is told before we believe it: with no other task in between, a request that answers
  \<open>paired\<close> has written the acceptance to the device's link, entered the device as paired and
  has its certificate pinned, and every other answer leaves the paired devices as they were.
\<close>

theorem pair_device_sound:
  assumes "\<forall>n s. ca_env ca n s = s" and "pair_device E ca did s = (r, t)" and "trust_ok E s"
  shows "if \<exists>b. r = Inr b \<and> pr_status b = ''paired''
    then paired t = (paired s)(did \<mapsto> ca_clk ca 3 1) \<and> pinned_fp E (cert_manager t) did (sh_disk t) \<noteq> None
      \<and> (\<exists>h h'. connections s did = Some h \<and> connections t did = Some h'
           \<and> cn_written h' = cn_written h @ serialize E (pair_response (ca_pid ca 0) True (now_ts (ca_clk ca 1 0))))
    else paired t = paired s"
proof -
  obtain x where x: "sbind (slift (validate_device_id E did)) (\<lambda>_ s.
       if has_incoming_request did (ca_clk ca 0 0) s then pair_device_accept E ca did s
       else pair_device_initiate E ca did s) s = (x, t)" and r: "r = map_sum api_err id x"
    using assms(2) by (auto simp: pair_device_def answer_def split: prod.splits sum.splits)
  show ?thesis
  proof (cases "is_ok (validate_device_id E did)")
    case False
    with x r show ?thesis by (cases "validate_device_id E did") (auto simp: slift_bind)
  next
    case True
    then have v: "validate_device_id E did = Inr ()" by (cases "validate_device_id E did") auto
    show ?thesis
    proof (cases "has_incoming_request did (ca_clk ca 0 0) s")
      case True
      with v x have "pair_device_accept E ca did s = (x, t)" by (simp add: slift_bind)
      from pair_accept_result [OF assms(1) this assms(3)] r show ?thesis by (cases x) auto
    next
      case False
      with v x have "pair_device_initiate E ca did s = (x, t)" by (simp add: slift_bind)
      from pair_initiate_result [OF assms(1) this] r show ?thesis by (cases x) auto
    qed
  qed
qed


subsection \<open>Removing\<close>

lemma force_disconnect_gone: "\<not> is_connected did (force_disconnect did s)"
  by (auto simp: force_disconnect_def get_generation_def is_connected_def disconnect_def Let_def remove_cancel_token_def
      split: option.splits)

lemma connected_keeps: "keeps connections m \<Longrightarrow> is_connected did (snd (m s)) = is_connected did s"
  by (simp add: keeps_def is_connected_def)

lemma save_devices_links [simp]:
  "connections (save_if_persistent J s) = connections s" "pending_certs (save_if_persistent J s) = pending_certs s"
  by (simp_all add: save_if_persistent_def reg_save_def Let_def on_disk_def split: option.splits prod.splits)

lemma reg_remove_gone:
  "\<not> contains did (snd (reg_remove J did s))" "connections (snd (reg_remove J did s)) = connections s"
  "paired (snd (reg_remove J did s)) = paired s" "pending_certs (snd (reg_remove J did s)) = pending_certs s"
  by (auto simp: reg_remove_def contains_def split: option.splits)

lemma unpair_gone: "\<not> is_paired did (snd (unpair E did s))" "pending_certs (snd (unpair E did s)) did = None"
  using unpair_effect(1,5) [OF prod.collapse [symmetric], of E did s] by (simp_all add: is_paired_def)

text \<open>Unpairing and deleting do what they say: with no other task in between, unpairing a valid id
  always succeeds, also when the device was not paired or not connected, and leaves it neither;
  deleting a known device removes its record, its pairing, its staged certificate and its link.
  Neither depends on whether the peer could be told.
\<close>

theorem api_removal_complete:
  assumes "\<forall>n s. ca_env ca n s = s" and "valid_id (st_ext H) did"
    and "plugins_keep (\<lambda>s. \<not> is_connected did s) (st_app H)"
    and "\<forall>s. \<not> is_connected did s \<longrightarrow> \<not> is_connected did (ca_sftp_cleanup ca did s)"
  shows "(\<exists>t. unpair_device H ca did s = (Inr \<lparr>pr_device_id = did, pr_status = ''unpaired''\<rparr>, t)
      \<and> \<not> is_paired did t \<and> \<not> is_connected did t)
    \<and> (contains did s \<longrightarrow> (\<exists>t. delete_device H ca did s = (Inr (), t)
      \<and> \<not> is_paired did t \<and> \<not> is_connected did t \<and> \<not> contains did t \<and> pending_certs t did = None))"
proof
  let ?E = "st_ext H"
  have v: "validate_device_id ?E did = Inr ()" using assms(2) by (cases "validate_device_id ?E did") auto
  define s1 where "s1 = notify_peer_unpair ?E (ca_pid ca 0) (ca_clk ca 0) did s"
  define s2 where "s2 = (if is_connected did s1 then force_disconnect did s1 else s1)"
  define s4 where "s4 = notify_disconnected (st_app H) did (ca_sftp_cleanup ca did s2)"
  have "\<not> is_connected did s2" using force_disconnect_gone by (auto simp: s2_def)
  then have 4: "\<not> is_connected did s4"
    unfolding s4_def using assms(4) by (intro notify_disconnected_keeps [OF assms(3)]) blast
  have "unpair_device H ca did s = answer (sbind (if is_paired did s4 then unpair ?E did else sreturn ()) (\<lambda>_.
        sreturn \<lparr>pr_device_id = did, pr_status = ''unpaired''\<rparr>) s4)"
    unfolding unpair_device_def v slift_bind Let_def s4_def s2_def s1_def by (simp only: assms(1))
  moreover have "is_paired did s4 \<Longrightarrow> \<exists>t. unpair ?E did s4 = (Inr (), t)"
    by (simp add: unpair_def is_paired_def Let_def)
  ultimately show "\<exists>t. unpair_device H ca did s = (Inr \<lparr>pr_device_id = did, pr_status = ''unpaired''\<rparr>, t)
      \<and> \<not> is_paired did t \<and> \<not> is_connected did t"
    using 4 unpair_gone(1) [of did ?E s4] connected_keeps [OF links_pairing(6) [where E = ?E and did = did], of did s4]
    by (cases "is_paired did s4") (auto simp: answer_def sbind_def sreturn_def)
  show "contains did s \<longrightarrow> (\<exists>t. delete_device H ca did s = (Inr (), t)
      \<and> \<not> is_paired did t \<and> \<not> is_connected did t \<and> \<not> contains did t \<and> pending_certs t did = None)"
  proof
    assume c: "contains did s"
    define u2 where "u2 = ca_sftp_cleanup ca did s1"
    define u3 where "u3 = (if is_connected did u2 then force_disconnect did u2 else u2)"
    have u3: "\<not> is_connected did u3" using force_disconnect_gone by (auto simp: u3_def)
    let ?t = "lifecycle_remove (st_json H) did (snd (reg_remove (st_json H) did (snd (unpair ?E did u3))))"
    have "delete_device H ca did s = answer (Inr (), ?t)"
      unfolding delete_device_def v slift_bind Let_def u3_def u2_def s1_def by (simp only: assms(1) c not_True_eq_False if_False)
    then show "\<exists>t. delete_device H ca did s = (Inr (), t)
        \<and> \<not> is_paired did t \<and> \<not> is_connected did t \<and> \<not> contains did t \<and> pending_certs t did = None"
      using u3 unpair_gone [where E = ?E and did = did and s = u3] connected_keeps [OF links_pairing(6) [where E = ?E and did = did], of did u3]
      by (simp add: answer_def lifecycle_remove_def reg_remove_gone is_paired_def is_connected_def)
  qed
qed

subsection \<open>Lists\<close>

text \<open>Pages cut the list without a gap or an overlap: the first pages together are the beginning of
  the list, whatever page size a client asks for, pages past the end are empty, and page 0 is page 1.
\<close>

theorem pages_tile:
  assumes "length xs \<le> usize_max"
  shows "concat (map (\<lambda>p. page_slice p limit xs) [1..<Suc k]) = take (k * limit) xs
    \<and> (length xs \<le> (p - 1) * limit \<longrightarrow> page_slice p limit xs = []) \<and> page_slice 0 limit xs = page_slice 1 limit xs"
proof -
  have slice: "page_slice (Suc n) limit xs = take limit (drop (n * limit) xs)" for n
  proof (cases "n * limit \<le> length xs")
    case True
    with assms show ?thesis
      by (simp add: page_slice_def Let_def saturating_mul_def saturating_add_def take_drop add.commute min_def)
  next
    case False
    with assms show ?thesis
      by (simp add: page_slice_def Let_def saturating_mul_def saturating_add_def min_def)
  qed
  have "concat (map (\<lambda>p. page_slice p limit xs) [1..<Suc k]) = take (k * limit) xs"
  proof (induction k)
    case (Suc k)
    then show ?case using take_add [of "k * limit" limit xs] by (simp add: slice add.commute)
  qed simp
  moreover have "length xs \<le> (p - 1) * limit \<Longrightarrow> page_slice p limit xs = []"
    using slice [of "p - 1"] by (cases p) (auto simp: page_slice_def)
  ultimately show ?thesis by (simp add: page_slice_def)
qed

lemma key_links [simp]:
  "connections (snd (get_verification_key E did now s)) = connections s" "paired (snd (get_verification_key E did now s)) = paired s"
proof -
  obtain d' where "snd (get_verification_key E did now s) = s\<lparr>sh_disk := d'\<rparr>"
    using verification_key_files [OF prod.collapse [symmetric], of E did now s] by blast
  then show "connections (snd (get_verification_key E did now s)) = connections s" "paired (snd (get_verification_key E did now s)) = paired s"
    by simp_all
qed

lemma overlay_key_fields [simp]:
  "dv_state (overlay_key k d) = dv_state d" "dv_paired_at (overlay_key k d) = dv_paired_at d" "dv_id (overlay_key k d) = dv_id d"
  by (auto simp: overlay_key_def set_verification_key_def split: sum.splits option.splits)

lemma render_device_live:
  assumes "render_device E clk d s = (x, t)"
  shows "connections t = connections s" "paired t = paired s"
    "su_id x = dv_id d" "su_state x = device_state.Connected \<longleftrightarrow> is_connected (dv_id d) s" "su_paired_at x = paired s (dv_id d)"
  using assms key_links [of E "dv_id d" "clk 2" s]
  by (auto simp: render_device_def Let_def summary_def reconcile_paired_at_def reconcile_rendered_connection_state_def
      set_pair_state_def paired_since_def simp del: key_links split: prod.splits if_splits)

lemma render_devices_live:
  assumes "render_devices E clks ds s = (xs, t)"
  shows "map su_id xs = map dv_id ds
    \<and> (\<forall>x \<in> set xs. (su_state x = device_state.Connected \<longleftrightarrow> is_connected (su_id x) s) \<and> su_paired_at x = paired s (su_id x))"
  using assms
proof (induction ds arbitrary: clks s xs t)
  case (Cons d ds)
  obtain x s1 where x: "render_device E (clks 0) d s = (x, s1)" by fastforce
  obtain ys s2 where ys: "render_devices E (\<lambda>n. clks (Suc n)) ds s1 = (ys, s2)" by fastforce
  with Cons.prems x have "xs = x # ys" by simp
  with Cons.IH [OF ys] render_device_live [OF x] show ?case by (simp add: is_connected_def)
qed simp

text \<open>What is shown is what is: the list has the devices of the requested page, every entry says
  connected exactly when the device has a link at this moment, whatever the registry last
  recorded, and carries the time of pairing of the pairing store.
\<close>

theorem device_list_live:
  assumes "list_devices E clks order params s = (Inr (xs, n), t)"
  shows "n = length (List.map_filter (devices s) order)
    \<and> map su_id xs = map dv_id (page_slice (page_of params) (limit_of params) (List.map_filter (devices s) order))
    \<and> (\<forall>x \<in> set xs. (su_state x = device_state.Connected \<longleftrightarrow> is_connected (su_id x) s) \<and> su_paired_at x = paired s (su_id x))"
proof -
  obtain ys where y: "render_devices E clks (page_slice (page_of params) (limit_of params) (List.map_filter (devices s) order)) s = (ys, t)"
    "xs = ys" "n = length (List.map_filter (devices s) order)"
    using assms by (auto simp: list_devices_def render_device_list_def Let_def split: prod.splits)
  with render_devices_live [OF y(1)] show ?thesis by simp
qed


section \<open>Requests at work\<close>

definition quiet_call :: "daemon call" where
  "quiet_call = \<lparr>ca_env = \<lambda>_ s. s, ca_clk = \<lambda>_ _. 0, ca_pid = \<lambda>_. 9, ca_sftp_cleanup = \<lambda>_ s. s\<rparr>"

lemma quiet_call_keeps: "call_keeps P quiet_call" "\<forall>n s. ca_env quiet_call n s = s"
  by (simp_all add: call_keeps_def quiet_call_def)

lemma demo_fresh_ok: "trust_ok E demo_fresh"
  using demo_apart by (simp add: trust_ok_def pairing_inv_def reg_apart_def persist_apart_def demo_handler_def new_handler_def)


theorem api_removal_complete_witness:
  "\<exists>t. unpair_device (demo_site link_externals) quiet_call demo_id demo_asked = (Inr \<lparr>pr_device_id = demo_id, pr_status = ''unpaired''\<rparr>, t)
     \<and> \<not> is_connected demo_id t"
proof -
  have "valid_id link_externals demo_id" by (rule valid_demo_id)
  then show ?thesis
    using api_removal_complete [of quiet_call "demo_site link_externals" demo_id demo_asked] no_plugins_keep
    by (auto simp: demo_site_def quiet_call_def)
qed

theorem pages_tile_witness:
  "page_slice 1 3 [0..<7] @ page_slice 2 3 [0..<7] = take 6 [0..<7] \<and> page_slice 4 3 [0..<7] = []"
proof -
  have "[1..<Suc 2] = [1, 2]" by code_simp
  then show ?thesis
    using pages_tile [of "[0..<7]" 3 2 4] by (simp add: usize_max_def)
qed

definition demo_stale :: daemon where
  "demo_stale = demo_fresh\<lparr>devices := [demo_id \<mapsto> demo_device\<lparr>dv_state := device_state.Connected\<rparr>]\<rparr>"

theorem device_list_live_witness:
  "\<exists>xs t. list_devices link_externals (\<lambda>_ _. 0) [demo_id] Map.empty demo_stale = (Inr (xs, 1), t)
     \<and> map su_id xs = [demo_id] \<and> (\<forall>x \<in> set xs. su_state x \<noteq> device_state.Connected)"
proof -
  obtain r t where r: "render_device_list link_externals (\<lambda>_ _. 0) [demo_id] (page_of Map.empty) (limit_of Map.empty) demo_stale = (r, t)"
    by fastforce
  obtain xs n where l: "list_devices link_externals (\<lambda>_ _. 0) [demo_id] Map.empty demo_stale = (Inr (xs, n), t)"
    using r by (cases r) (simp add: list_devices_def)
  have "List.map_filter (devices demo_stale) [demo_id] = [demo_device\<lparr>dv_state := device_state.Connected\<rparr>]"
    by (simp add: map_filter_simps demo_stale_def)
  moreover have "page_slice (page_of Map.empty) (limit_of Map.empty) [y] = [y]" for y :: device
    by (simp add: page_slice_def page_of_def limit_of_def saturating_mul_def saturating_add_def usize_max_def Let_def)
  moreover have "\<not> is_connected did demo_stale" for did by (simp add: is_connected_def demo_stale_def)
  ultimately show ?thesis
    using device_list_live [OF l] l by (auto simp: demo_device_def new_device_def)
qed

text \<open>A peer that asked to be paired, on a live link that shows its certificate.\<close>

theorem pair_device_sound_witness:
  "\<exists>t. pair_device demo_externals quiet_call demo_id demo_asked = (Inr \<lparr>pr_device_id = demo_id, pr_status = ''paired''\<rparr>, t)
     \<and> is_paired demo_id t \<and> pinned_fp demo_externals (cert_manager t) demo_id (sh_disk t) \<noteq> None"
proof -
  obtain d1 m where d1: "store_peer_certificate demo_externals demo_certs demo_id ''CERT'' (demo_disk []) = (Inr (), d1)"
    by (rule demo_pinned_disk)
  have v: "validate_device_id demo_externals demo_id = Inr ()"
    using valid_demo_id [of demo_externals] by (cases "validate_device_id demo_externals demo_id") auto
  have "cn_writes demo_peer = []" by (simp add: demo_peer_def new_link_def)
  then have "\<exists>t. pair_device demo_externals quiet_call demo_id demo_asked = (Inr \<lparr>pr_device_id = demo_id, pr_status = ''paired''\<rparr>, t)"
    using d1
    by (simp add: pair_device_def slift_bind v demo_asked_def has_incoming_request_def demo_request_def is_expired_def quiet_call_def
        pair_device_accept_def stage_peer_cert_def get_peer_certificate_def set_pending_peer_cert_def has_identity_anchor_def
        is_connected_def send_packet_def refuses_type_def is_pair_def pair_response_def new_packet_def write_framed_def next_write_def put_bytes_def
        accept_pairing_def remove_pending_request_def complete_pairing_def sbind_def on_disk_def Let_def secs_def answer_def slift_def)
  then obtain t where t: "pair_device demo_externals quiet_call demo_id demo_asked = (Inr \<lparr>pr_device_id = demo_id, pr_status = ''paired''\<rparr>, t)"
    by blast
  have "reg_path demo_daemon = None"
    by (simp add: demo_daemon_def conn_mgr.extend_def daemon.fields_def demo_manager_def new_manager_def registry.extend_def
        conn_mgr.fields_def demo_registry_def pairing_handler.extend_def)
  then have "trust_ok demo_externals demo_asked"
    using demo_apart
    by (simp add: trust_ok_def pairing_inv_def reg_apart_def persist_apart_def demo_asked_def hm_len_def demo_handler_def new_handler_def)
  from pair_device_sound [OF quiet_call_keeps(2) t this] t show ?thesis
    by (simp add: is_paired_def)
qed

end
