(* ===== verification/Device_Data.thy ===== *)
theory Device_Data
  imports Packet_Loop "HOL-Library.AList" "HOL-Library.List_Lexorder" "HOL-Library.Char_ord" "HOL-Library.Product_Lexorder"
begin

text \<open>
  The plugins that keep what a device reports about itself: battery, connectivity, lock state,
  command list, calls and messages (\<open>src/plugins/battery.rs\<close>, \<open>connectivity.rs\<close>, \<open>lock.rs\<close>,
  \<open>remotecommands.rs\<close>, \<open>telephony.rs\<close>, \<open>sms.rs\<close>) and the keyboard echo
  (\<open>remotekeyboard.rs\<close>), which only announces. Each plugin's tables are fields of a record that
  extends the daemon's, its three methods are the functions of the plugin record of \<open>Router\<close>, and all of them meet
  one contract, stated as a locale: a packet of one device leaves the view of every other device
  alone, what it leaves in its own depends on nothing else, and a disconnect empties it.
\<close>

section \<open>Decoders of the standard library's and serde's field types\<close>

fun dec_bool :: "json \<Rightarrow> bool res" where
  "dec_bool (JBool b) = Inr b"
| "dec_bool _ = Inl dec_err"

fun dec_i32 :: "json \<Rightarrow> 32 word res" where
  "dec_i32 (JNum (PosInt n)) = (if n < 2 ^ 31 then Inr (ucast n) else Inl dec_err)"
| "dec_i32 (JNum (NegInt i)) = (if - (2 ^ 31) \<le> sint i \<and> sint i < 2 ^ 31 then Inr (scast i) else Inl dec_err)"
| "dec_i32 _ = Inl dec_err"

fun dec_i64 :: "json \<Rightarrow> i64 res" where
  "dec_i64 (JNum n) = ok_or dec_err (as_i64 n)"
| "dec_i64 _ = Inl dec_err"

fun dec_all :: "(json \<Rightarrow> 'a res) \<Rightarrow> json list \<Rightarrow> 'a list res" where
  "dec_all f [] = Inr []"
| "dec_all f (j # js) = rbind (f j) (\<lambda>a. rbind (dec_all f js) (\<lambda>as. Inr (a # as)))"

fun dec_vec :: "(json \<Rightarrow> 'a res) \<Rightarrow> json \<Rightarrow> 'a list res" where
  "dec_vec f (JArr js) = dec_all f js"
| "dec_vec f _ = Inl dec_err"

text \<open>A derived struct decoder: an object by field name, an array by position. In an array the
  first \<open>lo\<close> fields must be there and there may be no more elements than fields.\<close>

definition dec_struct :: "nat \<Rightarrow> string list \<Rightarrow> ((string \<Rightarrow> json option) \<Rightarrow> 'a res) \<Rightarrow> json \<Rightarrow> 'a res" where
  "dec_struct lo names of_fields j =
     (case j of
        JObj kvs \<Rightarrow> of_fields (map_of kvs)
      | JArr js \<Rightarrow> if length js < lo \<or> length names < length js then Inl dec_err
                   else of_fields (map_of (zip names js))
      | _ \<Rightarrow> Inl dec_err)"

section \<open>Data\<close>

record battery_info =
  current_charge :: "32 word"
  is_charging :: bool
  threshold_event :: "32 word"

record connectivity_report =
  signal_strength :: "32 word"
  network_type :: string

record remote_command =
  rmc_name :: string
  rmc_command :: string

record telephony_info =
  tel_event :: string
  phone_number :: "string option"
  contact_name :: "string option"
  phone_thumbnail :: "string option"
  tel_is_cancel :: bool

record sms_message =
  message_id :: "i64 option"
  thread_id :: "i64 option"
  sms_addresses :: "string option list"
  sms_body :: "string option"
  sms_date :: "i64 option"
  message_type :: "32 word option"
  sms_read :: "32 word option"
  sms_uid :: "i64 option"
  sms_event :: "32 word option"
  subscription_id :: "32 word option"
  attachments :: "json list option"

record sms_thread =
  st_thread_id :: i64
  st_read_count :: nat
  st_addresses :: "string option list"
  st_name :: "string option"
  st_snippet :: "string option"

record keyboard_echo =
  ke_key :: "string option"
  ke_is_ack :: "bool option"
  ke_special_key :: "32 word"
  ke_shift :: bool
  ke_ctrl :: bool
  ke_alt :: bool
  ke_super :: bool

datatype data_event =
    BatteryEvent device_key "32 word" bool
  | TelephonyUpdate device_key telephony_info
  | RemoteCommandsUpdate device_key "string \<rightharpoonup> remote_command"
  | RemoteKeyboardEcho device_key "string option" bool "32 word" bool bool bool bool
  | RemoteKeyboardState device_key bool

type_synonym thread_key = "device_key \<times> i64"
type_synonym thread_store = "thread_key \<rightharpoonup> sms_message list"

record plugin_tables = daemon +
  batteries :: "device_key \<rightharpoonup> battery_info"
  reports :: "device_key \<rightharpoonup> connectivity_report"
  lock_states :: "device_key \<rightharpoonup> bool"
  remote_commands :: "device_key \<rightharpoonup> (string \<rightharpoonup> remote_command)"
  add_flags :: "device_key \<rightharpoonup> bool"
  call_log :: "device_key \<rightharpoonup> telephony_info list"
  sms_threads :: thread_store
  data_events :: "data_event list"

definition new_tables :: "'z plugin_tables_scheme \<Rightarrow> bool" where
  "new_tables s \<longleftrightarrow> batteries s = Map.empty \<and> reports s = Map.empty \<and> lock_states s = Map.empty
     \<and> remote_commands s = Map.empty \<and> add_flags s = Map.empty \<and> call_log s = Map.empty
     \<and> sms_threads s = Map.empty"

definition announce :: "data_event \<Rightarrow> 'z plugin_tables_scheme \<Rightarrow> 'z plugin_tables_scheme" where
  "announce ev s = s\<lparr>data_events := data_events s @ [ev]\<rparr>"

section \<open>Battery\<close>

definition dec_battery_info :: "json \<Rightarrow> battery_info res" where
  "dec_battery_info = dec_struct 3 [''currentCharge'', ''isCharging'', ''thresholdEvent'']
     (\<lambda>get. rbind (required dec_i32 (get ''currentCharge'')) (\<lambda>c.
            rbind (required dec_bool (get ''isCharging'')) (\<lambda>b.
            rbind (required dec_i32 (get ''thresholdEvent'')) (\<lambda>t.
              Inr \<lparr>current_charge = c, is_charging = b, threshold_event = t\<rparr>))))"

definition get_battery :: "device_key \<Rightarrow> 'z plugin_tables_scheme \<Rightarrow> battery_info option" where
  "get_battery did s = batteries s did"

definition battery_handle :: "'z plugin_tables_scheme handler" where
  "battery_handle did pkt s =
     (case dec_battery_info (packet_body pkt) of
        Inl e \<Rightarrow> (HResult (Inl e), s)
      | Inr i \<Rightarrow> (HResult (Inr None),
                   announce (BatteryEvent did (current_charge i) (is_charging i))
                     (s\<lparr>batteries := (batteries s)(did \<mapsto> i)\<rparr>)))"

definition battery_disconnected :: "device_key \<Rightarrow> 'z plugin_tables_scheme \<Rightarrow> 'z plugin_tables_scheme" where
  "battery_disconnected did s = s\<lparr>batteries := hm_remove did (batteries s)\<rparr>"

definition battery_connected :: "i64 \<Rightarrow> packet list" where
  "battery_connected pid = [new_packet pid ''kdeconnect.battery.request'' (JObj [(''request'', JBool True)])]"

section \<open>Connectivity\<close>

text \<open>One entry of \<open>signalStrengths\<close>; the cast of an \<open>i64\<close> to an \<open>i32\<close> keeps the low bits. An
  object is given in the order the map is iterated, so the last entry stays.\<close>

definition connectivity_entry :: "json \<Rightarrow> connectivity_report" where
  "connectivity_entry i =
     \<lparr>signal_strength = (case Option.bind (json_get i ''signalStrength'') json_as_i64 of
                            Some w \<Rightarrow> ucast w | None \<Rightarrow> 0),
      network_type = (case Option.bind (json_get i ''networkType'') json_as_str of
                        Some t \<Rightarrow> t | None \<Rightarrow> ''Unknown'')\<rparr>"

definition get_report :: "device_key \<Rightarrow> 'z plugin_tables_scheme \<Rightarrow> connectivity_report option" where
  "get_report did s = reports s did"

definition connectivity_handle :: "'z plugin_tables_scheme handler" where
  "connectivity_handle did pkt s =
     (HResult (Inr None),
      if packet_type pkt \<noteq> ''kdeconnect.connectivity_report'' then s
      else (case json_get (packet_body pkt) ''signalStrengths'' of
              Some (JObj kvs) \<Rightarrow>
                fold (\<lambda>(sub, i) s. s\<lparr>reports := (reports s)(did \<mapsto> connectivity_entry i)\<rparr>) kvs s
            | _ \<Rightarrow> s))"

definition connectivity_disconnected :: "device_key \<Rightarrow> 'z plugin_tables_scheme \<Rightarrow> 'z plugin_tables_scheme" where
  "connectivity_disconnected did s = s\<lparr>reports := hm_remove did (reports s)\<rparr>"

section \<open>Lock\<close>

definition is_locked :: "device_key \<Rightarrow> 'z plugin_tables_scheme \<Rightarrow> bool option" where
  "is_locked did s = lock_states s did"

definition state_packet :: "i64 \<Rightarrow> packet" where
  "state_packet pid = new_packet pid ''kdeconnect.lock'' (JObj [(''isLocked'', JBool False)])"

definition lock_replies :: "(nat \<Rightarrow> i64) \<Rightarrow> json \<Rightarrow> packet list" where
  "lock_replies pid body =
     (case Option.bind (json_get body ''setLocked'') as_bool of
        None \<Rightarrow> []
      | Some b \<Rightarrow> (if b then [new_packet (pid 0) ''kdeconnect.lock'' (JObj [(''lockResult'', JBool False)])] else [])
                  @ [state_packet (pid 1)])
     @ (if json_get body ''requestLocked'' \<noteq> None then [state_packet (pid 2)] else [])"

definition lock_handle :: "(nat \<Rightarrow> i64) \<Rightarrow> 'z plugin_tables_scheme handler" where
  "lock_handle pid did pkt s =
     (if packet_type pkt \<notin> {''kdeconnect.lock'', ''kdeconnect.lock.request''} then (HResult (Inr None), s)
      else (HResult (Inr (case lock_replies pid (packet_body pkt) of [] \<Rightarrow> None | ps \<Rightarrow> Some ps)),
            case Option.bind (json_get (packet_body pkt) ''isLocked'') as_bool of
              Some b \<Rightarrow> s\<lparr>lock_states := (lock_states s)(did \<mapsto> b)\<rparr>
            | None \<Rightarrow> s))"

definition lock_disconnected :: "device_key \<Rightarrow> 'z plugin_tables_scheme \<Rightarrow> 'z plugin_tables_scheme" where
  "lock_disconnected did s = s\<lparr>lock_states := hm_remove did (lock_states s)\<rparr>"

section \<open>Remote commands\<close>

definition dec_remote_command :: "json \<Rightarrow> remote_command res" where
  "dec_remote_command = dec_struct 2 [''name'', ''command'']
     (\<lambda>get. rbind (required dec_string (get ''name'')) (\<lambda>n.
            rbind (required dec_string (get ''command'')) (\<lambda>c.
              Inr \<lparr>rmc_name = n, rmc_command = c\<rparr>)))"

text \<open>Entry by entry: one that does not decode is skipped. Where the text repeats a key the map
  keeps its last value.\<close>

definition command_entries :: "(string \<times> json) list \<Rightarrow> (string \<rightharpoonup> remote_command)" where
  "command_entries kvs =
     fold (\<lambda>(k, v) m. case dec_remote_command v of Inr c \<Rightarrow> m(k \<mapsto> c) | Inl e \<Rightarrow> m)
       (AList.clearjunk (rev kvs)) Map.empty"

definition get_commands :: "device_key \<Rightarrow> 'z plugin_tables_scheme \<Rightarrow> (string \<rightharpoonup> remote_command) option" where
  "get_commands did s = remote_commands s did"

definition can_add_command :: "device_key \<Rightarrow> 'z plugin_tables_scheme \<Rightarrow> bool" where
  "can_add_command did s = (case add_flags s did of Some b \<Rightarrow> b | None \<Rightarrow> False)"

definition remotecommands_handle :: "externals \<Rightarrow> 'z plugin_tables_scheme handler" where
  "remotecommands_handle E did pkt s =
     (HResult (Inr None),
      if packet_type pkt \<noteq> ''kdeconnect.runcommand'' then s
      else (case Option.bind (json_get (packet_body pkt) ''commandList'') json_as_str of
              None \<Rightarrow> s
            | Some text \<Rightarrow>
                (case json_parse E text of
                   Some (JObj kvs) \<Rightarrow>
                     (let can_add = (case Option.bind (json_get (packet_body pkt) ''canAddCommand'') as_bool of
                                       Some b \<Rightarrow> b | None \<Rightarrow> False);
                          cmds = command_entries kvs
                      in announce (RemoteCommandsUpdate did cmds)
                           (s\<lparr>remote_commands := (remote_commands s)(did \<mapsto> cmds),
                              add_flags := (add_flags s)(did \<mapsto> can_add)\<rparr>))
                 | _ \<Rightarrow> s)))"

definition remotecommands_connected :: "i64 \<Rightarrow> packet list" where
  "remotecommands_connected pid =
     [new_packet pid ''kdeconnect.runcommand.request'' (JObj [(''requestCommandList'', JBool True)])]"

definition remotecommands_disconnected :: "device_key \<Rightarrow> 'z plugin_tables_scheme \<Rightarrow> 'z plugin_tables_scheme" where
  "remotecommands_disconnected did s =
     s\<lparr>remote_commands := hm_remove did (remote_commands s), add_flags := hm_remove did (add_flags s)\<rparr>"

section \<open>Telephony\<close>

fun is_cancel_value :: "json \<Rightarrow> bool" where
  "is_cancel_value (JBool b) = b"
| "is_cancel_value (JStr s) = (map ascii_lower s = ''true'')"
| "is_cancel_value _ = False"

definition dec_telephony_info :: "json \<Rightarrow> telephony_info res" where
  "dec_telephony_info = dec_struct 1 [''event'', ''phoneNumber'', ''contactName'', ''phoneThumbnail'', ''isCancel'']
     (\<lambda>get. rbind (required dec_string (get ''event'')) (\<lambda>e.
            rbind (optional dec_string (get ''phoneNumber'')) (\<lambda>n.
            rbind (optional dec_string (get ''contactName'')) (\<lambda>c.
            rbind (optional dec_string (get ''phoneThumbnail'')) (\<lambda>t.
              Inr \<lparr>tel_event = e, phone_number = n, contact_name = c, phone_thumbnail = t,
                   tel_is_cancel = (case get ''isCancel'' of Some v \<Rightarrow> is_cancel_value v | None \<Rightarrow> False)\<rparr>)))))"

definition MAX_CALLS_PER_DEVICE :: nat where "MAX_CALLS_PER_DEVICE = 100"

text \<open>Appending to a list that keeps its last \<open>cap\<close> entries: \<open>drain\<close> takes the excess off the front.\<close>

definition push_capped :: "nat \<Rightarrow> 'a \<Rightarrow> 'a list \<Rightarrow> 'a list" where
  "push_capped cap x xs =
     (let ys = xs @ [x] in if cap < length ys then drop (length ys - cap) ys else ys)"

definition get_calls :: "device_key \<Rightarrow> 'z plugin_tables_scheme \<Rightarrow> telephony_info list" where
  "get_calls did s = (case call_log s did of Some l \<Rightarrow> l | None \<Rightarrow> [])"

definition telephony_handle :: "'z plugin_tables_scheme handler" where
  "telephony_handle did pkt s =
     (case dec_telephony_info (packet_body pkt) of
        Inl e \<Rightarrow> (HResult (Inl e), s)
      | Inr i \<Rightarrow>
          (HResult (Inr None),
           announce (TelephonyUpdate did i)
             (if tel_is_cancel i then s
              else s\<lparr>call_log := (call_log s)(did \<mapsto> push_capped MAX_CALLS_PER_DEVICE i (get_calls did s))\<rparr>)))"

definition telephony_disconnected :: "device_key \<Rightarrow> 'z plugin_tables_scheme \<Rightarrow> 'z plugin_tables_scheme" where
  "telephony_disconnected did s = s\<lparr>call_log := hm_remove did (call_log s)\<rparr>"

definition mute_request_packet :: "i64 \<Rightarrow> packet" where
  "mute_request_packet pid = new_packet pid ''kdeconnect.telephony.request_mute'' (JObj [(''action'', JStr ''mute'')])"

section \<open>Messages\<close>

definition dec_sms_address :: "json \<Rightarrow> string option res" where
  "dec_sms_address = dec_struct 0 [''address''] (\<lambda>get. optional dec_string (get ''address''))"

definition dec_sms_message :: "json \<Rightarrow> sms_message res" where
  "dec_sms_message = dec_struct 11
     [''messageID'', ''threadID'', ''addresses'', ''body'', ''date'', ''type'', ''read'', ''uID'', ''event'',
      ''subscriptionID'', ''attachments'']
     (\<lambda>get. rbind (optional dec_i64 (get ''messageID'')) (\<lambda>mi.
            rbind (optional dec_i64 (get ''threadID'')) (\<lambda>ti.
            rbind (defaulted [] (dec_vec dec_sms_address) (get ''addresses'')) (\<lambda>ad.
            rbind (optional dec_string (get ''body'')) (\<lambda>bo.
            rbind (optional dec_i64 (get ''date'')) (\<lambda>da.
            rbind (optional dec_i32 (get ''type'')) (\<lambda>ty.
            rbind (optional dec_i32 (get ''read'')) (\<lambda>re.
            rbind (optional dec_i64 (get ''uID'')) (\<lambda>ui.
            rbind (optional dec_i32 (get ''event'')) (\<lambda>ev.
            rbind (optional dec_i32 (get ''subscriptionID'')) (\<lambda>su.
            rbind (optional (dec_vec Inr) (get ''attachments'')) (\<lambda>att.
              Inr \<lparr>message_id = mi, thread_id = ti, sms_addresses = ad, sms_body = bo, sms_date = da,
                   message_type = ty, sms_read = re, sms_uid = ui, sms_event = ev, subscription_id = su,
                   attachments = att\<rparr>))))))))))))"

text \<open>The body is an array of messages or the payload struct around one.\<close>

definition dec_sms_payload :: "json \<Rightarrow> sms_message list res" where
  "dec_sms_payload = dec_struct 0 [''version'', ''messages'']
     (\<lambda>get. rbind (optional dec_i32 (get ''version'')) (\<lambda>v.
            defaulted [] (dec_vec dec_sms_message) (get ''messages'')))"

definition dec_sms_body :: "json \<Rightarrow> sms_message list res" where
  "dec_sms_body j = (case dec_vec dec_sms_message j of Inr ms \<Rightarrow> Inr ms | Inl e \<Rightarrow> dec_sms_payload j)"

definition MAX_SMS_THREADS_PER_DEVICE :: nat where "MAX_SMS_THREADS_PER_DEVICE = 200"
definition MAX_SMS_MESSAGES_PER_THREAD :: nat where "MAX_SMS_MESSAGES_PER_THREAD = 500"

text \<open>\<open>Iterator::min_by_key\<close>: the first of the least elements.\<close>

fun min_by_key :: "('a \<Rightarrow> int) \<Rightarrow> 'a list \<Rightarrow> 'a option" where
  "min_by_key f [] = None"
| "min_by_key f (x # xs) =
     (case min_by_key f xs of None \<Rightarrow> Some x | Some y \<Rightarrow> if f x \<le> f y then Some x else Some y)"

definition newest_date :: "sms_message list \<Rightarrow> int" where
  "newest_date msgs =
     (case map sint (List.map_filter sms_date msgs) of [] \<Rightarrow> 0 | d # ds \<Rightarrow> fold max ds d)"

text \<open>\<open>iter\<close> is the order in which the hash map is iterated at this moment.\<close>

definition evict_oldest :: "(thread_store \<Rightarrow> thread_key list) \<Rightarrow> device_key \<Rightarrow> thread_store \<Rightarrow> thread_store" where
  "evict_oldest iter did m =
     (let own = filter (\<lambda>k. fst k = did) (iter m) in
      if MAX_SMS_THREADS_PER_DEVICE \<le> length own
      then (case min_by_key (\<lambda>k. newest_date (entry_list m k)) own of
              Some oldest \<Rightarrow> hm_remove oldest m
            | None \<Rightarrow> m)
      else m)"

definition store_message :: "(thread_store \<Rightarrow> thread_key list) \<Rightarrow> device_key \<Rightarrow> sms_message \<Rightarrow> thread_store \<Rightarrow> thread_store" where
  "store_message iter did msg m =
     (let key = (did, case thread_id msg of Some t \<Rightarrow> t | None \<Rightarrow> 0);
          m1 = (if hm_contains m key then m else evict_oldest iter did m)
      in m1(key \<mapsto> push_capped MAX_SMS_MESSAGES_PER_THREAD msg (entry_list m1 key)))"

definition sms_handle :: "(thread_store \<Rightarrow> thread_key list) \<Rightarrow> 'z plugin_tables_scheme handler" where
  "sms_handle iter did pkt s =
     (case dec_sms_body (packet_body pkt) of
        Inl e \<Rightarrow> (HResult (Inl e), s)
      | Inr messages \<Rightarrow>
          (HResult (Inr None), s\<lparr>sms_threads := fold (store_message iter did) messages (sms_threads s)\<rparr>))"

definition sms_connected :: "i64 \<Rightarrow> packet list" where
  "sms_connected pid = [new_packet pid ''kdeconnect.sms.request_conversations'' (JObj [])]"

definition sms_disconnected :: "device_key \<Rightarrow> 'z plugin_tables_scheme \<Rightarrow> 'z plugin_tables_scheme" where
  "sms_disconnected did s = s\<lparr>sms_threads := hm_retain (\<lambda>k v. fst k \<noteq> did) (sms_threads s)\<rparr>"

definition get_thread :: "device_key \<Rightarrow> i64 \<Rightarrow> 'z plugin_tables_scheme \<Rightarrow> sms_message list" where
  "get_thread did t s = (case sms_threads s (did, t) of Some ms \<Rightarrow> ms | None \<Rightarrow> [])"

definition thread_summary :: "i64 \<Rightarrow> sms_message list \<Rightarrow> sms_thread" where
  "thread_summary t msgs =
     \<lparr>st_thread_id = t, st_read_count = length msgs,
      st_addresses = (case msgs of [] \<Rightarrow> [] | m # _ \<Rightarrow> sms_addresses m),
      st_name = None,
      st_snippet = (if msgs = [] then None else sms_body (last msgs))\<rparr>"

definition get_threads :: "(thread_store \<Rightarrow> thread_key list) \<Rightarrow> device_key \<Rightarrow> 'z plugin_tables_scheme \<Rightarrow> sms_thread list" where
  "get_threads iter did s =
     map (\<lambda>k. thread_summary (snd k) (entry_list (sms_threads s) k))
       (filter (\<lambda>k. fst k = did) (iter (sms_threads s)))"

section \<open>Remote keyboard\<close>

definition dec_keyboard_echo :: "json \<Rightarrow> keyboard_echo res" where
  "dec_keyboard_echo = dec_struct 0 [''key'', ''isAck'', ''specialKey'', ''shift'', ''ctrl'', ''alt'', ''super'']
     (\<lambda>get. rbind (optional dec_string (get ''key'')) (\<lambda>k.
            rbind (optional dec_bool (get ''isAck'')) (\<lambda>a.
            rbind (defaulted 0 dec_i32 (get ''specialKey'')) (\<lambda>sp.
            rbind (defaulted False dec_bool (get ''shift'')) (\<lambda>sh.
            rbind (defaulted False dec_bool (get ''ctrl'')) (\<lambda>ct.
            rbind (defaulted False dec_bool (get ''alt'')) (\<lambda>al.
            rbind (defaulted False dec_bool (get ''super'')) (\<lambda>su.
              Inr \<lparr>ke_key = k, ke_is_ack = a, ke_special_key = sp, ke_shift = sh, ke_ctrl = ct,
                   ke_alt = al, ke_super = su\<rparr>))))))))"

definition remotekeyboard_handle :: "'z plugin_tables_scheme handler" where
  "remotekeyboard_handle did pkt s =
     (HResult (Inr None),
      if packet_type pkt = ''kdeconnect.mousepad.echo'' then
        (case dec_keyboard_echo (packet_body pkt) of
           Inr e \<Rightarrow> announce (RemoteKeyboardEcho did (ke_key e)
                      (case ke_is_ack e of Some b \<Rightarrow> b | None \<Rightarrow> False)
                      (ke_special_key e) (ke_shift e) (ke_ctrl e) (ke_alt e) (ke_super e)) s
         | Inl _ \<Rightarrow> s)
      else if packet_type pkt = ''kdeconnect.mousepad.keyboardstate'' then
        (case dec_struct 1 [''state''] (\<lambda>get. required dec_bool (get ''state'')) (packet_body pkt) of
           Inr b \<Rightarrow> announce (RemoteKeyboardState did b) s
         | Inl _ \<Rightarrow> s)
      else s)"

section \<open>The plugins as the registry holds them\<close>

definition battery_plugin :: "(nat \<Rightarrow> i64) \<Rightarrow> 'z plugin_tables_scheme plugin" where
  "battery_plugin pid = \<lparr>pl_name = ''battery'', pl_incoming = [''kdeconnect.battery''],
     pl_outgoing = [''kdeconnect.battery.request''], pl_handle = battery_handle,
     pl_on_connected = (\<lambda>did s. (battery_connected (pid 0), s)), pl_on_disconnected = battery_disconnected\<rparr>"

definition connectivity_plugin :: "'z plugin_tables_scheme plugin" where
  "connectivity_plugin = \<lparr>pl_name = ''connectivity'', pl_incoming = [''kdeconnect.connectivity_report''],
     pl_outgoing = [], pl_handle = connectivity_handle,
     pl_on_connected = (\<lambda>did s. ([], s)), pl_on_disconnected = connectivity_disconnected\<rparr>"

definition lock_plugin :: "(nat \<Rightarrow> i64) \<Rightarrow> 'z plugin_tables_scheme plugin" where
  "lock_plugin pid = \<lparr>pl_name = ''lock'', pl_incoming = [''kdeconnect.lock'', ''kdeconnect.lock.request''],
     pl_outgoing = [''kdeconnect.lock'', ''kdeconnect.lock.request''], pl_handle = lock_handle pid,
     pl_on_connected = (\<lambda>did s. ([], s)), pl_on_disconnected = lock_disconnected\<rparr>"

definition remotecommands_plugin :: "externals \<Rightarrow> (nat \<Rightarrow> i64) \<Rightarrow> 'z plugin_tables_scheme plugin" where
  "remotecommands_plugin E pid = \<lparr>pl_name = ''remotecommands'', pl_incoming = [''kdeconnect.runcommand''],
     pl_outgoing = [''kdeconnect.runcommand.request''], pl_handle = remotecommands_handle E,
     pl_on_connected = (\<lambda>did s. (remotecommands_connected (pid 0), s)),
     pl_on_disconnected = remotecommands_disconnected\<rparr>"

definition telephony_plugin :: "'z plugin_tables_scheme plugin" where
  "telephony_plugin = \<lparr>pl_name = ''telephony'', pl_incoming = [''kdeconnect.telephony''],
     pl_outgoing = [''kdeconnect.telephony.request_mute''], pl_handle = telephony_handle,
     pl_on_connected = (\<lambda>did s. ([], s)), pl_on_disconnected = telephony_disconnected\<rparr>"

definition sms_plugin :: "(thread_store \<Rightarrow> thread_key list) \<Rightarrow> (nat \<Rightarrow> i64) \<Rightarrow> 'z plugin_tables_scheme plugin" where
  "sms_plugin iter pid = \<lparr>pl_name = ''sms'', pl_incoming = [''kdeconnect.sms.messages''],
     pl_outgoing = [''kdeconnect.sms.request'', ''kdeconnect.sms.request_conversations''], pl_handle = sms_handle iter,
     pl_on_connected = (\<lambda>did s. (sms_connected (pid 0), s)), pl_on_disconnected = sms_disconnected\<rparr>"

definition remotekeyboard_plugin :: "'z plugin_tables_scheme plugin" where
  "remotekeyboard_plugin = \<lparr>pl_name = ''remotekeyboard'',
     pl_incoming = [''kdeconnect.mousepad.echo'', ''kdeconnect.mousepad.keyboardstate''],
     pl_outgoing = [''kdeconnect.mousepad.request''], pl_handle = remotekeyboard_handle,
     pl_on_connected = (\<lambda>did s. ([], s)), pl_on_disconnected = (\<lambda>did s. s)\<rparr>"

definition data_plugins ::
    "externals \<Rightarrow> (thread_store \<Rightarrow> thread_key list) \<Rightarrow> (nat \<Rightarrow> i64) \<Rightarrow> 'z plugin_tables_scheme plugin list" where
  "data_plugins E iter pid =
     [battery_plugin pid, connectivity_plugin, lock_plugin pid, remotecommands_plugin E pid, telephony_plugin,
      sms_plugin iter pid, remotekeyboard_plugin]"

section \<open>The contract of per-device data\<close>

text \<open>What reaches a plugin: packets of devices, and their disconnects.\<close>

datatype link_event = Arrives device_key packet | Gone device_key

primrec event_device :: "link_event \<Rightarrow> device_key" where
  "event_device (Arrives d p) = d"
| "event_device (Gone d) = d"

primrec apply_event :: "(device_key \<Rightarrow> packet \<Rightarrow> 's \<Rightarrow> 's) \<Rightarrow> (device_key \<Rightarrow> 's \<Rightarrow> 's) \<Rightarrow> link_event \<Rightarrow> 's \<Rightarrow> 's" where
  "apply_event handle forget (Arrives d p) s = handle d p s"
| "apply_event handle forget (Gone d) s = forget d s"

definition run_events :: "(device_key \<Rightarrow> packet \<Rightarrow> 's \<Rightarrow> 's) \<Rightarrow> (device_key \<Rightarrow> 's \<Rightarrow> 's) \<Rightarrow> link_event list \<Rightarrow> 's \<Rightarrow> 's" where
  "run_events handle forget evs s = fold (apply_event handle forget) evs s"

lemma run_events_simps [simp]:
  "run_events h f [] s = s"
  "run_events h f (ev # evs) s = run_events h f evs (apply_event h f ev s)"
  "run_events h f (evs @ evs') s = run_events h f evs' (run_events h f evs s)"
  by (simp_all add: run_events_def)

text \<open>Events of other devices do not show, and a disconnect leaves nothing.\<close>

locale device_view =
  fixes handle :: "device_key \<Rightarrow> packet \<Rightarrow> 's \<Rightarrow> 's"
    and forget :: "device_key \<Rightarrow> 's \<Rightarrow> 's"
    and view :: "device_key \<Rightarrow> 's \<Rightarrow> 'v"
    and blank :: 'v
  assumes handle_other: "d \<noteq> e \<Longrightarrow> view e (handle d p s) = view e s"
    and forget_other: "d \<noteq> e \<Longrightarrow> view e (forget d s) = view e s"
    and forget_view: "view d (forget d s) = blank"
begin

lemma event_other: "event_device ev \<noteq> e \<Longrightarrow> view e (apply_event handle forget ev s) = view e s"
  by (cases ev) (simp_all add: handle_other forget_other)

lemma run_other:
  "\<forall>ev \<in> set evs. event_device ev \<noteq> e \<Longrightarrow> view e (run_events handle forget evs s) = view e s"
  by (induction evs arbitrary: s) (simp_all add: event_other)

lemma gone_leaves_blank:
  "\<forall>ev \<in> set later. event_device ev \<noteq> e \<Longrightarrow> view e (run_events handle forget (evs @ Gone e # later) s) = blank"
  by (simp add: run_other forget_view)

end

text \<open>Where moreover a packet's effect on its device's view depends on that view only, a view after
  any run is that of the device's own events since its last disconnect.\<close>

locale device_data = device_view handle forget view blank
  for handle :: "device_key \<Rightarrow> packet \<Rightarrow> 's \<Rightarrow> 's"
    and forget :: "device_key \<Rightarrow> 's \<Rightarrow> 's"
    and view :: "device_key \<Rightarrow> 's \<Rightarrow> 'v"
    and blank :: 'v +
  assumes handle_local: "view d s = view d t \<Longrightarrow> view d (handle d p s) = view d (handle d p t)"
begin

lemma event_local:
  "view e s = view e t \<Longrightarrow> event_device ev = e \<Longrightarrow>
   view e (apply_event handle forget ev s) = view e (apply_event handle forget ev t)"
  by (cases ev) (auto intro: handle_local simp: forget_view)

lemma run_purged:
  assumes "view e s = view e t"
  shows "view e (run_events handle forget evs s)
       = view e (run_events handle forget (filter (\<lambda>ev. event_device ev = e) evs) t)"
  using assms
proof (induction evs arbitrary: s t)
  case (Cons ev evs)
  show ?case
  proof (cases "event_device ev = e")
    case True
    with Cons.IH [OF event_local [OF Cons.prems True]] show ?thesis by simp
  next
    case False
    with Cons.IH [of "apply_event handle forget ev s" t] Cons.prems show ?thesis by (simp add: event_other)
  qed
qed simp

lemma run_since_gone:
  assumes "view e fresh = blank"
  shows "view e (run_events handle forget (evs @ Gone e # later) s)
       = view e (run_events handle forget (filter (\<lambda>ev. event_device ev = e) later) fresh)"
  using run_purged [of e "forget e (run_events handle forget evs s)" fresh later] assms
  by (simp add: forget_view)

end

subsection \<open>The plugins meet it\<close>

lemma announce_frame [simp]:
  "batteries (announce ev s) = batteries s" "reports (announce ev s) = reports s"
  "lock_states (announce ev s) = lock_states s" "remote_commands (announce ev s) = remote_commands s"
  "add_flags (announce ev s) = add_flags s" "call_log (announce ev s) = call_log s"
  "sms_threads (announce ev s) = sms_threads s"
  by (simp_all add: announce_def)

lemma connectivity_fold:
  "fold (\<lambda>(sub, i) s. s\<lparr>reports := (reports s)(did \<mapsto> connectivity_entry i)\<rparr>) kvs s
   = (if kvs = [] then s else s\<lparr>reports := (reports s)(did \<mapsto> connectivity_entry (snd (last kvs)))\<rparr>)"
  by (induction kvs arbitrary: s) (auto split: prod.splits)

lemma connectivity_state:
  "snd (connectivity_handle did pkt s) =
     (if packet_type pkt \<noteq> ''kdeconnect.connectivity_report'' then s
      else (case json_get (packet_body pkt) ''signalStrengths'' of
              Some (JObj kvs) \<Rightarrow>
                (if kvs = [] then s else s\<lparr>reports := (reports s)(did \<mapsto> connectivity_entry (snd (last kvs)))\<rparr>)
            | _ \<Rightarrow> s))"
  unfolding connectivity_handle_def by (simp only: connectivity_fold snd_conv)

lemma min_by_key_in: "min_by_key f xs = Some x \<Longrightarrow> x \<in> set xs"
  by (induction xs arbitrary: x) (auto split: option.splits if_splits)

lemma min_by_key_None: "min_by_key f xs = None \<longleftrightarrow> xs = []"
  by (cases xs) (auto split: option.splits)

lemma min_by_key_le: "min_by_key f xs = Some x \<Longrightarrow> y \<in> set xs \<Longrightarrow> f x \<le> f y"
proof (induction xs arbitrary: x y)
  case (Cons a xs)
  show ?case
  proof (cases "min_by_key f xs")
    case None
    with Cons.prems show ?thesis by (auto simp: min_by_key_None)
  next
    case (Some z)
    with Cons.IH [OF Some, of y] Cons.prems show ?thesis by (auto split: if_splits)
  qed
qed simp

lemma evict_other: "fst k \<noteq> did \<Longrightarrow> evict_oldest iter did m k = m k"
  by (auto simp: evict_oldest_def Let_def hm_remove_apply split: option.splits dest: min_by_key_in)

lemma store_other: "fst k \<noteq> did \<Longrightarrow> store_message iter did msg m k = m k"
  by (auto simp: store_message_def Let_def evict_other)

lemma fold_store_other: "fst k \<noteq> did \<Longrightarrow> fold (store_message iter did) msgs m k = m k"
  by (induction msgs arbitrary: m) (simp_all add: store_other)

definition device_threads :: "device_key \<Rightarrow> 'z plugin_tables_scheme \<Rightarrow> (i64 \<rightharpoonup> sms_message list)" where
  "device_threads did s = (\<lambda>t. sms_threads s (did, t))"

definition commands_view :: "device_key \<Rightarrow> 'z plugin_tables_scheme \<Rightarrow> (string \<rightharpoonup> remote_command) option \<times> bool" where
  "commands_view did s = (get_commands did s, can_add_command did s)"

interpretation battery: device_data "\<lambda>d p s. snd (battery_handle d p s)" battery_disconnected get_battery None
  by unfold_locales (auto simp: battery_handle_def battery_disconnected_def get_battery_def split: sum.splits)

interpretation connectivity: device_data "\<lambda>d p s. snd (connectivity_handle d p s)" connectivity_disconnected get_report None
  by unfold_locales (auto simp: connectivity_state connectivity_disconnected_def get_report_def split: option.splits json.splits)

interpretation lock: device_data "\<lambda>d p s. snd (lock_handle pid d p s)" lock_disconnected is_locked None
  by unfold_locales (auto simp: lock_handle_def lock_disconnected_def is_locked_def split: option.splits)

interpretation remotecommands: device_data "\<lambda>d p s. snd (remotecommands_handle E d p s)" remotecommands_disconnected
    commands_view "(None, False)"
  by unfold_locales (auto simp: remotecommands_handle_def remotecommands_disconnected_def commands_view_def get_commands_def
      can_add_command_def Let_def split: option.splits json.splits)

interpretation telephony: device_data "\<lambda>d p s. snd (telephony_handle d p s)" telephony_disconnected get_calls "[]"
  by unfold_locales (auto simp: telephony_handle_def telephony_disconnected_def get_calls_def split: sum.splits)

interpretation sms: device_view "\<lambda>d p s. snd (sms_handle iter d p s)" sms_disconnected device_threads Map.empty
  by unfold_locales (auto simp: sms_handle_def sms_disconnected_def device_threads_def fold_store_other
      hm_retain_def fun_eq_iff split: sum.splits option.splits)

section \<open>All of them together\<close>

definition data_view where
  "data_view did s = (get_battery did s, get_report did s, is_locked did s, commands_view did s, get_calls did s,
     device_threads did s)"

abbreviation data_blank where
  "data_blank \<equiv> (None, None, None, (None, False), [], Map.empty)"

lemmas data_getters = get_battery_def get_report_def is_locked_def commands_view_def get_commands_def
  can_add_command_def get_calls_def device_threads_def

text \<open>Each handler writes its own tables only.\<close>

lemma battery_frame: "reports (snd (battery_handle d p s)) = reports s" "lock_states (snd (battery_handle d p s)) = lock_states s"
  "remote_commands (snd (battery_handle d p s)) = remote_commands s" "add_flags (snd (battery_handle d p s)) = add_flags s"
  "call_log (snd (battery_handle d p s)) = call_log s" "sms_threads (snd (battery_handle d p s)) = sms_threads s"
  by (auto simp: battery_handle_def split: sum.splits)

lemma connectivity_frame: "batteries (snd (connectivity_handle d p s)) = batteries s"
  "lock_states (snd (connectivity_handle d p s)) = lock_states s"
  "remote_commands (snd (connectivity_handle d p s)) = remote_commands s" "add_flags (snd (connectivity_handle d p s)) = add_flags s"
  "call_log (snd (connectivity_handle d p s)) = call_log s" "sms_threads (snd (connectivity_handle d p s)) = sms_threads s"
  by (auto simp: connectivity_state split: option.splits json.splits)

lemma lock_frame: "batteries (snd (lock_handle pid d p s)) = batteries s" "reports (snd (lock_handle pid d p s)) = reports s"
  "remote_commands (snd (lock_handle pid d p s)) = remote_commands s" "add_flags (snd (lock_handle pid d p s)) = add_flags s"
  "call_log (snd (lock_handle pid d p s)) = call_log s" "sms_threads (snd (lock_handle pid d p s)) = sms_threads s"
  by (auto simp: lock_handle_def split: option.splits)

lemma remotecommands_frame: "batteries (snd (remotecommands_handle E d p s)) = batteries s"
  "reports (snd (remotecommands_handle E d p s)) = reports s" "lock_states (snd (remotecommands_handle E d p s)) = lock_states s"
  "call_log (snd (remotecommands_handle E d p s)) = call_log s" "sms_threads (snd (remotecommands_handle E d p s)) = sms_threads s"
  by (auto simp: remotecommands_handle_def Let_def split: option.splits json.splits)

lemma telephony_frame: "batteries (snd (telephony_handle d p s)) = batteries s" "reports (snd (telephony_handle d p s)) = reports s"
  "lock_states (snd (telephony_handle d p s)) = lock_states s" "remote_commands (snd (telephony_handle d p s)) = remote_commands s"
  "add_flags (snd (telephony_handle d p s)) = add_flags s" "sms_threads (snd (telephony_handle d p s)) = sms_threads s"
  by (auto simp: telephony_handle_def split: sum.splits)

lemma sms_frame: "batteries (snd (sms_handle iter d p s)) = batteries s" "reports (snd (sms_handle iter d p s)) = reports s"
  "lock_states (snd (sms_handle iter d p s)) = lock_states s" "remote_commands (snd (sms_handle iter d p s)) = remote_commands s"
  "add_flags (snd (sms_handle iter d p s)) = add_flags s" "call_log (snd (sms_handle iter d p s)) = call_log s"
  by (auto simp: sms_handle_def split: sum.splits)

lemma remotekeyboard_frame: "batteries (snd (remotekeyboard_handle d p s)) = batteries s"
  "reports (snd (remotekeyboard_handle d p s)) = reports s" "lock_states (snd (remotekeyboard_handle d p s)) = lock_states s"
  "remote_commands (snd (remotekeyboard_handle d p s)) = remote_commands s" "add_flags (snd (remotekeyboard_handle d p s)) = add_flags s"
  "call_log (snd (remotekeyboard_handle d p s)) = call_log s" "sms_threads (snd (remotekeyboard_handle d p s)) = sms_threads s"
  by (auto simp: remotekeyboard_handle_def split: sum.splits)

lemmas handler_frames = battery_frame connectivity_frame lock_frame remotecommands_frame telephony_frame sms_frame remotekeyboard_frame

lemma handler_others:
  "d \<noteq> e \<Longrightarrow> batteries (snd (battery_handle d p s)) e = batteries s e"
  "d \<noteq> e \<Longrightarrow> reports (snd (connectivity_handle d p s)) e = reports s e"
  "d \<noteq> e \<Longrightarrow> lock_states (snd (lock_handle pid d p s)) e = lock_states s e"
  "d \<noteq> e \<Longrightarrow> remote_commands (snd (remotecommands_handle E d p s)) e = remote_commands s e"
  "d \<noteq> e \<Longrightarrow> add_flags (snd (remotecommands_handle E d p s)) e = add_flags s e"
  "d \<noteq> e \<Longrightarrow> call_log (snd (telephony_handle d p s)) e = call_log s e"
  "d \<noteq> e \<Longrightarrow> sms_threads (snd (sms_handle iter d p s)) (e, t) = sms_threads s (e, t)"
  using battery.handle_other [of d e p s] connectivity.handle_other [of d e p s] lock.handle_other [of d e pid p s]
    sms.handle_other [of d e iter p s]
  by (auto simp: data_getters remotecommands_handle_def telephony_handle_def Let_def fun_eq_iff
      split: option.splits json.splits sum.splits)

lemmas plugin_defs = battery_plugin_def connectivity_plugin_def lock_plugin_def remotecommands_plugin_def telephony_plugin_def
  sms_plugin_def remotekeyboard_plugin_def

lemma sms_disconnected_simps [simp]:
  "sms_threads (sms_disconnected d s) (e, t) = (if e = d then None else sms_threads s (e, t))"
  "batteries (sms_disconnected d s) = batteries s" "reports (sms_disconnected d s) = reports s"
  "lock_states (sms_disconnected d s) = lock_states s" "remote_commands (sms_disconnected d s) = remote_commands s"
  "add_flags (sms_disconnected d s) = add_flags s" "call_log (sms_disconnected d s) = call_log s"
  by (simp_all add: sms_disconnected_def hm_retain_def split: option.splits)

lemmas forget_defs = battery_disconnected_def connectivity_disconnected_def lock_disconnected_def
  remotecommands_disconnected_def telephony_disconnected_def

lemma plugin_handle_other:
  assumes "p \<in> set (data_plugins E iter pid)" and "d \<noteq> e"
  shows "data_view e (snd (pl_handle p d pkt s)) = data_view e s"
  using assms
  unfolding data_plugins_def data_view_def
  by (auto simp: plugin_defs data_getters handler_frames handler_others)

lemma plugin_forget_other:
  assumes "p \<in> set (data_plugins E iter pid)" and "d \<noteq> e"
  shows "data_view e (pl_on_disconnected p d s) = data_view e s"
  using assms
  unfolding data_plugins_def data_view_def
  by (auto simp: plugin_defs data_getters forget_defs)

text \<open>A daemon with these plugins: registered under their names, swept in some order, and wired to the
  router at start-up.\<close>

definition data_app ::
    "externals \<Rightarrow> (thread_store \<Rightarrow> thread_key list) \<Rightarrow> (nat \<Rightarrow> i64) \<Rightarrow> 'z plugin_tables_scheme app \<Rightarrow> bool" where
  "data_app E iter pid A \<longleftrightarrow>
     plugins (app_plugins A) = map_of (map (\<lambda>p. (pl_name p, p)) (data_plugins E iter pid))
   \<and> set (app_order A) = dom (plugins (app_plugins A))
   \<and> app_router A = init_plugins (app_order A) (app_plugins A) new_router"

lemma data_plugin_names: "map pl_name (data_plugins E iter pid) =
    [''battery'', ''connectivity'', ''lock'', ''remotecommands'', ''telephony'', ''sms'', ''remotekeyboard'']"
  by (simp add: data_plugins_def plugin_defs)

lemma plugin_table:
  assumes "data_app E iter pid A"
  shows "plugins (app_plugins A) n = Some p \<longleftrightarrow> p \<in> set (data_plugins E iter pid) \<and> n = pl_name p"
proof -
  have "distinct (map fst (map (\<lambda>p. (pl_name p, p)) (data_plugins E iter pid)))"
    by (simp add: comp_def data_plugin_names)
  from map_of_eq_Some_iff [OF this] assms show ?thesis by (auto simp: data_app_def)
qed

lemma swept_plugins:
  fixes A :: "'z plugin_tables_scheme app"
  assumes "data_app E iter pid A"
  shows "set (List.map_filter (plugins (app_plugins A)) (app_order A)) = set (data_plugins E iter pid)"
proof -
  have "set (List.map_filter m ns) = {p. \<exists>n \<in> set ns. m n = Some p}" for m :: "string \<Rightarrow> 'z plugin_tables_scheme plugin option" and ns
    by (induction ns) (auto simp: map_filter_simps split: option.splits)
  moreover have "set (app_order A) = {n. \<exists>p. plugins (app_plugins A) n = Some p}"
    using assms by (auto simp: data_app_def)
  ultimately show ?thesis using plugin_table [OF assms] by auto
qed

lemma distinct_incoming: "p \<in> set (data_plugins E iter pid) \<Longrightarrow> distinct (pl_incoming p)"
  by (auto simp: data_plugins_def plugin_defs)

lemma default_handlers_init: "default_handlers (init_plugins order pr r) = default_handlers r"
proof -
  have "default_handlers (fold (\<lambda>cap r. router_register cap h r) caps r) = default_handlers r" for h caps and r :: "'a packet_router"
    by (induction caps arbitrary: r) (simp_all add: router_register_def)
  then show ?thesis
    unfolding init_plugins_def by (induction order arbitrary: r) (simp_all split: option.splits)
qed

lemma route_frame:
  assumes "\<And>h s. h \<in> set (entry_list (handlers r) (packet_type pkt)) \<union> set (default_handlers r) \<Longrightarrow> f (snd (h d pkt s)) = f s"
  shows "f (snd (route r d pkt s)) = f s"
proof -
  have "f (snd (run_all hs d pkt s)) = f s"
    if "set hs \<subseteq> set (entry_list (handlers r) (packet_type pkt)) \<union> set (default_handlers r)" for hs
    using that
  proof (induction hs arbitrary: s)
    case (Cons h hs)
    have "snd (run_all (h # hs) d pkt s) = snd (run_all hs d pkt (snd (h d pkt s)))"
      by (simp add: Let_def split: prod.splits)
    with Cons assms [of h] show ?case by simp
  qed simp
  then show ?thesis by (simp add: route_runs Let_def entry_list_def split: option.splits)
qed

lemma data_route_frame:
  assumes "data_app E iter pid A" and "\<And>p s. p \<in> set (data_plugins E iter pid) \<Longrightarrow> f (snd (pl_handle p d pkt s)) = f s"
  shows "f (snd (route (app_router A) d pkt s)) = f s"
proof (rule route_frame)
  have "\<forall>p \<in> ran (plugins (app_plugins A)). distinct (pl_incoming p)"
    using distinct_incoming by (auto simp: ran_def plugin_table [OF assms(1)])
  from init_plugins_wires_all [OF this, of "app_order A" "packet_type pkt"] swept_plugins [OF assms(1)] assms(1)
  have "set (entry_list (handlers (app_router A)) (packet_type pkt)) \<subseteq> pl_handle ` set (data_plugins E iter pid)"
    by (auto simp: data_app_def)
  moreover have "default_handlers (app_router A) = []"
    using assms(1) by (simp add: data_app_def default_handlers_init new_router_def)
  ultimately show "f (snd (h d pkt s)) = f s"
    if "h \<in> set (entry_list (handlers (app_router A)) (packet_type pkt)) \<union> set (default_handlers (app_router A))" for h s
    using that assms(2) by auto
qed

lemma fold_frame:
  "(\<And>p s. p \<in> set ps \<Longrightarrow> f (g p s) = f s) \<Longrightarrow> f (fold g ps s) = f s"
  by (induction ps arbitrary: s) simp_all

lemma fold_establishes:
  assumes "p \<in> set ps" and "\<And>s. Q (g p s)" and "\<And>p s. p \<in> set ps \<Longrightarrow> Q s \<Longrightarrow> Q (g p s)"
  shows "Q (fold g ps s)"
  using assms
proof (induction ps arbitrary: s)
  case (Cons a ps)
  have keep: "Q (fold g ps s)" if "Q s" for s
    using that Cons.prems(3) by (induction ps arbitrary: s) auto
  show ?case
  proof (cases "p = a")
    case True
    with keep [of "g a s"] Cons.prems(2) show ?thesis by simp
  next
    case False
    with Cons show ?thesis by simp
  qed
qed simp

lemma forget_keeps_blank:
  assumes "p \<in> set (data_plugins E iter pid)"
  shows "batteries s d = None \<Longrightarrow> batteries (pl_on_disconnected p d s) d = None"
    "reports s d = None \<Longrightarrow> reports (pl_on_disconnected p d s) d = None"
    "lock_states s d = None \<Longrightarrow> lock_states (pl_on_disconnected p d s) d = None"
    "remote_commands s d = None \<and> add_flags s d = None \<Longrightarrow>
       remote_commands (pl_on_disconnected p d s) d = None \<and> add_flags (pl_on_disconnected p d s) d = None"
    "call_log s d = None \<Longrightarrow> call_log (pl_on_disconnected p d s) d = None"
    "\<forall>t. sms_threads s (d, t) = None \<Longrightarrow> \<forall>t. sms_threads (pl_on_disconnected p d s) (d, t) = None"
  using assms unfolding data_plugins_def
  by (auto simp: plugin_defs forget_defs)

lemma forget_all:
  assumes "set ps = set (data_plugins E iter pid)"
  shows "data_view d (fold (\<lambda>p. pl_on_disconnected p d) ps s) = data_blank" (is "data_view d ?t = _")
proof -
  note keeps = assms forget_keeps_blank [of _ E iter pid]
  have in_ps: "battery_plugin pid \<in> set ps" "connectivity_plugin \<in> set ps" "lock_plugin pid \<in> set ps"
    "remotecommands_plugin E pid \<in> set ps" "telephony_plugin \<in> set ps" "sms_plugin iter pid \<in> set ps"
    by (simp_all add: assms data_plugins_def)
  have "batteries ?t d = None"
    by (rule fold_establishes [OF in_ps(1)]) (simp_all add: keeps plugin_defs forget_defs)
  moreover have "reports ?t d = None"
    by (rule fold_establishes [OF in_ps(2)]) (simp_all add: keeps plugin_defs forget_defs)
  moreover have "lock_states ?t d = None"
    by (rule fold_establishes [OF in_ps(3)]) (simp_all add: keeps plugin_defs forget_defs)
  moreover have "remote_commands ?t d = None \<and> add_flags ?t d = None"
    by (rule fold_establishes [OF in_ps(4)]) (simp_all add: keeps plugin_defs forget_defs)
  moreover have "call_log ?t d = None"
    by (rule fold_establishes [OF in_ps(5)]) (simp_all add: keeps plugin_defs forget_defs)
  moreover have "\<forall>t. sms_threads ?t (d, t) = None"
    by (rule fold_establishes [OF in_ps(6)]) (simp_all add: keeps plugin_defs forget_defs)
  ultimately show ?thesis by (simp add: data_view_def data_getters)
qed

text \<open>The dispatch as the provider of the contract: packets through the router, disconnects through the
  registry's sweep.\<close>

definition data_registry ::
    "externals \<Rightarrow> (thread_store \<Rightarrow> thread_key list) \<Rightarrow> (nat \<Rightarrow> i64) \<Rightarrow> 'z plugin_tables_scheme plugin_registry" where
  "data_registry E iter pid = fold plugin_register (data_plugins E iter pid) new_registry"

definition assembled ::
    "externals \<Rightarrow> (thread_store \<Rightarrow> thread_key list) \<Rightarrow> (nat \<Rightarrow> i64) \<Rightarrow> 'z plugin_tables_scheme app" where
  "assembled E iter pid =
     (let pr = data_registry E iter pid;
          order = map pl_name (data_plugins E iter pid :: 'z plugin_tables_scheme plugin list)
      in \<lparr>app_router = init_plugins order pr new_router, app_plugins = pr, app_order = order\<rparr>)"

lemma plugins_register: "plugins (plugin_register p pr) = (plugins pr)(pl_name p \<mapsto> p)"
  by (simp add: plugin_register_def Let_def)

lemma data_app_assembled: "data_app E iter pid (assembled E iter pid :: 'z plugin_tables_scheme app)"
proof -
  have "plugins (data_registry E iter pid :: 'z plugin_tables_scheme plugin_registry)
      = map_of (map (\<lambda>p. (pl_name p, p)) (data_plugins E iter pid))"
    by (simp add: data_registry_def data_plugins_def plugins_register new_registry_def plugin_defs fun_upd_twist)
  then show ?thesis by (simp add: data_app_def assembled_def Let_def dom_map_of_conv_image_fst image_image)
qed

interpretation assembled: device_view "\<lambda>d pkt s. snd (route (app_router (assembled E iter pid)) d pkt s)"
    "\<lambda>d. fold (\<lambda>p. pl_on_disconnected p d) (data_plugins E iter pid)" data_view data_blank
  by unfold_locales (simp_all add: data_route_frame [OF data_app_assembled] plugin_handle_other fold_frame
      plugin_forget_other forget_all)

section \<open>Bounds\<close>

text \<open>\<open>iter_ok\<close> is what the standard library says of iterating a hash map: every key once.\<close>

definition iter_ok :: "(('k \<rightharpoonup> 'v) \<Rightarrow> 'k list) \<Rightarrow> bool" where
  "iter_ok iter \<longleftrightarrow> (\<forall>m. finite (dom m) \<longrightarrow> distinct (iter m) \<and> set (iter m) = dom m)"

definition own_threads :: "device_key \<Rightarrow> thread_store \<Rightarrow> thread_key set" where
  "own_threads did m = {k \<in> dom m. fst k = did}"

definition threads_ok :: "thread_store \<Rightarrow> bool" where
  "threads_ok m \<longleftrightarrow> finite (dom m) \<and> (\<forall>d. card (own_threads d m) \<le> MAX_SMS_THREADS_PER_DEVICE)
     \<and> (\<forall>ms \<in> ran m. length ms \<le> MAX_SMS_MESSAGES_PER_THREAD)"

lemma push_capped_length: "length xs \<le> cap \<Longrightarrow> length (push_capped cap x xs) \<le> cap"
  by (cases cap) (simp_all add: push_capped_def Let_def)

lemma own_count:
  assumes "iter_ok iter" and "finite (dom m)"
  shows "length (filter (\<lambda>k. fst k = did) (iter m)) = card (own_threads did m)"
proof -
  have "distinct (filter (\<lambda>k. fst k = did) (iter m))" "set (filter (\<lambda>k. fst k = did) (iter m)) = own_threads did m"
    using assms by (auto simp: iter_ok_def own_threads_def)
  then show ?thesis by (metis distinct_card)
qed

lemma evict_oldest_cases:
  assumes "iter_ok iter" and "finite (dom m)"
  obtains (roomy) "card (own_threads did m) < MAX_SMS_THREADS_PER_DEVICE" "evict_oldest iter did m = m"
    | (full) k where "MAX_SMS_THREADS_PER_DEVICE \<le> card (own_threads did m)" "k \<in> own_threads did m"
        "evict_oldest iter did m = hm_remove k m"
        "\<forall>k' \<in> own_threads did m. newest_date (entry_list m k) \<le> newest_date (entry_list m k')"
proof (cases "MAX_SMS_THREADS_PER_DEVICE \<le> card (own_threads did m)")
  case False
  then show ?thesis using roomy own_count [OF assms, of did] by (simp add: evict_oldest_def Let_def)
next
  case True
  let ?own = "filter (\<lambda>k. fst k = did) (iter m)" and ?f = "\<lambda>k. newest_date (entry_list m k)"
  have own: "set ?own = own_threads did m" using assms by (auto simp: iter_ok_def own_threads_def)
  from True have "?own \<noteq> []" using own_count [OF assms, of did] by (auto simp: MAX_SMS_THREADS_PER_DEVICE_def)
  then obtain k where k: "min_by_key ?f ?own = Some k" by (metis min_by_key_None not_None_eq)
  show ?thesis
  proof (rule full [of k])
    show "evict_oldest iter did m = hm_remove k m"
      using True k by (simp add: evict_oldest_def Let_def own_count [OF assms])
    show "k \<in> own_threads did m" using min_by_key_in [OF k] own by blast
    show "\<forall>k' \<in> own_threads did m. ?f k \<le> ?f k'"
      using min_by_key_le [OF k] unfolding own by blast
  qed (rule True)
qed

lemma own_threads_remove: "own_threads e (hm_remove k m) = own_threads e m - {k}"
  by (auto simp: own_threads_def hm_remove_apply)

lemma threads_ok_remove: "threads_ok m \<Longrightarrow> threads_ok (hm_remove k m)"
proof -
  assume ok: "threads_ok m"
  have "card (own_threads d m - {k}) \<le> card (own_threads d m)" for d
    by (rule card_Diff1_le)
  moreover have "ran (hm_remove k m) \<subseteq> ran m"
    by (auto simp: ran_def hm_remove_apply split: if_splits simp del: split_paired_Ex)
  ultimately show ?thesis using ok
    unfolding threads_ok_def own_threads_remove dom_hm_remove by (meson finite_Diff le_trans subsetD)
qed

lemma own_threads_finite: "threads_ok m \<Longrightarrow> finite (own_threads d m)"
  by (rule finite_subset [of _ "dom m"]) (auto simp: own_threads_def threads_ok_def)

lemma evict_room:
  assumes "iter_ok iter" and ok: "threads_ok m"
  shows "threads_ok (evict_oldest iter did m)"
    and "card (own_threads did (evict_oldest iter did m)) < MAX_SMS_THREADS_PER_DEVICE"
proof -
  have f: "finite (dom m)" using ok by (simp add: threads_ok_def)
  have "threads_ok (evict_oldest iter did m) \<and> card (own_threads did (evict_oldest iter did m)) < MAX_SMS_THREADS_PER_DEVICE"
  proof (rule evict_oldest_cases [OF assms(1) f, of did])
    fix k assume k: "k \<in> own_threads did m" "evict_oldest iter did m = hm_remove k m"
    then have "card (own_threads did m - {k}) < card (own_threads did m)"
      by (intro card_Diff1_less own_threads_finite [OF ok])
    moreover have "card (own_threads did m) \<le> MAX_SMS_THREADS_PER_DEVICE" using ok by (simp add: threads_ok_def)
    ultimately show ?thesis using k threads_ok_remove [OF ok] by (simp add: own_threads_remove)
  qed (use ok in simp)
  then show "threads_ok (evict_oldest iter did m)"
    and "card (own_threads did (evict_oldest iter did m)) < MAX_SMS_THREADS_PER_DEVICE" by blast+
qed

lemma entry_length: "threads_ok m \<Longrightarrow> length (entry_list m k) \<le> MAX_SMS_MESSAGES_PER_THREAD"
  by (auto simp: threads_ok_def entry_list_def ranI split: option.splits)

lemma threads_ok_upd:
  assumes ok: "threads_ok m" and "length ms \<le> MAX_SMS_MESSAGES_PER_THREAD"
    and "k \<in> dom m \<or> card (own_threads (fst k) m) < MAX_SMS_THREADS_PER_DEVICE"
  shows "threads_ok (m(k \<mapsto> ms))"
proof -
  have "own_threads d (m(k \<mapsto> ms)) = (if d = fst k then insert k (own_threads d m) else own_threads d m)" for d
    by (auto simp: own_threads_def)
  moreover have "card (insert k (own_threads (fst k) m)) \<le> MAX_SMS_THREADS_PER_DEVICE"
  proof (cases "k \<in> dom m")
    case True
    then have "insert k (own_threads (fst k) m) = own_threads (fst k) m" by (auto simp: own_threads_def)
    with ok show ?thesis by (simp add: threads_ok_def)
  next
    case False
    with assms(3) show ?thesis using own_threads_finite [OF ok, of "fst k"] by (simp add: card_insert_if)
  qed
  moreover have "ran (m(k \<mapsto> ms)) \<subseteq> insert ms (ran m)"
    by (auto simp: ran_def split: if_splits simp del: split_paired_Ex)
  ultimately show ?thesis using assms by (auto simp: threads_ok_def)
qed

lemma store_message_ok:
  assumes "iter_ok iter" and "threads_ok m"
  shows "threads_ok (store_message iter did msg m)"
proof (cases "hm_contains m (did, case thread_id msg of Some t \<Rightarrow> t | None \<Rightarrow> 0)")
  case True
  then show ?thesis using assms entry_length [OF assms(2)]
    by (simp add: store_message_def Let_def) (intro threads_ok_upd push_capped_length; simp add: hm_contains_iff)
next
  case False
  then show ?thesis using evict_room [OF assms] entry_length [OF evict_room(1) [OF assms]]
    by (simp add: store_message_def Let_def) (intro threads_ok_upd push_capped_length; simp)
qed

definition tables_ok :: "'z plugin_tables_scheme \<Rightarrow> bool" where
  "tables_ok s \<longleftrightarrow> (\<forall>d. length (get_calls d s) \<le> MAX_CALLS_PER_DEVICE) \<and> threads_ok (sms_threads s)"

lemma tables_ok_cong: "call_log t = call_log s \<Longrightarrow> sms_threads t = sms_threads s \<Longrightarrow> tables_ok s \<Longrightarrow> tables_ok t"
  by (simp add: tables_ok_def get_calls_def)

lemma telephony_ok: "tables_ok s \<Longrightarrow> tables_ok (snd (telephony_handle d p s))"
  by (auto simp: tables_ok_def telephony_handle_def telephony_frame get_calls_def intro!: push_capped_length split: sum.splits option.splits)

lemma sms_ok:
  assumes "iter_ok iter" and "tables_ok s"
  shows "tables_ok (snd (sms_handle iter d p s))"
proof -
  have "threads_ok m \<Longrightarrow> threads_ok (fold (store_message iter d) msgs m)" for msgs m
    by (induction msgs arbitrary: m) (simp_all add: store_message_ok [OF assms(1)])
  with assms(2) show ?thesis by (auto simp: tables_ok_def sms_handle_def get_calls_def split: sum.splits)
qed

lemma threads_ok_retain: "threads_ok m \<Longrightarrow> threads_ok (hm_retain f m)"
proof -
  assume ok: "threads_ok m"
  have "own_threads d (hm_retain f m) \<subseteq> own_threads d m" for d
    by (auto simp: own_threads_def hm_retain_def split: option.splits if_splits)
  then have "card (own_threads d (hm_retain f m)) \<le> card (own_threads d m)" for d
    by (intro card_mono own_threads_finite ok)
  moreover have "dom (hm_retain f m) \<subseteq> dom m" "ran (hm_retain f m) \<subseteq> ran m"
    by (auto simp: hm_retain_def ran_def split: option.splits if_splits)
  ultimately show ?thesis using ok unfolding threads_ok_def by (meson finite_subset le_trans subsetD)
qed

text \<open>Any packet to any of the plugins, and any disconnect.\<close>

inductive data_step ::
    "externals \<Rightarrow> (thread_store \<Rightarrow> thread_key list) \<Rightarrow> (nat \<Rightarrow> i64) \<Rightarrow> 'z plugin_tables_scheme \<Rightarrow> 'z plugin_tables_scheme \<Rightarrow> bool"
  for E iter pid where
  data_packet: "p \<in> set (data_plugins E iter pid) \<Longrightarrow> data_step E iter pid s (snd (pl_handle p d pkt s))"
| data_gone: "p \<in> set (data_plugins E iter pid) \<Longrightarrow> data_step E iter pid s (pl_on_disconnected p d s)"

lemma plugin_handle_ok:
  assumes "p \<in> set (data_plugins E iter pid)" and "iter_ok iter" and "tables_ok s"
  shows "tables_ok (snd (pl_handle p d pkt s))"
proof -
  note same = tables_ok_cong [OF _ _ assms(3)]
  consider "p = telephony_plugin" | "p = sms_plugin iter pid"
    | "call_log (snd (pl_handle p d pkt s)) = call_log s" "sms_threads (snd (pl_handle p d pkt s)) = sms_threads s"
    using assms(1) unfolding data_plugins_def by (auto simp: plugin_defs handler_frames)
  then show ?thesis
    by cases (simp_all add: same telephony_plugin_def sms_plugin_def telephony_ok sms_ok assms)
qed

lemma plugin_forget_ok:
  assumes "p \<in> set (data_plugins E iter pid)" and "tables_ok s"
  shows "tables_ok (pl_on_disconnected p d s)"
proof -
  note same = tables_ok_cong [OF _ _ assms(2)]
  consider "p = telephony_plugin" | "p = sms_plugin iter pid"
    | "call_log (pl_on_disconnected p d s) = call_log s" "sms_threads (pl_on_disconnected p d s) = sms_threads s"
    using assms(1) unfolding data_plugins_def by (auto simp: plugin_defs forget_defs)
  then show ?thesis
  proof cases
    case 1
    with assms(2) show ?thesis
      by (auto simp: telephony_plugin_def telephony_disconnected_def tables_ok_def get_calls_def split: option.splits)
  next
    case 2
    with assms(2) show ?thesis
      by (simp add: sms_plugin_def sms_disconnected_def tables_ok_def get_calls_def threads_ok_retain)
  qed (rule same)
qed

interpretation tables: machine "data_step E iter pid" "\<lambda>s. iter_ok iter \<longrightarrow> tables_ok s"
  by unfold_locales (auto elim!: data_step.cases intro: plugin_handle_ok plugin_forget_ok)

section \<open>The calls of a device\<close>

text \<open>The calls a device reported since it was last gone: those that decode and are no cancellation.\<close>

definition calls_in :: "link_event \<Rightarrow> telephony_info list" where
  "calls_in ev = (case ev of Gone d \<Rightarrow> [] | Arrives d p \<Rightarrow>
     (case dec_telephony_info (packet_body p) of Inr i \<Rightarrow> (if tel_is_cancel i then [] else [i]) | Inl e \<Rightarrow> []))"

definition calls_since_gone :: "device_key \<Rightarrow> link_event list \<Rightarrow> telephony_info list" where
  "calls_since_gone d evs =
     concat (map calls_in (filter (\<lambda>ev. event_device ev = d) (rev (takeWhile (\<lambda>ev. ev \<noteq> Gone d) (rev evs)))))"

lemma calls_since_gone_snoc:
  "calls_since_gone d (evs @ [ev]) =
     (if ev = Gone d then [] else if event_device ev = d then calls_since_gone d evs @ calls_in ev else calls_since_gone d evs)"
  by (simp add: calls_since_gone_def)

lemma push_capped_last:
  "push_capped cap x (drop (length xs - cap) xs) = drop (length (xs @ [x]) - cap) (xs @ [x])"
  by (cases "cap \<le> length xs") (auto simp: push_capped_def Let_def Suc_diff_le)

lemma telephony_step:
  "get_calls d (snd (telephony_handle d p s)) =
     (case calls_in (Arrives d p) of [] \<Rightarrow> get_calls d s | i # _ \<Rightarrow> push_capped MAX_CALLS_PER_DEVICE i (get_calls d s))"
  by (auto simp: telephony_handle_def calls_in_def get_calls_def split: sum.splits)

section \<open>What the plugins guarantee\<close>

text \<open>A daemon whose tables are empty, and a map iterated in the order of its keys.\<close>

definition demo_tables :: plugin_tables where
  "demo_tables = daemon.extend demo_daemon
     (plugin_tables.fields Map.empty Map.empty Map.empty Map.empty Map.empty Map.empty Map.empty [])"

definition demo_iter :: "thread_store \<Rightarrow> thread_key list" where
  "demo_iter m = sorted_list_of_set (dom m)"

definition battery_packet :: packet where
  "battery_packet = new_packet 1 ''kdeconnect.battery''
     (JObj [(''currentCharge'', JNum (PosInt 85)), (''isCharging'', JBool True), (''thresholdEvent'', JNum (PosInt 0))])"

definition ringing_packet :: packet where
  "ringing_packet = new_packet 2 ''kdeconnect.telephony'' (JObj [(''event'', JStr ''ringing'')])"

lemma iter_ok_demo: "iter_ok demo_iter"
  by (simp add: iter_ok_def demo_iter_def)

lemma demo_tables_simps [simp]:
  "batteries demo_tables = Map.empty" "reports demo_tables = Map.empty" "lock_states demo_tables = Map.empty"
  "remote_commands demo_tables = Map.empty" "add_flags demo_tables = Map.empty" "call_log demo_tables = Map.empty"
  "sms_threads demo_tables = Map.empty"
  by (simp_all add: demo_tables_def daemon.extend_def plugin_tables.fields_def)

lemma new_demo_tables: "new_tables demo_tables"
  by (simp add: new_tables_def)

text \<open>Property C22.
  No device sees or disturbs another's data, and none outlives its device's link: in a daemon with
  these plugins, a packet of one device through the router and a disconnect of it leave everything
  that is kept about every other device as it was, and when the registry is told that a device
  without a live link is gone, nothing about it is left in any table. With a live link the notice is
  stale and changes nothing.\<close>

theorem plugin_data_isolated:
  assumes "data_app E iter pid A"
  shows "(d \<noteq> e \<longrightarrow> data_view e (snd (route (app_router A) d pkt s)) = data_view e s
                  \<and> data_view e (notify_disconnected A d s) = data_view e s)
       \<and> data_view d (notify_disconnected A d s) = (if get_generation d s = None then data_blank else data_view d s)"
proof -
  note swept = swept_plugins [OF assms]
  have "data_view e (snd (route (app_router A) d pkt s)) = data_view e s" if "d \<noteq> e"
    using data_route_frame [OF assms, of "data_view e"] plugin_handle_other that by blast
  moreover have "data_view e (notify_disconnected A d s) = data_view e s" if "d \<noteq> e"
    unfolding notify_disconnected_def by (auto intro!: fold_frame plugin_forget_other [OF _ that] simp: swept)
  moreover have "data_view d (notify_disconnected A d s) = (if get_generation d s = None then data_blank else data_view d s)"
    using forget_all [OF swept] by (simp add: notify_disconnected_def)
  ultimately show ?thesis by blast
qed

theorem plugin_data_isolated_witness:
  "let A = assembled demo_externals demo_iter (\<lambda>n. 1) in
     data_view ''tablet'' (snd (route (app_router A) ''phone'' battery_packet demo_tables)) = data_view ''tablet'' demo_tables"
  using plugin_data_isolated [where s = demo_tables and pkt = battery_packet and d = "''phone''" and e = "''tablet''",
      OF data_app_assembled [where E = demo_externals and iter = demo_iter and pid = "\<lambda>n. 1"]]
  by (simp add: Let_def)

text \<open>A peer cannot grow the tables without bound: whatever packets devices send and however they come
  and go, in any order, the plugins that started empty keep at most 100 calls of a device, at
  most 200 conversations of a device and at most 500 messages of a conversation.\<close>

theorem plugin_tables_bounded:
  assumes "iter_ok iter" and "new_tables start" and "reach (data_step E iter pid) start s"
  shows "length (get_calls d s) \<le> 100 \<and> card {t. device_threads d s t \<noteq> None} \<le> 200 \<and> length (get_thread d t s) \<le> 500"
proof -
  have "tables_ok start" using assms(2)
    by (simp add: tables_ok_def new_tables_def get_calls_def threads_ok_def own_threads_def)
  then have ok: "tables_ok s" using tables.reach_inv [OF assms(3)] assms(1) by blast
  have "Pair d ` {t. device_threads d s t \<noteq> None} = own_threads d (sms_threads s)"
    by (auto simp: device_threads_def own_threads_def)
  then have "card {t. device_threads d s t \<noteq> None} = card (own_threads d (sms_threads s))"
    using card_image [of "Pair d" "{t. device_threads d s t \<noteq> None}"] by (simp add: inj_on_def)
  with ok entry_length [of "sms_threads s" "(d, t)"] show ?thesis
    by (simp add: tables_ok_def threads_ok_def get_thread_def entry_list_def MAX_CALLS_PER_DEVICE_def
        MAX_SMS_THREADS_PER_DEVICE_def MAX_SMS_MESSAGES_PER_THREAD_def split: option.splits)
qed

lemma ringing_call:
  "calls_in (Arrives d ringing_packet) =
     [\<lparr>tel_event = ''ringing'', phone_number = None, contact_name = None, phone_thumbnail = None, tel_is_cancel = False\<rparr>]"
  by (simp add: calls_in_def ringing_packet_def new_packet_def dec_telephony_info_def dec_struct_def required_def optional_def)

theorem plugin_tables_bounded_witness:
  "length (get_calls ''phone'' (snd (telephony_handle ''phone'' ringing_packet demo_tables))) = 1
   \<and> card {t. device_threads ''phone'' (snd (telephony_handle ''phone'' ringing_packet demo_tables)) t \<noteq> None} \<le> 200"
proof -
  have "data_step E demo_iter pid demo_tables (snd (pl_handle telephony_plugin ''phone'' ringing_packet demo_tables))" for E pid
    by (rule data_packet) (simp add: data_plugins_def)
  then have "reach (data_step demo_externals demo_iter (\<lambda>n. 1)) demo_tables (snd (telephony_handle ''phone'' ringing_packet demo_tables))"
    by (intro reach_step [OF reach_init]) (simp add: telephony_plugin_def)
  note bounded = plugin_tables_bounded [OF iter_ok_demo new_demo_tables this, of "''phone''"]
  have "length (get_calls ''phone'' (snd (telephony_handle ''phone'' ringing_packet demo_tables))) = 1"
    by (simp add: telephony_step ringing_call) (simp add: get_calls_def push_capped_def MAX_CALLS_PER_DEVICE_def)
  with bounded show ?thesis by blast
qed

text \<open>The call log refines the plain list: after any packets and disconnects, of any devices in any order,
  the log of a device is the last 100 of the calls it has reported since it was last gone, in the
  order they came. A cancellation, which repeats the call it ends, and a packet that does not decode
  add none.\<close>

theorem call_log_refines:
  assumes "new_tables s"
  shows "get_calls d (run_events (\<lambda>d p s. snd (telephony_handle d p s)) telephony_disconnected evs s)
       = drop (length (calls_since_gone d evs) - 100) (calls_since_gone d evs)"
proof (induction evs rule: rev_induct)
  case Nil
  with assms show ?case by (simp add: calls_since_gone_def get_calls_def new_tables_def)
next
  case (snoc ev evs)
  let ?s = "run_events (\<lambda>d p s. snd (telephony_handle d p s)) telephony_disconnected evs s"
  show ?case
  proof (cases ev)
    case (Gone e)
    with snoc show ?thesis
      by (cases "e = d") (simp_all add: calls_since_gone_snoc telephony.forget_view telephony.forget_other)
  next
    case (Arrives e p)
    have "calls_in (Arrives d p) = [] \<or> (\<exists>i. calls_in (Arrives d p) = [i])"
      by (auto simp: calls_in_def split: sum.splits)
    with snoc Arrives push_capped_last [of 100 _ "calls_since_gone d evs"] show ?thesis
      by (cases "e = d") (auto simp: calls_since_gone_snoc telephony.handle_other telephony_step MAX_CALLS_PER_DEVICE_def)
  qed
qed

theorem call_log_refines_witness:
  "get_calls ''phone'' (run_events (\<lambda>d p s. snd (telephony_handle d p s)) telephony_disconnected
      [Arrives ''phone'' ringing_packet, Gone ''phone'', Arrives ''phone'' ringing_packet, Arrives ''tablet'' ringing_packet] demo_tables)
   = [\<lparr>tel_event = ''ringing'', phone_number = None, contact_name = None, phone_thumbnail = None, tel_is_cancel = False\<rparr>]"
  unfolding call_log_refines [OF new_demo_tables]
  by (simp add: calls_since_gone_def ringing_call)

text \<open>A message drops a conversation only when its own is new and the device has the full number, and
  then only the one of the device whose newest message is oldest; every other stays as it is.\<close>

theorem sms_eviction_oldest:
  assumes "iter_ok iter" and "finite (dom m)" and "m k = Some ms" and "store_message iter did msg m k \<noteq> m k"
    and "k \<noteq> (did, case thread_id msg of Some t \<Rightarrow> t | None \<Rightarrow> 0)"
  shows "fst k = did \<and> 200 \<le> card (own_threads did m)
    \<and> (\<forall>k' \<in> own_threads did m. newest_date (entry_list m k) \<le> newest_date (entry_list m k'))
    \<and> (\<forall>k'. k' \<noteq> k \<and> k' \<noteq> (did, case thread_id msg of Some t \<Rightarrow> t | None \<Rightarrow> 0) \<longrightarrow> store_message iter did msg m k' = m k')"
proof -
  have new: "store_message iter did msg m k' = evict_oldest iter did m k'"
    if "k' \<noteq> (did, case thread_id msg of Some t \<Rightarrow> t | None \<Rightarrow> 0)" for k'
    using that assms by (auto simp: store_message_def Let_def split: if_splits)
  show ?thesis
  proof (rule evict_oldest_cases [OF assms(1,2), of did])
    assume "evict_oldest iter did m = m"
    with new [OF assms(5)] assms(4) show ?thesis by simp
  next
    fix k0
    assume full: "MAX_SMS_THREADS_PER_DEVICE \<le> card (own_threads did m)" "k0 \<in> own_threads did m"
      "evict_oldest iter did m = hm_remove k0 m"
      "\<forall>k' \<in> own_threads did m. newest_date (entry_list m k0) \<le> newest_date (entry_list m k')"
    with new [OF assms(5)] assms(4) have "k = k0" by (auto simp: hm_remove_apply split: if_splits)
    with full new show ?thesis
      by (auto simp: own_threads_def MAX_SMS_THREADS_PER_DEVICE_def hm_remove_apply)
  qed
qed

end
