(* ===== verification/Contacts.thy ===== *)
theory Contacts
  imports Device_Data
begin

text \<open>
  The contacts plugin (\<open>src/plugins/contacts.rs\<close>): the phone reports the ids of its contacts with
  the time each was last changed, the plugin asks for the vCards it does not have in that version,
  and stores those that were reported, within a count and a size. The vCard parser reads names,
  phone numbers and addresses.
\<close>

section \<open>Data\<close>

definition MAX_CONTACTS_PER_DEVICE :: nat where "MAX_CONTACTS_PER_DEVICE = 10000"
definition MAX_VCARD_BYTES_PER_DEVICE :: nat where "MAX_VCARD_BYTES_PER_DEVICE = 64 * 1024 * 1024"

record contact =
  ct_uid :: string
  ct_name :: "string option"
  ct_phone_numbers :: "string list"
  ct_emails :: "string list"
  ct_vcard :: string

record device_contacts =
  dc_timestamps :: "string \<rightharpoonup> string"
  dc_contacts :: "string \<rightharpoonup> contact"
  dc_total_vcard_bytes :: nat

definition new_contacts :: device_contacts where
  "new_contacts = \<lparr>dc_timestamps = Map.empty, dc_contacts = Map.empty, dc_total_vcard_bytes = 0\<rparr>"

record contacts_daemon = daemon +
  contact_devices :: "device_key \<rightharpoonup> device_contacts"

definition contacts_of :: "device_key \<Rightarrow> 'z contacts_daemon_scheme \<Rightarrow> device_contacts" where
  "contacts_of did s = (case contact_devices s did of Some c \<Rightarrow> c | None \<Rightarrow> new_contacts)"

section \<open>vCards\<close>

definition ascii_upper :: "char \<Rightarrow> char" where
  "ascii_upper c = (let n = of_char c in if 97 \<le> n \<and> n \<le> (122::nat) then char_of (n - 32) else c)"

definition trim_end_cr :: "string \<Rightarrow> string" where
  "trim_end_cr l = rev (dropWhile (\<lambda>c. c = CHR 0x0D) (rev l))"

text \<open>A line that starts with a blank continues the one before it.\<close>

definition unfold_line :: "string \<Rightarrow> string list \<Rightarrow> string list" where
  "unfold_line raw lines =
     (if raw \<noteq> [] \<and> hd raw \<in> {CHR '' '', CHR 0x09} \<and> lines \<noteq> []
      then butlast lines @ [last lines @ trim_start raw]
      else lines @ [trim_end_cr raw])"

definition vcard_property :: "string \<Rightarrow> string" where
  "vcard_property raw =
     (let raw_prop = map ascii_upper raw in
      case split_once (CHR ''.'') raw_prop of
        Some (grp, rest) \<Rightarrow> if CHR '';'' \<notin> set grp then rest else raw_prop
      | None \<Rightarrow> raw_prop)"

definition is_prop :: "string \<Rightarrow> string \<Rightarrow> bool" where
  "is_prop p prop \<longleftrightarrow> prop = p \<or> take (Suc (length p)) prop = p @ '';''"

type_synonym vcard_fields = "string option \<times> string list \<times> string list"

definition vcard_line :: "string \<Rightarrow> vcard_fields \<Rightarrow> vcard_fields" where
  "vcard_line line = (\<lambda>(name, phones, emails).
     case split_once (CHR '':'') line of
       None \<Rightarrow> (name, phones, emails)
     | Some (raw, after) \<Rightarrow>
         (let prop = vcard_property raw; value = trim after in
          if value = [] then (name, phones, emails)
          else if is_prop ''FN'' prop then (if name = None then Some value else name, phones, emails)
          else if is_prop ''TEL'' prop then (name, phones @ [value], emails)
          else if is_prop ''EMAIL'' prop then (name, phones, emails @ [value])
          else (name, phones, emails)))"

definition parse_vcard_fields :: "string \<Rightarrow> vcard_fields" where
  "parse_vcard_fields vcard = fold vcard_line (fold unfold_line (str_lines vcard) []) (None, [], [])"

section \<open>Reports\<close>

definition timestamp_string :: "externals \<Rightarrow> json \<Rightarrow> string option" where
  "timestamp_string E v =
     (case v of JStr s \<Rightarrow> Some s | JNum n \<Rightarrow> Some (json_print E (JNum n)) | _ \<Rightarrow> None)"

definition uids_of :: "json \<Rightarrow> string list option" where
  "uids_of body = map_option (List.map_filter json_as_str) (Option.bind (json_get body ''uids'') json_as_array)"

definition parse_uids_timestamps :: "externals \<Rightarrow> json \<Rightarrow> (string \<rightharpoonup> string) option" where
  "parse_uids_timestamps E body =
     map_option (\<lambda>uids. fold (\<lambda>uid out. out(uid \<mapsto>
         (case Option.bind (json_get body uid) (timestamp_string E) of Some ts \<Rightarrow> ts | None \<Rightarrow> ''''))) uids Map.empty)
       (uids_of body)"

definition request_all_uids_timestamps :: "i64 \<Rightarrow> packet" where
  "request_all_uids_timestamps pid = new_packet pid ''kdeconnect.contacts.request_all_uids_timestamps'' (JObj [])"

definition request_vcards_by_uid :: "i64 \<Rightarrow> string list \<Rightarrow> packet" where
  "request_vcards_by_uid pid uids =
     new_packet pid ''kdeconnect.contacts.request_vcards_by_uid'' (JObj [(''uids'', JArr (map JStr uids))])"

definition needs_fetch :: "device_contacts \<Rightarrow> (string \<rightharpoonup> string) \<Rightarrow> string \<Rightarrow> bool" where
  "needs_fetch st reported uid \<longleftrightarrow> dc_timestamps st uid \<noteq> reported uid \<or> \<not> hm_contains (dc_contacts st) uid"

text \<open>The sum of the sizes over the values of the map.\<close>

definition vcard_bytes :: "(string \<rightharpoonup> contact) \<Rightarrow> nat" where
  "vcard_bytes m = (\<Sum>uid \<in> dom m. length (ct_vcard (the (m uid))))"

definition take_report :: "(string \<rightharpoonup> string) \<Rightarrow> device_contacts \<Rightarrow> device_contacts" where
  "take_report reported st =
     (let kept = hm_retain (\<lambda>uid c. hm_contains reported uid) (dc_contacts st)
      in st\<lparr>dc_timestamps := reported, dc_contacts := kept, dc_total_vcard_bytes := vcard_bytes kept\<rparr>)"

section \<open>Storing\<close>

text \<open>One vCard: stored, or dropped because it was not reported or a bound is reached. The counters
  of \<open>store_vcards_inner\<close> are for its log lines and its tests.\<close>

type_synonym counts = "nat \<times> nat \<times> nat"

definition store_vcard :: "nat \<Rightarrow> nat \<Rightarrow> string set \<Rightarrow> string \<times> contact \<Rightarrow> device_contacts \<times> counts \<Rightarrow> device_contacts \<times> counts" where
  "store_vcard max_contacts max_bytes reported = (\<lambda>(uid, c) (st, stored, unreported, capped).
     if uid \<notin> reported then (st, stored, unreported + 1, capped)
     else if \<not> hm_contains (dc_contacts st) uid \<and> max_contacts \<le> hm_len (dc_contacts st)
     then (st, stored, unreported, capped + 1)
     else (let old_bytes = (case dc_contacts st uid of Some old \<Rightarrow> length (ct_vcard old) | None \<Rightarrow> 0);
               prospective_bytes = dc_total_vcard_bytes st + length (ct_vcard c) - old_bytes
           in if max_bytes < prospective_bytes then (st, stored, unreported, capped + 1)
              else (st\<lparr>dc_total_vcard_bytes := prospective_bytes, dc_contacts := (dc_contacts st)(uid \<mapsto> c)\<rparr>,
                    stored + 1, unreported, capped)))"

definition store_vcards_inner ::
    "device_contacts \<Rightarrow> string set \<Rightarrow> (string \<times> contact) list \<Rightarrow> nat \<Rightarrow> nat \<Rightarrow> device_contacts \<times> counts" where
  "store_vcards_inner st reported parsed max_contacts max_bytes =
     fold (store_vcard max_contacts max_bytes reported) parsed (st, 0, 0, 0)"

definition store_vcards :: "device_contacts \<Rightarrow> string set \<Rightarrow> (string \<times> contact) list \<Rightarrow> device_contacts \<times> counts" where
  "store_vcards st reported parsed =
     store_vcards_inner st reported parsed MAX_CONTACTS_PER_DEVICE MAX_VCARD_BYTES_PER_DEVICE"

definition contact_of_vcard :: "string \<Rightarrow> string \<Rightarrow> contact" where
  "contact_of_vcard uid vcard =
     (case parse_vcard_fields vcard of (name, phones, emails) \<Rightarrow>
        \<lparr>ct_uid = uid, ct_name = name, ct_phone_numbers = phones, ct_emails = emails, ct_vcard = vcard\<rparr>)"

definition parse_vcards :: "json \<Rightarrow> string list \<Rightarrow> (string \<times> contact) list" where
  "parse_vcards body uids =
     List.map_filter (\<lambda>uid. map_option (\<lambda>v. (uid, contact_of_vcard uid v))
        (Option.bind (json_get body uid) json_as_str)) uids"

section \<open>The plugin\<close>

text \<open>\<open>iter\<close> is the order in which the reported ids are iterated.\<close>

definition contacts_handle :: "externals \<Rightarrow> ((string \<rightharpoonup> string) \<Rightarrow> string list) \<Rightarrow> i64 \<Rightarrow> 'z contacts_daemon_scheme handler" where
  "contacts_handle E iter pid did pkt s =
     (if packet_type pkt = ''kdeconnect.contacts.response_uids_timestamps'' then
        (case parse_uids_timestamps E (packet_body pkt) of
           None \<Rightarrow> (HResult (Inr None), s)
         | Some reported \<Rightarrow>
             (let st = contacts_of did s;
                  to_fetch = filter (needs_fetch st reported) (iter reported)
              in (HResult (Inr (if to_fetch = [] then None else Some [request_vcards_by_uid pid to_fetch])),
                  s\<lparr>contact_devices := (contact_devices s)(did \<mapsto> take_report reported st)\<rparr>)))
      else if packet_type pkt = ''kdeconnect.contacts.response_vcards'' then
        (case uids_of (packet_body pkt) of
           None \<Rightarrow> (HResult (Inr None), s)
         | Some uids \<Rightarrow>
             (let st = contacts_of did s;
                  (st', counts) = store_vcards st (dom (dc_timestamps st)) (parse_vcards (packet_body pkt) uids)
              in (HResult (Inr None), s\<lparr>contact_devices := (contact_devices s)(did \<mapsto> st')\<rparr>)))
      else (HResult (Inr None), s))"

definition contacts_disconnected :: "device_key \<Rightarrow> 'z contacts_daemon_scheme \<Rightarrow> 'z contacts_daemon_scheme" where
  "contacts_disconnected did s = s\<lparr>contact_devices := hm_remove did (contact_devices s)\<rparr>"

definition contacts_plugin ::
    "externals \<Rightarrow> ((string \<rightharpoonup> string) \<Rightarrow> string list) \<Rightarrow> i64 \<Rightarrow> 'z contacts_daemon_scheme plugin" where
  "contacts_plugin E iter pid = \<lparr>pl_name = ''contacts'',
     pl_incoming = [''kdeconnect.contacts.response_uids_timestamps'', ''kdeconnect.contacts.response_vcards''],
     pl_outgoing = [''kdeconnect.contacts.request_all_uids_timestamps'', ''kdeconnect.contacts.request_vcards_by_uid''],
     pl_handle = contacts_handle E iter pid,
     pl_on_connected = (\<lambda>did s. ([request_all_uids_timestamps pid], s)),
     pl_on_disconnected = contacts_disconnected\<rparr>"

text \<open>\<open>vals\<close> is the order of the map's values; the result is sorted by id.\<close>

definition get_contacts :: "((string \<rightharpoonup> contact) \<Rightarrow> contact list) \<Rightarrow> device_key \<Rightarrow> 'z contacts_daemon_scheme \<Rightarrow> contact list" where
  "get_contacts vals did s =
     (case contact_devices s did of None \<Rightarrow> [] | Some st \<Rightarrow> sort_key ct_uid (vals (dc_contacts st)))"

section \<open>The contract of per-device data\<close>

lemma contacts_state:
  "contact_devices (snd (contacts_handle E iter pid d p s)) e =
     (if d \<noteq> e then contact_devices s e
      else contact_devices (snd (contacts_handle E iter pid d p s)) d)"
  by (auto simp: contacts_handle_def Let_def split: option.splits prod.splits)

interpretation contacts: device_data "\<lambda>d p s. snd (contacts_handle E iter pid d p s)" contacts_disconnected
    "\<lambda>d s. contact_devices s d" None
proof unfold_locales
  show "d \<noteq> e \<Longrightarrow> contact_devices (snd (contacts_handle E iter pid d p s)) e = contact_devices s e"
    for d e p and s :: "'a contacts_daemon_scheme" by (subst contacts_state) simp
qed (auto simp: contacts_disconnected_def contacts_handle_def Let_def contacts_of_def split: option.splits prod.splits)

section \<open>Accounting\<close>

definition contacts_ok :: "device_contacts \<Rightarrow> bool" where
  "contacts_ok st \<longleftrightarrow> finite (dom (dc_contacts st)) \<and> dom (dc_contacts st) \<subseteq> dom (dc_timestamps st)
     \<and> card (dom (dc_contacts st)) \<le> MAX_CONTACTS_PER_DEVICE
     \<and> dc_total_vcard_bytes st = vcard_bytes (dc_contacts st) \<and> dc_total_vcard_bytes st \<le> MAX_VCARD_BYTES_PER_DEVICE
     \<and> (\<forall>uid c. dc_contacts st uid = Some c \<longrightarrow> ct_uid c = uid)"

lemma contacts_ok_new: "contacts_ok new_contacts"
  by (simp add: contacts_ok_def new_contacts_def vcard_bytes_def)

lemma vcard_bytes_upd:
  assumes "finite (dom m)"
  shows "vcard_bytes (m(uid \<mapsto> c)) + (case m uid of Some old \<Rightarrow> length (ct_vcard old) | None \<Rightarrow> 0)
       = vcard_bytes m + length (ct_vcard c)"
proof -
  let ?f = "\<lambda>m u. length (ct_vcard (the (m u)))"
  have "vcard_bytes (m(uid \<mapsto> c)) = length (ct_vcard c) + (\<Sum>u \<in> dom m - {uid}. ?f m u)"
  proof -
    have "vcard_bytes (m(uid \<mapsto> c)) = ?f (m(uid \<mapsto> c)) uid + (\<Sum>u \<in> dom m - {uid}. ?f (m(uid \<mapsto> c)) u)"
      using assms by (simp add: vcard_bytes_def sum.insert_remove)
    then show ?thesis by simp
  qed
  moreover have "vcard_bytes m = (case m uid of Some old \<Rightarrow> length (ct_vcard old) | None \<Rightarrow> 0) + (\<Sum>u \<in> dom m - {uid}. ?f m u)"
  proof (cases "m uid")
    case None
    then have "dom m - {uid} = dom m" by auto
    with None show ?thesis by (simp add: vcard_bytes_def)
  next
    case (Some old)
    then have "uid \<in> dom m" by auto
    from sum.remove [OF assms this, of "?f m"] Some show ?thesis by (simp add: vcard_bytes_def)
  qed
  ultimately show ?thesis by simp
qed

text \<open>The size of the one replaced never exceeds the total, so the subtraction cannot underflow.\<close>

lemma old_bytes_le:
  "finite (dom m) \<Longrightarrow> (case m uid of Some old \<Rightarrow> length (ct_vcard old) | None \<Rightarrow> 0) \<le> vcard_bytes m"
proof (cases "m uid")
  case (Some old)
  assume "finite (dom m)"
  then have "length (ct_vcard (the (m uid))) \<le> vcard_bytes m"
    unfolding vcard_bytes_def using Some by (intro member_le_sum) auto
  with Some show ?thesis by simp
qed simp

lemma store_vcard_ok:
  assumes "contacts_ok st" and "dc_timestamps st = ts" and "ct_uid (snd uc) = fst uc"
  shows "contacts_ok (fst (store_vcard MAX_CONTACTS_PER_DEVICE MAX_VCARD_BYTES_PER_DEVICE (dom ts) uc (st, n)))"
    and "dc_timestamps (fst (store_vcard mc mb r uc (st, n))) = ts"
proof -
  obtain uid c where uc: "uc = (uid, c)" by force
  have fin: "finite (dom (dc_contacts st))" using assms(1) by (simp add: contacts_ok_def)
  have bytes: "vcard_bytes ((dc_contacts st)(uid \<mapsto> c)) =
      dc_total_vcard_bytes st + length (ct_vcard c) - (case dc_contacts st uid of Some old \<Rightarrow> length (ct_vcard old) | None \<Rightarrow> 0)"
    using vcard_bytes_upd [OF fin, of uid c] assms(1) by (simp add: contacts_ok_def)
  have card: "card (insert uid (dom (dc_contacts st))) \<le> MAX_CONTACTS_PER_DEVICE"
    if "hm_contains (dc_contacts st) uid \<or> hm_len (dc_contacts st) < MAX_CONTACTS_PER_DEVICE"
    using that assms(1) fin by (auto simp: contacts_ok_def hm_contains_iff hm_len_def card_insert_if insert_absorb)
  show "contacts_ok (fst (store_vcard MAX_CONTACTS_PER_DEVICE MAX_VCARD_BYTES_PER_DEVICE (dom ts) uc (st, n)))"
    using assms uc bytes card by (auto simp: store_vcard_def Let_def contacts_ok_def split: prod.splits)
  show "dc_timestamps (fst (store_vcard mc mb r uc (st, n))) = ts"
    using assms(2) by (simp add: store_vcard_def Let_def split: prod.splits)
qed

lemma store_vcards_ok:
  assumes "contacts_ok st" and "\<forall>uc \<in> set parsed. ct_uid (snd uc) = fst uc"
  shows "contacts_ok (fst (store_vcards st (dom (dc_timestamps st)) parsed))"
proof -
  have "contacts_ok (fst (fold (store_vcard MAX_CONTACTS_PER_DEVICE MAX_VCARD_BYTES_PER_DEVICE (dom (dc_timestamps st))) parsed (st', n)))"
    if "contacts_ok st'" "dc_timestamps st' = dc_timestamps st" "\<forall>uc \<in> set parsed. ct_uid (snd uc) = fst uc" for st' n
    using that
  proof (induction parsed arbitrary: st' n)
    case (Cons uc parsed)
    obtain st1 n1 where step: "store_vcard MAX_CONTACTS_PER_DEVICE MAX_VCARD_BYTES_PER_DEVICE (dom (dc_timestamps st)) uc (st', n) = (st1, n1)"
      by (metis surj_pair)
    with Cons.prems store_vcard_ok [of st' "dc_timestamps st" uc] have "contacts_ok st1" "dc_timestamps st1 = dc_timestamps st"
      by (metis fst_conv list.set_intros(1))+
    with Cons step show ?case by simp
  qed simp
  with assms show ?thesis by (simp add: store_vcards_def store_vcards_inner_def)
qed

lemma parse_vcards_uid: "\<forall>uc \<in> set (parse_vcards body uids). ct_uid (snd uc) = fst uc"
  by (auto simp: parse_vcards_def contact_of_vcard_def map_filter_def split: prod.splits)

lemma take_report_ok:
  assumes "contacts_ok st"
  shows "contacts_ok (take_report reported st)"
proof -
  define kept where "kept = hm_retain (\<lambda>uid c. hm_contains reported uid) (dc_contacts st)"
  have fin: "finite (dom (dc_contacts st))" using assms by (simp add: contacts_ok_def)
  have sub: "dom kept \<subseteq> dom (dc_contacts st)" "\<And>u c. kept u = Some c \<Longrightarrow> dc_contacts st u = Some c"
    by (auto simp: kept_def hm_retain_def split: option.splits if_splits)
  have rep: "dom kept \<subseteq> dom reported"
    by (auto simp: kept_def hm_retain_def hm_contains_iff split: option.splits if_splits)
  have "vcard_bytes kept = (\<Sum>u \<in> dom kept. length (ct_vcard (the (dc_contacts st u))))"
    unfolding vcard_bytes_def by (rule sum.cong) (auto simp: sub(2))
  also have "\<dots> \<le> vcard_bytes (dc_contacts st)"
    unfolding vcard_bytes_def by (rule sum_mono2 [OF fin sub(1)]) simp
  finally have "vcard_bytes kept \<le> vcard_bytes (dc_contacts st)" .
  moreover have "card (dom kept) \<le> card (dom (dc_contacts st))" by (rule card_mono [OF fin sub(1)])
  moreover have "take_report reported st = st\<lparr>dc_timestamps := reported, dc_contacts := kept, dc_total_vcard_bytes := vcard_bytes kept\<rparr>"
    by (simp add: take_report_def kept_def Let_def)
  ultimately show ?thesis
    using assms sub rep finite_subset [OF sub(1) fin] by (auto simp: contacts_ok_def)
qed

definition book_ok :: "'z contacts_daemon_scheme \<Rightarrow> bool" where
  "book_ok s \<longleftrightarrow> (\<forall>d. contacts_ok (contacts_of d s))"

lemma contacts_of_simps [simp]:
  "contacts_of e (s\<lparr>contact_devices := (contact_devices s)(d \<mapsto> st)\<rparr>) = (if e = d then st else contacts_of e s)"
  "contacts_of e (s\<lparr>contact_devices := hm_remove d (contact_devices s)\<rparr>) = (if e = d then new_contacts else contacts_of e s)"
  by (simp_all add: contacts_of_def hm_remove_apply)

lemma book_ok_put: "book_ok s \<Longrightarrow> contacts_ok st \<Longrightarrow> book_ok (s\<lparr>contact_devices := (contact_devices s)(d \<mapsto> st)\<rparr>)"
  by (simp add: book_ok_def)

lemma contacts_handle_ok:
  assumes "book_ok s"
  shows "book_ok (snd (contacts_handle E iter pid did pkt s))"
proof -
  have ok: "contacts_ok (contacts_of did s)" using assms by (simp add: book_ok_def)
  have "book_ok (s\<lparr>contact_devices := (contact_devices s)(did \<mapsto> take_report r (contacts_of did s))\<rparr>)" for r
    by (intro book_ok_put take_report_ok assms ok)
  moreover have "book_ok (s\<lparr>contact_devices := (contact_devices s)(did \<mapsto>
      fst (store_vcards (contacts_of did s) (dom (dc_timestamps (contacts_of did s))) (parse_vcards b us)))\<rparr>)" for b us
    by (intro book_ok_put store_vcards_ok assms ok parse_vcards_uid)
  ultimately show ?thesis
    using assms by (simp add: contacts_handle_def Let_def case_prod_unfold split: option.splits)
qed

inductive contacts_step :: "externals \<Rightarrow> ((string \<rightharpoonup> string) \<Rightarrow> string list) \<Rightarrow> 'z contacts_daemon_scheme \<Rightarrow> 'z contacts_daemon_scheme \<Rightarrow> bool"
  for E iter where
  contacts_packet: "contacts_step E iter s (snd (contacts_handle E iter pid did pkt s))"
| contacts_gone: "contacts_step E iter s (contacts_disconnected did s)"

interpretation book: machine "contacts_step E iter" book_ok
proof
  fix s t :: "'a contacts_daemon_scheme"
  assume "contacts_step E iter s t" "book_ok s"
  then show "book_ok t"
    by cases (simp_all add: contacts_handle_ok, simp add: contacts_disconnected_def book_ok_def contacts_ok_new)
qed

section \<open>Complete answers\<close>

definition answer_bytes :: "(string \<times> contact) list \<Rightarrow> nat" where
  "answer_bytes parsed = sum_list (map (\<lambda>uc. length (ct_vcard (snd uc))) parsed)"

lemma store_vcard_stores:
  assumes ok: "contacts_ok st" and fin: "finite (dom (dc_timestamps st))"
    and "card (dom (dc_timestamps st)) \<le> MAX_CONTACTS_PER_DEVICE"
    and "uid \<in> dom (dc_timestamps st)" and "dc_total_vcard_bytes st + length (ct_vcard c) \<le> MAX_VCARD_BYTES_PER_DEVICE"
  obtains n' b where "store_vcard MAX_CONTACTS_PER_DEVICE MAX_VCARD_BYTES_PER_DEVICE (dom (dc_timestamps st)) (uid, c) (st, n)
      = (st\<lparr>dc_total_vcard_bytes := b, dc_contacts := (dc_contacts st)(uid \<mapsto> c)\<rparr>, n')"
    "b \<le> dc_total_vcard_bytes st + length (ct_vcard c)"
proof -
  have "hm_len (dc_contacts st) < MAX_CONTACTS_PER_DEVICE" if "\<not> hm_contains (dc_contacts st) uid"
  proof -
    have "dom (dc_contacts st) \<subset> dom (dc_timestamps st)"
      using that assms(4) ok by (auto simp: contacts_ok_def hm_contains_iff)
    from psubset_card_mono [OF fin this] assms(3) show ?thesis by (simp add: hm_len_def)
  qed
  then have room: "\<not> (\<not> hm_contains (dc_contacts st) uid \<and> MAX_CONTACTS_PER_DEVICE \<le> hm_len (dc_contacts st))"
    by (auto simp: not_le)
  define old where "old = (case dc_contacts st uid of Some o' \<Rightarrow> length (ct_vcard o') | None \<Rightarrow> 0)"
  have small: "\<not> MAX_VCARD_BYTES_PER_DEVICE < dc_total_vcard_bytes st + length (ct_vcard c) - old"
    using assms(5) by simp
  obtain n1 n2 n3 where n: "n = (n1, n2, n3)" by (cases n)
  show ?thesis
  proof (rule that)
    show "store_vcard MAX_CONTACTS_PER_DEVICE MAX_VCARD_BYTES_PER_DEVICE (dom (dc_timestamps st)) (uid, c) (st, n)
        = (st\<lparr>dc_total_vcard_bytes := dc_total_vcard_bytes st + length (ct_vcard c) - old,
              dc_contacts := (dc_contacts st)(uid \<mapsto> c)\<rparr>, (n1 + 1, n2, n3))"
      unfolding store_vcard_def n prod.case Let_def old_def [symmetric] using assms(4) room small by (simp only: if_False not_not not_True_eq_False)
  qed simp
qed

lemma fold_store_all:
  assumes "contacts_ok st" and "finite (dom (dc_timestamps st))"
    and "card (dom (dc_timestamps st)) \<le> MAX_CONTACTS_PER_DEVICE"
    and "fst ` set parsed \<subseteq> dom (dc_timestamps st)" and "\<forall>uc \<in> set parsed. ct_uid (snd uc) = fst uc"
    and "dc_total_vcard_bytes st + answer_bytes parsed \<le> MAX_VCARD_BYTES_PER_DEVICE"
  shows "dc_contacts (fst (fold (store_vcard MAX_CONTACTS_PER_DEVICE MAX_VCARD_BYTES_PER_DEVICE (dom (dc_timestamps st))) parsed (st, n)))
       = dc_contacts st ++ map_of (rev parsed)"
  using assms
proof (induction parsed arbitrary: st n)
  case (Cons uc parsed)
  obtain uid c where uc: "uc = (uid, c)" by force
  have "uid \<in> dom (dc_timestamps st)" "dc_total_vcard_bytes st + length (ct_vcard c) \<le> MAX_VCARD_BYTES_PER_DEVICE"
    using Cons.prems uc by (auto simp: answer_bytes_def)
  from store_vcard_stores [OF Cons.prems(1,2,3) this, of n] obtain n' b where
    step: "store_vcard MAX_CONTACTS_PER_DEVICE MAX_VCARD_BYTES_PER_DEVICE (dom (dc_timestamps st)) (uid, c) (st, n)
      = (st\<lparr>dc_total_vcard_bytes := b, dc_contacts := (dc_contacts st)(uid \<mapsto> c)\<rparr>, n')"
    and b: "b \<le> dc_total_vcard_bytes st + length (ct_vcard c)" by blast
  let ?st = "st\<lparr>dc_total_vcard_bytes := b, dc_contacts := (dc_contacts st)(uid \<mapsto> c)\<rparr>"
  have "contacts_ok ?st"
    using store_vcard_ok(1) [OF Cons.prems(1) refl, of "(uid, c)" n] step Cons.prems(5) uc by simp
  from Cons.IH [OF this, of n'] Cons.prems b uc
  have "dc_contacts (fst (fold (store_vcard MAX_CONTACTS_PER_DEVICE MAX_VCARD_BYTES_PER_DEVICE (dom (dc_timestamps st))) parsed (?st, n')))
      = (dc_contacts st)(uid \<mapsto> c) ++ map_of (rev parsed)"
    by (simp add: answer_bytes_def fun_upd_def)
  moreover have "(dc_contacts st)(uid \<mapsto> c) ++ map_of (rev parsed) = dc_contacts st ++ map_of (rev (uc # parsed))"
    using uc by (simp add: map_of_append map_add_def fun_eq_iff split: option.splits)
  ultimately show ?case using step uc by (simp only: fold_simps)
qed simp

text \<open>The ids a report makes the plugin ask for.\<close>

definition requested :: "(string \<rightharpoonup> string) \<Rightarrow> device_contacts \<Rightarrow> string set" where
  "requested reported st = {uid \<in> dom reported. needs_fetch st reported uid}"

lemma kept_not_requested:
  "dom reported - requested reported st \<subseteq> dom (dc_contacts (take_report reported st))"
  by (auto simp: requested_def needs_fetch_def take_report_def Let_def hm_retain_def hm_contains_iff split: option.splits if_splits)

section \<open>What the plugin guarantees\<close>

text \<open>What is stored of a device's contacts stays within its bounds and in step with its reports: whatever
  devices send, in any order, at most 10000 contacts and 64 MiB of vCards are kept of a device, the
  running total that decides about the next vCard is the exact sum of what is stored, every stored
  contact was named in the device's latest report, and it is filed under its own id.\<close>

theorem contacts_bounded:
  assumes "contact_devices start = Map.empty" and "reach (contacts_step E iter) start s"
  shows "card (dom (dc_contacts (contacts_of d s))) \<le> 10000 \<and> vcard_bytes (dc_contacts (contacts_of d s)) \<le> 64 * 1024 * 1024
    \<and> dc_total_vcard_bytes (contacts_of d s) = vcard_bytes (dc_contacts (contacts_of d s))
    \<and> dom (dc_contacts (contacts_of d s)) \<subseteq> dom (dc_timestamps (contacts_of d s))
    \<and> (\<forall>uid c. dc_contacts (contacts_of d s) uid = Some c \<longrightarrow> ct_uid c = uid)"
proof -
  have "book_ok start" using assms(1) by (simp add: book_ok_def contacts_of_def contacts_ok_new)
  then have "contacts_ok (contacts_of d s)" using book.reach_inv [OF assms(2)] by (auto simp: book_ok_def)
  then show ?thesis
    unfolding contacts_ok_def MAX_CONTACTS_PER_DEVICE_def MAX_VCARD_BYTES_PER_DEVICE_def by simp
qed

text \<open>One exchange brings the store up to date: after a report of at most 10000 ids, the plugin asks for
  exactly the reported ids it has no vCard of or whose time has changed; and once the device answers
  with a vCard for each of them (and the total fits), every reported contact is stored, with the vCard
  of the answer where one was asked for, and nothing that was not reported.\<close>

theorem contacts_sync:
  assumes inv: "contacts_ok (contacts_of d s)"
    and report: "packet_type p = ''kdeconnect.contacts.response_uids_timestamps''"
      "parse_uids_timestamps E (packet_body p) = Some reported"
    and iter: "set (iter reported) = dom reported" and size: "finite (dom reported)" "card (dom reported) \<le> 10000"
    and answer: "packet_type q = ''kdeconnect.contacts.response_vcards''" "uids_of (packet_body q) = Some uids"
      "fst ` set (parse_vcards (packet_body q) uids) = requested reported (contacts_of d s)"
    and fits: "dc_total_vcard_bytes (take_report reported (contacts_of d s)) + answer_bytes (parse_vcards (packet_body q) uids)
      \<le> 64 * 1024 * 1024"
  shows "(fst (contacts_handle E iter pid d p s)
         = (let us = filter (needs_fetch (contacts_of d s) reported) (iter reported)
            in HResult (Inr (if us = [] then None else Some [request_vcards_by_uid pid us]))))
    \<and> (let st = contacts_of d (snd (contacts_handle E iter pid' d q (snd (contacts_handle E iter pid d p s)))) in
       dom (dc_contacts st) = dom reported
       \<and> (\<forall>uid \<in> requested reported (contacts_of d s).
            \<exists>v. json_get (packet_body q) uid = Some (JStr v) \<and> dc_contacts st uid = Some (contact_of_vcard uid v)))"
proof -
  let ?st = "take_report reported (contacts_of d s)" and ?ans = "parse_vcards (packet_body q) uids"
  have ts: "dc_timestamps ?st = reported" by (simp add: take_report_def Let_def)
  have step1: "contacts_handle E iter pid d p s =
      (let us = filter (needs_fetch (contacts_of d s) reported) (iter reported)
       in (HResult (Inr (if us = [] then None else Some [request_vcards_by_uid pid us])),
           s\<lparr>contact_devices := (contact_devices s)(d \<mapsto> ?st)\<rparr>))"
    using report by (simp add: contacts_handle_def Let_def)
  have "dc_contacts (contacts_of d (snd (contacts_handle E iter pid' d q (snd (contacts_handle E iter pid d p s)))))
      = dc_contacts (fst (store_vcards ?st (dom (dc_timestamps ?st)) ?ans))"
    using answer by (simp add: step1 Let_def) (simp add: contacts_handle_def Let_def case_prod_unfold)
  also have "\<dots> = dc_contacts ?st ++ map_of (rev ?ans)"
    unfolding store_vcards_def store_vcards_inner_def
    using size fits ts answer(3) parse_vcards_uid
    by (intro fold_store_all take_report_ok [OF inv])
       (auto simp: MAX_CONTACTS_PER_DEVICE_def MAX_VCARD_BYTES_PER_DEVICE_def requested_def)
  finally have st: "dc_contacts (contacts_of d (snd (contacts_handle E iter pid' d q (snd (contacts_handle E iter pid d p s)))))
      = dc_contacts ?st ++ map_of (rev ?ans)" (is "dc_contacts ?final = _") .
  have "dom (dc_contacts ?st) \<subseteq> dom reported" using take_report_ok [OF inv, of reported] ts by (simp add: contacts_ok_def)
  then have "dom (dc_contacts ?final) = dom reported"
    using kept_not_requested [of reported "contacts_of d s"] answer(3)
    by (auto simp: st dom_map_of_conv_image_fst requested_def)
  moreover have "\<exists>v. json_get (packet_body q) uid = Some (JStr v) \<and> dc_contacts ?final uid = Some (contact_of_vcard uid v)"
    if "uid \<in> requested reported (contacts_of d s)" for uid
  proof -
    have "uid \<in> dom (map_of (rev ?ans))" using that answer(3) by (simp add: dom_map_of_conv_image_fst)
    then obtain c where c: "map_of (rev ?ans) uid = Some c" by blast
    then have "(uid, c) \<in> set ?ans" by (metis map_of_SomeD set_rev)
    then obtain v where "json_get (packet_body q) uid = Some (JStr v)" "c = contact_of_vcard uid v"
      by (auto simp: parse_vcards_def map_filter_def bind_eq_Some_conv elim!: json_as_str.elims)
    with c st show ?thesis by simp
  qed
  ultimately show ?thesis by (simp add: step1 Let_def)
qed

text \<open>A version that was asked for and never arrived is not asked for again: when the plugin holds an
  older vCard of the id, the same report a second time requests nothing for it.\<close>

theorem lost_update_not_requested_again:
  assumes "dc_contacts (contacts_of d s) uid = Some old" and "uid \<in> dom reported"
  shows "\<not> needs_fetch (take_report reported (contacts_of d s)) reported uid
       \<and> dc_contacts (take_report reported (contacts_of d s)) uid = Some old"
  using assms by (auto simp: needs_fetch_def take_report_def Let_def hm_retain_def hm_contains_iff)

section \<open>Reading back a vCard\<close>

definition crlf :: string where "crlf = [CHR 0x0D, newline]"

definition print_vcard :: "string \<Rightarrow> string list \<Rightarrow> string list \<Rightarrow> string" where
  "print_vcard name phones emails =
     concat (map (\<lambda>l. l @ crlf) (''BEGIN:VCARD'' # (''FN:'' @ name) # map ((@) ''TEL:'') phones
       @ map ((@) ''EMAIL:'') emails @ [''END:VCARD'']))"

text \<open>A value that fits on a line: not empty, no line break, no blanks at its ends.\<close>

definition line_value :: "string \<Rightarrow> bool" where
  "line_value v \<longleftrightarrow> v \<noteq> [] \<and> newline \<notin> set v \<and> last v \<noteq> CHR 0x0D \<and> trim v = v"

lemma str_lines_crlf: "newline \<notin> set l \<Longrightarrow> str_lines (l @ crlf @ rest) = l # str_lines rest"
  using str_lines_cons [of "l @ [CHR 0x0D]" rest] by (simp add: crlf_def strip_cr_def newline_def)

lemma str_lines_lines: "\<forall>l \<in> set ls. newline \<notin> set l \<Longrightarrow> str_lines (concat (map (\<lambda>l. l @ crlf) ls)) = ls"
  by (induction ls) (simp_all add: str_lines_crlf)

lemma trim_end_cr_id: "l \<noteq> [] \<Longrightarrow> last l \<noteq> CHR 0x0D \<Longrightarrow> trim_end_cr l = l"
  by (cases l rule: rev_cases) (simp_all add: trim_end_cr_def)

lemma unfold_lines_id:
  "\<forall>l \<in> set ls. l \<noteq> [] \<and> hd l \<notin> {CHR '' '', CHR 0x09} \<and> last l \<noteq> CHR 0x0D \<Longrightarrow> fold unfold_line ls acc = acc @ ls"
  by (induction ls arbitrary: acc) (auto simp: unfold_line_def trim_end_cr_id)

lemma split_once_first: "c \<notin> set a \<Longrightarrow> split_once c (a @ c # b) = Some (a, b)"
proof -
  assume c: "c \<notin> set a"
  then have "dropWhile (\<lambda>x. x \<noteq> c) (a @ c # b) = c # b" "takeWhile (\<lambda>x. x \<noteq> c) (a @ c # b) = a"
    by (induction a) auto
  then show ?thesis by (simp add: split_once_def)
qed

lemma line_last: "line_value v \<Longrightarrow> v \<noteq> [] \<and> last v \<noteq> CHR 0x0D"
  by (simp add: line_value_def)

lemma line_value_ascii:
  "v \<noteq> [] \<Longrightarrow> \<forall>c \<in> set v. (of_char c :: nat) < 128 \<and> \<not> white_space (of_char c) \<Longrightarrow> line_value v"
proof -
  assume v: "v \<noteq> []" "\<forall>c \<in> set v. (of_char c :: nat) < 128 \<and> \<not> white_space (of_char c)"
  then have "trim v = v" by (intro trim_plain) auto
  moreover have "newline \<notin> set v" "CHR 0x0D \<notin> set v" using v(2) by (auto simp: newline_def white_space_def)
  ultimately show ?thesis using v(1) last_in_set [OF v(1)] unfolding line_value_def by metis
qed

lemma vcard_line_field:
  assumes "CHR '':'' \<notin> set p" and "vcard_property p = prop" and "line_value v"
  shows "vcard_line (p @ '':'' @ v) (name, phones, emails) =
     (if is_prop ''FN'' prop then (if name = None then Some v else name, phones, emails)
      else if is_prop ''TEL'' prop then (name, phones @ [v], emails)
      else if is_prop ''EMAIL'' prop then (name, phones, emails @ [v])
      else (name, phones, emails))"
  using assms by (simp add: vcard_line_def split_once_first line_value_def)

lemma vcard_property_plain:
  "vcard_property ''FN'' = ''FN''" "vcard_property ''TEL'' = ''TEL''" "vcard_property ''EMAIL'' = ''EMAIL''"
  "vcard_property ''BEGIN'' = ''BEGIN''" "vcard_property ''END'' = ''END''"
  by (simp_all add: vcard_property_def ascii_upper_def split_once_def Let_def)

lemmas field_lines = vcard_line_field [of "''FN''"] vcard_line_field [of "''TEL''"] vcard_line_field [of "''EMAIL''"]
  vcard_line_field [of "''BEGIN''"] vcard_line_field [of "''END''"]

lemma fold_phones:
  "list_all line_value vs \<Longrightarrow> fold vcard_line (map ((@) ''TEL:'') vs) (name, phones, emails) = (name, phones @ vs, emails)"
  by (induction vs arbitrary: phones) (simp_all add: field_lines [simplified] vcard_property_plain is_prop_def)

lemma fold_emails:
  "list_all line_value vs \<Longrightarrow> fold vcard_line (map ((@) ''EMAIL:'') vs) (name, phones, emails) = (name, phones, emails @ vs)"
  by (induction vs arbitrary: emails) (simp_all add: field_lines [simplified] vcard_property_plain is_prop_def)

text \<open>The vCard reader recovers what a phone writes: of a card with a name, any phone numbers and any mail
  addresses, one to a line with the line ends vCards have, it returns exactly the name, the numbers
  and the addresses, each list in order.\<close>

theorem vcard_roundtrip:
  assumes "line_value name" and "list_all line_value phones" and "list_all line_value emails"
  shows "parse_vcard_fields (print_vcard name phones emails) = (Some name, phones, emails)"
proof -
  let ?ls = "''BEGIN:VCARD'' # (''FN:'' @ name) # map ((@) ''TEL:'') phones @ map ((@) ''EMAIL:'') emails @ [''END:VCARD'']"
  have "\<forall>l \<in> set ?ls. newline \<notin> set l"
    using assms by (auto simp: line_value_def list_all_iff newline_def)
  then have "str_lines (print_vcard name phones emails) = ?ls"
    unfolding print_vcard_def by (rule str_lines_lines)
  moreover have "\<forall>l \<in> set ?ls. l \<noteq> [] \<and> hd l \<notin> {CHR '' '', CHR 0x09} \<and> last l \<noteq> CHR 0x0D"
    using assms line_last by (simp add: list_all_iff ball_Un)
  then have "fold unfold_line ?ls [] = ?ls" using unfold_lines_id [of ?ls "[]"] by (simp only: append_Nil)
  moreover have "line_value ''VCARD''" by (rule line_value_ascii) (simp_all add: white_space_def)
  ultimately show ?thesis
    using assms by (simp add: parse_vcard_fields_def field_lines [simplified] vcard_property_plain is_prop_def fold_phones fold_emails)
qed

section \<open>An exchange\<close>

definition demo_book :: contacts_daemon where
  "demo_book = daemon.extend demo_daemon (contacts_daemon.fields Map.empty)"

lemma demo_book_simps [simp]: "contact_devices demo_book = Map.empty"
  by (simp add: demo_book_def daemon.extend_def contacts_daemon.fields_def)

definition report_packet :: packet where
  "report_packet = new_packet 1 ''kdeconnect.contacts.response_uids_timestamps''
     (JObj [(''uids'', JArr [JStr ''7'']), (''7'', JStr ''1721950000000'')])"

definition vcard_packet :: packet where
  "vcard_packet = new_packet 2 ''kdeconnect.contacts.response_vcards''
     (JObj [(''uids'', JArr [JStr ''7'']), (''7'', JStr (print_vcard ''Ada'' [''+441''] []))])"

theorem vcard_roundtrip_witness: "parse_vcard_fields (print_vcard ''Ada'' [''+441''] [''a@b.c'']) = (Some ''Ada'', [''+441''], [''a@b.c''])"
proof -
  have "line_value ''Ada''" "line_value ''+441''" "line_value ''a@b.c''"
    by (rule line_value_ascii; simp add: white_space_def)+
  then show ?thesis by (intro vcard_roundtrip) simp_all
qed

theorem contacts_bounded_witness:
  "card (dom (dc_contacts (contacts_of ''phone'' (contacts_disconnected ''phone'' demo_book)))) \<le> 10000"
proof -
  have "reach (contacts_step demo_externals (\<lambda>m. [])) demo_book (contacts_disconnected ''phone'' demo_book)"
    by (rule reach_step, rule reach_init, rule contacts_gone)
  from contacts_bounded [OF demo_book_simps this] show ?thesis by blast
qed

lemma demo_report: "parse_uids_timestamps E (packet_body report_packet) = Some [''7'' \<mapsto> ''1721950000000'']"
  by (simp add: report_packet_def new_packet_def parse_uids_timestamps_def uids_of_def  timestamp_string_def map_filter_simps)

lemma demo_uids: "uids_of (packet_body vcard_packet) = Some [''7'']"
  by (simp add: vcard_packet_def new_packet_def uids_of_def  map_filter_simps)

lemma demo_vcards: "parse_vcards (packet_body vcard_packet) [''7''] = [(''7'', contact_of_vcard ''7'' (print_vcard ''Ada'' [''+441''] []))]"
  by (simp add: vcard_packet_def new_packet_def parse_vcards_def map_filter_simps)

theorem contacts_sync_witness:
  "let s1 = snd (contacts_handle demo_externals (\<lambda>m. [''7'']) 1 ''phone'' report_packet demo_book) in
   dom (dc_contacts (contacts_of ''phone'' (snd (contacts_handle demo_externals (\<lambda>m. [''7'']) 2 ''phone'' vcard_packet s1)))) = {''7''}"
proof -
  have ok: "contacts_ok (contacts_of ''phone'' demo_book)" by (simp add: contacts_of_def contacts_ok_new)
  have vcard: "ct_vcard (contact_of_vcard u v) = v" for u v by (simp add: contact_of_vcard_def split: prod.splits)
  have req: "fst ` set (parse_vcards (packet_body vcard_packet) [''7''])
      = requested [''7'' \<mapsto> ''1721950000000''] (contacts_of ''phone'' demo_book)"
    by (auto simp: demo_vcards requested_def needs_fetch_def contacts_of_def new_contacts_def hm_contains_def)
  have fits: "dc_total_vcard_bytes (take_report [''7'' \<mapsto> ''1721950000000''] (contacts_of ''phone'' demo_book))
      + answer_bytes (parse_vcards (packet_body vcard_packet) [''7'']) \<le> 64 * 1024 * 1024"
    by (simp add: demo_vcards answer_bytes_def vcard print_vcard_def crlf_def take_report_def Let_def contacts_of_def
        new_contacts_def hm_retain_def vcard_bytes_def)
  show ?thesis
    using contacts_sync [where iter = "\<lambda>m. [''7'']" and pid = 1 and pid' = 2, OF ok _ demo_report [of demo_externals] _ _ _ _ demo_uids req fits]
    by (simp add: Let_def report_packet_def vcard_packet_def new_packet_def)
qed

end
