(* ===== verification/Notification.thy ===== *)
theory Notification
  imports Device_Data Payload Net_Text
begin

text \<open>
  The notification plugin (\<open>src/plugins/notification.rs\<close>): the notifications of the paired phones,
  as popups on the desktop, as events for the web UI and as a bounded history. A table of what was
  posted keeps a phone that sends its list again from posting it again; a shadow of that table
  survives a disconnect for a day. Icons are received as payloads into a directory per device.

  The plugin's state extends the daemon's. Popups that were sent to the desktop's notification server
  and those that were closed are kept in \<open>desktop\<close>, in order. A packet's handler is one step: the
  handler's own awaits (the icon's transfer, the notification server) end before the next packet is
  looked at. The hash of a notification's content is the standard library's unspecified one and is
  the argument \<open>hash\<close>; whether there is a display, what the server answers and the network are
  the record \<open>notif_env\<close>.
\<close>

section \<open>Data\<close>

definition MAX_NOTIFICATION_HISTORY :: nat where "MAX_NOTIFICATION_HISTORY = 100"
definition MAX_ICONS_PER_DEVICE :: nat where "MAX_ICONS_PER_DEVICE = 64"
definition MAX_NOTIFICATION_ICON_BYTES :: u64 where "MAX_NOTIFICATION_ICON_BYTES = 512 * 1024"
definition ICON_DIR_NAME :: string where "ICON_DIR_NAME = ''notification-icons''"
definition DEDUPE_SHADOW_TTL :: duration where "DEDUPE_SHADOW_TTL = secs (24 * 3600)"

record notification_body =
  nb_id :: "string option"
  nb_app_name :: "string option"
  nb_title :: "string option"
  nb_text :: "string option"
  nb_ticker :: "string option"
  nb_is_cancel :: "bool option"
  nb_silent :: "bool option"
  nb_actions :: "string list option"
  nb_conversation :: "json option"
  nb_group_name :: "string option"
  nb_request_reply_id :: "string option"
  nb_payload_hash :: "string option"

record notification_entry =
  ne_device_id :: device_key
  ne_id :: string
  ne_app_name :: string
  ne_title :: string
  ne_text :: string
  ne_is_cancel :: bool
  ne_silent :: bool
  ne_actions :: "string list option"
  ne_conversation :: "json option"
  ne_group_name :: "string option"
  ne_reply_id :: "string option"
  ne_icon_hash :: "string option"
  ne_icon_url :: "string option"
  ne_received_at :: instant

text \<open>The broadcast event has the entry's fields and the ticker, but no time.\<close>

record notification_event =
  ev_device_id :: device_key
  ev_id :: string
  ev_app_name :: string
  ev_title :: string
  ev_text :: string
  ev_ticker :: "string option"
  ev_is_cancel :: bool
  ev_silent :: bool
  ev_actions :: "string list option"
  ev_conversation :: "json option"
  ev_group_name :: "string option"
  ev_reply_id :: "string option"
  ev_icon_hash :: "string option"
  ev_icon_url :: "string option"

record dedupe_entry =
  de_signature :: u64
  de_replaces_id :: u32

record shadow_entry =
  sh_signature :: u64
  sh_replaces_id :: u32
  sh_expires :: instant

datatype desktop_action = Post | Suppress | Replace u32

text \<open>A popup as it is handed to the notification server.\<close>

record popup =
  po_appname :: string
  po_summary :: string
  po_body :: string
  po_source_device :: device_key
  po_timeout_ms :: nat
  po_image :: "path option"
  po_replaces :: "u32 option"

datatype desktop_call = Show popup | Close u32

type_synonym notif_key = "device_key \<times> string"

record notif_daemon = daemon +
  show_desktop :: bool
  history :: "notification_entry list"
  dedupe :: "notif_key \<rightharpoonup> dedupe_entry"
  dedupe_shadow :: "notif_key \<rightharpoonup> shadow_entry"
  icon_root :: string
  icon_lru :: "device_key \<rightharpoonup> string list"
  max_icons_per_device :: nat
  icon_certs :: "certificate_manager option"
  knows_connections :: bool
  notif_events :: "notification_event list"
  desktop :: "desktop_call list"

record notif_env =
  nv_display :: bool
  nv_shown :: "u32 option"
  nv_rustls :: rustls
  nv_net :: "sock_addr \<Rightarrow> dial"
  nv_clk :: clock
  nv_writes :: "wr list"
  nv_now :: instant
  nv_utc :: instant

section \<open>Markup\<close>

text \<open>\<open>str::replace\<close> of a character by a string.\<close>

definition replace_char :: "char \<Rightarrow> string \<Rightarrow> string \<Rightarrow> string" where
  "replace_char c by s = concat (map (\<lambda>x. if x = c then by else [x]) s)"

definition escape_markup :: "string \<Rightarrow> string" where
  "escape_markup s =
     replace_char (CHR 0x22) ''&quot;'' (replace_char (CHR ''>'') ''&gt;''
       (replace_char (CHR ''<'') ''&lt;'' (replace_char (CHR ''&'') ''&amp;'' s)))"

section \<open>Icons\<close>

definition ascii_hexdigit :: "char \<Rightarrow> bool" where
  "ascii_hexdigit c \<longleftrightarrow> (let n = of_char c :: nat in (48 \<le> n \<and> n \<le> 57) \<or> (65 \<le> n \<and> n \<le> 70) \<or> (97 \<le> n \<and> n \<le> 102))"

definition valid_icon_hash :: "string \<Rightarrow> bool" where
  "valid_icon_hash h \<longleftrightarrow> length h = 32 \<and> list_all ascii_hexdigit h"

definition valid_device_component :: "string \<Rightarrow> bool" where
  "valid_device_component d \<longleftrightarrow> 32 \<le> length d \<and> length d \<le> 38
     \<and> list_all (\<lambda>c. ascii_alnum (of_char c) \<or> c = CHR ''-'' \<or> c = CHR ''_'') d"

definition icon_path_unchecked :: "string \<Rightarrow> device_key \<Rightarrow> string \<Rightarrow> path" where
  "icon_path_unchecked root did h = (root @ ''/'' @ did, map ascii_lower h)"

definition is_regular_icon :: "path \<Rightarrow> disk \<Rightarrow> bool" where
  "is_regular_icon p d = path_exists p d"

definition icon_api_url :: "device_key \<Rightarrow> string \<Rightarrow> string" where
  "icon_api_url did h = ''/api/v1/devices/'' @ did @ ''/notification-icons/'' @ map ascii_lower h"

definition icon_path :: "device_key \<Rightarrow> string \<Rightarrow> 'z notif_daemon_scheme \<Rightarrow> path option" where
  "icon_path did h s =
     (if \<not> valid_device_component did \<or> \<not> valid_icon_hash h then None
      else (let p = icon_path_unchecked (icon_root s) did h in if is_regular_icon p (sh_disk s) then Some p else None))"

definition remove_icons :: "path list \<Rightarrow> 'z notif_daemon_scheme \<Rightarrow> 'z notif_daemon_scheme" where
  "remove_icons ps s = s\<lparr>sh_disk := fold discard ps (sh_disk s)\<rparr>"

definition record_icon :: "device_key \<Rightarrow> string \<Rightarrow> 'z notif_daemon_scheme \<Rightarrow> 'z notif_daemon_scheme" where
  "record_icon did h s =
     (let normalized = map ascii_lower h;
          queue = filter (\<lambda>e. e \<noteq> normalized) (case icon_lru s did of Some q \<Rightarrow> q | None \<Rightarrow> []) @ [normalized];
          excess = length queue - max_icons_per_device s
      in remove_icons (map (icon_path_unchecked (icon_root s) did) (take excess queue))
           (s\<lparr>icon_lru := (icon_lru s)(did \<mapsto> drop excess queue)\<rparr>))"

text \<open>What is found on disk at start-up: the device directories in the order they are listed, each
  with its files and the times they were written.\<close>

type_synonym icon_listing = "(string \<times> (instant \<times> string) list) list"

definition load_device_icons :: "string \<times> (instant \<times> string) list \<Rightarrow> 'z notif_daemon_scheme \<Rightarrow> 'z notif_daemon_scheme" where
  "load_device_icons = (\<lambda>(did, entries) s.
     if \<not> valid_device_component did then s
     else (let icons = sort_key fst (map (\<lambda>(t, h). (t, map ascii_lower h)) (filter (\<lambda>e. valid_icon_hash (snd e)) entries));
               excess = length icons - max_icons_per_device s;
               s1 = remove_icons (map (\<lambda>e. icon_path_unchecked (icon_root s) did (snd e)) (take excess icons)) s
           in if drop excess icons = [] then s1
              else s1\<lparr>icon_lru := (icon_lru s1)(did \<mapsto> map snd (drop excess icons))\<rparr>))"

definition load_existing_icons :: "icon_listing \<Rightarrow> 'z notif_daemon_scheme \<Rightarrow> 'z notif_daemon_scheme" where
  "load_existing_icons listing s = fold load_device_icons listing s"

text \<open>The address of the transfer: the peer's own where the packet names none.\<close>

definition icon_transfer_info :: "device_key \<Rightarrow> packet \<Rightarrow> 'z notif_daemon_scheme \<Rightarrow> payload_transfer_info option" where
  "icon_transfer_info did pkt s =
     Option.bind (packet_payload_transfer_info pkt) (\<lambda>j.
       case transfer_info_of_json j of
         Inl _ \<Rightarrow> None
       | Inr info \<Rightarrow>
           (case pti_ip info of
              Some _ \<Rightarrow> Some info
            | None \<Rightarrow> (case get_peer_addr did s of
                         Some (SockAddr ip _) \<Rightarrow> Some (info\<lparr>pti_ip := Some (show_ip ip)\<rparr>)
                       | None \<Rightarrow> None)))"

definition icon_transfer ::
    "externals \<Rightarrow> notif_env \<Rightarrow> certificate_manager \<Rightarrow> device_key \<Rightarrow> payload_transfer_info \<Rightarrow> u64 \<Rightarrow> path \<Rightarrow> (disk, u64) op" where
  "icon_transfer E V cm did info sz dest =
     sbind (fs_create_dir_all (Other ''create'') (fst dest)) (\<lambda>_.
       receive_file E (nv_rustls V) \<lparr>pt_cert_manager = cm, pt_device_id = did\<rparr> (nv_net V) (nv_clk V) (nv_writes V) info sz dest)"

definition receive_icon ::
    "externals \<Rightarrow> notif_env \<Rightarrow> device_key \<Rightarrow> string \<Rightarrow> packet \<Rightarrow> 'z notif_daemon_scheme \<Rightarrow> path option \<times> 'z notif_daemon_scheme" where
  "receive_icon E V did payload_hash pkt s =
     (if \<not> valid_device_component did \<or> \<not> valid_icon_hash payload_hash then (None, s)
      else (let path = icon_path_unchecked (icon_root s) did payload_hash in
        if is_regular_icon path (sh_disk s) then (Some path, record_icon did payload_hash s)
        else (case packet_payload_size pkt of
                Some (Known sz) \<Rightarrow>
                  if sz = 0 \<or> MAX_NOTIFICATION_ICON_BYTES < sz then (None, s)
                  else (case (icon_transfer_info did pkt s, icon_certs s) of
                          (Some info, Some cm) \<Rightarrow>
                            if \<not> knows_connections s then (None, s)
                            else (case on_disk (icon_transfer E V cm did info sz path) s of
                                    (Inr _, s1) \<Rightarrow> (Some path, record_icon did payload_hash s1)
                                  | (Inl _, s1) \<Rightarrow> (None, s1))
                        | _ \<Rightarrow> (None, s))
              | _ \<Rightarrow> (None, s))))"

section \<open>What was posted\<close>

definition dedupe_track ::
    "instant \<Rightarrow> device_key \<Rightarrow> string \<Rightarrow> u64 \<Rightarrow> 'z notif_daemon_scheme \<Rightarrow> desktop_action \<times> 'z notif_daemon_scheme" where
  "dedupe_track now did nid sig s =
     (let key = (did, nid);
          track = (\<lambda>g r s. s\<lparr>dedupe := (dedupe s)(key \<mapsto> \<lparr>de_signature = g, de_replaces_id = r\<rparr>)\<rparr>)
      in case dedupe s key of
           Some entry \<Rightarrow>
             if de_signature entry = sig then (Suppress, s)
             else (Replace (de_replaces_id entry), track sig (de_replaces_id entry) s)
         | None \<Rightarrow>
             (let (hit, s1) = (case dedupe_shadow s key of
                                 Some e \<Rightarrow> if sh_expires e \<le> now then (None, s\<lparr>dedupe_shadow := hm_remove key (dedupe_shadow s)\<rparr>)
                                           else (Some e, s)
                               | None \<Rightarrow> (None, s))
              in case hit of
                   Some e \<Rightarrow> if sh_signature e = sig then (Suppress, track (sh_signature e) (sh_replaces_id e) s1)
                             else if sh_replaces_id e \<noteq> 0 then (Replace (sh_replaces_id e), track sig (sh_replaces_id e) s1)
                             else (Post, track sig 0 s1)
                 | None \<Rightarrow> (Post, track sig 0 s1)))"

definition dedupe_record_shown :: "device_key \<Rightarrow> string \<Rightarrow> u32 \<Rightarrow> 'z notif_daemon_scheme \<Rightarrow> 'z notif_daemon_scheme" where
  "dedupe_record_shown did nid r s =
     (case dedupe s (did, nid) of
        Some e \<Rightarrow> s\<lparr>dedupe := (dedupe s)((did, nid) \<mapsto> e\<lparr>de_replaces_id := r\<rparr>)\<rparr>
      | None \<Rightarrow> s)"

definition dedupe_take :: "device_key \<Rightarrow> string \<Rightarrow> 'z notif_daemon_scheme \<Rightarrow> u32 option \<times> 'z notif_daemon_scheme" where
  "dedupe_take did nid s =
     (map_option de_replaces_id (dedupe s (did, nid)),
      s\<lparr>dedupe := hm_remove (did, nid) (dedupe s), dedupe_shadow := hm_remove (did, nid) (dedupe_shadow s)\<rparr>)"

section \<open>The history\<close>

definition same_notification :: "device_key \<Rightarrow> string \<Rightarrow> notification_entry \<Rightarrow> bool" where
  "same_notification did nid e \<longleftrightarrow> ne_device_id e = did \<and> ne_id e = nid"

definition get_history :: "device_key option \<Rightarrow> nat \<Rightarrow> 'z notif_daemon_scheme \<Rightarrow> notification_entry list" where
  "get_history did limit s =
     take limit (case did of Some d \<Rightarrow> filter (\<lambda>e. ne_device_id e = d) (history s) | None \<Rightarrow> history s)"

definition reply_handle :: "device_key \<Rightarrow> string \<Rightarrow> 'z notif_daemon_scheme \<Rightarrow> string option" where
  "reply_handle did nid s =
     Option.bind (find (\<lambda>e. same_notification did nid e \<and> \<not> ne_is_cancel e) (rev (history s))) ne_reply_id"

definition has_action :: "device_key \<Rightarrow> string \<Rightarrow> string \<Rightarrow> 'z notif_daemon_scheme \<Rightarrow> bool" where
  "has_action did nid action s \<longleftrightarrow>
     list_ex (\<lambda>e. same_notification did nid e \<and> (case ne_actions e of Some as \<Rightarrow> action \<in> set as | None \<Rightarrow> False)) (rev (history s))"

definition notif_broadcast :: "notification_event \<Rightarrow> 'z notif_daemon_scheme \<Rightarrow> 'z notif_daemon_scheme" where
  "notif_broadcast ev s = s\<lparr>notif_events := notif_events s @ [ev]\<rparr>"

definition forget_entry :: "device_key \<Rightarrow> string \<Rightarrow> 'z notif_daemon_scheme \<Rightarrow> 'z notif_daemon_scheme" where
  "forget_entry did nid s = s\<lparr>history := filter (\<lambda>e. \<not> same_notification did nid e) (history s)\<rparr>"

definition dismiss :: "device_key \<Rightarrow> string \<Rightarrow> 'z notif_daemon_scheme \<Rightarrow> bool \<times> 'z notif_daemon_scheme" where
  "dismiss did nid s =
     (let s1 = forget_entry did nid s;
          s2 = snd (dedupe_take did nid s1)
      in (length (history s1) \<noteq> length (history s),
          notif_broadcast \<lparr>ev_device_id = did, ev_id = nid, ev_app_name = ''unknown'', ev_title = '''', ev_text = '''',
            ev_ticker = None, ev_is_cancel = True, ev_silent = False, ev_actions = None, ev_conversation = None,
            ev_group_name = None, ev_reply_id = None, ev_icon_hash = None, ev_icon_url = None\<rparr> s2))"

text \<open>Entries beyond the bound leave at the front, and what was posted for them is forgotten.\<close>

definition evict_history :: "'z notif_daemon_scheme \<Rightarrow> 'z notif_daemon_scheme" where
  "evict_history s =
     (let excess = length (history s) - MAX_NOTIFICATION_HISTORY;
          evicted_keys = map (\<lambda>e. (ne_device_id e, ne_id e)) (filter (\<lambda>e. ne_id e \<noteq> []) (take excess (history s)))
      in s\<lparr>history := drop excess (history s), dedupe := fold hm_remove evicted_keys (dedupe s)\<rparr>)"

section \<open>Packets\<close>

definition dec_notification_body :: "json \<Rightarrow> notification_body res" where
  "dec_notification_body = dec_struct 0
     [''id'', ''appName'', ''title'', ''text'', ''ticker'', ''isCancel'', ''silent'', ''actions'', ''conversation'',
      ''groupName'', ''requestReplyId'', ''payloadHash'']
     (\<lambda>get. rbind (optional dec_string (get ''id'')) (\<lambda>i.
            rbind (optional dec_string (get ''appName'')) (\<lambda>a.
            rbind (optional dec_string (get ''title'')) (\<lambda>ti.
            rbind (optional dec_string (get ''text'')) (\<lambda>te.
            rbind (optional dec_string (get ''ticker'')) (\<lambda>tk.
            rbind (optional dec_bool (get ''isCancel'')) (\<lambda>ic.
            rbind (optional dec_bool (get ''silent'')) (\<lambda>si.
            rbind (optional dec_string_list (get ''actions'')) (\<lambda>ac.
            rbind (optional Inr (get ''conversation'')) (\<lambda>co.
            rbind (optional dec_string (get ''groupName'')) (\<lambda>g.
            rbind (optional dec_string (get ''requestReplyId'')) (\<lambda>rr.
            rbind (optional dec_string (get ''payloadHash'')) (\<lambda>ph.
              Inr \<lparr>nb_id = i, nb_app_name = a, nb_title = ti, nb_text = te, nb_ticker = tk, nb_is_cancel = ic,
                   nb_silent = si, nb_actions = ac, nb_conversation = co, nb_group_name = g,
                   nb_request_reply_id = rr, nb_payload_hash = ph\<rparr>)))))))))))))"

definition or_else :: "'a \<Rightarrow> 'a option \<Rightarrow> 'a" where
  "or_else d v = (case v of Some a \<Rightarrow> a | None \<Rightarrow> d)"

definition ticker_of :: "notification_body \<Rightarrow> string option" where
  "ticker_of b = (let t = or_else '''' (nb_ticker b) in if t = [] then None else Some t)"

definition close_desktop_notification :: "u32 \<Rightarrow> 'z notif_daemon_scheme \<Rightarrow> 'z notif_daemon_scheme" where
  "close_desktop_notification r s = s\<lparr>desktop := desktop s @ [Close r]\<rparr>"

text \<open>The cancellation of a notification.\<close>

definition handle_cancel :: "device_key \<Rightarrow> notification_body \<Rightarrow> 'z notif_daemon_scheme \<Rightarrow> 'z notif_daemon_scheme" where
  "handle_cancel did b s =
     (let nid = or_else '''' (nb_id b);
          (desktop_id, s1) = dedupe_take did nid (forget_entry did nid s);
          s2 = notif_broadcast \<lparr>ev_device_id = did, ev_id = nid, ev_app_name = or_else ''unknown'' (nb_app_name b),
                 ev_title = or_else '''' (nb_title b), ev_text = or_else '''' (nb_text b), ev_ticker = ticker_of b,
                 ev_is_cancel = True, ev_silent = or_else False (nb_silent b), ev_actions = nb_actions b,
                 ev_conversation = nb_conversation b, ev_group_name = nb_group_name b, ev_reply_id = None,
                 ev_icon_hash = None, ev_icon_url = None\<rparr> s1
      in case desktop_id of
           Some r \<Rightarrow> if r \<noteq> 0 then close_desktop_notification r s2 else s2
         | None \<Rightarrow> s2)"

definition make_popup :: "device_key \<Rightarrow> notification_body \<Rightarrow> path option \<Rightarrow> desktop_action \<Rightarrow> popup" where
  "make_popup did b icon action =
     (let app = or_else ''unknown'' (nb_app_name b); title = or_else '''' (nb_title b)
      in \<lparr>po_appname = app, po_summary = (if title = [] then app else title),
          po_body = escape_markup (or_else '''' (nb_text b)), po_source_device = did, po_timeout_ms = 5000,
          po_image = icon, po_replaces = (case action of Replace r \<Rightarrow> Some r | _ \<Rightarrow> None)\<rparr>)"

definition show_popup ::
    "notif_env \<Rightarrow> device_key \<Rightarrow> notification_body \<Rightarrow> path option \<Rightarrow> desktop_action \<Rightarrow> 'z notif_daemon_scheme \<Rightarrow> 'z notif_daemon_scheme" where
  "show_popup V did b icon action s =
     (if show_desktop s \<and> nv_display V \<and> action \<noteq> Suppress then
        (let s1 = s\<lparr>desktop := desktop s @ [Show (make_popup did b icon action)]\<rparr>; nid = or_else '''' (nb_id b)
         in case nv_shown V of
              Some r \<Rightarrow> if nid \<noteq> [] then dedupe_record_shown did nid r s1 else s1
            | None \<Rightarrow> s1)
      else s)"

definition make_entry :: "notif_env \<Rightarrow> device_key \<Rightarrow> notification_body \<Rightarrow> string option \<Rightarrow> string option \<Rightarrow> notification_entry" where
  "make_entry V did b icon_hash icon_url =
     \<lparr>ne_device_id = did, ne_id = or_else '''' (nb_id b), ne_app_name = or_else ''unknown'' (nb_app_name b),
      ne_title = or_else '''' (nb_title b), ne_text = or_else '''' (nb_text b), ne_is_cancel = False,
      ne_silent = or_else False (nb_silent b), ne_actions = nb_actions b, ne_conversation = nb_conversation b,
      ne_group_name = nb_group_name b, ne_reply_id = nb_request_reply_id b, ne_icon_hash = icon_hash,
      ne_icon_url = icon_url, ne_received_at = nv_utc V\<rparr>"

definition make_event :: "notification_body \<Rightarrow> notification_entry \<Rightarrow> notification_event" where
  "make_event b e =
     \<lparr>ev_device_id = ne_device_id e, ev_id = ne_id e, ev_app_name = ne_app_name e, ev_title = ne_title e,
      ev_text = ne_text e, ev_ticker = ticker_of b, ev_is_cancel = False, ev_silent = ne_silent e,
      ev_actions = ne_actions e, ev_conversation = ne_conversation e, ev_group_name = ne_group_name e,
      ev_reply_id = ne_reply_id e, ev_icon_hash = ne_icon_hash e, ev_icon_url = ne_icon_url e\<rparr>"

definition push_entry :: "notification_entry \<Rightarrow> 'z notif_daemon_scheme \<Rightarrow> 'z notif_daemon_scheme" where
  "push_entry e s =
     (let s1 = (if ne_id e \<noteq> [] then forget_entry (ne_device_id e) (ne_id e) s else s)
      in evict_history (s1\<lparr>history := history s1 @ [e]\<rparr>))"

text \<open>A notification that is shown, announced and kept.\<close>

definition handle_posted ::
    "(string \<Rightarrow> string \<Rightarrow> string \<Rightarrow> u64) \<Rightarrow> notif_env \<Rightarrow> device_key \<Rightarrow> notification_body \<Rightarrow> string option \<Rightarrow> path option
     \<Rightarrow> 'z notif_daemon_scheme \<Rightarrow> 'z notif_daemon_scheme" where
  "handle_posted hash V did b icon_hash icon s =
     (let nid = or_else '''' (nb_id b);
          (action, s1) = (if nid = [] then (Post, s)
                          else dedupe_track (nv_now V) did nid
                                 (hash (or_else ''unknown'' (nb_app_name b)) (or_else '''' (nb_title b)) (or_else '''' (nb_text b))) s);
          s2 = show_popup V did b icon action s1;
          e = make_entry V did b icon_hash
                (case (icon, icon_hash) of (Some _, Some h) \<Rightarrow> Some (icon_api_url did h) | _ \<Rightarrow> None)
      in push_entry e (notif_broadcast (make_event b e) s2))"

definition notification_handle ::
    "externals \<Rightarrow> (string \<Rightarrow> string \<Rightarrow> string \<Rightarrow> u64) \<Rightarrow> notif_env \<Rightarrow> 'z notif_daemon_scheme handler" where
  "notification_handle E hash V did pkt s =
     (if packet_type pkt \<noteq> ''kdeconnect.notification'' then (HResult (Inr None), s)
      else (case dec_notification_body (packet_body pkt) of
              Inl e \<Rightarrow> (HResult (Inl e), s)
            | Inr b \<Rightarrow>
                (let icon_hash = (case nb_payload_hash b of
                                    Some h \<Rightarrow> if valid_icon_hash h then Some (map ascii_lower h) else None
                                  | None \<Rightarrow> None);
                     (icon, s1) = (case icon_hash of Some h \<Rightarrow> receive_icon E V did h pkt s | None \<Rightarrow> (None, s))
                 in (HResult (Inr None),
                     if or_else False (nb_is_cancel b) then handle_cancel did b s1
                     else handle_posted hash V did b icon_hash icon s1))))"

section \<open>The end of a link\<close>

definition shadow_of :: "instant \<Rightarrow> dedupe_entry \<Rightarrow> shadow_entry" where
  "shadow_of now e = \<lparr>sh_signature = de_signature e, sh_replaces_id = de_replaces_id e, sh_expires = now + DEDUPE_SHADOW_TTL\<rparr>"

definition drop_icon :: "device_key \<Rightarrow> string \<Rightarrow> 'z notif_daemon_scheme \<Rightarrow> 'z notif_daemon_scheme" where
  "drop_icon did h s = (case icon_path did h s of Some p \<Rightarrow> remove_icons [p] s | None \<Rightarrow> s)"

text \<open>The clock is read twice: for the expiry of the new shadows and for the pruning of old ones.\<close>

definition notification_disconnected :: "clock \<Rightarrow> device_key \<Rightarrow> 'z notif_daemon_scheme \<Rightarrow> 'z notif_daemon_scheme" where
  "notification_disconnected clk did s =
     (let collected = (\<lambda>k. if fst k = did then map_option (shadow_of (clk 0)) (dedupe s k) else None);
          s1 = s\<lparr>history := filter (\<lambda>e. ne_device_id e \<noteq> did) (history s),
                 dedupe := hm_retain (\<lambda>k v. fst k \<noteq> did) (dedupe s),
                 dedupe_shadow := hm_retain (\<lambda>k e. clk 1 < sh_expires e) (dedupe_shadow s) ++ collected,
                 icon_lru := hm_remove did (icon_lru s)\<rparr>;
          hashes = (case icon_lru s did of Some q \<Rightarrow> q | None \<Rightarrow> [])
      in fold (drop_icon did) hashes s1)"

definition notification_connected :: "i64 \<Rightarrow> packet list" where
  "notification_connected pid = [new_packet pid ''kdeconnect.notification.request'' (JObj [(''request'', JBool True)])]"

definition notification_plugin ::
    "externals \<Rightarrow> (string \<Rightarrow> string \<Rightarrow> string \<Rightarrow> u64) \<Rightarrow> notif_env \<Rightarrow> i64 \<Rightarrow> 'z notif_daemon_scheme plugin" where
  "notification_plugin E hash V pid = \<lparr>pl_name = ''notification'', pl_incoming = [''kdeconnect.notification''],
     pl_outgoing = [''kdeconnect.notification'', ''kdeconnect.notification.request'', ''kdeconnect.notification.reply''],
     pl_handle = notification_handle E hash V,
     pl_on_connected = (\<lambda>did s. (notification_connected pid, s)),
     pl_on_disconnected = notification_disconnected (nv_clk V)\<rparr>"

text \<open>The plugin at start-up, with its icons on disk (\<open>with_storage\<close>).\<close>

definition notification_storage ::
    "string \<Rightarrow> certificate_manager \<Rightarrow> icon_listing \<Rightarrow> 'z notif_daemon_scheme \<Rightarrow> 'z notif_daemon_scheme" where
  "notification_storage data_dir cm listing s =
     load_existing_icons listing
       (s\<lparr>show_desktop := True, history := [], dedupe := Map.empty, dedupe_shadow := Map.empty,
          icon_root := data_dir @ ''/'' @ ICON_DIR_NAME, icon_lru := Map.empty, max_icons_per_device := MAX_ICONS_PER_DEVICE,
          icon_certs := Some cm, knows_connections := True\<rparr>)"

section \<open>Markup is neutralised\<close>

definition escape_char :: "char \<Rightarrow> string" where
  "escape_char c = (if c = CHR ''&'' then ''&amp;'' else if c = CHR ''<'' then ''&lt;'' else if c = CHR ''>'' then ''&gt;''
     else if c = CHR 0x22 then ''&quot;'' else [c])"

lemma replace_char_simps [simp]:
  "replace_char c by [] = []"
  "replace_char c by (x # xs) = (if x = c then by else [x]) @ replace_char c by xs"
  "replace_char c by (xs @ ys) = replace_char c by xs @ replace_char c by ys"
  by (simp_all add: replace_char_def)

text \<open>The four passes are one: no pass touches what an earlier one wrote.\<close>

lemma escape_markup_one_pass: "escape_markup s = concat (map escape_char s)"
  by (induction s) (simp_all add: escape_markup_def escape_char_def)

text \<open>What the notification server does with the entities of a text without tags.\<close>

fun unescape_markup :: "string \<Rightarrow> string" where
  "unescape_markup [] = []"
| "unescape_markup (c # s) =
     (if c \<noteq> CHR ''&'' then c # unescape_markup s
      else if take 4 s = ''amp;'' then CHR ''&'' # unescape_markup (drop 4 s)
      else if take 3 s = ''lt;'' then CHR ''<'' # unescape_markup (drop 3 s)
      else if take 3 s = ''gt;'' then CHR ''>'' # unescape_markup (drop 3 s)
      else if take 5 s = ''quot;'' then CHR 0x22 # unescape_markup (drop 5 s)
      else c # unescape_markup s)"

lemma unescape_escape_char: "unescape_markup (escape_char c @ s) = c # unescape_markup s"
  by (simp add: escape_char_def)

section \<open>What each part leaves alone\<close>

text \<open>The tables of what was posted, the history and the calls to the desktop.\<close>

definition board where
  "board s = (history s, dedupe s, dedupe_shadow s, desktop s, show_desktop s)"

lemma board_icons [simp]:
  "board (remove_icons ps s) = board s" "board (record_icon did h s) = board s" "board (snd (on_disk m s)) = board s"
  by (simp_all add: board_def remove_icons_def record_icon_def Let_def on_disk_def split: prod.splits)

lemma board_receive_icon [simp]: "board (snd (receive_icon E V did h pkt s)) = board s"
proof -
  have "board s1 = board s" if "on_disk m s = (r, s1)" for m :: "(disk, u64) op" and r s1
    using board_icons(3) [of m s] that by simp
  then show ?thesis
    by (auto simp: receive_icon_def Let_def split: option.splits payload_size.splits prod.splits sum.splits)
qed

lemma boardD:
  assumes "board t = board s"
  shows "history t = history s" "dedupe t = dedupe s" "dedupe_shadow t = dedupe_shadow s" "desktop t = desktop s"
    "show_desktop t = show_desktop s"
  using assms by (simp_all add: board_def)

lemma tracked_frame [simp]:
  "history (snd (dedupe_track now did nid sg s)) = history s"
  "desktop (snd (dedupe_track now did nid sg s)) = desktop s"
  "show_desktop (snd (dedupe_track now did nid sg s)) = show_desktop s"
  "dom (dedupe (snd (dedupe_track now did nid sg s))) = insert (did, nid) (dom (dedupe s))"
  by (auto simp: dedupe_track_def Let_def split: option.splits if_splits)

lemma tracked_other:
  "k \<noteq> (did, nid) \<Longrightarrow> dedupe (snd (dedupe_track now did nid sg s)) k = dedupe s k"
  "k \<noteq> (did, nid) \<Longrightarrow> dedupe_shadow (snd (dedupe_track now did nid sg s)) k = dedupe_shadow s k"
  by (auto simp: dedupe_track_def Let_def hm_remove_apply split: option.splits if_splits)

lemma record_shown_frame [simp]:
  "history (dedupe_record_shown did nid r s) = history s" "dom (dedupe (dedupe_record_shown did nid r s)) = dom (dedupe s)"
  "dedupe_shadow (dedupe_record_shown did nid r s) = dedupe_shadow s" "desktop (dedupe_record_shown did nid r s) = desktop s"
  "k \<noteq> (did, nid) \<Longrightarrow> dedupe (dedupe_record_shown did nid r s) k = dedupe s k"
  by (auto simp: dedupe_record_shown_def split: option.splits)

lemma show_popup_frame [simp]:
  "history (show_popup V did b icon a s) = history s" "dom (dedupe (show_popup V did b icon a s)) = dom (dedupe s)"
  "dedupe_shadow (show_popup V did b icon a s) = dedupe_shadow s"
  by (simp_all add: show_popup_def Let_def split: option.splits)

lemma show_popup_other:
  "k \<noteq> (did, or_else '''' (nb_id b)) \<Longrightarrow> dedupe (show_popup V did b icon a s) k = dedupe s k"
  by (simp add: show_popup_def Let_def split: option.splits)

lemma broadcast_frame [simp]:
  "history (notif_broadcast ev s) = history s" "dedupe (notif_broadcast ev s) = dedupe s"
  "dedupe_shadow (notif_broadcast ev s) = dedupe_shadow s" "desktop (notif_broadcast ev s) = desktop s"
  by (simp_all add: notif_broadcast_def)

lemma push_entry_frame [simp]: "desktop (push_entry e s) = desktop s" "dedupe_shadow (push_entry e s) = dedupe_shadow s"
  by (simp_all add: push_entry_def evict_history_def forget_entry_def Let_def)

lemma fold_hm_remove: "fold hm_remove ks m = (\<lambda>k. if k \<in> set ks then None else m k)"
  by (induction ks arbitrary: m) (auto simp: hm_remove_apply fun_eq_iff)

section \<open>The history's invariant\<close>

definition entry_key :: "notification_entry \<Rightarrow> notif_key" where
  "entry_key e = (ne_device_id e, ne_id e)"

definition named :: "notification_entry list \<Rightarrow> notification_entry list" where
  "named es = filter (\<lambda>e. ne_id e \<noteq> []) es"

definition history_ok :: "notification_entry list \<Rightarrow> (notif_key \<rightharpoonup> dedupe_entry) \<Rightarrow> bool" where
  "history_ok es m \<longleftrightarrow> length es \<le> MAX_NOTIFICATION_HISTORY \<and> distinct (map entry_key (named es))
     \<and> dom m \<subseteq> entry_key ` set (named es) \<and> list_all (\<lambda>e. \<not> ne_is_cancel e) es"

lemma history_ok_filter:
  assumes "history_ok es m" and "\<And>e. e \<in> set es \<Longrightarrow> ne_id e \<noteq> [] \<Longrightarrow> \<not> P e \<Longrightarrow> entry_key e \<notin> dom m'" and "dom m' \<subseteq> dom m"
  shows "history_ok (filter P es) m'"
proof -
  have f: "named (filter P es) = filter P (named es)" by (simp add: named_def conj_commute)
  have "length (filter P es) \<le> MAX_NOTIFICATION_HISTORY"
    using assms(1) le_trans [OF length_filter_le] by (auto simp: history_ok_def)
  moreover have "dom m' \<subseteq> entry_key ` set (named (filter P es))"
  proof
    fix k assume k: "k \<in> dom m'"
    with assms(1,3) obtain e where "e \<in> set (named es)" "k = entry_key e" by (auto simp: history_ok_def)
    with assms(2) [of e] k show "k \<in> entry_key ` set (named (filter P es))" by (auto simp: named_def)
  qed
  ultimately show ?thesis using assms(1)
    by (auto simp: history_ok_def f list_all_iff distinct_map_filter)
qed

lemma same_notification_key: "same_notification did nid e \<longleftrightarrow> entry_key e = (did, nid)"
  by (auto simp: same_notification_def entry_key_def)

text \<open>Appending the entry of a key that no other entry has, and dropping what is beyond the bound.\<close>

lemma history_ok_push:
  assumes ok: "history_ok es m" and new: "\<not> ne_is_cancel e" "ne_id e \<noteq> [] \<Longrightarrow> entry_key e \<notin> entry_key ` set (named es)"
    and dom: "dom m' \<subseteq> (if ne_id e = [] then dom m else insert (entry_key e) (dom m))"
  defines "all \<equiv> es @ [e]"
  defines "excess \<equiv> length all - MAX_NOTIFICATION_HISTORY"
  shows "history_ok (drop excess all) (fold hm_remove (map entry_key (named (take excess all))) m')"
proof -
  have split: "named all = named (take excess all) @ named (drop excess all)"
    by (simp add: named_def flip: filter_append)
  have named: "named all = named es @ (if ne_id e = [] then [] else [e])" by (simp add: all_def named_def)
  have "distinct (map entry_key (named all))" using ok new(2) unfolding named history_ok_def by auto
  then have "distinct (map entry_key (named (drop excess all)))" unfolding split by simp
  moreover have "dom (fold hm_remove (map entry_key (named (take excess all))) m') \<subseteq> entry_key ` set (named (drop excess all))"
  proof
    fix k assume "k \<in> dom (fold hm_remove (map entry_key (named (take excess all))) m')"
    then have "k \<in> dom m'" "k \<notin> entry_key ` set (named (take excess all))"
      by (auto simp: fold_hm_remove split: if_splits)
    moreover have "dom m \<subseteq> entry_key ` set (named es)" using ok by (simp add: history_ok_def)
    with \<open>k \<in> dom m'\<close> dom have "k \<in> entry_key ` set (named all)"
      unfolding named by (cases "ne_id e = []") (simp_all, blast+)
    ultimately show "k \<in> entry_key ` set (named (drop excess all))" unfolding split by auto
  qed
  moreover have "length (drop excess all) \<le> MAX_NOTIFICATION_HISTORY" by (simp add: excess_def)
  moreover have "list_all (\<lambda>e. \<not> ne_is_cancel e) all" using ok new(1) by (simp add: history_ok_def all_def)
  then have "list_all (\<lambda>e. \<not> ne_is_cancel e) (drop excess all)"
    by (auto simp: list_all_iff dest: in_set_dropD)
  ultimately show ?thesis by (simp add: history_ok_def)
qed

definition notif_ok :: "'z notif_daemon_scheme \<Rightarrow> bool" where
  "notif_ok s \<longleftrightarrow> history_ok (history s) (dedupe s)"

lemma notif_ok_board: "board t = board s \<Longrightarrow> notif_ok s \<Longrightarrow> notif_ok t"
  using boardD [of t s] by (simp add: notif_ok_def)

lemma forget_taken_ok:
  assumes "notif_ok s"
  shows "notif_ok (snd (dedupe_take did nid (forget_entry did nid s)))"
  using assms unfolding notif_ok_def dedupe_take_def forget_entry_def
  by (auto intro!: history_ok_filter [of _ "dedupe s"] simp: same_notification_key dom_hm_remove split: if_splits)

lemma handle_cancel_ok: "notif_ok s \<Longrightarrow> notif_ok (handle_cancel did b s)"
proof -
  assume "notif_ok s"
  obtain r s1 where t: "dedupe_take did (or_else '''' (nb_id b)) (forget_entry did (or_else '''' (nb_id b)) s) = (r, s1)" by fastforce
  with forget_taken_ok [OF \<open>notif_ok s\<close>, of did "or_else '''' (nb_id b)"] have "notif_ok s1" by simp
  with t show ?thesis
    by (simp add: handle_cancel_def Let_def notif_ok_def close_desktop_notification_def split: option.splits)
qed

lemma dismiss_ok: "notif_ok s \<Longrightarrow> notif_ok (snd (dismiss did nid s))"
  using forget_taken_ok [of s did nid] by (simp add: dismiss_def Let_def notif_ok_def)

lemma push_entry_state:
  fixes s :: "'z notif_daemon_scheme"
  defines "es \<equiv> \<lambda>e s :: 'z notif_daemon_scheme. (if ne_id e = [] then history s else filter (\<lambda>x. entry_key x \<noteq> entry_key e) (history s)) @ [e]"
  shows "history (push_entry e s) = drop (length (es e s) - MAX_NOTIFICATION_HISTORY) (es e s)"
    and "dedupe (push_entry e s) = fold hm_remove (map entry_key (named (take (length (es e s) - MAX_NOTIFICATION_HISTORY) (es e s)))) (dedupe s)"
  by (simp_all add: push_entry_def evict_history_def forget_entry_def es_def Let_def same_notification_key
      entry_key_def [symmetric] named_def [symmetric] entry_key_def [abs_def, symmetric])

lemma push_entry_ok:
  assumes ok: "history_ok (history s) m" and "\<not> ne_is_cancel e"
    and "dom (dedupe s) \<subseteq> (if ne_id e = [] then dom m else insert (entry_key e) (dom m))"
  shows "notif_ok (push_entry e s)"
proof (cases "ne_id e = []")
  case True
  then show ?thesis unfolding notif_ok_def push_entry_state
    using history_ok_push [OF ok assms(2), of "dedupe s"] assms(3) by simp
next
  case False
  let ?es = "filter (\<lambda>x. entry_key x \<noteq> entry_key e) (history s)" and ?m = "hm_remove (entry_key e) m"
  have "history_ok ?es ?m" by (rule history_ok_filter [OF ok]) (auto simp: dom_hm_remove)
  moreover have "entry_key e \<notin> entry_key ` set (named ?es)" by (auto simp: named_def)
  moreover have "dom (dedupe s) \<subseteq> insert (entry_key e) (dom ?m)" using assms(3) False by (auto simp: dom_hm_remove)
  ultimately show ?thesis unfolding notif_ok_def push_entry_state
    using history_ok_push [OF _ assms(2), of ?es ?m "dedupe s"] False by simp
qed

lemma handle_posted_ok: "notif_ok s \<Longrightarrow> notif_ok (handle_posted hash V did b ih icon s)"
proof -
  assume ok: "notif_ok s"
  let ?nid = "or_else '''' (nb_id b)"
  let ?sg = "hash (or_else ''unknown'' (nb_app_name b)) (or_else '''' (nb_title b)) (or_else '''' (nb_text b))"
  obtain a s1 where t: "(if ?nid = [] then (Post, s) else dedupe_track (nv_now V) did ?nid ?sg s) = (a, s1)" by fastforce
  then have s1: "history s1 = history s" "dom (dedupe s1) = (if ?nid = [] then dom (dedupe s) else insert (did, ?nid) (dom (dedupe s)))"
    using tracked_frame [of "nv_now V" did ?nid ?sg s] by (cases "?nid = []"; simp)+
  have "notif_ok (push_entry (make_entry V did b ih u) (notif_broadcast ev (show_popup V did b icon a s1)))" for u ev
    using ok s1 by (intro push_entry_ok [of _ "dedupe s"]) (auto simp: notif_ok_def make_entry_def entry_key_def)
  with t show ?thesis by (simp add: handle_posted_def Let_def)
qed

lemma notification_handle_ok:
  assumes "notif_ok s"
  shows "notif_ok (snd (notification_handle E hash V did pkt s))"
proof -
  have "notif_ok s1" if "receive_icon E V did h pkt s = (r, s1)" for h r s1
    using notif_ok_board [OF _ assms, of s1] board_receive_icon [of E V did h pkt s] that by simp
  with assms show ?thesis
    by (auto simp: notification_handle_def Let_def handle_cancel_ok handle_posted_ok split: sum.splits option.splits prod.splits)
qed

lemma drop_icons_frame:
  "board (fold (drop_icon did) hs s) = board s" "icon_lru (fold (drop_icon did) hs s) = icon_lru s"
proof -
  have "board (drop_icon did h s) = board s" "icon_lru (drop_icon did h s) = icon_lru s" for h and s :: "'a notif_daemon_scheme"
    by (simp_all add: drop_icon_def remove_icons_def board_def split: option.splits)
  then show "board (fold (drop_icon did) hs s) = board s" "icon_lru (fold (drop_icon did) hs s) = icon_lru s"
    by (induction hs arbitrary: s) simp_all
qed

lemma disconnected_state:
  "history (notification_disconnected clk did s) = filter (\<lambda>e. ne_device_id e \<noteq> did) (history s)"
  "dedupe (notification_disconnected clk did s) = hm_retain (\<lambda>k v. fst k \<noteq> did) (dedupe s)"
  "dedupe_shadow (notification_disconnected clk did s) =
     hm_retain (\<lambda>k e. clk 1 < sh_expires e) (dedupe_shadow s) ++
       (\<lambda>k. if fst k = did then map_option (shadow_of (clk 0)) (dedupe s k) else None)"
  "desktop (notification_disconnected clk did s) = desktop s"
  "icon_lru (notification_disconnected clk did s) = hm_remove did (icon_lru s)"
  unfolding notification_disconnected_def Let_def
  by (simp_all add: boardD [OF drop_icons_frame(1)] drop_icons_frame(2))

lemma disconnected_ok: "notif_ok s \<Longrightarrow> notif_ok (notification_disconnected clk did s)"
  unfolding notif_ok_def disconnected_state
  by (rule history_ok_filter) (auto simp: entry_key_def hm_retain_def split: option.splits if_splits)

inductive notif_step ::
    "externals \<Rightarrow> (string \<Rightarrow> string \<Rightarrow> string \<Rightarrow> u64) \<Rightarrow> 'z notif_daemon_scheme \<Rightarrow> 'z notif_daemon_scheme \<Rightarrow> bool"
  for E hash where
  notif_packet: "notif_step E hash s (snd (notification_handle E hash V did pkt s))"
| notif_gone: "notif_step E hash s (notification_disconnected clk did s)"
| notif_dismissed: "notif_step E hash s (snd (dismiss did nid s))"

interpretation notif: machine "notif_step E hash" notif_ok
proof
  fix s t :: "'a notif_daemon_scheme"
  assume "notif_step E hash s t" "notif_ok s"
  then show "notif_ok t" by cases (simp_all add: notification_handle_ok disconnected_ok dismiss_ok)
qed

section \<open>Shadows\<close>

text \<open>A key's shadow is not touched by what concerns other devices, as long as it has not expired.\<close>

definition resting :: "notif_key \<Rightarrow> shadow_entry \<Rightarrow> 'z notif_daemon_scheme \<Rightarrow> bool" where
  "resting k e s \<longleftrightarrow> dedupe s k = None \<and> dedupe_shadow s k = Some e"

lemma resting_board: "board t = board s \<Longrightarrow> resting k e s \<Longrightarrow> resting k e t"
  using boardD [of t s] by (simp add: resting_def)

lemma resting_push: "resting k e s \<Longrightarrow> resting k e (push_entry x s)"
  by (simp add: resting_def push_entry_state push_entry_def evict_history_def forget_entry_def Let_def fold_hm_remove)

lemma resting_posted:
  assumes "resting k e s" and "fst k \<noteq> did"
  shows "resting k e (handle_posted hash V did b ih icon s)"
proof -
  let ?nid = "or_else '''' (nb_id b)"
  let ?sg = "hash (or_else ''unknown'' (nb_app_name b)) (or_else '''' (nb_title b)) (or_else '''' (nb_text b))"
  obtain a s1 where t: "(if ?nid = [] then (Post, s) else dedupe_track (nv_now V) did ?nid ?sg s) = (a, s1)" by fastforce
  have k: "k \<noteq> (did, ?nid)" using assms(2) by auto
  have "resting k e s1"
    using t assms(1) tracked_other [OF k, of "nv_now V" ?sg s] by (cases "?nid = []") (auto simp: resting_def)
  then have "resting k e (show_popup V did b icon a s1)" by (simp add: resting_def show_popup_other [OF k])
  then have "resting k e (notif_broadcast ev (show_popup V did b icon a s1))" for ev by (simp add: resting_def)
  with t show ?thesis by (simp add: handle_posted_def Let_def resting_push)
qed

lemma resting_taken: "resting k e s \<Longrightarrow> fst k \<noteq> did \<Longrightarrow> resting k e (snd (dedupe_take did nid (forget_entry did nid s)))"
  by (auto simp: resting_def dedupe_take_def forget_entry_def hm_remove_apply)

lemma resting_cancel: "resting k e s \<Longrightarrow> fst k \<noteq> did \<Longrightarrow> resting k e (handle_cancel did b s)"
proof -
  assume r: "resting k e s" "fst k \<noteq> did"
  obtain x s1 where t: "dedupe_take did (or_else '''' (nb_id b)) (forget_entry did (or_else '''' (nb_id b)) s) = (x, s1)" by fastforce
  with resting_taken [OF r, of "or_else '''' (nb_id b)"] have "resting k e s1" by simp
  with t show ?thesis
    by (simp add: handle_cancel_def Let_def resting_def close_desktop_notification_def split: option.splits)
qed

lemma resting_handle:
  assumes "resting k e s" and "fst k \<noteq> did"
  shows "resting k e (snd (notification_handle E hash V did pkt s))"
proof -
  have "resting k e s1" if "receive_icon E V did h pkt s = (r, s1)" for h r s1
    using resting_board [OF _ assms(1), of s1] board_receive_icon [of E V did h pkt s] that by simp
  with assms show ?thesis
    by (auto simp: notification_handle_def Let_def resting_cancel resting_posted split: sum.splits option.splits prod.splits)
qed

lemma resting_gone:
  assumes "resting k e s" and "fst k \<noteq> did" and "clk 1 < sh_expires e"
  shows "resting k e (notification_disconnected clk did s)"
  using assms by (simp add: resting_def disconnected_state hm_retain_def map_add_def split: option.splits)

lemma resting_dismissed: "resting k e s \<Longrightarrow> fst k \<noteq> did \<Longrightarrow> resting k e (snd (dismiss did nid s))"
  using resting_taken [of k e s did nid] by (simp add: dismiss_def Let_def resting_def)

text \<open>What happens to other devices before the time \<open>until\<close>.\<close>

inductive elsewhere ::
    "externals \<Rightarrow> (string \<Rightarrow> string \<Rightarrow> string \<Rightarrow> u64) \<Rightarrow> device_key \<Rightarrow> instant \<Rightarrow> 'z notif_daemon_scheme \<Rightarrow> 'z notif_daemon_scheme \<Rightarrow> bool"
  for E hash d until where
  other_packet: "did \<noteq> d \<Longrightarrow> elsewhere E hash d until s (snd (notification_handle E hash V did pkt s))"
| other_gone: "did \<noteq> d \<Longrightarrow> clk 1 < until \<Longrightarrow> elsewhere E hash d until s (notification_disconnected clk did s)"
| other_dismissed: "did \<noteq> d \<Longrightarrow> elsewhere E hash d until s (snd (dismiss did nid s))"

interpretation elsewhere: machine "elsewhere E hash d until" "\<lambda>s. fst k = d \<and> sh_expires e = until \<longrightarrow> resting k e s"
proof
  fix s t :: "'a notif_daemon_scheme"
  assume "elsewhere E hash d until s t" "fst k = d \<and> sh_expires e = until \<longrightarrow> resting k e s"
  then show "fst k = d \<and> sh_expires e = until \<longrightarrow> resting k e t"
    by cases (auto intro: resting_handle resting_gone resting_dismissed)
qed

lemma distinct_key_once: "distinct (map f xs) \<Longrightarrow> length (filter (\<lambda>x. f x = y) xs) \<le> 1"
proof (induction xs)
  case (Cons x xs)
  have "filter (\<lambda>z. f z = y) xs = []" if "f x = y"
    using Cons.prems that by (auto simp: filter_empty_conv image_iff)
  with Cons show ?case by simp
qed simp

section \<open>What the plugin guarantees\<close>

text \<open>Property C31.
  The history and the table of popups stay bounded and in step: whatever the devices send, cancel and
  dismiss, and however they come and go, at most 100 notifications are kept, at most one for each
  device and notification id, none of them a cancellation, and every popup that is remembered as
  posted belongs to a notification that is still in the history.\<close>

theorem notification_history_bounded:
  assumes "history start = []" and "dedupe start = Map.empty" and "reach (notif_step E hash) start s"
  shows "length (history s) \<le> 100
    \<and> (\<forall>d nid. nid \<noteq> [] \<longrightarrow> length (filter (same_notification d nid) (history s)) \<le> 1)
    \<and> (\<forall>e \<in> set (history s). \<not> ne_is_cancel e)
    \<and> (\<forall>d nid. dedupe s (d, nid) \<noteq> None \<longrightarrow> nid \<noteq> [] \<and> (\<exists>e \<in> set (history s). same_notification d nid e))"
proof -
  have "notif_ok start" using assms(1,2) by (simp add: notif_ok_def history_ok_def named_def)
  then have ok: "history_ok (history s) (dedupe s)" using notif.reach_inv [OF assms(3)] by (simp add: notif_ok_def)
  have "length (filter (same_notification d nid) (history s)) \<le> 1" if "nid \<noteq> []" for d nid
  proof -
    have "filter (same_notification d nid) (history s) = filter (\<lambda>e. entry_key e = (d, nid)) (named (history s))"
      using that by (auto simp: named_def same_notification_def entry_key_def intro!: filter_cong)
    moreover have "distinct (map entry_key (named (history s)))" using ok by (simp add: history_ok_def)
    ultimately show ?thesis using distinct_key_once [of entry_key] by simp
  qed
  moreover have "nid \<noteq> [] \<and> (\<exists>e \<in> set (history s). same_notification d nid e)" if "dedupe s (d, nid) \<noteq> None" for d nid
    using ok that by (auto simp: history_ok_def named_def same_notification_def entry_key_def)
  ultimately show ?thesis using ok by (auto simp: history_ok_def MAX_NOTIFICATION_HISTORY_def list_all_iff)
qed


text \<open>Text from a phone cannot carry markup to the desktop: the escaped body has no angle bracket and no
  quote, and reading its entities back gives exactly the text that was sent.\<close>

theorem escape_markup_neutral:
  "set (escape_markup s) \<inter> {CHR ''<'', CHR ''>'', CHR 0x22} = {} \<and> unescape_markup (escape_markup s) = s"
proof
  show "set (escape_markup s) \<inter> {CHR ''<'', CHR ''>'', CHR 0x22} = {}"
    unfolding escape_markup_one_pass by (induction s) (auto simp: escape_char_def)
  show "unescape_markup (escape_markup s) = s"
    unfolding escape_markup_one_pass by (induction s) (simp_all add: unescape_escape_char)
qed

section \<open>Where icons go\<close>

definition icon_name :: "string \<Rightarrow> bool" where
  "icon_name h \<longleftrightarrow> valid_icon_hash h \<and> map ascii_lower h = h"

definition icon_files :: "string \<Rightarrow> device_key \<Rightarrow> path set" where
  "icon_files root did = {(root @ ''/'' @ did, h) | h. icon_name h}"

definition icons_ok :: "'z notif_daemon_scheme \<Rightarrow> bool" where
  "icons_ok s \<longleftrightarrow> (\<forall>did q. icon_lru s did = Some q \<longrightarrow>
     valid_device_component did \<and> list_all icon_name q \<and> length q \<le> max_icons_per_device s)"

definition icon_part where
  "icon_part s = (sh_disk s, icon_root s, icon_lru s, max_icons_per_device s)"

lemma icon_partD:
  assumes "icon_part t = icon_part s"
  shows "sh_disk t = sh_disk s" "icon_root t = icon_root s" "icon_lru t = icon_lru s" "max_icons_per_device t = max_icons_per_device s"
  using assms by (simp_all add: icon_part_def)

lemma icons_ok_part: "icon_part t = icon_part s \<Longrightarrow> icons_ok t = icons_ok s"
  using icon_partD [of t s] by (simp add: icons_ok_def)

lemma icon_part_tables [simp]:
  "icon_part (snd (dedupe_track now did nid sg s)) = icon_part s" "icon_part (snd (dedupe_take did nid s)) = icon_part s"
  "icon_part (dedupe_record_shown did nid r s) = icon_part s" "icon_part (notif_broadcast ev s) = icon_part s"
  "icon_part (forget_entry did nid s) = icon_part s" "icon_part (push_entry x s) = icon_part s"
  "icon_part (close_desktop_notification r s) = icon_part s" "icon_part (s\<lparr>desktop := ds\<rparr>) = icon_part s"
  by (simp_all add: icon_part_def dedupe_track_def dedupe_take_def dedupe_record_shown_def notif_broadcast_def forget_entry_def
      push_entry_def evict_history_def close_desktop_notification_def Let_def split: option.splits)

lemma icon_part_posted [simp]: "icon_part (handle_posted hash V did b ih icon s) = icon_part s"
proof -
  have show_popup: "icon_part (show_popup V did b icon a s) = icon_part s" for a and s :: "'a notif_daemon_scheme"
    by (simp add: show_popup_def Let_def split: option.splits)
  let ?nid = "or_else '''' (nb_id b)"
  let ?sg = "hash (or_else ''unknown'' (nb_app_name b)) (or_else '''' (nb_title b)) (or_else '''' (nb_text b))"
  obtain a s1 where t: "(if ?nid = [] then (Post, s) else dedupe_track (nv_now V) did ?nid ?sg s) = (a, s1)" by fastforce
  then have "icon_part s1 = icon_part s"
    using icon_part_tables(1) [of "nv_now V" did ?nid ?sg s] by (cases "?nid = []") auto
  with t show ?thesis by (simp add: handle_posted_def Let_def show_popup)
qed

lemma icon_part_cancel [simp]: "icon_part (handle_cancel did b s) = icon_part s"
proof -
  let ?nid = "or_else '''' (nb_id b)"
  obtain r s1 where t: "dedupe_take did ?nid (forget_entry did ?nid s) = (r, s1)" by fastforce
  then have "icon_part s1 = icon_part s"
    using icon_part_tables(2) [of did ?nid "forget_entry did ?nid s"] by simp
  with t show ?thesis by (simp add: handle_cancel_def Let_def split: option.splits)
qed

lemma fold_discard_other: "q \<notin> set ps \<Longrightarrow> files (fold discard ps d) q = files d q"
  by (induction ps arbitrary: d) (simp_all add: discard_files(1))

lemma ascii_lower_idem: "ascii_lower (ascii_lower c) = ascii_lower c"
proof -
  have "of_char c < (256 :: nat)" by simp
  then show ?thesis by (auto simp: ascii_lower_def Let_def)
qed

lemma lower_hexdigit: "ascii_hexdigit c \<Longrightarrow> ascii_hexdigit (ascii_lower c)"
  by (auto simp: ascii_hexdigit_def ascii_lower_def Let_def)

lemma icon_name_lower: "valid_icon_hash h \<Longrightarrow> icon_name (map ascii_lower h)"
  by (auto simp: icon_name_def valid_icon_hash_def list_all_iff ascii_lower_idem lower_hexdigit)

lemma icon_path_in: "icon_name h \<Longrightarrow> icon_path_unchecked root did h \<in> icon_files root did"
  by (auto simp: icon_path_unchecked_def icon_files_def icon_name_def)

lemma record_icon_icons:
  assumes "icons_ok s" and "valid_device_component did" and "valid_icon_hash h"
  shows "icons_ok (record_icon did h s)" and "icon_root (record_icon did h s) = icon_root s"
    and "max_icons_per_device (record_icon did h s) = max_icons_per_device s"
    and "q \<notin> icon_files (icon_root s) did \<Longrightarrow> files (sh_disk (record_icon did h s)) q = files (sh_disk s) q"
proof -
  define queue where "queue = filter (\<lambda>e. e \<noteq> map ascii_lower h) (case icon_lru s did of Some q \<Rightarrow> q | None \<Rightarrow> []) @ [map ascii_lower h]"
  define excess where "excess = length queue - max_icons_per_device s"
  have r: "record_icon did h s = remove_icons (map (icon_path_unchecked (icon_root s) did) (take excess queue))
      (s\<lparr>icon_lru := (icon_lru s)(did \<mapsto> drop excess queue)\<rparr>)"
    by (simp add: record_icon_def queue_def excess_def Let_def)
  have names: "\<forall>x \<in> set queue. icon_name x"
    using assms(1) icon_name_lower [OF assms(3)] by (cases "icon_lru s did") (auto simp: queue_def icons_ok_def list_all_iff)
  then have "list_all icon_name (drop excess queue)" by (auto simp: list_all_iff dest: in_set_dropD)
  moreover have "length (drop excess queue) \<le> max_icons_per_device s" by (simp add: excess_def)
  ultimately show "icons_ok (record_icon did h s)"
    using assms(1,2) by (simp add: r icons_ok_def remove_icons_def)
  show "icon_root (record_icon did h s) = icon_root s" "max_icons_per_device (record_icon did h s) = max_icons_per_device s"
    by (simp_all add: r remove_icons_def)
  show "files (sh_disk (record_icon did h s)) q = files (sh_disk s) q" if q: "q \<notin> icon_files (icon_root s) did"
  proof -
    have "q \<notin> set (map (icon_path_unchecked (icon_root s) did) (take excess queue))"
    proof
      assume "q \<in> set (map (icon_path_unchecked (icon_root s) did) (take excess queue))"
      then obtain x where "x \<in> set (take excess queue)" "q = icon_path_unchecked (icon_root s) did x" by auto
      with names icon_path_in [of x "icon_root s" did] q show False by (auto dest: in_set_takeD)
    qed
    then show ?thesis by (simp add: r remove_icons_def fold_discard_other)
  qed
qed

lemma icon_transfer_other:
  assumes "icon_transfer E V cm did info sz dest d = (r, d')" and "q \<noteq> dest"
  shows "files d' q = files d q"
proof -
  have cr: "files d2 q = files d1 q" if "create_destination dest d1 = (x, d2)" for x d1 d2
  proof -
    obtain c d' where new: "fs_create_new dest d1 = (c, d')" by fastforce
    with that have "d2 = d'" by (auto simp: create_destination_def split: created.splits)
    with fs_create_new_cases(1,2) [OF new] assms(2) show ?thesis by (cases "c = Created") auto
  qed
  have co: "files d3 q = files d2 q" if "connect_or_discard E R T net info dest d2 = (x, d3)" for R T net x d2 d3
    using that assms(2) by (auto simp: connect_or_discard_def discard_files(1) split: prod.splits sum.splits
        dest!: connect_receiver_files)
  note into = exact.recv_other [OF _ assms(2)]
  show ?thesis
    using assms(1) unfolding icon_transfer_def receive_file_def sbind_def
    by (auto split: prod.splits sum.splits dest!: fs_dir_frame(1) cr co into)
qed

lemma receive_icon_cases:
  obtains (same) "snd (receive_icon E V did h pkt s) = s"
    | (known) "valid_device_component did" "valid_icon_hash h" "snd (receive_icon E V did h pkt s) = record_icon did h s"
    | (got) cm info sz x t where "valid_device_component did" "valid_icon_hash h"
        "on_disk (icon_transfer E V cm did info sz (icon_path_unchecked (icon_root s) did h)) s = (x, t)"
        "snd (receive_icon E V did h pkt s) = t \<or> snd (receive_icon E V did h pkt s) = record_icon did h t"
proof (cases "valid_device_component did \<and> valid_icon_hash h")
  case False
  then show ?thesis by (intro same) (simp add: receive_icon_def)
next
  case True
  let ?path = "icon_path_unchecked (icon_root s) did h"
  show ?thesis
  proof (cases "is_regular_icon ?path (sh_disk s)")
    case reg: True
    show ?thesis by (rule known) (use True reg in \<open>simp_all add: receive_icon_def Let_def\<close>)
  next
    case new: False
    show ?thesis
    proof (cases "\<exists>sz info cm. packet_payload_size pkt = Some (Known sz) \<and> sz \<noteq> 0 \<and> sz \<le> MAX_NOTIFICATION_ICON_BYTES
        \<and> icon_transfer_info did pkt s = Some info \<and> icon_certs s = Some cm \<and> knows_connections s")
      case False
      with new show ?thesis
        by (intro same) (auto simp: receive_icon_def Let_def not_less split: option.splits payload_size.splits)
    next
      case go: True
      then obtain sz info cm where go: "packet_payload_size pkt = Some (Known sz)" "sz \<noteq> 0" "sz \<le> MAX_NOTIFICATION_ICON_BYTES"
        "icon_transfer_info did pkt s = Some info" "icon_certs s = Some cm" "knows_connections s" by blast
      obtain x t where run: "on_disk (icon_transfer E V cm did info sz ?path) s = (x, t)" by fastforce
      have ok: "\<not> (\<not> valid_device_component did \<or> \<not> valid_icon_hash h)" "\<not> (sz = 0 \<or> MAX_NOTIFICATION_ICON_BYTES < sz)"
        "\<not> \<not> knows_connections s" using True go by auto
      have "receive_icon E V did h pkt s = (case x of Inr _ \<Rightarrow> (Some ?path, record_icon did h t) | Inl _ \<Rightarrow> (None, t))"
        unfolding receive_icon_def Let_def go(1,4,5) option.case payload_size.case prod.case run
        by (simp only: ok new if_False)
      then have "snd (receive_icon E V did h pkt s) = t \<or> snd (receive_icon E V did h pkt s) = record_icon did h t"
        by (cases x) simp_all
      with True run show ?thesis by (intro got) blast+
    qed
  qed
qed

lemma receive_icon_icons:
  assumes "icons_ok s"
  shows "icons_ok (snd (receive_icon E V did h pkt s)) \<and> icon_root (snd (receive_icon E V did h pkt s)) = icon_root s
    \<and> max_icons_per_device (snd (receive_icon E V did h pkt s)) = max_icons_per_device s
    \<and> (q \<notin> icon_files (icon_root s) did \<or> \<not> valid_device_component did
        \<longrightarrow> files (sh_disk (snd (receive_icon E V did h pkt s))) q = files (sh_disk s) q)"
    (is "?P (snd (receive_icon E V did h pkt s))")
proof -
  have rec: "?P (record_icon did h t)" if "?P t" "valid_device_component did" "valid_icon_hash h" for t :: "'a notif_daemon_scheme"
    using that record_icon_icons(1,2,3) [of t did h] record_icon_icons(4) [of t did h q] by auto
  have start: "?P s" using assms by simp
  show ?thesis
  proof (cases rule: receive_icon_cases [of E V did h pkt s])
    case same
    show ?thesis unfolding same by (rule start)
  next
    case known
    have "?P (record_icon did h s)" by (rule rec [OF start known(1,2)])
    then show ?thesis unfolding known(3) .
  next
    case (got cm info sz x t)
    let ?path = "icon_path_unchecked (icon_root s) did h"
    obtain d where d: "icon_transfer E V cm did info sz ?path (sh_disk s) = (x, d)" "t = s\<lparr>sh_disk := d\<rparr>"
      using got(3) by (auto simp: on_disk_def split: prod.splits)
    have "?path \<in> icon_files (icon_root s) did"
      using icon_name_lower [OF got(2)] by (auto simp: icon_path_unchecked_def icon_files_def)
    then have "files d q = files (sh_disk s) q" if "q \<notin> icon_files (icon_root s) did"
      using icon_transfer_other [OF d(1)] that by metis
    then have "?P t" using assms d(2) got(1) by (auto simp: icons_ok_def)
    from got(4) show ?thesis
    proof
      assume eq: "snd (receive_icon E V did h pkt s) = t"
      show ?thesis unfolding eq by (rule \<open>?P t\<close>)
    next
      assume eq: "snd (receive_icon E V did h pkt s) = record_icon did h t"
      show ?thesis unfolding eq by (rule rec [OF \<open>?P t\<close> got(1,2)])
    qed
  qed
qed

lemma notification_handle_cases:
  obtains (same) "snd (notification_handle E hash V did pkt s) = s"
    | (handled) b t ih icon where "t = s \<or> (\<exists>h r. receive_icon E V did h pkt s = (r, t))"
        "snd (notification_handle E hash V did pkt s) = handle_cancel did b t
         \<or> snd (notification_handle E hash V did pkt s) = handle_posted hash V did b ih icon t"
proof (cases "packet_type pkt = ''kdeconnect.notification'' \<and> is_ok (dec_notification_body (packet_body pkt))")
  case False
  then show ?thesis
    by (intro same) (cases "dec_notification_body (packet_body pkt)"; simp add: notification_handle_def)
next
  case True
  then obtain b where b: "dec_notification_body (packet_body pkt) = Inr b"
    by (cases "dec_notification_body (packet_body pkt)") auto
  define ih where "ih = (case nb_payload_hash b of Some h \<Rightarrow> if valid_icon_hash h then Some (map ascii_lower h) else None | None \<Rightarrow> None)"
  obtain icon t where t: "(case ih of Some h \<Rightarrow> receive_icon E V did h pkt s | None \<Rightarrow> (None, s)) = (icon, t)" by fastforce
  have "snd (notification_handle E hash V did pkt s) =
      (if or_else False (nb_is_cancel b) then handle_cancel did b t else handle_posted hash V did b ih icon t)"
    using True b t by (simp add: notification_handle_def Let_def ih_def [symmetric])
  moreover have "t = s \<or> (\<exists>h r. receive_icon E V did h pkt s = (r, t))" using t by (cases ih) auto
  ultimately show ?thesis by (intro handled [of t b ih icon]) (simp_all split: if_splits)
qed

lemma handle_icons:
  assumes "icons_ok s"
  shows "icons_ok (snd (notification_handle E hash V did pkt s)) \<and> icon_root (snd (notification_handle E hash V did pkt s)) = icon_root s
    \<and> max_icons_per_device (snd (notification_handle E hash V did pkt s)) = max_icons_per_device s
    \<and> (q \<notin> icon_files (icon_root s) did \<or> \<not> valid_device_component did
        \<longrightarrow> files (sh_disk (snd (notification_handle E hash V did pkt s))) q = files (sh_disk s) q)"
    (is "?P (snd (notification_handle E hash V did pkt s))")
proof -
  have keep: "?P u" if "icon_part u = icon_part t" "?P t" for t u :: "'a notif_daemon_scheme"
    using that icon_partD [OF that(1)] icons_ok_part [OF that(1)] by simp
  have "?P t" if "receive_icon E V did h pkt s = (r, t)" for h r t
    using receive_icon_icons [OF assms, of E V did h pkt q] that by simp
  moreover have "?P s" using assms by simp
  ultimately have both: "?P (handle_cancel did b t)" "?P (handle_posted hash V did b ih icon t)"
    if "t = s \<or> (\<exists>h r. receive_icon E V did h pkt s = (r, t))" for b t ih icon
    using that keep [OF icon_part_cancel] keep [OF icon_part_posted] by blast+
  show ?thesis
  proof (cases rule: notification_handle_cases [of E hash V did pkt s])
    case same
    with assms show ?thesis by simp
  next
    case (handled b t ih icon)
    from handled(2) show ?thesis
    proof
      assume eq: "snd (notification_handle E hash V did pkt s) = handle_cancel did b t"
      show ?thesis unfolding eq by (rule both(1) [OF handled(1)])
    next
      assume eq: "snd (notification_handle E hash V did pkt s) = handle_posted hash V did b ih icon t"
      show ?thesis unfolding eq by (rule both(2) [OF handled(1)])
    qed
  qed
qed

lemma gone_icons:
  assumes "icons_ok s"
  shows "icons_ok (notification_disconnected clk did s) \<and> icon_root (notification_disconnected clk did s) = icon_root s
    \<and> max_icons_per_device (notification_disconnected clk did s) = max_icons_per_device s
    \<and> (q \<notin> icon_files (icon_root s) did \<or> \<not> valid_device_component did
        \<longrightarrow> files (sh_disk (notification_disconnected clk did s)) q = files (sh_disk s) q)"
proof -
  have one: "icon_root (drop_icon did h t) = icon_root t \<and> max_icons_per_device (drop_icon did h t) = max_icons_per_device t
      \<and> (q \<notin> icon_files (icon_root t) did \<or> \<not> valid_device_component did \<longrightarrow> files (sh_disk (drop_icon did h t)) q = files (sh_disk t) q)"
    for h and t :: "'a notif_daemon_scheme"
  proof -
    have "icon_path_unchecked (icon_root t) did h \<in> icon_files (icon_root t) did" if "valid_icon_hash h"
      using icon_name_lower [OF that] by (auto simp: icon_path_unchecked_def icon_files_def)
    then have "files (discard (icon_path_unchecked (icon_root t) did h) d) q = files d q"
      if "valid_icon_hash h" "q \<notin> icon_files (icon_root t) did" for d
      using that by (metis discard_files(1))
    then show ?thesis
      by (auto simp: drop_icon_def icon_path_def remove_icons_def Let_def split: option.splits if_splits)
  qed
  have all: "icon_root (fold (drop_icon did) hs t) = icon_root t \<and> max_icons_per_device (fold (drop_icon did) hs t) = max_icons_per_device t
      \<and> (q \<notin> icon_files (icon_root t) did \<or> \<not> valid_device_component did \<longrightarrow> files (sh_disk (fold (drop_icon did) hs t)) q = files (sh_disk t) q)"
    for hs and t :: "'a notif_daemon_scheme"
    by (induction hs arbitrary: t) (simp_all add: one)
  show ?thesis
    unfolding notification_disconnected_def Let_def icons_ok_def
    using assms by (auto simp: all drop_icons_frame(2) icons_ok_def)
qed

lemma dismiss_icons: "icon_part (snd (dismiss did nid s)) = icon_part s"
  by (simp add: dismiss_def Let_def)

definition icons_inv :: "string \<Rightarrow> nat \<Rightarrow> 'z notif_daemon_scheme \<Rightarrow> bool" where
  "icons_inv root n s \<longleftrightarrow> icons_ok s \<and> icon_root s = root \<and> max_icons_per_device s = n"

interpretation icons: machine "notif_step E hash" "icons_inv root n"
proof
  fix s t :: "'a notif_daemon_scheme"
  assume "notif_step E hash s t" and inv: "icons_inv root n s"
  then show "icons_inv root n t"
  proof cases
    case (notif_packet V did pkt)
    then show ?thesis using inv handle_icons [of s E hash V did pkt] by (simp add: icons_inv_def)
  next
    case (notif_gone clk did)
    then show ?thesis using inv gone_icons [of s clk did] by (simp add: icons_inv_def)
  next
    case (notif_dismissed did nid)
    then show ?thesis using inv icon_partD [OF dismiss_icons, of did nid s] icons_ok_part [OF dismiss_icons, of did nid s]
      by (simp add: icons_inv_def)
  qed
qed

lemma load_icons_inv: "icons_inv root n s \<Longrightarrow> icons_inv root n (load_existing_icons listing s)"
proof -
  have one: "icons_inv root n (load_device_icons x s)" if inv: "icons_inv root n s" for x and s :: "'a notif_daemon_scheme"
  proof -
    obtain did entries where x: "x = (did, entries)" by force
    define icons where "icons = sort_key fst (map (\<lambda>(t, h). (t, map ascii_lower h)) (filter (\<lambda>e. valid_icon_hash (snd e)) entries))"
    define excess where "excess = length icons - max_icons_per_device s"
    have "\<forall>e \<in> set icons. icon_name (snd e)" by (auto simp: icons_def icon_name_lower)
    then have names: "list_all icon_name (map snd (drop excess icons))" by (auto simp: list_all_iff dest: in_set_dropD)
    have "length (map snd (drop excess icons)) \<le> max_icons_per_device s" by (simp add: excess_def)
    with names inv show ?thesis
      by (auto simp: x load_device_icons_def Let_def icons_def [symmetric] excess_def [symmetric] remove_icons_def
          icons_inv_def icons_ok_def)
  qed
  show "icons_inv root n s \<Longrightarrow> icons_inv root n (load_existing_icons listing s)"
    unfolding load_existing_icons_def by (induction listing arbitrary: s) (simp_all add: one)
qed

lemma storage_icons_inv:
  "icons_inv (data_dir @ ''/'' @ ICON_DIR_NAME) MAX_ICONS_PER_DEVICE (notification_storage data_dir cm listing s)"
  unfolding notification_storage_def by (rule load_icons_inv) (simp add: icons_inv_def icons_ok_def)


text \<open>Nothing of a device that is gone can be read back.\<close>

theorem notification_gone_forgotten:
  "get_history (Some d) n (notification_disconnected clk d s) = [] \<and> reply_handle d nid (notification_disconnected clk d s) = None
   \<and> \<not> has_action d nid a (notification_disconnected clk d s) \<and> dedupe (notification_disconnected clk d s) (d, nid) = None
   \<and> icon_lru (notification_disconnected clk d s) d = None"
  by (auto simp: get_history_def reply_handle_def has_action_def disconnected_state filter_empty_conv find_None_iff
      same_notification_def list_ex_iff hm_retain_def bind_eq_None_conv split: option.splits)

section \<open>At work\<close>

definition demo_notif :: notif_daemon where
  "demo_notif = daemon.extend demo_daemon
     (notif_daemon.fields True [] Map.empty Map.empty ''icons'' Map.empty 64 None False [] [])"

lemma demo_notif_simps [simp]:
  "history demo_notif = []" "dedupe demo_notif = Map.empty" "desktop demo_notif = []" "icon_lru demo_notif = Map.empty"
  "dedupe_shadow demo_notif = Map.empty" "show_desktop demo_notif"
  by (simp_all add: demo_notif_def daemon.extend_def notif_daemon.fields_def)

definition demo_notif_env :: notif_env where
  "demo_notif_env = \<lparr>nv_display = True, nv_shown = Some 9, nv_rustls = demo_rustls, nv_net = (\<lambda>_. DialErr), nv_clk = (\<lambda>n. 0),
     nv_writes = [], nv_now = 10, nv_utc = 10\<rparr>"

definition demo_notification :: packet where
  "demo_notification = new_packet 1 ''kdeconnect.notification'' (JObj [(''id'', JStr ''7''), (''text'', JStr ''<b>hi</b>'')])"

definition demo_hash :: "string \<Rightarrow> string \<Rightarrow> string \<Rightarrow> u64" where
  "demo_hash a b c = of_nat (length a + length b + length c)"

definition demo_body :: notification_body where
  "demo_body = \<lparr>nb_id = Some ''7'', nb_app_name = None, nb_title = None, nb_text = Some ''<b>hi</b>'', nb_ticker = None,
     nb_is_cancel = None, nb_silent = None, nb_actions = None, nb_conversation = None, nb_group_name = None,
     nb_request_reply_id = None, nb_payload_hash = None\<rparr>"

lemma demo_decoded: "dec_notification_body (packet_body demo_notification) = Inr demo_body"
  by (simp add: demo_notification_def new_packet_def dec_notification_body_def dec_struct_def optional_def demo_body_def)

lemma or_else_simps [simp]: "or_else d (Some a) = a" "or_else d None = d"
  by (simp_all add: or_else_def)

lemma demo_body_simps [simp]:
  "nb_id demo_body = Some ''7''" "nb_is_cancel demo_body = None" "nb_payload_hash demo_body = None"
  "nb_app_name demo_body = None" "nb_title demo_body = None" "nb_text demo_body = Some ''<b>hi</b>''"
  "demo_hash ''unknown'' '''' ''<b>hi</b>'' = 16"
  by (simp_all add: demo_body_def demo_hash_def)

lemma demo_type: "packet_type demo_notification = ''kdeconnect.notification''"
  by (simp add: demo_notification_def new_packet_def)

lemma demo_tracked: "dedupe_track 10 ''phone'' ''7'' 16 demo_notif
    = (Post, demo_notif\<lparr>dedupe := [(''phone'', ''7'') \<mapsto> \<lparr>de_signature = 16, de_replaces_id = 0\<rparr>]\<rparr>)"
  by (simp add: dedupe_track_def Let_def)

lemma demo_handled:
  "snd (notification_handle demo_externals demo_hash demo_notif_env ''phone'' demo_notification demo_notif)
   = handle_posted demo_hash demo_notif_env ''phone'' demo_body None None demo_notif"
  by (simp add: notification_handle_def demo_type demo_decoded)

text \<open>The first time the notification is shown, with its text escaped.\<close>

lemma demo_shown:
  "let s = snd (notification_handle demo_externals demo_hash demo_notif_env ''phone'' demo_notification demo_notif) in
   map (\<lambda>c. case c of Show p \<Rightarrow> po_body p | Close r \<Rightarrow> '''') (desktop s) = [''&lt;b&gt;hi&lt;/b&gt;'']
   \<and> dedupe s (''phone'', ''7'') = Some \<lparr>de_signature = 16, de_replaces_id = 9\<rparr> \<and> length (history s) = 1"
proof -
  define e where "e = make_entry demo_notif_env ''phone'' demo_body None None"
  define s1 where "s1 = demo_notif\<lparr>dedupe := [(''phone'', ''7'') \<mapsto> \<lparr>de_signature = 16, de_replaces_id = 0\<rparr>]\<rparr>"
  define s2 where "s2 = show_popup demo_notif_env ''phone'' demo_body None Post s1"
  have env: "nv_now demo_notif_env = 10" "nv_shown demo_notif_env = Some 9" "nv_display demo_notif_env"
    by (simp_all add: demo_notif_env_def)
  have s: "snd (notification_handle demo_externals demo_hash demo_notif_env ''phone'' demo_notification demo_notif)
      = push_entry e (notif_broadcast (make_event demo_body e) s2)"
    by (simp add: demo_handled handle_posted_def env demo_tracked e_def s1_def s2_def Let_def)
  have s2: "map (\<lambda>c. case c of Show p \<Rightarrow> po_body p | Close r \<Rightarrow> '''') (desktop s2) = [escape_markup ''<b>hi</b>'']"
    "dedupe s2 (''phone'', ''7'') = Some \<lparr>de_signature = 16, de_replaces_id = 9\<rparr>" "history s2 = []"
    by (simp_all add: s2_def s1_def show_popup_def env Let_def dedupe_record_shown_def make_popup_def)
  have "escape_markup ''<b>hi</b>'' = ''&lt;b&gt;hi&lt;/b&gt;''" by (simp add: escape_markup_one_pass escape_char_def)
  with s2 show ?thesis
    by (simp add: s Let_def push_entry_state MAX_NOTIFICATION_HISTORY_def named_def)
qed

theorem notification_history_bounded_witness:
  "let s = snd (notification_handle demo_externals demo_hash demo_notif_env ''phone'' demo_notification demo_notif) in
   length (history s) = 1 \<and> length (filter (same_notification ''phone'' ''7'') (history s)) \<le> 1"
proof -
  have "reach (notif_step demo_externals demo_hash) demo_notif
      (snd (notification_handle demo_externals demo_hash demo_notif_env ''phone'' demo_notification demo_notif))"
    by (rule reach_step, rule reach_init, rule notif_packet)
  from notification_history_bounded [OF demo_notif_simps(1,2) this] demo_shown show ?thesis
    by (simp add: Let_def)
qed



end
