(* ===== verification/Processes.thy ===== *)
theory Processes
  imports Errors Text
begin

text \<open>
  What the daemon uses of child processes, shared by the plugins that start some
  (\<open>src/plugins/runcommand.rs\<close>, \<open>src/plugins/clipboard.rs\<close>): the outcomes of reading a pipe, of
  waiting for a child, and \<open>String::from_utf8_lossy\<close>, which turns the bytes read into text.
\<close>

section \<open>Lossy decoding\<close>

text \<open>\<open>from_utf8_lossy\<close> puts one replacement character for every maximal part of a sequence that
  cannot be continued: the second byte of a three or four byte sequence is checked against
  the range its lead byte leaves, the later ones only for being continuation bytes.\<close>

definition replacement :: nat where "replacement = 65533"

definition second3 :: "nat \<Rightarrow> nat \<Rightarrow> bool" where
  "second3 a b \<longleftrightarrow> is_cont b \<and> (a = 224 \<longrightarrow> 160 \<le> b) \<and> (a = 237 \<longrightarrow> b < 160)"

definition second4 :: "nat \<Rightarrow> nat \<Rightarrow> bool" where
  "second4 a b \<longleftrightarrow> is_cont b \<and> (a = 240 \<longrightarrow> 144 \<le> b) \<and> (a = 244 \<longrightarrow> b < 144)"

definition lossy3 :: "nat \<Rightarrow> nat list \<Rightarrow> nat \<times> nat list" where
  "lossy3 a r =
     (case r of
        [] \<Rightarrow> (replacement, [])
      | b # r1 \<Rightarrow>
          if \<not> second3 a b then (replacement, r)
          else (case r1 of
                  [] \<Rightarrow> (replacement, [])
                | c # r2 \<Rightarrow> if is_cont c then ((a - 224) * 4096 + (b - 128) * 64 + (c - 128), r2) else (replacement, r1)))"

definition lossy4 :: "nat \<Rightarrow> nat list \<Rightarrow> nat \<times> nat list" where
  "lossy4 a r =
     (case r of
        [] \<Rightarrow> (replacement, [])
      | b # r1 \<Rightarrow>
          if \<not> second4 a b then (replacement, r)
          else (case r1 of
                  [] \<Rightarrow> (replacement, [])
                | c # r2 \<Rightarrow>
                    if \<not> is_cont c then (replacement, r1)
                    else (case r2 of
                            [] \<Rightarrow> (replacement, [])
                          | d # r3 \<Rightarrow> if is_cont d
                                     then ((a - 240) * 262144 + (b - 128) * 4096 + (c - 128) * 64 + (d - 128), r3)
                                     else (replacement, r2))))"

definition lossy_head :: "nat \<Rightarrow> nat list \<Rightarrow> nat \<times> nat list" where
  "lossy_head a r =
     (if a < 128 then (a, r)
      else if 194 \<le> a \<and> a < 224 then
        (case r of b # r1 \<Rightarrow> (if is_cont b then ((a - 192) * 64 + (b - 128), r1) else (replacement, r))
                 | [] \<Rightarrow> (replacement, []))
      else if 224 \<le> a \<and> a < 240 then lossy3 a r
      else if 240 \<le> a \<and> a < 245 then lossy4 a r
      else (replacement, r))"

lemma lossy_head_shrinks: "length (snd (lossy_head a r)) \<le> length r"
  by (auto simp: lossy_head_def lossy3_def lossy4_def split: list.splits)

function lossy :: "nat list \<Rightarrow> nat list" where
  "lossy [] = []"
| "lossy (a # r) = fst (lossy_head a r) # lossy (snd (lossy_head a r))"
  by pat_completeness auto
termination
  by (relation "measure length") (use lossy_head_shrinks in \<open>auto simp: le_imp_less_Suc\<close>)

definition from_utf8_lossy :: "string \<Rightarrow> string" where
  "from_utf8_lossy s = string_of (lossy (bytes_of s))"

lemma scalar_replacement [simp]: "scalar_value replacement"
  by (simp add: scalar_value_def replacement_def)

lemma utf8_enc_length: "length (utf8_enc c) \<le> 4" "c < 65536 \<Longrightarrow> length (utf8_enc c) \<le> 3"
  by (simp_all add: utf8_enc_def)

text \<open>One step yields a scalar value, and what it writes is at most three times what it consumed.\<close>

definition lossy_ok :: "nat list \<Rightarrow> nat \<times> nat list \<Rightarrow> bool" where
  "lossy_ok r h \<longleftrightarrow> scalar_value (fst h) \<and> length (utf8_enc (fst h)) + 3 * length (snd h) \<le> 3 * Suc (length r)"

lemma lossy_ok_replacement: "length r' \<le> length r \<Longrightarrow> lossy_ok r (replacement, r')"
  using utf8_enc_length(2) [of replacement] by (simp add: lossy_ok_def replacement_def scalar_value_def)

lemma lossy3_ok:
  assumes "224 \<le> a" and "a < 240"
  shows "lossy_ok r (lossy3 a r)"
proof -
  have "lossy_ok (b # c # r2) ((a - 224) * 4096 + (b - 128) * 64 + (c - 128), r2)" if "second3 a b" "is_cont c" for b c r2
  proof -
    define x y z where "x = a - 224" and "y = b - 128" and "z = c - 128"
    with assms that have xyz: "a = 224 + x" "b = 128 + y" "c = 128 + z" by (auto simp: second3_def is_cont_def)
    with assms that have "x < 16" "y < 64" "z < 64" "x = 13 \<longrightarrow> y < 32" by (auto simp: second3_def is_cont_def)
    moreover have "x < 13 \<or> x = 13 \<or> 14 \<le> x" by arith
    ultimately have "scalar_value (x * 4096 + y * 64 + z)" "x * 4096 + y * 64 + z < 65536"
      by (auto simp: scalar_value_def)
    then show ?thesis using utf8_enc_length(2) [of "x * 4096 + y * 64 + z"] xyz by (simp add: lossy_ok_def)
  qed
  then show ?thesis
    by (auto simp: lossy3_def intro: lossy_ok_replacement split: list.split)
qed

lemma lossy4_ok:
  assumes "240 \<le> a" and "a < 245"
  shows "lossy_ok r (lossy4 a r)"
proof -
  have "lossy_ok (b # c # d # r3) ((a - 240) * 262144 + (b - 128) * 4096 + (c - 128) * 64 + (d - 128), r3)"
    if "second4 a b" "is_cont c" "is_cont d" for b c d r3
  proof -
    define x y z w where "x = a - 240" and "y = b - 128" and "z = c - 128" and "w = d - 128"
    with assms that have xyz: "a = 240 + x" "b = 128 + y" "c = 128 + z" "d = 128 + w" by (auto simp: second4_def is_cont_def)
    let ?cp = "x * 262144 + y * 4096 + z * 64 + w"
    from xyz assms that have "x < 5" "y < 64" "z < 64" "w < 64" "x = 0 \<longrightarrow> 16 \<le> y" "x = 4 \<longrightarrow> y < 16"
      by (auto simp: second4_def is_cont_def)
    moreover have "x = 0 \<or> x = 4 \<or> (1 \<le> x \<and> x \<le> 3)" using \<open>x < 5\<close> by arith
    ultimately have "scalar_value ?cp" by (auto simp: scalar_value_def)
    then show ?thesis using utf8_enc_length(1) [of ?cp] xyz by (simp add: lossy_ok_def)
  qed
  then show ?thesis
    by (auto simp: lossy4_def intro: lossy_ok_replacement split: list.split)
qed

lemma lossy_head_ok: "lossy_ok r (lossy_head a r)"
proof -
  have "lossy_ok (b # r1) ((a - 192) * 64 + (b - 128), r1)" if "194 \<le> a" "a < 224" "is_cont b" for b r1
  proof -
    define x y where "x = a - 192" and "y = b - 128"
    with that have xy: "a = 192 + x" "b = 128 + y" by (auto simp: is_cont_def)
    with that have "x * 64 + y < 2048" by (auto simp: is_cont_def)
    then show ?thesis using utf8_enc_length(2) [of "x * 64 + y"] xy by (simp add: lossy_ok_def scalar_value_def)
  qed
  moreover have "lossy_ok r (a, r)" if "a < 128"
    using that by (simp add: lossy_ok_def scalar_value_def utf8_enc_def)
  ultimately show ?thesis
    using lossy3_ok [of a r] lossy4_ok [of a r]
    by (auto simp: lossy_head_def intro: lossy_ok_replacement split: list.split)
qed

lemma lossy_scalar: "list_all scalar_value (lossy bs)"
proof (induction bs rule: lossy.induct)
  case (2 a r)
  then show ?case using lossy_head_ok [of r a] by (simp add: lossy_ok_def)
qed simp

lemma lossy_length: "length (concat (map utf8_enc (lossy bs))) \<le> 3 * length bs"
proof (induction bs rule: lossy.induct)
  case (2 a r)
  then show ?case using lossy_head_ok [of r a] by (simp add: lossy_ok_def)
qed simp

text \<open>The result is text, at most three times as long as the input.\<close>

lemma from_utf8_lossy_valid: "valid_utf8 (from_utf8_lossy s)"
  by (simp add: from_utf8_lossy_def valid_utf8_string_of lossy_scalar)

lemma from_utf8_lossy_length: "length (from_utf8_lossy s) \<le> 3 * length s"
  using lossy_length [of "bytes_of s"] by (simp add: from_utf8_lossy_def string_of_def bytes_of_def)

text \<open>Text stays as it is.\<close>

lemma dec3_head: "dec3 a b c = Some cp \<Longrightarrow> lossy3 a (b # c # r) = (cp, r)"
  by (auto simp: dec3_def lossy3_def second3_def is_cont_def scalar_value_def Let_def split: if_splits)

lemma dec4_head: "dec4 a b c d = Some cp \<Longrightarrow> lossy4 a (b # c # d # r) = (cp, r)"
  by (auto simp: dec4_def lossy4_def second4_def is_cont_def scalar_value_def Let_def split: if_splits)

lemma lossy_decode: "utf8_decode bs = Some cs \<Longrightarrow> lossy bs = cs"
proof (induction bs arbitrary: cs rule: utf8_decode.induct)
  case (2 a r)
  consider (one) "a < 128" | (two) "128 \<le> a" "a < 224" | (three) "224 \<le> a" "a < 240" | (four) "240 \<le> a" by linarith
  then show ?case
  proof cases
    case one
    with "2.prems" "2.IH"(1) show ?thesis by (auto simp: lossy_head_def)
  next
    case two
    with "2.prems" obtain b r' cp cs' where
      "r = b # r'" "dec2 a b = Some cp" "utf8_decode r' = Some cs'" "cs = cp # cs'"
      by (auto split: list.splits option.splits)
    with two "2.IH"(2) [of b r' cp cs'] show ?thesis
      by (auto simp: lossy_head_def dec2_def simp del: diff_add_assoc2 Nat.add_diff_assoc split: if_splits)
  next
    case three
    with "2.prems" obtain b c r' cp cs' where
      "r = b # c # r'" "dec3 a b c = Some cp" "utf8_decode r' = Some cs'" "cs = cp # cs'"
      by (auto split: list.splits option.splits)
    with three "2.IH"(3) show ?thesis by (simp add: lossy_head_def dec3_head)
  next
    case four
    with "2.prems" obtain b c d r' cp cs' where
      "r = b # c # d # r'" "dec4 a b c d = Some cp" "utf8_decode r' = Some cs'" "cs = cp # cs'"
      by (auto split: list.splits option.splits)
    moreover from this have "a < 245" by (auto simp: dec4_def Let_def split: if_splits)
    ultimately show ?thesis using four "2.IH"(4) by (simp add: lossy_head_def dec4_head)
  qed
qed simp

lemma from_utf8_lossy_id: "valid_utf8 s \<Longrightarrow> from_utf8_lossy s = s"
proof -
  assume "valid_utf8 s"
  then have "string_of (chars_of s) = s" by (rule string_of_chars_of)
  with \<open>valid_utf8 s\<close> show ?thesis
    by (auto simp: from_utf8_lossy_def chars_of_def valid_utf8_def lossy_decode split: option.splits)
qed

lemma from_utf8_lossy_empty [simp]: "from_utf8_lossy [] = []"
  by (simp add: from_utf8_lossy_def bytes_of_def string_of_def)

section \<open>Reading a pipe\<close>

text \<open>One read of a pipe: some bytes, the end, or an error.\<close>

datatype pipe_read = Got string | PipeEnd | PipeError

text \<open>How a child ends: \<open>wait\<close> fails, or an exit status. A status has a code unless a signal
  ended the child, and is a success when the code is 0.\<close>

type_synonym exit_status = "32 word option"

definition status_success :: "exit_status \<Rightarrow> bool" where
  "status_success st \<longleftrightarrow> st = Some 0"

end
