(* ===== verification/Runcommand.thy ===== *)
theory Runcommand
  imports Device_Data Api_Access Processes
begin

text \<open>
  Commands a paired device may start on this host (\<open>src/plugins/runcommand.rs\<close>): the allowlist from
  the configuration, the list that is advertised, the execution of a requested command by the
  shell and the history of what was executed. A started command is a job of the state; the
  shell is the operating system's, so how a job ends is an argument of the step that ends it:
  it could not be started, its pipes and its exit status, or the time limit. The other side of
  the protocol, the command list a device keeps of us, is \<open>remotecommands\<close> of \<open>Device_Data\<close>.
\<close>

section \<open>Data\<close>

definition MAX_OUTPUT_SIZE :: nat where "MAX_OUTPUT_SIZE = 64 * 1024"
definition MAX_EXECUTED_RECORDS :: nat where "MAX_EXECUTED_RECORDS = 100"

record command_entry =
  ce_name :: string
  ce_command :: string

record executed_command =
  ex_device_id :: device_key
  ex_key :: string
  ex_command :: string
  ex_success :: bool
  ex_exit_code :: exit_status
  ex_stdout :: string
  ex_stderr :: string

record run_job =
  rj_device_id :: device_key
  rj_key :: string
  rj_command :: string

type_synonym commands = "string \<rightharpoonup> command_entry"

record run_daemon = daemon +
  allowed_commands :: "device_key \<rightharpoonup> commands"
  global_commands :: commands
  executed :: "executed_command list"
  execution_timeout_secs :: nat
  run_jobs :: "run_job list"
  killed_groups :: "nat list"

text \<open>What the shell does with a command: it cannot be spawned; its two pipes and the result of
  waiting for it; or it outlives the limit, with its process id unless it was waited for already.\<close>

datatype shell_run =
    SpawnFailed string
  | Collected "pipe_read list option" "pipe_read list option" "string + exit_status"
  | Overdue "nat option"

definition new_run :: "'z run_daemon_scheme \<Rightarrow> bool" where
  "new_run s \<longleftrightarrow> allowed_commands s = Map.empty \<and> global_commands s = Map.empty \<and> executed s = []
     \<and> execution_timeout_secs s = 30 \<and> run_jobs s = [] \<and> killed_groups s = []"

definition with_execution_timeout :: "nat \<Rightarrow> 'z run_daemon_scheme \<Rightarrow> 'z run_daemon_scheme" where
  "with_execution_timeout limit s = s\<lparr>execution_timeout_secs := limit\<rparr>"

section \<open>The allowlist\<close>

definition allow_command :: "device_key \<Rightarrow> string \<Rightarrow> string \<Rightarrow> string \<Rightarrow> 'z run_daemon_scheme \<Rightarrow> 'z run_daemon_scheme" where
  "allow_command did key name command s =
     (let m = (case allowed_commands s did of Some m \<Rightarrow> m | None \<Rightarrow> Map.empty)
      in s\<lparr>allowed_commands := (allowed_commands s)(did \<mapsto> m(key \<mapsto> \<lparr>ce_name = name, ce_command = command\<rparr>))\<rparr>)"

definition register_row :: "runcommand_command \<Rightarrow> commands \<Rightarrow> commands" where
  "register_row row m =
     (if rc_key row = [] \<or> rc_name row = [] \<or> rc_command row = [] then m
      else if hm_contains m (rc_key row) then m
      else m(rc_key row \<mapsto> \<lparr>ce_name = rc_name row, ce_command = rc_command row\<rparr>))"

definition register_from_config :: "runcommand_command list \<Rightarrow> 'z run_daemon_scheme \<Rightarrow> 'z run_daemon_scheme" where
  "register_from_config cfg s = s\<lparr>global_commands := fold register_row cfg Map.empty\<rparr>"

definition executed_commands :: "'z run_daemon_scheme \<Rightarrow> executed_command list" where
  "executed_commands s = executed s"

definition lookup :: "device_key \<Rightarrow> string \<Rightarrow> 'z run_daemon_scheme \<Rightarrow> command_entry option" where
  "lookup did key s =
     (case Option.bind (allowed_commands s did) (\<lambda>m. m key) of
        Some entry \<Rightarrow> Some entry
      | None \<Rightarrow> global_commands s key)"

section \<open>The advertised list\<close>

text \<open>The map that is serialized: the device's own entries, then the global ones whose key is not
  taken. \<open>iter\<close> is the order in which a hash map is iterated.\<close>

definition advertised :: "device_key \<Rightarrow> 'z run_daemon_scheme \<Rightarrow> (commands \<Rightarrow> string list) \<Rightarrow> commands" where
  "advertised did s iter =
     (let own = (case allowed_commands s did of Some m \<Rightarrow> m | None \<Rightarrow> Map.empty);
          e1 = fold (\<lambda>k e. case own k of Some v \<Rightarrow> e(k \<mapsto> v) | None \<Rightarrow> e) (iter own) Map.empty
      in fold (\<lambda>k e. case global_commands s k of
                       Some v \<Rightarrow> (if hm_contains e k then e else e(k \<mapsto> v)) | None \<Rightarrow> e) (iter (global_commands s)) e1)"

definition entry_json :: "command_entry \<Rightarrow> json" where
  "entry_json c = JObj [(''name'', JStr (ce_name c)), (''command'', JStr (ce_command c))]"

definition command_list_json :: "externals \<Rightarrow> (commands \<Rightarrow> string list) \<Rightarrow> device_key \<Rightarrow> 'z run_daemon_scheme \<Rightarrow> string" where
  "command_list_json E iter did s =
     (let entries = advertised did s iter
      in if entries = Map.empty then ''{}''
         else json_print E (JObj (List.map_filter (\<lambda>k. map_option (\<lambda>c. (k, entry_json c)) (entries k)) (iter entries))))"

definition command_list_packet ::
    "externals \<Rightarrow> (commands \<Rightarrow> string list) \<Rightarrow> i64 \<Rightarrow> device_key \<Rightarrow> 'z run_daemon_scheme \<Rightarrow> packet" where
  "command_list_packet E iter pid did s =
     new_packet pid ''kdeconnect.runcommand''
       (JObj [(''commandList'', JStr (command_list_json E iter did s)), (''canAddCommand'', JBool False)])"

section \<open>Execution\<close>

text \<open>A pipe is drained to its end, to an error or to an empty read; only the first bytes are kept.\<close>

fun read_capped_from :: "string \<Rightarrow> pipe_read list \<Rightarrow> string" where
  "read_capped_from buf [] = buf"
| "read_capped_from buf (PipeEnd # rs) = buf"
| "read_capped_from buf (PipeError # rs) = buf"
| "read_capped_from buf (Got chunk # rs) =
     (if chunk = [] then buf
      else (let room = MAX_OUTPUT_SIZE - length buf
            in read_capped_from (if 0 < room then buf @ take (min (length chunk) room) chunk else buf) rs))"

definition read_capped :: "pipe_read list option \<Rightarrow> string" where
  "read_capped pipe = (case pipe of None \<Rightarrow> [] | Some rs \<Rightarrow> read_capped_from [] rs)"

definition failed_command :: "run_job \<Rightarrow> string \<Rightarrow> executed_command" where
  "failed_command j msg = \<lparr>ex_device_id = rj_device_id j, ex_key = rj_key j, ex_command = rj_command j, ex_success = False,
     ex_exit_code = None, ex_stdout = [], ex_stderr = msg\<rparr>"

definition execute_command :: "run_job \<Rightarrow> shell_run \<Rightarrow> 'z run_daemon_scheme \<Rightarrow> executed_command \<times> 'z run_daemon_scheme" where
  "execute_command j run s =
     (case run of
        SpawnFailed e \<Rightarrow> (failed_command j e, s)
      | Collected out err (Inr status) \<Rightarrow>
          (\<lparr>ex_device_id = rj_device_id j, ex_key = rj_key j, ex_command = rj_command j, ex_success = status_success status,
            ex_exit_code = status, ex_stdout = from_utf8_lossy (read_capped out),
            ex_stderr = from_utf8_lossy (read_capped err)\<rparr>, s)
      | Collected out err (Inl e) \<Rightarrow> (failed_command j e, s)
      | Overdue pid \<Rightarrow>
          (failed_command j (''Command timed out after '' @ show_nat (execution_timeout_secs s) @ '' seconds''),
           case pid of Some p \<Rightarrow> s\<lparr>killed_groups := killed_groups s @ [p]\<rparr> | None \<Rightarrow> s))"

text \<open>The task of the \<open>n\<close>-th job ends: its record is kept, the oldest one dropped at the limit.\<close>

definition finish_command :: "nat \<Rightarrow> shell_run \<Rightarrow> 'z run_daemon_scheme \<Rightarrow> 'z run_daemon_scheme" where
  "finish_command n run s =
     (if n < length (run_jobs s) then
        (let (result, s1) = execute_command (run_jobs s ! n) run s;
             kept = (if MAX_EXECUTED_RECORDS \<le> length (executed s1) then drop 1 (executed s1) else executed s1)
         in s1\<lparr>run_jobs := take n (run_jobs s1) @ drop (Suc n) (run_jobs s1), executed := kept @ [result]\<rparr>)
      else s)"

section \<open>The plugin\<close>

definition runcommand_connected ::
    "externals \<Rightarrow> (commands \<Rightarrow> string list) \<Rightarrow> i64 \<Rightarrow> device_key \<Rightarrow> 'z run_daemon_scheme \<Rightarrow> packet list" where
  "runcommand_connected E iter pid did s = [command_list_packet E iter pid did s]"

definition runcommand_handle ::
    "externals \<Rightarrow> (commands \<Rightarrow> string list) \<Rightarrow> (nat \<Rightarrow> i64) \<Rightarrow> 'z run_daemon_scheme handler" where
  "runcommand_handle E iter pid did pkt s =
     (if (case Option.bind (json_get (packet_body pkt) ''requestCommandList'') as_bool of Some b \<Rightarrow> b | None \<Rightarrow> False) then
        (HResult (Inr (Some [command_list_packet E iter (pid 0) did s])), s)
      else (HResult (Inr None),
            case Option.bind (json_get (packet_body pkt) ''key'') json_as_str of
              None \<Rightarrow> s
            | Some key \<Rightarrow>
                (case lookup did key s of
                   None \<Rightarrow> s
                 | Some entry \<Rightarrow>
                     s\<lparr>run_jobs := run_jobs s @ [\<lparr>rj_device_id = did, rj_key = key, rj_command = ce_command entry\<rparr>]\<rparr>)))"

definition runcommand_plugin ::
    "externals \<Rightarrow> (commands \<Rightarrow> string list) \<Rightarrow> (nat \<Rightarrow> i64) \<Rightarrow> 'z run_daemon_scheme plugin" where
  "runcommand_plugin E iter pid = \<lparr>pl_name = ''runcommand'', pl_incoming = [''kdeconnect.runcommand.request''],
     pl_outgoing = [''kdeconnect.runcommand''], pl_handle = runcommand_handle E iter pid,
     pl_on_connected = (\<lambda>did s. (runcommand_connected E iter (pid 0) did s, s)), pl_on_disconnected = (\<lambda>did s. s)\<rparr>"

section \<open>The allowlist is the configuration\<close>

text \<open>The row of the configuration that counts for a key: the first complete one.\<close>

definition valid_row :: "string \<Rightarrow> runcommand_command \<Rightarrow> bool" where
  "valid_row k row \<longleftrightarrow> rc_key row = k \<and> rc_key row \<noteq> [] \<and> rc_name row \<noteq> [] \<and> rc_command row \<noteq> []"

definition row_entry :: "runcommand_command \<Rightarrow> command_entry" where
  "row_entry row = \<lparr>ce_name = rc_name row, ce_command = rc_command row\<rparr>"

lemma find_SomeD: "find P xs = Some x \<Longrightarrow> x \<in> set xs \<and> P x"
  by (induction xs) (auto split: if_splits)

lemma register_rows:
  "fold register_row cfg m k = (case m k of Some v \<Rightarrow> Some v | None \<Rightarrow> map_option row_entry (find (valid_row k) cfg))"
proof (induction cfg arbitrary: m)
  case (Cons row cfg)
  then show ?case by (cases "m k") (auto simp: register_row_def valid_row_def row_entry_def domIff)
qed (simp split: option.split)

lemma register_from_config_spec:
  "global_commands (register_from_config cfg s) = (\<lambda>k. map_option row_entry (find (valid_row k) cfg))"
  by (simp add: register_from_config_def register_rows fun_eq_iff)

lemma register_finite: "finite (dom (fold register_row cfg Map.empty))"
proof -
  have "dom (fold register_row cfg Map.empty) \<subseteq> rc_key ` set cfg"
    by (auto simp: register_rows valid_row_def dest!: find_SomeD)
  then show ?thesis by (rule finite_subset) simp
qed

section \<open>What is kept of the output\<close>

lemma read_capped_from_length: "length buf \<le> MAX_OUTPUT_SIZE \<Longrightarrow> length (read_capped_from buf rs) \<le> MAX_OUTPUT_SIZE"
  by (induction buf rs rule: read_capped_from.induct) (auto simp: Let_def)

lemma read_capped_length: "length (read_capped pipe) \<le> MAX_OUTPUT_SIZE"
  by (simp add: read_capped_def read_capped_from_length split: option.split)

text \<open>It is the beginning of what came through the pipe.\<close>

fun pipe_bytes :: "pipe_read list \<Rightarrow> string" where
  "pipe_bytes (Got chunk # rs) = (if chunk = [] then [] else chunk @ pipe_bytes rs)"
| "pipe_bytes _ = []"

lemma read_capped_from_take:
  "length buf \<le> MAX_OUTPUT_SIZE \<Longrightarrow> read_capped_from buf rs = take MAX_OUTPUT_SIZE (buf @ pipe_bytes rs)"
  by (induction buf rs rule: read_capped_from.induct) (auto simp: Let_def min_def)

lemma read_capped_take: "read_capped (Some rs) = take MAX_OUTPUT_SIZE (pipe_bytes rs)"
  by (simp add: read_capped_def read_capped_from_take)

section \<open>The advertised list is the allowlist\<close>

lemma fold_copy:
  "fold (\<lambda>k e. case m k of Some v \<Rightarrow> e(k \<mapsto> v) | None \<Rightarrow> e) ks e0 k = (if k \<in> set ks \<and> m k \<noteq> None then m k else e0 k)"
  by (induction ks arbitrary: e0) (auto split: option.splits)

lemma fold_fill:
  "fold (\<lambda>k e. case m k of Some v \<Rightarrow> (if hm_contains e k then e else e(k \<mapsto> v)) | None \<Rightarrow> e) ks e0 k
   = (case e0 k of Some v \<Rightarrow> Some v | None \<Rightarrow> if k \<in> set ks then m k else None)"
  by (induction ks arbitrary: e0) (auto split: option.splits simp: domIff)

definition finite_lists :: "device_key \<Rightarrow> 'z run_daemon_scheme \<Rightarrow> bool" where
  "finite_lists did s \<longleftrightarrow> finite (dom (global_commands s)) \<and> (\<forall>m. allowed_commands s did = Some m \<longrightarrow> finite (dom m))"

lemma advertised_lookup:
  assumes "iter_ok iter" and "finite_lists did s"
  shows "advertised did s iter = (\<lambda>k. lookup did k s)"
proof
  fix k
  define own where "own = (case allowed_commands s did of Some m \<Rightarrow> m | None \<Rightarrow> Map.empty)"
  have dom: "set (iter (global_commands s)) = dom (global_commands s)" "set (iter own) = dom own"
    using assms by (auto simp: iter_ok_def finite_lists_def own_def split: option.splits)
  have "lookup did k s = (case own k of Some v \<Rightarrow> Some v | None \<Rightarrow> global_commands s k)"
    by (simp add: lookup_def own_def split: option.split)
  then show "advertised did s iter k = lookup did k s"
    unfolding advertised_def own_def [symmetric] Let_def fold_fill fold_copy dom
    by (cases "own k"; cases "global_commands s k") (simp_all add: domIff)
qed

lemma lookup_finite:
  assumes "finite_lists did s"
  shows "finite (dom (\<lambda>k. lookup did k s))"
proof -
  have "dom (\<lambda>k. lookup did k s) \<subseteq> dom (global_commands s) \<union> dom (case allowed_commands s did of Some m \<Rightarrow> m | None \<Rightarrow> Map.empty)"
    by (auto simp: lookup_def split: option.splits)
  then show ?thesis using assms by (elim finite_subset) (auto simp: finite_lists_def split: option.splits)
qed

text \<open>The object that is printed, and what the peer reads out of it.\<close>

definition command_object :: "(commands \<Rightarrow> string list) \<Rightarrow> commands \<Rightarrow> (string \<times> json) list" where
  "command_object iter m = List.map_filter (\<lambda>k. map_option (\<lambda>c. (k, entry_json c)) (m k)) (iter m)"

definition remote_entry :: "command_entry \<Rightarrow> remote_command" where
  "remote_entry c = \<lparr>rmc_name = ce_name c, rmc_command = ce_command c\<rparr>"

lemma dec_entry_json: "dec_remote_command (entry_json c) = Inr (remote_entry c)"
  by (simp add: dec_remote_command_def entry_json_def dec_struct_def required_def remote_entry_def)

lemma map_filter_keys: "map fst (List.map_filter (\<lambda>k. map_option (\<lambda>c. (k, g c)) (m k)) ks) = filter (\<lambda>k. m k \<noteq> None) ks"
  by (induction ks) (auto simp: List.map_filter_simps split: option.split)

lemma command_object_keys:
  "iter_ok iter \<Longrightarrow> finite (dom m) \<Longrightarrow> distinct (map fst (command_object iter m))"
  by (simp add: command_object_def map_filter_keys iter_ok_def)

lemma foldr_entries:
  "foldr (\<lambda>(k, v) e. case dec_remote_command v of Inr c \<Rightarrow> e(k \<mapsto> c) | Inl x \<Rightarrow> e)
     (List.map_filter (\<lambda>k. map_option (\<lambda>c. (k, entry_json c)) (m k)) ks) Map.empty k
   = (if k \<in> set ks then map_option remote_entry (m k) else None)"
  by (induction ks) (auto simp: List.map_filter_simps dec_entry_json split: option.splits)

lemma clearjunk_distinct: "distinct (map fst xs) \<Longrightarrow> AList.clearjunk xs = xs"
  by (induction xs) simp_all

lemma command_entries_object:
  assumes "iter_ok iter" and "finite (dom m)"
  shows "command_entries (command_object iter m) = (\<lambda>k. map_option remote_entry (m k))"
proof
  fix k
  have "AList.clearjunk (rev (command_object iter m)) = rev (command_object iter m)"
    using command_object_keys [OF assms] by (intro clearjunk_distinct) (simp add: rev_map [symmetric])
  then show "command_entries (command_object iter m) k = map_option remote_entry (m k)"
    unfolding command_entries_def using assms foldr_entries [of m "iter m" k]
    by (auto simp: foldr_conv_fold [symmetric] command_object_def iter_ok_def)
qed

section \<open>What is executed\<close>

inductive run_step ::
    "externals \<Rightarrow> (commands \<Rightarrow> string list) \<Rightarrow> (nat \<Rightarrow> i64) \<Rightarrow> 'z run_daemon_scheme \<Rightarrow> 'z run_daemon_scheme \<Rightarrow> bool"
  for E iter pid where
  run_packet: "run_step E iter pid s (snd (runcommand_handle E iter pid did pkt s))"
| run_finish: "run_step E iter pid s (finish_command n run s)"

definition configured :: "runcommand_command list \<Rightarrow> string \<Rightarrow> string \<Rightarrow> bool" where
  "configured cfg k c \<longleftrightarrow> (\<exists>row. find (valid_row k) cfg = Some row \<and> rc_command row = c)"

definition record_ok :: "runcommand_command list \<Rightarrow> executed_command \<Rightarrow> bool" where
  "record_ok cfg e \<longleftrightarrow> configured cfg (ex_key e) (ex_command e) \<and> length (ex_stdout e) \<le> 3 * MAX_OUTPUT_SIZE
     \<and> (ex_success e \<longrightarrow> ex_exit_code e = Some 0 \<and> length (ex_stderr e) \<le> 3 * MAX_OUTPUT_SIZE)"

definition run_ok :: "runcommand_command list \<Rightarrow> 'z run_daemon_scheme \<Rightarrow> bool" where
  "run_ok cfg s \<longleftrightarrow> allowed_commands s = Map.empty \<and> global_commands s = fold register_row cfg Map.empty
     \<and> (\<forall>j \<in> set (run_jobs s). configured cfg (rj_key j) (rj_command j))
     \<and> (\<forall>e \<in> set (executed s). record_ok cfg e) \<and> length (executed s) \<le> MAX_EXECUTED_RECORDS"

lemma lookup_configured:
  "allowed_commands s = Map.empty \<Longrightarrow> global_commands s = fold register_row cfg Map.empty \<Longrightarrow> lookup did key s = Some entry \<Longrightarrow>
   configured cfg key (ce_command entry)"
  by (auto simp: lookup_def register_rows configured_def row_entry_def)

lemma runcommand_handle_ok: "run_ok cfg s \<Longrightarrow> run_ok cfg (snd (runcommand_handle E iter pid did pkt s))"
  by (auto simp: runcommand_handle_def run_ok_def lookup_configured split: option.splits)

lemma capped_text: "length (from_utf8_lossy (read_capped p)) \<le> 3 * MAX_OUTPUT_SIZE"
  using from_utf8_lossy_length [of "read_capped p"] read_capped_length [of p] by linarith

lemma execute_command_ok:
  assumes "execute_command j run s = (result, t)" and "configured cfg (rj_key j) (rj_command j)"
  shows "record_ok cfg result" and "allowed_commands t = allowed_commands s" and "global_commands t = global_commands s"
    and "run_jobs t = run_jobs s" and "executed t = executed s"
  using assms by (auto simp: execute_command_def failed_command_def record_ok_def status_success_def capped_text
      split: shell_run.splits sum.splits option.splits)

lemma finish_command_ok:
  assumes "run_ok cfg s"
  shows "run_ok cfg (finish_command n run s)"
proof (cases "n < length (run_jobs s)")
  case True
  obtain result t where x: "execute_command (run_jobs s ! n) run s = (result, t)" by fastforce
  from True assms have "configured cfg (rj_key (run_jobs s ! n)) (rj_command (run_jobs s ! n))" by (simp add: run_ok_def)
  note ok = execute_command_ok [OF x this]
  have "set (take n (run_jobs s) @ drop (Suc n) (run_jobs s)) \<subseteq> set (run_jobs s)"
    by (auto dest: in_set_takeD in_set_dropD)
  with assms show ?thesis
    by (auto simp: finish_command_def True x Let_def run_ok_def ok MAX_EXECUTED_RECORDS_def dest: in_set_dropD in_set_takeD)
next
  case False
  with assms show ?thesis by (simp add: finish_command_def)
qed

interpretation running: machine "run_step E iter pid" "run_ok cfg"
  by unfold_locales (auto elim!: run_step.cases intro: runcommand_handle_ok finish_command_ok)

lemma run_ok_start: "new_run s \<Longrightarrow> run_ok cfg (register_from_config cfg s)"
  by (simp add: run_ok_def new_run_def register_from_config_def)

definition demo_run :: run_daemon where
  "demo_run = daemon.extend demo_daemon (run_daemon.fields Map.empty Map.empty [] 30 [] [])"

definition demo_config :: "runcommand_command list" where
  "demo_config = [\<lparr>rc_key = ''k1'', rc_name = [], rc_command = ''rm''\<rparr>, \<lparr>rc_key = ''k1'', rc_name = ''lock'', rc_command = ''lock now''\<rparr>,
     \<lparr>rc_key = ''k1'', rc_name = ''off'', rc_command = ''halt''\<rparr>]"

definition run_request :: "string \<Rightarrow> packet" where
  "run_request k = new_packet 1 ''kdeconnect.runcommand.request'' (JObj [(''key'', JStr k)])"

lemma demo_run_simps [simp]:
  "allowed_commands demo_run = Map.empty" "global_commands demo_run = Map.empty" "executed demo_run = []"
  "execution_timeout_secs demo_run = 30" "run_jobs demo_run = []" "killed_groups demo_run = []"
  by (simp_all add: demo_run_def daemon.extend_def run_daemon.fields_def)

lemma new_demo_run: "new_run demo_run"
  by (simp add: new_run_def)

lemma demo_lookup: "lookup did k (register_from_config demo_config demo_run)
    = (if k = ''k1'' then Some \<lparr>ce_name = ''lock'', ce_command = ''lock now''\<rparr> else None)"
  by (simp add: lookup_def register_from_config_def demo_config_def register_row_def domIff)



text \<open>Property C29.
  The advertised list is the truth. When a peer receives the command list of this daemon, it holds
  for every key exactly the command that a request for that key then starts here: a key
  it lists starts the listed command, to the letter, and a key it does not list starts nothing.
  The hypotheses on the JSON library are that the object is read back as it was printed, and that
  the text of the empty object is read as such.\<close>

theorem advertised_commands_execute:
  assumes "iter_ok iter" and "finite_lists did s" and "json_parse E ''{}'' = Some (JObj [])"
    and "json_parse E (json_print E (JObj (command_object iter (\<lambda>k. lookup did k s))))
           = Some (JObj (command_object iter (\<lambda>k. lookup did k s)))"
  shows "\<exists>cmds. get_commands me (snd (remotecommands_handle E me (command_list_packet E iter n did s) t)) = Some cmds
    \<and> (\<forall>k. snd (runcommand_handle E iter pid did (new_packet m ''kdeconnect.runcommand.request'' (JObj [(''key'', JStr k)])) s)
          = (case cmds k of
               None \<Rightarrow> s
             | Some c \<Rightarrow> s\<lparr>run_jobs := run_jobs s @ [\<lparr>rj_device_id = did, rj_key = k, rj_command = rmc_command c\<rparr>]\<rparr>))"
proof -
  let ?l = "\<lambda>k. lookup did k s"
  have entries: "command_entries (if ?l = Map.empty then [] else command_object iter ?l) = (\<lambda>k. map_option remote_entry (?l k))"
  proof (cases "?l = Map.empty")
    case True
    then have "lookup did k s = None" for k by (rule fun_cong)
    then show ?thesis by (simp add: command_entries_def)
  next
    case False
    with command_entries_object [OF assms(1) lookup_finite [OF assms(2)]] show ?thesis by simp
  qed
  have "json_parse E (command_list_json E iter did s) = Some (JObj (if ?l = Map.empty then [] else command_object iter ?l))"
    using assms(3,4) by (auto simp: command_list_json_def Let_def advertised_lookup [OF assms(1,2)] command_object_def)
  then have "get_commands me (snd (remotecommands_handle E me (command_list_packet E iter n did s) t))
      = Some (\<lambda>k. map_option remote_entry (?l k))"
    by (simp add: remotecommands_handle_def command_list_packet_def new_packet_def get_commands_def Let_def entries)
  moreover have "snd (runcommand_handle E iter pid did (new_packet m ''kdeconnect.runcommand.request'' (JObj [(''key'', JStr k)])) s)
      = (case map_option remote_entry (?l k) of
           None \<Rightarrow> s
         | Some c \<Rightarrow> s\<lparr>run_jobs := run_jobs s @ [\<lparr>rj_device_id = did, rj_key = k, rj_command = rmc_command c\<rparr>]\<rparr>)" for k
    by (simp add: runcommand_handle_def new_packet_def remote_entry_def split: option.split)
  ultimately show ?thesis by blast
qed

theorem advertised_commands_execute_witness:
  "let s = register_from_config demo_config demo_run;
       iter = (\<lambda>m :: commands. sorted_list_of_set (dom m));
       E = demo_externals\<lparr>json_print := \<lambda>_. ''list'',
             json_parse := \<lambda>text. Some (JObj (if text = ''{}'' then [] else command_object iter (\<lambda>k. lookup ''phone'' k s)))\<rparr>
   in \<exists>cmds. get_commands ''desktop'' (snd (remotecommands_handle E ''desktop'' (command_list_packet E iter 1 ''phone'' s) demo_tables)) = Some cmds
        \<and> snd (runcommand_handle E iter (\<lambda>_. 2) ''phone'' (new_packet 3 ''kdeconnect.runcommand.request'' (JObj [(''key'', JStr ''k2'')])) s)
            = (case cmds ''k2'' of
                 None \<Rightarrow> s
               | Some c \<Rightarrow> s\<lparr>run_jobs := run_jobs s @ [\<lparr>rj_device_id = ''phone'', rj_key = ''k2'', rj_command = rmc_command c\<rparr>]\<rparr>)"
proof -
  let ?s = "register_from_config demo_config demo_run"
  let ?iter = "\<lambda>m :: commands. sorted_list_of_set (dom m)"
  let ?E = "demo_externals\<lparr>json_print := \<lambda>_. ''list'',
     json_parse := \<lambda>text. Some (JObj (if text = ''{}'' then [] else command_object ?iter (\<lambda>k. lookup ''phone'' k ?s)))\<rparr>"
  have "iter_ok ?iter" by (simp add: iter_ok_def)
  moreover have "finite_lists ''phone'' ?s"
    by (simp add: finite_lists_def register_from_config_def register_finite)
  moreover have "json_parse ?E ''{}'' = Some (JObj [])"
    "json_parse ?E (json_print ?E j) = Some (JObj (command_object ?iter (\<lambda>k. lookup ''phone'' k ?s)))" for j
    by simp_all
  ultimately have "\<exists>cmds. get_commands ''desktop'' (snd (remotecommands_handle ?E ''desktop'' (command_list_packet ?E ?iter 1 ''phone'' ?s) demo_tables)) = Some cmds
    \<and> (\<forall>k. snd (runcommand_handle ?E ?iter (\<lambda>_. 2) ''phone'' (new_packet 3 ''kdeconnect.runcommand.request'' (JObj [(''key'', JStr k)])) ?s)
          = (case cmds k of
               None \<Rightarrow> ?s
             | Some c \<Rightarrow> ?s\<lparr>run_jobs := run_jobs ?s @ [\<lparr>rj_device_id = ''phone'', rj_key = k, rj_command = rmc_command c\<rparr>]\<rparr>))"
    by (rule advertised_commands_execute)
  then show ?thesis unfolding Let_def by blast
qed

end
