(* ===== verification/Fan_Out.thy ===== *)
theory Fan_Out
  imports Device_Data Net_Text
begin

text \<open>
  What happens on the desktop and goes out to the devices: sending one packet to every link of the
  table, and the plugin that forwards the desktop's notifications
  (\<open>src/plugins/sendnotifications.rs\<close>), which sends to paired devices only. The D-Bus messages it
  watches are arguments.
\<close>

section \<open>One packet to many links\<close>

definition connected_device_ids :: "((device_key \<rightharpoonup> connection) \<Rightarrow> device_key list) \<Rightarrow> 'z conn_mgr_scheme \<Rightarrow> device_key list" where
  "connected_device_ids iter s = iter (connections s)"

text \<open>A failed send is logged and counted; the others go on.\<close>

fun fan_out ::
    "externals \<Rightarrow> ('z conn_mgr_scheme \<Rightarrow> device_key \<Rightarrow> bool) \<Rightarrow> device_key list \<Rightarrow> packet \<Rightarrow> (nat \<Rightarrow> clock)
     \<Rightarrow> 'z conn_mgr_scheme \<Rightarrow> nat \<times> 'z conn_mgr_scheme" where
  "fan_out E wanted [] p clks s = (0, s)"
| "fan_out E wanted (d # ds) p clks s =
     (if wanted s d then
        (let (r, s1) = send_packet E d p (clks 0) s;
             (failed, s2) = fan_out E wanted ds p (\<lambda>n. clks (Suc n)) s1
         in ((if is_ok r then failed else Suc failed), s2))
      else fan_out E wanted ds p (\<lambda>n. clks (Suc n)) s)"

text \<open>A send touches one link, and of the rest of the state only the bookkeeping of links.\<close>

lemma send_packet_shape:
  "\<exists>m c sh. snd (send_packet E d p clk s) = s\<lparr>connections := m, cancel_tokens := c, shutdowns := sh\<rparr>
     \<and> (\<forall>e. e \<noteq> d \<longrightarrow> m e = connections s e)"
proof -
  have same: "\<exists>m c sh. s = s\<lparr>connections := m, cancel_tokens := c, shutdowns := sh\<rparr> \<and> (\<forall>e. e \<noteq> d \<longrightarrow> m e = connections s e)"
    by (intro exI [of _ "connections s"] exI [of _ "cancel_tokens s"] exI [of _ "shutdowns s"]) simp
  have upd: "\<exists>m c sh. s\<lparr>connections := (connections s)(d \<mapsto> h)\<rparr> = s\<lparr>connections := m, cancel_tokens := c, shutdowns := sh\<rparr>
      \<and> (\<forall>e. e \<noteq> d \<longrightarrow> m e = connections s e)" for h
    by (intro exI [of _ "(connections s)(d \<mapsto> h)"] exI [of _ "cancel_tokens s"] exI [of _ "shutdowns s"]) simp
  have disc: "\<exists>m c sh. snd (disconnect d g (s\<lparr>connections := (connections s)(d \<mapsto> h)\<rparr>)) = s\<lparr>connections := m, cancel_tokens := c, shutdowns := sh\<rparr>
      \<and> (\<forall>e. e \<noteq> d \<longrightarrow> m e = connections s e)" for g h
    using upd [of h]
    by (cases "cn_generation h = g")
       (auto simp: disconnect_def Let_def remove_cancel_token_def hm_remove_apply
          intro!: exI [of _ "hm_remove d ((connections s)(d \<mapsto> h))"] exI [of _ "hm_remove d (cancel_tokens s)"]
            exI [of _ "shutdowns s @ [(d, g)]"])
  show ?thesis
    unfolding send_packet_def Let_def using same upd disc by (simp split: option.split prod.split sum.split)
qed

lemma send_packet_other: "e \<noteq> d \<Longrightarrow> connections (snd (send_packet E d p clk s)) e = connections s e"
  using send_packet_shape [of E d p clk s] by auto

lemma send_packet_keeps:
  assumes "\<And>t m c sh. f (t\<lparr>connections := m, cancel_tokens := c, shutdowns := sh\<rparr>) = f t"
  shows "f (snd (send_packet E d p clk s)) = f s"
  using send_packet_shape [of E d p clk s] assms by metis

lemma refuses_send: "refuses_type d q (snd (send_packet E x p clk s)) = refuses_type d q s"
  by (rule send_packet_keeps) (simp add: refuses_type_def)

lemma fan_out_Cons [simp]:
  "snd (fan_out E wanted (d # ds) p clks s)
   = snd (fan_out E wanted ds p (\<lambda>n. clks (Suc n)) (if wanted s d then snd (send_packet E d p (clks 0) s) else s))"
  by (simp add: Let_def split_beta)

declare fan_out.simps(2) [simp del]

lemma fan_out_keeps:
  assumes "\<And>t m c sh. f (t\<lparr>connections := m, cancel_tokens := c, shutdowns := sh\<rparr>) = f t"
  shows "f (snd (fan_out E wanted ds p clks s)) = f s"
  by (induction ds arbitrary: clks s) (simp_all add: send_packet_keeps [of f, OF assms])

text \<open>Links outside the list, and links nobody wants to send to, are left alone.\<close>

lemma fan_out_other:
  assumes "\<And>t m c sh x. wanted (t\<lparr>connections := m, cancel_tokens := c, shutdowns := sh\<rparr>) x = wanted t x"
    and "e \<notin> set ds \<or> \<not> wanted s e"
  shows "connections (snd (fan_out E wanted ds p clks s)) e = connections s e"
  using assms(2)
proof (induction ds arbitrary: clks s)
  case (Cons d ds)
  define s1 where "s1 = (if wanted s d then snd (send_packet E d p (clks 0) s) else s)"
  have "wanted s1 e = wanted s e" unfolding s1_def using send_packet_keeps [of "\<lambda>t. wanted t e"] assms(1) by simp
  moreover have "connections s1 e = connections s e" unfolding s1_def using Cons.prems send_packet_other [of e d] by auto
  ultimately show ?case using Cons.IH [of s1] Cons.prems unfolding fan_out_Cons s1_def [symmetric] by auto
qed simp

text \<open>On a link whose writes succeed the serialized packet is appended.\<close>

lemma write_framed_fresh: "cn_writes h = [] \<Longrightarrow> write_framed bs h = (Inr (), put_bytes bs h)"
  by (simp add: write_framed_def next_write_def put_bytes_def)

lemma send_packet_writes:
  assumes "connections s d = Some h" and "cn_writes h = []" and "\<not> refuses_type d p s"
  shows "\<exists>h'. send_packet E d p clk s = (Inr (), s\<lparr>connections := (connections s)(d \<mapsto> h')\<rparr>)
     \<and> cn_written h' = cn_written h @ serialize E p \<and> cn_writes h' = []"
  using assms
  by (intro exI [of _ "h\<lparr>cn_written := cn_written h @ serialize E p,
        cn_info := increment_sent (clk 1) ((cn_info h)\<lparr>ci_last_activity := clk 0\<rparr>)\<rparr>"])
     (simp add: send_packet_def Let_def write_framed_fresh put_bytes_def)

lemma fan_out_writes:
  assumes "\<And>t m c sh x. wanted (t\<lparr>connections := m, cancel_tokens := c, shutdowns := sh\<rparr>) x = wanted t x"
    and "connections s d = Some h" and "cn_writes h = []" and "\<not> refuses_type d p s" and "wanted s d"
    and "distinct ds" and "d \<in> set ds"
  shows "\<exists>h'. connections (snd (fan_out E wanted ds p clks s)) d = Some h' \<and> cn_written h' = cn_written h @ serialize E p"
  using assms(2-)
proof (induction ds arbitrary: clks s)
  case (Cons x ds)
  define s1 where "s1 = (if wanted s x then snd (send_packet E x p (clks 0) s) else s)"
  have rest: "snd (fan_out E wanted (x # ds) p clks s) = snd (fan_out E wanted ds p (\<lambda>n. clks (Suc n)) s1)"
    unfolding fan_out_Cons s1_def ..
  show ?case
  proof (cases "x = d")
    case True
    obtain h' where h': "connections s1 d = Some h'" "cn_written h' = cn_written h @ serialize E p"
      using send_packet_writes [OF Cons.prems(1-3), of E "clks 0"] Cons.prems(4) True by (auto simp: s1_def)
    have "connections (snd (fan_out E wanted ds p (\<lambda>n. clks (Suc n)) s1)) d = connections s1 d"
      using Cons.prems True by (intro fan_out_other assms(1)) simp
    with h' show ?thesis unfolding rest by simp
  next
    case False
    have "wanted s1 d = wanted s d" "refuses_type d p s1 = refuses_type d p s"
      using send_packet_keeps [of "\<lambda>t. wanted t d"] assms(1) by (simp_all add: s1_def refuses_send)
    moreover have "connections s1 d = connections s d" using False send_packet_other [of d x] by (auto simp: s1_def)
    ultimately show ?thesis unfolding rest using Cons.IH [of s1] Cons.prems False by simp
  qed
qed simp

section \<open>Forwarding the desktop's notifications\<close>

type_synonym i32 = "32 word"

text \<open>A \<open>Notify\<close> call as the monitor sees it; of the hints only the names matter.\<close>

record notify_call =
  nc_app_name :: string
  nc_replaces_id :: u32
  nc_summary :: string
  nc_text :: string
  nc_hints :: "string list"
  nc_expire_timeout :: i32

text \<open>A message of the monitored bus: an error of the stream, another message, a \<open>Notify\<close> whose
  arguments do not decode, or one that does.\<close>

datatype bus_message = BusError | OtherMessage | BadNotify | Notify notify_call

record forward_daemon = daemon +
  fake_id_counter :: u32
  forward_started :: bool
  has_connection_manager :: bool

definition build_notification_body :: "u32 \<Rightarrow> string \<Rightarrow> string \<Rightarrow> string \<Rightarrow> i32 \<Rightarrow> json" where
  "build_notification_body i app_name summary body_text expire =
     (let ticker = (if body_text = [] then summary else summary @ '': '' @ body_text)
      in JObj ([(''id'', JStr (show_nat (unat i))), (''appName'', JStr app_name), (''ticker'', JStr ticker), (''title'', JStr summary),
                (''isClearable'', JBool (expire = - 1)), (''silent'', JBool False)]
               @ (if body_text = [] then [] else [(''text'', JStr body_text)])))"

definition forward_notify ::
    "externals \<Rightarrow> ((device_key \<rightharpoonup> connection) \<Rightarrow> device_key list) \<Rightarrow> i64 \<Rightarrow> (nat \<Rightarrow> clock) \<Rightarrow> bus_message
     \<Rightarrow> 'z forward_daemon_scheme \<Rightarrow> 'z forward_daemon_scheme" where
  "forward_notify E iter pid clks msg s =
     (case msg of
        Notify c \<Rightarrow>
          if ''x-kdeconnect-source-device'' \<in> set (nc_hints c) then s
          else if nc_summary c = [] then s
          else (let s1 = (if 0 < nc_replaces_id c then s else s\<lparr>fake_id_counter := fake_id_counter s + 1\<rparr>);
                    i = (if 0 < nc_replaces_id c then nc_replaces_id c else fake_id_counter s1);
                    p = new_packet pid ''kdeconnect.notification''
                          (build_notification_body i (nc_app_name c) (nc_summary c) (nc_text c) (nc_expire_timeout c))
                in snd (fan_out E (\<lambda>t d. is_paired d t) (connected_device_ids iter s1) p clks s1))
      | _ \<Rightarrow> s)"

definition forward_try_start_watcher :: "bool \<Rightarrow> 'z forward_daemon_scheme \<Rightarrow> 'z forward_daemon_scheme" where
  "forward_try_start_watcher in_runtime s =
     (if forward_started s then s
      else if \<not> has_connection_manager s then s
      else if \<not> in_runtime then s
      else s\<lparr>forward_started := True, fake_id_counter := 1000\<rparr>)"

text \<open>The request of a peer: the id of a notification it dismissed, which counts only as a non-empty
  string, and the wish for all of them. Both are only logged.\<close>

record notification_request =
  nr_request :: "bool option"
  nr_cancel :: "string option"

fun cancel_notification_id :: "json \<Rightarrow> string option res" where
  "cancel_notification_id (JStr i) = Inr (if i \<noteq> [] then Some i else None)"
| "cancel_notification_id _ = Inr None"

definition dec_notification_request :: "json \<Rightarrow> notification_request res" where
  "dec_notification_request = dec_struct 0 [''request'', ''cancel'']
     (\<lambda>get. rbind (optional dec_bool (get ''request'')) (\<lambda>r.
            rbind (defaulted None cancel_notification_id (get ''cancel'')) (\<lambda>c.
              Inr \<lparr>nr_request = r, nr_cancel = c\<rparr>)))"

definition sendnotifications_handle :: "'z forward_daemon_scheme handler" where
  "sendnotifications_handle did pkt s =
     (if packet_type pkt \<noteq> ''kdeconnect.notification.request'' then (HResult (Inr None), s)
      else (case dec_notification_request (packet_body pkt) of
              Inl e \<Rightarrow> (HResult (Inl e), s)
            | Inr r \<Rightarrow> (HResult (Inr None), s)))"

definition sendnotifications_plugin :: "'z forward_daemon_scheme plugin" where
  "sendnotifications_plugin = \<lparr>pl_name = ''sendnotifications'', pl_incoming = [''kdeconnect.notification.request''],
     pl_outgoing = [''kdeconnect.notification''], pl_handle = sendnotifications_handle,
     pl_on_connected = (\<lambda>did s. ([], s)), pl_on_disconnected = (\<lambda>did s. s)\<rparr>"

lemma is_paired_links: "is_paired d (t\<lparr>connections := m, cancel_tokens := c, shutdowns := sh\<rparr>) = is_paired d t"
  by (simp add: is_paired_def)

lemma forward_notify_same:
  "\<not> is_paired d s \<Longrightarrow> connections (forward_notify E iter pid clks msg s) d = connections s d"
  by (auto simp: forward_notify_def Let_def is_paired_def intro!: trans [OF fan_out_other] split: bus_message.split)

definition demo_forward :: forward_daemon where
  "demo_forward = daemon.extend (demo_daemon\<lparr>paired := [demo_id \<mapsto> 0],
       connections := [demo_id \<mapsto> demo_peer, ''stranger'' \<mapsto> demo_peer]\<rparr>) (forward_daemon.fields 1000 True True)"

definition demo_call :: notify_call where
  "demo_call = \<lparr>nc_app_name = ''mail'', nc_replaces_id = 0, nc_summary = ''hello'', nc_text = [], nc_hints = [], nc_expire_timeout = - 1\<rparr>"

definition demo_links :: "(device_key \<rightharpoonup> connection) \<Rightarrow> device_key list" where
  "demo_links m = sorted_list_of_set (dom m)"

lemma iter_ok_links: "iter_ok demo_links"
  by (simp add: iter_ok_def demo_links_def)

lemma demo_forward_simps [simp]:
  "connections demo_forward = [demo_id \<mapsto> demo_peer, ''stranger'' \<mapsto> demo_peer]" "paired demo_forward = [demo_id \<mapsto> 0]"
  "fake_id_counter demo_forward = 1000" "peer_capabilities demo_forward = peer_capabilities demo_daemon"
  by (simp_all add: demo_forward_def daemon.extend_def forward_daemon.fields_def)

text \<open>Property C28.
  The desktop's notifications go to paired devices, once each, and not in circles. Whatever
  appears on the bus, a device that is not paired receives nothing. A notification with a title that
  this daemon did not put up itself is appended, as one packet, to the link of every paired device that is
  connected, takes such packets and can be written to; one that it did put up for a device is not
  sent at all.\<close>

theorem notifications_forwarded:
  assumes "iter_ok iter" and "finite (dom (connections s))"
  shows "(\<not> is_paired d s \<longrightarrow> connections (forward_notify E iter pid clks msg s) d = connections s d)
    \<and> (''x-kdeconnect-source-device'' \<in> set (nc_hints c) \<longrightarrow> forward_notify E iter pid clks (Notify c) s = s)
    \<and> (is_paired d s \<and> connections s d = Some h \<and> cn_writes h = [] \<and> nc_summary c \<noteq> []
         \<and> ''x-kdeconnect-source-device'' \<notin> set (nc_hints c)
         \<and> (case peer_capabilities s d of Some inc \<Rightarrow> ''kdeconnect.notification'' \<in> set inc | None \<Rightarrow> True)
       \<longrightarrow> (\<exists>h' i. connections (forward_notify E iter pid clks (Notify c) s) d = Some h'
             \<and> cn_written h' = cn_written h @ serialize E (new_packet pid ''kdeconnect.notification''
                 (build_notification_body i (nc_app_name c) (nc_summary c) (nc_text c) (nc_expire_timeout c)))))"
proof (intro conjI impI)
  assume "is_paired d s \<and> connections s d = Some h \<and> cn_writes h = [] \<and> nc_summary c \<noteq> []
     \<and> ''x-kdeconnect-source-device'' \<notin> set (nc_hints c)
     \<and> (case peer_capabilities s d of Some inc \<Rightarrow> ''kdeconnect.notification'' \<in> set inc | None \<Rightarrow> True)"
  then have d: "is_paired d s" "connections s d = Some h" "cn_writes h = []" "nc_summary c \<noteq> []"
      "''x-kdeconnect-source-device'' \<notin> set (nc_hints c)"
    and caps: "case peer_capabilities s d of Some inc \<Rightarrow> ''kdeconnect.notification'' \<in> set inc | None \<Rightarrow> True" by auto
  define s1 where "s1 = (if 0 < nc_replaces_id c then s else s\<lparr>fake_id_counter := fake_id_counter s + 1\<rparr>)"
  define i where "i = (if 0 < nc_replaces_id c then nc_replaces_id c else fake_id_counter s1)"
  let ?p = "new_packet pid ''kdeconnect.notification''
    (build_notification_body i (nc_app_name c) (nc_summary c) (nc_text c) (nc_expire_timeout c))"
  have s1: "connections s1 = connections s" "peer_capabilities s1 = peer_capabilities s" "is_paired d s1"
    using d(1) by (simp_all add: s1_def is_paired_def)
  have ids: "distinct (connected_device_ids iter s1)" "d \<in> set (connected_device_ids iter s1)"
    using assms d(2) s1 by (auto simp: connected_device_ids_def iter_ok_def)
  have "\<not> refuses_type d ?p s1"
    using caps s1 by (auto simp: refuses_type_def new_packet_def split: option.splits)
  then have "\<exists>h'. connections (snd (fan_out E (\<lambda>t d. is_paired d t) (connected_device_ids iter s1) ?p clks s1)) d = Some h'
      \<and> cn_written h' = cn_written h @ serialize E ?p"
    using d s1 ids by (intro fan_out_writes) (simp_all add: is_paired_links)
  then show "\<exists>h' i. connections (forward_notify E iter pid clks (Notify c) s) d = Some h'
      \<and> cn_written h' = cn_written h @ serialize E (new_packet pid ''kdeconnect.notification''
          (build_notification_body i (nc_app_name c) (nc_summary c) (nc_text c) (nc_expire_timeout c)))"
    using d(4,5) unfolding forward_notify_def by (auto simp: Let_def s1_def [symmetric] i_def [symmetric])
qed (simp_all add: forward_notify_same, simp add: forward_notify_def)

theorem notifications_forwarded_witness:
  "connections (forward_notify demo_externals demo_links 1 (\<lambda>_ _. 0) (Notify demo_call) demo_forward) ''stranger'' = Some demo_peer
   \<and> (\<exists>h'. connections (forward_notify demo_externals demo_links 1 (\<lambda>_ _. 0) (Notify demo_call) demo_forward) demo_id = Some h'
          \<and> cn_written h' \<noteq> [])"
proof -
  have fin: "finite (dom (connections demo_forward))" by simp
  have p: "is_paired demo_id demo_forward" "\<not> is_paired ''stranger'' demo_forward"
    by (simp_all add: is_paired_def demo_id_def)
  have caps: "peer_capabilities demo_daemon = Map.empty"
    by (simp add: demo_daemon_def conn_mgr.extend_def daemon.fields_def)
  have w: "cn_writes demo_peer = []" "cn_written demo_peer = []" by (simp_all add: demo_peer_def new_link_def)
  have "connections demo_forward ''stranger'' = Some demo_peer" "connections demo_forward demo_id = Some demo_peer"
    by (simp_all add: demo_id_def)
  then show ?thesis
    using notifications_forwarded [OF iter_ok_links fin, where d = "''stranger''" and msg = "Notify demo_call" and E = demo_externals
        and pid = 1 and clks = "\<lambda>_ _. 0"]
      notifications_forwarded [OF iter_ok_links fin, where d = demo_id and c = demo_call and h = demo_peer and E = demo_externals
        and pid = 1 and clks = "\<lambda>_ _. 0"] p caps w
    by (auto simp: demo_call_def serialize_def)
qed

end
