(* ===== verification/Clipboard.thy ===== *)
theory Clipboard
  imports Fan_Out Processes "HOL-Library.Multiset"
begin

unbundle bit_operations_syntax

text \<open>
  The clipboard plugin (\<open>src/plugins/clipboard.rs\<close>) and its HTTP handlers
  (\<open>src/api/handlers/plugins/clipboard.rs\<close>): which session clipboard is used, how its changes are
  watched, what a change here or on a device does to the shared content, and how an echo of a
  device's own content is kept from going back to it. The clipboard programs (\<open>wl-copy\<close>, \<open>xclip\<close>
  and the rest) belong to the desktop: the outcomes of starting, feeding and reading them are
  arguments, as is the standard library's unspecified hash.
\<close>

section \<open>The session clipboard\<close>

datatype display_server = Wayland | X11 | NoDisplay

definition from_env_presence :: "bool \<Rightarrow> bool \<Rightarrow> display_server" where
  "from_env_presence wayland_display_set display_set =
     (if wayland_display_set then Wayland else if display_set then X11 else NoDisplay)"

datatype x11_tool = Xclip | Xsel

primrec binary_name :: "x11_tool \<Rightarrow> string" where
  "binary_name Xclip = ''xclip''"
| "binary_name Xsel = ''xsel''"

primrec write_args :: "x11_tool \<Rightarrow> string list" where
  "write_args Xclip = [''-i'', ''-selection'', ''clipboard'']"
| "write_args Xsel = [''--clipboard'', ''--input'']"

primrec read_args :: "x11_tool \<Rightarrow> string list" where
  "read_args Xclip = [''-o'', ''-selection'', ''clipboard'']"
| "read_args Xsel = [''--clipboard'', ''--output'']"

definition choose_tool :: "bool \<Rightarrow> bool \<Rightarrow> x11_tool option" where
  "choose_tool xclip_available xsel_available =
     (if xclip_available then Some Xclip else if xsel_available then Some Xsel else None)"

datatype clip_backend = WaylandClipboard | X11Clipboard x11_tool

fun backend_name :: "clip_backend \<Rightarrow> string" where
  "backend_name WaylandClipboard = ''wayland''"
| "backend_name (X11Clipboard Xclip) = ''x11-xclip''"
| "backend_name (X11Clipboard Xsel) = ''x11-xsel''"

text \<open>The environment: which variables are set, the directories of the path, and the mode of a regular
  file in a directory.\<close>

record session_env =
  env_wayland_display :: bool
  env_xdg_runtime_dir :: bool
  env_display :: bool
  env_path :: "string list option"
  env_mode :: "string \<Rightarrow> string \<Rightarrow> u32 option"

definition binary_in_path :: "session_env \<Rightarrow> string \<Rightarrow> bool" where
  "binary_in_path env name =
     (case env_path env of
        None \<Rightarrow> False
      | Some ds \<Rightarrow> list_ex (\<lambda>dir. case env_mode env dir name of Some m \<Rightarrow> m AND 0x49 \<noteq> 0 | None \<Rightarrow> False) ds)"

definition detect_wayland :: "session_env \<Rightarrow> clip_backend option" where
  "detect_wayland env =
     (if \<not> env_wayland_display env \<or> \<not> env_xdg_runtime_dir env then None
      else if \<not> binary_in_path env ''wl-copy'' \<or> \<not> binary_in_path env ''wl-paste'' then None
      else Some WaylandClipboard)"

definition detect_x11 :: "session_env \<Rightarrow> clip_backend option" where
  "detect_x11 env =
     (if \<not> env_display env then None
      else map_option X11Clipboard (choose_tool (binary_in_path env ''xclip'') (binary_in_path env ''xsel'')))"

text \<open>Feeding a clipboard program: it does not start, its input cannot be written, it cannot be waited
  for, or it ends with a status.\<close>

datatype write_run = NotSpawned | NotWritten | NotWaited | Ended exit_status

definition feed_program :: "string \<Rightarrow> write_run \<Rightarrow> unit res" where
  "feed_program program run =
     (case run of
        NotSpawned \<Rightarrow> Inl (io_error (''failed to spawn '' @ program) None)
      | NotWritten \<Rightarrow> Inl (io_error (''failed to write to '' @ program) None)
      | NotWaited \<Rightarrow> Inl (io_error (''failed to wait on '' @ program) None)
      | Ended status \<Rightarrow> if status_success status then Inr () else Inl (io_error (program @ '' exited'') None))"

definition wl_write :: "write_run \<Rightarrow> unit res" where
  "wl_write run = feed_program ''wl-copy'' run"

definition x11_write :: "x11_tool \<Rightarrow> write_run \<Rightarrow> unit res" where
  "x11_write tool run = feed_program (binary_name tool) run"

primrec backend_set :: "clip_backend \<Rightarrow> write_run \<Rightarrow> unit res" where
  "backend_set WaylandClipboard run = wl_write run"
| "backend_set (X11Clipboard tool) run = x11_write tool run"

text \<open>Reading the clipboard once.\<close>

datatype read_run = ReadTimeout | ReadNotSpawned | ReadDone exit_status string

definition read_program :: "string \<Rightarrow> read_run \<Rightarrow> string option res" where
  "read_program program run =
     (case run of
        ReadTimeout \<Rightarrow> Inl (io_error (program @ '' read timed out'') None)
      | ReadNotSpawned \<Rightarrow> Inl (io_error (''failed to spawn '' @ program) None)
      | ReadDone status out \<Rightarrow>
          if \<not> status_success status then Inr None
          else (let content = from_utf8_lossy out in Inr (if content = [] then None else Some content)))"

definition read_clipboard_once :: "read_run \<Rightarrow> string option res" where
  "read_clipboard_once run = read_program ''wl-paste'' run"

definition read_x11_clipboard_once :: "x11_tool \<Rightarrow> read_run \<Rightarrow> string option res" where
  "read_x11_clipboard_once tool run = read_program (binary_name tool) run"

section \<open>Watching it\<close>

datatype watcher_exit = Shutdown | Failed string

text \<open>What a watcher does is given by the script of what it meets: its exit, if the script leads to one,
  and what it sent into the channel. \<open>is_open\<close> tells whether the receiver still listens.\<close>

datatype watch_event = ChangeLine read_run bool | WatchEnd | WatchError

fun watch_lines :: "watch_event list \<Rightarrow> watcher_exit option \<times> string list" where
  "watch_lines [] = (None, [])"
| "watch_lines (WatchEnd # evs) = (Some (Failed ''wl-paste --watch exited''), [])"
| "watch_lines (WatchError # evs) = (Some (Failed ''watcher stdout read error''), [])"
| "watch_lines (ChangeLine run is_open # evs) =
     (case read_clipboard_once run of
        Inr (Some content) \<Rightarrow>
          if is_open then (let (ex, sent) = watch_lines evs in (ex, content # sent)) else (Some Shutdown, [])
      | _ \<Rightarrow> watch_lines evs)"

definition run_watcher :: "bool \<Rightarrow> bool \<Rightarrow> watch_event list \<Rightarrow> watcher_exit option \<times> string list" where
  "run_watcher spawned piped evs =
     (if \<not> spawned then (Some (Failed ''failed to spawn wl-paste --watch''), [])
      else if \<not> piped then (Some (Failed ''wl-paste stdout not piped''), [])
      else watch_lines evs)"

text \<open>One round of \<open>clipnotify\<close>: it does not start, its end cannot be awaited, or it ends; then a read.\<close>

datatype notify_round = NotifyNotSpawned | NotifyNotWaited | NotifyEnded exit_status read_run bool

fun run_x11_clipnotify_watcher :: "x11_tool \<Rightarrow> notify_round list \<Rightarrow> watcher_exit option \<times> string list" where
  "run_x11_clipnotify_watcher tool [] = (None, [])"
| "run_x11_clipnotify_watcher tool (NotifyNotSpawned # rs) = (Some (Failed ''failed to spawn clipnotify''), [])"
| "run_x11_clipnotify_watcher tool (NotifyNotWaited # rs) = (Some (Failed ''clipnotify wait failed''), [])"
| "run_x11_clipnotify_watcher tool (NotifyEnded status run is_open # rs) =
     (if \<not> status_success status then (Some (Failed ''clipnotify exited''), [])
      else (case read_x11_clipboard_once tool run of
              Inr (Some content) \<Rightarrow>
                if is_open then (let (ex, sent) = run_x11_clipnotify_watcher tool rs in (ex, content # sent))
                else (Some Shutdown, [])
            | _ \<Rightarrow> run_x11_clipnotify_watcher tool rs))"

fun poll_from :: "(string \<Rightarrow> u64) \<Rightarrow> x11_tool \<Rightarrow> u64 option \<Rightarrow> (read_run \<times> bool) list \<Rightarrow> watcher_exit option \<times> string list" where
  "poll_from content_hash tool last_hash [] = (None, [])"
| "poll_from content_hash tool last_hash ((run, is_open) # rs) =
     (case read_x11_clipboard_once tool run of
        Inr (Some content) \<Rightarrow>
          (let hash = content_hash content in
           if last_hash \<noteq> Some hash then
             (if is_open then (let (ex, sent) = poll_from content_hash tool (Some hash) rs in (ex, content # sent))
              else (Some Shutdown, []))
           else poll_from content_hash tool last_hash rs)
      | Inr None \<Rightarrow> poll_from content_hash tool None rs
      | Inl _ \<Rightarrow> poll_from content_hash tool last_hash rs)"

definition run_x11_poll_watcher :: "(string \<Rightarrow> u64) \<Rightarrow> x11_tool \<Rightarrow> (read_run \<times> bool) list \<Rightarrow> watcher_exit option \<times> string list" where
  "run_x11_poll_watcher content_hash tool rs = poll_from content_hash tool None rs"

definition WATCHER_INITIAL_BACKOFF :: nat where "WATCHER_INITIAL_BACKOFF = 500"
definition WATCHER_MAX_BACKOFF :: nat where "WATCHER_MAX_BACKOFF = 30000"
definition WATCHER_HEALTHY_AFTER :: nat where "WATCHER_HEALTHY_AFTER = 5000"

text \<open>The supervisor: for each run of the watcher how it ended and after how many milliseconds; the
  result is how long the supervisor slept after each.\<close>

fun supervise_from :: "nat \<Rightarrow> (watcher_exit \<times> nat) list \<Rightarrow> nat list" where
  "supervise_from backoff [] = []"
| "supervise_from backoff ((Shutdown, elapsed) # rs) = []"
| "supervise_from backoff ((Failed reason, elapsed) # rs) =
     (let b = (if WATCHER_HEALTHY_AFTER \<le> elapsed then WATCHER_INITIAL_BACKOFF else backoff)
      in b # supervise_from (min (b * 2) WATCHER_MAX_BACKOFF) rs)"

definition supervise_watcher :: "(watcher_exit \<times> nat) list \<Rightarrow> nat list" where
  "supervise_watcher rs = supervise_from WATCHER_INITIAL_BACKOFF rs"

section \<open>The shared content\<close>

datatype watcher = WlWatch | ClipNotify x11_tool | Polling x11_tool

record clip_daemon = daemon +
  clip_content :: "string option"
  clip_timestamp :: i64
  clip_backend :: "clip_backend option"
  clip_has_manager :: bool
  watcher_started :: bool
  watchers :: "watcher list"
  session_writes :: "string list"
  clip_events :: "(device_key \<times> string) list"

definition new_clipboard :: "'z clip_daemon_scheme \<Rightarrow> bool" where
  "new_clipboard s \<longleftrightarrow> clip_content s = None \<and> clip_timestamp s = 0 \<and> clip_backend s = None \<and> \<not> clip_has_manager s
     \<and> \<not> watcher_started s \<and> watchers s = [] \<and> session_writes s = [] \<and> clip_events s = []"

definition timestamp_millis :: "instant \<Rightarrow> i64" where
  "timestamp_millis t = word_of_int (t div 1000000)"

definition content_packet :: "i64 \<Rightarrow> string \<Rightarrow> packet" where
  "content_packet pid content = new_packet pid ''kdeconnect.clipboard'' (JObj [(''content'', JStr content)])"

definition apply_local_change ::
    "i64 \<Rightarrow> instant \<Rightarrow> string \<Rightarrow> 'z clip_daemon_scheme \<Rightarrow> packet option \<times> 'z clip_daemon_scheme" where
  "apply_local_change pid now content s =
     (if content = [] then (None, s)
      else if clip_content s = Some content then (None, s)
      else (Some (content_packet pid content),
            s\<lparr>clip_timestamp := timestamp_millis now, clip_content := Some content,
              clip_events := clip_events s @ [(''local'', content)]\<rparr>))"

definition apply_remote :: "instant \<Rightarrow> device_key \<Rightarrow> string \<Rightarrow> 'z clip_daemon_scheme \<Rightarrow> 'z clip_daemon_scheme" where
  "apply_remote now did content s =
     s\<lparr>clip_timestamp := timestamp_millis now, clip_content := Some content,
       clip_events := clip_events s @ [(did, content)]\<rparr>"

definition apply_remote_connect ::
    "device_key \<Rightarrow> string \<Rightarrow> i64 \<Rightarrow> 'z clip_daemon_scheme \<Rightarrow> bool \<times> 'z clip_daemon_scheme" where
  "apply_remote_connect did content sent_at s =
     (if sent_at = 0 \<or> sint sent_at < sint (clip_timestamp s) then (False, s)
      else (True, s\<lparr>clip_timestamp := sent_at, clip_content := Some content,
                    clip_events := clip_events s @ [(did, content)]\<rparr>))"

text \<open>The write to the session; \<open>None\<close> stands for a blocking task that did not come back.\<close>

definition write_to_session :: "write_run option \<Rightarrow> string \<Rightarrow> 'z clip_daemon_scheme \<Rightarrow> 'z clip_daemon_scheme" where
  "write_to_session run content s =
     (case clip_backend s of
        None \<Rightarrow> s
      | Some b \<Rightarrow>
          (case run of
             None \<Rightarrow> s
           | Some r \<Rightarrow> (case backend_set b r of Inr _ \<Rightarrow> s\<lparr>session_writes := session_writes s @ [content]\<rparr> | Inl _ \<Rightarrow> s)))"

definition get_content :: "'z clip_daemon_scheme \<Rightarrow> string option" where
  "get_content s = clip_content s"

definition update_content ::
    "device_key option \<Rightarrow> string \<Rightarrow> i64 option \<Rightarrow> instant \<Rightarrow> 'z clip_daemon_scheme \<Rightarrow> 'z clip_daemon_scheme" where
  "update_content did content sent_at now s =
     (let ts = (case sent_at of Some t \<Rightarrow> t | None \<Rightarrow> timestamp_millis now) in
      if sint (clip_timestamp s) < sint ts \<or> clip_content s = None then
        s\<lparr>clip_content := Some content, clip_timestamp := ts,
          clip_events := clip_events s @ [(case did of Some d \<Rightarrow> d | None \<Rightarrow> ''local'', content)]\<rparr>
      else s)"

section \<open>Start-up\<close>

text \<open>Starting a backend's watcher; neither backend refuses.\<close>

definition spawn_watcher :: "session_env \<Rightarrow> clip_backend \<Rightarrow> watcher res" where
  "spawn_watcher env b =
     (case b of
        WaylandClipboard \<Rightarrow> Inr WlWatch
      | X11Clipboard tool \<Rightarrow> Inr (if binary_in_path env ''clipnotify'' then ClipNotify tool else Polling tool))"

definition try_start_watcher :: "session_env \<Rightarrow> bool \<Rightarrow> 'z clip_daemon_scheme \<Rightarrow> 'z clip_daemon_scheme" where
  "try_start_watcher env in_runtime s =
     (if watcher_started s then s
      else (case (clip_has_manager s, clip_backend s) of
              (True, Some b) \<Rightarrow>
                if \<not> in_runtime then s
                else (case spawn_watcher env b of
                        Inl _ \<Rightarrow> s\<lparr>watcher_started := False\<rparr>
                      | Inr w \<Rightarrow> s\<lparr>watcher_started := True, watchers := watchers s @ [w]\<rparr>)
            | _ \<Rightarrow> s))"

definition with_connection_manager :: "session_env \<Rightarrow> bool \<Rightarrow> 'z clip_daemon_scheme \<Rightarrow> 'z clip_daemon_scheme" where
  "with_connection_manager env in_runtime s = try_start_watcher env in_runtime (s\<lparr>clip_has_manager := True\<rparr>)"

definition set_backend :: "session_env \<Rightarrow> bool \<Rightarrow> clip_backend \<Rightarrow> 'z clip_daemon_scheme \<Rightarrow> 'z clip_daemon_scheme" where
  "set_backend env in_runtime b s = try_start_watcher env in_runtime (s\<lparr>clip_backend := Some b\<rparr>)"

definition enable_session_backend :: "session_env \<Rightarrow> bool \<Rightarrow> 'z clip_daemon_scheme \<Rightarrow> 'z clip_daemon_scheme" where
  "enable_session_backend env in_runtime s =
     (let backend = (case from_env_presence (env_wayland_display env) (env_display env) of
                       Wayland \<Rightarrow> detect_wayland env
                     | X11 \<Rightarrow> detect_x11 env
                     | NoDisplay \<Rightarrow> None)
      in case backend of Some b \<Rightarrow> set_backend env in_runtime b s | None \<Rightarrow> s)"

definition clipboard_available :: "'z clip_daemon_scheme \<Rightarrow> bool" where
  "clipboard_available s \<longleftrightarrow> clip_backend s \<noteq> None"

section \<open>The plugin\<close>

text \<open>What the task behind the watcher does with one report.\<close>

definition local_change ::
    "externals \<Rightarrow> ((device_key \<rightharpoonup> connection) \<Rightarrow> device_key list) \<Rightarrow> i64 \<Rightarrow> instant \<Rightarrow> (nat \<Rightarrow> clock) \<Rightarrow> string
     \<Rightarrow> 'z clip_daemon_scheme \<Rightarrow> 'z clip_daemon_scheme" where
  "local_change E iter pid now clks content s =
     (case apply_local_change pid now content s of
        (None, s1) \<Rightarrow> s1
      | (Some p, s1) \<Rightarrow> snd (fan_out E (\<lambda>_ _. True) (connected_device_ids iter s1) p clks s1))"

definition clipboard_connected :: "i64 \<Rightarrow> 'z clip_daemon_scheme \<Rightarrow> packet list" where
  "clipboard_connected pid s =
     (case clip_content s of
        Some content \<Rightarrow>
          if content \<noteq> [] \<and> 0 < sint (clip_timestamp s) then
            [new_packet pid ''kdeconnect.clipboard.connect''
               (JObj [(''content'', JStr content), (''timestamp'', JNum (num_of_i64 (clip_timestamp s)))])]
          else []
      | None \<Rightarrow> [])"

definition clipboard_handle :: "write_run option \<Rightarrow> instant \<Rightarrow> 'z clip_daemon_scheme handler" where
  "clipboard_handle run now did pkt s =
     (HResult (Inr None),
      if packet_type pkt = ''kdeconnect.clipboard'' then
        (case Option.bind (json_get (packet_body pkt) ''content'') json_as_str of
           None \<Rightarrow> s
         | Some content \<Rightarrow> write_to_session run content (apply_remote now did content s))
      else if packet_type pkt = ''kdeconnect.clipboard.connect'' then
        (let sent_at = (case Option.bind (json_get (packet_body pkt) ''timestamp'') json_as_i64 of Some t \<Rightarrow> t | None \<Rightarrow> 0) in
         case Option.bind (json_get (packet_body pkt) ''content'') json_as_str of
           None \<Rightarrow> s
         | Some content \<Rightarrow>
             (case apply_remote_connect did content sent_at s of
                (True, s1) \<Rightarrow> write_to_session run content s1
              | (False, s1) \<Rightarrow> s1))
      else s)"

definition clipboard_plugin :: "write_run option \<Rightarrow> instant \<Rightarrow> i64 \<Rightarrow> 'z clip_daemon_scheme plugin" where
  "clipboard_plugin run now pid = \<lparr>pl_name = ''clipboard'', pl_incoming = [''kdeconnect.clipboard'', ''kdeconnect.clipboard.connect''],
     pl_outgoing = [''kdeconnect.clipboard'', ''kdeconnect.clipboard.connect''], pl_handle = clipboard_handle run now,
     pl_on_connected = (\<lambda>did s. (clipboard_connected pid s, s)), pl_on_disconnected = (\<lambda>did s. s)\<rparr>"

section \<open>The HTTP handlers\<close>

definition get_clipboard :: "'z clip_daemon_scheme \<Rightarrow> string option" where
  "get_clipboard s = get_content s"

text \<open>The answer counts the devices and the failed sends.\<close>

definition set_clipboard ::
    "externals \<Rightarrow> ((device_key \<rightharpoonup> connection) \<Rightarrow> device_key list) \<Rightarrow> i64 \<Rightarrow> instant \<Rightarrow> (nat \<Rightarrow> clock) \<Rightarrow> json
     \<Rightarrow> ('z clip_daemon_scheme, nat \<times> nat) op" where
  "set_clipboard E iter pid now clks body s =
     (case json_get body ''content'' of
        Some (JStr content) \<Rightarrow>
          (let ids = connected_device_ids iter s;
               (failed, s1) = fan_out E (\<lambda>_ _. True) ids (content_packet pid content) clks s
           in (Inr (length ids, failed), update_content None content None now s1))
      | None \<Rightarrow> (Inl (InvalidRequest ''content field required''), s)
      | Some _ \<Rightarrow> (Inl (InvalidRequest ''content field must be a string''), s))"

definition request_clipboard :: "externals \<Rightarrow> i64 \<Rightarrow> device_key \<Rightarrow> clock \<Rightarrow> ('z clip_daemon_scheme, unit) op" where
  "request_clipboard E pid did clk s =
     (case validate_device_id E did of
        Inl e \<Rightarrow> (Inl e, s)
      | Inr _ \<Rightarrow> send_packet E did (new_packet pid ''kdeconnect.clipboard.connect'' (JObj [(''timestamp'', JNum (PosInt 1))])) clk s)"

section \<open>Watchers\<close>

text \<open>The poll sends a content only when it differs from the one before it; an unreadable clipboard
  keeps the last one in mind, an empty one forgets it. This is the sequence of reads with
  repetitions dropped, as long as the hash tells the contents apart and the receiver listens.\<close>

fun changes :: "string option \<Rightarrow> string option list \<Rightarrow> string list" where
  "changes old [] = []"
| "changes old (None # rs) = changes None rs"
| "changes old (Some c # rs) = (if old = Some c then changes old rs else c # changes (Some c) rs)"

definition reads_of :: "x11_tool \<Rightarrow> (read_run \<times> bool) list \<Rightarrow> string option list" where
  "reads_of tool rs = List.map_filter (\<lambda>(run, op). case read_x11_clipboard_once tool run of Inr r \<Rightarrow> Some r | Inl _ \<Rightarrow> None) rs"

theorem poll_sends_changes:
  assumes "inj content_hash" and "\<forall>(run, is_open) \<in> set rs. is_open"
  shows "poll_from content_hash tool (map_option content_hash old) rs = (None, changes old (reads_of tool rs))"
  using assms(2)
proof (induction rs arbitrary: old)
  case (Cons x rs)
  obtain run where x: "x = (run, True)" using Cons.prems by (cases x) auto
  have inj: "(map_option content_hash old = Some (content_hash c)) = (old = Some c)" for c
    using assms(1) by (cases old) (auto dest: injD)
  have IH: "poll_from content_hash tool (map_option content_hash o') rs = (None, changes o' (reads_of tool rs))" for o'
    using Cons by simp
  show ?case
  proof (cases "read_x11_clipboard_once tool run")
    case (Inl e)
    then show ?thesis using IH by (simp add: x reads_of_def List.map_filter_simps)
  next
    case (Inr r)
    then show ?thesis
      using IH [of old] IH [of None] IH [of r] inj
      by (cases r) (simp_all add: x reads_of_def List.map_filter_simps Let_def)
  qed
qed (simp add: reads_of_def List.map_filter_simps)

text \<open>The supervisor sleeps between half a second and half a minute, and no longer than twice the
  time before.\<close>

lemma supervise_from_bounds:
  "500 \<le> b \<Longrightarrow> b \<le> 30000 \<Longrightarrow> \<forall>n \<in> set (supervise_from b rs). 500 \<le> n \<and> n \<le> 30000"
  by (induction b rs rule: supervise_from.induct)
     (auto simp: Let_def WATCHER_HEALTHY_AFTER_def WATCHER_INITIAL_BACKOFF_def WATCHER_MAX_BACKOFF_def)

theorem supervise_watcher_bounds: "\<forall>n \<in> set (supervise_watcher rs). 500 \<le> n \<and> n \<le> 30000"
  unfolding supervise_watcher_def by (rule supervise_from_bounds) (simp_all add: WATCHER_INITIAL_BACKOFF_def)

text \<open>However the start-up calls come, one watcher runs at most, and it is the one of the backend that was
  there when it started.\<close>

inductive startup_step :: "session_env \<Rightarrow> 'z clip_daemon_scheme \<Rightarrow> 'z clip_daemon_scheme \<Rightarrow> bool" for env where
  "startup_step env s (with_connection_manager env rt s)"
| "startup_step env s (set_backend env rt b s)"
| "startup_step env s (enable_session_backend env rt s)"

definition one_watcher :: "'z clip_daemon_scheme \<Rightarrow> bool" where
  "one_watcher s \<longleftrightarrow> length (watchers s) = (if watcher_started s then 1 else 0)"

lemma try_start_one: "one_watcher s \<Longrightarrow> one_watcher (try_start_watcher env rt s)"
  by (auto simp: try_start_watcher_def one_watcher_def split: option.split bool.split sum.split)

interpretation startup: machine "startup_step env" one_watcher
proof
  fix s t :: "'a clip_daemon_scheme"
  assume "startup_step env s t" and inv: "one_watcher s"
  moreover have "one_watcher (set_backend env rt b s)" for rt b
    unfolding set_backend_def by (rule try_start_one) (use inv in \<open>simp add: one_watcher_def\<close>)
  moreover have "one_watcher (with_connection_manager env rt s)" for rt
    unfolding with_connection_manager_def by (rule try_start_one) (use inv in \<open>simp add: one_watcher_def\<close>)
  ultimately show "one_watcher t"
    by cases (auto simp: enable_session_backend_def Let_def split: option.split)
qed

section \<open>Content between daemons\<close>

lemma write_to_session_frame [simp]:
  "clip_content (write_to_session run c s) = clip_content s" "clip_timestamp (write_to_session run c s) = clip_timestamp s"
  by (simp_all add: write_to_session_def split: option.split sum.split)

lemma handle_content:
  "clip_content (snd (clipboard_handle run now did (content_packet pid c) s)) = Some c"
  by (simp add: clipboard_handle_def content_packet_def new_packet_def apply_remote_def)

text \<open>Devices that all know each other, each a daemon with this plugin: packets under way to a device, and
  reports of a device's own watcher about content that was written to its session and that the
  task behind the watcher has not handled yet. A report can also be lost.\<close>

record 'n clip_net =
  net_daemon :: "'n \<Rightarrow> clip_daemon"
  net_packets :: "('n \<times> packet) multiset"
  net_reports :: "('n \<times> string) multiset"

definition pushed :: "'n set \<Rightarrow> 'n \<Rightarrow> packet option \<Rightarrow> ('n \<times> packet) multiset" where
  "pushed V n p = (case p of None \<Rightarrow> {#} | Some q \<Rightarrow> image_mset (\<lambda>m. (m, q)) (mset_set (V - {n})))"

definition net_report :: "'n set \<Rightarrow> 'n \<Rightarrow> i64 \<Rightarrow> instant \<Rightarrow> string \<Rightarrow> 'n clip_net \<Rightarrow> 'n clip_net" where
  "net_report V n pid now c N =
     (let (p, s) = apply_local_change pid now c (net_daemon N n)
      in N\<lparr>net_daemon := (net_daemon N)(n := s), net_packets := net_packets N + pushed V n p\<rparr>)"

definition net_deliver :: "'n \<Rightarrow> packet \<Rightarrow> write_run option \<Rightarrow> instant \<Rightarrow> device_key \<Rightarrow> 'n clip_net \<Rightarrow> 'n clip_net" where
  "net_deliver n p run now did N =
     (let s = net_daemon N n; t = snd (clipboard_handle run now did p s)
      in N\<lparr>net_daemon := (net_daemon N)(n := t), net_packets := net_packets N - {#(n, p)#},
           net_reports := net_reports N + image_mset (Pair n) (mset (drop (length (session_writes s)) (session_writes t)))\<rparr>)"

inductive net_step :: "'n set \<Rightarrow> 'n clip_net \<Rightarrow> 'n clip_net \<Rightarrow> bool" for V where
  net_delivered: "(n, p) \<in># net_packets N \<Longrightarrow> net_step V N (net_deliver n p run now did N)"
| net_reported: "(n, c) \<in># net_reports N \<Longrightarrow>
     net_step V N (net_report V n pid now c (N\<lparr>net_reports := net_reports N - {#(n, c)#}\<rparr>))"
| net_lost: "x \<in># net_reports N \<Longrightarrow> net_step V N (N\<lparr>net_reports := net_reports N - {#x#}\<rparr>)"

text \<open>While a content spreads, all packets and reports carry it, a device with a report has it, and a
  device that has it not is about to receive it.\<close>

definition spreading :: "'n set \<Rightarrow> packet \<Rightarrow> string \<Rightarrow> 'n clip_net \<Rightarrow> bool" where
  "spreading V p c N \<longleftrightarrow> set_mset (net_packets N) \<subseteq> V \<times> {p}
     \<and> (\<forall>n x. (n, x) \<in># net_reports N \<longrightarrow> x = c \<and> clip_content (net_daemon N n) = Some c)
     \<and> (\<forall>n \<in> V. clip_content (net_daemon N n) = Some c \<or> (n, p) \<in># net_packets N)"

definition net_load :: "'n clip_net \<Rightarrow> nat" where
  "net_load N = 2 * size (net_packets N) + size (net_reports N)"

lemma new_session_writes:
  "drop (length (session_writes s)) (session_writes (snd (clipboard_handle run now did (content_packet pid c) s))) \<in> {[], [c]}"
  by (auto simp: clipboard_handle_def content_packet_def new_packet_def apply_remote_def write_to_session_def
      split: option.split sum.split)

lemma deliver_spreads:
  assumes "spreading V (content_packet pid c) c N" and "(n, p) \<in># net_packets N"
  shows "spreading V (content_packet pid c) c (net_deliver n p run now did N) \<and> net_load (net_deliver n p run now did N) < net_load N"
proof -
  let ?q = "content_packet pid c"
  have p: "p = ?q" using assms by (auto simp: spreading_def)
  let ?t = "snd (clipboard_handle run now did p (net_daemon N n))"
  let ?w = "drop (length (session_writes (net_daemon N n))) (session_writes ?t)"
  have w: "?w = [] \<or> ?w = [c]" using new_session_writes [of "net_daemon N n" run now did pid c] p by simp
  have t: "clip_content ?t = Some c" by (simp add: p handle_content)
  have kept: "(m, ?q) \<in># net_packets N - {#(n, p)#}" if "m \<noteq> n" "(m, ?q) \<in># net_packets N" for m
    using that by (simp add: in_diff_count)
  have "spreading V ?q c (net_deliver n p run now did N)"
    using assms w t kept unfolding spreading_def net_deliver_def Let_def
    by (auto dest: in_diffD)
  moreover have "size (net_packets N - {#(n, p)#}) < size (net_packets N)"
    using assms(2) by (rule size_Diff1_less)
  moreover have "length ?w \<le> 1" using w by (elim disjE) (simp_all only: list.size)
  ultimately show ?thesis
    by (auto simp: net_load_def net_deliver_def Let_def)
qed

lemma report_spreads:
  assumes "spreading V (content_packet pid c) c N" and "(n, x) \<in># net_reports N"
  shows "net_report V n i now x (N\<lparr>net_reports := net_reports N - {#(n, x)#}\<rparr>)
       = N\<lparr>net_reports := net_reports N - {#(n, x)#}\<rparr>"
proof -
  have "clip_content (net_daemon N n) = Some x" using assms by (auto simp: spreading_def)
  then show ?thesis by (auto simp: net_report_def apply_local_change_def pushed_def Let_def)
qed

lemma lost_spreads:
  assumes "spreading V p c N" and "x \<in># net_reports N"
  shows "spreading V p c (N\<lparr>net_reports := net_reports N - {#x#}\<rparr>) \<and> net_load (N\<lparr>net_reports := net_reports N - {#x#}\<rparr>) < net_load N"
proof -
  have "size (net_reports N - {#x#}) < size (net_reports N)"
    using assms(2) by (rule size_Diff1_less)
  with assms(1) show ?thesis by (auto simp: spreading_def net_load_def dest: in_diffD)
qed

lemma net_step_spreads:
  assumes "net_step V N M" and "spreading V (content_packet pid c) c N"
  shows "spreading V (content_packet pid c) c M \<and> net_load M < net_load N"
  using assms(1)
proof cases
  case (net_delivered n p run now did)
  with deliver_spreads [OF assms(2)] show ?thesis by simp
next
  case (net_reported n x i now)
  with report_spreads [OF assms(2)] lost_spreads [OF assms(2)] show ?thesis by simp
next
  case (net_lost x)
  with lost_spreads [OF assms(2)] show ?thesis by simp
qed

lemma net_run_spreads:
  assumes "(net_step V ^^ k) N M" and "spreading V (content_packet pid c) c N"
  shows "spreading V (content_packet pid c) c M \<and> net_load M + k \<le> net_load N"
  using assms(1)
proof (induction k arbitrary: M)
  case 0
  with assms(2) show ?case by simp
next
  case (Suc k)
  then obtain L where "(net_step V ^^ k) N L" "net_step V L M" by auto
  with Suc.IH net_step_spreads [of V L M] show ?case by fastforce
qed

lemma push_spreads:
  assumes "finite V" and "c \<noteq> []" and "clip_content (net_daemon N n) \<noteq> Some c"
    and "net_packets N = {#}" and "net_reports N = {#}"
  shows "spreading V (content_packet pid c) c (net_report V n pid now c N) \<and> net_load (net_report V n pid now c N) = 2 * card (V - {n})"
  using assms by (auto simp: net_report_def apply_local_change_def pushed_def spreading_def net_load_def Let_def)

lemma waiting_empty: "\<not> (\<exists>M. net_step V N M) \<Longrightarrow> net_packets N = {#}"
  by (metis multiset_nonemptyE net_delivered surj_pair)

section \<open>What the plugin guarantees\<close>

text \<open>Property C26.
  A copied text reaches every device and comes to rest. Among daemons that know each other and are
  at rest, one copies a text that is not its content already. However the packets are delivered, the
  texts written to the sessions and the watchers' reports about those writes handled or lost, the
  copying device's packets are the only ones that are ever sent: no device sends the text back or on. A run
  has at most two steps for each other device, every device that has not got the text has it under way, and
  when nothing more can happen all of them have it.\<close>

theorem clipboard_sync_settles:
  assumes "finite V" and "a \<in> V" and "c \<noteq> []" and "clip_content (net_daemon N0 a) \<noteq> Some c"
    and "net_packets N0 = {#}" and "net_reports N0 = {#}"
    and "(net_step V ^^ k) (net_report V a pid now c N0) N"
  shows "k \<le> 2 * (card V - 1) \<and> size (net_packets N) \<le> card V - 1
    \<and> set_mset (net_packets N) \<subseteq> V \<times> {content_packet pid c}
    \<and> (\<forall>n \<in> V. clip_content (net_daemon N n) = Some c \<or> (n, content_packet pid c) \<in># net_packets N)
    \<and> (\<not> (\<exists>M. net_step V N M) \<longrightarrow> (\<forall>n \<in> V. clip_content (net_daemon N n) = Some c))"
proof -
  have card: "card (V - {a}) = card V - 1" using assms(1,2) by simp
  note start = push_spreads [OF assms(1,3-6), of pid now]
  note run = net_run_spreads [OF assms(7) conjunct1 [OF start]]
  then have "spreading V (content_packet pid c) c N" "net_load N + k \<le> 2 * (card V - 1)" using start card by auto
  then show ?thesis
    using waiting_empty [of V N] by (auto simp: spreading_def net_load_def)
qed

definition demo_clip :: clip_daemon where
  "demo_clip = daemon.extend demo_daemon (clip_daemon.fields None 0 (Some WaylandClipboard) True True [WlWatch] [] [])"

lemma demo_clip_simps [simp]:
  "clip_content demo_clip = None" "clip_timestamp demo_clip = 0" "clip_backend demo_clip = Some WaylandClipboard"
  "session_writes demo_clip = []" "connections demo_clip = [demo_id \<mapsto> demo_peer]" "paired demo_clip = Map.empty"
  "peer_capabilities demo_clip = Map.empty"
  by (simp_all add: demo_clip_def daemon.extend_def clip_daemon.fields_def)
     (simp add: demo_daemon_def conn_mgr.extend_def daemon.fields_def)

definition demo_net :: "bool clip_net" where
  "demo_net = \<lparr>net_daemon = \<lambda>_. demo_clip, net_packets = {#}, net_reports = {#}\<rparr>"

theorem clipboard_sync_settles_witness:
  "let N = net_deliver False (content_packet 1 ''hi'') (Some (Ended (Some 0))) 0 ''laptop'' (net_report UNIV True 1 0 ''hi'' demo_net)
   in net_packets N = {#} \<and> (\<forall>n. clip_content (net_daemon N n) = Some ''hi'')"
proof -
  let ?N1 = "net_report UNIV True 1 0 ''hi'' demo_net"
  let ?p = "content_packet 1 ''hi''"
  let ?N = "net_deliver False ?p (Some (Ended (Some 0))) 0 ''laptop'' ?N1"
  have "(UNIV :: bool set) - {True} = {False}" by auto
  then have sent: "net_packets ?N1 = {#(False, ?p)#}"
    by (simp add: net_report_def demo_net_def apply_local_change_def pushed_def)
  then have "net_step UNIV ?N1 ?N" by (simp add: net_delivered)
  then have "(net_step UNIV ^^ 1) ?N1 ?N" by (simp add: relcompp.simps)
  then have "\<forall>n \<in> UNIV. clip_content (net_daemon ?N n) = Some ''hi'' \<or> (n, ?p) \<in># net_packets ?N"
    using clipboard_sync_settles [of "UNIV :: bool set" True "''hi''" demo_net 1 1 0 ?N] by (simp add: demo_net_def)
  moreover have "net_packets ?N = {#}" by (simp add: net_deliver_def Let_def sent)
  ultimately show ?thesis by (simp add: Let_def)
qed

text \<open>The suppression compares with the newest content only. When two packets with different texts are handled
  before the reports about their writes, the reports send both texts back: between two daemons the
  pair of packets then goes round for ever.\<close>

theorem stale_reports_go_round:
  assumes "x \<noteq> y" and "a \<noteq> b" and "a \<noteq> []" and "b \<noteq> []" and "clip_backend (net_daemon N x) \<noteq> None"
    and "net_packets N = {#(x, content_packet i a), (x, content_packet i b)#}" and "net_reports N = {#}"
  shows "\<exists>M. (net_step {x, y} ^^ 4) N M \<and> net_packets M = {#(y, content_packet i a), (y, content_packet i b)#}
    \<and> net_reports M = {#} \<and> (\<forall>n. clip_backend (net_daemon M n) = clip_backend (net_daemon N n))"
proof -
  obtain bk where bk: "clip_backend (net_daemon N x) = Some bk" using assms(5) by auto
  have others: "{x, y} - {x} = {y}" using assms(1) by auto
  let ?ok = "Some (Ended (Some 0))"
  have ok: "backend_set bk (Ended (Some 0)) = Inr ()"
    by (cases bk) (simp_all add: wl_write_def x11_write_def feed_program_def status_success_def)
  define N1 where "N1 = net_deliver x (content_packet i a) ?ok 0 [] N"
  define N2 where "N2 = net_deliver x (content_packet i b) ?ok 0 [] N1"
  define N3 where "N3 = net_report {x, y} x i 0 a (N2\<lparr>net_reports := net_reports N2 - {#(x, a)#}\<rparr>)"
  define N4 where "N4 = net_report {x, y} x i 0 b (N3\<lparr>net_reports := net_reports N3 - {#(x, b)#}\<rparr>)"
  note handled = clipboard_handle_def content_packet_def new_packet_def apply_remote_def write_to_session_def
  have n1: "net_packets N1 = {#(x, content_packet i b)#}" "net_reports N1 = {#(x, a)#}"
      "clip_backend (net_daemon N1 x) = Some bk" "\<And>n. n \<noteq> x \<Longrightarrow> net_daemon N1 n = net_daemon N n"
    using assms(6,7) bk ok by (simp_all add: N1_def net_deliver_def Let_def handled)
  have n2: "net_packets N2 = {#}" "net_reports N2 = {#(x, a), (x, b)#}" "clip_content (net_daemon N2 x) = Some b"
      "clip_backend (net_daemon N2 x) = Some bk" "\<And>n. n \<noteq> x \<Longrightarrow> net_daemon N2 n = net_daemon N n"
    using n1 ok by (simp_all add: N2_def net_deliver_def Let_def handled add_mset_commute)
  have n3: "net_packets N3 = {#(y, content_packet i a)#}" "net_reports N3 = {#(x, b)#}" "clip_content (net_daemon N3 x) = Some a"
      "clip_backend (net_daemon N3 x) = Some bk" "\<And>n. n \<noteq> x \<Longrightarrow> net_daemon N3 n = net_daemon N n"
    using n2 assms(2,3) others by (simp_all add: N3_def net_report_def apply_local_change_def pushed_def Let_def)
  have n4: "net_packets N4 = {#(y, content_packet i a), (y, content_packet i b)#}" "net_reports N4 = {#}"
      "\<And>n. clip_backend (net_daemon N4 n) = clip_backend (net_daemon N n)"
    using n3 assms(2,4) others bk by (auto simp: N4_def net_report_def apply_local_change_def pushed_def Let_def)
  have "net_step {x, y} N N1" unfolding N1_def using assms(6) by (intro net_delivered) simp
  moreover have "net_step {x, y} N1 N2" unfolding N2_def using n1 by (intro net_delivered) simp
  moreover have "net_step {x, y} N2 N3" unfolding N3_def using n2 by (intro net_reported) simp
  moreover have "net_step {x, y} N3 N4" unfolding N4_def using n3 by (intro net_reported) simp
  ultimately have "(net_step {x, y} ^^ 4) N N4" by (simp add: numeral_eq_Suc relcompp.relcompI) blast
  with n4 show ?thesis by blast
qed

text \<open>Reconnecting daemons agree on the newer content: when two of them, each with a content and the time
  it got it, connect and each handles what the other says on connecting, both end with the content of
  the later time, and the one that had it keeps it. With equal times each takes the other's.\<close>

theorem reconnect_newest_wins:
  assumes "clip_content s = Some c" and "clip_content t = Some d" and "c \<noteq> []" and "d \<noteq> []"
    and "0 < sint (clip_timestamp s)" and "0 < sint (clip_timestamp t)"
  shows "let s' = fold (\<lambda>p u. snd (clipboard_handle run now y p u)) (clipboard_connected i t) s;
             t' = fold (\<lambda>p u. snd (clipboard_handle run' now' x p u)) (clipboard_connected j s) t
    in (sint (clip_timestamp s) < sint (clip_timestamp t) \<longrightarrow> clip_content s' = Some d \<and> clip_timestamp s' = clip_timestamp t \<and> t' = t)
     \<and> (sint (clip_timestamp t) < sint (clip_timestamp s) \<longrightarrow> clip_content t' = Some c \<and> clip_timestamp t' = clip_timestamp s \<and> s' = s)
     \<and> (clip_timestamp s = clip_timestamp t \<longrightarrow> clip_content s' = Some d \<and> clip_content t' = Some c)"
proof -
  have handled: "snd (clipboard_handle run now did (new_packet i ''kdeconnect.clipboard.connect''
        (JObj [(''content'', JStr c), (''timestamp'', JNum (num_of_i64 ts))])) u)
      = (if ts = 0 \<or> sint ts < sint (clip_timestamp u) then u
         else write_to_session run c (snd (apply_remote_connect did c ts u)))" for run now did i c ts and u :: "'z clip_daemon_scheme"
    by (simp add: clipboard_handle_def new_packet_def apply_remote_connect_def)
  have "clip_timestamp s \<noteq> 0" "clip_timestamp t \<noteq> 0" using assms(5,6) by auto
  with assms show ?thesis
    by (simp add: clipboard_connected_def handled Let_def) (simp add: apply_remote_connect_def)
qed

theorem reconnect_newest_wins_witness:
  "let s = demo_clip\<lparr>clip_content := Some ''old'', clip_timestamp := 5\<rparr>; t = demo_clip\<lparr>clip_content := Some ''new'', clip_timestamp := 9\<rparr>
   in clip_content (fold (\<lambda>p u. snd (clipboard_handle None 0 ''t'' p u)) (clipboard_connected 1 t) s) = Some ''new''"
  using reconnect_newest_wins [of "demo_clip\<lparr>clip_content := Some ''old'', clip_timestamp := 5\<rparr>" "''old''"
      "demo_clip\<lparr>clip_content := Some ''new'', clip_timestamp := 9\<rparr>" "''new''" None 0 "''t''" 1 None 0 "''s''" 2]
  by (simp add: Let_def)

text \<open>Property C40.
  The clipboard leaves for devices that are not paired: whatever the user copies is written in full to the link of
  every connected device that takes clipboard packets, or whose capabilities are not known, whether it is
  paired or not. Any host of the local network can open such a link.\<close>

theorem clipboard_reaches_unpaired:
  assumes "iter_ok iter" and "finite (dom (connections s))" and "\<not> is_paired d s" and "connections s d = Some h" and "cn_writes h = []"
    and "case peer_capabilities s d of Some inc \<Rightarrow> ''kdeconnect.clipboard'' \<in> set inc | None \<Rightarrow> True"
    and "content \<noteq> []" and "clip_content s \<noteq> Some content"
  shows "\<exists>h'. connections (local_change E iter pid now clks content s) d = Some h'
    \<and> cn_written h' = cn_written h @ serialize E (content_packet pid content)"
proof -
  define s1 where "s1 = snd (apply_local_change pid now content s)"
  have changed: "apply_local_change pid now content s = (Some (content_packet pid content), s1)"
    using assms(7,8) by (simp add: s1_def apply_local_change_def)
  have s1: "connections s1 = connections s" "peer_capabilities s1 = peer_capabilities s"
    using assms(7,8) by (simp_all add: s1_def apply_local_change_def)
  have ids: "distinct (connected_device_ids iter s1)" "d \<in> set (connected_device_ids iter s1)"
    using assms(1,2,4) s1 by (auto simp: connected_device_ids_def iter_ok_def)
  have "\<not> refuses_type d (content_packet pid content) s1"
    using assms(6) s1 by (auto simp: refuses_type_def content_packet_def new_packet_def split: option.splits)
  then have "\<exists>h'. connections (snd (fan_out E (\<lambda>_ _. True) (connected_device_ids iter s1) (content_packet pid content) clks s1)) d = Some h'
      \<and> cn_written h' = cn_written h @ serialize E (content_packet pid content)"
    using assms(4,5) s1 ids by (intro fan_out_writes) simp_all
  then show ?thesis by (simp add: local_change_def changed)
qed

theorem clipboard_reaches_unpaired_witness:
  "\<not> is_paired demo_id demo_clip
   \<and> (\<exists>h'. connections (local_change demo_externals demo_links 1 0 (\<lambda>_ _. 0) ''secret'' demo_clip) demo_id = Some h'
        \<and> cn_written h' = serialize demo_externals (content_packet 1 ''secret''))"
proof -
  have "\<not> is_paired demo_id demo_clip" by (simp add: is_paired_def)
  moreover have "cn_writes demo_peer = []" "cn_written demo_peer = []" by (simp_all add: demo_peer_def new_link_def)
  ultimately show ?thesis
    using clipboard_reaches_unpaired [OF iter_ok_links, of demo_clip demo_id demo_peer "''secret''" demo_externals 1 0 "\<lambda>_ _. 0"]
    by simp
qed

end
