(* ===== verification/Mpris.thy ===== *)
theory Mpris
  imports Fan_Out Payload "HOL-Library.Signed_Division"
begin

text \<open>
  Media control (\<open>src/plugins/mpris/mod.rs\<close>, \<open>src/plugins/mpris/zbus_backend.rs\<close>): the players of this
  desktop, which devices may list, watch and control, and the players of the devices, which this daemon
  mirrors. The desktop's bus is a map from service names to players, given to each operation that
  reads it; calls that go out on it are kept in a list. A volume is the percentage the code computes
  from the player's floating-point number.
\<close>

section \<open>Data\<close>

definition MPRIS_SERVICE_PREFIX :: string where "MPRIS_SERVICE_PREFIX = ''org.mpris.MediaPlayer2.''"

definition ALLOWED_ACTIONS :: "string list" where
  "ALLOWED_ACTIONS = [''PlayPause'', ''Play'', ''Pause'', ''Next'', ''Previous'', ''Stop'']"

definition ALBUM_ART_MAX_BYTES :: u64 where "ALBUM_ART_MAX_BYTES = 32 * 1024 * 1024"

definition MAX_PLAYERS_PER_DEVICE :: nat where "MAX_PLAYERS_PER_DEVICE = 32"

text \<open>A device's player, as the device describes it.\<close>

record mpris_info =
  mi_player :: "string option"
  mi_player_list :: "string list option"
  mi_title :: "string option"
  mi_artist :: "string option"
  mi_album :: "string option"
  mi_length :: "i64 option"
  mi_position :: "i64 option"
  mi_can_play :: bool
  mi_can_go_next :: bool
  mi_can_go_previous :: bool
  mi_is_playing :: bool
  mi_volume :: "jnumber option"
  mi_can_seek :: "bool option"
  mi_loop_status :: "string option"
  mi_shuffle :: "bool option"
  mi_album_art_url :: "string option"
  mi_transferring_album_art :: bool

text \<open>A player of this desktop.\<close>

record local_player_state =
  lp_service :: string
  lp_name :: string
  lp_title :: string
  lp_artist :: string
  lp_album :: string
  lp_album_art_url :: string
  lp_url :: string
  lp_length_ms :: i64
  lp_position_ms :: i64
  lp_is_playing :: bool
  lp_volume :: i64
  lp_can_play :: bool
  lp_can_pause :: bool
  lp_can_go_next :: bool
  lp_can_go_previous :: bool
  lp_can_seek :: bool
  lp_loop_status :: "string option"
  lp_shuffle :: "bool option"

record player_props_changed =
  pc_volume :: "i64 option"
  pc_metadata :: bool
  pc_playback_status :: "bool option"
  pc_loop_status :: "string option"
  pc_shuffle :: "bool option"
  pc_can_pause :: "bool option"
  pc_can_play :: "bool option"
  pc_can_go_next :: "bool option"
  pc_can_go_previous :: "bool option"
  pc_can_seek :: "bool option"

datatype backend_event =
    PlayerAdded local_player_state
  | PlayerRemoved string
  | PropertiesChanged local_player_state player_props_changed
  | Seeked string i64
  | BackendLost

type_synonym players = "string \<rightharpoonup> local_player_state"
type_synonym player_order = "players \<Rightarrow> string list"

text \<open>What the bus says of a player: a property that cannot be read is \<open>None\<close>; of the metadata the
  entries that are used, missing or of another type as \<open>None\<close>.\<close>

record media_player =
  mp_identity :: "string option"
  mp_title :: "string option"
  mp_artists :: "string list option"
  mp_album :: "string option"
  mp_url :: "string option"
  mp_art_url :: "string option"
  mp_length_us :: "i64 option"
  mp_track_id :: "string option"
  mp_position_us :: "i64 option"
  mp_playback_status :: "string option"
  mp_volume :: "i64 option"
  mp_can_play :: "bool option"
  mp_can_pause :: "bool option"
  mp_can_go_next :: "bool option"
  mp_can_go_previous :: "bool option"
  mp_can_seek :: "bool option"
  mp_loop_status :: "string option"
  mp_shuffle :: "bool option"

type_synonym bus = "string \<rightharpoonup> media_player"

datatype bus_call =
    Invoke string string
  | PutLoopStatus string string
  | PutShuffle string bool
  | PutVolume string nat
  | SeekBy string i64
  | SetTrackPosition string string i64

text \<open>The backend on the bus: the service behind each display name, and the services that are listened to.\<close>

record zbus_backend =
  services :: "string \<rightharpoonup> string"
  listeners :: "string set"

record mpris_daemon = daemon +
  remote_players :: "device_key \<rightharpoonup> mpris_info list"
  local_players :: players
  mpris_backend :: "zbus_backend option"
  has_manager :: bool
  mpris_watching :: bool
  bus_calls :: "bus_call list"
  mpris_events :: "(device_key \<times> mpris_info) list"
  art_jobs :: "send_job list"

section \<open>Names\<close>

definition is_ignored_service :: "string \<Rightarrow> bool" where
  "is_ignored_service service \<longleftrightarrow> starts_with service ''org.mpris.MediaPlayer2.kdeconnect.''
     \<or> service = ''org.mpris.MediaPlayer2.playerctld''"

definition numbered :: "string \<Rightarrow> nat \<Rightarrow> string" where
  "numbered base i = base @ '' ['' @ show_nat i @ '']''"

lemma numbered_inj: "numbered base i = numbered base j \<longleftrightarrow> i = j"
  using show_nat_inj by (auto simp: numbered_def)

text \<open>The search for a free number; the names taken are finitely many, so it ends.\<close>

lemma taken_numbers_finite: "finite {j. i \<le> j \<and> numbered base j \<in> set taken}"
proof (rule finite_imageD)
  show "finite (numbered base ` {j. i \<le> j \<and> numbered base j \<in> set taken})"
    by (rule finite_subset [of _ "set taken"]) auto
  show "inj_on (numbered base) {j. i \<le> j \<and> numbered base j \<in> set taken}"
    by (simp add: inj_on_def numbered_inj)
qed

function next_free :: "string \<Rightarrow> string list \<Rightarrow> nat \<Rightarrow> string" where
  "next_free base taken i =
     (if numbered base i \<in> set taken then next_free base taken (Suc i) else numbered base i)"
  by pat_completeness auto
termination
proof (relation "measure (\<lambda>(base, taken, i). card {j. i \<le> j \<and> numbered base j \<in> set taken})")
  fix base taken and i :: nat
  assume "numbered base i \<in> set taken"
  then have "i \<in> {j. i \<le> j \<and> numbered base j \<in> set taken} - {j. Suc i \<le> j \<and> numbered base j \<in> set taken}" by simp
  then have "{j. Suc i \<le> j \<and> numbered base j \<in> set taken} \<subset> {j. i \<le> j \<and> numbered base j \<in> set taken}"
    using Suc_leD by blast
  then show "((base, taken, Suc i), base, taken, i) \<in> measure (\<lambda>(base, taken, i). card {j. i \<le> j \<and> numbered base j \<in> set taken})"
    using psubset_card_mono [OF taken_numbers_finite] by simp
qed simp

declare next_free.simps [simp del]

definition display_name_for :: "string \<Rightarrow> string \<Rightarrow> string list \<Rightarrow> string" where
  "display_name_for ident service taken =
     (let base = (if ident = [] then (case strip_prefix MPRIS_SERVICE_PREFIX service of Some r \<Rightarrow> r | None \<Rightarrow> service)
                  else ident)
      in if base \<in> set taken then next_free base taken 2 else base)"

definition filtered_player_names :: "player_order \<Rightarrow> players \<Rightarrow> string list" where
  "filtered_player_names iter players =
     (let ps = List.map_filter players (iter players);
          plasma = (\<lambda>p. starts_with (lp_service p) ''org.mpris.MediaPlayer2.plasma-browser-integration'');
          has_plasma_firefox = list_ex (\<lambda>p. plasma p \<and> str_contains (lp_name p) ''Firefox'') ps;
          has_plasma_chromium = list_ex (\<lambda>p. plasma p \<and> (str_contains (lp_name p) ''Chrome'' \<or> str_contains (lp_name p) ''Chromium'')) ps
      in sort (map lp_name (filter (\<lambda>p. \<not> (has_plasma_firefox \<and> starts_with (lp_service p) ''org.mpris.MediaPlayer2.firefox''
                                     \<or> has_plasma_chromium \<and> starts_with (lp_service p) ''org.mpris.MediaPlayer2.chromium'')) ps)))"

definition local_file_fallback :: "string \<Rightarrow> string \<Rightarrow> string \<Rightarrow> string \<Rightarrow> string \<times> string" where
  "local_file_fallback title artist album url =
     (if title = [] \<and> artist = [] then
        (case (case strip_prefix ''file://'' url of Some p \<Rightarrow> Some p
                                                 | None \<Rightarrow> if starts_with url ''/'' then Some url else None) of
           Some p \<Rightarrow>
             (let parts = filter (\<lambda>x. x \<noteq> []) (split_on (CHR ''/'') p) in
              if parts = [] then (title, album)
              else (last parts, if album = [] \<and> 1 < length parts then parts ! (length parts - 2) else album))
         | None \<Rightarrow> (title, album))
      else (title, album))"

section \<open>Reading a player of the bus\<close>

text \<open>Division of an \<open>i64\<close> rounds towards zero.\<close>

definition us_to_ms :: "i64 \<Rightarrow> i64" where
  "us_to_ms us = word_of_int (sint us sdiv 1000)"

fun join_with :: "string \<Rightarrow> string list \<Rightarrow> string" where
  "join_with sep [] = []"
| "join_with sep [x] = x"
| "join_with sep (x # xs) = x @ sep @ join_with sep xs"

definition read_state :: "string \<Rightarrow> string \<Rightarrow> media_player \<Rightarrow> local_player_state" where
  "read_state service name p =
     (let artist = join_with '', '' (or_default [] (mp_artists p));
          url = or_default [] (mp_url p);
          (title, album) = local_file_fallback (or_default [] (mp_title p)) artist (or_default [] (mp_album p)) url
      in \<lparr>lp_service = service, lp_name = name, lp_title = title, lp_artist = artist, lp_album = album,
          lp_album_art_url = or_default [] (mp_art_url p), lp_url = url,
          lp_length_ms = (case mp_length_us p of Some us \<Rightarrow> us_to_ms us | None \<Rightarrow> - 1),
          lp_position_ms = us_to_ms (or_default 0 (mp_position_us p)),
          lp_is_playing = (mp_playback_status p = Some ''Playing''),
          lp_volume = or_default 0 (mp_volume p), lp_can_play = or_default False (mp_can_play p),
          lp_can_pause = or_default False (mp_can_pause p), lp_can_go_next = or_default False (mp_can_go_next p),
          lp_can_go_previous = or_default False (mp_can_go_previous p), lp_can_seek = or_default False (mp_can_seek p),
          lp_loop_status = mp_loop_status p, lp_shuffle = mp_shuffle p\<rparr>)"

text \<open>Milliseconds to microseconds, saturating.\<close>

definition saturate_i64 :: "int \<Rightarrow> i64" where
  "saturate_i64 x = word_of_int (max (- (2 ^ 63)) (min (2 ^ 63 - 1) x))"

definition ms_to_us :: "i64 \<Rightarrow> i64" where
  "ms_to_us ms = saturate_i64 (sint ms * 1000)"

definition wire_volume_percent :: "i64 \<Rightarrow> nat" where
  "wire_volume_percent v = nat (max 0 (min 100 (sint v)))"

section \<open>The watched bus\<close>

text \<open>Whether the proxies of a service can be built is the caller's \<open>reachable\<close>. \<open>order\<close> iterates the
  table of names.\<close>

definition add_player ::
    "bus \<Rightarrow> (string \<Rightarrow> bool) \<Rightarrow> ((string \<rightharpoonup> string) \<Rightarrow> string list) \<Rightarrow> string \<Rightarrow> zbus_backend
     \<Rightarrow> backend_event list \<times> zbus_backend" where
  "add_player B reachable order service s =
     (if service \<in> ran (services s) then ([], s)
      else (let s1 = s\<lparr>listeners := listeners s - {service}\<rparr> in
            if \<not> reachable service then ([], s1)
            else (case B service of
                    None \<Rightarrow> ([], s1)
                  | Some p \<Rightarrow>
                      (let name = display_name_for (or_default [] (mp_identity p)) service (order (services s1))
                       in ([PlayerAdded (read_state service name p)],
                           s1\<lparr>services := (services s1)(name \<mapsto> service), listeners := insert service (listeners s1)\<rparr>)))))"

definition remove_player ::
    "((string \<rightharpoonup> string) \<Rightarrow> string list) \<Rightarrow> string \<Rightarrow> zbus_backend \<Rightarrow> backend_event list \<times> zbus_backend" where
  "remove_player order service s =
     (let s1 = s\<lparr>listeners := listeners s - {service}\<rparr> in
      case find (\<lambda>n. services s1 n = Some service) (order (services s1)) of
        Some name \<Rightarrow> ([PlayerRemoved service], s1\<lparr>services := hm_remove name (services s1)\<rparr>)
      | None \<Rightarrow> ([], s1))"

text \<open>A change of owner of a bus name: whether there was one and whether there is one.\<close>

definition owner_changed ::
    "bus \<Rightarrow> (string \<Rightarrow> bool) \<Rightarrow> ((string \<rightharpoonup> string) \<Rightarrow> string list) \<Rightarrow> string \<Rightarrow> bool \<Rightarrow> bool \<Rightarrow> zbus_backend
     \<Rightarrow> backend_event list \<times> zbus_backend" where
  "owner_changed B reachable order service old_owner new_owner s =
     (if \<not> starts_with service MPRIS_SERVICE_PREFIX \<or> is_ignored_service service then ([], s)
      else (let (ev1, s1) = (if old_owner then remove_player order service s else ([], s));
                (ev2, s2) = (if new_owner then add_player B reachable order service s1 else ([], s1))
            in (ev1 @ ev2, s2)))"

text \<open>The start of a watch: the players among the names that are on the bus.\<close>

fun discover ::
    "bus \<Rightarrow> (string \<Rightarrow> bool) \<Rightarrow> ((string \<rightharpoonup> string) \<Rightarrow> string list) \<Rightarrow> string list \<Rightarrow> zbus_backend \<Rightarrow> backend_event list \<times> zbus_backend" where
  "discover B reachable order [] s = ([], s)"
| "discover B reachable order (n # ns) s =
     (let (ev1, s1) = (if starts_with n MPRIS_SERVICE_PREFIX \<and> \<not> is_ignored_service n then add_player B reachable order n s else ([], s));
          (ev2, s2) = discover B reachable order ns s1
      in (ev1 @ ev2, s2))"

text \<open>The end of a watch: all listeners stop, their players and then the backend are reported lost.\<close>

definition watch_ended :: "(string set \<Rightarrow> string list) \<Rightarrow> zbus_backend \<Rightarrow> backend_event list \<times> zbus_backend" where
  "watch_ended keys s =
     (map PlayerRemoved (keys (listeners s)) @ [BackendLost], s\<lparr>listeners := {}, services := Map.empty\<rparr>)"

text \<open>After a watch that ran for so many milliseconds: whether the supervisor waits before the next one and for how long,
  and its next waiting time.\<close>

definition next_watch :: "bool \<Rightarrow> nat \<Rightarrow> nat \<Rightarrow> nat option \<times> nat" where
  "next_watch connected ran_for backoff =
     (if connected \<and> 5000 \<le> ran_for then (None, 500) else (Some backoff, min (backoff * 2) 30000))"

section \<open>The cache of local players\<close>

definition cached_state :: "string \<Rightarrow> 'z mpris_daemon_scheme \<Rightarrow> local_player_state option" where
  "cached_state name s = local_players s name"

definition has_player :: "string \<Rightarrow> 'z mpris_daemon_scheme \<Rightarrow> bool" where
  "has_player name s = hm_contains (local_players s) name"

definition mpris_packet :: "i64 \<Rightarrow> (string \<times> json) list \<Rightarrow> packet" where
  "mpris_packet pid kvs = new_packet pid ''kdeconnect.mpris'' (JObj kvs)"

definition player_list_packet :: "player_order \<Rightarrow> i64 \<Rightarrow> 'z mpris_daemon_scheme \<Rightarrow> packet" where
  "player_list_packet iter pid s =
     mpris_packet pid [(''playerList'', JArr (map JStr (filtered_player_names iter (local_players s)))),
                       (''supportAlbumArtPayload'', JBool True)]"

definition apply_player_added ::
    "player_order \<Rightarrow> i64 \<Rightarrow> local_player_state \<Rightarrow> 'z mpris_daemon_scheme \<Rightarrow> packet option \<times> 'z mpris_daemon_scheme" where
  "apply_player_added iter pid st s =
     (let s1 = s\<lparr>local_players := (local_players s)(lp_name st \<mapsto> st)\<rparr> in (Some (player_list_packet iter pid s1), s1))"

text \<open>The first player of that service, in the order of iteration.\<close>

definition player_of_service :: "player_order \<Rightarrow> string \<Rightarrow> players \<Rightarrow> local_player_state option" where
  "player_of_service iter service m = find (\<lambda>p. lp_service p = service) (List.map_filter m (iter m))"

definition apply_player_removed ::
    "player_order \<Rightarrow> i64 \<Rightarrow> string \<Rightarrow> 'z mpris_daemon_scheme \<Rightarrow> packet option \<times> 'z mpris_daemon_scheme" where
  "apply_player_removed iter pid service s =
     (case player_of_service iter service (local_players s) of
        None \<Rightarrow> (None, s)
      | Some p \<Rightarrow> (let s1 = s\<lparr>local_players := hm_remove (lp_name p) (local_players s)\<rparr>
                   in (Some (player_list_packet iter pid s1), s1)))"

definition apply_backend_lost :: "player_order \<Rightarrow> i64 \<Rightarrow> 'z mpris_daemon_scheme \<Rightarrow> packet option \<times> 'z mpris_daemon_scheme" where
  "apply_backend_lost iter pid s =
     (let s1 = s\<lparr>local_players := Map.empty\<rparr> in (Some (player_list_packet iter pid s1), s1))"

definition opt_entry :: "string \<Rightarrow> ('a \<Rightarrow> json) \<Rightarrow> 'a option \<Rightarrow> (string \<times> json) list" where
  "opt_entry k f x = (case x of Some v \<Rightarrow> [(k, f v)] | None \<Rightarrow> [])"

definition json_i64 :: "i64 \<Rightarrow> json" where "json_i64 i = JNum (num_of_i64 i)"

definition changed_fields :: "local_player_state \<Rightarrow> player_props_changed \<Rightarrow> (string \<times> json) list" where
  "changed_fields st ch =
     opt_entry ''volume'' json_i64 (pc_volume ch)
     @ (if pc_metadata ch then
          [(''title'', JStr (lp_title st)), (''artist'', JStr (lp_artist st)), (''album'', JStr (lp_album st)),
           (''albumArtUrl'', JStr (lp_album_art_url st)), (''url'', JStr (lp_url st)), (''length'', json_i64 (lp_length_ms st))]
        else [])
     @ opt_entry ''isPlaying'' JBool (pc_playback_status ch) @ opt_entry ''loopStatus'' JStr (pc_loop_status ch)
     @ opt_entry ''shuffle'' JBool (pc_shuffle ch) @ opt_entry ''canPause'' JBool (pc_can_pause ch)
     @ opt_entry ''canPlay'' JBool (pc_can_play ch) @ opt_entry ''canGoNext'' JBool (pc_can_go_next ch)
     @ opt_entry ''canGoPrevious'' JBool (pc_can_go_previous ch)"

definition apply_props_changed ::
    "i64 \<Rightarrow> local_player_state \<Rightarrow> player_props_changed \<Rightarrow> 'z mpris_daemon_scheme \<Rightarrow> packet option \<times> 'z mpris_daemon_scheme" where
  "apply_props_changed pid st ch s =
     (let s1 = s\<lparr>local_players := (local_players s)(lp_name st \<mapsto> st)\<rparr> in
      if changed_fields st ch = [] \<and> pc_can_seek ch = None then (None, s1)
      else (Some (mpris_packet pid (changed_fields st ch @ [(''player'', JStr (lp_name st)), (''canSeek'', JBool (lp_can_seek st))]
                    @ (if lp_can_seek st then [(''pos'', json_i64 (lp_position_ms st))] else []))), s1))"

definition apply_seeked ::
    "player_order \<Rightarrow> i64 \<Rightarrow> string \<Rightarrow> i64 \<Rightarrow> 'z mpris_daemon_scheme \<Rightarrow> packet option \<times> 'z mpris_daemon_scheme" where
  "apply_seeked iter pid service position_us s =
     (case find (\<lambda>n. case local_players s n of Some p \<Rightarrow> lp_service p = service | None \<Rightarrow> False) (iter (local_players s)) of
        None \<Rightarrow> (None, s)
      | Some n \<Rightarrow>
          (case local_players s n of
             None \<Rightarrow> (None, s)
           | Some p \<Rightarrow>
               (let p1 = p\<lparr>lp_position_ms := us_to_ms position_us\<rparr>
                in (Some (mpris_packet pid [(''pos'', json_i64 (lp_position_ms p1)), (''player'', JStr (lp_name p1))]),
                    s\<lparr>local_players := (local_players s)(n \<mapsto> p1)\<rparr>))))"

definition now_playing_answer :: "i64 \<Rightarrow> local_player_state \<Rightarrow> bool \<Rightarrow> packet" where
  "now_playing_answer pid st include_volume =
     mpris_packet pid
       ([(''player'', JStr (lp_name st)), (''title'', JStr (lp_title st)), (''artist'', JStr (lp_artist st)),
         (''album'', JStr (lp_album st)), (''albumArtUrl'', JStr (lp_album_art_url st)), (''url'', JStr (lp_url st)),
         (''length'', json_i64 (lp_length_ms st)), (''pos'', json_i64 (lp_position_ms st)), (''isPlaying'', JBool (lp_is_playing st)),
         (''canPause'', JBool (lp_can_pause st)), (''canPlay'', JBool (lp_can_play st)), (''canGoNext'', JBool (lp_can_go_next st)),
         (''canGoPrevious'', JBool (lp_can_go_previous st)), (''canSeek'', JBool (lp_can_seek st))]
        @ opt_entry ''loopStatus'' JStr (lp_loop_status st) @ opt_entry ''shuffle'' JBool (lp_shuffle st)
        @ (if include_volume then [(''volume'', json_i64 (lp_volume st))] else []))"

text \<open>What the task behind the watcher does with one event.\<close>

definition apply_backend_event ::
    "player_order \<Rightarrow> i64 \<Rightarrow> backend_event \<Rightarrow> 'z mpris_daemon_scheme \<Rightarrow> packet option \<times> 'z mpris_daemon_scheme" where
  "apply_backend_event iter pid ev s =
     (case ev of
        PlayerAdded st \<Rightarrow> apply_player_added iter pid st s
      | PlayerRemoved service \<Rightarrow> apply_player_removed iter pid service s
      | PropertiesChanged st ch \<Rightarrow> apply_props_changed pid st ch s
      | Seeked service us \<Rightarrow> apply_seeked iter pid service us s
      | BackendLost \<Rightarrow> apply_backend_lost iter pid s)"

definition watcher_turn ::
    "externals \<Rightarrow> player_order \<Rightarrow> ((device_key \<rightharpoonup> connection) \<Rightarrow> device_key list) \<Rightarrow> i64 \<Rightarrow> (nat \<Rightarrow> clock) \<Rightarrow> backend_event
     \<Rightarrow> 'z mpris_daemon_scheme \<Rightarrow> 'z mpris_daemon_scheme" where
  "watcher_turn E iter link_order pid clks ev s =
     (case apply_backend_event iter pid ev s of
        (None, s1) \<Rightarrow> s1
      | (Some p, s1) \<Rightarrow> snd (fan_out E (\<lambda>_ _. True) (connected_device_ids link_order s1) p clks s1))"

section \<open>Control\<close>

text \<open>The calls a request leads to: the display name is looked up among the services, an action must be
  one of the six, a volume is clamped, a position in a track without an id becomes a seek.\<close>

definition service_for :: "string \<Rightarrow> 'z mpris_daemon_scheme \<Rightarrow> string option" where
  "service_for name s = Option.bind (mpris_backend s) (\<lambda>z. services z name)"

definition on_service :: "string \<Rightarrow> (string \<Rightarrow> bus_call) \<Rightarrow> 'z mpris_daemon_scheme \<Rightarrow> 'z mpris_daemon_scheme" where
  "on_service name call s =
     (case service_for name s of Some svc \<Rightarrow> s\<lparr>bus_calls := bus_calls s @ [call svc]\<rparr> | None \<Rightarrow> s)"

definition call_transport :: "string \<Rightarrow> string \<Rightarrow> 'z mpris_daemon_scheme \<Rightarrow> 'z mpris_daemon_scheme" where
  "call_transport name action s =
     (if action \<in> set ALLOWED_ACTIONS then on_service name (\<lambda>svc. Invoke svc action) s else s)"

definition position_call :: "bus \<Rightarrow> i64 \<Rightarrow> string \<Rightarrow> bus_call" where
  "position_call B position_ms svc =
     (case Option.bind (B svc) mp_track_id of
        Some track \<Rightarrow> SetTrackPosition svc track (ms_to_us position_ms)
      | None \<Rightarrow> SeekBy svc (saturate_i64 (sint (ms_to_us position_ms) - sint (or_default 0 (Option.bind (B svc) mp_position_us)))))"

definition player_state :: "bus \<Rightarrow> string \<Rightarrow> 'z mpris_daemon_scheme \<Rightarrow> local_player_state option" where
  "player_state B name s =
     Option.bind (service_for name s) (\<lambda>svc. map_option (read_state svc name) (B svc))"

text \<open>A path as the disk has it: the directory and the name after the last slash.\<close>

definition path_of :: "string \<Rightarrow> path" where
  "path_of p = (let name = rev (takeWhile (\<lambda>c. c \<noteq> CHR ''/'') (rev p))
                in (take (length p - length name - 1) p, name))"

record album_art_source =
  aa_path :: path
  aa_size :: u64
  aa_url :: string

definition album_art :: "bus \<Rightarrow> string \<Rightarrow> string \<Rightarrow> 'z mpris_daemon_scheme \<Rightarrow> album_art_source option \<times> 'z mpris_daemon_scheme" where
  "album_art B name requested_url s =
     (case Option.bind (service_for name s) B of
        None \<Rightarrow> (None, s)
      | Some p \<Rightarrow>
          (let current_url = or_default [] (mp_art_url p) in
           if current_url = [] \<or> current_url \<noteq> requested_url then (None, s)
           else (case strip_prefix ''file://'' current_url of
                   None \<Rightarrow> (None, s)
                 | Some path_str \<Rightarrow>
                     (case on_disk (fs_metadata_len (io_error ''metadata'' None) (path_of path_str)) s of
                        (Inl _, s1) \<Rightarrow> (None, s1)
                      | (Inr sz, s1) \<Rightarrow> (Some \<lparr>aa_path = path_of path_str, aa_size = sz, aa_url = current_url\<rparr>, s1)))))"

definition build_album_art_envelope :: "i64 \<Rightarrow> string \<Rightarrow> album_art_source \<Rightarrow> payload_transfer_info \<Rightarrow> packet" where
  "build_album_art_envelope pid player src info =
     with_payload_transfer_info (transfer_info_to_json info)
       (with_payload_size (aa_size src)
          (mpris_packet pid [(''player'', JStr player), (''transferringAlbumArt'', JBool True), (''albumArtUrl'', JStr (aa_url src))]))"

text \<open>What the transfer of an album cover needs of the host: free ports and the address a listener reports.\<close>

record art_env =
  ae_free :: "u16 \<Rightarrow> bool"
  ae_addr_of :: "u16 \<Rightarrow> u16 option"

definition handle_album_art_request ::
    "externals \<Rightarrow> bus \<Rightarrow> art_env \<Rightarrow> i64 \<Rightarrow> clock \<Rightarrow> device_key \<Rightarrow> string \<Rightarrow> string \<Rightarrow> 'z mpris_daemon_scheme
     \<Rightarrow> packet list option \<times> 'z mpris_daemon_scheme" where
  "handle_album_art_request E B A pid clk did player requested_url s =
     (if mpris_backend s = None then (None, s)
      else (case album_art B player requested_url s of
              (None, s1) \<Rightarrow> (None, s1)
            | (Some src, s1) \<Rightarrow>
                if ALBUM_ART_MAX_BYTES < aa_size src then (None, s1)
                else if \<not> has_manager s1 then (None, s1)
                else (case get_local_addr did s1 of
                        None \<Rightarrow> (None, s1)
                      | Some (SockAddr ip port) \<Rightarrow>
                          (case on_disk (send_file (aa_path src) ip (ae_free A) (ae_addr_of A)) s1 of
                             (Inl _, s2) \<Rightarrow> (None, s2)
                           | (Inr (info, job), s2) \<Rightarrow>
                               (let p = build_album_art_envelope pid player src info in
                                case send_packet E did p clk s2 of
                                  (Inl _, s3) \<Rightarrow> (None, s3)
                                | (Inr _, s3) \<Rightarrow> (Some [p], s3\<lparr>art_jobs := art_jobs s3 @ [job]\<rparr>))))))"

definition flag_of :: "json \<Rightarrow> string \<Rightarrow> bool" where
  "flag_of body k = (case Option.bind (json_get body k) as_bool of Some b \<Rightarrow> b | None \<Rightarrow> False)"

definition str_of :: "json \<Rightarrow> string \<Rightarrow> string option" where
  "str_of body k = Option.bind (json_get body k) json_as_str"

definition apply_opt :: "('a \<Rightarrow> 's \<Rightarrow> 's) \<Rightarrow> 'a option \<Rightarrow> 's \<Rightarrow> 's" where
  "apply_opt f x s = (case x of Some v \<Rightarrow> f v s | None \<Rightarrow> s)"

text \<open>The settings of a request, in the order of the code; without a backend none is carried out.\<close>

definition carry_out :: "bus \<Rightarrow> string \<Rightarrow> json \<Rightarrow> 'z mpris_daemon_scheme \<Rightarrow> 'z mpris_daemon_scheme" where
  "carry_out B player body s =
     (if mpris_backend s = None then s
      else (let s1 = apply_opt (\<lambda>a t. if a \<in> set ALLOWED_ACTIONS then call_transport player a t else t) (str_of body ''action'') s;
                s2 = apply_opt (\<lambda>l. on_service player (\<lambda>svc. PutLoopStatus svc l)) (str_of body ''setLoopStatus'') s1;
                s3 = apply_opt (\<lambda>b. on_service player (\<lambda>svc. PutShuffle svc b)) (Option.bind (json_get body ''setShuffle'') as_bool) s2;
                s4 = apply_opt (\<lambda>v. on_service player (\<lambda>svc. PutVolume svc (wire_volume_percent v))) (Option.bind (json_get body ''setVolume'') json_as_i64) s3;
                s5 = apply_opt (\<lambda>off. on_service player (\<lambda>svc. SeekBy svc off)) (Option.bind (json_get body ''Seek'') json_as_i64) s4
            in apply_opt (\<lambda>p. on_service player (position_call B p)) (Option.bind (json_get body ''SetPosition'') json_as_i64) s5))"

definition handle_control_request ::
    "externals \<Rightarrow> player_order \<Rightarrow> bus \<Rightarrow> art_env \<Rightarrow> (nat \<Rightarrow> i64) \<Rightarrow> clock \<Rightarrow> device_key \<Rightarrow> packet \<Rightarrow> 'z mpris_daemon_scheme
     \<Rightarrow> packet list option \<times> 'z mpris_daemon_scheme" where
  "handle_control_request E iter B A pid clk did pkt s =
     (let body = packet_body pkt; player = or_default [] (str_of body ''player'') in
      if json_get body ''playerList'' \<noteq> None then (None, s)
      else (case str_of body ''albumArtUrl'' of
              Some url \<Rightarrow> handle_album_art_request E B A (pid 0) clk did player url s
            | None \<Rightarrow>
                (let known_player = (player \<noteq> [] \<and> has_player player s);
                     listed = (if \<not> known_player \<or> flag_of body ''requestPlayerList'' then [player_list_packet iter (pid 0) s] else [])
                 in if \<not> known_player then (Some listed, s)
                    else (let s1 = carry_out B player body s;
                              want_volume = flag_of body ''requestVolume'';
                              st = (if mpris_backend s1 \<noteq> None
                                    then (case player_state B player s1 of Some x \<Rightarrow> Some x | None \<Rightarrow> cached_state player s1)
                                    else cached_state player s1);
                              answers = (if flag_of body ''requestNowPlaying'' \<or> want_volume
                                         then (case st of Some x \<Rightarrow> [now_playing_answer (pid 1) x want_volume] | None \<Rightarrow> [])
                                         else []);
                              responses = listed @ answers
                          in (if responses = [] then None else Some responses, s1)))))"

section \<open>The players of the devices\<close>

fun dec_f64 :: "json \<Rightarrow> jnumber res" where
  "dec_f64 (JNum n) = Inr n"
| "dec_f64 _ = Inl dec_err"

definition dec_mpris_info :: "json \<Rightarrow> mpris_info res" where
  "dec_mpris_info = dec_struct 0 [''player'', ''playerList'', ''title'', ''artist'', ''album'', ''length'', ''pos'', ''canPlay'',
       ''canGoNext'', ''canGoPrevious'', ''isPlaying'', ''volume'', ''canSeek'', ''loopStatus'', ''shuffle'', ''albumArtUrl'', ''transferringAlbumArt'']
     (\<lambda>get. rbind (optional dec_string (get ''player'')) (\<lambda>pl.
            rbind (optional (dec_vec dec_string) (get ''playerList'')) (\<lambda>ls.
            rbind (optional dec_string (get ''title'')) (\<lambda>ti.
            rbind (optional dec_string (get ''artist'')) (\<lambda>ar.
            rbind (optional dec_string (get ''album'')) (\<lambda>al.
            rbind (optional dec_i64 (get ''length'')) (\<lambda>le.
            rbind (optional dec_i64 (get ''pos'')) (\<lambda>po.
            rbind (defaulted False dec_bool (get ''canPlay'')) (\<lambda>cp.
            rbind (defaulted False dec_bool (get ''canGoNext'')) (\<lambda>cn.
            rbind (defaulted False dec_bool (get ''canGoPrevious'')) (\<lambda>cv.
            rbind (defaulted False dec_bool (get ''isPlaying'')) (\<lambda>ip.
            rbind (optional dec_f64 (get ''volume'')) (\<lambda>vo.
            rbind (optional dec_bool (get ''canSeek'')) (\<lambda>cs.
            rbind (optional dec_string (get ''loopStatus'')) (\<lambda>lo.
            rbind (optional dec_bool (get ''shuffle'')) (\<lambda>sh.
            rbind (optional dec_string (get ''albumArtUrl'')) (\<lambda>au.
            rbind (defaulted False dec_bool (get ''transferringAlbumArt'')) (\<lambda>ta.
              Inr \<lparr>mi_player = pl, mi_player_list = ls, mi_title = ti, mi_artist = ar, mi_album = al, mi_length = le, mi_position = po,
                   mi_can_play = cp, mi_can_go_next = cn, mi_can_go_previous = cv, mi_is_playing = ip, mi_volume = vo, mi_can_seek = cs,
                   mi_loop_status = lo, mi_shuffle = sh, mi_album_art_url = au, mi_transferring_album_art = ta\<rparr>))))))))))))))))))"

definition get_players :: "device_key \<Rightarrow> 'z mpris_daemon_scheme \<Rightarrow> mpris_info list" where
  "get_players did s = or_default [] (remote_players s did)"

definition all_players :: "'z mpris_daemon_scheme \<Rightarrow> (device_key \<rightharpoonup> mpris_info list)" where
  "all_players s = remote_players s"

definition details_request :: "i64 \<Rightarrow> string \<Rightarrow> packet" where
  "details_request pid name = new_packet pid ''kdeconnect.mpris.request''
     (JObj [(''player'', JStr name), (''requestNowPlaying'', JBool True), (''requestVolume'', JBool True)])"

text \<open>The list of a device after its list of names: players that are not named go. Then the update of one
  player: it replaces the entry of that name, or joins as long as there is room.\<close>

definition prune_players :: "string list option \<Rightarrow> mpris_info list \<Rightarrow> mpris_info list" where
  "prune_players names ps =
     (case names of None \<Rightarrow> ps
                  | Some ns \<Rightarrow> filter (\<lambda>p. case mi_player p of Some n \<Rightarrow> n \<in> set ns | None \<Rightarrow> False) ps)"

fun replace_player :: "string \<Rightarrow> mpris_info \<Rightarrow> mpris_info list \<Rightarrow> mpris_info list option" where
  "replace_player n i [] = None"
| "replace_player n i (p # ps) = (if mi_player p = Some n then Some (i # ps) else map_option (Cons p) (replace_player n i ps))"

definition merge_player :: "mpris_info \<Rightarrow> mpris_info list \<Rightarrow> mpris_info list" where
  "merge_player i ps =
     (case mi_player i of
        None \<Rightarrow> ps
      | Some n \<Rightarrow> (case replace_player n i ps of
                     Some qs \<Rightarrow> qs
                   | None \<Rightarrow> if length ps < MAX_PLAYERS_PER_DEVICE then ps @ [i] else ps))"

text \<open>The table of a device is created only when one of the two parts is there.\<close>

definition remote_update ::
    "(nat \<Rightarrow> i64) \<Rightarrow> device_key \<Rightarrow> mpris_info \<Rightarrow> 'z mpris_daemon_scheme \<Rightarrow> packet list \<times> 'z mpris_daemon_scheme" where
  "remote_update pid did i s =
     (let pruned = prune_players (mi_player_list i) (get_players did s);
          missing = (case mi_player_list i of
                       None \<Rightarrow> []
                     | Some ns \<Rightarrow> filter (\<lambda>n. \<not> list_ex (\<lambda>p. mi_player p = Some n) pruned) ns);
          s1 = (if mi_player_list i = None \<and> mi_player i = None then s
                else s\<lparr>remote_players := (remote_players s)(did \<mapsto> merge_player i pruned)\<rparr>)
      in (map (\<lambda>(k, n). details_request (pid k) n) (enumerate 0 missing), s1\<lparr>mpris_events := mpris_events s1 @ [(did, i)]\<rparr>))"

definition handle_remote_update ::
    "(nat \<Rightarrow> i64) \<Rightarrow> device_key \<Rightarrow> packet \<Rightarrow> 'z mpris_daemon_scheme \<Rightarrow> packet list option res \<times> 'z mpris_daemon_scheme" where
  "handle_remote_update pid did pkt s =
     (case dec_mpris_info (packet_body pkt) of
        Inl e \<Rightarrow> (Inl e, s)
      | Inr i \<Rightarrow> (let (responses, s1) = remote_update pid did i s
                  in (Inr (if responses = [] then None else Some responses), s1)))"

section \<open>The plugin\<close>

definition mpris_disconnected :: "device_key \<Rightarrow> 'z mpris_daemon_scheme \<Rightarrow> 'z mpris_daemon_scheme" where
  "mpris_disconnected did s = s\<lparr>remote_players := hm_remove did (remote_players s)\<rparr>"

definition mpris_connected :: "player_order \<Rightarrow> (nat \<Rightarrow> i64) \<Rightarrow> 'z mpris_daemon_scheme \<Rightarrow> packet list" where
  "mpris_connected iter pid s =
     new_packet (pid 0) ''kdeconnect.mpris.request'' (JObj [(''requestPlayerList'', JBool True)])
     # (if mpris_backend s \<noteq> None then [player_list_packet iter (pid 1) s] else [])"

definition mpris_handle ::
    "externals \<Rightarrow> player_order \<Rightarrow> bus \<Rightarrow> art_env \<Rightarrow> (nat \<Rightarrow> i64) \<Rightarrow> clock \<Rightarrow> 'z mpris_daemon_scheme handler" where
  "mpris_handle E iter B A pid clk did pkt s =
     (if packet_type pkt = ''kdeconnect.mpris'' then
        (let (r, s1) = handle_remote_update pid did pkt s in (HResult r, s1))
      else if packet_type pkt = ''kdeconnect.mpris.request'' then
        (let (r, s1) = handle_control_request E iter B A pid clk did pkt s in (HResult (Inr r), s1))
      else (HResult (Inr None), s))"

definition mpris_plugin ::
    "externals \<Rightarrow> player_order \<Rightarrow> bus \<Rightarrow> art_env \<Rightarrow> (nat \<Rightarrow> i64) \<Rightarrow> clock \<Rightarrow> 'z mpris_daemon_scheme plugin" where
  "mpris_plugin E iter B A pid clk = \<lparr>pl_name = ''mpris'', pl_incoming = [''kdeconnect.mpris'', ''kdeconnect.mpris.request''],
     pl_outgoing = [''kdeconnect.mpris'', ''kdeconnect.mpris.request''], pl_handle = mpris_handle E iter B A pid clk,
     pl_on_connected = (\<lambda>did s. (mpris_connected iter pid s, s)), pl_on_disconnected = mpris_disconnected\<rparr>"

definition mpris_start_watcher :: "bool \<Rightarrow> 'z mpris_daemon_scheme \<Rightarrow> 'z mpris_daemon_scheme" where
  "mpris_start_watcher in_runtime s =
     (if mpris_watching s then s
      else if \<not> has_manager s \<or> mpris_backend s = None then s
      else if \<not> in_runtime then s
      else s\<lparr>mpris_watching := True\<rparr>)"

definition mpris_set_backend :: "zbus_backend \<Rightarrow> bool \<Rightarrow> 'z mpris_daemon_scheme \<Rightarrow> 'z mpris_daemon_scheme" where
  "mpris_set_backend z in_runtime s = mpris_start_watcher in_runtime (s\<lparr>mpris_backend := Some z\<rparr>)"

definition mpris_with_connection_manager :: "bool \<Rightarrow> 'z mpris_daemon_scheme \<Rightarrow> 'z mpris_daemon_scheme" where
  "mpris_with_connection_manager in_runtime s = mpris_start_watcher in_runtime (s\<lparr>has_manager := True\<rparr>)"

text \<open>Whether the session bus answered.\<close>

definition mpris_enable_session_backend :: "bool \<Rightarrow> 'z mpris_daemon_scheme \<Rightarrow> 'z mpris_daemon_scheme" where
  "mpris_enable_session_backend connected s =
     (if connected then mpris_set_backend \<lparr>services = Map.empty, listeners = {}\<rparr> True s else s)"

definition local_player_list :: "player_order \<Rightarrow> 'z mpris_daemon_scheme \<Rightarrow> local_player_state list" where
  "local_player_list iter s = List.map_filter (local_players s) (iter (local_players s))"

section \<open>The cache follows the bus\<close>

lemma next_free_fresh: "next_free base taken i \<notin> set taken"
proof (induction base taken i rule: next_free.induct)
  case (1 base taken i)
  then show ?case by (subst next_free.simps) simp
qed

lemma display_name_fresh: "display_name_for ident service taken \<notin> set taken"
  by (simp add: display_name_for_def Let_def next_free_fresh)

lemma read_state_names [simp]: "lp_service (read_state svc n p) = svc" "lp_name (read_state svc n p) = n"
  by (simp_all add: read_state_def Let_def split_beta)

text \<open>What an event does to the cache depends on the cache only.\<close>

definition cache_event :: "player_order \<Rightarrow> backend_event \<Rightarrow> players \<Rightarrow> players" where
  "cache_event iter ev m =
     (case ev of
        PlayerAdded st \<Rightarrow> m(lp_name st \<mapsto> st)
      | PlayerRemoved svc \<Rightarrow> (case player_of_service iter svc m of Some p \<Rightarrow> hm_remove (lp_name p) m | None \<Rightarrow> m)
      | PropertiesChanged st ch \<Rightarrow> m(lp_name st \<mapsto> st)
      | Seeked svc us \<Rightarrow>
          (case find (\<lambda>n. case m n of Some p \<Rightarrow> lp_service p = svc | None \<Rightarrow> False) (iter m) of
             Some n \<Rightarrow> (case m n of Some p \<Rightarrow> m(n \<mapsto> p\<lparr>lp_position_ms := us_to_ms us\<rparr>) | None \<Rightarrow> m)
           | None \<Rightarrow> m)
      | BackendLost \<Rightarrow> Map.empty)"

lemma apply_backend_event_cache: "local_players (snd (apply_backend_event iter pid ev s)) = cache_event iter ev (local_players s)"
  by (simp add: apply_backend_event_def apply_player_added_def apply_player_removed_def apply_props_changed_def apply_seeked_def
      apply_backend_lost_def cache_event_def Let_def split: backend_event.split option.split)

lemma apply_backend_event_backend: "mpris_backend (snd (apply_backend_event iter pid ev s)) = mpris_backend s"
  by (simp add: apply_backend_event_def apply_player_added_def apply_player_removed_def apply_props_changed_def apply_seeked_def
      apply_backend_lost_def Let_def split: backend_event.split option.split)

text \<open>The tables of the backend and a cache agree: every service has one name, the cache has an entry for
  exactly these names, and each entry is about its service.\<close>

definition mirrors :: "zbus_backend \<Rightarrow> players \<Rightarrow> bool" where
  "mirrors z m \<longleftrightarrow> finite (dom (services z))
     \<and> (\<forall>n n' svc. services z n = Some svc \<and> services z n' = Some svc \<longrightarrow> n = n')
     \<and> (\<forall>n svc. services z n = Some svc \<longrightarrow> starts_with svc MPRIS_SERVICE_PREFIX \<and> \<not> is_ignored_service svc \<and> svc \<in> listeners z)
     \<and> dom m = dom (services z)
     \<and> (\<forall>n p. m n = Some p \<longrightarrow> lp_name p = n \<and> services z n = Some (lp_service p))"

lemma player_of_service_known:
  assumes "iter_ok iter" and "mirrors z m" and "services z n = Some svc"
  shows "\<exists>p. player_of_service iter svc m = Some p \<and> lp_name p = n"
proof -
  have dom: "set (iter m) = dom m" using assms(1,2) by (auto simp: iter_ok_def mirrors_def)
  have "dom m = dom (services z)" using assms(2) by (simp add: mirrors_def)
  with assms(3) obtain p where p: "m n = Some p" by (metis domD domI)
  have "find (\<lambda>q. lp_service q = svc) (List.map_filter m (iter m)) = Some p"
  proof (rule find_unique)
    show "p \<in> set (List.map_filter m (iter m))" using p dom by (auto simp: set_map_filter)
    show "lp_service p = svc" using assms(2,3) p by (auto simp: mirrors_def)
    show "\<forall>q \<in> set (List.map_filter m (iter m)). lp_service q = svc \<longrightarrow> q = p"
    proof (intro ballI impI)
      fix q assume "q \<in> set (List.map_filter m (iter m))" and svc: "lp_service q = svc"
      then obtain n' where "m n' = Some q" by (auto simp: set_map_filter)
      with assms(2,3) svc have "n' = n" by (auto simp: mirrors_def)
      with \<open>m n' = Some q\<close> p show "q = p" by simp
    qed
  qed
  with assms(2) p show ?thesis by (auto simp: player_of_service_def mirrors_def)
qed

lemma remove_player_mirrors:
  assumes "iter_ok iter" and "iter_ok ord" and "mirrors z m" and "remove_player ord svc z = (evs, z')"
  shows "mirrors z' (fold (cache_event iter) evs m) \<and> svc \<notin> ran (services z')"
proof (cases "find (\<lambda>n. services z n = Some svc) (ord (services z))")
  case None
  then have "svc \<notin> ran (services z)"
    using assms(2,3) by (fastforce simp: find_None_iff iter_ok_def mirrors_def ran_def)
  moreover have "evs = []" "z' = z\<lparr>listeners := listeners z - {svc}\<rparr>"
    using assms(4) None by (simp_all add: remove_player_def Let_def)
  ultimately show ?thesis using assms(3) by (auto simp: mirrors_def ran_def)
next
  case (Some n)
  then have n: "services z n = Some svc" by (auto simp: find_Some_iff)
  obtain p where p: "player_of_service iter svc m = Some p" "lp_name p = n"
    using player_of_service_known [OF assms(1,3) n] by blast
  have "evs = [PlayerRemoved svc]" "z' = z\<lparr>listeners := listeners z - {svc}, services := hm_remove n (services z)\<rparr>"
    using assms(4) Some by (simp_all add: remove_player_def Let_def)
  then show ?thesis
    using assms(3) n p by (auto simp: mirrors_def cache_event_def ran_def hm_remove_apply split: if_splits)
qed

lemma add_player_mirrors:
  assumes "iter_ok ord" and "mirrors z m" and "add_player B reachable ord svc z = (evs, z')"
    and "starts_with svc MPRIS_SERVICE_PREFIX" and "\<not> is_ignored_service svc"
  shows "mirrors z' (fold (cache_event iter) evs m)"
proof (cases "svc \<in> ran (services z)")
  case True
  with assms show ?thesis by (simp add: add_player_def)
next
  case False
  show ?thesis
  proof (cases "reachable svc \<and> B svc \<noteq> None")
    case True
    then obtain p where p: "B svc = Some p" by auto
    define n where "n = display_name_for (or_default [] (mp_identity p)) svc (ord (services z))"
    have "services z n = None"
      using display_name_fresh [of "or_default [] (mp_identity p)" svc "ord (services z)"] assms(1,2)
      by (auto simp: n_def iter_ok_def mirrors_def)
    moreover have "evs = [PlayerAdded (read_state svc n p)]"
        "z' = z\<lparr>listeners := insert svc (listeners z), services := (services z)(n \<mapsto> svc)\<rparr>"
      using assms(3) False True p by (auto simp: add_player_def Let_def n_def)
    ultimately show ?thesis
      using assms(2,4,5) False by (auto simp: mirrors_def cache_event_def ran_def)
  next
    case unreachable: False
    then have "evs = []" "z' = z\<lparr>listeners := listeners z - {svc}\<rparr>"
      using assms(3) False by (auto simp: add_player_def Let_def split: option.splits)
    with assms(2) False show ?thesis by (auto simp: mirrors_def ran_def)
  qed
qed

lemma owner_changed_mirrors:
  assumes "iter_ok iter" and "iter_ok ord" and "mirrors z m" and "owner_changed B reachable ord svc old new z = (evs, z')"
  shows "mirrors z' (fold (cache_event iter) evs m)"
proof (cases "\<not> starts_with svc MPRIS_SERVICE_PREFIX \<or> is_ignored_service svc")
  case True
  with assms(3,4) show ?thesis by (auto simp: owner_changed_def)
next
  case False
  obtain ev1 z1 where one: "(if old then remove_player ord svc z else ([], z)) = (ev1, z1)" by fastforce
  obtain ev2 z2 where two: "(if new then add_player B reachable ord svc z1 else ([], z1)) = (ev2, z2)" by fastforce
  have "mirrors z1 (fold (cache_event iter) ev1 m)"
    using one assms(3) remove_player_mirrors [OF assms(1,2,3)] by (auto split: if_splits)
  then have "mirrors z2 (fold (cache_event iter) ev2 (fold (cache_event iter) ev1 m))"
    using two False add_player_mirrors [OF assms(2)] by (auto split: if_splits)
  moreover have "evs = ev1 @ ev2" "z' = z2" using assms(4) False one two by (simp_all add: owner_changed_def)
  ultimately show ?thesis by simp
qed

lemma discover_mirrors:
  assumes "iter_ok ord" and "mirrors z m" and "discover B reachable ord names z = (evs, z')"
  shows "mirrors z' (fold (cache_event iter) evs m)"
  using assms(2,3)
proof (induction names arbitrary: z m evs z')
  case (Cons n ns)
  obtain ev1 z1 where one: "(if starts_with n MPRIS_SERVICE_PREFIX \<and> \<not> is_ignored_service n then add_player B reachable ord n z else ([], z)) = (ev1, z1)"
    by fastforce
  obtain ev2 z2 where two: "discover B reachable ord ns z1 = (ev2, z2)" by fastforce
  have "mirrors z1 (fold (cache_event iter) ev1 m)"
    using one Cons.prems(1) add_player_mirrors [OF assms(1)] by (auto split: if_splits)
  from Cons.IH [OF this two] have "mirrors z2 (fold (cache_event iter) ev2 (fold (cache_event iter) ev1 m))" .
  moreover have "evs = ev1 @ ev2" "z' = z2" using Cons.prems(2) one two by (simp_all add: Let_def split_beta)
  ultimately show ?case by simp
qed simp

lemma props_mirror: "mirrors z m \<Longrightarrow> services z n = Some svc \<Longrightarrow> mirrors z (cache_event iter (PropertiesChanged (read_state svc n p) ch) m)"
  by (auto simp: mirrors_def cache_event_def)

lemma seeked_mirror: "mirrors z m \<Longrightarrow> mirrors z (cache_event iter (Seeked svc us) m)"
  by (auto simp: mirrors_def cache_event_def split: option.splits)

text \<open>The bus, the backend's tables and the task that applies the events run side by side; the channel between
  them keeps the order. A listener reports about a service as long as it is in the table; that a stopped
  listener reports nothing any more is what the code relies on, though it does not wait for its end.\<close>

inductive bus_step ::
    "externals \<Rightarrow> player_order \<Rightarrow> ((string \<rightharpoonup> string) \<Rightarrow> string list) \<Rightarrow> ((device_key \<rightharpoonup> connection) \<Rightarrow> device_key list)
     \<Rightarrow> 'z mpris_daemon_scheme \<times> backend_event list \<Rightarrow> 'z mpris_daemon_scheme \<times> backend_event list \<Rightarrow> bool"
  for E iter ord link_order where
  bs_owner: "mpris_backend s = Some z \<Longrightarrow> owner_changed B reachable ord svc old new z = (evs, z') \<Longrightarrow>
     bus_step E iter ord link_order (s, q) (s\<lparr>mpris_backend := Some z'\<rparr>, q @ evs)"
| bs_discover: "mpris_backend s = Some z \<Longrightarrow> discover B reachable ord names z = (evs, z') \<Longrightarrow>
     bus_step E iter ord link_order (s, q) (s\<lparr>mpris_backend := Some z'\<rparr>, q @ evs)"
| bs_props: "mpris_backend s = Some z \<Longrightarrow> services z n = Some svc \<Longrightarrow>
     bus_step E iter ord link_order (s, q) (s, q @ [PropertiesChanged (read_state svc n p) ch])"
| bs_seeked: "mpris_backend s = Some z \<Longrightarrow> services z n = Some svc \<Longrightarrow>
     bus_step E iter ord link_order (s, q) (s, q @ [Seeked svc us])"
| bs_ended: "mpris_backend s = Some z \<Longrightarrow> watch_ended ks z = (evs, z') \<Longrightarrow>
     bus_step E iter ord link_order (s, q) (s\<lparr>mpris_backend := Some z'\<rparr>, q @ evs)"
| bs_event: "bus_step E iter ord link_order (s, ev # q) (watcher_turn E iter link_order pid clks ev s, q)"

definition bus_inv :: "player_order \<Rightarrow> 'z mpris_daemon_scheme \<times> backend_event list \<Rightarrow> bool" where
  "bus_inv iter = (\<lambda>(s, q). \<exists>z. mpris_backend s = Some z \<and> mirrors z (fold (cache_event iter) q (local_players s)))"

lemma watcher_turn_cache:
  "local_players (watcher_turn E iter link_order pid clks ev s) = cache_event iter ev (local_players s)"
  "mpris_backend (watcher_turn E iter link_order pid clks ev s) = mpris_backend s"
proof -
  obtain p t where t: "apply_backend_event iter pid ev s = (p, t)" by fastforce
  have "local_players t = cache_event iter ev (local_players s)" "mpris_backend t = mpris_backend s"
    using apply_backend_event_cache [of iter pid ev s] apply_backend_event_backend [of iter pid ev s] t by simp_all
  then show "local_players (watcher_turn E iter link_order pid clks ev s) = cache_event iter ev (local_players s)"
    "mpris_backend (watcher_turn E iter link_order pid clks ev s) = mpris_backend s"
    by (auto simp: watcher_turn_def t fan_out_keeps split: option.split)
qed

lemma lost_mirrors: "mirrors \<lparr>services = Map.empty, listeners = {}\<rparr> Map.empty"
  by (simp add: mirrors_def)

lemma bus_step_inv:
  assumes "iter_ok iter" and "iter_ok ord" and "bus_step E iter ord link_order x y" and "bus_inv iter x"
  shows "bus_inv iter y"
  using assms(3)
proof cases
  case (bs_owner s z B reachable svc old new evs z' q)
  with assms(4) owner_changed_mirrors [OF assms(1,2), of z "fold (cache_event iter) q (local_players s)"] show ?thesis
    by (simp add: bus_inv_def)
next
  case (bs_discover s z B reachable names evs z' q)
  with assms(4) discover_mirrors [OF assms(2), of z "fold (cache_event iter) q (local_players s)"] show ?thesis
    by (simp add: bus_inv_def)
next
  case (bs_props s z n svc q p ch)
  with assms(4) props_mirror [of z "fold (cache_event iter) q (local_players s)"] show ?thesis by (simp add: bus_inv_def)
next
  case (bs_seeked s z n svc q us)
  with assms(4) seeked_mirror [of z "fold (cache_event iter) q (local_players s)"] show ?thesis by (simp add: bus_inv_def)
next
  case (bs_ended s z ks evs z' q)
  then have "evs = map PlayerRemoved (ks (listeners z)) @ [BackendLost]" "z' = \<lparr>services = Map.empty, listeners = {}\<rparr>"
    by (cases z; auto simp: watch_ended_def)+
  with bs_ended lost_mirrors show ?thesis by (simp add: bus_inv_def cache_event_def)
next
  case (bs_event s ev q pid clks)
  with assms(4) show ?thesis by (simp add: bus_inv_def watcher_turn_cache)
qed

interpretation media: machine "bus_step E iter ord link_order" "\<lambda>x. iter_ok iter \<and> iter_ok ord \<longrightarrow> bus_inv iter x"
  by unfold_locales (auto intro: bus_step_inv)

text \<open>A report that a stopped listener still sends is applied as any other: the player is back in the cache though
  the table does not have it.\<close>

theorem late_report_lingers:
  assumes "mpris_backend s = Some z" and "services z n = None"
  shows "let t = watcher_turn E iter link_order pid clks (PropertiesChanged (read_state svc n p) ch) s
         in has_player n t \<and> service_for n t = None"
  using assms by (simp add: watcher_turn_cache has_player_def hm_contains_def cache_event_def service_for_def Let_def)

text \<open>A supervisor that starts with half a second never waits less, nor more than thirty seconds, and never starts
  a watch at once after one that failed or did not last.\<close>

fun waits :: "(bool \<times> nat) list \<Rightarrow> nat \<Rightarrow> nat option list" where
  "waits [] b = []"
| "waits ((connected, ran_for) # rs) b = fst (next_watch connected ran_for b) # waits rs (snd (next_watch connected ran_for b))"

theorem watch_backoff_bounds:
  "500 \<le> b \<Longrightarrow> b \<le> 30000 \<Longrightarrow>
   list_all2 (\<lambda>(connected, ran_for) w. case w of None \<Rightarrow> connected \<and> 5000 \<le> ran_for | Some d \<Rightarrow> 500 \<le> d \<and> d \<le> 30000) rs (waits rs b)"
  by (induction rs b rule: waits.induct) (auto simp: next_watch_def)

section \<open>What requests can do\<close>

fun permitted_call :: "string \<Rightarrow> bus_call \<Rightarrow> bool" where
  "permitted_call svc (Invoke v a) \<longleftrightarrow> v = svc \<and> a \<in> set ALLOWED_ACTIONS"
| "permitted_call svc (PutVolume v n) \<longleftrightarrow> v = svc \<and> n \<le> 100"
| "permitted_call svc (PutLoopStatus v l) \<longleftrightarrow> v = svc"
| "permitted_call svc (PutShuffle v b) \<longleftrightarrow> v = svc"
| "permitted_call svc (SeekBy v us) \<longleftrightarrow> v = svc"
| "permitted_call svc (SetTrackPosition v t us) \<longleftrightarrow> v = svc"

text \<open>An operation that only adds permitted calls to the service behind a name.\<close>

definition calls_only :: "string \<Rightarrow> 'z mpris_daemon_scheme \<Rightarrow> 'z mpris_daemon_scheme \<Rightarrow> bool" where
  "calls_only name s t \<longleftrightarrow> (\<exists>cs. t = s\<lparr>bus_calls := bus_calls s @ cs\<rparr>
     \<and> (\<forall>c \<in> set cs. \<exists>svc. service_for name s = Some svc \<and> permitted_call svc c))"

lemma calls_only_refl: "calls_only name s s"
  by (auto simp: calls_only_def intro: exI [of _ "[]"])

lemma calls_only_trans: "calls_only name s t \<Longrightarrow> calls_only name t u \<Longrightarrow> calls_only name s u"
proof -
  assume "calls_only name s t" "calls_only name t u"
  then obtain cs cs' where "t = s\<lparr>bus_calls := bus_calls s @ cs\<rparr>" "u = t\<lparr>bus_calls := bus_calls t @ cs'\<rparr>"
    and "\<forall>c \<in> set cs. \<exists>svc. service_for name s = Some svc \<and> permitted_call svc c"
    and "\<forall>c \<in> set cs'. \<exists>svc. service_for name t = Some svc \<and> permitted_call svc c"
    by (auto simp: calls_only_def)
  then show ?thesis
    unfolding calls_only_def by (intro exI [of _ "cs @ cs'"]) (auto simp: service_for_def)
qed

lemma on_service_calls: "(\<And>svc. permitted_call svc (f svc)) \<Longrightarrow> calls_only name s (on_service name f s)"
  by (auto simp: on_service_def calls_only_refl split: option.split) (auto simp: calls_only_def intro!: exI [of _ "[f _]"])

lemma transport_calls: "calls_only name s (call_transport name a s)"
  by (auto simp: call_transport_def calls_only_refl intro: on_service_calls)

lemma apply_opt_calls: "(\<And>v t. calls_only name t (f v t)) \<Longrightarrow> calls_only name s (apply_opt f x s)"
  by (simp add: apply_opt_def calls_only_refl split: option.split)

lemma position_permitted: "permitted_call svc (position_call B p svc)"
  by (simp add: position_call_def split: option.split)

lemma volume_permitted: "wire_volume_percent v \<le> 100"
  by (simp add: wire_volume_percent_def)

lemma carry_out_calls: "calls_only player s (carry_out B player body s)"
proof (cases "mpris_backend s = None")
  case False
  note step = calls_only_trans [OF _ apply_opt_calls]
  show ?thesis
    unfolding carry_out_def Let_def if_not_P [OF False]
    by ((rule step)+) (auto intro: calls_only_refl on_service_calls transport_calls simp: volume_permitted position_permitted)
qed (simp add: carry_out_def calls_only_refl)

lemma mirrors_inj: "mirrors z m \<Longrightarrow> inj_on (services z) (dom (services z))"
  by (auto simp: mirrors_def inj_on_def)

section \<open>A desktop with one player\<close>

definition demo_mpris :: mpris_daemon where
  "demo_mpris = daemon.extend demo_daemon
     (mpris_daemon.fields Map.empty Map.empty (Some \<lparr>services = Map.empty, listeners = {}\<rparr>) True False [] [] [])"

lemma demo_mpris_simps [simp]:
  "local_players demo_mpris = Map.empty" "mpris_backend demo_mpris = Some \<lparr>services = Map.empty, listeners = {}\<rparr>"
  "has_manager demo_mpris" "bus_calls demo_mpris = []" "art_jobs demo_mpris = []" "remote_players demo_mpris = Map.empty"
  "connections demo_mpris = [demo_id \<mapsto> demo_peer]" "peer_capabilities demo_mpris = Map.empty"
  by (simp_all add: demo_mpris_def daemon.extend_def mpris_daemon.fields_def)
     (simp_all add: demo_daemon_def conn_mgr.extend_def daemon.fields_def)

definition vlc :: string where "vlc = ''org.mpris.MediaPlayer2.vlc''"

definition demo_player :: media_player where
  "demo_player = \<lparr>mp_identity = Some ''VLC'', mp_title = Some ''Song'', mp_artists = None, mp_album = None, mp_url = None,
     mp_art_url = Some ''file:///m/a.png'', mp_length_us = None, mp_track_id = None, mp_position_us = Some 5000,
     mp_playback_status = Some ''Playing'', mp_volume = Some 40, mp_can_play = Some True, mp_can_pause = Some True,
     mp_can_go_next = None, mp_can_go_previous = None, mp_can_seek = None, mp_loop_status = None, mp_shuffle = None\<rparr>"

definition demo_players :: player_order where "demo_players m = sorted_list_of_set (dom m)"

definition demo_names :: "(string \<rightharpoonup> string) \<Rightarrow> string list" where "demo_names m = sorted_list_of_set (dom m)"

lemma iter_ok_players: "iter_ok demo_players" "iter_ok demo_names"
  by (simp_all add: iter_ok_def demo_players_def demo_names_def)

lemma vlc_appears:
  "owner_changed [vlc \<mapsto> demo_player] (\<lambda>_. True) demo_names vlc False True \<lparr>services = Map.empty, listeners = {}\<rparr>
   = ([PlayerAdded (read_state vlc ''VLC'' demo_player)], \<lparr>services = [''VLC'' \<mapsto> vlc], listeners = {vlc}\<rparr>)"
  by (simp add: owner_changed_def add_player_def Let_def display_name_for_def demo_names_def or_default_def demo_player_def
      starts_with_def is_ignored_service_def MPRIS_SERVICE_PREFIX_def vlc_def)

section \<open>The properties\<close>



lemma metadata_len_Inr:
  "fs_metadata_len e p d = (r, d') \<Longrightarrow>
   files d' = files d \<and> (\<forall>sz. r = Inr sz \<longrightarrow> (\<exists>f. files d p = Some f \<and> sz = of_nat (length (contents f))))"
  by (auto simp: fs_metadata_len_def sbind_def sreturn_def split: prod.splits sum.splits dest: fs_read_frame fs_read_Inr)

lemma send_file_job:
  "send_file p ip free addr_of d = (Inr (info, job), d') \<Longrightarrow>
   sj_path job = p \<and> (\<exists>f. files d p = Some f \<and> sj_size job = of_nat (length (contents f)))"
  by (auto simp: send_file_def sbind_def sreturn_def slift_def ok_or_def split: prod.splits sum.splits option.splits dest!: metadata_len_Inr)

text \<open>The file behind the cover that a player advertises under a URL.\<close>

definition cover_file :: "bus \<Rightarrow> string \<Rightarrow> string \<Rightarrow> path \<Rightarrow> 'z mpris_daemon_scheme \<Rightarrow> bool" where
  "cover_file B name url p s \<longleftrightarrow> (\<exists>svc pl. service_for name s = Some svc \<and> B svc = Some pl \<and> mp_art_url pl = Some url
     \<and> map_option path_of (strip_prefix ''file://'' url) = Some p)"

lemma album_art_source_of:
  assumes "album_art B name url s = (r, t)"
  shows "\<exists>d. t = s\<lparr>sh_disk := d\<rparr> \<and> files d = files (sh_disk s)
     \<and> (\<forall>src. r = Some src \<longrightarrow> cover_file B name url (aa_path src) s
          \<and> (\<exists>f. files (sh_disk s) (aa_path src) = Some f \<and> aa_size src = of_nat (length (contents f))))"
proof -
  have same: "\<exists>d. s = s\<lparr>sh_disk := d\<rparr> \<and> files d = files (sh_disk s)" by (rule exI [of _ "sh_disk s"]) simp
  show ?thesis
    using assms same
    by (auto simp: album_art_def Let_def on_disk_def cover_file_def or_default_def bind_eq_Some_conv split: option.splits if_splits prod.splits sum.splits
        dest!: metadata_len_Inr)
qed

lemma send_file_files: "send_file p ip free addr_of d = (r, d') \<Longrightarrow> files d' = files d"
  by (auto simp: send_file_def sbind_def sreturn_def slift_def ok_or_def split: prod.splits sum.splits option.splits dest!: metadata_len_Inr)

text \<open>What a request may have changed besides links and the disk's script: calls to a player, and jobs that
  send the cover it advertises.\<close>

definition confined :: "bus \<Rightarrow> string \<Rightarrow> string option \<Rightarrow> 'z mpris_daemon_scheme \<Rightarrow> 'z mpris_daemon_scheme \<Rightarrow> bool" where
  "confined B name url s t \<longleftrightarrow>
     local_players t = local_players s \<and> mpris_backend t = mpris_backend s \<and> remote_players t = remote_players s
     \<and> files (sh_disk t) = files (sh_disk s)
     \<and> (\<exists>cs. bus_calls t = bus_calls s @ cs
          \<and> (\<forall>c \<in> set cs. has_player name s \<and> (\<exists>svc. service_for name s = Some svc \<and> permitted_call svc c)))
     \<and> (\<exists>js. art_jobs t = art_jobs s @ js
          \<and> (\<forall>j \<in> set js. sj_size j \<le> ALBUM_ART_MAX_BYTES \<and> (\<exists>u. url = Some u \<and> cover_file B name u (sj_path j) s)))"

lemma confined_refl: "confined B name url s s"
  by (simp add: confined_def)

lemma confined_calls: "calls_only name s t \<Longrightarrow> has_player name s \<Longrightarrow> confined B name url s t"
  by (auto simp: calls_only_def confined_def)

lemma confined_disk: "files d = files (sh_disk s) \<Longrightarrow> confined B name url s (s\<lparr>sh_disk := d\<rparr>)"
  by (simp add: confined_def)

lemma confined_send: "confined B name url s t \<Longrightarrow> confined B name url s (snd (send_packet E d p clk t))"
  using send_packet_shape [of E d p clk t] by (auto simp: confined_def)

lemma confined_job:
  "confined B name (Some u) s t \<Longrightarrow> cover_file B name u (sj_path j) s \<Longrightarrow> sj_size j \<le> ALBUM_ART_MAX_BYTES \<Longrightarrow>
   confined B name (Some u) s (t\<lparr>art_jobs := art_jobs t @ [j]\<rparr>)"
  by (auto simp: confined_def)

lemma cover_sent_confined:
  assumes "confined B player (Some url) s (s1\<lparr>sh_disk := d2\<rparr>)" and "cover_file B player url (sj_path job) s"
    and "sj_size job \<le> ALBUM_ART_MAX_BYTES"
  shows "confined B player (Some url) s (snd (case send_packet E did p clk (s1\<lparr>sh_disk := d2\<rparr>) of
            (Inl _, s3) \<Rightarrow> (None, s3) | (Inr _, s3) \<Rightarrow> (Some [p], s3\<lparr>art_jobs := art_jobs s3 @ [job]\<rparr>)))"
proof -
  obtain r s3 where send: "send_packet E did p clk (s1\<lparr>sh_disk := d2\<rparr>) = (r, s3)" by fastforce
  with confined_send [OF assms(1), of E did p clk] have "confined B player (Some url) s s3" by simp
  with send confined_job [OF this assms(2,3)] show ?thesis by (cases r) simp_all
qed

lemma album_art_confined: "confined B player (Some url) s (snd (handle_album_art_request E B A pid clk did player url s))"
proof -
  obtain r s1 where art: "album_art B player url s = (r, s1)" by fastforce
  from album_art_source_of [OF art] obtain d where d: "s1 = s\<lparr>sh_disk := d\<rparr>" "files d = files (sh_disk s)"
    and src: "\<forall>src. r = Some src \<longrightarrow> cover_file B player url (aa_path src) s
          \<and> (\<exists>f. files (sh_disk s) (aa_path src) = Some f \<and> aa_size src = of_nat (length (contents f)))"
    by (elim exE conjE)
  have s1: "confined B player (Some url) s s1" using d by (simp add: confined_disk)
  have started: "confined B player (Some url) s (snd (case on_disk (send_file (aa_path a) ip (ae_free A) (ae_addr_of A)) s1 of
       (Inl _, s2) \<Rightarrow> (None, s2)
     | (Inr (info, job), s2) \<Rightarrow> (let p = q info in case send_packet E did p clk s2 of
          (Inl _, s3) \<Rightarrow> (None, s3) | (Inr _, s3) \<Rightarrow> (Some [p], s3\<lparr>art_jobs := art_jobs s3 @ [job]\<rparr>))))"
    if "r = Some a" "aa_size a \<le> ALBUM_ART_MAX_BYTES" for a ip and q :: "payload_transfer_info \<Rightarrow> packet"
  proof -
    obtain r2 d2 where sf: "send_file (aa_path a) ip (ae_free A) (ae_addr_of A) (sh_disk s1) = (r2, d2)" by fastforce
    have s2: "confined B player (Some url) s (s1\<lparr>sh_disk := d2\<rparr>)"
      using send_file_files [OF sf] d by (simp add: confined_disk)
    show ?thesis
    proof (cases r2)
      case (Inr x)
      obtain info job where x: "x = (info, job)" by fastforce
      have "sj_path job = aa_path a" "\<exists>f. files (sh_disk s) (aa_path a) = Some f \<and> sj_size job = of_nat (length (contents f))"
        using send_file_job [OF sf [unfolded Inr x]] d by simp_all
      with src that have "cover_file B player url (sj_path job) s" "sj_size job \<le> ALBUM_ART_MAX_BYTES" by auto
      with cover_sent_confined [OF s2] sf Inr x show ?thesis by (simp add: on_disk_def Let_def)
    qed (use sf s2 in \<open>simp add: on_disk_def\<close>)
  qed
  show ?thesis
    using art s1 started
    by (simp add: handle_album_art_request_def confined_refl split: option.split sock_addr.split)
qed

lemma control_confined:
  "confined B (or_default [] (str_of (packet_body pkt) ''player'')) (str_of (packet_body pkt) ''albumArtUrl'') s
     (snd (handle_control_request E iter B A pid clk did pkt s))"
proof (cases "str_of (packet_body pkt) ''albumArtUrl''")
  case None
  then show ?thesis
    by (simp add: handle_control_request_def Let_def confined_refl confined_calls [OF carry_out_calls])
next
  case (Some url)
  then show ?thesis
    by (simp add: handle_control_request_def Let_def confined_refl album_art_confined)
qed

text \<open>Property C20.
  What a device may do to this desktop's players. Whatever its request says, the only calls it leads to go to the
  service of the one player it names, if that player is known, and are one of the six transport
  actions, a setting of loop, shuffle or position, or a volume of at most 100 percent. The only file it can make
  this host send is the cover that player advertises at that moment, under the very URL of the request,
  and no larger than 32 MiB. No player, table or file changes.\<close>

theorem mpris_requests_confined:
  "confined B (or_default [] (str_of (packet_body pkt) ''player'')) (str_of (packet_body pkt) ''albumArtUrl'') s
     (snd (handle_control_request E iter B A pid clk did pkt s))"
  by (rule control_confined)

lemma album_art_reply:
  assumes "handle_album_art_request E B A pid clk did player url s = (Some ps, t)"
  shows "\<exists>src info job d s3. ps = [build_album_art_envelope pid player src info]
     \<and> send_packet E did (build_album_art_envelope pid player src info) clk (s\<lparr>sh_disk := d\<rparr>) = (Inr (), s3)
     \<and> t = s3\<lparr>art_jobs := art_jobs s3 @ [job]\<rparr>"
proof -
  obtain r s1 where art: "album_art B player url s = (r, s1)" by fastforce
  from album_art_source_of [OF art] obtain d where d: "s1 = s\<lparr>sh_disk := d\<rparr>" by (elim exE conjE)
  from assms art obtain src ip port where some: "r = Some src" "get_local_addr did s1 = Some (SockAddr ip port)"
    and rest: "(case on_disk (send_file (aa_path src) ip (ae_free A) (ae_addr_of A)) s1 of
           (Inl _, s2) \<Rightarrow> (None, s2)
         | (Inr (info, job), s2) \<Rightarrow> (let p = build_album_art_envelope pid player src info in case send_packet E did p clk s2 of
              (Inl _, s3) \<Rightarrow> (None, s3) | (Inr _, s3) \<Rightarrow> (Some [p], s3\<lparr>art_jobs := art_jobs s3 @ [job]\<rparr>))) = (Some ps, t)"
    by (simp add: handle_album_art_request_def split: if_splits option.splits sock_addr.splits)
  obtain r2 d2 where sf: "send_file (aa_path src) ip (ae_free A) (ae_addr_of A) (sh_disk s1) = (r2, d2)" by fastforce
  then obtain info job where r2: "r2 = Inr (info, job)" using rest by (cases r2) (auto simp: on_disk_def)
  let ?p = "build_album_art_envelope pid player src info"
  obtain r3 s3 where send: "send_packet E did ?p clk (s\<lparr>sh_disk := d2\<rparr>) = (r3, s3)" by fastforce
  from rest sf r2 send d have "r3 = Inr ()" "ps = [?p]" "t = s3\<lparr>art_jobs := art_jobs s3 @ [job]\<rparr>"
    by (cases r3; simp add: on_disk_def Let_def)+
  with send show ?thesis by blast
qed

lemma envelope_type [simp]: "packet_type (build_album_art_envelope pid player src info) = ''kdeconnect.mpris''"
  by (simp add: build_album_art_envelope_def mpris_packet_def new_packet_def with_payload_size_def with_payload_transfer_info_def)

text \<open>The packet that announces a cover is written by the handler and also returned as its answer, so that
  the packet loop writes it a second time.\<close>

theorem album_art_sent_twice:
  assumes "handle_album_art_request E B A pid clk did player url s = (Some ps, t)"
    and "connections s did = Some h" and "cn_writes h = []" and "\<And>p. packet_type p = ''kdeconnect.mpris'' \<Longrightarrow> \<not> refuses_type did p s"
  shows "\<exists>p h'. ps = [p] \<and> connections (send_all E did ps clk' t) did = Some h'
     \<and> cn_written h' = cn_written h @ serialize E p @ serialize E p"
proof -
  from album_art_reply [OF assms(1)] obtain src info job d s3
    where ps: "ps = [build_album_art_envelope pid player src info]"
    and send: "send_packet E did (build_album_art_envelope pid player src info) clk (s\<lparr>sh_disk := d\<rparr>) = (Inr (), s3)"
    and t: "t = s3\<lparr>art_jobs := art_jobs s3 @ [job]\<rparr>" by (elim exE conjE)
  let ?p = "build_album_art_envelope pid player src info"
  have takes: "\<not> refuses_type did ?p s" by (rule assms(4)) simp
  obtain h1 where h1: "s3 = s\<lparr>sh_disk := d, connections := (connections s)(did \<mapsto> h1)\<rparr>"
      "cn_written h1 = cn_written h @ serialize E ?p" "cn_writes h1 = []"
    using send_packet_writes [of "s\<lparr>sh_disk := d\<rparr>" did h ?p E clk] send assms(2,3) takes by (auto simp: refuses_type_def)
  then obtain h2 where "connections (snd (send_packet E did ?p clk' t)) did = Some h2"
      "cn_written h2 = cn_written h1 @ serialize E ?p"
    using send_packet_writes [of t did h1 ?p E clk'] t takes by (auto simp: refuses_type_def)
  with ps h1(2) show ?thesis by simp
qed

section \<open>Two daemons\<close>

lemma optional_some:
  "optional f None = Inr None" "optional f (Some (JStr x)) = rbind (f (JStr x)) (\<lambda>a. Inr (Some a))"
  "optional f (Some (JNum n)) = rbind (f (JNum n)) (\<lambda>a. Inr (Some a))"
  "optional f (Some (JBool b)) = rbind (f (JBool b)) (\<lambda>a. Inr (Some a))"
  by (simp_all add: optional_def)

text \<open>What a daemon answers about a player is what another daemon reads from it.\<close>

theorem now_playing_roundtrip:
  "dec_mpris_info (packet_body (now_playing_answer pid st vol)) = Inr \<lparr>mi_player = Some (lp_name st), mi_player_list = None,
     mi_title = Some (lp_title st), mi_artist = Some (lp_artist st), mi_album = Some (lp_album st), mi_length = Some (lp_length_ms st),
     mi_position = Some (lp_position_ms st), mi_can_play = lp_can_play st, mi_can_go_next = lp_can_go_next st,
     mi_can_go_previous = lp_can_go_previous st, mi_is_playing = lp_is_playing st,
     mi_volume = (if vol then Some (num_of_i64 (lp_volume st)) else None), mi_can_seek = Some (lp_can_seek st),
     mi_loop_status = lp_loop_status st, mi_shuffle = lp_shuffle st, mi_album_art_url = Some (lp_album_art_url st),
     mi_transferring_album_art = False\<rparr>"
  by (cases "lp_loop_status st"; cases "lp_shuffle st")
     (simp_all add: now_playing_answer_def mpris_packet_def new_packet_def dec_mpris_info_def dec_struct_def json_i64_def opt_entry_def
       optional_some defaulted_def ok_or_def)

text \<open>An update of the volume alone, as this code sends it, replaces the whole entry on the other side: title,
  artist, album and length of the player are gone there, and it counts as stopped.\<close>

definition volume_change :: "i64 \<Rightarrow> player_props_changed" where
  "volume_change v = \<lparr>pc_volume = Some v, pc_metadata = False, pc_playback_status = None, pc_loop_status = None, pc_shuffle = None,
     pc_can_pause = None, pc_can_play = None, pc_can_go_next = None, pc_can_go_previous = None, pc_can_seek = None\<rparr>"

definition told_volume :: "i64 \<Rightarrow> local_player_state \<Rightarrow> mpris_info" where
  "told_volume v st = \<lparr>mi_player = Some (lp_name st), mi_player_list = None, mi_title = None, mi_artist = None, mi_album = None,
     mi_length = None, mi_position = (if lp_can_seek st then Some (lp_position_ms st) else None), mi_can_play = False,
     mi_can_go_next = False, mi_can_go_previous = False, mi_is_playing = False, mi_volume = Some (num_of_i64 v),
     mi_can_seek = Some (lp_can_seek st), mi_loop_status = None, mi_shuffle = None, mi_album_art_url = None,
     mi_transferring_album_art = False\<rparr>"

lemma volume_change_read:
  "\<exists>pkt. fst (apply_props_changed pid st (volume_change v) s) = Some pkt \<and> packet_type pkt = ''kdeconnect.mpris''
     \<and> dec_mpris_info (packet_body pkt) = Inr (told_volume v st)"
  by (simp add: apply_props_changed_def volume_change_def told_volume_def changed_fields_def opt_entry_def
      mpris_packet_def new_packet_def dec_mpris_info_def dec_struct_def json_i64_def optional_some defaulted_def ok_or_def)

text \<open>The entries of a device after its packet.\<close>

definition updated_players :: "mpris_info \<Rightarrow> mpris_info list \<Rightarrow> mpris_info list" where
  "updated_players i ps = merge_player i (prune_players (mi_player_list i) ps)"

lemma remote_update_players:
  "get_players e (snd (remote_update pid did i s)) = (if e = did then updated_players i (get_players did s) else get_players e s)"
  by (auto simp: remote_update_def Let_def get_players_def or_default_def updated_players_def merge_player_def prune_players_def)

lemma mpris_handle_players:
  "get_players e (snd (mpris_handle E iter B A pid clk did pkt s)) =
     (case dec_mpris_info (packet_body pkt) of
        Inr i \<Rightarrow> if e = did \<and> packet_type pkt = ''kdeconnect.mpris'' then updated_players i (get_players did s) else get_players e s
      | Inl _ \<Rightarrow> get_players e s)"
proof (cases "packet_type pkt = ''kdeconnect.mpris''")
  case True
  then show ?thesis
    by (auto simp: mpris_handle_def handle_remote_update_def remote_update_players split_beta Let_def split: sum.split)
next
  case False
  have "remote_players (snd (handle_control_request E iter B A pid clk did pkt s)) = remote_players s"
    using control_confined [of B pkt s E iter A pid clk did] by (simp add: confined_def)
  with False show ?thesis by (simp add: mpris_handle_def get_players_def split_beta Let_def split: sum.split)
qed

lemma forget_players: "get_players e (mpris_disconnected d s) = (if e = d then [] else get_players e s)"
  by (simp add: mpris_disconnected_def get_players_def or_default_def hm_remove_apply)

interpretation remote: device_data "\<lambda>d p s. snd (mpris_handle E iter B A pid clk d p s)" mpris_disconnected get_players "[]"
  by unfold_locales (auto simp: mpris_handle_players forget_players split: sum.split)

lemma replace_player_find: "replace_player n i ps = Some qs \<Longrightarrow> mi_player i = Some n \<Longrightarrow> find (\<lambda>q. mi_player q = Some n) qs = Some i"
  by (induction ps arbitrary: qs) (auto split: if_splits)

lemma replace_player_names: "replace_player n i ps = Some qs \<Longrightarrow> mi_player i = Some n \<Longrightarrow> map mi_player qs = map mi_player ps"
  by (induction ps arbitrary: qs) (auto split: if_splits)

lemma replace_player_None: "replace_player n i ps = None \<longleftrightarrow> Some n \<notin> mi_player ` set ps"
  by (induction ps) auto

definition players_ok :: "mpris_info list \<Rightarrow> bool" where
  "players_ok ps \<longleftrightarrow> length ps \<le> MAX_PLAYERS_PER_DEVICE \<and> distinct (map mi_player ps)"

lemma merge_player_ok: "players_ok ps \<Longrightarrow> players_ok (merge_player i ps)"
proof -
  assume ok: "players_ok ps"
  show ?thesis
  proof (cases "mi_player i")
    case (Some n)
    show ?thesis
    proof (cases "replace_player n i ps")
      case None
      then have "Some n \<notin> mi_player ` set ps" by (simp add: replace_player_None)
      with None Some ok show ?thesis by (auto simp: players_ok_def merge_player_def)
    next
      case (Some qs)
      then have "map mi_player qs = map mi_player ps" using \<open>mi_player i = Some n\<close> by (rule replace_player_names)
      moreover from this have "length qs = length ps" by (metis length_map)
      ultimately show ?thesis using ok Some \<open>mi_player i = Some n\<close> by (simp add: players_ok_def merge_player_def)
    qed
  qed (use ok in \<open>simp add: merge_player_def\<close>)
qed

lemma prune_players_ok: "players_ok ps \<Longrightarrow> players_ok (prune_players names ps)"
  by (auto simp: players_ok_def prune_players_def distinct_map_filter le_trans [OF length_filter_le] split: option.split)

lemma updated_players_ok: "players_ok ps \<Longrightarrow> players_ok (updated_players i ps)"
  by (simp add: updated_players_def merge_player_ok prune_players_ok)

text \<open>The players of a device: at most 32, each name once, whatever packets arrive, and nothing left of them after
  the device disconnects; what another device sends plays no part.\<close>

lemma mpris_run_players_ok:
  "players_ok (get_players e s) \<Longrightarrow>
   players_ok (get_players e (run_events (\<lambda>d p s. snd (mpris_handle E iter B A pid clk d p s)) mpris_disconnected evs s))"
proof (induction evs arbitrary: s)
  case (Cons ev evs)
  have "players_ok (get_players e (apply_event (\<lambda>d p s. snd (mpris_handle E iter B A pid clk d p s)) mpris_disconnected ev s))"
    using Cons.prems
    by (cases ev) (auto simp: mpris_handle_players forget_players updated_players_ok players_ok_def [of "[]"] split: sum.split)
  with Cons.IH show ?case by simp
qed simp

theorem mpris_players_bounded:
  assumes "remote_players s e = None"
  shows "length (get_players e (run_events (\<lambda>d p s. snd (mpris_handle E iter B A pid clk d p s)) mpris_disconnected evs s)) \<le> 32
     \<and> distinct (map mi_player (get_players e (run_events (\<lambda>d p s. snd (mpris_handle E iter B A pid clk d p s)) mpris_disconnected evs s)))
     \<and> get_players e (run_events (\<lambda>d p s. snd (mpris_handle E iter B A pid clk d p s)) mpris_disconnected (evs @ Gone e # later) s)
       = get_players e (run_events (\<lambda>d p s. snd (mpris_handle E iter B A pid clk d p s)) mpris_disconnected
           (filter (\<lambda>ev. event_device ev = e) later) s)"
proof -
  have "get_players e s = []" using assms by (simp add: get_players_def or_default_def)
  then show ?thesis
    using mpris_run_players_ok [of e s E iter B A pid clk evs] remote.run_since_gone [of e s E iter B A pid clk evs later s]
    by (simp add: players_ok_def MAX_PLAYERS_PER_DEVICE_def)
qed

theorem mpris_players_bounded_witness:
  "length (get_players demo_id (run_events (\<lambda>d p s. snd (mpris_handle demo_externals demo_players Map.empty
      \<lparr>ae_free = \<lambda>_. True, ae_addr_of = Some\<rparr> (\<lambda>_. 1) (\<lambda>_. 0) d p s)) mpris_disconnected
      [Arrives demo_id (mpris_packet 1 [(''player'', JStr ''VLC'')])] demo_mpris)) \<le> 32"
  by (rule mpris_players_bounded [of demo_mpris demo_id, THEN conjunct1]) simp

text \<open>An entry that was there is replaced as a whole by an update of the volume.\<close>

theorem mpris_partial_update_erases:
  assumes "Some (lp_name st) \<in> mi_player ` set (get_players did t)"
  shows "\<exists>pkt. fst (apply_props_changed pid st (volume_change v) s) = Some pkt
     \<and> find (\<lambda>p. mi_player p = Some (lp_name st)) (get_players did (snd (mpris_handle E iter B A pids clk did pkt t))) = Some (told_volume v st)"
proof -
  obtain pkt where pkt: "fst (apply_props_changed pid st (volume_change v) s) = Some pkt" "packet_type pkt = ''kdeconnect.mpris''"
      "dec_mpris_info (packet_body pkt) = Inr (told_volume v st)"
    using volume_change_read by blast
  obtain qs where qs: "replace_player (lp_name st) (told_volume v st) (get_players did t) = Some qs"
    using assms replace_player_None [of "lp_name st" "told_volume v st" "get_players did t"] by auto
  have names: "mi_player (told_volume v st) = Some (lp_name st)" "mi_player_list (told_volume v st) = None"
    by (simp_all add: told_volume_def)
  with qs replace_player_find [OF qs] pkt show ?thesis
    by (auto simp: mpris_handle_players updated_players_def prune_players_def merge_player_def)
qed

theorem mpris_partial_update_erases_witness:
  "\<exists>pkt. fst (apply_props_changed 1 (read_state vlc ''VLC'' demo_player) (volume_change 30) demo_mpris) = Some pkt
     \<and> find (\<lambda>p. mi_player p = Some ''VLC'') (get_players demo_id (snd (mpris_handle demo_externals demo_players Map.empty
          \<lparr>ae_free = \<lambda>_. True, ae_addr_of = Some\<rparr> (\<lambda>_. 1) (\<lambda>_. 0) demo_id pkt
          (demo_mpris\<lparr>remote_players := [demo_id \<mapsto> [(told_volume 40 (read_state vlc ''VLC'' demo_player))\<lparr>mi_title := Some ''Song''\<rparr>]]\<rparr>))))
       = Some (told_volume 30 (read_state vlc ''VLC'' demo_player))"
  by (rule mpris_partial_update_erases [of "read_state vlc ''VLC'' demo_player", simplified read_state_names])
     (simp add: get_players_def or_default_def told_volume_def)

end
