(* ===== verification/System_Volume.thy ===== *)
theory System_Volume
  imports Fan_Out Processes
begin

text \<open>
  Audio sinks (\<open>src/plugins/systemvolume/mod.rs\<close>, \<open>src/plugins/systemvolume/backend.rs\<close>): the sinks of this desktop,
  read and set through the program \<open>pactl\<close>, which devices may list, watch and set; and the sinks of the devices,
  which this daemon mirrors. What \<open>pactl\<close> answers is an argument; the commands it was given are kept in a list.
\<close>

section \<open>Data\<close>

definition DEFAULT_MAX_VOLUME :: i64 where "DEFAULT_MAX_VOLUME = 65536"

text \<open>A sink; the local and the wire struct have the same fields.\<close>

record sink_state =
  sk_name :: string
  sk_description :: "string option"
  sk_volume :: "i64 option"
  sk_max_volume :: "i64 option"
  sk_muted :: "bool option"
  sk_enabled :: "bool option"

type_synonym sink_table = "string \<rightharpoonup> sink_state"
type_synonym sink_order = "sink_table \<Rightarrow> string list"

definition default_sink_state :: sink_state where
  "default_sink_state = \<lparr>sk_name = [], sk_description = None, sk_volume = None, sk_max_volume = None, sk_muted = None, sk_enabled = None\<rparr>"

datatype subscribe_event =
    SinkAdded "string option"
  | SinkRemoved "string option"
  | SinkChanged "string option"
  | DefaultSinkChanged "string option"
  | Unclassified string

text \<open>How a run of a program ends: it cannot be started, or its exit status and output.\<close>

datatype run_result = SpawnFailed | Exited exit_status string

type_synonym program = "nat \<Rightarrow> string list \<Rightarrow> run_result"

record volume_daemon = daemon +
  peer_sinks :: "device_key \<rightharpoonup> sink_table"
  live_sinks :: sink_table
  live_default :: "string option"
  watch_sinks :: sink_table
  watch_default :: "string option"
  has_pactl :: bool
  pactl_works :: bool
  volume_watching :: bool
  volume_manager :: bool
  volume_registry :: bool
  synced :: "device_key set"
  pactl_runs :: "string list list"
  volume_events :: "sink_state list list"

section \<open>The backend\<close>

text \<open>One run of \<open>pactl\<close>; what it answers may depend on how often it was run before.\<close>

definition pactl_run :: "program \<Rightarrow> string list \<Rightarrow> ('z volume_daemon_scheme, string) op" where
  "pactl_run P args s =
     (case P (length (pactl_runs s)) args of
        SpawnFailed \<Rightarrow> Inl (io_error ''failed to spawn pactl'' None)
      | Exited st out \<Rightarrow> if status_success st then Inr (from_utf8_lossy out) else Inl (io_error ''pactl exited with an error'' None),
      s\<lparr>pactl_runs := pactl_runs s @ [args]\<rparr>)"

definition default_sink_name :: "program \<Rightarrow> 'z volume_daemon_scheme \<Rightarrow> string option \<times> 'z volume_daemon_scheme" where
  "default_sink_name P s =
     (case pactl_run P [''get-default-sink''] s of
        (Inr out, s1) \<Rightarrow> (if trim out = [] then None else Some (trim out), s1)
      | (Inl _, s1) \<Rightarrow> (None, s1))"

record pactl_sink =
  ps_name :: string
  ps_description :: "string option"
  ps_volume :: "i64 option list option"
  ps_mute :: "bool option"

definition dec_channel :: "json \<Rightarrow> i64 option res" where
  "dec_channel = dec_struct 0 [''value''] (\<lambda>get. optional dec_i64 (get ''value''))"

fun dec_channels :: "json \<Rightarrow> i64 option list res" where
  "dec_channels (JObj kvs) = dec_all dec_channel (map snd kvs)"
| "dec_channels _ = Inl dec_err"

definition dec_pactl_sink :: "json \<Rightarrow> pactl_sink res" where
  "dec_pactl_sink = dec_struct 1 [''name'', ''description'', ''volume'', ''mute'']
     (\<lambda>get. rbind (required dec_string (get ''name'')) (\<lambda>n.
            rbind (optional dec_string (get ''description'')) (\<lambda>d.
            rbind (optional dec_channels (get ''volume'')) (\<lambda>v.
            rbind (optional dec_bool (get ''mute'')) (\<lambda>m.
              Inr \<lparr>ps_name = n, ps_description = d, ps_volume = v, ps_mute = m\<rparr>)))))"

definition i64_greatest :: "i64 list \<Rightarrow> i64 option" where
  "i64_greatest vs = (if vs = [] then None else Some (word_of_int (Max (sint ` set vs))))"

definition to_state :: "i64 \<Rightarrow> pactl_sink \<Rightarrow> sink_state" where
  "to_state max_volume k =
     \<lparr>sk_name = ps_name k, sk_description = ps_description k,
      sk_volume = Some (case ps_volume k of Some chans \<Rightarrow> or_default 0 (i64_greatest (List.map_filter id chans)) | None \<Rightarrow> 0),
      sk_max_volume = Some max_volume, sk_muted = ps_mute k, sk_enabled = None\<rparr>"

definition mark_default :: "string option \<Rightarrow> sink_state list \<Rightarrow> sink_state list" where
  "mark_default d ks = (case d of Some n \<Rightarrow> map (\<lambda>k. k\<lparr>sk_enabled := Some (sk_name k = n)\<rparr>) ks | None \<Rightarrow> ks)"

definition list_sinks :: "externals \<Rightarrow> program \<Rightarrow> ('z volume_daemon_scheme, sink_state list) op" where
  "list_sinks E P =
     sbind (pactl_run P [''--format=json'', ''list'', ''sinks'']) (\<lambda>out.
     sbind (slift (rbind (ok_or (io_error ''pactl list sinks JSON parse failed'' None) (json_parse E out)) (dec_vec dec_pactl_sink))) (\<lambda>ks s.
       let (d, s1) = default_sink_name P s in (Inr (mark_default d (map (to_state 65536) ks)), s1)))"

definition set_volume :: "program \<Rightarrow> string \<Rightarrow> i64 \<Rightarrow> ('z volume_daemon_scheme, unit) op" where
  "set_volume P name v = sbind (pactl_run P [''set-sink-volume'', name, print_i64 v]) (\<lambda>_. sreturn ())"

definition set_muted :: "program \<Rightarrow> string \<Rightarrow> bool \<Rightarrow> ('z volume_daemon_scheme, unit) op" where
  "set_muted P name m = sbind (pactl_run P [''set-sink-mute'', name, if m then ''1'' else ''0'']) (\<lambda>_. sreturn ())"

definition set_default :: "program \<Rightarrow> string \<Rightarrow> bool \<Rightarrow> ('z volume_daemon_scheme, unit) op" where
  "set_default P name enabled =
     (if enabled then sbind (pactl_run P [''set-default-sink'', name]) (\<lambda>_. sreturn ()) else sreturn ())"

definition is_available :: "program \<Rightarrow> 'z volume_daemon_scheme \<Rightarrow> bool \<times> 'z volume_daemon_scheme" where
  "is_available P s = (let (r, s1) = pactl_run P [''get-default-sink''] s in (is_ok r, s1))"

subsection \<open>The lines of \<open>pactl subscribe\<close>\<close>

definition quoted_field :: "string \<Rightarrow> (string \<times> string) option" where
  "quoted_field s = Option.bind (strip_prefix [CHR 39] s) (split_once (CHR 39))"

definition sink_event :: "string \<Rightarrow> string \<Rightarrow> string \<Rightarrow> subscribe_event" where
  "sink_event line event_type after_sink =
     (if \<not> starts_with after_sink ''#'' then Unclassified line
      else (let name = Option.bind (split_once (CHR '' '') after_sink) (\<lambda>(_, tail). map_option fst (quoted_field (trim_start tail)))
            in if event_type = ''new'' then SinkAdded name
               else if event_type = ''remove'' then SinkRemoved name
               else if event_type = ''change'' then SinkChanged name
               else Unclassified line))"

definition parse_subscribe_line :: "string \<Rightarrow> subscribe_event option" where
  "parse_subscribe_line raw =
     (let line = trim raw in
      Option.bind (strip_prefix ''Event '' line) (\<lambda>after_event.
      Option.bind (quoted_field after_event) (\<lambda>(event_type, rest).
      Option.bind (strip_prefix ''on '' (trim_start rest)) (\<lambda>r.
        let after_on = trim_start r in
        case strip_prefix ''sink '' after_on of
          Some k \<Rightarrow> Some (sink_event line event_type (trim_start k))
        | None \<Rightarrow>
            if starts_with after_on ''server'' then
              Some (if event_type = ''change'' \<or> event_type = ''new'' then DefaultSinkChanged None else Unclassified line)
            else (case strip_prefix ''card '' after_on of
                    Some c \<Rightarrow>
                      if starts_with (trim_start c) ''#'' \<and> event_type \<in> {''new'', ''remove'', ''change''}
                      then Some (SinkChanged None) else Some (Unclassified line)
                  | None \<Rightarrow> Some (Unclassified line))))))"

section \<open>The sinks of this desktop\<close>

definition table_values :: "sink_order \<Rightarrow> sink_table \<Rightarrow> sink_state list" where
  "table_values iter m = List.map_filter m (iter m)"

definition enabled_name :: "sink_order \<Rightarrow> sink_table \<Rightarrow> string option" where
  "enabled_name iter m = map_option sk_name (find (\<lambda>k. sk_enabled k = Some True) (table_values iter m))"

definition or_keep :: "'a option \<Rightarrow> 'a option \<Rightarrow> 'a option" where
  "or_keep new old = (case new of Some v \<Rightarrow> Some v | None \<Rightarrow> old)"

definition merge_sink :: "sink_state \<Rightarrow> sink_state \<Rightarrow> sink_state" where
  "merge_sink k e = \<lparr>sk_name = sk_name k, sk_description = or_keep (sk_description k) (sk_description e),
     sk_volume = or_keep (sk_volume k) (sk_volume e), sk_max_volume = or_keep (sk_max_volume k) (sk_max_volume e),
     sk_muted = or_keep (sk_muted k) (sk_muted e), sk_enabled = or_keep (sk_enabled k) (sk_enabled e)\<rparr>"

definition apply_sink :: "sink_state \<Rightarrow> sink_table \<Rightarrow> sink_table" where
  "apply_sink k m = m(sk_name k \<mapsto> merge_sink k (or_default default_sink_state (m (sk_name k))))"

definition apply_local_sinks :: "sink_state list \<Rightarrow> 'z volume_daemon_scheme \<Rightarrow> 'z volume_daemon_scheme" where
  "apply_local_sinks ks s =
     s\<lparr>live_sinks := fold apply_sink ks (hm_retain (\<lambda>n _. n \<in> sk_name ` set ks) (live_sinks s))\<rparr>"

definition recompute_default :: "sink_order \<Rightarrow> 'z volume_daemon_scheme \<Rightarrow> 'z volume_daemon_scheme" where
  "recompute_default iter s = s\<lparr>live_default := enabled_name iter (live_sinks s)\<rparr>"

definition sort_sinks :: "sink_state list \<Rightarrow> sink_state list" where
  "sort_sinks = sort_key sk_name"

definition get_local_sink :: "string \<Rightarrow> 'z volume_daemon_scheme \<Rightarrow> sink_state option" where
  "get_local_sink name s = live_sinks s name"

definition get_local_sinks :: "sink_order \<Rightarrow> 'z volume_daemon_scheme \<Rightarrow> sink_state list" where
  "get_local_sinks iter s = sort_sinks (table_values iter (live_sinks s))"

definition get_default_sink :: "'z volume_daemon_scheme \<Rightarrow> string option" where
  "get_default_sink s = live_default s"

definition get_sinks :: "sink_order \<Rightarrow> device_key \<Rightarrow> 'z volume_daemon_scheme \<Rightarrow> sink_state list" where
  "get_sinks iter did s = sort_sinks (case peer_sinks s did of Some m \<Rightarrow> table_values iter m | None \<Rightarrow> [])"

definition get_sink :: "device_key \<Rightarrow> string \<Rightarrow> 'z volume_daemon_scheme \<Rightarrow> sink_state option" where
  "get_sink did name s = Option.bind (peer_sinks s did) (\<lambda>m. m name)"

section \<open>On the wire\<close>

definition json_opt :: "('a \<Rightarrow> json) \<Rightarrow> 'a option \<Rightarrow> json" where
  "json_opt f x = (case x of Some v \<Rightarrow> f v | None \<Rightarrow> JNull)"

definition json_int :: "i64 \<Rightarrow> json" where "json_int i = JNum (num_of_i64 i)"

definition sink_json :: "sink_state \<Rightarrow> json" where
  "sink_json k = JObj [(''name'', JStr (sk_name k)), (''description'', json_opt JStr (sk_description k)),
     (''volume'', json_opt json_int (sk_volume k)), (''maxVolume'', json_opt json_int (sk_max_volume k)),
     (''muted'', json_opt JBool (sk_muted k)), (''enabled'', json_opt JBool (sk_enabled k))]"

definition dec_sink_state :: "json \<Rightarrow> sink_state res" where
  "dec_sink_state = dec_struct 1 [''name'', ''description'', ''volume'', ''maxVolume'', ''muted'', ''enabled'']
     (\<lambda>get. rbind (required dec_string (get ''name'')) (\<lambda>n.
            rbind (optional dec_string (get ''description'')) (\<lambda>d.
            rbind (optional dec_i64 (get ''volume'')) (\<lambda>v.
            rbind (optional dec_i64 (get ''maxVolume'')) (\<lambda>x.
            rbind (optional dec_bool (get ''muted'')) (\<lambda>m.
            rbind (optional dec_bool (get ''enabled'')) (\<lambda>e.
              Inr \<lparr>sk_name = n, sk_description = d, sk_volume = v, sk_max_volume = x, sk_muted = m, sk_enabled = e\<rparr>)))))))"

definition volume_packet :: "i64 \<Rightarrow> (string \<times> json) list \<Rightarrow> packet" where
  "volume_packet pid kvs = new_packet pid ''kdeconnect.systemvolume'' (JObj kvs)"

definition sink_list_packet :: "i64 \<Rightarrow> sink_state list \<Rightarrow> packet" where
  "sink_list_packet pid ks = volume_packet pid [(''sinkList'', JArr (map sink_json ks))]"

section \<open>The sinks of the devices\<close>

definition parsed_sink :: "json \<Rightarrow> sink_table \<Rightarrow> sink_table" where
  "parsed_sink j m = (case dec_sink_state j of Inr k \<Rightarrow> if sk_name k = [] then m else m(sk_name k \<mapsto> k) | Inl _ \<Rightarrow> m)"

definition apply_delta :: "json \<Rightarrow> sink_state \<Rightarrow> sink_state" where
  "apply_delta body k = k\<lparr>sk_volume := or_keep (Option.bind (json_get body ''volume'') json_as_i64) (sk_volume k),
     sk_muted := or_keep (Option.bind (json_get body ''muted'') as_bool) (sk_muted k),
     sk_enabled := or_keep (Option.bind (json_get body ''enabled'') as_bool) (sk_enabled k)\<rparr>"

text \<open>What a packet makes of the table of its device: a list replaces it, a change of one sink applies to a sink
  that is there.\<close>

definition controller_table :: "json \<Rightarrow> sink_table option \<Rightarrow> sink_table option" where
  "controller_table body t =
     (case Option.bind (json_get body ''sinkList'') json_as_array of
        Some entries \<Rightarrow> Some (fold parsed_sink entries Map.empty)
      | None \<Rightarrow>
          (case Option.bind (json_get body ''name'') json_as_str of
             None \<Rightarrow> t
           | Some name \<Rightarrow> map_option (\<lambda>m. case m name of Some k \<Rightarrow> m(name \<mapsto> apply_delta body k) | None \<Rightarrow> m) t))"

definition handle_controller_state :: "device_key \<Rightarrow> packet \<Rightarrow> 'z volume_daemon_scheme \<Rightarrow> 'z volume_daemon_scheme" where
  "handle_controller_state did pkt s =
     s\<lparr>peer_sinks := (peer_sinks s)(did := controller_table (packet_body pkt) (peer_sinks s did))\<rparr>"

section \<open>Requests of the devices\<close>

definition clamp_volume :: "i64 \<Rightarrow> i64 \<Rightarrow> i64" where
  "clamp_volume mx v = word_of_int (max 0 (min (sint v) (max 0 (sint mx))))"

definition max_volume_of :: "string \<Rightarrow> 'z volume_daemon_scheme \<Rightarrow> i64" where
  "max_volume_of name s = or_default DEFAULT_MAX_VOLUME (Option.bind (live_sinks s name) sk_max_volume)"

text \<open>The three settings of a request, each of which ends the request when it fails; unmuting after a change of
  the volume may fail.\<close>

definition request_volume :: "program \<Rightarrow> string \<Rightarrow> i64 \<Rightarrow> ('z volume_daemon_scheme, unit) op" where
  "request_volume P name v s =
     (case set_volume P name (clamp_volume (max_volume_of name s) v) s of
        (Inl e, s1) \<Rightarrow> (Inl e, s1)
      | (Inr _, s1) \<Rightarrow> (Inr (), snd (set_muted P name False s1)))"

definition when_given :: "('a \<Rightarrow> ('s, unit) op) \<Rightarrow> 'a option \<Rightarrow> ('s, unit) op" where
  "when_given f x = (case x of Some v \<Rightarrow> f v | None \<Rightarrow> sreturn ())"

definition handle_provider_request ::
    "externals \<Rightarrow> program \<Rightarrow> sink_order \<Rightarrow> i64 \<Rightarrow> packet \<Rightarrow> 'z volume_daemon_scheme \<Rightarrow> packet list option \<times> 'z volume_daemon_scheme" where
  "handle_provider_request E P iter pid pkt s =
     (let body = packet_body pkt in
      if \<not> has_pactl s then (None, s)
      else if Option.bind (json_get body ''requestSinks'') as_bool = Some True then
        (case list_sinks E P s of
           (Inl _, s1) \<Rightarrow> (None, s1)
         | (Inr ks, s1) \<Rightarrow> (Some [sink_list_packet pid ks], recompute_default iter (apply_local_sinks ks s1)))
      else (case Option.bind (json_get body ''name'') json_as_str of
              None \<Rightarrow> (None, s)
            | Some name \<Rightarrow>
                (None, snd (sbind (when_given (request_volume P name) (Option.bind (json_get body ''volume'') json_as_i64)) (\<lambda>_.
                            sbind (when_given (set_muted P name) (Option.bind (json_get body ''muted'') as_bool)) (\<lambda>_.
                                   when_given (set_default P name) (Option.bind (json_get body ''enabled'') as_bool))) s))))"

section \<open>The watcher\<close>

definition handle_subscribe_event ::
    "externals \<Rightarrow> program \<Rightarrow> subscribe_event \<Rightarrow> 'z volume_daemon_scheme \<Rightarrow> sink_state list option \<times> 'z volume_daemon_scheme" where
  "handle_subscribe_event E P ev s =
     (case ev of
        Unclassified line \<Rightarrow> (None, s)
      | _ \<Rightarrow> (case list_sinks E P s of (Inr ks, s1) \<Rightarrow> (Some ks, s1) | (Inl _, s1) \<Rightarrow> (None, s1)))"

definition sink_deltas :: "i64 \<Rightarrow> sink_table \<Rightarrow> sink_state \<Rightarrow> packet list" where
  "sink_deltas pid old k =
     (case old (sk_name k) of
        None \<Rightarrow> []
      | Some prev \<Rightarrow>
          (if sk_volume prev \<noteq> sk_volume k then [volume_packet pid [(''name'', JStr (sk_name k)), (''volume'', json_opt json_int (sk_volume k))]] else [])
          @ (if sk_muted prev \<noteq> sk_muted k then [volume_packet pid [(''name'', JStr (sk_name k)), (''muted'', json_opt JBool (sk_muted k))]] else [])
          @ (if sk_enabled prev \<noteq> sk_enabled k then [volume_packet pid [(''name'', JStr (sk_name k)), (''enabled'', json_opt JBool (sk_enabled k))]] else []))"

definition build_deltas :: "i64 \<Rightarrow> sink_table \<Rightarrow> sink_state list \<Rightarrow> packet list" where
  "build_deltas pid old ks = concat (map (sink_deltas pid old) ks)"

definition table_of :: "sink_state list \<Rightarrow> sink_table" where
  "table_of ks = fold (\<lambda>k m. m(sk_name k \<mapsto> k)) ks Map.empty"

text \<open>What each connected device is sent: the changes, and the list when the default or the set of names changed.\<close>

definition pushed_packets :: "sink_order \<Rightarrow> i64 \<Rightarrow> sink_table \<Rightarrow> string option \<Rightarrow> sink_state list \<Rightarrow> packet list" where
  "pushed_packets iter pid old old_default ks =
     (let new = table_of ks;
          set_changed = (hm_len old \<noteq> hm_len new \<or> list_ex (\<lambda>n. \<not> hm_contains old n) (iter new))
      in build_deltas pid old ks
         @ (if old_default \<noteq> enabled_name iter new \<or> set_changed then [sink_list_packet pid (table_values iter new)] else []))"

fun send_each :: "externals \<Rightarrow> (device_key \<Rightarrow> packet list) \<Rightarrow> device_key list \<Rightarrow> (nat \<Rightarrow> clock) \<Rightarrow> 'z conn_mgr_scheme \<Rightarrow> 'z conn_mgr_scheme" where
  "send_each E pk [] clks s = s"
| "send_each E pk (d # ds) clks s = send_each E pk ds (\<lambda>n. clks (Suc n)) (send_all E d (pk d) (clks 0) s)"

definition push_local_state ::
    "externals \<Rightarrow> sink_order \<Rightarrow> ((device_key \<rightharpoonup> connection) \<Rightarrow> device_key list) \<Rightarrow> (device_key \<Rightarrow> i64) \<Rightarrow> (nat \<Rightarrow> clock)
     \<Rightarrow> sink_state list \<Rightarrow> 'z volume_daemon_scheme \<Rightarrow> 'z volume_daemon_scheme" where
  "push_local_state E iter link_order pids clks ks s =
     (let new = table_of ks; d = enabled_name iter new;
          s1 = s\<lparr>watch_sinks := new, watch_default := d, live_sinks := new, live_default := d,
                 volume_events := volume_events s @ [table_values iter new]\<rparr>
      in send_each E (\<lambda>dev. pushed_packets iter (pids dev) (watch_sinks s) (watch_default s) ks)
           (connected_device_ids link_order s1) clks s1)"

text \<open>A device that is connected and was not served yet: it gets the list if it reads them, and is asked for its own
  if it has them.\<close>

definition greeting :: "sink_order \<Rightarrow> i64 \<Rightarrow> device \<Rightarrow> 'z volume_daemon_scheme \<Rightarrow> packet list" where
  "greeting iter pid peer s =
     (if ''kdeconnect.systemvolume'' \<in> set (dv_incoming peer) then [sink_list_packet pid (table_values iter (live_sinks s))] else [])
     @ (if ''kdeconnect.systemvolume'' \<in> set (dv_outgoing peer)
        then [new_packet pid ''kdeconnect.systemvolume.request'' (JObj [(''requestSinks'', JBool True)])] else [])"

definition sync_peer ::
    "externals \<Rightarrow> sink_order \<Rightarrow> (device_key \<Rightarrow> i64) \<Rightarrow> clock \<Rightarrow> device_key \<Rightarrow> 'z volume_daemon_scheme \<Rightarrow> 'z volume_daemon_scheme" where
  "sync_peer E iter pids clk dev s =
     (if dev \<in> synced s then s
      else (case reg_get dev s of
              Inl _ \<Rightarrow> s
            | Inr peer \<Rightarrow> (send_all E dev (greeting iter (pids dev) peer s) clk s)\<lparr>synced := insert dev (synced s)\<rparr>))"

definition sync_peers ::
    "externals \<Rightarrow> sink_order \<Rightarrow> ((device_key \<rightharpoonup> connection) \<Rightarrow> device_key list) \<Rightarrow> (device_key \<Rightarrow> i64) \<Rightarrow> (nat \<Rightarrow> clock)
     \<Rightarrow> 'z volume_daemon_scheme \<Rightarrow> 'z volume_daemon_scheme" where
  "sync_peers E iter link_order pids clks s =
     (if \<not> volume_registry s then s
      else (let connected = connected_device_ids link_order s
            in fold (\<lambda>(i, dev). sync_peer E iter pids (clks i) dev) (enumerate 0 connected) (s\<lparr>synced := synced s \<inter> set connected\<rparr>)))"

text \<open>One round of the watcher: an event, or only the tick.\<close>

definition volume_turn ::
    "externals \<Rightarrow> program \<Rightarrow> sink_order \<Rightarrow> ((device_key \<rightharpoonup> connection) \<Rightarrow> device_key list) \<Rightarrow> (device_key \<Rightarrow> i64) \<Rightarrow> (nat \<Rightarrow> clock)
     \<Rightarrow> subscribe_event option \<Rightarrow> 'z volume_daemon_scheme \<Rightarrow> 'z volume_daemon_scheme" where
  "volume_turn E P iter link_order pids clks ev s =
     sync_peers E iter link_order pids (\<lambda>n. clks (2 * n + 1))
       (case ev of
          None \<Rightarrow> s
        | Some e \<Rightarrow> (case handle_subscribe_event E P e s of
                       (Some ks, s1) \<Rightarrow> push_local_state E iter link_order pids (\<lambda>n. clks (2 * n)) ks s1
                     | (None, s1) \<Rightarrow> s1))"

text \<open>The wait before the watcher is started again, and the next one, in milliseconds.\<close>

definition resubscribe :: "nat \<Rightarrow> nat \<Rightarrow> nat \<times> nat" where
  "resubscribe ran_for backoff = (let b = (if 5000 \<le> ran_for then 500 else backoff) in (b, min (b * 2) 30000))"

text \<open>Whether there is a runtime and whether \<open>pactl subscribe\<close> can be started.\<close>

definition volume_start_watcher :: "bool \<Rightarrow> bool \<Rightarrow> 'z volume_daemon_scheme \<Rightarrow> 'z volume_daemon_scheme" where
  "volume_start_watcher in_runtime subscribes s =
     (if volume_watching s \<or> \<not> volume_manager s \<or> \<not> has_pactl s \<or> \<not> in_runtime \<or> \<not> subscribes then s
      else s\<lparr>volume_watching := True, watch_sinks := live_sinks s, watch_default := live_default s, synced := {}\<rparr>)"

definition volume_set_backend :: "program \<Rightarrow> bool \<Rightarrow> bool \<Rightarrow> 'z volume_daemon_scheme \<Rightarrow> 'z volume_daemon_scheme" where
  "volume_set_backend P in_runtime subscribes s =
     (let (available, s1) = is_available P s
      in volume_start_watcher in_runtime subscribes (s1\<lparr>has_pactl := True, pactl_works := available\<rparr>))"

definition volume_enable_session_backend ::
    "externals \<Rightarrow> program \<Rightarrow> sink_order \<Rightarrow> bool \<Rightarrow> bool \<Rightarrow> 'z volume_daemon_scheme \<Rightarrow> 'z volume_daemon_scheme" where
  "volume_enable_session_backend E P iter in_path subscribes s =
     (if \<not> in_path then s
      else (case is_available P s of
              (False, s1) \<Rightarrow> s1
            | (True, s1) \<Rightarrow>
                (case list_sinks E P s1 of
                   (Inl _, s2) \<Rightarrow> s2
                 | (Inr ks, s2) \<Rightarrow> volume_set_backend P True subscribes (recompute_default iter (apply_local_sinks ks s2)))))"

section \<open>The plugin\<close>

definition volume_incoming :: "'z volume_daemon_scheme \<Rightarrow> string list" where
  "volume_incoming s = ''kdeconnect.systemvolume'' # (if pactl_works s then [''kdeconnect.systemvolume.request''] else [])"

definition volume_outgoing :: "'z volume_daemon_scheme \<Rightarrow> string list" where
  "volume_outgoing s = ''kdeconnect.systemvolume.request'' # (if pactl_works s then [''kdeconnect.systemvolume''] else [])"

definition volume_disconnected :: "device_key \<Rightarrow> 'z volume_daemon_scheme \<Rightarrow> 'z volume_daemon_scheme" where
  "volume_disconnected did s = s\<lparr>peer_sinks := hm_remove did (peer_sinks s)\<rparr>"

definition volume_handle :: "externals \<Rightarrow> program \<Rightarrow> sink_order \<Rightarrow> i64 \<Rightarrow> 'z volume_daemon_scheme handler" where
  "volume_handle E P iter pid did pkt s =
     (if packet_type pkt = ''kdeconnect.systemvolume'' then (HResult (Inr None), handle_controller_state did pkt s)
      else if packet_type pkt = ''kdeconnect.systemvolume.request'' then
        (let (r, s1) = handle_provider_request E P iter pid pkt s in (HResult (Inr r), s1))
      else (HResult (Inr None), s))"

section \<open>Only these commands\<close>

text \<open>The commands \<open>pactl\<close> may be given: two queries, and for a named sink a volume between nothing and the normal
  one, a mute flag, or making it the default.\<close>

definition permitted_run :: "string list \<Rightarrow> bool" where
  "permitted_run args \<longleftrightarrow> args \<in> {[''--format=json'', ''list'', ''sinks''], [''get-default-sink'']}
     \<or> (\<exists>n v. v \<le> 65536 \<and> args = [''set-sink-volume'', n, print_nat v])
     \<or> (\<exists>n. args \<in> {[''set-sink-mute'', n, ''0''], [''set-sink-mute'', n, ''1''], [''set-default-sink'', n]})"

definition capped :: "sink_table \<Rightarrow> bool" where
  "capped m \<longleftrightarrow> (\<forall>n k. m n = Some k \<longrightarrow> sk_max_volume k \<in> {None, Some 65536})"

definition volume_ok :: "'z volume_daemon_scheme \<Rightarrow> bool" where
  "volume_ok s \<longleftrightarrow> list_all permitted_run (pactl_runs s) \<and> capped (live_sinks s)"

text \<open>An operation of the backend adds permitted runs and changes nothing else.\<close>

definition runs_only :: "'z volume_daemon_scheme \<Rightarrow> 'z volume_daemon_scheme \<Rightarrow> bool" where
  "runs_only s t \<longleftrightarrow> (\<exists>rs. t = s\<lparr>pactl_runs := pactl_runs s @ rs\<rparr> \<and> list_all permitted_run rs)"

lemma runs_only_refl: "runs_only s s"
  by (simp add: runs_only_def exI [of _ "[]"])

lemma runs_only_trans: "runs_only s t \<Longrightarrow> runs_only t u \<Longrightarrow> runs_only s u"
  unfolding runs_only_def by (elim exE conjE) (rule exI, auto)

lemma runs_only_ok: "runs_only s t \<Longrightarrow> volume_ok s \<Longrightarrow> volume_ok t"
  by (auto simp: runs_only_def volume_ok_def)

lemma pactl_run_only: "permitted_run args \<Longrightarrow> runs_only s (snd (pactl_run P args s))"
  by (auto simp: pactl_run_def runs_only_def)

lemma runs_only_sbind: "runs_only s (snd (m s)) \<Longrightarrow> (\<And>a t. runs_only t (snd (f a t))) \<Longrightarrow> runs_only s (snd (sbind m f s))"
  by (cases "m s"; cases "fst (m s)") (auto simp: sbind_def intro: runs_only_trans)

lemma runs_only_lift [simp]: "runs_only s (snd (slift r s))" "runs_only s (snd (sreturn a s))"
  by (simp_all add: slift_def sreturn_def runs_only_refl)

lemma list_sinks_only: "runs_only s (snd (list_sinks E P s))"
  unfolding list_sinks_def
proof (intro runs_only_sbind runs_only_lift)
  show "runs_only s (snd (pactl_run P [''--format=json'', ''list'', ''sinks''] s))" by (rule pactl_run_only) (simp add: permitted_run_def)
  show "runs_only t (snd (let (d, s1) = default_sink_name P t in (Inr (mark_default d (map (to_state 65536) ks)), s1)))" for ks and t :: "'a volume_daemon_scheme"
    using pactl_run_only [of "[''get-default-sink'']" t P]
    by (cases "pactl_run P [''get-default-sink''] t"; cases "fst (pactl_run P [''get-default-sink''] t)")
       (auto simp: default_sink_name_def permitted_run_def)
qed

lemma list_sinks_capped: "fst (list_sinks E P s) = Inr ks \<Longrightarrow> k \<in> set ks \<Longrightarrow> sk_max_volume k = Some 65536"
  by (auto simp: list_sinks_def sbind_def slift_def Let_def mark_default_def to_state_def
      split: prod.splits sum.splits option.splits)

lemma clamp_volume_value: "mx \<in> {DEFAULT_MAX_VOLUME} \<Longrightarrow> \<exists>v \<le> 65536. print_i64 (clamp_volume mx w) = print_nat v"
proof -
  assume "mx \<in> {DEFAULT_MAX_VOLUME}"
  then have "sint mx = 65536" by (simp add: DEFAULT_MAX_VOLUME_def)
  then have "sint (clamp_volume mx w) = max 0 (min (sint w) 65536)"
    by (simp add: clamp_volume_def sint_sbintrunc' signed_take_bit_int_eq_self)
  then show ?thesis by (intro exI [of _ "nat (max 0 (min (sint w) 65536))"]) (auto simp: print_i64_def)
qed

lemma set_volume_only: "v \<le> 65536 \<Longrightarrow> print_i64 w = print_nat v \<Longrightarrow> runs_only s (snd (set_volume P name w s))"
  unfolding set_volume_def by (intro runs_only_sbind pactl_run_only) (auto simp: permitted_run_def)

lemma set_muted_only: "runs_only s (snd (set_muted P name m s))"
  unfolding set_muted_def by (intro runs_only_sbind pactl_run_only) (auto simp: permitted_run_def)

lemma set_default_only: "runs_only s (snd (set_default P name m s))"
  unfolding set_default_def by (auto intro!: runs_only_sbind pactl_run_only simp: permitted_run_def)

lemma max_volume_capped: "capped (live_sinks s) \<Longrightarrow> max_volume_of name s = DEFAULT_MAX_VOLUME"
  by (cases "live_sinks s name") (fastforce simp: max_volume_of_def capped_def or_default_def DEFAULT_MAX_VOLUME_def split: option.split)+

lemma request_volume_only: "capped (live_sinks s) \<Longrightarrow> runs_only s (snd (request_volume P name v s))"
proof -
  assume "capped (live_sinks s)"
  then obtain u where u: "u \<le> 65536" "print_i64 (clamp_volume (max_volume_of name s) v) = print_nat u"
    using clamp_volume_value max_volume_capped by fastforce
  obtain r t where rt: "set_volume P name (clamp_volume (max_volume_of name s) v) s = (r, t)" by fastforce
  with set_volume_only [OF u, of s P name] have "runs_only s t" by simp
  with rt runs_only_trans [OF _ set_muted_only] show ?thesis by (cases r) (auto simp: request_volume_def)
qed

lemma settings_only:
  "capped (live_sinks s) \<Longrightarrow>
   runs_only s (snd (sbind (when_given (request_volume P name) v) (\<lambda>_. sbind (when_given (set_muted P name) m) (\<lambda>_. when_given (set_default P name) e)) s))"
  by (intro runs_only_sbind) (auto simp: when_given_def request_volume_only set_muted_only set_default_only split: option.split)

lemma capped_upd: "capped m \<Longrightarrow> sk_max_volume k = Some 65536 \<Longrightarrow> capped (m(n \<mapsto> k))"
  by (simp add: capped_def)

lemma capped_retain: "capped m \<Longrightarrow> capped (hm_retain f m)"
  by (auto simp: capped_def hm_retain_def split: option.splits if_splits)

lemma apply_sinks_capped:
  "\<forall>k \<in> set ks. sk_max_volume k = Some 65536 \<Longrightarrow> capped m \<Longrightarrow> capped (fold apply_sink ks m)"
  by (induction ks arbitrary: m) (simp_all add: capped_upd apply_sink_def merge_sink_def or_keep_def)

lemma table_of_capped: "\<forall>k \<in> set ks. sk_max_volume k = Some 65536 \<Longrightarrow> capped (table_of ks)"
proof -
  assume "\<forall>k \<in> set ks. sk_max_volume k = Some 65536"
  then have "capped m \<Longrightarrow> capped (fold (\<lambda>k m. m(sk_name k \<mapsto> k)) ks m)" for m
    by (induction ks arbitrary: m) (simp_all add: capped_upd)
  moreover have "capped Map.empty" by (simp add: capped_def)
  ultimately show ?thesis unfolding table_of_def by blast
qed

lemma refresh_ok:
  assumes "volume_ok s" and "list_sinks E P s = (Inr ks, t)"
  shows "volume_ok (recompute_default iter (apply_local_sinks ks t))"
proof -
  have "volume_ok t" using runs_only_ok [OF list_sinks_only assms(1)] assms(2) by (metis snd_conv)
  moreover have "\<forall>k \<in> set ks. sk_max_volume k = Some 65536" using list_sinks_capped assms(2) by (metis fst_conv)
  ultimately show ?thesis
    by (simp add: volume_ok_def recompute_default_def apply_local_sinks_def apply_sinks_capped capped_retain)
qed

lemma provider_request_ok: "volume_ok s \<Longrightarrow> volume_ok (snd (handle_provider_request E P iter pid pkt s))"
proof -
  assume ok: "volume_ok s"
  obtain r t where ls: "list_sinks E P s = (r, t)" by fastforce
  have "volume_ok t" using runs_only_ok [OF list_sinks_only ok] ls by (metis snd_conv)
  with ok ls refresh_ok [OF ok] settings_only [THEN runs_only_ok, OF _ ok] show ?thesis
    by (cases r) (auto simp: handle_provider_request_def Let_def volume_ok_def split: option.split)
qed

lemma send_all_keeps:
  assumes "\<And>t m c sh. f (t\<lparr>connections := m, cancel_tokens := c, shutdowns := sh\<rparr>) = f t"
  shows "f (send_all E d ps clk s) = f s"
  by (induction ps arbitrary: clk s) (simp_all add: send_packet_keeps [OF assms])

lemma send_each_keeps:
  assumes "\<And>t m c sh. f (t\<lparr>connections := m, cancel_tokens := c, shutdowns := sh\<rparr>) = f t"
  shows "f (send_each E pk ds clks s) = f s"
  by (induction ds arbitrary: clks s) (simp_all add: send_all_keeps [OF assms])

lemma volume_ok_links: "volume_ok (t\<lparr>connections := m, cancel_tokens := c, shutdowns := sh\<rparr>) = volume_ok t"
  by (simp add: volume_ok_def)

lemma volume_ok_synced: "volume_ok (s\<lparr>synced := d\<rparr>) = volume_ok s"
  by (simp add: volume_ok_def)

lemma send_ok: "volume_ok (send_all E d ps clk s) = volume_ok s" "volume_ok (send_each E pk ds clks s) = volume_ok s"
  by (rule send_all_keeps, rule volume_ok_links) (rule send_each_keeps, rule volume_ok_links)

lemma sync_peer_ok: "volume_ok (sync_peer E iter pids clk dev s) = volume_ok s"
  by (simp add: sync_peer_def volume_ok_synced send_ok split: sum.split)

lemma sync_peers_ok: "volume_ok (sync_peers E iter link_order pids clks s) = volume_ok s"
proof -
  have "volume_ok (fold (\<lambda>(i, dev). sync_peer E iter pids (clks i) dev) xs t) = volume_ok t" for xs and t :: "'a volume_daemon_scheme"
    by (induction xs arbitrary: t) (simp_all add: sync_peer_ok split_beta)
  then show ?thesis by (simp add: sync_peers_def Let_def volume_ok_synced)
qed

lemma volume_turn_ok: "volume_ok s \<Longrightarrow> volume_ok (volume_turn E P iter link_order pids clks ev s)"
proof -
  assume ok: "volume_ok s"
  obtain r t where ls: "list_sinks E P s = (r, t)" by fastforce
  have t: "volume_ok t" using runs_only_ok [OF list_sinks_only ok] ls by (metis snd_conv)
  have "volume_ok (push_local_state E iter link_order pids clks' ks t)" if "r = Inr ks" for ks clks'
  proof -
    have "\<forall>k \<in> set ks. sk_max_volume k = Some 65536" using list_sinks_capped ls that by (metis fst_conv)
    with t show ?thesis
      by (simp add: push_local_state_def Let_def send_ok)
         (simp add: volume_ok_def table_of_capped)
  qed
  with ok t ls show ?thesis
    by (cases r) (auto simp: volume_turn_def sync_peers_ok handle_subscribe_event_def split: option.split subscribe_event.split)
qed

lemma is_available_only: "runs_only s (snd (is_available P s))"
  using pactl_run_only [of "[''get-default-sink'']" s P] by (simp add: is_available_def permitted_run_def split_beta Let_def)

lemma volume_set_backend_ok: "volume_ok s \<Longrightarrow> volume_ok (volume_set_backend P in_runtime subscribes s)"
  using runs_only_ok [OF is_available_only, of s P]
  by (simp add: volume_set_backend_def volume_start_watcher_def split_beta Let_def volume_ok_def)

lemma volume_enable_ok: "volume_ok s \<Longrightarrow> volume_ok (volume_enable_session_backend E P iter in_path subscribes s)"
proof -
  assume ok: "volume_ok s"
  obtain b s1 where av: "is_available P s = (b, s1)" by fastforce
  have s1: "volume_ok s1" using runs_only_ok [OF is_available_only ok] av by (metis snd_conv)
  obtain r s2 where ls: "list_sinks E P s1 = (r, s2)" by fastforce
  have "volume_ok s2" using runs_only_ok [OF list_sinks_only s1] ls by (metis snd_conv)
  with ok s1 av ls refresh_ok [OF s1] show ?thesis
    by (cases b; cases r) (auto simp: volume_enable_session_backend_def volume_set_backend_ok)
qed

text \<open>What can happen to the plugin: packets, disconnections, rounds of the watcher, the backend's start.\<close>

inductive volume_step :: "externals \<Rightarrow> sink_order \<Rightarrow> 'z volume_daemon_scheme \<Rightarrow> 'z volume_daemon_scheme \<Rightarrow> bool" for E iter where
  vs_packet: "volume_step E iter s (snd (volume_handle E P iter pid did pkt s))"
| vs_gone: "volume_step E iter s (volume_disconnected did s)"
| vs_turn: "volume_step E iter s (volume_turn E P iter link_order pids clks ev s)"
| vs_enable: "volume_step E iter s (volume_enable_session_backend E P iter in_path subscribes s)"

interpretation sound: machine "volume_step E iter" volume_ok
proof
  show "volume_step E iter s t \<Longrightarrow> volume_ok s \<Longrightarrow> volume_ok t" for s t :: "'a volume_daemon_scheme"
  proof (induction rule: volume_step.induct)
    case (vs_packet s P pid did pkt)
    then show ?case
      using provider_request_ok [of s E P iter pid pkt]
      by (simp add: volume_handle_def handle_controller_state_def volume_ok_def split_beta Let_def)
  qed (simp_all add: volume_turn_ok volume_enable_ok, simp add: volume_disconnected_def volume_ok_def)
qed

section \<open>The table of a peer\<close>

text \<open>What a device's table is after the packets it received.\<close>

definition after_packets :: "packet list \<Rightarrow> sink_table option \<Rightarrow> sink_table option" where
  "after_packets ps t = fold (\<lambda>p. controller_table (packet_body p)) ps t"

lemma optional_json_opt [simp]:
  "optional dec_string (Some (json_opt JStr x)) = Inr x" "optional dec_bool (Some (json_opt JBool b)) = Inr b"
  "optional dec_i64 (Some (json_opt json_int i)) = Inr i"
  by (cases x, simp_all add: optional_def json_opt_def)
     (cases b, simp_all, cases i, simp_all add: json_int_def ok_or_def)

lemma sink_json_read: "dec_sink_state (sink_json k) = Inr k"
  by (simp add: dec_sink_state_def dec_struct_def sink_json_def required_def)

lemma parsed_values:
  "\<forall>k \<in> set ks. sk_name k \<noteq> [] \<Longrightarrow> fold parsed_sink (map sink_json ks) m = fold (\<lambda>k m. m(sk_name k \<mapsto> k)) ks m"
  by (induction ks arbitrary: m) (simp_all add: parsed_sink_def sink_json_read)

text \<open>The names of a snapshot are its keys.\<close>

lemma fold_table:
  "distinct (map sk_name ks) \<Longrightarrow>
   fold (\<lambda>k m. m(sk_name k \<mapsto> k)) ks m n = (case find (\<lambda>k. sk_name k = n) ks of Some k \<Rightarrow> Some k | None \<Rightarrow> m n)"
proof (induction ks arbitrary: m)
  case (Cons k ks)
  have "find (\<lambda>j. sk_name j = sk_name k) ks = None"
    using Cons.prems by (simp add: find_None_iff) (metis image_eqI)
  with Cons show ?case by (auto split: option.split)
qed simp

lemma table_of_find: "distinct (map sk_name ks) \<Longrightarrow> table_of ks n = find (\<lambda>k. sk_name k = n) ks"
  by (simp add: table_of_def fold_table split: option.split)

lemma table_of_Some: "distinct (map sk_name ks) \<Longrightarrow> table_of ks n = Some k \<longleftrightarrow> k \<in> set ks \<and> sk_name k = n"
proof
  assume d: "distinct (map sk_name ks)"
  show "table_of ks n = Some k \<Longrightarrow> k \<in> set ks \<and> sk_name k = n"
    using d by (auto simp: table_of_find find_Some_iff)
  assume "k \<in> set ks \<and> sk_name k = n"
  with d show "table_of ks n = Some k"
    by (auto simp: table_of_find distinct_map inj_on_def intro!: find_unique)
qed

lemma table_of_dom: "distinct (map sk_name ks) \<Longrightarrow> dom (table_of ks) = sk_name ` set ks"
  using table_of_Some by (fastforce simp: dom_def)

text \<open>A list of all entries, in whatever order the table is iterated, is read back as the table.\<close>

lemma list_read:
  assumes "iter_ok iter" and "distinct (map sk_name ks)" and "\<forall>k \<in> set ks. sk_name k \<noteq> []"
  shows "after_packets [sink_list_packet pid (table_values iter (table_of ks))] t = Some (table_of ks)"
proof -
  let ?m = "table_of ks"
  have fin: "finite (dom ?m)" using table_of_dom [OF assms(2)] by simp
  have vals: "set (table_values iter ?m) = set ks"
    using assms(1,2) fin by (auto simp: table_values_def set_map_filter iter_ok_def table_of_Some dom_def)
  have "map sk_name (table_values iter ?m) = iter ?m"
  proof -
    have "\<forall>n \<in> set (iter ?m). \<exists>k. ?m n = Some k \<and> sk_name k = n"
      using assms(1,2) fin by (fastforce simp: iter_ok_def table_of_Some)
    moreover have "\<forall>n \<in> set ns. \<exists>k. ?m n = Some k \<and> sk_name k = n \<Longrightarrow> map sk_name (List.map_filter ?m ns) = ns" for ns
      by (induction ns) (auto simp: List.map_filter_simps)
    ultimately show ?thesis by (simp add: table_values_def)
  qed
  then have d: "distinct (map sk_name (table_values iter ?m))" using assms(1) fin by (simp add: iter_ok_def)
  have "table_of (table_values iter ?m) n = Some k \<longleftrightarrow> ?m n = Some k" for n k
    using vals by (simp add: table_of_Some [OF d] table_of_Some [OF assms(2)])
  then have "table_of (table_values iter ?m) n = ?m n" for n by (metis not_Some_eq)
  then have "table_of (table_values iter ?m) = ?m" by (rule ext)
  with assms(3) vals show ?thesis
    by (simp add: after_packets_def controller_table_def sink_list_packet_def volume_packet_def new_packet_def
        parsed_values table_of_def)
qed

text \<open>A sink whose three changing fields are all known, and one that differs from an earlier state in these
  fields only.\<close>

definition complete :: "sink_state \<Rightarrow> bool" where
  "complete k \<longleftrightarrow> sk_volume k \<noteq> None \<and> sk_muted k \<noteq> None \<and> sk_enabled k \<noteq> None"

definition same_sink :: "sink_state \<Rightarrow> sink_state \<Rightarrow> bool" where
  "same_sink p k \<longleftrightarrow> sk_name p = sk_name k \<and> sk_description p = sk_description k \<and> sk_max_volume p = sk_max_volume k"

lemma after_append: "after_packets (ps @ qs) t = after_packets qs (after_packets ps t)"
  by (simp add: after_packets_def)

lemma json_opt_read [simp]:
  "Option.bind (Some (json_opt json_int v)) json_as_i64 = v" "Option.bind (Some (json_opt JBool b)) as_bool = b"
  by (cases v; simp add: json_opt_def json_int_def) (cases b; simp add: json_opt_def)

lemma volume_delta:
  assumes "m n = Some p" and "sk_volume k \<noteq> None" and "sk_volume p = v"
  shows "after_packets (if v \<noteq> sk_volume k then [volume_packet pid [(''name'', JStr n), (''volume'', json_opt json_int (sk_volume k))]] else [])
     (Some m) = Some (m(n \<mapsto> p\<lparr>sk_volume := sk_volume k\<rparr>))"
  using assms by (cases p; cases "sk_volume k") (simp_all add: after_packets_def controller_table_def volume_packet_def new_packet_def
      apply_delta_def or_keep_def fun_upd_idem json_opt_def json_int_def)

lemma muted_delta:
  assumes "m n = Some p" and "sk_muted k \<noteq> None" and "sk_muted p = v"
  shows "after_packets (if v \<noteq> sk_muted k then [volume_packet pid [(''name'', JStr n), (''muted'', json_opt JBool (sk_muted k))]] else [])
     (Some m) = Some (m(n \<mapsto> p\<lparr>sk_muted := sk_muted k\<rparr>))"
  using assms by (cases p; cases "sk_muted k") (simp_all add: after_packets_def controller_table_def volume_packet_def new_packet_def
      apply_delta_def or_keep_def fun_upd_idem json_opt_def)

lemma enabled_delta:
  assumes "m n = Some p" and "sk_enabled k \<noteq> None" and "sk_enabled p = v"
  shows "after_packets (if v \<noteq> sk_enabled k then [volume_packet pid [(''name'', JStr n), (''enabled'', json_opt JBool (sk_enabled k))]] else [])
     (Some m) = Some (m(n \<mapsto> p\<lparr>sk_enabled := sk_enabled k\<rparr>))"
  using assms by (cases p; cases "sk_enabled k") (simp_all add: after_packets_def controller_table_def volume_packet_def new_packet_def
      apply_delta_def or_keep_def fun_upd_idem json_opt_def)

lemma deltas_read:
  assumes "old (sk_name k) = Some p" and "m (sk_name k) = Some p" and "same_sink p k" and "complete k"
  shows "after_packets (sink_deltas pid old k) (Some m) = Some (m(sk_name k \<mapsto> k))"
proof -
  have k: "p\<lparr>sk_volume := sk_volume k, sk_muted := sk_muted k, sk_enabled := sk_enabled k\<rparr> = k"
    using assms(3) by (cases k; cases p) (simp add: same_sink_def)
  let ?m1 = "m(sk_name k \<mapsto> p\<lparr>sk_volume := sk_volume k\<rparr>)"
  let ?m2 = "?m1(sk_name k \<mapsto> p\<lparr>sk_volume := sk_volume k, sk_muted := sk_muted k\<rparr>)"
  note steps = volume_delta [of m "sk_name k" p k "sk_volume p" pid]
    muted_delta [of ?m1 "sk_name k" "p\<lparr>sk_volume := sk_volume k\<rparr>" k "sk_muted p" pid]
    enabled_delta [of ?m2 "sk_name k" "p\<lparr>sk_volume := sk_volume k, sk_muted := sk_muted k\<rparr>" k "sk_enabled p" pid]
  show ?thesis
    unfolding sink_deltas_def assms(1) option.case after_append
    using steps assms(2,4) k by (simp add: complete_def del: if_split)
qed

lemma build_deltas_read:
  assumes "distinct (map sk_name ks)" and "\<forall>k \<in> set ks. complete k"
    and "\<forall>k \<in> set ks. \<forall>p. old (sk_name k) = Some p \<longrightarrow> same_sink p k" and "\<forall>k \<in> set ks. m (sk_name k) = old (sk_name k)"
  shows "\<exists>m'. after_packets (build_deltas pid old ks) (Some m) = Some m'
     \<and> (\<forall>k \<in> set ks. old (sk_name k) \<noteq> None \<longrightarrow> m' (sk_name k) = Some k) \<and> (\<forall>n. n \<notin> sk_name ` set ks \<longrightarrow> m' n = m n)"
  using assms
proof (induction ks arbitrary: m)
  case (Cons k ks)
  define m1 where "m1 = (if old (sk_name k) = None then m else m(sk_name k \<mapsto> k))"
  have one: "after_packets (sink_deltas pid old k) (Some m) = Some m1"
    using Cons.prems deltas_read [of old k _ m pid]
    by (cases "old (sk_name k)") (auto simp: m1_def sink_deltas_def after_packets_def)
  have fresh: "sk_name k \<notin> sk_name ` set ks" using Cons.prems(1) by simp
  then have "\<forall>j \<in> set ks. m1 (sk_name j) = old (sk_name j)" using Cons.prems(4) by (auto simp: m1_def image_def)
  then obtain m' where m': "after_packets (build_deltas pid old ks) (Some m1) = Some m'"
      "\<forall>j \<in> set ks. old (sk_name j) \<noteq> None \<longrightarrow> m' (sk_name j) = Some j" "\<forall>n. n \<notin> sk_name ` set ks \<longrightarrow> m' n = m1 n"
    using Cons.IH [of m1] Cons.prems(1,2,3) by (simp only: list.simps distinct.simps ball_simps) blast
  have "after_packets (build_deltas pid old (k # ks)) (Some m) = Some m'"
    using one m'(1) by (simp add: build_deltas_def after_append)
  with m'(2,3) fresh show ?case by (auto simp: m1_def)
qed (simp add: build_deltas_def after_packets_def)

lemma pushed_read:
  assumes "iter_ok iter" and "distinct (map sk_name ks)" and "\<forall>k \<in> set ks. sk_name k \<noteq> [] \<and> complete k" and "finite (dom old)"
    and "\<forall>k \<in> set ks. \<forall>p. old (sk_name k) = Some p \<longrightarrow> same_sink p k"
  shows "after_packets (pushed_packets iter pid old d ks) (Some old) = Some (table_of ks)"
proof (cases "d \<noteq> enabled_name iter (table_of ks) \<or> hm_len old \<noteq> hm_len (table_of ks)
    \<or> list_ex (\<lambda>n. \<not> hm_contains old n) (iter (table_of ks))")
  case True
  with assms(3) list_read [OF assms(1,2)] show ?thesis
    by (simp add: pushed_packets_def after_append Let_def)
next
  case False
  have dom: "dom (table_of ks) = sk_name ` set ks" by (rule table_of_dom [OF assms(2)])
  have "set (iter (table_of ks)) = dom (table_of ks)" using assms(1) dom by (simp add: iter_ok_def)
  with False have "dom (table_of ks) \<subseteq> dom old" by (auto simp: list_ex_iff hm_contains_def)
  with False assms(4) have same: "dom (table_of ks) = dom old"
    by (intro card_subset_eq) (simp_all add: hm_len_def)
  obtain m' where m': "after_packets (build_deltas pid old ks) (Some old) = Some m'"
      "\<forall>k \<in> set ks. old (sk_name k) \<noteq> None \<longrightarrow> m' (sk_name k) = Some k" "\<forall>n. n \<notin> sk_name ` set ks \<longrightarrow> m' n = old n"
    using build_deltas_read [OF assms(2) _ assms(5), of old pid] assms(3) by auto
  have "m' n = table_of ks n" for n
  proof (cases "n \<in> sk_name ` set ks")
    case True
    then obtain k where "k \<in> set ks" "n = sk_name k" by auto
    moreover have "sk_name k \<in> dom old" using \<open>k \<in> set ks\<close> same dom by blast
    ultimately show ?thesis using m'(2) table_of_Some [OF assms(2), of n k] by auto
  next
    case outside: False
    with m'(3) same dom show ?thesis by (metis domIff)
  qed
  then have "m' = table_of ks" by (rule ext)
  with m'(1) False show ?thesis by (simp add: pushed_packets_def after_append Let_def after_packets_def)
qed

section \<open>The properties\<close>

definition demo_volume :: volume_daemon where
  "demo_volume = daemon.extend demo_daemon
     (volume_daemon.fields Map.empty Map.empty None Map.empty None True True True True True {} [] [])"

lemma demo_volume_simps [simp]:
  "live_sinks demo_volume = Map.empty" "pactl_runs demo_volume = []" "peer_sinks demo_volume = Map.empty" "has_pactl demo_volume"
  "synced demo_volume = {}" "connections demo_volume = [demo_id \<mapsto> demo_peer]"
  by (simp_all add: demo_volume_def daemon.extend_def volume_daemon.fields_def)



text \<open>The packets of a series of snapshots that the watcher takes.\<close>

fun pushes :: "sink_order \<Rightarrow> i64 \<Rightarrow> sink_table \<Rightarrow> string option \<Rightarrow> sink_state list list \<Rightarrow> packet list" where
  "pushes iter pid old d [] = []"
| "pushes iter pid old d (ks # kss) =
     pushed_packets iter pid old d ks @ pushes iter pid (table_of ks) (enabled_name iter (table_of ks)) kss"

text \<open>A snapshot as the sound server gives it: names are there and differ, the three fields are known, and a sink
  that was there before has kept its description and its normal volume.\<close>

definition snapshot_ok :: "sink_table \<Rightarrow> sink_state list \<Rightarrow> bool" where
  "snapshot_ok old ks \<longleftrightarrow> distinct (map sk_name ks) \<and> (\<forall>k \<in> set ks. sk_name k \<noteq> [] \<and> complete k)
     \<and> (\<forall>k \<in> set ks. \<forall>p. old (sk_name k) = Some p \<longrightarrow> same_sink p k)"

fun snapshots_ok :: "sink_table \<Rightarrow> sink_state list list \<Rightarrow> bool" where
  "snapshots_ok old [] \<longleftrightarrow> True"
| "snapshots_ok old (ks # kss) \<longleftrightarrow> snapshot_ok old ks \<and> snapshots_ok (table_of ks) kss"


definition demo_sink :: "i64 \<Rightarrow> sink_state" where
  "demo_sink v = \<lparr>sk_name = ''hdmi'', sk_description = None, sk_volume = Some v, sk_max_volume = Some 65536, sk_muted = Some False, sk_enabled = Some True\<rparr>"


text \<open>The tables of the devices do not mix, and nothing is left of a device that is gone.\<close>

lemma runs_only_peers: "runs_only s t \<Longrightarrow> peer_sinks t = peer_sinks s \<and> live_sinks t = live_sinks s"
  by (auto simp: runs_only_def)

lemma settings_peers:
  "peer_sinks (snd (sbind (when_given (request_volume P name) v) (\<lambda>_. sbind (when_given (set_muted P name) m) (\<lambda>_. when_given (set_default P name) e)) s)) = peer_sinks s"
proof -
  have run: "peer_sinks (snd (pactl_run P args t)) = peer_sinks t" for args and t :: "'a volume_daemon_scheme"
    by (simp add: pactl_run_def)
  have bind: "(\<And>t. peer_sinks (snd (a t)) = peer_sinks t) \<Longrightarrow> (\<And>x t. peer_sinks (snd (f x t)) = peer_sinks t)
      \<Longrightarrow> peer_sinks (snd (sbind a f t)) = peer_sinks t" for a and f :: "unit \<Rightarrow> ('a volume_daemon_scheme, unit) op" and t
    by (auto simp: sbind_def split: prod.split sum.split) (metis snd_conv)+
  have set: "peer_sinks (snd (set_volume P name w t)) = peer_sinks t" "peer_sinks (snd (set_muted P name b t)) = peer_sinks t"
    "peer_sinks (snd (set_default P name b t)) = peer_sinks t" for w b and t :: "'a volume_daemon_scheme"
    by (simp_all add: set_volume_def set_muted_def set_default_def sbind_def sreturn_def pactl_run_def split: run_result.split)
  have req: "peer_sinks (snd (request_volume P name w t)) = peer_sinks t" for w and t :: "'a volume_daemon_scheme"
    by (auto simp: request_volume_def set split: prod.split sum.split) (metis set(1) snd_conv)+
  show ?thesis
    by (intro bind) (simp_all add: when_given_def set req sreturn_def split: option.split)
qed

lemma volume_handle_peers:
  "peer_sinks (snd (volume_handle E P iter pid did pkt s)) =
     (if packet_type pkt = ''kdeconnect.systemvolume'' then (peer_sinks s)(did := controller_table (packet_body pkt) (peer_sinks s did)) else peer_sinks s)"
proof -
  obtain r t where ls: "list_sinks E P s = (r, t)" by fastforce
  with runs_only_peers [OF list_sinks_only [of s E P]] have "peer_sinks t = peer_sinks s" by simp
  with ls have "peer_sinks (snd (handle_provider_request E P iter pid pkt s)) = peer_sinks s"
    by (cases r) (auto simp: handle_provider_request_def Let_def settings_peers recompute_default_def apply_local_sinks_def split: option.split)
  then show ?thesis by (simp add: volume_handle_def handle_controller_state_def split_beta Let_def)
qed

interpretation mixers: device_data "\<lambda>d p s. snd (volume_handle E P iter pid d p s)" volume_disconnected "\<lambda>d s. peer_sinks s d" None
  by unfold_locales (auto simp: volume_handle_peers volume_disconnected_def hm_remove_apply)

theorem sinks_since_gone:
  "peer_sinks s e = None \<Longrightarrow>
   peer_sinks (run_events (\<lambda>d p s. snd (volume_handle E P iter pid d p s)) volume_disconnected (evs @ Gone e # later) s) e
   = peer_sinks (run_events (\<lambda>d p s. snd (volume_handle E P iter pid d p s)) volume_disconnected (filter (\<lambda>ev. event_device ev = e) later) s) e"
  by (rule mixers.run_since_gone)

text \<open>A device that was served stays so as long as it is connected when the watcher looks. One that disconnects
  and connects again in between is not noticed: its sinks were forgotten, and it is neither asked for them nor told ours.\<close>

lemma sync_peer_skips:
  assumes "dev \<in> synced s"
  shows "connections (sync_peer E iter pids clk d s) dev = connections s dev \<and> dev \<in> synced (sync_peer E iter pids clk d s)"
proof (cases "d \<in> synced s")
  case False
  with assms have "dev \<noteq> d" by blast
  then have "connections (send_all E d ps clk t) dev = connections t dev" for ps and t :: "'a volume_daemon_scheme"
    by (induction ps arbitrary: clk t) (simp_all add: send_packet_other)
  with False assms show ?thesis by (simp add: sync_peer_def split: sum.split)
qed (use assms in \<open>simp add: sync_peer_def\<close>)

theorem quick_reconnect_not_synced:
  assumes "dev \<in> synced s" and "dev \<in> set (connected_device_ids link_order s)"
  shows "connections (sync_peers E iter link_order pids clks (volume_disconnected dev s)) dev = connections s dev"
proof -
  have keep: "dev \<in> synced t \<Longrightarrow> connections (fold (\<lambda>(i, d). sync_peer E iter pids (clks i) d) xs t) dev = connections t dev"
    for xs and t :: "'a volume_daemon_scheme"
  proof (induction xs arbitrary: t)
    case (Cons x xs)
    with sync_peer_skips [OF Cons.prems, of E iter pids "clks (fst x)" "snd x"] show ?case by (simp add: split_beta)
  qed simp
  from assms show ?thesis
    by (simp add: sync_peers_def Let_def volume_disconnected_def keep connected_device_ids_def)
qed

end
