(* ===== verification/Pausemusic.thy ===== *)
theory Pausemusic
  imports Mpris System_Volume
begin

text \<open>
  Pausing music during calls (\<open>src/plugins/pausemusic.rs\<close>). The desktop with its players is a parameter: a state and
  what reading and calling players does to it. The sound server is that of \<open>System_Volume\<close>.
\<close>

section \<open>The desktop\<close>

text \<open>\<open>None\<close> stands for a call on the bus that fails.\<close>

record 'w desktop =
  dk_names :: "'w \<Rightarrow> string list option"
  dk_status :: "string \<Rightarrow> 'w \<Rightarrow> string option"
  dk_can_pause :: "string \<Rightarrow> 'w \<Rightarrow> bool option"
  dk_pause :: "string \<Rightarrow> 'w \<Rightarrow> bool \<times> 'w"
  dk_stop :: "string \<Rightarrow> 'w \<Rightarrow> bool \<times> 'w"
  dk_play :: "string \<Rightarrow> 'w \<Rightarrow> bool \<times> 'w"

record 'w pause_daemon = volume_daemon +
  paused_players :: "device_key \<rightharpoonup> string list"
  muted_sinks :: "device_key \<rightharpoonup> string list"
  has_players :: bool
  has_mixer :: bool
  desk :: 'w

section \<open>The backend\<close>

definition pause_one :: "'w desktop \<Rightarrow> string \<Rightarrow> string list \<times> 'w \<Rightarrow> string list \<times> 'w" where
  "pause_one D service = (\<lambda>(acted, w).
     if \<not> starts_with service MPRIS_SERVICE_PREFIX \<or> is_ignored_service service then (acted, w)
     else if dk_status D service w \<noteq> Some ''Playing'' then (acted, w)
     else (case dk_can_pause D service w of
             None \<Rightarrow> (acted, w)
           | Some can_pause \<Rightarrow>
               (let (ok, w1) = (if can_pause then dk_pause D service w else dk_stop D service w)
                in (if ok then acted @ [service] else acted, w1))))"

definition pause_playing :: "'w desktop \<Rightarrow> 'w \<Rightarrow> string list \<times> 'w" where
  "pause_playing D w = (case dk_names D w of None \<Rightarrow> ([], w) | Some names \<Rightarrow> fold (pause_one D) names ([], w))"

definition resume :: "'w desktop \<Rightarrow> string list \<Rightarrow> 'w \<Rightarrow> 'w" where
  "resume D svcs w = fold (\<lambda>service v. snd (dk_play D service v)) svcs w"

section \<open>The plugin\<close>

definition ACTION_MUTE :: bool where "ACTION_MUTE = False"

text \<open>A cancelled call: the phone sends the flag as a string.\<close>

definition is_cancel :: "json \<Rightarrow> bool" where
  "is_cancel body = (case json_get body ''isCancel'' of
     Some (JBool b) \<Rightarrow> b
   | Some (JStr t) \<Rightarrow> map ascii_lower t = ''true''
   | _ \<Rightarrow> False)"

definition add_new :: "'a list \<Rightarrow> 'a list \<Rightarrow> 'a list" where
  "add_new new old = fold (\<lambda>x xs. if x \<in> set xs then xs else xs @ [x]) new old"

text \<open>Muting: every sink that is not muted, and the ones that could be.\<close>

fun mute_all :: "program \<Rightarrow> sink_state list \<Rightarrow> 'z volume_daemon_scheme \<Rightarrow> string list \<times> 'z volume_daemon_scheme" where
  "mute_all P [] s = ([], s)"
| "mute_all P (k # ks) s =
     (if sk_muted k = Some True then mute_all P ks s
      else (let (r, s1) = set_muted P (sk_name k) True s; (ok, s2) = mute_all P ks s1
            in (if is_ok r then sk_name k # ok else ok, s2)))"

definition mute_for :: "externals \<Rightarrow> program \<Rightarrow> device_key \<Rightarrow> ('w, 'z) pause_daemon_scheme \<Rightarrow> ('w, 'z) pause_daemon_scheme" where
  "mute_for E P did s =
     (if \<not> has_mixer s then s
      else (case list_sinks E P s of
              (Inl _, s1) \<Rightarrow> s1
            | (Inr ks, s1) \<Rightarrow>
                (let (names, s2) = mute_all P ks s1
                 in if names = [] then s2
                    else s2\<lparr>muted_sinks := (muted_sinks s2)(did \<mapsto> add_new names (or_default [] (muted_sinks s2 did)))\<rparr>)))"

definition unmute_for :: "program \<Rightarrow> device_key \<Rightarrow> ('w, 'z) pause_daemon_scheme \<Rightarrow> ('w, 'z) pause_daemon_scheme" where
  "unmute_for P did s =
     (let names = or_default [] (muted_sinks s did); s1 = s\<lparr>muted_sinks := hm_remove did (muted_sinks s)\<rparr>
      in if names = [] \<or> \<not> has_mixer s then s1 else fold (\<lambda>n t. snd (set_muted P n False t)) names s1)"

definition call_ended :: "'w desktop \<Rightarrow> program \<Rightarrow> device_key \<Rightarrow> ('w, 'z) pause_daemon_scheme \<Rightarrow> ('w, 'z) pause_daemon_scheme" where
  "call_ended D P did s =
     (let s1 = (if ACTION_MUTE then unmute_for P did s else s);
          svcs = or_default [] (paused_players s1 did);
          s2 = s1\<lparr>paused_players := hm_remove did (paused_players s1)\<rparr>
      in if svcs = [] \<or> \<not> has_players s2 then s2 else s2\<lparr>desk := resume D svcs (desk s2)\<rparr>)"

definition call_rings :: "externals \<Rightarrow> 'w desktop \<Rightarrow> program \<Rightarrow> device_key \<Rightarrow> ('w, 'z) pause_daemon_scheme \<Rightarrow> ('w, 'z) pause_daemon_scheme" where
  "call_rings E D P did s =
     (let s1 = (if ACTION_MUTE then mute_for E P did s else s) in
      if \<not> has_players s1 then s1
      else (let (acted, w) = pause_playing D (desk s1); s2 = s1\<lparr>desk := w\<rparr>
            in if acted = [] then s2
               else s2\<lparr>paused_players := (paused_players s2)(did \<mapsto> add_new acted (or_default [] (paused_players s2 did)))\<rparr>))"

definition pausemusic_handle :: "externals \<Rightarrow> 'w desktop \<Rightarrow> program \<Rightarrow> ('w, 'z) pause_daemon_scheme handler" where
  "pausemusic_handle E D P did pkt s =
     (let body = packet_body pkt; event = or_default [] (str_of body ''event'') in
      (HResult (Inr None),
       if event \<noteq> ''ringing'' \<and> event \<noteq> ''talking'' then s
       else if is_cancel body then call_ended D P did s
       else call_rings E D P did s))"

definition pausemusic_disconnected :: "device_key \<Rightarrow> ('w, 'z) pause_daemon_scheme \<Rightarrow> ('w, 'z) pause_daemon_scheme" where
  "pausemusic_disconnected did s = s\<lparr>paused_players := hm_remove did (paused_players s)\<rparr>"

definition pausemusic_plugin :: "externals \<Rightarrow> 'w desktop \<Rightarrow> program \<Rightarrow> ('w, 'z) pause_daemon_scheme plugin" where
  "pausemusic_plugin E D P = \<lparr>pl_name = ''pausemusic'', pl_incoming = [''kdeconnect.telephony''], pl_outgoing = [],
     pl_handle = pausemusic_handle E D P, pl_on_connected = (\<lambda>did s. ([], s)), pl_on_disconnected = pausemusic_disconnected\<rparr>"

section \<open>A call leaves the music as it was\<close>

text \<open>Players that do what MPRIS says they do: after a call of theirs they are in the state the call names, and no other
  player is affected.\<close>

definition calls_reach :: "(string \<Rightarrow> 'w \<Rightarrow> string option) \<Rightarrow> (string \<Rightarrow> 'w \<Rightarrow> bool \<times> 'w) \<Rightarrow> string \<Rightarrow> bool" where
  "calls_reach status f to \<longleftrightarrow> (\<forall>svc w. fst (f svc w) \<and> (\<forall>v. status v (snd (f svc w)) = (if v = svc then Some to else status v w)))"

definition obedient :: "'w desktop \<Rightarrow> bool" where
  "obedient D \<longleftrightarrow> calls_reach (dk_status D) (dk_pause D) ''Paused'' \<and> calls_reach (dk_status D) (dk_stop D) ''Stopped''
     \<and> calls_reach (dk_status D) (dk_play D) ''Playing''"

text \<open>The list of a device accounts for the difference between two states of the desktop.\<close>

definition accounts :: "'w desktop \<Rightarrow> 'w \<Rightarrow> string set \<Rightarrow> 'w \<Rightarrow> bool" where
  "accounts D w0 L w \<longleftrightarrow> (\<forall>svc. if svc \<in> L then dk_status D svc w0 = Some ''Playing'' \<and> dk_status D svc w \<noteq> Some ''Playing''
                                else dk_status D svc w = dk_status D svc w0)"

lemma or_default_simps [simp]: "or_default d (Some x) = x" "or_default d None = d"
  by (simp_all add: or_default_def)

lemma set_add_new [simp]: "set (add_new new old) = set new \<union> set old"
proof -
  have "set (fold (\<lambda>x xs. if x \<in> set xs then xs else xs @ [x]) new xs) = set new \<union> set xs" for xs
    by (induction new arbitrary: xs) auto
  then show ?thesis by (simp add: add_new_def)
qed

lemma pause_one_accounts:
  assumes "obedient D" and "accounts D w0 (L \<union> set acted) w" and "pause_one D svc (acted, w) = (acted', w')"
  shows "accounts D w0 (L \<union> set acted') w'"
proof (cases "acted' = acted \<and> w' = w")
  case False
  then obtain b where playing: "dk_status D svc w = Some ''Playing''"
    and call: "(let (ok, w1) = (if b then dk_pause D svc w else dk_stop D svc w) in (if ok then acted @ [svc] else acted, w1)) = (acted', w')"
    using assms(3) by (auto simp: pause_one_def split: if_splits option.splits)
  define f to where "f = (if b then dk_pause D else dk_stop D)" and "to = (if b then ''Paused'' else ''Stopped'')"
  have reach: "calls_reach (dk_status D) f to" and "to \<noteq> ''Playing''" using assms(1) by (auto simp: obedient_def f_def to_def)
  obtain ok w1 where fw: "f svc w = (ok, w1)" by fastforce
  with reach have ok: "ok" and st: "\<And>v. dk_status D v w1 = (if v = svc then Some to else dk_status D v w)"
    unfolding calls_reach_def by (metis fst_conv, metis snd_conv)
  from call fw ok have "acted' = acted @ [svc]" "w' = w1" by (simp_all add: f_def Let_def split: if_splits)
  moreover have "svc \<notin> L \<union> set acted" using assms(2) playing by (auto simp: accounts_def)
  ultimately show ?thesis
    using assms(2) playing \<open>to \<noteq> ''Playing''\<close> by (simp add: accounts_def st)
qed (use assms in simp)

lemma pause_all_accounts:
  assumes "obedient D"
  shows "accounts D w0 (L \<union> set acted) w \<Longrightarrow> fold (pause_one D) names (acted, w) = (acted', w') \<Longrightarrow> accounts D w0 (L \<union> set acted') w'"
proof (induction names arbitrary: acted w)
  case (Cons n names)
  obtain a1 w1 where one: "pause_one D n (acted, w) = (a1, w1)" by fastforce
  with pause_one_accounts [OF assms Cons.prems(1)] have "accounts D w0 (L \<union> set a1) w1" by simp
  with Cons one show ?case by simp
qed simp

lemma pause_playing_accounts:
  assumes "obedient D" and "accounts D w0 L w" and "pause_playing D w = (acted, w')"
  shows "accounts D w0 (L \<union> set acted) w'"
  using assms pause_all_accounts [OF assms(1), of w0 L "[]" w] by (auto simp: pause_playing_def split: option.splits)

lemma resume_plays:
  assumes "obedient D"
  shows "dk_status D v (resume D svcs w) = (if v \<in> set svcs then Some ''Playing'' else dk_status D v w)"
proof -
  have play: "dk_status D u (snd (dk_play D svc w)) = (if u = svc then Some ''Playing'' else dk_status D u w)" for u svc w
    using assms by (simp add: obedient_def calls_reach_def)
  show ?thesis unfolding resume_def by (induction svcs arbitrary: w) (simp_all add: play)
qed

lemma pause_one_silences:
  assumes "obedient D" and "pause_one D svc (acted, w) = (acted', w')"
  shows "dk_status D v w \<noteq> Some ''Playing'' \<Longrightarrow> dk_status D v w' \<noteq> Some ''Playing''"
    and "starts_with svc MPRIS_SERVICE_PREFIX \<Longrightarrow> \<not> is_ignored_service svc \<Longrightarrow> dk_can_pause D svc w \<noteq> None \<Longrightarrow> dk_status D svc w' \<noteq> Some ''Playing''"
proof -
  have "dk_status D u (snd (dk_pause D svc w)) = (if u = svc then Some ''Paused'' else dk_status D u w)"
    "dk_status D u (snd (dk_stop D svc w)) = (if u = svc then Some ''Stopped'' else dk_status D u w)" for u
    using assms(1) by (simp_all add: obedient_def calls_reach_def)
  then show "dk_status D v w \<noteq> Some ''Playing'' \<Longrightarrow> dk_status D v w' \<noteq> Some ''Playing''"
    "starts_with svc MPRIS_SERVICE_PREFIX \<Longrightarrow> \<not> is_ignored_service svc \<Longrightarrow> dk_can_pause D svc w \<noteq> None \<Longrightarrow> dk_status D svc w' \<noteq> Some ''Playing''"
    using assms(2) by (auto simp: pause_one_def split_beta Let_def split: if_splits option.splits)
qed

lemma pause_all_silences:
  assumes "obedient D" and "starts_with svc MPRIS_SERVICE_PREFIX" and "\<not> is_ignored_service svc" and "\<And>w. dk_can_pause D svc w \<noteq> None"
  shows "svc \<in> set names \<or> dk_status D svc w \<noteq> Some ''Playing'' \<Longrightarrow> fold (pause_one D) names (acted, w) = (acted', w') \<Longrightarrow>
    dk_status D svc w' \<noteq> Some ''Playing''"
proof (induction names arbitrary: acted w)
  case (Cons n names)
  obtain a1 w1 where one: "pause_one D n (acted, w) = (a1, w1)" by fastforce
  have "svc \<in> set names \<or> dk_status D svc w1 \<noteq> Some ''Playing''"
    using Cons.prems(1) pause_one_silences [OF assms(1) one] assms(2,3,4) by auto
  with Cons.IH Cons.prems(2) one show ?case by simp
qed simp

text \<open>The packets of a call that has not ended, and the one that ends it.\<close>

definition call_event :: "packet \<Rightarrow> bool" where
  "call_event pkt \<longleftrightarrow> or_default [] (str_of (packet_body pkt) ''event'') \<in> {''ringing'', ''talking''}"

definition rings :: "packet \<Rightarrow> bool" where "rings pkt \<longleftrightarrow> call_event pkt \<and> \<not> is_cancel (packet_body pkt)"

definition hangs_up :: "packet \<Rightarrow> bool" where "hangs_up pkt \<longleftrightarrow> call_event pkt \<and> is_cancel (packet_body pkt)"

lemma handle_rings:
  "rings pkt \<Longrightarrow> snd (pausemusic_handle E D P did pkt s) = call_rings E D P did s"
  "hangs_up pkt \<Longrightarrow> snd (pausemusic_handle E D P did pkt s) = call_ended D P did s"
  by (auto simp: rings_def hangs_up_def call_event_def pausemusic_handle_def Let_def)

definition claimed :: "device_key \<Rightarrow> ('w, 'z) pause_daemon_scheme \<Rightarrow> string set" where
  "claimed did s = set (or_default [] (paused_players s did))"

lemma call_rings_accounts:
  assumes "obedient D" and "has_players s" and "accounts D w0 (claimed did s) (desk s)"
  shows "accounts D w0 (claimed did (call_rings E D P did s)) (desk (call_rings E D P did s)) \<and> has_players (call_rings E D P did s)"
proof -
  obtain acted w where pp: "pause_playing D (desk s) = (acted, w)" by fastforce
  from pause_playing_accounts [OF assms(1,3) pp] have "accounts D w0 (claimed did s \<union> set acted) w" .
  with assms(2) pp show ?thesis
    by (cases "acted = []") (simp_all add: call_rings_def ACTION_MUTE_def claimed_def Let_def Un_commute)
qed

lemma call_runs_account:
  assumes "obedient D" and "\<forall>p \<in> set pks. rings p"
  shows "has_players s \<Longrightarrow> accounts D w0 (claimed did s) (desk s) \<Longrightarrow>
    (let t = run_events (\<lambda>d p s. snd (pausemusic_handle E D P d p s)) pausemusic_disconnected (map (Arrives did) pks) s
     in accounts D w0 (claimed did t) (desk t) \<and> has_players t)"
  using assms(2)
proof (induction pks arbitrary: s)
  case (Cons p pks)
  from Cons.prems call_rings_accounts [OF assms(1) Cons.prems(1,2), of E P] show ?case
    by (simp add: handle_rings) (rule Cons.IH, simp_all)
qed simp


text \<open>A desktop whose state is the state of each player.\<close>

definition demo_desktop :: "(string \<Rightarrow> string option) desktop" where
  "demo_desktop = \<lparr>dk_names = \<lambda>w. Some [vlc], dk_status = \<lambda>svc w. w svc, dk_can_pause = \<lambda>svc w. Some True,
     dk_pause = \<lambda>svc w. (True, w(svc := Some ''Paused'')), dk_stop = \<lambda>svc w. (True, w(svc := Some ''Stopped'')),
     dk_play = \<lambda>svc w. (True, w(svc := Some ''Playing''))\<rparr>"

definition demo_pause :: "(string \<Rightarrow> string option) pause_daemon" where
  "demo_pause = volume_daemon.extend demo_volume (pause_daemon.fields Map.empty Map.empty True False [vlc \<mapsto> ''Playing''])"

definition call_packet :: "bool \<Rightarrow> packet" where
  "call_packet over = new_packet 1 ''kdeconnect.telephony'' (JObj ((''event'', JStr ''ringing'') # (if over then [(''isCancel'', JStr ''true'')] else [])))"

lemma call_packets: "rings (call_packet False)" "hangs_up (call_packet True)"
  by (simp_all add: rings_def hangs_up_def call_event_def call_packet_def new_packet_def str_of_def is_cancel_def ascii_lower_def)


text \<open>With two phones in calls the first to hang up starts the music again: the second had nothing left to pause.\<close>

theorem second_call_claims_nothing:
  assumes "has_players s" and "rings p" and "dk_names D (desk s) = Some names" and "paused_players s e = None"
    and "\<forall>svc. dk_status D svc (desk s) \<noteq> Some ''Playing''"
  shows "paused_players (snd (pausemusic_handle E D P e p s)) e = None"
proof -
  have "fold (pause_one D) ns ([], desk s) = ([], desk s)" for ns
    using assms(5) by (induction ns) (simp_all add: pause_one_def)
  with assms(1-4) show ?thesis
    by (simp add: handle_rings call_rings_def ACTION_MUTE_def pause_playing_def Let_def)
qed

end
