(* ===== verification/Sftp.thy ===== *)
theory Sftp
  imports Fan_Out Processes Net_Text
begin

text \<open>
  Browsing a device's files (\<open>src/plugins/sftp/mod.rs\<close>, \<open>src/plugins/sftp/mounter.rs\<close>): the credentials a device sends, and
  mounting its file system with \<open>sshfs\<close>. The programs are run in tasks with a time limit; a task that is late keeps
  the lock of its device until it ends. How a run ends, and when, is an argument; the commands that were
  run are kept in a list.
\<close>

section \<open>The subprocess boundary\<close>

record mount_request =
  mq_ip :: string
  mq_port :: u16
  mq_user :: string
  mq_path :: string
  mq_mount_point :: string

datatype mount_outcome = MountedOk | MountFailed string

datatype unmount_outcome = UnmountedOk | UnmountFailed string

datatype command_result = RunFails | RunEnds "32 word" string string

record mounter =
  sshfs_path :: "string option"
  fusermount3_path :: "string option"
  fusermount_path :: "string option"

definition mounter_available :: "mounter \<Rightarrow> bool" where
  "mounter_available M \<longleftrightarrow> sshfs_path M \<noteq> None \<and> (fusermount3_path M \<noteq> None \<or> fusermount_path M \<noteq> None)"

text \<open>The longest prefix of at most that many bytes that ends between characters.\<close>

fun char_boundary_before :: "string \<Rightarrow> nat \<Rightarrow> nat" where
  "char_boundary_before s 0 = 0"
| "char_boundary_before s (Suc n) =
     (if Suc n < length s \<and> is_cont (of_char (s ! Suc n)) then char_boundary_before s n else Suc n)"

definition ellipsis :: string where "ellipsis = string_of [8230]"

definition format_truncated :: "string \<Rightarrow> string" where
  "format_truncated s =
     (if length s \<le> 512 then trim s else trim (take (char_boundary_before s 512) s) @ ellipsis)"

definition build_sshfs_args :: "mount_request \<Rightarrow> string list" where
  "build_sshfs_args r =
     [mq_user r @ ''@'' @ mq_ip r @ '':'' @ mq_path r, mq_mount_point r, ''-p'', show_nat (unat (mq_port r)),
      ''-o'', ''password_stdin'', ''-o'', ''StrictHostKeyChecking=no'', ''-o'', ''UserKnownHostsFile=/dev/null'',
      ''-o'', ''reconnect'', ''-o'', ''ServerAliveInterval=30'']"

text \<open>What mounting answers when the directory could be made or not and the program ended so, and what it runs:
  program, arguments and standard input.\<close>

definition mounter_mount :: "mounter \<Rightarrow> bool \<Rightarrow> command_result \<Rightarrow> mount_outcome res" where
  "mounter_mount M dir_ok r =
     (if sshfs_path M = None then Inl (error.PluginError ''sftp'' ''sshfs binary not found on PATH'')
      else if \<not> dir_ok then Inr (MountFailed ''failed to create mount point'')
      else (case r of
              RunFails \<Rightarrow> Inl (Internal ''Failed to spawn'')
            | RunEnds st out err \<Rightarrow>
                if st = 0 then Inr MountedOk
                else (let d1 = format_truncated err; d2 = (if d1 = [] then format_truncated out else d1)
                      in Inr (MountFailed (if d2 = [] then ''sshfs exited with status '' @ print_i64 (scast st) else d2)))))"

type_synonym run = "string \<times> string list \<times> string option"

definition mount_runs :: "mounter \<Rightarrow> bool \<Rightarrow> mount_request \<Rightarrow> string \<Rightarrow> run list" where
  "mount_runs M dir_ok req password =
     (case sshfs_path M of Some prog \<Rightarrow> if dir_ok then [(prog, build_sshfs_args req, Some password)] else [] | None \<Rightarrow> [])"

definition fuse_program :: "mounter \<Rightarrow> string option" where
  "fuse_program M = (case fusermount3_path M of Some p \<Rightarrow> Some p | None \<Rightarrow> fusermount_path M)"

definition mounter_unmount :: "mounter \<Rightarrow> command_result \<Rightarrow> unmount_outcome res" where
  "mounter_unmount M r =
     (if fuse_program M = None then Inl (error.PluginError ''sftp'' ''fusermount / fusermount3 not found on PATH'')
      else (case r of
              RunFails \<Rightarrow> Inl (Internal ''Failed to spawn'')
            | RunEnds st out err \<Rightarrow> Inr (if st = 0 then UnmountedOk else UnmountFailed (format_truncated err))))"

definition unmount_runs :: "mounter \<Rightarrow> string \<Rightarrow> run list" where
  "unmount_runs M mount_point = (case fuse_program M of Some prog \<Rightarrow> [(prog, [''-u'', mount_point], None)] | None \<Rightarrow> [])"

section \<open>The plugin's state\<close>

record sftp_info =
  si_ip :: string
  si_port :: u16
  si_user :: string
  si_password :: string
  si_path :: string
  si_multi_paths :: "string list"
  si_path_names :: "string list"

datatype mount_state = Unmounted | Mounting | Mounted | Failed string

record mount_status =
  ms_state :: mount_state
  ms_mount_point :: "string option"

record sftp_update =
  su_device :: device_key
  su_ip :: string
  su_port :: u16
  su_user :: string
  su_path :: string
  su_available :: bool
  su_mounted :: bool
  su_mount_point :: "string option"

text \<open>A task that is late: what it was, and how it will end.\<close>

datatype late_task = LateMount "mount_outcome res" | LateUnmount "unmount_outcome res"

text \<open>\<open>draining\<close> has the devices whose lock a late task holds; \<open>host_mounts\<close> is what is mounted on this
  host as far as the exit codes of the programs say.\<close>

record sftp_daemon = daemon +
  sftp_connections :: "device_key \<rightharpoonup> sftp_info"
  mounts :: "device_key \<rightharpoonup> mount_state"
  sftp_data_dir :: string
  the_mounter :: mounter
  sftp_events :: "sftp_update list"
  sftp_manager :: bool
  draining :: "(device_key \<times> late_task) list"
  sftp_runs :: "run list"
  host_mounts :: "device_key set"

definition path_join :: "string \<Rightarrow> string \<Rightarrow> string" where
  "path_join a b = (if a = [] then b else if last a = CHR ''/'' then a @ b else a @ ''/'' @ b)"

definition mount_point_for :: "string \<Rightarrow> device_key \<Rightarrow> string" where
  "mount_point_for data_dir did = path_join (path_join data_dir ''mounts'') (''sftp-'' @ did)"

definition mount_point :: "device_key \<Rightarrow> 'z sftp_daemon_scheme \<Rightarrow> string" where
  "mount_point did s = mount_point_for (sftp_data_dir s) did"

definition get_connection :: "device_key \<Rightarrow> 'z sftp_daemon_scheme \<Rightarrow> sftp_info option" where
  "get_connection did s = sftp_connections s did"

definition get_mount_status :: "device_key \<Rightarrow> 'z sftp_daemon_scheme \<Rightarrow> mount_status" where
  "get_mount_status did s =
     (case mounts s did of
        None \<Rightarrow> \<lparr>ms_state = Unmounted, ms_mount_point = None\<rparr>
      | Some Unmounted \<Rightarrow> \<lparr>ms_state = Unmounted, ms_mount_point = None\<rparr>
      | Some st \<Rightarrow> \<lparr>ms_state = st, ms_mount_point = Some (mount_point did s)\<rparr>)"

definition request_sftp :: "i64 \<Rightarrow> packet" where
  "request_sftp pid = new_packet pid ''kdeconnect.sftp.request'' (JObj [(''startBrowsing'', JBool True)])"

definition set_connection :: "device_key \<Rightarrow> sftp_info \<Rightarrow> 'z sftp_daemon_scheme \<Rightarrow> 'z sftp_daemon_scheme" where
  "set_connection did info s = s\<lparr>sftp_connections := (sftp_connections s)(did \<mapsto> info)\<rparr>"

definition set_mount_state :: "device_key \<Rightarrow> mount_state \<Rightarrow> 'z sftp_daemon_scheme \<Rightarrow> 'z sftp_daemon_scheme" where
  "set_mount_state did st s = s\<lparr>mounts := (mounts s)(did \<mapsto> st)\<rparr>"

definition broadcast_update ::
    "device_key \<Rightarrow> sftp_info \<Rightarrow> mount_state \<Rightarrow> string option \<Rightarrow> 'z sftp_daemon_scheme \<Rightarrow> 'z sftp_daemon_scheme" where
  "broadcast_update did info st mp s =
     s\<lparr>sftp_events := sftp_events s @ [\<lparr>su_device = did, su_ip = si_ip info, su_port = si_port info, su_user = si_user info,
        su_path = si_path info, su_available = (si_password info \<noteq> [] \<and> st \<noteq> Failed []), su_mounted = (st = Mounted), su_mount_point = mp\<rparr>]\<rparr>"

section \<open>Mounting\<close>

text \<open>The end of a task: in time, late, or with a panic.\<close>

datatype task_end = InTime command_result | Late command_result | Panics

text \<open>The lock of a device is free when no late task holds it and whoever else has it lets go in time.\<close>

definition acquire_mount_lock :: "bool \<Rightarrow> device_key \<Rightarrow> 'z sftp_daemon_scheme \<Rightarrow> bool" where
  "acquire_mount_lock in_time did s \<longleftrightarrow> in_time \<and> did \<notin> fst ` set (draining s)"

definition note_mounted :: "device_key \<Rightarrow> mount_outcome res \<Rightarrow> 'z sftp_daemon_scheme \<Rightarrow> 'z sftp_daemon_scheme" where
  "note_mounted did r s = (if r = Inr MountedOk then s\<lparr>host_mounts := insert did (host_mounts s)\<rparr> else s)"

definition note_unmounted :: "device_key \<Rightarrow> unmount_outcome res \<Rightarrow> 'z sftp_daemon_scheme \<Rightarrow> 'z sftp_daemon_scheme" where
  "note_unmounted did r s = (if r = Inr UnmountedOk then s\<lparr>host_mounts := host_mounts s - {did}\<rparr> else s)"

definition mount_via_mounter ::
    "bool \<Rightarrow> task_end \<Rightarrow> device_key \<Rightarrow> mount_request \<Rightarrow> string \<Rightarrow> ('z sftp_daemon_scheme, mount_outcome) op" where
  "mount_via_mounter dir_ok e did req password s =
     (let s1 = s\<lparr>sftp_runs := sftp_runs s @ mount_runs (the_mounter s) dir_ok req password\<rparr> in
      case e of
        InTime r \<Rightarrow> (let o1 = mounter_mount (the_mounter s) dir_ok r in (o1, note_mounted did o1 s1))
      | Late r \<Rightarrow> (Inr (MountFailed ''sshfs mount timed out''),
                  s1\<lparr>draining := draining s1 @ [(did, LateMount (mounter_mount (the_mounter s) dir_ok r))]\<rparr>)
      | Panics \<Rightarrow> (Inl (Internal ''mount task panicked''), s1))"

definition unmount_via_mounter :: "task_end \<Rightarrow> device_key \<Rightarrow> ('z sftp_daemon_scheme, unmount_outcome) op" where
  "unmount_via_mounter e did s =
     (let s1 = s\<lparr>sftp_runs := sftp_runs s @ unmount_runs (the_mounter s) (mount_point did s)\<rparr> in
      case e of
        InTime r \<Rightarrow> (let o1 = mounter_unmount (the_mounter s) r in (o1, note_unmounted did o1 s1))
      | Late r \<Rightarrow> (Inr (UnmountFailed ''fusermount unmount timed out''),
                  s1\<lparr>draining := draining s1 @ [(did, LateUnmount (mounter_unmount (the_mounter s) r))]\<rparr>)
      | Panics \<Rightarrow> (Inl (Internal ''unmount task panicked''), s1))"

text \<open>A late task ends: its outcome is dropped and the lock released.\<close>

definition late_task_ends :: "nat \<Rightarrow> 'z sftp_daemon_scheme \<Rightarrow> 'z sftp_daemon_scheme" where
  "late_task_ends i s =
     (if i < length (draining s) then
        (let s1 = s\<lparr>draining := take i (draining s) @ drop (Suc i) (draining s)\<rparr> in
         case draining s ! i of
           (did, LateMount r) \<Rightarrow> note_mounted did r s1
         | (did, LateUnmount r) \<Rightarrow> note_unmounted did r s1)
      else s)"

definition state_after_mount :: "mount_outcome \<Rightarrow> mount_state" where
  "state_after_mount o1 = (case o1 of MountedOk \<Rightarrow> Mounted | MountFailed msg \<Rightarrow> Failed msg)"

definition mount_device_locked :: "bool \<Rightarrow> task_end \<Rightarrow> device_key \<Rightarrow> sftp_info \<Rightarrow> ('z sftp_daemon_scheme, mount_status) op" where
  "mount_device_locked dir_ok e did info s =
     (let mp = mount_point did s;
          req = \<lparr>mq_ip = si_ip info, mq_port = si_port info, mq_user = si_user info, mq_path = si_path info, mq_mount_point = mp\<rparr>
      in case mount_via_mounter dir_ok e did req (si_password info) (set_mount_state did Mounting s) of
           (Inl err, s1) \<Rightarrow> (let st = Failed ''mount task failed''
                             in (Inl err, broadcast_update did info st (Some mp) (set_mount_state did st s1)))
         | (Inr o1, s1) \<Rightarrow> (let st = state_after_mount o1
                            in (Inr \<lparr>ms_state = st, ms_mount_point = Some mp\<rparr>, broadcast_update did info st (Some mp) (set_mount_state did st s1))))"

definition lock_timeout :: mount_state where
  "lock_timeout = Failed ''previous mount operation still draining''"

definition mount_device :: "bool \<Rightarrow> bool \<Rightarrow> task_end \<Rightarrow> device_key \<Rightarrow> sftp_info \<Rightarrow> ('z sftp_daemon_scheme, mount_status) op" where
  "mount_device in_time dir_ok e did info s =
     (if acquire_mount_lock in_time did s then mount_device_locked dir_ok e did info s
      else (Inr \<lparr>ms_state = lock_timeout, ms_mount_point = None\<rparr>,
            broadcast_update did info lock_timeout None (set_mount_state did lock_timeout s)))"

definition tell_if_known :: "device_key \<Rightarrow> mount_state \<Rightarrow> 'z sftp_daemon_scheme \<Rightarrow> 'z sftp_daemon_scheme" where
  "tell_if_known did st s = (case get_connection did s of Some info \<Rightarrow> broadcast_update did info st None s | None \<Rightarrow> s)"

definition unmount_device :: "bool \<Rightarrow> task_end \<Rightarrow> device_key \<Rightarrow> ('z sftp_daemon_scheme, mount_status) op" where
  "unmount_device in_time e did s =
     (if \<not> acquire_mount_lock in_time did s then
        (Inr \<lparr>ms_state = lock_timeout, ms_mount_point = None\<rparr>, tell_if_known did lock_timeout (set_mount_state did lock_timeout s))
      else (case unmount_via_mounter e did s of
              (Inl err, s1) \<Rightarrow> (Inl err, s1)
            | (Inr o1, s1) \<Rightarrow>
                (let st = (case o1 of UnmountedOk \<Rightarrow> Unmounted | UnmountFailed msg \<Rightarrow> Failed msg);
                     s2 = set_mount_state did st s1;
                     s3 = (if st = Unmounted then s2\<lparr>sftp_connections := hm_remove did (sftp_connections s2)\<rparr> else s2)
                 in (Inr \<lparr>ms_state = st, ms_mount_point = None\<rparr>, tell_if_known did st s3))))"

definition cleanup_device :: "bool \<Rightarrow> bool \<Rightarrow> task_end \<Rightarrow> device_key \<Rightarrow> 'z sftp_daemon_scheme \<Rightarrow> 'z sftp_daemon_scheme" where
  "cleanup_device in_time found e did s =
     (let s1 = (if acquire_mount_lock in_time did s \<and> found then snd (unmount_via_mounter e did s) else s);
          s2 = set_mount_state did Unmounted s1
      in s2\<lparr>sftp_connections := hm_remove did (sftp_connections s2)\<rparr>)"

text \<open>At shutdown every device that is known by a mount or by credentials.\<close>

definition cleanup_all :: "(device_key \<Rightarrow> bool \<times> bool \<times> task_end) \<Rightarrow> device_key list \<Rightarrow> 'z sftp_daemon_scheme \<Rightarrow> 'z sftp_daemon_scheme" where
  "cleanup_all outcome devs s =
     fold (\<lambda>d. case outcome d of (in_time, found, e) \<Rightarrow> cleanup_device in_time found e d) devs s"

text \<open>At start-up the directories a former run left: the labels that are reported, and the mount points released.\<close>

definition sweep_one :: "bool \<Rightarrow> task_end \<Rightarrow> device_key \<Rightarrow> 'z sftp_daemon_scheme \<Rightarrow> string \<times> 'z sftp_daemon_scheme" where
  "sweep_one in_time e did s =
     (if \<not> acquire_mount_lock in_time did s then (''skipped'', s)
      else (let (r, s1) = unmount_via_mounter e did s
            in (case r of Inr UnmountedOk \<Rightarrow> ''unmounted'' | Inr (UnmountFailed _) \<Rightarrow> ''failed'' | Inl _ \<Rightarrow> ''error'', s1)))"

fun startup_sweep ::
    "(string \<Rightarrow> bool \<times> task_end) \<Rightarrow> string list \<Rightarrow> 'z sftp_daemon_scheme \<Rightarrow> (string \<times> string) list \<times> 'z sftp_daemon_scheme" where
  "startup_sweep outcome [] s = ([], s)"
| "startup_sweep outcome (name # names) s =
     (case strip_prefix ''sftp-'' name of
        None \<Rightarrow> startup_sweep outcome names s
      | Some did \<Rightarrow>
          (let (label, s1) = sweep_one (fst (outcome name)) (snd (outcome name)) did s;
               (labels, s2) = startup_sweep outcome names s1
           in ((name, label) # labels, s2)))"

definition known_devices :: "'z sftp_daemon_scheme \<Rightarrow> device_key set" where
  "known_devices s = dom (mounts s) \<union> dom (sftp_connections s)"

definition re_mount_if_mounted ::
    "bool \<Rightarrow> bool \<Rightarrow> task_end \<Rightarrow> task_end \<Rightarrow> device_key \<Rightarrow> sftp_info \<Rightarrow> ('z sftp_daemon_scheme, mount_status) op" where
  "re_mount_if_mounted in_time dir_ok e1 e2 did info s =
     (if \<not> acquire_mount_lock in_time did s then
        (Inr \<lparr>ms_state = lock_timeout, ms_mount_point = None\<rparr>, broadcast_update did info lock_timeout None (set_mount_state did lock_timeout s))
      else if ms_state (get_mount_status did s) \<notin> {Mounted, Mounting} then (Inr (get_mount_status did s), s)
      else (let s1 = snd (unmount_via_mounter e1 did s) in
            case e1 of
              Late _ \<Rightarrow> (let st = Failed ''remount skipped: previous unmount still draining''
                         in (Inr \<lparr>ms_state = st, ms_mount_point = None\<rparr>, broadcast_update did info st None (set_mount_state did st s1)))
            | _ \<Rightarrow> mount_device_locked dir_ok e2 did info s1))"

definition cleanup_mount_on_disconnect :: "bool \<Rightarrow> task_end \<Rightarrow> device_key \<Rightarrow> bool \<Rightarrow> 'z sftp_daemon_scheme \<Rightarrow> 'z sftp_daemon_scheme" where
  "cleanup_mount_on_disconnect in_time e did live_mount s =
     (if \<not> acquire_mount_lock in_time did s then s
      else if sftp_manager s \<and> get_generation did s \<noteq> None then s
      else if \<not> live_mount then set_mount_state did Unmounted s
      else (case unmount_via_mounter e did s of
              (Inr UnmountedOk, s1) \<Rightarrow> set_mount_state did Unmounted s1
            | (_, s1) \<Rightarrow> s1))"

section \<open>Packets\<close>

definition validate_sshfs_fields :: "string \<Rightarrow> string \<Rightarrow> string + unit" where
  "validate_sshfs_fields user path =
     (if user = [] then Inl ''empty user''
      else if starts_with user ''-'' then Inl ''user is an option''
      else if \<not> list_all (\<lambda>c. ascii_alnum c \<or> c \<in> {46, 95, 45}) (chars_of user) then Inl ''user contains other characters''
      else if \<not> starts_with path ''/'' then Inl ''remote path is not absolute''
      else Inr ())"

definition str_or :: "string \<Rightarrow> json \<Rightarrow> string \<Rightarrow> string" where
  "str_or d body k = or_default d (Option.bind (json_get body k) json_as_str)"

definition strings_of :: "json \<Rightarrow> string \<Rightarrow> string list" where
  "strings_of body k = (case Option.bind (json_get body k) json_as_array of Some js \<Rightarrow> List.map_filter json_as_str js | None \<Rightarrow> [])"

text \<open>With a connection manager the address is that of the link, without one the packet's. The port is cut
  to 16 bits.\<close>

definition sftp_address :: "device_key \<Rightarrow> json \<Rightarrow> 'z sftp_daemon_scheme \<Rightarrow> string option" where
  "sftp_address did body s =
     (if sftp_manager s then map_option (\<lambda>a. case a of SockAddr ip _ \<Rightarrow> show_ip ip) (get_peer_addr did s)
      else Some (str_or ''127.0.0.1'' body ''ip''))"

definition credentials :: "string \<Rightarrow> json \<Rightarrow> sftp_info" where
  "credentials ip body =
     \<lparr>si_ip = ip, si_port = ucast (or_default 1740 (Option.bind (json_get body ''port'') json_as_u64)),
      si_user = str_or ''kdeconnect'' body ''user'', si_password = str_or [] body ''password'', si_path = str_or ''/'' body ''path'',
      si_multi_paths = strings_of body ''multiPaths'', si_path_names = strings_of body ''pathNames''\<rparr>"

definition sftp_handle :: "bool \<Rightarrow> bool \<Rightarrow> task_end \<Rightarrow> task_end \<Rightarrow> 'z sftp_daemon_scheme handler" where
  "sftp_handle in_time dir_ok e1 e2 did pkt s =
     (let body = packet_body pkt in
      if packet_type pkt \<noteq> ''kdeconnect.sftp'' \<or> json_get body ''errorMessage'' \<noteq> None then (HResult (Inr None), s)
      else (case sftp_address did body s of
              None \<Rightarrow> (HResult (Inr None), s)
            | Some ip \<Rightarrow>
                (let info = credentials ip body in
                 case validate_sshfs_fields (si_user info) (si_path info) of
                   Inl _ \<Rightarrow> (HResult (Inr None), s)
                 | Inr _ \<Rightarrow>
                     (let s1 = set_connection did info s in
                      if ms_state (get_mount_status did s) \<in> {Mounted, Mounting} then
                        (case re_mount_if_mounted in_time dir_ok e1 e2 did info s1 of
                           (Inl err, s2) \<Rightarrow> (HResult (Inl err), s2)
                         | (Inr _, s2) \<Rightarrow> (HResult (Inr None), s2))
                      else (HResult (Inr None), broadcast_update did info Unmounted None s1)))))"

text \<open>\<open>live\<close>: whether the kernel lists the mount point.\<close>

definition sftp_disconnected :: "bool \<Rightarrow> task_end \<Rightarrow> bool \<Rightarrow> device_key \<Rightarrow> 'z sftp_daemon_scheme \<Rightarrow> 'z sftp_daemon_scheme" where
  "sftp_disconnected in_time e live did s =
     cleanup_mount_on_disconnect in_time e did live (s\<lparr>sftp_connections := hm_remove did (sftp_connections s)\<rparr>)"

section \<open>The HTTP handlers\<close>

definition api_request_sftp :: "externals \<Rightarrow> i64 \<Rightarrow> clock \<Rightarrow> device_key \<Rightarrow> ('z sftp_daemon_scheme, unit) op" where
  "api_request_sftp E pid clk did s =
     (case validate_device_id E did of
        Inl err \<Rightarrow> (Inl err, s)
      | Inr _ \<Rightarrow> if connections s did = None then (Inl (InvalidRequest ''Device is not connected''), s)
                 else send_packet E did (request_sftp pid) clk s)"

definition api_mount_sftp :: "externals \<Rightarrow> bool \<Rightarrow> bool \<Rightarrow> task_end \<Rightarrow> device_key \<Rightarrow> ('z sftp_daemon_scheme, mount_status) op" where
  "api_mount_sftp E in_time dir_ok e did s =
     (case validate_device_id E did of
        Inl err \<Rightarrow> (Inl err, s)
      | Inr _ \<Rightarrow> if \<not> mounter_available (the_mounter s) then (Inl (ServiceUnavailable ''sshfs or fusermount not found on PATH''), s)
                 else (case get_connection did s of
                         None \<Rightarrow> (Inl (InvalidRequest ''No SFTP credentials yet''), s)
                       | Some info \<Rightarrow> mount_device in_time dir_ok e did info s))"

definition api_unmount_sftp :: "externals \<Rightarrow> bool \<Rightarrow> task_end \<Rightarrow> device_key \<Rightarrow> ('z sftp_daemon_scheme, mount_status) op" where
  "api_unmount_sftp E in_time e did s =
     (case validate_device_id E did of
        Inl err \<Rightarrow> (Inl err, s)
      | Inr _ \<Rightarrow> if ms_state (get_mount_status did s) = Unmounted then (Inl (NotFound ''sftp_mount''), s)
                 else unmount_device in_time e did s)"

section \<open>What is run\<close>

text \<open>A user name without anything that a shell, \<open>ssh\<close> or an option parser would read, and an absolute path.\<close>

definition safe_info :: "sftp_info \<Rightarrow> bool" where
  "safe_info i \<longleftrightarrow> validate_sshfs_fields (si_user i) (si_path i) = Inr () \<and> (\<exists>ip. si_ip i = show_ip ip)"

definition request_of :: "string \<Rightarrow> sftp_info \<Rightarrow> mount_request" where
  "request_of mp i = \<lparr>mq_ip = si_ip i, mq_port = si_port i, mq_user = si_user i, mq_path = si_path i, mq_mount_point = mp\<rparr>"

definition permitted_mount :: "mounter \<Rightarrow> string \<Rightarrow> run \<Rightarrow> bool" where
  "permitted_mount M root r \<longleftrightarrow>
     (\<exists>prog d i. sshfs_path M = Some prog \<and> safe_info i \<and> r = (prog, build_sshfs_args (request_of (mount_point_for root d) i), Some (si_password i)))
   \<or> (\<exists>prog d. fuse_program M = Some prog \<and> r = (prog, [''-u'', mount_point_for root d], None))"

definition same_host :: "'z sftp_daemon_scheme \<Rightarrow> 'z sftp_daemon_scheme \<Rightarrow> bool" where
  "same_host s t \<longleftrightarrow> the_mounter t = the_mounter s \<and> sftp_data_dir t = sftp_data_dir s \<and> sftp_manager t = sftp_manager s"

definition sftp_ok :: "'z sftp_daemon_scheme \<Rightarrow> bool" where
  "sftp_ok s \<longleftrightarrow> sftp_manager s \<and> (\<forall>d i. sftp_connections s d = Some i \<longrightarrow> safe_info i)
     \<and> list_all (permitted_mount (the_mounter s) (sftp_data_dir s)) (sftp_runs s) \<and> distinct (map fst (draining s))"

text \<open>The operations that touch neither credentials nor runs nor locks.\<close>

lemma sftp_frames [simp]:
  "sftp_ok (set_mount_state d st s) = sftp_ok s" "sftp_ok (broadcast_update d i st mp s) = sftp_ok s"
  "sftp_ok (tell_if_known d st s) = sftp_ok s" "sftp_ok (note_mounted d r s) = sftp_ok s" "sftp_ok (note_unmounted d r' s) = sftp_ok s"
  by (simp_all add: sftp_ok_def set_mount_state_def broadcast_update_def tell_if_known_def note_mounted_def note_unmounted_def split: option.split)

lemma sftp_links [simp]: "sftp_ok (s\<lparr>connections := m, cancel_tokens := c, shutdowns := sh\<rparr>) = sftp_ok s"
  by (simp add: sftp_ok_def)

lemma state_frames [simp]:
  "the_mounter (set_mount_state d st s) = the_mounter s" "sftp_data_dir (set_mount_state d st s) = sftp_data_dir s"
  "draining (set_mount_state d st s) = draining s" "mount_point e (set_mount_state d st s) = mount_point e s"
  by (simp_all add: set_mount_state_def mount_point_def)

lemma forget_ok: "sftp_ok s \<Longrightarrow> sftp_ok (s\<lparr>sftp_connections := hm_remove d (sftp_connections s)\<rparr>)"
  by (auto simp: sftp_ok_def hm_remove_apply)

lemma mount_via_ok:
  assumes "sftp_ok s" and "did \<notin> fst ` set (draining s)" and "safe_info i"
  shows "sftp_ok (snd (mount_via_mounter dir_ok e did (request_of (mount_point did s) i) (si_password i) s))"
proof -
  let ?runs = "mount_runs (the_mounter s) dir_ok (request_of (mount_point did s) i) (si_password i)"
  have "list_all (permitted_mount (the_mounter s) (sftp_data_dir s)) ?runs"
    using assms(3) by (auto simp: mount_runs_def permitted_mount_def mount_point_def split: option.split)
  then have "sftp_ok (s\<lparr>sftp_runs := sftp_runs s @ ?runs\<rparr>)" using assms(1) by (simp add: sftp_ok_def)
  moreover from this assms(2) have "sftp_ok (s\<lparr>sftp_runs := sftp_runs s @ ?runs, draining := draining s @ [(did, t)]\<rparr>)" for t
    by (auto simp: sftp_ok_def)
  ultimately show ?thesis by (simp add: mount_via_mounter_def Let_def split: task_end.split)
qed

lemma unmount_via_ok:
  assumes "sftp_ok s" and "did \<notin> fst ` set (draining s)"
  shows "sftp_ok (snd (unmount_via_mounter e did s))"
proof -
  let ?runs = "unmount_runs (the_mounter s) (mount_point did s)"
  have "list_all (permitted_mount (the_mounter s) (sftp_data_dir s)) ?runs"
    by (auto simp: unmount_runs_def permitted_mount_def mount_point_def split: option.split)
  then have "sftp_ok (s\<lparr>sftp_runs := sftp_runs s @ ?runs\<rparr>)" using assms(1) by (simp add: sftp_ok_def)
  moreover from this assms(2) have "sftp_ok (s\<lparr>sftp_runs := sftp_runs s @ ?runs, draining := draining s @ [(did, t)]\<rparr>)" for t
    by (auto simp: sftp_ok_def)
  ultimately show ?thesis by (simp add: unmount_via_mounter_def Let_def split: task_end.split)
qed

lemma unmount_via_unlocked: "\<forall>r. e \<noteq> Late r \<Longrightarrow> draining (snd (unmount_via_mounter e did s)) = draining s"
  by (cases e) (simp_all add: unmount_via_mounter_def note_unmounted_def Let_def)

lemma mount_locked_ok:
  assumes "sftp_ok s" and "did \<notin> fst ` set (draining s)" and "safe_info i"
  shows "sftp_ok (snd (mount_device_locked dir_ok e did i s))"
proof -
  obtain r t where rt: "mount_via_mounter dir_ok e did (request_of (mount_point did s) i) (si_password i) (set_mount_state did Mounting s) = (r, t)"
    by fastforce
  with mount_via_ok [of "set_mount_state did Mounting s" did i dir_ok e] assms have "sftp_ok t" by simp
  with rt show ?thesis by (cases r) (simp_all add: mount_device_locked_def Let_def request_of_def)
qed

lemma mount_device_ok: "sftp_ok s \<Longrightarrow> safe_info i \<Longrightarrow> sftp_ok (snd (mount_device in_time dir_ok e did i s))"
  by (simp add: mount_device_def acquire_mount_lock_def mount_locked_ok)

lemma unmount_device_ok: "sftp_ok s \<Longrightarrow> sftp_ok (snd (unmount_device in_time e did s))"
proof -
  assume ok: "sftp_ok s"
  obtain r t where rt: "unmount_via_mounter e did s = (r, t)" by fastforce
  with unmount_via_ok [OF ok] have "did \<notin> fst ` set (draining s) \<Longrightarrow> sftp_ok t" by (metis snd_conv)
  with ok rt show ?thesis
    by (cases r) (auto simp: unmount_device_def acquire_mount_lock_def Let_def intro: forget_ok split: unmount_outcome.split)
qed

lemma cleanup_device_ok: "sftp_ok s \<Longrightarrow> sftp_ok (cleanup_device in_time found e did s)"
  by (simp add: cleanup_device_def Let_def forget_ok acquire_mount_lock_def unmount_via_ok)

lemma cleanup_all_ok: "sftp_ok s \<Longrightarrow> sftp_ok (cleanup_all outcome devs s)"
  unfolding cleanup_all_def by (induction devs arbitrary: s) (simp_all add: cleanup_device_ok split: prod.split)

lemma sweep_one_ok: "sftp_ok s \<Longrightarrow> sftp_ok (snd (sweep_one in_time e did s))"
  by (simp add: sweep_one_def acquire_mount_lock_def unmount_via_ok split_beta Let_def)

lemma startup_sweep_ok: "sftp_ok s \<Longrightarrow> sftp_ok (snd (startup_sweep outcome names s))"
  by (induction names arbitrary: s) (auto simp: split_beta Let_def sweep_one_ok split: option.split)

lemma re_mount_ok:
  assumes "sftp_ok s" and "safe_info i"
  shows "sftp_ok (snd (re_mount_if_mounted in_time dir_ok e1 e2 did i s))"
proof (cases "acquire_mount_lock in_time did s")
  case True
  then have free: "did \<notin> fst ` set (draining s)" by (simp add: acquire_mount_lock_def)
  let ?t = "snd (unmount_via_mounter e1 did s)"
  have t: "sftp_ok ?t" by (rule unmount_via_ok [OF assms(1) free])
  have "sftp_ok (snd (mount_device_locked dir_ok e2 did i ?t))" if "\<forall>r. e1 \<noteq> Late r"
    using mount_locked_ok [OF t _ assms(2)] free unmount_via_unlocked [OF that, of did s] by simp
  with True t assms(1) show ?thesis by (cases e1) (simp_all add: re_mount_if_mounted_def Let_def)
qed (use assms in \<open>simp add: re_mount_if_mounted_def\<close>)

lemma credentials_safe:
  assumes "sftp_manager s" and "sftp_address did body s = Some ip"
    and "validate_sshfs_fields (si_user (credentials ip body)) (si_path (credentials ip body)) = Inr ()"
  shows "safe_info (credentials ip body)"
proof -
  from assms(1,2) obtain a port where "get_peer_addr did s = Some (SockAddr a port)" "ip = show_ip a"
    by (cases "get_peer_addr did s"; cases "the (get_peer_addr did s)") (auto simp: sftp_address_def)
  with assms(3) show ?thesis by (auto simp: safe_info_def credentials_def)
qed

lemma set_connection_ok: "sftp_ok s \<Longrightarrow> safe_info i \<Longrightarrow> sftp_ok (set_connection did i s)"
  by (auto simp: sftp_ok_def set_connection_def)

lemma sftp_handle_ok: "sftp_ok s \<Longrightarrow> sftp_ok (snd (sftp_handle in_time dir_ok e1 e2 did pkt s))"
proof -
  assume ok: "sftp_ok s"
  have "sftp_ok (snd (case re_mount_if_mounted in_time dir_ok e1 e2 did i (set_connection did i s) of
      (Inl err, s2) \<Rightarrow> (HResult (Inl err), s2) | (Inr _, s2) \<Rightarrow> (HResult (Inr None), s2)))" if "safe_info i" for i
    using re_mount_ok [OF set_connection_ok [OF ok that] that, of in_time dir_ok e1 e2 did did]
    by (cases "re_mount_if_mounted in_time dir_ok e1 e2 did i (set_connection did i s)";
        cases "fst (re_mount_if_mounted in_time dir_ok e1 e2 did i (set_connection did i s))") auto
  with ok set_connection_ok [OF ok] credentials_safe [of s did "packet_body pkt"] show ?thesis
    by (auto simp: sftp_handle_def Let_def sftp_ok_def [of s] split: option.split sum.split)
qed

lemma sftp_disconnected_ok: "sftp_ok s \<Longrightarrow> sftp_ok (sftp_disconnected in_time e live did s)"
proof -
  assume "sftp_ok s"
  then have ok: "sftp_ok (s\<lparr>sftp_connections := hm_remove did (sftp_connections s)\<rparr>)" by (rule forget_ok)
  obtain r t where rt: "unmount_via_mounter e did (s\<lparr>sftp_connections := hm_remove did (sftp_connections s)\<rparr>) = (r, t)" by fastforce
  with unmount_via_ok [OF ok, of did e] have "did \<notin> fst ` set (draining s) \<Longrightarrow> sftp_ok t" by simp
  with ok rt show ?thesis
    by (cases r) (auto simp: sftp_disconnected_def cleanup_mount_on_disconnect_def acquire_mount_lock_def split: unmount_outcome.split)
qed

lemma late_task_ok: "sftp_ok s \<Longrightarrow> sftp_ok (late_task_ends i s)"
proof -
  assume ok: "sftp_ok s"
  have "distinct (map fst (take i (draining s) @ drop (Suc i) (draining s)))"
    using ok set_take_disj_set_drop_if_distinct [of "map fst (draining s)" i "Suc i"]
    by (simp add: sftp_ok_def take_map drop_map flip: set_map) (simp add: take_map [symmetric] drop_map [symmetric])
  with ok have "sftp_ok (s\<lparr>draining := take i (draining s) @ drop (Suc i) (draining s)\<rparr>)" by (simp add: sftp_ok_def)
  with ok show ?thesis by (simp add: late_task_ends_def Let_def split: prod.split late_task.split)
qed

text \<open>Everything that happens to the plugin: packets, disconnections, HTTP requests, start and end of the daemon, late
  tasks that end, and links that come and go.\<close>

inductive sftp_step :: "externals \<Rightarrow> 'z sftp_daemon_scheme \<Rightarrow> 'z sftp_daemon_scheme \<Rightarrow> bool" for E where
  sf_packet: "sftp_step E s (snd (sftp_handle in_time dir_ok e1 e2 did pkt s))"
| sf_gone: "sftp_step E s (sftp_disconnected in_time e live did s)"
| sf_mount: "sftp_step E s (snd (api_mount_sftp E in_time dir_ok e did s))"
| sf_unmount: "sftp_step E s (snd (api_unmount_sftp E in_time e did s))"
| sf_request: "sftp_step E s (snd (api_request_sftp E pid clk did s))"
| sf_cleanup: "sftp_step E s (cleanup_all outcome devs s)"
| sf_sweep: "sftp_step E s (snd (startup_sweep results names s))"
| sf_late: "sftp_step E s (late_task_ends i s)"
| sf_links: "sftp_step E s (s\<lparr>connections := m, cancel_tokens := c, shutdowns := sh\<rparr>)"

lemma api_mount_ok: "sftp_ok s \<Longrightarrow> sftp_ok (snd (api_mount_sftp E in_time dir_ok e did s))"
  using mount_device_ok [of s _ in_time dir_ok e did]
  by (auto simp: api_mount_sftp_def get_connection_def sftp_ok_def [of s] split: sum.split option.split)

lemma api_unmount_ok: "sftp_ok s \<Longrightarrow> sftp_ok (snd (api_unmount_sftp E in_time e did s))"
  by (simp add: api_unmount_sftp_def unmount_device_ok split: sum.split)

lemma api_request_ok: "sftp_ok s \<Longrightarrow> sftp_ok (snd (api_request_sftp E pid clk did s))"
  using send_packet_keeps [where f = sftp_ok, of E did "request_sftp pid" clk s] by (simp add: api_request_sftp_def split: sum.split)

lemmas sftp_oks = sftp_handle_ok sftp_disconnected_ok api_mount_ok api_unmount_ok api_request_ok cleanup_all_ok startup_sweep_ok late_task_ok

interpretation browsing: machine "sftp_step E" sftp_ok
proof
  show "sftp_step E s t \<Longrightarrow> sftp_ok s \<Longrightarrow> sftp_ok t" for s t :: "'a sftp_daemon_scheme"
    by (induction rule: sftp_step.induct) (simp_all add: sftp_oks)
qed

lemma safe_info_user:
  assumes "safe_info i"
  shows "si_user i \<noteq> [] \<and> hd (si_user i) \<noteq> CHR ''-'' \<and> list_all (\<lambda>c. ascii_alnum c \<or> c \<in> {46, 95, 45}) (chars_of (si_user i))
     \<and> starts_with (si_path i) ''/'' \<and> (\<exists>ip. si_ip i = show_ip ip)"
  using assms by (cases "si_user i") (auto simp: safe_info_def validate_sshfs_fields_def starts_with_def split: if_splits)

lemma permitted_spelled:
  assumes "permitted_mount M root r"
  shows "case r of (prog, args, inp) \<Rightarrow>
       (\<exists>d. args = [''-u'', mount_point_for root d] \<and> inp = None)
     \<or> (\<exists>d user ip path port. args = [user @ ''@'' @ show_ip ip @ '':'' @ path, mount_point_for root d, ''-p'', show_nat (unat (port :: u16)),
            ''-o'', ''password_stdin'', ''-o'', ''StrictHostKeyChecking=no'', ''-o'', ''UserKnownHostsFile=/dev/null'',
            ''-o'', ''reconnect'', ''-o'', ''ServerAliveInterval=30'']
          \<and> user \<noteq> [] \<and> hd user \<noteq> CHR ''-'' \<and> list_all (\<lambda>c. ascii_alnum c \<or> c \<in> {46, 95, 45}) (chars_of user)
          \<and> starts_with path ''/'')"
  using assms unfolding permitted_mount_def
proof (elim disjE exE conjE, goal_cases)
  case (1 prog d i)
  from safe_info_user [OF 1(2)] obtain ip where "si_ip i = show_ip ip" by blast
  with safe_info_user [OF 1(2)] 1(3) show ?case
    by (simp add: build_sshfs_args_def request_of_def) blast
next
  case (2 prog d)
  then show ?case by auto
qed


definition demo_mounter :: mounter where
  "demo_mounter = \<lparr>sshfs_path = Some ''/usr/bin/sshfs'', fusermount3_path = Some ''/usr/bin/fusermount3'', fusermount_path = None\<rparr>"

definition demo_sftp :: sftp_daemon where
  "demo_sftp = daemon.extend demo_daemon (sftp_daemon.fields Map.empty Map.empty ''/var/lib/rc'' demo_mounter [] True [] [] {})"

lemma demo_sftp_simps [simp]:
  "sftp_connections demo_sftp = Map.empty" "mounts demo_sftp = Map.empty" "sftp_manager demo_sftp" "draining demo_sftp = []" "sftp_runs demo_sftp = []"
  by (simp_all add: demo_sftp_def daemon.extend_def sftp_daemon.fields_def)

definition demo_offer :: packet where
  "demo_offer = new_packet 1 ''kdeconnect.sftp'' (JObj [(''port'', JNum (PosInt 1740)), (''user'', JStr ''kdeconnect''), (''password'', JStr ''pw''), (''path'', JStr ''/sd'')])"


section \<open>Late tasks\<close>

text \<open>A mount that takes longer than the limit and then succeeds is mounted, and recorded as failed: later credentials do
  not mount it again, and a disconnect finds it only through the kernel's list.\<close>

theorem late_mount_unnoticed:
  assumes "sshfs_path (the_mounter s) = Some prog" and "draining s = []"
  shows "let t = late_task_ends 0 (snd (mount_device True True (Late (RunEnds 0 out err)) did i s))
         in did \<in> host_mounts t \<and> mounts t did = Some (Failed ''sshfs mount timed out'')"
  using assms
  by (simp add: mount_device_def acquire_mount_lock_def mount_device_locked_def mount_via_mounter_def Let_def late_task_ends_def
      set_mount_state_def broadcast_update_def note_mounted_def mounter_mount_def state_after_mount_def)

text \<open>A device disconnects and its file system is unmounted, but not within the limit: it stays recorded as mounted.\<close>

theorem late_unmount_unnoticed:
  assumes "fuse_program (the_mounter s) = Some prog" and "draining s = []" and "connections s did = None" and "mounts s did = Some Mounted"
  shows "let t = late_task_ends 0 (sftp_disconnected True (Late (RunEnds 0 out err)) True did s)
         in did \<notin> host_mounts t \<and> ms_state (get_mount_status did t) = Mounted"
  using assms
  by (simp add: sftp_disconnected_def cleanup_mount_on_disconnect_def acquire_mount_lock_def unmount_via_mounter_def Let_def late_task_ends_def
      note_unmounted_def mounter_unmount_def get_mount_status_def get_generation_def)

text \<open>A port beyond 16 bits is not refused but cut: 65558 is used as 22.\<close>

theorem port_is_cut: "si_port (credentials ip (JObj [(''port'', JNum (PosInt 65558))])) = 22"
  by (simp add: credentials_def or_default_def)

end
