(* ===== verification/Spec2Isabelle.thy ===== *)
theory Spec2Isabelle
  imports Discovery Share Api_Access Api_Devices Contacts Notification Runcommand Clipboard Pausemusic Sftp
begin

text \<open>
  A verification development for rust-connect, a KDE Connect daemon in Rust (\<open>src/src\<close>).

  \<^bold>\<open>The program.\<close> The daemon has an identity (a device id and a self-signed certificate,
  \<open>protocol/own_identity.rs\<close>, \<open>protocol/crypto.rs\<close>). Peers find it, or it finds them, and
  a TCP connection starts with an identity line in the clear, a TLS handshake in which each
  side checks the other's certificate against the fingerprint it pinned at pairing time
  (trust on first use), and for outgoing connections a second, encrypted identity line
  (\<open>protocol/connection\<close>). Each link then has a loop that reads one JSON packet per line:
  pair packets drive the pairing handler (\<open>protocol/pairing\<close>), other packets of paired
  devices go to the packet router and the plugins (\<open>protocol/connection_loop.rs\<close>,
  \<open>protocol/router.rs\<close>, \<open>plugins/registry.rs\<close>). A registry keeps the device records and a
  lifecycle manager their states (\<open>device\<close>).

  \<^bold>\<open>How it is modelled.\<close> Functions of the code are HOL functions with the same names, in
  the order of the code. An operation on shared state takes the state and returns a result
  and the new state (\<open>('s, 'a) op\<close>), errors are values (\<open>error + 'a\<close>), and every early
  return and error mapping is a branch. The locks of the code make an operation atomic with
  respect to the data it holds the lock for; an operation is one step here, and what can
  happen between operations is covered by step relations that interleave them in any order.
  The state is one record that the components extend in turn: \<open>shared\<close> (disk, certificate
  manager, event bus) in \<open>Disk\<close> and \<open>Crypto\<close>, \<open>pairing_handler\<close>, \<open>registry\<close>,
  \<open>conn_mgr\<close>, \<open>daemon\<close>; operations are polymorphic in the extension, so each
  component is proved once and used by the later ones as it is. Byte strings are
  \<open>string\<close>s (the UTF-8 bytes), machine integers are words of their width, hash maps are
  partial functions and a sweep over one takes its order as an argument; time is read
  through a \<open>clock\<close> argument, one position per reading, so nothing is assumed of clocks.
  Disk calls, socket reads and socket writes take their outcomes from scripts in the state
  (\<open>script\<close>, \<open>rd\<close>, \<open>wr\<close>): theorems hold for every pattern of failures.

  \<^bold>\<open>Theories.\<close>
  \<^item> \<open>RC_Prelude\<close>: results, hash maps, time, step relations, the locale \<open>machine\<close> (steps that
    keep an invariant). \<open>Text\<close>: UTF-8, trimming, lines, hex. \<open>Json\<close>: JSON values.
    \<open>Disk\<close>: files with modes and failing calls.
  \<^item> \<open>Errors\<close>: \<open>utils/errors.rs\<close>. \<open>Protocol_Types\<close>: \<open>protocol/types.rs\<close> (identities,
    packets, lenient decoders). \<open>Identity\<close>: \<open>protocol/packet.rs\<close>, \<open>protocol/mod.rs\<close>, device-id
    validation; round trips of packets and identities, soundness of accepted identities.
  \<^item> \<open>Crypto\<close>: \<open>protocol/crypto.rs\<close>, the certificate directory and trust store. The pin of a
    device binds all later certificates, whatever fails; keys are private; both sides compute
    one verification key. \<open>Own_Identity\<close>: \<open>protocol/own_identity.rs\<close>; every identity that
    start-up returns agrees with the certificate and the id file.
  \<^item> \<open>Device_Types\<close>, \<open>Registry\<close>: \<open>device/types.rs\<close>, \<open>device/registry.rs\<close>,
    \<open>device/lifecycle.rs\<close>; the cap on unpaired records, legal transitions, pruning.
  \<^item> \<open>Pairing\<close>: \<open>protocol/pairing/mod.rs\<close>; the trust invariant over all interleavings, what
    accepting, expiring, repeating and refusing a request does, persistence.
  \<^item> \<open>Framing\<close>: the line readers of \<open>protocol/connection/mod.rs\<close>. Both are shown to cut the
    byte stream in lines as an abstract specification says (locale \<open>line_reader\<close>), within their
    buffers, and the receive loop to return the packets that were sent.
  \<^item> \<open>Tls\<close>: \<open>protocol/connection/tls.rs\<close>. \<open>Connection\<close>: the rest of
    \<open>protocol/connection\<close> and \<open>protocol/udp_unicast.rs\<close>; what both handshakes have checked
    when they succeed and leave alone when they fail, the invariant of the table of links, and
    the locale \<open>generation_guard\<close>: operations for an old generation do nothing.
  \<^item> \<open>Router\<close>: \<open>protocol/router.rs\<close>, \<open>plugins/registry.rs\<close>, \<open>init_plugins\<close> of
    \<open>app.rs\<close>; routing against an abstract rule, exact capability lookups.
  \<^item> \<open>Packet_Loop\<close>: \<open>protocol/connection_loop.rs\<close> and \<open>send_plugin_init_packets\<close> of
    \<open>app.rs\<close>. One turn of the loop composes all of the above; trust is kept, a peer cannot
    pair itself, unpaired peers do not reach plugins, and a superseded loop stops quietly.
  \<^item> \<open>Sessions\<close>: \<open>protocol/listener.rs\<close>, \<open>services/connection_orchestrator.rs\<close>: a connection
    from the socket to the end of its loop, inbound, announced, redialled or asked for by a user,
    with other tasks running between its steps. Sessions are authenticated, keep the trust and
    clean up after themselves. \<open>Discovery\<close>: \<open>protocol/discovery.rs\<close>, the parsing part of
    \<open>protocol/mdns_discovery.rs\<close>, \<open>services/service_manager.rs\<close> and the broadcast fallback;
    announcements are heard, and only sound ones passed on.
  \<^item> \<open>Net_Text\<close>: numbers and addresses as text. \<open>Payload\<close>: \<open>protocol/payload_transfer.rs\<close>;
    what arrives is what was sent, under a name that was free, from the pinned peer, within its
    limits, and a failed transfer is undone (locales \<open>sink\<close> and \<open>receiver\<close>).
    \<open>Share\<close>: \<open>plugins/share.rs\<close>, the plugin that receives files, text and links;
    bounded work, files confined to the download directory, only harmless links opened.
  \<^item> \<open>Api_Access\<close>: \<open>config/settings.rs\<close>, \<open>load_config\<close> of \<open>bootstrap.rs\<close>, \<open>api/auth.rs\<close>,
    \<open>api/middleware.rs\<close>, \<open>api/router.rs\<close>; keys, who is served and how often.
    \<open>Api_Devices\<close>: \<open>api/handlers/device.rs\<close> over the daemon's state; requests keep the trust,
    pair only what was told so, and remove completely.

  \<^item> \<open>Device_Data\<close>: the plugins that keep what a device reports, \<open>plugins/battery.rs\<close>,
    \<open>connectivity.rs\<close>, \<open>lock.rs\<close>, \<open>remotecommands.rs\<close>, \<open>telephony.rs\<close>, \<open>sms.rs\<close>,
    \<open>remotekeyboard.rs\<close>. All meet the contracts \<open>device_view\<close> and \<open>device_data\<close>, alone and
    assembled behind the router: no device touches another's data and none outlives its link;
    tables are bounded, the call log refines the plain list of calls.
    \<open>Contacts\<close>: \<open>plugins/contacts.rs\<close>; one exchange brings the store up to date, it stays
    bounded, and vCards are read back. \<open>Notification\<close>: \<open>plugins/notification.rs\<close>;
    one entry per notification, repeated ones post nothing, text is neutral, icons are confined.
  \<^item> \<open>Processes\<close>: child processes and lossy text. \<open>Runcommand\<close>: \<open>plugins/runcommand.rs\<close>; only
    configured commands run, and the advertised list is exactly what runs. \<open>Fan_Out\<close>: one packet to
    many links, and \<open>plugins/sendnotifications.rs\<close>, which asks for the pairing. \<open>Clipboard\<close>:
    \<open>plugins/clipboard.rs\<close> and its HTTP handlers; between daemons a copied text arrives everywhere and
    comes to rest. The same theory shows where this ends: reports that are handled late
    (\<open>stale_reports_go_round\<close>), and devices that are not paired (\<open>clipboard_reaches_unpaired\<close>).
  \<^item> \<open>Mpris\<close>: \<open>plugins/mpris\<close>, the players of this desktop and of the devices. The cache follows the bus,
    requests only reach the player they name and its own cover, players of a device are bounded, an answer
    is read back; \<open>album_art_sent_twice\<close>, \<open>mpris_partial_update_erases\<close> and \<open>late_report_lingers\<close> show where
    the code departs from what it means. \<open>System_Volume\<close>: \<open>plugins/systemvolume\<close>; only harmless commands reach
    the sound server, and a peer's table follows ours; \<open>quick_reconnect_not_synced\<close> shows a gap. \<open>Pausemusic\<close>: \<open>plugins/pausemusic.rs\<close>; after a call every player is as it
    was before. \<open>Sftp\<close>: \<open>plugins/sftp\<close> and its HTTP handlers; devices cannot inject anything into the commands that
    mount their files; \<open>late_mount_unnoticed\<close>, \<open>late_unmount_unnoticed\<close> and \<open>port_is_cut\<close> show its limits.

  \<^bold>\<open>Libraries as parameters.\<close> The record \<open>externals\<close> holds what the code calls in other
  packages: Unicode tables beyond ASCII, the JSON text codec, SHA-256, base64, X.509 parsing
  and signing, key encoding. The record \<open>rustls\<close> holds the PEM readers and the acceptance of
  certificate and key by the TLS library, \<open>tls_peer\<close> the other side of a handshake. Plugins
  are parameters of the router and the loop; the ones modelled are values of that type. The notification
  server, the shell, the session bus, \<open>pactl\<close> and the clipboard programs of the desktop enter as the outcomes of calling them. A property that needs something of them says so
  as a hypothesis, and its witness instantiates them.

  \<^bold>\<open>Bounds and termination.\<close> All definitions are total functions: the readers and the
  receive loop recurse on the input that is left, sweeps on their lists, the advertisement on
  its three passes; there is no fuel. One call of \<open>loop_turn\<close> is one iteration of the
  loop; a session is run for the turns its schedule has, and counts as running when it has not
  ended by then.

  \<^bold>\<open>Not modelled.\<close> The transcript and replay of the wire traffic, logging, TCP keep-alive
  options, the set-up of sockets, the spawning and joining of tasks, the report on packet storms,
  the command line client, most HTTP handlers of single plugins, the plugins not named above
  (drivers of desktop services), and functions that only test builds contain. The TOML codec, the
  web framework's matching of paths and the mDNS library are parameters or left aside. Texts of
  error messages keep their fixed part. Nothing is said about memory, performance, or the
  cancellation of an operation in its middle.
\<close>

end
